(* ===== verification/Prelude.thy ===== *)
theory Prelude
  imports Main "HOL-Library.Word"
begin

text \<open>
  Shared vocabulary of the development: the machine types of the C sources, reading and
  writing them in byte arrays, pointwise XOR of byte arrays, loops that fill an array from
  left to right, and exhaustive reasoning over all bytes. Every component theory imports
  this one.
\<close>

unbundle bit_operations_syntax

section \<open>Machine types\<close>

type_synonym u8 = "8 word"
type_synonym u16 = "16 word"
type_synonym u32 = "32 word"
type_synonym u64 = "64 word"
type_synonym bytes = "u8 list"

named_theorems bytes_simps \<open>lengths and positions of byte arrays\<close>

text \<open>C string literals as bytes, without the terminating NUL.\<close>

definition ascii :: "string \<Rightarrow> bytes" where
  "ascii s = map of_char s"

section \<open>All bytes\<close>

definition all_u8 :: "(u8 \<Rightarrow> bool) \<Rightarrow> bool" where
  "all_u8 P = list_all P (map word_of_nat [0..<256])"

lemma unat_u8_less [simp]: "unat (x :: u8) < 256"
proof -
  have "unat x < 2 ^ 8"
    by (rule order.strict_trans2 [OF unsigned_less]) simp
  then show ?thesis by simp
qed

lemma unat_word_of_nat_u8 [simp]: "n < 256 \<Longrightarrow> unat (word_of_nat n :: u8) = n"
  by (simp add: unsigned_of_nat take_bit_nat_eq_self)

lemma all_u8_D:
  assumes "all_u8 P"
  shows "P x"
proof -
  have "unat x < 256" by simp
  moreover have "\<forall>n<256. P (word_of_nat n)"
    using assms by (simp add: all_u8_def list_all_iff)
  ultimately have "P (word_of_nat (unat x))" by blast
  then show ?thesis by simp
qed

section \<open>Pointwise XOR\<close>

definition xor_bytes :: "bytes \<Rightarrow> bytes \<Rightarrow> bytes" where
  "xor_bytes xs ys = map2 (\<lambda>x y. x XOR y) xs ys"

lemma length_xor_bytes [simp, bytes_simps]:
  "length (xor_bytes xs ys) = min (length xs) (length ys)"
  by (simp add: xor_bytes_def)

lemma xor_bytes_cancel:
  "length xs = length ys \<Longrightarrow> xor_bytes (xor_bytes xs ys) ys = xs"
  by (induction xs ys rule: list_induct2) (auto simp: xor_bytes_def xor.assoc)

lemma nth_xor_bytes:
  "i < length xs \<Longrightarrow> i < length ys \<Longrightarrow> xor_bytes xs ys ! i = xs ! i XOR ys ! i"
  by (simp add: xor_bytes_def)

section \<open>Loops that fill an array from left to right\<close>

lemma fold_list_update:
  assumes "n \<le> length xs"
  shows "fold (\<lambda>i ys. ys[i := f i]) [0..<n] xs = map f [0..<n] @ drop n xs"
  using assms
proof (induction n)
  case 0
  then show ?case by simp
next
  case (Suc n)
  then have "fold (\<lambda>i ys. ys[i := f i]) [0..<n] xs = map f [0..<n] @ drop n xs"
    by simp
  moreover have "drop n xs = xs ! n # drop (Suc n) xs"
    using Suc.prems by (simp add: Cons_nth_drop_Suc)
  ultimately show ?case
    by (simp add: list_update_append)
qed

lemma length_fold_update [simp, bytes_simps]:
  "length (fold (\<lambda>i ys. ys[a i := v i]) is xs) = length xs"
  by (induction "is" arbitrary: xs) auto

text \<open>Writes at scattered but distinct addresses; \<open>g\<close> finds the write that hit an address.\<close>

lemma nth_fold_scatter:
  assumes "\<And>i. i \<in> set is \<Longrightarrow> a i < length xs \<and> g (a i) = i" and "j < length xs"
  shows "fold (\<lambda>i ys. ys[a i := v i]) is xs ! j =
           (if g j \<in> set is \<and> a (g j) = j then v (g j) else xs ! j)"
  using assms(1)
proof (induction "is" rule: rev_induct)
  case Nil
  then show ?case by simp
next
  case (snoc i "is")
  let ?ys = "fold (\<lambda>i ys. ys[a i := v i]) is xs"
  have IH: "?ys ! j = (if g j \<in> set is \<and> a (g j) = j then v (g j) else xs ! j)"
    using snoc by simp
  have i: "a i < length ?ys" "g (a i) = i"
    using snoc.prems [of i] by simp_all
  show ?case
  proof (cases "a i = j")
    case True
    then show ?thesis using i by auto
  next
    case False
    then have "?ys[a i := v i] ! j = ?ys ! j" by simp
    moreover have "g j \<in> set (is @ [i]) \<and> a (g j) = j \<longleftrightarrow> g j \<in> set is \<and> a (g j) = j"
      using False by auto
    ultimately show ?thesis using IH by simp
  qed
qed

lemma list_update_next:
  assumes "n < length xs"
  shows "(map f [0..<n] @ drop n xs)[n := v] = map f [0..<n] @ v # drop (Suc n) xs"
proof -
  have "drop n xs = xs ! n # drop (Suc n) xs"
    using assms by (simp add: Cons_nth_drop_Suc)
  then show ?thesis
    by (simp add: list_update_append)
qed

section \<open>Tables as indexed equations\<close>

text \<open>
  A 256-entry literal is turned into 256 equations \<open>xs ! i = x\<close>, one rewrite rule per index,
  so that a lookup at a concrete index is one step of the simplifier.
\<close>

lemma upt_256: "[0..<256] = 0 # 1 # [2..<256]"
  by (simp add: upt_conv_Cons numeral_2_eq_2)

lemma nth_table: "xs = ys \<Longrightarrow> map (\<lambda>i. xs ! i) [0..<length xs] = ys"
  by (simp add: map_nth)

section \<open>Little-endian 32-bit words in byte arrays\<close>

definition le32 :: "u8 \<Rightarrow> u8 \<Rightarrow> u8 \<Rightarrow> u8 \<Rightarrow> u32" where
  "le32 b0 b1 b2 b3 =
     ucast b0 OR push_bit 8 (ucast b1) OR push_bit 16 (ucast b2) OR push_bit 24 (ucast b3)"

definition byte_of :: "nat \<Rightarrow> u32 \<Rightarrow> u8" where
  "byte_of k w = ucast (drop_bit (8 * k) w)"

lemma bit_le32:
  "bit (le32 b0 b1 b2 b3) n \<longleftrightarrow>
     (if n < 8 then bit b0 n else if n < 16 then bit b1 (n - 8)
      else if n < 24 then bit b2 (n - 16) else n < 32 \<and> bit b3 (n - 24))"
proof -
  have out: "\<not> bit b n" if "8 \<le> n" for b :: u8 and n
    using that bit_imp_le_length [of b n] by auto
  show ?thesis
    by (auto simp: le32_def bit_or_iff bit_push_bit_iff bit_ucast_iff out)
qed

lemma byte_of_le32 [simp]:
  "byte_of 0 (le32 b0 b1 b2 b3) = b0" "byte_of (Suc 0) (le32 b0 b1 b2 b3) = b1"
  "byte_of 2 (le32 b0 b1 b2 b3) = b2" "byte_of 3 (le32 b0 b1 b2 b3) = b3"
  by (rule bit_eqI, simp add: byte_of_def bit_ucast_iff bit_drop_bit_eq bit_le32)+

lemma le32_byte_of [simp]: "le32 (byte_of 0 w) (byte_of (Suc 0) w) (byte_of 2 w) (byte_of 3 w) = w"
  by (rule bit_word_eqI) (auto simp: byte_of_def bit_ucast_iff bit_drop_bit_eq bit_le32)

lemma byte_of_xor: "byte_of k (v XOR w) = byte_of k v XOR byte_of k w"
  by (rule bit_word_eqI) (auto simp: byte_of_def bit_ucast_iff bit_drop_bit_eq bit_xor_iff)

lemma le32_xor:
  "le32 a0 a1 a2 a3 XOR le32 b0 b1 b2 b3 =
     le32 (a0 XOR b0) (a1 XOR b1) (a2 XOR b2) (a3 XOR b3)"
  by (rule bit_word_eqI) (auto simp: bit_le32 bit_xor_iff)

lemma le32_eq_iff:
  "le32 a0 a1 a2 a3 = le32 b0 b1 b2 b3 \<longleftrightarrow> a0 = b0 \<and> a1 = b1 \<and> a2 = b2 \<and> a3 = b3"
  by (metis byte_of_le32)

section \<open>Memory\<close>

text \<open>
  Writing bytes at an address of a buffer, and the C string at the start of one; \<open>None\<close> is an access
  outside of the buffer.
\<close>

definition put_at :: "bytes \<Rightarrow> nat \<Rightarrow> bytes \<Rightarrow> bytes option" where
  "put_at mem p xs =
     (if p + length xs \<le> length mem then Some (take p mem @ xs @ drop (p + length xs) mem) else None)"

definition c_str :: "bytes \<Rightarrow> bytes option" where
  "c_str mem = (if 0 \<in> set mem then Some (takeWhile (\<lambda>c. c \<noteq> 0) mem) else None)"

lemma put_at_SomeD: "put_at mem p xs = Some mem' \<Longrightarrow> length mem' = length mem \<and> p + length xs \<le> length mem"
  by (auto simp: put_at_def split: if_splits)

lemma put_at_0: "length xs \<le> length mem \<Longrightarrow> put_at mem 0 xs = Some (xs @ drop (length xs) mem)"
  by (simp add: put_at_def)

lemma c_str_nul [simp]: "0 \<notin> set s \<Longrightarrow> c_str (s @ 0 # rest) = Some s"
  by (induction s) (auto simp: c_str_def)

lemma c_str_zeros: "0 \<notin> set s \<Longrightarrow> 0 < n \<Longrightarrow> c_str (s @ replicate n 0) = Some s"
  by (cases n) simp_all

end
