(* ===== verification/Aes_Tables.thy ===== *)
theory Aes_Tables
  imports Prelude
begin

text \<open>
  The lookup tables of \<open>srl/aes.c\<close>. The file holds them twice: as constant data, compiled
  under \<open>POLARSSL_AES_ROM_TABLES\<close>, and as \<open>aes_gen_tables\<close>, which fills the static arrays
  on the first key schedule. Both are modelled, and they are shown to be the same tables.
  The second half derives what the block cipher needs: the two S-boxes are inverse to each
  other, and the round tables are the S-boxes followed by the forward and the inverse
  column mixing.
\<close>

section \<open>The generated tables\<close>

text \<open>
  The C code computes in \<open>int\<close>; every intermediate value is below 512, so the model uses
  unbounded integers. A static array starts as zeros. The automatic arrays \<open>pow\<close> and
  \<open>log\<close> start undefined: the entry \<open>log[0]\<close> stays so, and every read of \<open>log\<close> below is at
  a non-zero index.
\<close>

record aes_tables =
  FSb :: bytes
  FT0 :: "u32 list"
  FT1 :: "u32 list"
  FT2 :: "u32 list"
  FT3 :: "u32 list"
  RSb :: bytes
  RT0 :: "u32 list"
  RT1 :: "u32 list"
  RT2 :: "u32 list"
  RT3 :: "u32 list"
  RCON :: "u32 list"

definition static_tables :: aes_tables where
  "static_tables =
     \<lparr>FSb = replicate 256 0, FT0 = replicate 256 0, FT1 = replicate 256 0,
      FT2 = replicate 256 0, FT3 = replicate 256 0, RSb = replicate 256 0,
      RT0 = replicate 256 0, RT1 = replicate 256 0, RT2 = replicate 256 0,
      RT3 = replicate 256 0, RCON = replicate 10 0\<rparr>"

definition ROTL8 :: "u32 \<Rightarrow> u32" where
  "ROTL8 x = (push_bit 8 x AND 0xFFFFFFFF) OR drop_bit 24 x"

definition XTIME :: "int \<Rightarrow> int" where
  "XTIME x = push_bit 1 x XOR (if x AND 0x80 \<noteq> 0 then 0x1B else 0)"

definition MUL :: "int list \<Rightarrow> int list \<Rightarrow> int \<Rightarrow> int \<Rightarrow> int" where
  "MUL pow log x y =
     (if x \<noteq> 0 \<and> y \<noteq> 0 then pow ! nat ((log ! nat x + log ! nat y) mod 255) else 0)"

definition gen_powlog_step ::
  "nat \<Rightarrow> int \<times> int list \<times> int list \<Rightarrow> int \<times> int list \<times> int list" where
  "gen_powlog_step i = (\<lambda>(x, pow, log).
     ((x XOR XTIME x) AND 0xFF, pow[i := x], log[nat x := int i]))"

definition gen_powlog :: "int list \<times> int list" where
  "gen_powlog =
     snd (fold gen_powlog_step [0..<256] (1, replicate 256 0, replicate 256 0))"

definition gen_rcon_step :: "nat \<Rightarrow> int \<times> u32 list \<Rightarrow> int \<times> u32 list" where
  "gen_rcon_step i = (\<lambda>(x, rcon). (XTIME x AND 0xFF, rcon[i := word_of_int x]))"

definition gen_rcon :: "u32 list \<Rightarrow> u32 list" where
  "gen_rcon rcon = snd (fold gen_rcon_step [0..<10] (1, rcon))"

definition rotl_byte :: "int \<Rightarrow> int" where
  "rotl_byte y = (push_bit 1 y OR drop_bit 7 y) AND 0xFF"

definition sbox_value :: "int list \<Rightarrow> int list \<Rightarrow> nat \<Rightarrow> int" where
  "sbox_value pow log i =
     (let x0 = pow ! nat (255 - log ! i);
          y1 = rotl_byte x0; x1 = x0 XOR y1;
          y2 = rotl_byte y1; x2 = x1 XOR y2;
          y3 = rotl_byte y2; x3 = x2 XOR y3;
          y4 = rotl_byte y3
      in x3 XOR (y4 XOR 0x63))"

definition gen_sbox_step ::
  "int list \<Rightarrow> int list \<Rightarrow> nat \<Rightarrow> bytes \<times> bytes \<Rightarrow> bytes \<times> bytes" where
  "gen_sbox_step pow log i = (\<lambda>(fsb, rsb).
     let x = sbox_value pow log i
     in (fsb[i := word_of_int x], rsb[nat x := word_of_nat i]))"

definition gen_sbox :: "int list \<Rightarrow> int list \<Rightarrow> bytes \<times> bytes \<Rightarrow> bytes \<times> bytes" where
  "gen_sbox pow log = (\<lambda>(fsb, rsb).
     fold (gen_sbox_step pow log) [1..<256] (fsb[0 := 0x63], rsb[0x63 := 0]))"

definition FT0_entry :: "int \<Rightarrow> u32" where
  "FT0_entry x =
     (let y = XTIME x AND 0xFF; z = (y XOR x) AND 0xFF
      in word_of_int y XOR push_bit 8 (word_of_int x) XOR push_bit 16 (word_of_int x)
           XOR push_bit 24 (word_of_int z))"

definition RT0_entry :: "int list \<Rightarrow> int list \<Rightarrow> int \<Rightarrow> u32" where
  "RT0_entry pow log x =
     word_of_int (MUL pow log 0x0E x) XOR push_bit 8 (word_of_int (MUL pow log 0x09 x))
       XOR push_bit 16 (word_of_int (MUL pow log 0x0D x))
       XOR push_bit 24 (word_of_int (MUL pow log 0x0B x))"

definition gen_round_step :: "int list \<Rightarrow> int list \<Rightarrow> nat \<Rightarrow> aes_tables \<Rightarrow> aes_tables" where
  "gen_round_step pow log i T =
     (let T = T\<lparr>FT0 := (FT0 T)[i := FT0_entry (uint (FSb T ! i))]\<rparr>;
          T = T\<lparr>FT1 := (FT1 T)[i := ROTL8 (FT0 T ! i)]\<rparr>;
          T = T\<lparr>FT2 := (FT2 T)[i := ROTL8 (FT1 T ! i)]\<rparr>;
          T = T\<lparr>FT3 := (FT3 T)[i := ROTL8 (FT2 T ! i)]\<rparr>;
          T = T\<lparr>RT0 := (RT0 T)[i := RT0_entry pow log (uint (RSb T ! i))]\<rparr>;
          T = T\<lparr>RT1 := (RT1 T)[i := ROTL8 (RT0 T ! i)]\<rparr>;
          T = T\<lparr>RT2 := (RT2 T)[i := ROTL8 (RT1 T ! i)]\<rparr>
      in T\<lparr>RT3 := (RT3 T)[i := ROTL8 (RT2 T ! i)]\<rparr>)"

definition aes_gen_tables :: "aes_tables \<Rightarrow> aes_tables" where
  "aes_gen_tables T =
     (let (pow, log) = gen_powlog;
          T = T\<lparr>RCON := gen_rcon (RCON T)\<rparr>;
          (fsb, rsb) = gen_sbox pow log (FSb T, RSb T);
          T = T\<lparr>FSb := fsb, RSb := rsb\<rparr>
      in fold (gen_round_step pow log) [0..<256] T)"

section \<open>The ROM tables\<close>

text \<open>
  The macros \<open>FT\<close> and \<open>RT\<close> list byte quadruples \<open>V(a,b,c,d)\<close>; the four tables of each
  direction glue the quadruple together in the four rotations.
\<close>

definition FSb_rom :: bytes where
  "FSb_rom =
   [0x63, 0x7C, 0x77, 0x7B, 0xF2, 0x6B, 0x6F, 0xC5,
    0x30, 0x01, 0x67, 0x2B, 0xFE, 0xD7, 0xAB, 0x76,
    0xCA, 0x82, 0xC9, 0x7D, 0xFA, 0x59, 0x47, 0xF0,
    0xAD, 0xD4, 0xA2, 0xAF, 0x9C, 0xA4, 0x72, 0xC0,
    0xB7, 0xFD, 0x93, 0x26, 0x36, 0x3F, 0xF7, 0xCC,
    0x34, 0xA5, 0xE5, 0xF1, 0x71, 0xD8, 0x31, 0x15,
    0x04, 0xC7, 0x23, 0xC3, 0x18, 0x96, 0x05, 0x9A,
    0x07, 0x12, 0x80, 0xE2, 0xEB, 0x27, 0xB2, 0x75,
    0x09, 0x83, 0x2C, 0x1A, 0x1B, 0x6E, 0x5A, 0xA0,
    0x52, 0x3B, 0xD6, 0xB3, 0x29, 0xE3, 0x2F, 0x84,
    0x53, 0xD1, 0x00, 0xED, 0x20, 0xFC, 0xB1, 0x5B,
    0x6A, 0xCB, 0xBE, 0x39, 0x4A, 0x4C, 0x58, 0xCF,
    0xD0, 0xEF, 0xAA, 0xFB, 0x43, 0x4D, 0x33, 0x85,
    0x45, 0xF9, 0x02, 0x7F, 0x50, 0x3C, 0x9F, 0xA8,
    0x51, 0xA3, 0x40, 0x8F, 0x92, 0x9D, 0x38, 0xF5,
    0xBC, 0xB6, 0xDA, 0x21, 0x10, 0xFF, 0xF3, 0xD2,
    0xCD, 0x0C, 0x13, 0xEC, 0x5F, 0x97, 0x44, 0x17,
    0xC4, 0xA7, 0x7E, 0x3D, 0x64, 0x5D, 0x19, 0x73,
    0x60, 0x81, 0x4F, 0xDC, 0x22, 0x2A, 0x90, 0x88,
    0x46, 0xEE, 0xB8, 0x14, 0xDE, 0x5E, 0x0B, 0xDB,
    0xE0, 0x32, 0x3A, 0x0A, 0x49, 0x06, 0x24, 0x5C,
    0xC2, 0xD3, 0xAC, 0x62, 0x91, 0x95, 0xE4, 0x79,
    0xE7, 0xC8, 0x37, 0x6D, 0x8D, 0xD5, 0x4E, 0xA9,
    0x6C, 0x56, 0xF4, 0xEA, 0x65, 0x7A, 0xAE, 0x08,
    0xBA, 0x78, 0x25, 0x2E, 0x1C, 0xA6, 0xB4, 0xC6,
    0xE8, 0xDD, 0x74, 0x1F, 0x4B, 0xBD, 0x8B, 0x8A,
    0x70, 0x3E, 0xB5, 0x66, 0x48, 0x03, 0xF6, 0x0E,
    0x61, 0x35, 0x57, 0xB9, 0x86, 0xC1, 0x1D, 0x9E,
    0xE1, 0xF8, 0x98, 0x11, 0x69, 0xD9, 0x8E, 0x94,
    0x9B, 0x1E, 0x87, 0xE9, 0xCE, 0x55, 0x28, 0xDF,
    0x8C, 0xA1, 0x89, 0x0D, 0xBF, 0xE6, 0x42, 0x68,
    0x41, 0x99, 0x2D, 0x0F, 0xB0, 0x54, 0xBB, 0x16]"

definition FT_rom :: "(u8 \<times> u8 \<times> u8 \<times> u8) list" where
  "FT_rom =
   [(0xA5,0x63,0x63,0xC6), (0x84,0x7C,0x7C,0xF8), (0x99,0x77,0x77,0xEE), (0x8D,0x7B,0x7B,0xF6),
    (0x0D,0xF2,0xF2,0xFF), (0xBD,0x6B,0x6B,0xD6), (0xB1,0x6F,0x6F,0xDE), (0x54,0xC5,0xC5,0x91),
    (0x50,0x30,0x30,0x60), (0x03,0x01,0x01,0x02), (0xA9,0x67,0x67,0xCE), (0x7D,0x2B,0x2B,0x56),
    (0x19,0xFE,0xFE,0xE7), (0x62,0xD7,0xD7,0xB5), (0xE6,0xAB,0xAB,0x4D), (0x9A,0x76,0x76,0xEC),
    (0x45,0xCA,0xCA,0x8F), (0x9D,0x82,0x82,0x1F), (0x40,0xC9,0xC9,0x89), (0x87,0x7D,0x7D,0xFA),
    (0x15,0xFA,0xFA,0xEF), (0xEB,0x59,0x59,0xB2), (0xC9,0x47,0x47,0x8E), (0x0B,0xF0,0xF0,0xFB),
    (0xEC,0xAD,0xAD,0x41), (0x67,0xD4,0xD4,0xB3), (0xFD,0xA2,0xA2,0x5F), (0xEA,0xAF,0xAF,0x45),
    (0xBF,0x9C,0x9C,0x23), (0xF7,0xA4,0xA4,0x53), (0x96,0x72,0x72,0xE4), (0x5B,0xC0,0xC0,0x9B),
    (0xC2,0xB7,0xB7,0x75), (0x1C,0xFD,0xFD,0xE1), (0xAE,0x93,0x93,0x3D), (0x6A,0x26,0x26,0x4C),
    (0x5A,0x36,0x36,0x6C), (0x41,0x3F,0x3F,0x7E), (0x02,0xF7,0xF7,0xF5), (0x4F,0xCC,0xCC,0x83),
    (0x5C,0x34,0x34,0x68), (0xF4,0xA5,0xA5,0x51), (0x34,0xE5,0xE5,0xD1), (0x08,0xF1,0xF1,0xF9),
    (0x93,0x71,0x71,0xE2), (0x73,0xD8,0xD8,0xAB), (0x53,0x31,0x31,0x62), (0x3F,0x15,0x15,0x2A),
    (0x0C,0x04,0x04,0x08), (0x52,0xC7,0xC7,0x95), (0x65,0x23,0x23,0x46), (0x5E,0xC3,0xC3,0x9D),
    (0x28,0x18,0x18,0x30), (0xA1,0x96,0x96,0x37), (0x0F,0x05,0x05,0x0A), (0xB5,0x9A,0x9A,0x2F),
    (0x09,0x07,0x07,0x0E), (0x36,0x12,0x12,0x24), (0x9B,0x80,0x80,0x1B), (0x3D,0xE2,0xE2,0xDF),
    (0x26,0xEB,0xEB,0xCD), (0x69,0x27,0x27,0x4E), (0xCD,0xB2,0xB2,0x7F), (0x9F,0x75,0x75,0xEA),
    (0x1B,0x09,0x09,0x12), (0x9E,0x83,0x83,0x1D), (0x74,0x2C,0x2C,0x58), (0x2E,0x1A,0x1A,0x34),
    (0x2D,0x1B,0x1B,0x36), (0xB2,0x6E,0x6E,0xDC), (0xEE,0x5A,0x5A,0xB4), (0xFB,0xA0,0xA0,0x5B),
    (0xF6,0x52,0x52,0xA4), (0x4D,0x3B,0x3B,0x76), (0x61,0xD6,0xD6,0xB7), (0xCE,0xB3,0xB3,0x7D),
    (0x7B,0x29,0x29,0x52), (0x3E,0xE3,0xE3,0xDD), (0x71,0x2F,0x2F,0x5E), (0x97,0x84,0x84,0x13),
    (0xF5,0x53,0x53,0xA6), (0x68,0xD1,0xD1,0xB9), (0x00,0x00,0x00,0x00), (0x2C,0xED,0xED,0xC1),
    (0x60,0x20,0x20,0x40), (0x1F,0xFC,0xFC,0xE3), (0xC8,0xB1,0xB1,0x79), (0xED,0x5B,0x5B,0xB6),
    (0xBE,0x6A,0x6A,0xD4), (0x46,0xCB,0xCB,0x8D), (0xD9,0xBE,0xBE,0x67), (0x4B,0x39,0x39,0x72),
    (0xDE,0x4A,0x4A,0x94), (0xD4,0x4C,0x4C,0x98), (0xE8,0x58,0x58,0xB0), (0x4A,0xCF,0xCF,0x85),
    (0x6B,0xD0,0xD0,0xBB), (0x2A,0xEF,0xEF,0xC5), (0xE5,0xAA,0xAA,0x4F), (0x16,0xFB,0xFB,0xED),
    (0xC5,0x43,0x43,0x86), (0xD7,0x4D,0x4D,0x9A), (0x55,0x33,0x33,0x66), (0x94,0x85,0x85,0x11),
    (0xCF,0x45,0x45,0x8A), (0x10,0xF9,0xF9,0xE9), (0x06,0x02,0x02,0x04), (0x81,0x7F,0x7F,0xFE),
    (0xF0,0x50,0x50,0xA0), (0x44,0x3C,0x3C,0x78), (0xBA,0x9F,0x9F,0x25), (0xE3,0xA8,0xA8,0x4B),
    (0xF3,0x51,0x51,0xA2), (0xFE,0xA3,0xA3,0x5D), (0xC0,0x40,0x40,0x80), (0x8A,0x8F,0x8F,0x05),
    (0xAD,0x92,0x92,0x3F), (0xBC,0x9D,0x9D,0x21), (0x48,0x38,0x38,0x70), (0x04,0xF5,0xF5,0xF1),
    (0xDF,0xBC,0xBC,0x63), (0xC1,0xB6,0xB6,0x77), (0x75,0xDA,0xDA,0xAF), (0x63,0x21,0x21,0x42),
    (0x30,0x10,0x10,0x20), (0x1A,0xFF,0xFF,0xE5), (0x0E,0xF3,0xF3,0xFD), (0x6D,0xD2,0xD2,0xBF),
    (0x4C,0xCD,0xCD,0x81), (0x14,0x0C,0x0C,0x18), (0x35,0x13,0x13,0x26), (0x2F,0xEC,0xEC,0xC3),
    (0xE1,0x5F,0x5F,0xBE), (0xA2,0x97,0x97,0x35), (0xCC,0x44,0x44,0x88), (0x39,0x17,0x17,0x2E),
    (0x57,0xC4,0xC4,0x93), (0xF2,0xA7,0xA7,0x55), (0x82,0x7E,0x7E,0xFC), (0x47,0x3D,0x3D,0x7A),
    (0xAC,0x64,0x64,0xC8), (0xE7,0x5D,0x5D,0xBA), (0x2B,0x19,0x19,0x32), (0x95,0x73,0x73,0xE6),
    (0xA0,0x60,0x60,0xC0), (0x98,0x81,0x81,0x19), (0xD1,0x4F,0x4F,0x9E), (0x7F,0xDC,0xDC,0xA3),
    (0x66,0x22,0x22,0x44), (0x7E,0x2A,0x2A,0x54), (0xAB,0x90,0x90,0x3B), (0x83,0x88,0x88,0x0B),
    (0xCA,0x46,0x46,0x8C), (0x29,0xEE,0xEE,0xC7), (0xD3,0xB8,0xB8,0x6B), (0x3C,0x14,0x14,0x28),
    (0x79,0xDE,0xDE,0xA7), (0xE2,0x5E,0x5E,0xBC), (0x1D,0x0B,0x0B,0x16), (0x76,0xDB,0xDB,0xAD),
    (0x3B,0xE0,0xE0,0xDB), (0x56,0x32,0x32,0x64), (0x4E,0x3A,0x3A,0x74), (0x1E,0x0A,0x0A,0x14),
    (0xDB,0x49,0x49,0x92), (0x0A,0x06,0x06,0x0C), (0x6C,0x24,0x24,0x48), (0xE4,0x5C,0x5C,0xB8),
    (0x5D,0xC2,0xC2,0x9F), (0x6E,0xD3,0xD3,0xBD), (0xEF,0xAC,0xAC,0x43), (0xA6,0x62,0x62,0xC4),
    (0xA8,0x91,0x91,0x39), (0xA4,0x95,0x95,0x31), (0x37,0xE4,0xE4,0xD3), (0x8B,0x79,0x79,0xF2),
    (0x32,0xE7,0xE7,0xD5), (0x43,0xC8,0xC8,0x8B), (0x59,0x37,0x37,0x6E), (0xB7,0x6D,0x6D,0xDA),
    (0x8C,0x8D,0x8D,0x01), (0x64,0xD5,0xD5,0xB1), (0xD2,0x4E,0x4E,0x9C), (0xE0,0xA9,0xA9,0x49),
    (0xB4,0x6C,0x6C,0xD8), (0xFA,0x56,0x56,0xAC), (0x07,0xF4,0xF4,0xF3), (0x25,0xEA,0xEA,0xCF),
    (0xAF,0x65,0x65,0xCA), (0x8E,0x7A,0x7A,0xF4), (0xE9,0xAE,0xAE,0x47), (0x18,0x08,0x08,0x10),
    (0xD5,0xBA,0xBA,0x6F), (0x88,0x78,0x78,0xF0), (0x6F,0x25,0x25,0x4A), (0x72,0x2E,0x2E,0x5C),
    (0x24,0x1C,0x1C,0x38), (0xF1,0xA6,0xA6,0x57), (0xC7,0xB4,0xB4,0x73), (0x51,0xC6,0xC6,0x97),
    (0x23,0xE8,0xE8,0xCB), (0x7C,0xDD,0xDD,0xA1), (0x9C,0x74,0x74,0xE8), (0x21,0x1F,0x1F,0x3E),
    (0xDD,0x4B,0x4B,0x96), (0xDC,0xBD,0xBD,0x61), (0x86,0x8B,0x8B,0x0D), (0x85,0x8A,0x8A,0x0F),
    (0x90,0x70,0x70,0xE0), (0x42,0x3E,0x3E,0x7C), (0xC4,0xB5,0xB5,0x71), (0xAA,0x66,0x66,0xCC),
    (0xD8,0x48,0x48,0x90), (0x05,0x03,0x03,0x06), (0x01,0xF6,0xF6,0xF7), (0x12,0x0E,0x0E,0x1C),
    (0xA3,0x61,0x61,0xC2), (0x5F,0x35,0x35,0x6A), (0xF9,0x57,0x57,0xAE), (0xD0,0xB9,0xB9,0x69),
    (0x91,0x86,0x86,0x17), (0x58,0xC1,0xC1,0x99), (0x27,0x1D,0x1D,0x3A), (0xB9,0x9E,0x9E,0x27),
    (0x38,0xE1,0xE1,0xD9), (0x13,0xF8,0xF8,0xEB), (0xB3,0x98,0x98,0x2B), (0x33,0x11,0x11,0x22),
    (0xBB,0x69,0x69,0xD2), (0x70,0xD9,0xD9,0xA9), (0x89,0x8E,0x8E,0x07), (0xA7,0x94,0x94,0x33),
    (0xB6,0x9B,0x9B,0x2D), (0x22,0x1E,0x1E,0x3C), (0x92,0x87,0x87,0x15), (0x20,0xE9,0xE9,0xC9),
    (0x49,0xCE,0xCE,0x87), (0xFF,0x55,0x55,0xAA), (0x78,0x28,0x28,0x50), (0x7A,0xDF,0xDF,0xA5),
    (0x8F,0x8C,0x8C,0x03), (0xF8,0xA1,0xA1,0x59), (0x80,0x89,0x89,0x09), (0x17,0x0D,0x0D,0x1A),
    (0xDA,0xBF,0xBF,0x65), (0x31,0xE6,0xE6,0xD7), (0xC6,0x42,0x42,0x84), (0xB8,0x68,0x68,0xD0),
    (0xC3,0x41,0x41,0x82), (0xB0,0x99,0x99,0x29), (0x77,0x2D,0x2D,0x5A), (0x11,0x0F,0x0F,0x1E),
    (0xCB,0xB0,0xB0,0x7B), (0xFC,0x54,0x54,0xA8), (0xD6,0xBB,0xBB,0x6D), (0x3A,0x16,0x16,0x2C)]"

definition RSb_rom :: bytes where
  "RSb_rom =
   [0x52, 0x09, 0x6A, 0xD5, 0x30, 0x36, 0xA5, 0x38,
    0xBF, 0x40, 0xA3, 0x9E, 0x81, 0xF3, 0xD7, 0xFB,
    0x7C, 0xE3, 0x39, 0x82, 0x9B, 0x2F, 0xFF, 0x87,
    0x34, 0x8E, 0x43, 0x44, 0xC4, 0xDE, 0xE9, 0xCB,
    0x54, 0x7B, 0x94, 0x32, 0xA6, 0xC2, 0x23, 0x3D,
    0xEE, 0x4C, 0x95, 0x0B, 0x42, 0xFA, 0xC3, 0x4E,
    0x08, 0x2E, 0xA1, 0x66, 0x28, 0xD9, 0x24, 0xB2,
    0x76, 0x5B, 0xA2, 0x49, 0x6D, 0x8B, 0xD1, 0x25,
    0x72, 0xF8, 0xF6, 0x64, 0x86, 0x68, 0x98, 0x16,
    0xD4, 0xA4, 0x5C, 0xCC, 0x5D, 0x65, 0xB6, 0x92,
    0x6C, 0x70, 0x48, 0x50, 0xFD, 0xED, 0xB9, 0xDA,
    0x5E, 0x15, 0x46, 0x57, 0xA7, 0x8D, 0x9D, 0x84,
    0x90, 0xD8, 0xAB, 0x00, 0x8C, 0xBC, 0xD3, 0x0A,
    0xF7, 0xE4, 0x58, 0x05, 0xB8, 0xB3, 0x45, 0x06,
    0xD0, 0x2C, 0x1E, 0x8F, 0xCA, 0x3F, 0x0F, 0x02,
    0xC1, 0xAF, 0xBD, 0x03, 0x01, 0x13, 0x8A, 0x6B,
    0x3A, 0x91, 0x11, 0x41, 0x4F, 0x67, 0xDC, 0xEA,
    0x97, 0xF2, 0xCF, 0xCE, 0xF0, 0xB4, 0xE6, 0x73,
    0x96, 0xAC, 0x74, 0x22, 0xE7, 0xAD, 0x35, 0x85,
    0xE2, 0xF9, 0x37, 0xE8, 0x1C, 0x75, 0xDF, 0x6E,
    0x47, 0xF1, 0x1A, 0x71, 0x1D, 0x29, 0xC5, 0x89,
    0x6F, 0xB7, 0x62, 0x0E, 0xAA, 0x18, 0xBE, 0x1B,
    0xFC, 0x56, 0x3E, 0x4B, 0xC6, 0xD2, 0x79, 0x20,
    0x9A, 0xDB, 0xC0, 0xFE, 0x78, 0xCD, 0x5A, 0xF4,
    0x1F, 0xDD, 0xA8, 0x33, 0x88, 0x07, 0xC7, 0x31,
    0xB1, 0x12, 0x10, 0x59, 0x27, 0x80, 0xEC, 0x5F,
    0x60, 0x51, 0x7F, 0xA9, 0x19, 0xB5, 0x4A, 0x0D,
    0x2D, 0xE5, 0x7A, 0x9F, 0x93, 0xC9, 0x9C, 0xEF,
    0xA0, 0xE0, 0x3B, 0x4D, 0xAE, 0x2A, 0xF5, 0xB0,
    0xC8, 0xEB, 0xBB, 0x3C, 0x83, 0x53, 0x99, 0x61,
    0x17, 0x2B, 0x04, 0x7E, 0xBA, 0x77, 0xD6, 0x26,
    0xE1, 0x69, 0x14, 0x63, 0x55, 0x21, 0x0C, 0x7D]"

definition RT_rom :: "(u8 \<times> u8 \<times> u8 \<times> u8) list" where
  "RT_rom =
   [(0x50,0xA7,0xF4,0x51), (0x53,0x65,0x41,0x7E), (0xC3,0xA4,0x17,0x1A), (0x96,0x5E,0x27,0x3A),
    (0xCB,0x6B,0xAB,0x3B), (0xF1,0x45,0x9D,0x1F), (0xAB,0x58,0xFA,0xAC), (0x93,0x03,0xE3,0x4B),
    (0x55,0xFA,0x30,0x20), (0xF6,0x6D,0x76,0xAD), (0x91,0x76,0xCC,0x88), (0x25,0x4C,0x02,0xF5),
    (0xFC,0xD7,0xE5,0x4F), (0xD7,0xCB,0x2A,0xC5), (0x80,0x44,0x35,0x26), (0x8F,0xA3,0x62,0xB5),
    (0x49,0x5A,0xB1,0xDE), (0x67,0x1B,0xBA,0x25), (0x98,0x0E,0xEA,0x45), (0xE1,0xC0,0xFE,0x5D),
    (0x02,0x75,0x2F,0xC3), (0x12,0xF0,0x4C,0x81), (0xA3,0x97,0x46,0x8D), (0xC6,0xF9,0xD3,0x6B),
    (0xE7,0x5F,0x8F,0x03), (0x95,0x9C,0x92,0x15), (0xEB,0x7A,0x6D,0xBF), (0xDA,0x59,0x52,0x95),
    (0x2D,0x83,0xBE,0xD4), (0xD3,0x21,0x74,0x58), (0x29,0x69,0xE0,0x49), (0x44,0xC8,0xC9,0x8E),
    (0x6A,0x89,0xC2,0x75), (0x78,0x79,0x8E,0xF4), (0x6B,0x3E,0x58,0x99), (0xDD,0x71,0xB9,0x27),
    (0xB6,0x4F,0xE1,0xBE), (0x17,0xAD,0x88,0xF0), (0x66,0xAC,0x20,0xC9), (0xB4,0x3A,0xCE,0x7D),
    (0x18,0x4A,0xDF,0x63), (0x82,0x31,0x1A,0xE5), (0x60,0x33,0x51,0x97), (0x45,0x7F,0x53,0x62),
    (0xE0,0x77,0x64,0xB1), (0x84,0xAE,0x6B,0xBB), (0x1C,0xA0,0x81,0xFE), (0x94,0x2B,0x08,0xF9),
    (0x58,0x68,0x48,0x70), (0x19,0xFD,0x45,0x8F), (0x87,0x6C,0xDE,0x94), (0xB7,0xF8,0x7B,0x52),
    (0x23,0xD3,0x73,0xAB), (0xE2,0x02,0x4B,0x72), (0x57,0x8F,0x1F,0xE3), (0x2A,0xAB,0x55,0x66),
    (0x07,0x28,0xEB,0xB2), (0x03,0xC2,0xB5,0x2F), (0x9A,0x7B,0xC5,0x86), (0xA5,0x08,0x37,0xD3),
    (0xF2,0x87,0x28,0x30), (0xB2,0xA5,0xBF,0x23), (0xBA,0x6A,0x03,0x02), (0x5C,0x82,0x16,0xED),
    (0x2B,0x1C,0xCF,0x8A), (0x92,0xB4,0x79,0xA7), (0xF0,0xF2,0x07,0xF3), (0xA1,0xE2,0x69,0x4E),
    (0xCD,0xF4,0xDA,0x65), (0xD5,0xBE,0x05,0x06), (0x1F,0x62,0x34,0xD1), (0x8A,0xFE,0xA6,0xC4),
    (0x9D,0x53,0x2E,0x34), (0xA0,0x55,0xF3,0xA2), (0x32,0xE1,0x8A,0x05), (0x75,0xEB,0xF6,0xA4),
    (0x39,0xEC,0x83,0x0B), (0xAA,0xEF,0x60,0x40), (0x06,0x9F,0x71,0x5E), (0x51,0x10,0x6E,0xBD),
    (0xF9,0x8A,0x21,0x3E), (0x3D,0x06,0xDD,0x96), (0xAE,0x05,0x3E,0xDD), (0x46,0xBD,0xE6,0x4D),
    (0xB5,0x8D,0x54,0x91), (0x05,0x5D,0xC4,0x71), (0x6F,0xD4,0x06,0x04), (0xFF,0x15,0x50,0x60),
    (0x24,0xFB,0x98,0x19), (0x97,0xE9,0xBD,0xD6), (0xCC,0x43,0x40,0x89), (0x77,0x9E,0xD9,0x67),
    (0xBD,0x42,0xE8,0xB0), (0x88,0x8B,0x89,0x07), (0x38,0x5B,0x19,0xE7), (0xDB,0xEE,0xC8,0x79),
    (0x47,0x0A,0x7C,0xA1), (0xE9,0x0F,0x42,0x7C), (0xC9,0x1E,0x84,0xF8), (0x00,0x00,0x00,0x00),
    (0x83,0x86,0x80,0x09), (0x48,0xED,0x2B,0x32), (0xAC,0x70,0x11,0x1E), (0x4E,0x72,0x5A,0x6C),
    (0xFB,0xFF,0x0E,0xFD), (0x56,0x38,0x85,0x0F), (0x1E,0xD5,0xAE,0x3D), (0x27,0x39,0x2D,0x36),
    (0x64,0xD9,0x0F,0x0A), (0x21,0xA6,0x5C,0x68), (0xD1,0x54,0x5B,0x9B), (0x3A,0x2E,0x36,0x24),
    (0xB1,0x67,0x0A,0x0C), (0x0F,0xE7,0x57,0x93), (0xD2,0x96,0xEE,0xB4), (0x9E,0x91,0x9B,0x1B),
    (0x4F,0xC5,0xC0,0x80), (0xA2,0x20,0xDC,0x61), (0x69,0x4B,0x77,0x5A), (0x16,0x1A,0x12,0x1C),
    (0x0A,0xBA,0x93,0xE2), (0xE5,0x2A,0xA0,0xC0), (0x43,0xE0,0x22,0x3C), (0x1D,0x17,0x1B,0x12),
    (0x0B,0x0D,0x09,0x0E), (0xAD,0xC7,0x8B,0xF2), (0xB9,0xA8,0xB6,0x2D), (0xC8,0xA9,0x1E,0x14),
    (0x85,0x19,0xF1,0x57), (0x4C,0x07,0x75,0xAF), (0xBB,0xDD,0x99,0xEE), (0xFD,0x60,0x7F,0xA3),
    (0x9F,0x26,0x01,0xF7), (0xBC,0xF5,0x72,0x5C), (0xC5,0x3B,0x66,0x44), (0x34,0x7E,0xFB,0x5B),
    (0x76,0x29,0x43,0x8B), (0xDC,0xC6,0x23,0xCB), (0x68,0xFC,0xED,0xB6), (0x63,0xF1,0xE4,0xB8),
    (0xCA,0xDC,0x31,0xD7), (0x10,0x85,0x63,0x42), (0x40,0x22,0x97,0x13), (0x20,0x11,0xC6,0x84),
    (0x7D,0x24,0x4A,0x85), (0xF8,0x3D,0xBB,0xD2), (0x11,0x32,0xF9,0xAE), (0x6D,0xA1,0x29,0xC7),
    (0x4B,0x2F,0x9E,0x1D), (0xF3,0x30,0xB2,0xDC), (0xEC,0x52,0x86,0x0D), (0xD0,0xE3,0xC1,0x77),
    (0x6C,0x16,0xB3,0x2B), (0x99,0xB9,0x70,0xA9), (0xFA,0x48,0x94,0x11), (0x22,0x64,0xE9,0x47),
    (0xC4,0x8C,0xFC,0xA8), (0x1A,0x3F,0xF0,0xA0), (0xD8,0x2C,0x7D,0x56), (0xEF,0x90,0x33,0x22),
    (0xC7,0x4E,0x49,0x87), (0xC1,0xD1,0x38,0xD9), (0xFE,0xA2,0xCA,0x8C), (0x36,0x0B,0xD4,0x98),
    (0xCF,0x81,0xF5,0xA6), (0x28,0xDE,0x7A,0xA5), (0x26,0x8E,0xB7,0xDA), (0xA4,0xBF,0xAD,0x3F),
    (0xE4,0x9D,0x3A,0x2C), (0x0D,0x92,0x78,0x50), (0x9B,0xCC,0x5F,0x6A), (0x62,0x46,0x7E,0x54),
    (0xC2,0x13,0x8D,0xF6), (0xE8,0xB8,0xD8,0x90), (0x5E,0xF7,0x39,0x2E), (0xF5,0xAF,0xC3,0x82),
    (0xBE,0x80,0x5D,0x9F), (0x7C,0x93,0xD0,0x69), (0xA9,0x2D,0xD5,0x6F), (0xB3,0x12,0x25,0xCF),
    (0x3B,0x99,0xAC,0xC8), (0xA7,0x7D,0x18,0x10), (0x6E,0x63,0x9C,0xE8), (0x7B,0xBB,0x3B,0xDB),
    (0x09,0x78,0x26,0xCD), (0xF4,0x18,0x59,0x6E), (0x01,0xB7,0x9A,0xEC), (0xA8,0x9A,0x4F,0x83),
    (0x65,0x6E,0x95,0xE6), (0x7E,0xE6,0xFF,0xAA), (0x08,0xCF,0xBC,0x21), (0xE6,0xE8,0x15,0xEF),
    (0xD9,0x9B,0xE7,0xBA), (0xCE,0x36,0x6F,0x4A), (0xD4,0x09,0x9F,0xEA), (0xD6,0x7C,0xB0,0x29),
    (0xAF,0xB2,0xA4,0x31), (0x31,0x23,0x3F,0x2A), (0x30,0x94,0xA5,0xC6), (0xC0,0x66,0xA2,0x35),
    (0x37,0xBC,0x4E,0x74), (0xA6,0xCA,0x82,0xFC), (0xB0,0xD0,0x90,0xE0), (0x15,0xD8,0xA7,0x33),
    (0x4A,0x98,0x04,0xF1), (0xF7,0xDA,0xEC,0x41), (0x0E,0x50,0xCD,0x7F), (0x2F,0xF6,0x91,0x17),
    (0x8D,0xD6,0x4D,0x76), (0x4D,0xB0,0xEF,0x43), (0x54,0x4D,0xAA,0xCC), (0xDF,0x04,0x96,0xE4),
    (0xE3,0xB5,0xD1,0x9E), (0x1B,0x88,0x6A,0x4C), (0xB8,0x1F,0x2C,0xC1), (0x7F,0x51,0x65,0x46),
    (0x04,0xEA,0x5E,0x9D), (0x5D,0x35,0x8C,0x01), (0x73,0x74,0x87,0xFA), (0x2E,0x41,0x0B,0xFB),
    (0x5A,0x1D,0x67,0xB3), (0x52,0xD2,0xDB,0x92), (0x33,0x56,0x10,0xE9), (0x13,0x47,0xD6,0x6D),
    (0x8C,0x61,0xD7,0x9A), (0x7A,0x0C,0xA1,0x37), (0x8E,0x14,0xF8,0x59), (0x89,0x3C,0x13,0xEB),
    (0xEE,0x27,0xA9,0xCE), (0x35,0xC9,0x61,0xB7), (0xED,0xE5,0x1C,0xE1), (0x3C,0xB1,0x47,0x7A),
    (0x59,0xDF,0xD2,0x9C), (0x3F,0x73,0xF2,0x55), (0x79,0xCE,0x14,0x18), (0xBF,0x37,0xC7,0x73),
    (0xEA,0xCD,0xF7,0x53), (0x5B,0xAA,0xFD,0x5F), (0x14,0x6F,0x3D,0xDF), (0x86,0xDB,0x44,0x78),
    (0x81,0xF3,0xAF,0xCA), (0x3E,0xC4,0x68,0xB9), (0x2C,0x34,0x24,0x38), (0x5F,0x40,0xA3,0xC2),
    (0x72,0xC3,0x1D,0x16), (0x0C,0x25,0xE2,0xBC), (0x8B,0x49,0x3C,0x28), (0x41,0x95,0x0D,0xFF),
    (0x71,0x01,0xA8,0x39), (0xDE,0xB3,0x0C,0x08), (0x9C,0xE4,0xB4,0xD8), (0x90,0xC1,0x56,0x64),
    (0x61,0x84,0xCB,0x7B), (0x70,0xB6,0x32,0xD5), (0x74,0x5C,0x6C,0x48), (0x42,0x57,0xB8,0xD0)]"

definition glue :: "u8 \<Rightarrow> u8 \<Rightarrow> u8 \<Rightarrow> u8 \<Rightarrow> u32" where
  "glue a b c d = le32 d c b a"

definition rom_tables :: aes_tables where
  "rom_tables =
     \<lparr>FSb = FSb_rom,
      FT0 = map (\<lambda>(a, b, c, d). glue a b c d) FT_rom,
      FT1 = map (\<lambda>(a, b, c, d). glue b c d a) FT_rom,
      FT2 = map (\<lambda>(a, b, c, d). glue c d a b) FT_rom,
      FT3 = map (\<lambda>(a, b, c, d). glue d a b c) FT_rom,
      RSb = RSb_rom,
      RT0 = map (\<lambda>(a, b, c, d). glue a b c d) RT_rom,
      RT1 = map (\<lambda>(a, b, c, d). glue b c d a) RT_rom,
      RT2 = map (\<lambda>(a, b, c, d). glue c d a b) RT_rom,
      RT3 = map (\<lambda>(a, b, c, d). glue d a b c) RT_rom,
      RCON = [0x01, 0x02, 0x04, 0x08, 0x10, 0x20, 0x40, 0x80, 0x1B, 0x36]\<rparr>"

section \<open>Generated and constant tables agree\<close>

text \<open>
  The loops of \<open>aes_gen_tables\<close> write each array once: in order, or (the logarithm and the
  reverse S-box) at scattered addresses that an inverse table locates. \<open>pow_table\<close> and
  \<open>log_table\<close> are the two arrays the first loop computes, the powers and logarithms of 3 in
  GF(256).
\<close>

definition pow_table :: "int list" where
  "pow_table =
   [1, 3, 5, 15, 17, 51, 85, 255, 26, 46, 114, 150, 161, 248, 19, 53,
    95, 225, 56, 72, 216, 115, 149, 164, 247, 2, 6, 10, 30, 34, 102, 170,
    229, 52, 92, 228, 55, 89, 235, 38, 106, 190, 217, 112, 144, 171, 230, 49,
    83, 245, 4, 12, 20, 60, 68, 204, 79, 209, 104, 184, 211, 110, 178, 205,
    76, 212, 103, 169, 224, 59, 77, 215, 98, 166, 241, 8, 24, 40, 120, 136,
    131, 158, 185, 208, 107, 189, 220, 127, 129, 152, 179, 206, 73, 219, 118, 154,
    181, 196, 87, 249, 16, 48, 80, 240, 11, 29, 39, 105, 187, 214, 97, 163,
    254, 25, 43, 125, 135, 146, 173, 236, 47, 113, 147, 174, 233, 32, 96, 160,
    251, 22, 58, 78, 210, 109, 183, 194, 93, 231, 50, 86, 250, 21, 63, 65,
    195, 94, 226, 61, 71, 201, 64, 192, 91, 237, 44, 116, 156, 191, 218, 117,
    159, 186, 213, 100, 172, 239, 42, 126, 130, 157, 188, 223, 122, 142, 137, 128,
    155, 182, 193, 88, 232, 35, 101, 175, 234, 37, 111, 177, 200, 67, 197, 84,
    252, 31, 33, 99, 165, 244, 7, 9, 27, 45, 119, 153, 176, 203, 70, 202,
    69, 207, 74, 222, 121, 139, 134, 145, 168, 227, 62, 66, 198, 81, 243, 14,
    18, 54, 90, 238, 41, 123, 141, 140, 143, 138, 133, 148, 167, 242, 13, 23,
    57, 75, 221, 124, 132, 151, 162, 253, 28, 36, 108, 180, 199, 82, 246, 1]"

definition log_table :: "int list" where
  "log_table =
   [0, 255, 25, 1, 50, 2, 26, 198, 75, 199, 27, 104, 51, 238, 223, 3,
    100, 4, 224, 14, 52, 141, 129, 239, 76, 113, 8, 200, 248, 105, 28, 193,
    125, 194, 29, 181, 249, 185, 39, 106, 77, 228, 166, 114, 154, 201, 9, 120,
    101, 47, 138, 5, 33, 15, 225, 36, 18, 240, 130, 69, 53, 147, 218, 142,
    150, 143, 219, 189, 54, 208, 206, 148, 19, 92, 210, 241, 64, 70, 131, 56,
    102, 221, 253, 48, 191, 6, 139, 98, 179, 37, 226, 152, 34, 136, 145, 16,
    126, 110, 72, 195, 163, 182, 30, 66, 58, 107, 40, 84, 250, 133, 61, 186,
    43, 121, 10, 21, 155, 159, 94, 202, 78, 212, 172, 229, 243, 115, 167, 87,
    175, 88, 168, 80, 244, 234, 214, 116, 79, 174, 233, 213, 231, 230, 173, 232,
    44, 215, 117, 122, 235, 22, 11, 245, 89, 203, 95, 176, 156, 169, 81, 160,
    127, 12, 246, 111, 23, 196, 73, 236, 216, 67, 31, 45, 164, 118, 123, 183,
    204, 187, 62, 90, 251, 96, 177, 134, 59, 82, 161, 108, 170, 85, 41, 157,
    151, 178, 135, 144, 97, 190, 220, 252, 188, 149, 207, 205, 55, 63, 91, 209,
    83, 57, 132, 60, 65, 162, 109, 71, 20, 42, 158, 93, 86, 242, 211, 171,
    68, 17, 146, 217, 35, 32, 46, 137, 180, 124, 184, 38, 119, 153, 227, 165,
    103, 74, 237, 222, 197, 49, 254, 24, 13, 99, 140, 128, 192, 247, 112, 7]"

definition gstep :: "int \<Rightarrow> int" where
  "gstep x = (x XOR XTIME x) AND 0xFF"

fun iterates :: "nat \<Rightarrow> int \<Rightarrow> int list" where
  "iterates 0 x = []"
| "iterates (Suc n) x = x # iterates n (gstep x)"

lemma iterates_nth: "i < n \<Longrightarrow> iterates n x ! i = (gstep ^^ i) x"
  by (induction n x arbitrary: i rule: iterates.induct)
     (auto simp: nth_Cons funpow_Suc_right simp del: funpow.simps split: nat.split)

lemma length_iterates [simp]: "length (iterates n x) = n"
  by (induction n x rule: iterates.induct) auto

lemma iterates_table: "iterates 256 1 = pow_table"
  by code_simp

lemma pow_table_iter: "map (\<lambda>i. (gstep ^^ i) 1) [0..<256] = pow_table"
  unfolding iterates_table [symmetric]
  by (rule nth_equalityI) (auto simp: iterates_nth)

lemma upt_1_256: "[Suc 0..<256] = 1 # [2..<256]"
  by (simp add: upt_conv_Cons numeral_2_eq_2)

lemma FSb_len [simp]: "length FSb_rom = 256" by (simp add: FSb_rom_def)
lemma RSb_len [simp]: "length RSb_rom = 256" by (simp add: RSb_rom_def)
lemma pow_len [simp]: "length pow_table = 256" by (simp add: pow_table_def)
lemma log_len [simp]: "length log_table = 256" by (simp add: log_table_def)
lemmas FSb_nth = nth_table [OF FSb_rom_def, unfolded FSb_len upt_256, simplified]
lemmas RSb_nth = nth_table [OF RSb_rom_def, unfolded RSb_len upt_256, simplified]
lemmas pow_nth = nth_table [OF pow_table_def, unfolded pow_len upt_256, simplified]
lemmas log_nth = nth_table [OF log_table_def, unfolded log_len upt_256, simplified]

lemma RSb_FSb_nth: "list_all (\<lambda>n. RSb_rom ! unat (FSb_rom ! n) = word_of_nat n) [0..<256]"
  by (simp add: upt_256 FSb_nth RSb_nth)
lemma FSb_RSb_nth: "list_all (\<lambda>n. FSb_rom ! unat (RSb_rom ! n) = word_of_nat n) [0..<256]"
  by (simp add: upt_256 FSb_nth RSb_nth)
lemma log_pow_nth: "list_all (\<lambda>n. log_table ! nat (pow_table ! n) = int n) [1..<256]"
  by (simp add: upt_1_256 pow_nth log_nth)
lemma pow_log_nth: "list_all (\<lambda>n. pow_table ! nat (log_table ! n) = int n \<and> 1 \<le> log_table ! n \<and> log_table ! n < 256) [1..<256]"
  by (simp add: upt_1_256 pow_nth log_nth)
lemma sbox_nth: "list_all (\<lambda>i. sbox_value pow_table log_table i = uint (FSb_rom ! i)) [1..<256]"
  by (simp add: upt_1_256 FSb_nth pow_nth log_nth sbox_value_def rotl_byte_def)

lemma pow_table_bound: "list_all (\<lambda>x. 1 \<le> x \<and> x < 256) pow_table"
  by (simp add: pow_table_def)

lemma fold_powlog:
  assumes "n \<le> length p"
  shows "fold gen_powlog_step [0..<n] (1, p, l) =
    ((gstep ^^ n) 1, map (\<lambda>i. (gstep ^^ i) 1) [0..<n] @ drop n p,
     fold (\<lambda>i l. l[nat ((gstep ^^ i) 1) := int i]) [0..<n] l)"
  using assms
  by (induction n) (simp_all add: gen_powlog_step_def list_update_next gstep_def [symmetric])

lemma powlog_address:
  assumes "i \<in> {1..<256}"
  shows "nat ((gstep ^^ i) 1) < 256" "nat (log_table ! nat ((gstep ^^ i) 1)) = i"
proof -
  have "(gstep ^^ i) 1 = pow_table ! i"
    using assms by (simp add: pow_table_iter [symmetric])
  then show "nat (log_table ! nat ((gstep ^^ i) 1)) = i"
    using log_pow_nth assms by (simp add: list_all_iff)
  show "nat ((gstep ^^ i) 1) < 256"
    using \<open>_ = pow_table ! i\<close> pow_table_bound assms by (auto simp: list_all_length)
qed

lemma log_loop:
  "fold (\<lambda>i l. l[nat ((gstep ^^ i) 1) := int i]) [0..<256] (replicate 256 0) = log_table"
    (is "?loop = _")
proof (rule nth_equalityI)
  let ?a = "\<lambda>i. nat ((gstep ^^ i) 1)" and ?g = "\<lambda>j. nat (log_table ! j)"
  have first: "(replicate 256 0)[Suc 0 := 0::int] = replicate 256 0"
    by (simp add: list_update_same_conv)
  have loop: "?loop = fold (\<lambda>i l. l[?a i := int i]) [1..<256] (replicate 256 0)"
    by (simp add: upt_conv_Cons [of 0 256] first)
  fix j :: nat
  assume "j < length ?loop"
  then have j: "j < 256" by simp
  have "?loop ! j = (if ?g j \<in> set [1..<256] \<and> ?a (?g j) = j then int (?g j) else 0)"
    unfolding loop using j powlog_address by (subst nth_fold_scatter [where g = ?g]) auto
  also have "\<dots> = log_table ! j"
  proof (cases "j = 0")
    case False
    then have "pow_table ! ?g j = int j \<and> 1 \<le> log_table ! j \<and> log_table ! j < 256"
      using pow_log_nth j by (simp add: list_all_iff Suc_le_eq)
    moreover from this have "?g j < 256" by linarith
    then have "(gstep ^^ ?g j) 1 = pow_table ! ?g j"
      by (simp add: pow_table_iter [symmetric])
    ultimately show ?thesis by (simp add: nat_less_iff Suc_le_eq)
  qed (simp add: log_nth)
  finally show "?loop ! j = log_table ! j" .
qed simp

lemma gen_powlog_table: "gen_powlog = (pow_table, log_table)"
  by (simp add: gen_powlog_def fold_powlog log_loop pow_table_iter)

lemma fold_sbox:
  "fold (gen_sbox_step pow log) is (f, r) =
     (fold (\<lambda>i f. f[i := word_of_int (sbox_value pow log i)]) is f,
      fold (\<lambda>i r. r[nat (sbox_value pow log i) := word_of_nat i]) is r)"
  by (induction "is" arbitrary: f r) (simp_all add: gen_sbox_step_def Let_def)

lemma sbox_value_rom: "i \<in> {1..<256} \<Longrightarrow> sbox_value pow_table log_table i = uint (FSb_rom ! i)"
  using sbox_nth by (simp add: list_all_iff)

lemma nat_uint_u8: "nat (uint (b :: u8)) < 256"
  using unat_u8_less [of b] by simp

lemma rsb_loop:
  "fold (\<lambda>i r. r[nat (sbox_value pow_table log_table i) := word_of_nat i]) [1..<256]
     ((replicate 256 0)[0x63 := 0]) = RSb_rom" (is "?loop = _")
proof (rule nth_equalityI)
  let ?a = "\<lambda>i. nat (sbox_value pow_table log_table i)" and ?g = "\<lambda>j. unat (RSb_rom ! j)"
  have a: "i \<in> set [1..<256] \<Longrightarrow> ?a i = unat (FSb_rom ! i)" for i
    by (simp add: sbox_value_rom)
  have g: "i < 256 \<Longrightarrow> ?g (unat (FSb_rom ! i)) = i" for i
    using RSb_FSb_nth by (simp add: list_all_iff)
  fix j :: nat
  assume "j < length ?loop"
  then have j: "j < 256" by simp
  then have inv: "unat (FSb_rom ! ?g j) = j"
    using FSb_RSb_nth by (simp add: list_all_iff)
  have "?loop ! j = (if ?g j \<in> set [1..<256] \<and> ?a (?g j) = j then word_of_nat (?g j) else 0)"
    using j a g by (subst nth_fold_scatter [where g = ?g]) (auto simp: nth_list_update)
  also have "\<dots> = RSb_rom ! j"
  proof (cases "RSb_rom ! j = 0")
    case False
    then have "?g j \<in> set [1..<256]"
      by (simp add: unat_gt_0 [symmetric] Suc_le_eq del: unat_gt_0)
    then show ?thesis using a [of "?g j"] inv by simp
  qed simp
  finally show "?loop ! j = RSb_rom ! j" .
qed simp

lemma fsb_loop:
  "fold (\<lambda>i f. f[i := word_of_int (sbox_value pow_table log_table i)]) [1..<256]
     ((replicate 256 0)[0 := 0x63]) = FSb_rom" (is "?loop = _")
proof (rule nth_equalityI)
  fix j :: nat
  assume "j < length ?loop"
  then have j: "j < 256" by simp
  then show "?loop ! j = FSb_rom ! j"
    by (subst nth_fold_scatter [where g = id and a = id, simplified])
       (auto simp: sbox_value_rom FSb_nth nth_list_update not_le)
qed simp

lemma gen_sbox_table:
  "gen_sbox pow_table log_table (replicate 256 0, replicate 256 0) = (FSb_rom, RSb_rom)"
  by (simp only: gen_sbox_def prod.case fold_sbox fsb_loop rsb_loop)

lemma FT0_eq: "map (\<lambda>i. FT0_entry (uint (FSb_rom ! i))) [0..<256] = FT0 rom_tables"
  by (simp add: upt_256 FSb_nth rom_tables_def FT_rom_def FT0_entry_def XTIME_def glue_def le32_def)
lemma RT0_eq: "map (\<lambda>i. RT0_entry pow_table log_table (uint (RSb_rom ! i))) [0..<256] = RT0 rom_tables"
  by (simp add: upt_256 RSb_nth pow_nth log_nth rom_tables_def RT_rom_def RT0_entry_def MUL_def glue_def le32_def)
lemma rcon_eq: "gen_rcon (replicate 10 0) = RCON rom_tables"
  by (simp add: gen_rcon_def gen_rcon_step_def rom_tables_def upt_rec XTIME_def numeral_eq_Suc)
lemma ROTL8_glue: "ROTL8 (glue a b c d) = glue b c d a"
proof -
  have "x AND 0xFFFFFFFF = x" for x :: u32
    using take_bit_word_eq_self [of 32 x] by (simp add: take_bit_eq_mask mask_eq_exp_minus_1)
  then show ?thesis
   by (intro bit_word_eqI) (auto simp: ROTL8_def glue_def bit_le32 bit_simps)
qed

lemma gen_round_fold:
  fixes pow log :: "int list"
  assumes len: "length (FT0 T) = 256" "length (FT1 T) = 256" "length (FT2 T) = 256"
      "length (FT3 T) = 256" "length (RT0 T) = 256" "length (RT1 T) = 256"
      "length (RT2 T) = 256" "length (RT3 T) = 256"
    and n: "n \<le> 256"
  defines "f \<equiv> \<lambda>i. FT0_entry (uint (FSb T ! i))"
    and "r \<equiv> \<lambda>i. RT0_entry pow log (uint (RSb T ! i))"
  shows "fold (gen_round_step pow log) [0..<n] T =
    T\<lparr>FT0 := map f [0..<n] @ drop n (FT0 T),
      FT1 := map (\<lambda>i. ROTL8 (f i)) [0..<n] @ drop n (FT1 T),
      FT2 := map (\<lambda>i. ROTL8 (ROTL8 (f i))) [0..<n] @ drop n (FT2 T),
      FT3 := map (\<lambda>i. ROTL8 (ROTL8 (ROTL8 (f i)))) [0..<n] @ drop n (FT3 T),
      RT0 := map r [0..<n] @ drop n (RT0 T),
      RT1 := map (\<lambda>i. ROTL8 (r i)) [0..<n] @ drop n (RT1 T),
      RT2 := map (\<lambda>i. ROTL8 (ROTL8 (r i))) [0..<n] @ drop n (RT2 T),
      RT3 := map (\<lambda>i. ROTL8 (ROTL8 (ROTL8 (r i)))) [0..<n] @ drop n (RT3 T)\<rparr>"
  using n
proof (induction n)
  case 0
  then show ?case by simp
next
  case (Suc n)
  then have n: "n < 256" and IH: "n \<le> 256" by simp_all
  show ?case
    unfolding upt_Suc_append [OF le0] fold_append comp_def Suc.IH [OF IH]
    using n len by (simp add: gen_round_step_def Let_def list_update_next nth_append f_def r_def)
qed

lemma FT_rotations:
  "map (\<lambda>i. ROTL8 (FT0_entry (uint (FSb_rom ! i)))) [0..<256] = FT1 rom_tables"
  "map (\<lambda>i. ROTL8 (ROTL8 (FT0_entry (uint (FSb_rom ! i))))) [0..<256] = FT2 rom_tables"
  "map (\<lambda>i. ROTL8 (ROTL8 (ROTL8 (FT0_entry (uint (FSb_rom ! i)))))) [0..<256] = FT3 rom_tables"
  using arg_cong [OF FT0_eq, of "map ROTL8"]
    arg_cong [OF FT0_eq, of "map (\<lambda>w. ROTL8 (ROTL8 w))"]
    arg_cong [OF FT0_eq, of "map (\<lambda>w. ROTL8 (ROTL8 (ROTL8 w)))"]
  by (simp_all add: rom_tables_def comp_def case_prod_unfold ROTL8_glue)

lemma RT_rotations:
  "map (\<lambda>i. ROTL8 (RT0_entry pow_table log_table (uint (RSb_rom ! i)))) [0..<256] = RT1 rom_tables"
  "map (\<lambda>i. ROTL8 (ROTL8 (RT0_entry pow_table log_table (uint (RSb_rom ! i))))) [0..<256] =
     RT2 rom_tables"
  "map (\<lambda>i. ROTL8 (ROTL8 (ROTL8 (RT0_entry pow_table log_table (uint (RSb_rom ! i)))))) [0..<256] =
     RT3 rom_tables"
  using arg_cong [OF RT0_eq, of "map ROTL8"]
    arg_cong [OF RT0_eq, of "map (\<lambda>w. ROTL8 (ROTL8 w))"]
    arg_cong [OF RT0_eq, of "map (\<lambda>w. ROTL8 (ROTL8 (ROTL8 w)))"]
  by (simp_all add: rom_tables_def comp_def case_prod_unfold ROTL8_glue)

lemma gen_tables_rom: "aes_gen_tables static_tables = rom_tables"
proof -
  have sel: "FSb rom_tables = FSb_rom" "RSb rom_tables = RSb_rom"
    by (simp_all add: rom_tables_def)
  show ?thesis
    by (simp add: aes_gen_tables_def static_tables_def gen_powlog_table gen_sbox_table rcon_eq
        gen_round_fold FT0_eq RT0_eq FT_rotations RT_rotations) (simp add: rom_tables_def)
qed

section \<open>What the rounds need: S-boxes and column mixing\<close>

text \<open>
  \<open>xt\<close> doubles an element of GF(256). The forward tables multiply a substituted byte by
  the coefficients 2, 1, 1, 3 of MixColumns, the reverse tables by 14, 9, 13, 11 of its
  inverse.
\<close>

definition sub_byte :: "u8 \<Rightarrow> u8" where
  "sub_byte x = FSb_rom ! unat x"

definition inv_sub_byte :: "u8 \<Rightarrow> u8" where
  "inv_sub_byte x = RSb_rom ! unat x"

definition xt :: "u8 \<Rightarrow> u8" where
  "xt x = push_bit 1 x XOR (if bit x 7 then 0x1B else 0)"

definition mul9 :: "u8 \<Rightarrow> u8" where
  "mul9 x = xt (xt (xt x)) XOR x"

definition mul11 :: "u8 \<Rightarrow> u8" where
  "mul11 x = xt (xt (xt x)) XOR xt x XOR x"

definition mul13 :: "u8 \<Rightarrow> u8" where
  "mul13 x = xt (xt (xt x)) XOR xt (xt x) XOR x"

definition mul14 :: "u8 \<Rightarrow> u8" where
  "mul14 x = xt (xt (xt x)) XOR xt (xt x) XOR xt x"

lemma inv_sub_sub [simp]: "inv_sub_byte (sub_byte x) = x"
  using RSb_FSb_nth by (simp add: inv_sub_byte_def sub_byte_def list_all_iff)

lemma xt_xor: "xt (x XOR y) = xt x XOR xt y"
  by (rule bit_word_eqI) (auto simp: xt_def bit_xor_iff bit_push_bit_iff)

lemma FT0_entry_mix: "FT0_entry (uint s) = le32 (xt s) s s (xt s XOR s)"
proof -
  have "all_u8 (\<lambda>s. FT0_entry (uint s) = le32 (xt s) s s (xt s XOR s))"
    by (simp add: all_u8_def upt_256 FT0_entry_def XTIME_def xt_def le32_def)
  from all_u8_D [OF this] show ?thesis .
qed

lemma RT0_entry_mix:
  "RT0_entry pow_table log_table (uint s) = le32 (mul14 s) (mul9 s) (mul13 s) (mul11 s)"
proof -
  have "all_u8 (\<lambda>s. RT0_entry pow_table log_table (uint s) =
      le32 (mul14 s) (mul9 s) (mul13 s) (mul11 s))"
    by (simp add: all_u8_def upt_256 RT0_entry_def MUL_def pow_nth log_nth xt_def le32_def
        mul9_def mul11_def mul13_def mul14_def)
  from all_u8_D [OF this] show ?thesis .
qed

lemma ROTL8_le32: "ROTL8 (le32 a b c d) = le32 d a b c"
  using ROTL8_glue [of d c b a] by (simp add: glue_def)

lemma FT_rom_nth:
  "FT0 rom_tables ! unat x = le32 (xt (sub_byte x)) (sub_byte x) (sub_byte x) (xt (sub_byte x) XOR sub_byte x)"
  "FT1 rom_tables ! unat x = le32 (xt (sub_byte x) XOR sub_byte x) (xt (sub_byte x)) (sub_byte x) (sub_byte x)"
  "FT2 rom_tables ! unat x = le32 (sub_byte x) (xt (sub_byte x) XOR sub_byte x) (xt (sub_byte x)) (sub_byte x)"
  "FT3 rom_tables ! unat x = le32 (sub_byte x) (sub_byte x) (xt (sub_byte x) XOR sub_byte x) (xt (sub_byte x))"
  by (simp_all add: FT0_eq [symmetric] FT_rotations [symmetric] sub_byte_def FT0_entry_mix ROTL8_le32)

lemma RT_rom_nth:
  "RT0 rom_tables ! unat x = (let r = inv_sub_byte x in le32 (mul14 r) (mul9 r) (mul13 r) (mul11 r))"
  "RT1 rom_tables ! unat x = (let r = inv_sub_byte x in le32 (mul11 r) (mul14 r) (mul9 r) (mul13 r))"
  "RT2 rom_tables ! unat x = (let r = inv_sub_byte x in le32 (mul13 r) (mul11 r) (mul14 r) (mul9 r))"
  "RT3 rom_tables ! unat x = (let r = inv_sub_byte x in le32 (mul9 r) (mul13 r) (mul11 r) (mul14 r))"
  by (simp_all add: RT0_eq [symmetric] RT_rotations [symmetric] inv_sub_byte_def RT0_entry_mix
      ROTL8_le32 Let_def)

lemma sbox_rom_nth:
  "FSb rom_tables ! unat x = sub_byte x" "RSb rom_tables ! unat x = inv_sub_byte x"
  by (simp_all add: rom_tables_def sub_byte_def inv_sub_byte_def)

end
