(* ===== verification/Aes_Core.thy ===== *)
theory Aes_Core
  imports Aes_Tables
begin

text \<open>
  The block cipher of \<open>srl/aes.c\<close>: the two key schedules and \<open>aes_crypt_ecb\<close>, on the plain
  C path (no VIA PadLock, no AES-NI, which \<open>aes.h\<close> does not enable). The main result is that
  decryption with the schedule of \<open>aes_setkey_dec\<close> inverts encryption with the schedule of
  \<open>aes_setkey_enc\<close>, for every key, block and key size.
\<close>

section \<open>State\<close>

text \<open>
  \<open>aes_state\<close> is the file's static data: the flag \<open>aes_init_done\<close> and the tables. The context
  keeps the number of rounds and \<open>buf\<close>; without PadLock \<open>rk\<close> always points at its start.
\<close>

record aes_state =
  aes_init_done :: bool
  tables :: aes_tables

record aes_context =
  nr :: nat
  buf :: "u32 list"

definition aes_state_init :: aes_state where
  "aes_state_init = \<lparr>aes_init_done = False, tables = static_tables\<rparr>"

definition POLARSSL_ERR_AES_INVALID_KEY_LENGTH :: int where
  "POLARSSL_ERR_AES_INVALID_KEY_LENGTH = -0x20"

definition GET_UINT32_LE :: "bytes \<Rightarrow> nat \<Rightarrow> u32" where
  "GET_UINT32_LE b i = le32 (b ! i) (b ! (i + 1)) (b ! (i + 2)) (b ! (i + 3))"

definition PUT_UINT32_LE :: "u32 \<Rightarrow> bytes" where
  "PUT_UINT32_LE n = [byte_of 0 n, byte_of 1 n, byte_of 2 n, byte_of 3 n]"

text \<open>Four bytes XORed together at their positions, as the C expressions write them.\<close>

definition xor32 :: "u8 \<Rightarrow> u8 \<Rightarrow> u8 \<Rightarrow> u8 \<Rightarrow> u32" where
  "xor32 b0 b1 b2 b3 =
     ucast b0 XOR push_bit 8 (ucast b1) XOR push_bit 16 (ucast b2) XOR push_bit 24 (ucast b3)"

section \<open>Key schedule for encryption\<close>

definition sub_word :: "aes_tables \<Rightarrow> u32 \<Rightarrow> u32" where
  "sub_word T w = xor32 (FSb T ! unat (byte_of 0 w)) (FSb T ! unat (byte_of 1 w))
     (FSb T ! unat (byte_of 2 w)) (FSb T ! unat (byte_of 3 w))"

definition sub_rot_word :: "aes_tables \<Rightarrow> u32 \<Rightarrow> u32" where
  "sub_rot_word T w = xor32 (FSb T ! unat (byte_of 1 w)) (FSb T ! unat (byte_of 2 w))
     (FSb T ! unat (byte_of 3 w)) (FSb T ! unat (byte_of 0 w))"

text \<open>One iteration of each expansion loop; \<open>o\<close> is the offset of the moving pointer \<open>RK\<close>.\<close>

definition expand128 :: "aes_tables \<Rightarrow> nat \<Rightarrow> u32 list \<Rightarrow> u32 list" where
  "expand128 T i rk =
     (let p = 4 * i;
          rk = rk[p + 4 := rk ! p XOR RCON T ! i XOR sub_rot_word T (rk ! (p + 3))];
          rk = rk[p + 5 := rk ! (p + 1) XOR rk ! (p + 4)];
          rk = rk[p + 6 := rk ! (p + 2) XOR rk ! (p + 5)]
      in rk[p + 7 := rk ! (p + 3) XOR rk ! (p + 6)])"

definition expand192 :: "aes_tables \<Rightarrow> nat \<Rightarrow> u32 list \<Rightarrow> u32 list" where
  "expand192 T i rk =
     (let p = 6 * i;
          rk = rk[p + 6 := rk ! p XOR RCON T ! i XOR sub_rot_word T (rk ! (p + 5))];
          rk = rk[p + 7 := rk ! (p + 1) XOR rk ! (p + 6)];
          rk = rk[p + 8 := rk ! (p + 2) XOR rk ! (p + 7)];
          rk = rk[p + 9 := rk ! (p + 3) XOR rk ! (p + 8)];
          rk = rk[p + 10 := rk ! (p + 4) XOR rk ! (p + 9)]
      in rk[p + 11 := rk ! (p + 5) XOR rk ! (p + 10)])"

definition expand256 :: "aes_tables \<Rightarrow> nat \<Rightarrow> u32 list \<Rightarrow> u32 list" where
  "expand256 T i rk =
     (let p = 8 * i;
          rk = rk[p + 8 := rk ! p XOR RCON T ! i XOR sub_rot_word T (rk ! (p + 7))];
          rk = rk[p + 9 := rk ! (p + 1) XOR rk ! (p + 8)];
          rk = rk[p + 10 := rk ! (p + 2) XOR rk ! (p + 9)];
          rk = rk[p + 11 := rk ! (p + 3) XOR rk ! (p + 10)];
          rk = rk[p + 12 := rk ! (p + 4) XOR sub_word T (rk ! (p + 11))];
          rk = rk[p + 13 := rk ! (p + 5) XOR rk ! (p + 12)];
          rk = rk[p + 14 := rk ! (p + 6) XOR rk ! (p + 13)]
      in rk[p + 15 := rk ! (p + 7) XOR rk ! (p + 14)])"

definition rounds_of_keysize :: "nat \<Rightarrow> nat option" where
  "rounds_of_keysize keysize =
     (if keysize = 128 then Some 10 else if keysize = 192 then Some 12
      else if keysize = 256 then Some 14 else None)"

definition load_key :: "bytes \<Rightarrow> nat \<Rightarrow> u32 list \<Rightarrow> u32 list" where
  "load_key key n rk = fold (\<lambda>i rk. rk[i := GET_UINT32_LE key (4 * i)]) [0..<n] rk"

definition expand_key :: "aes_tables \<Rightarrow> nat \<Rightarrow> u32 list \<Rightarrow> u32 list" where
  "expand_key T n rk =
     (if n = 10 then fold (expand128 T) [0..<10] rk
      else if n = 12 then fold (expand192 T) [0..<8] rk
      else if n = 14 then fold (expand256 T) [0..<7] rk else rk)"

definition init_tables :: "aes_state \<Rightarrow> aes_state" where
  "init_tables st =
     (if \<not> aes_init_done st
      then \<lparr>aes_init_done = True, tables = aes_gen_tables (tables st)\<rparr> else st)"

definition aes_setkey_enc ::
  "aes_state \<Rightarrow> aes_context \<Rightarrow> bytes \<Rightarrow> nat \<Rightarrow> aes_state \<times> aes_context \<times> int" where
  "aes_setkey_enc st ctx key keysize =
     (let st = init_tables st in
      case rounds_of_keysize keysize of
        None \<Rightarrow> (st, ctx, POLARSSL_ERR_AES_INVALID_KEY_LENGTH)
      | Some n \<Rightarrow>
          (let rk = load_key key (keysize div 32) (buf ctx)
           in (st, \<lparr>nr = n, buf = expand_key (tables st) n rk\<rparr>, 0)))"

section \<open>Key schedule for decryption\<close>

text \<open>
  \<open>RK\<close> walks forward through the new schedule, \<open>SK\<close> through the encryption schedule from its
  last round key to its first; the inner round keys go through the reverse tables.
\<close>

definition inv_mix_key :: "aes_tables \<Rightarrow> u32 \<Rightarrow> u32" where
  "inv_mix_key T w =
     RT0 T ! unat (FSb T ! unat (byte_of 0 w)) XOR RT1 T ! unat (FSb T ! unat (byte_of 1 w)) XOR
     RT2 T ! unat (FSb T ! unat (byte_of 2 w)) XOR RT3 T ! unat (FSb T ! unat (byte_of 3 w))"

definition copy4 :: "u32 list \<times> nat \<times> nat \<Rightarrow> u32 list \<Rightarrow> u32 list \<times> nat \<times> nat" where
  "copy4 = (\<lambda>(rk, d, s) sk.
     (rk[d := sk ! s, d + 1 := sk ! (s + 1), d + 2 := sk ! (s + 2), d + 3 := sk ! (s + 3)],
      d + 4, s + 4))"

definition mix4 ::
  "aes_tables \<Rightarrow> u32 list \<Rightarrow> u32 list \<times> nat \<times> nat \<Rightarrow> u32 list \<times> nat \<times> nat" where
  "mix4 T sk = (\<lambda>(rk, d, s).
     (rk[d := inv_mix_key T (sk ! s), d + 1 := inv_mix_key T (sk ! (s + 1)),
         d + 2 := inv_mix_key T (sk ! (s + 2)), d + 3 := inv_mix_key T (sk ! (s + 3))],
      d + 4, s + 4 - 8))"

definition aes_setkey_dec ::
  "aes_state \<Rightarrow> aes_context \<Rightarrow> aes_context \<Rightarrow> bytes \<Rightarrow> nat \<Rightarrow> aes_state \<times> aes_context \<times> int" where
  "aes_setkey_dec st ctx cty key keysize =
     (case rounds_of_keysize keysize of
        None \<Rightarrow> (st, ctx, POLARSSL_ERR_AES_INVALID_KEY_LENGTH)
      | Some n \<Rightarrow>
          (let ctx = ctx\<lparr>nr := n\<rparr>; (st, cty, ret) = aes_setkey_enc st cty key keysize
           in if ret \<noteq> 0 then (st, ctx, ret)
              else
                (let (rk, d, s) = copy4 (buf ctx, 0, 4 * nr cty) (buf cty);
                     (rk, d, s) = (mix4 (tables st) (buf cty) ^^ (n - 1)) (rk, d, s - 8);
                     (rk, d, s) = copy4 (rk, d, s) (buf cty)
                 in (st, ctx\<lparr>buf := rk\<rparr>, 0))))"

section \<open>Rounds and the block cipher\<close>

type_synonym regs = "u32 \<times> u32 \<times> u32 \<times> u32"

definition AES_FROUND :: "aes_tables \<Rightarrow> u32 list \<Rightarrow> nat \<Rightarrow> regs \<Rightarrow> regs" where
  "AES_FROUND T rk p = (\<lambda>(y0, y1, y2, y3).
    (rk ! p XOR FT0 T ! unat (byte_of 0 y0) XOR FT1 T ! unat (byte_of 1 y1) XOR
       FT2 T ! unat (byte_of 2 y2) XOR FT3 T ! unat (byte_of 3 y3),
     rk ! (p + 1) XOR FT0 T ! unat (byte_of 0 y1) XOR FT1 T ! unat (byte_of 1 y2) XOR
       FT2 T ! unat (byte_of 2 y3) XOR FT3 T ! unat (byte_of 3 y0),
     rk ! (p + 2) XOR FT0 T ! unat (byte_of 0 y2) XOR FT1 T ! unat (byte_of 1 y3) XOR
       FT2 T ! unat (byte_of 2 y0) XOR FT3 T ! unat (byte_of 3 y1),
     rk ! (p + 3) XOR FT0 T ! unat (byte_of 0 y3) XOR FT1 T ! unat (byte_of 1 y0) XOR
       FT2 T ! unat (byte_of 2 y1) XOR FT3 T ! unat (byte_of 3 y2)))"

definition AES_RROUND :: "aes_tables \<Rightarrow> u32 list \<Rightarrow> nat \<Rightarrow> regs \<Rightarrow> regs" where
  "AES_RROUND T rk p = (\<lambda>(y0, y1, y2, y3).
    (rk ! p XOR RT0 T ! unat (byte_of 0 y0) XOR RT1 T ! unat (byte_of 1 y3) XOR
       RT2 T ! unat (byte_of 2 y2) XOR RT3 T ! unat (byte_of 3 y1),
     rk ! (p + 1) XOR RT0 T ! unat (byte_of 0 y1) XOR RT1 T ! unat (byte_of 1 y0) XOR
       RT2 T ! unat (byte_of 2 y3) XOR RT3 T ! unat (byte_of 3 y2),
     rk ! (p + 2) XOR RT0 T ! unat (byte_of 0 y2) XOR RT1 T ! unat (byte_of 1 y1) XOR
       RT2 T ! unat (byte_of 2 y0) XOR RT3 T ! unat (byte_of 3 y3),
     rk ! (p + 3) XOR RT0 T ! unat (byte_of 0 y3) XOR RT1 T ! unat (byte_of 1 y2) XOR
       RT2 T ! unat (byte_of 2 y1) XOR RT3 T ! unat (byte_of 3 y0)))"

text \<open>The loop of round pairs: \<open>i\<close> counts down, the key pointer advances eight words.\<close>

fun round_pairs ::
  "(nat \<Rightarrow> regs \<Rightarrow> regs) \<Rightarrow> nat \<Rightarrow> nat \<times> regs \<Rightarrow> nat \<times> regs" where
  "round_pairs f 0 (p, x) = (p, x)"
| "round_pairs f (Suc i) (p, x) =
     (let y = f p x; x = f (p + 4) y in round_pairs f i (p + 8, x))"

definition final_enc :: "aes_tables \<Rightarrow> u32 list \<Rightarrow> nat \<Rightarrow> regs \<Rightarrow> regs" where
  "final_enc T rk p = (\<lambda>(y0, y1, y2, y3).
    (rk ! p XOR xor32 (FSb T ! unat (byte_of 0 y0)) (FSb T ! unat (byte_of 1 y1))
       (FSb T ! unat (byte_of 2 y2)) (FSb T ! unat (byte_of 3 y3)),
     rk ! (p + 1) XOR xor32 (FSb T ! unat (byte_of 0 y1)) (FSb T ! unat (byte_of 1 y2))
       (FSb T ! unat (byte_of 2 y3)) (FSb T ! unat (byte_of 3 y0)),
     rk ! (p + 2) XOR xor32 (FSb T ! unat (byte_of 0 y2)) (FSb T ! unat (byte_of 1 y3))
       (FSb T ! unat (byte_of 2 y0)) (FSb T ! unat (byte_of 3 y1)),
     rk ! (p + 3) XOR xor32 (FSb T ! unat (byte_of 0 y3)) (FSb T ! unat (byte_of 1 y0))
       (FSb T ! unat (byte_of 2 y1)) (FSb T ! unat (byte_of 3 y2))))"

definition final_dec :: "aes_tables \<Rightarrow> u32 list \<Rightarrow> nat \<Rightarrow> regs \<Rightarrow> regs" where
  "final_dec T rk p = (\<lambda>(y0, y1, y2, y3).
    (rk ! p XOR xor32 (RSb T ! unat (byte_of 0 y0)) (RSb T ! unat (byte_of 1 y3))
       (RSb T ! unat (byte_of 2 y2)) (RSb T ! unat (byte_of 3 y1)),
     rk ! (p + 1) XOR xor32 (RSb T ! unat (byte_of 0 y1)) (RSb T ! unat (byte_of 1 y0))
       (RSb T ! unat (byte_of 2 y3)) (RSb T ! unat (byte_of 3 y2)),
     rk ! (p + 2) XOR xor32 (RSb T ! unat (byte_of 0 y2)) (RSb T ! unat (byte_of 1 y1))
       (RSb T ! unat (byte_of 2 y0)) (RSb T ! unat (byte_of 3 y3)),
     rk ! (p + 3) XOR xor32 (RSb T ! unat (byte_of 0 y3)) (RSb T ! unat (byte_of 1 y2))
       (RSb T ! unat (byte_of 2 y1)) (RSb T ! unat (byte_of 3 y0))))"

datatype aes_mode = AES_DECRYPT | AES_ENCRYPT

definition load_block :: "u32 list \<Rightarrow> bytes \<Rightarrow> regs" where
  "load_block rk input =
     (GET_UINT32_LE input 0 XOR rk ! 0, GET_UINT32_LE input 4 XOR rk ! 1,
      GET_UINT32_LE input 8 XOR rk ! 2, GET_UINT32_LE input 12 XOR rk ! 3)"

definition store_block :: "regs \<Rightarrow> bytes" where
  "store_block = (\<lambda>(x0, x1, x2, x3).
     PUT_UINT32_LE x0 @ PUT_UINT32_LE x1 @ PUT_UINT32_LE x2 @ PUT_UINT32_LE x3)"

definition aes_crypt_ecb :: "aes_tables \<Rightarrow> aes_context \<Rightarrow> aes_mode \<Rightarrow> bytes \<Rightarrow> bytes" where
  "aes_crypt_ecb T ctx mode input =
     (let rk = buf ctx; x = load_block rk input; n = nr ctx div 2 - 1 in
      case mode of
        AES_DECRYPT \<Rightarrow>
          (let (p, x) = round_pairs (AES_RROUND T rk) n (4, x); y = AES_RROUND T rk p x
           in store_block (final_dec T rk (p + 4) y))
      | AES_ENCRYPT \<Rightarrow>
          (let (p, x) = round_pairs (AES_FROUND T rk) n (4, x); y = AES_FROUND T rk p x
           in store_block (final_enc T rk (p + 4) y)))"

lemma length_aes_crypt_ecb [simp]: "length (aes_crypt_ecb T ctx mode input) = 16"
  by (simp add: aes_crypt_ecb_def store_block_def PUT_UINT32_LE_def Let_def
      split: aes_mode.split prod.split)

section \<open>The rounds over the ROM tables\<close>

text \<open>
  Over the tables of \<open>rom_tables\<close> a round is: substitute and shift, mix each column, add the
  round key. Mixing is linear and has an inverse, which is all that decryption needs.
\<close>

definition map_regs :: "(u32 \<Rightarrow> u32) \<Rightarrow> regs \<Rightarrow> regs" where
  "map_regs f = (\<lambda>(x0, x1, x2, x3). (f x0, f x1, f x2, f x3))"

definition xor_regs :: "regs \<Rightarrow> regs \<Rightarrow> regs" where
  "xor_regs = (\<lambda>(a0, a1, a2, a3) (b0, b1, b2, b3). (a0 XOR b0, a1 XOR b1, a2 XOR b2, a3 XOR b3))"

definition round_key :: "u32 list \<Rightarrow> nat \<Rightarrow> regs" where
  "round_key rk r = (rk ! (4 * r), rk ! (4 * r + 1), rk ! (4 * r + 2), rk ! (4 * r + 3))"

definition sub_shift :: "regs \<Rightarrow> regs" where
  "sub_shift = (\<lambda>(y0, y1, y2, y3).
    let S = sub_byte; c = (\<lambda>a b c d. le32 (S (byte_of 0 a)) (S (byte_of 1 b))
      (S (byte_of 2 c)) (S (byte_of 3 d)))
    in (c y0 y1 y2 y3, c y1 y2 y3 y0, c y2 y3 y0 y1, c y3 y0 y1 y2))"

definition inv_sub_shift :: "regs \<Rightarrow> regs" where
  "inv_sub_shift = (\<lambda>(y0, y1, y2, y3).
    let S = inv_sub_byte; c = (\<lambda>a b c d. le32 (S (byte_of 0 a)) (S (byte_of 1 b))
      (S (byte_of 2 c)) (S (byte_of 3 d)))
    in (c y0 y3 y2 y1, c y1 y0 y3 y2, c y2 y1 y0 y3, c y3 y2 y1 y0))"

definition mix_bytes :: "u8 \<Rightarrow> u8 \<Rightarrow> u8 \<Rightarrow> u8 \<Rightarrow> u32" where
  "mix_bytes a b c d =
     le32 (xt a XOR (xt b XOR b) XOR c XOR d) (a XOR xt b XOR (xt c XOR c) XOR d)
       (a XOR b XOR xt c XOR (xt d XOR d)) ((xt a XOR a) XOR b XOR c XOR xt d)"

definition inv_mix_bytes :: "u8 \<Rightarrow> u8 \<Rightarrow> u8 \<Rightarrow> u8 \<Rightarrow> u32" where
  "inv_mix_bytes a b c d =
     le32 (mul14 a XOR mul11 b XOR mul13 c XOR mul9 d) (mul9 a XOR mul14 b XOR mul11 c XOR mul13 d)
       (mul13 a XOR mul9 b XOR mul14 c XOR mul11 d) (mul11 a XOR mul13 b XOR mul9 c XOR mul14 d)"

definition mix_column :: "u32 \<Rightarrow> u32" where
  "mix_column w = mix_bytes (byte_of 0 w) (byte_of 1 w) (byte_of 2 w) (byte_of 3 w)"

definition inv_mix_column :: "u32 \<Rightarrow> u32" where
  "inv_mix_column w = inv_mix_bytes (byte_of 0 w) (byte_of 1 w) (byte_of 2 w) (byte_of 3 w)"

lemma xor_cancel: "(x :: 'a::len word) XOR (x XOR y) = y"
  by (simp add: xor.assoc [symmetric])

lemmas xor_ac = xor.assoc xor.commute xor.left_commute xor_cancel

lemma xor32_le32: "xor32 a b c d = le32 a b c d"
  by (rule bit_word_eqI) (auto simp: xor32_def bit_le32 bit_simps dest: bit_imp_le_length)

lemma inv_mix_mix [simp]: "inv_mix_column (mix_column w) = w"
proof -
  have "inv_mix_column (mix_bytes a b c d) = le32 a b c d" for a b c d
    by (simp add: inv_mix_column_def mix_bytes_def inv_mix_bytes_def le32_eq_iff mul9_def
        mul11_def mul13_def mul14_def xt_xor xor_ac)
  then show ?thesis
    by (simp add: mix_column_def)
qed

lemma inv_mix_xor: "inv_mix_column (v XOR w) = inv_mix_column v XOR inv_mix_column w"
  by (simp add: inv_mix_column_def inv_mix_bytes_def byte_of_xor le32_xor le32_eq_iff mul9_def
      mul11_def mul13_def mul14_def xt_xor xor_ac)

lemma inv_sub_shift_inverse [simp]: "inv_sub_shift (sub_shift y) = y"
  by (cases y) (simp add: inv_sub_shift_def sub_shift_def Let_def)

lemma xor_regs_cancel [simp]:
  "xor_regs a (xor_regs a b) = b" "xor_regs a (xor_regs b a) = b" "xor_regs (xor_regs a b) a = b"
  by (cases a; cases b; simp add: xor_regs_def xor_ac)+

lemma fround_rom:
  "AES_FROUND rom_tables rk (4 * r) y =
     xor_regs (round_key rk r) (map_regs mix_column (sub_shift y))"
  by (cases y)
     (simp add: AES_FROUND_def FT_rom_nth sub_shift_def map_regs_def xor_regs_def round_key_def
       mix_column_def mix_bytes_def le32_xor xor.assoc Let_def)

lemma rround_rom:
  "AES_RROUND rom_tables rk (4 * r) y =
     xor_regs (round_key rk r) (map_regs inv_mix_column (inv_sub_shift y))"
  by (cases y)
     (simp add: AES_RROUND_def RT_rom_nth inv_sub_shift_def map_regs_def xor_regs_def
       round_key_def inv_mix_column_def inv_mix_bytes_def le32_xor xor.assoc Let_def)

lemma final_rom:
  "final_enc rom_tables rk (4 * r) y = xor_regs (round_key rk r) (sub_shift y)"
  "final_dec rom_tables rk (4 * r) y = xor_regs (round_key rk r) (inv_sub_shift y)"
  by (cases y; simp add: final_enc_def final_dec_def sub_shift_def inv_sub_shift_def xor_regs_def
       round_key_def sbox_rom_nth xor32_le32 Let_def)+

lemma inv_mix_key_rom: "inv_mix_key rom_tables w = inv_mix_column w"
  by (simp add: inv_mix_key_def RT_rom_nth sbox_rom_nth inv_mix_column_def inv_mix_bytes_def
      le32_xor xor.assoc Let_def)

section \<open>Runs of rounds\<close>

primrec run_rounds :: "(nat \<Rightarrow> regs \<Rightarrow> regs) \<Rightarrow> nat \<Rightarrow> regs \<Rightarrow> regs" where
  "run_rounds f 0 x = x"
| "run_rounds f (Suc k) x = f (4 * Suc k) (run_rounds f k x)"

lemma round_pairs_run:
  "round_pairs f i (4 * Suc (2 * k), run_rounds f (2 * k) x) =
     (4 * Suc (2 * (k + i)), run_rounds f (2 * (k + i)) x)"
proof (induction i arbitrary: k)
  case 0
  then show ?case by simp
next
  case (Suc i)
  from Suc.IH [of "Suc k"] show ?case by (simp add: Let_def add.commute)
qed

lemma round_pairs_start:
  "round_pairs f i (4, x) = (4 * Suc (2 * i), run_rounds f (2 * i) x)"
  using round_pairs_run [of f i 0 x] by simp

text \<open>With an even, positive number of rounds, the loop and the round after it are \<open>nr - 1\<close> rounds.\<close>

lemma aes_crypt_ecb_run:
  assumes "even (nr ctx)" "0 < nr ctx"
  shows "aes_crypt_ecb T ctx AES_ENCRYPT b = store_block (final_enc T (buf ctx) (4 * nr ctx)
      (run_rounds (AES_FROUND T (buf ctx)) (nr ctx - 1) (load_block (buf ctx) b)))"
    and "aes_crypt_ecb T ctx AES_DECRYPT b = store_block (final_dec T (buf ctx) (4 * nr ctx)
      (run_rounds (AES_RROUND T (buf ctx)) (nr ctx - 1) (load_block (buf ctx) b)))"
proof -
  define m where "m = nr ctx div 2 - 1"
  have nr: "nr ctx - 1 = Suc (2 * m)" "4 * nr ctx = 4 * Suc (2 * m) + 4"
    using assms by (auto simp: m_def elim: evenE)
  have m: "nr ctx div 2 - Suc 0 = m"
    by (simp add: m_def)
  show "aes_crypt_ecb T ctx AES_ENCRYPT b = store_block (final_enc T (buf ctx) (4 * nr ctx)
      (run_rounds (AES_FROUND T (buf ctx)) (nr ctx - 1) (load_block (buf ctx) b)))"
    "aes_crypt_ecb T ctx AES_DECRYPT b = store_block (final_dec T (buf ctx) (4 * nr ctx)
      (run_rounds (AES_RROUND T (buf ctx)) (nr ctx - 1) (load_block (buf ctx) b)))"
    unfolding nr by (simp_all add: aes_crypt_ecb_def Let_def m round_pairs_start)
qed

section \<open>Decryption inverts encryption\<close>

text \<open>
  \<open>inverse_schedule n dk ek\<close>: the round keys of \<open>dk\<close> are those of \<open>ek\<close> backwards, the inner
  ones passed through the inverse column mixing.
\<close>

definition inverse_schedule :: "nat \<Rightarrow> u32 list \<Rightarrow> u32 list \<Rightarrow> bool" where
  "inverse_schedule n dk ek \<longleftrightarrow>
     round_key dk 0 = round_key ek n \<and> round_key dk n = round_key ek 0 \<and>
     (\<forall>r. 0 < r \<and> r < n \<longrightarrow> round_key dk r = map_regs inv_mix_column (round_key ek (n - r)))"

lemma map_inv_mix:
  "map_regs inv_mix_column (xor_regs x (map_regs mix_column y)) =
     xor_regs (map_regs inv_mix_column x) y"
  by (cases x; cases y) (simp add: map_regs_def xor_regs_def inv_mix_xor)

lemma run_inverse:
  assumes "inverse_schedule (Suc m) dk ek" "k \<le> m"
  shows "run_rounds (AES_RROUND rom_tables dk) k
           (sub_shift (run_rounds (AES_FROUND rom_tables ek) m x)) =
         sub_shift (run_rounds (AES_FROUND rom_tables ek) (m - k) x)"
  using assms(2)
proof (induction k)
  case 0
  then show ?case by simp
next
  case (Suc k)
  let ?E = "\<lambda>j. run_rounds (AES_FROUND rom_tables ek) j x"
  obtain j where j: "m - k = Suc j" "m - Suc k = j"
    using Suc.prems by (metis Suc_diff_Suc Suc_le_lessD)
  have key: "round_key dk (Suc k) = map_regs inv_mix_column (round_key ek (m - k))"
    using assms(1) Suc.prems by (simp add: inverse_schedule_def)
  have "run_rounds (AES_RROUND rom_tables dk) (Suc k) (sub_shift (?E m)) =
      xor_regs (round_key dk (Suc k)) (map_regs inv_mix_column (?E (m - k)))"
    using Suc by (simp add: rround_rom del: mult_Suc_right)
  also have "?E (m - k) = xor_regs (round_key ek (m - k)) (map_regs mix_column (sub_shift (?E j)))"
    unfolding j by (simp add: fround_rom del: mult_Suc_right)
  also have "xor_regs (round_key dk (Suc k)) (map_regs inv_mix_column \<dots>) = sub_shift (?E j)"
    unfolding key map_inv_mix by simp
  finally show ?case unfolding j .
qed

lemma words_of_store:
  "load_block rk (store_block x) = xor_regs x (round_key rk 0)"
  by (cases x)
     (simp add: load_block_def store_block_def PUT_UINT32_LE_def GET_UINT32_LE_def xor_regs_def
       round_key_def numeral_2_eq_2 [symmetric])

lemma store_of_words:
  assumes "length b = 16"
  shows "store_block (xor_regs (round_key rk 0) (load_block rk b)) = b"
proof -
  obtain b0 b1 b2 b3 b4 b5 b6 b7 b8 b9 b10 b11 b12 b13 b14 b15
    where "b = [b0, b1, b2, b3, b4, b5, b6, b7, b8, b9, b10, b11, b12, b13, b14, b15]"
    using assms by (auto simp: numeral_eq_Suc length_Suc_conv)
  then show ?thesis
    by (simp add: load_block_def store_block_def PUT_UINT32_LE_def GET_UINT32_LE_def xor_regs_def
        round_key_def xor_ac numeral_2_eq_2 [symmetric])
qed

lemma ecb_inverse:
  assumes sched: "inverse_schedule (nr ctx) (buf dctx) (buf ctx)" and "nr dctx = nr ctx"
    and n: "even (nr ctx)" "0 < nr ctx" and b: "length b = 16"
  shows "aes_crypt_ecb rom_tables dctx AES_DECRYPT
           (aes_crypt_ecb rom_tables ctx AES_ENCRYPT b) = b"
proof -
  obtain m where m: "nr ctx = Suc m"
    using n by (cases "nr ctx") auto
  let ?E = "\<lambda>j. run_rounds (AES_FROUND rom_tables (buf ctx)) j (load_block (buf ctx) b)"
  have keys: "round_key (buf dctx) 0 = round_key (buf ctx) (Suc m)"
      "round_key (buf dctx) (Suc m) = round_key (buf ctx) 0"
    using sched by (simp_all add: inverse_schedule_def m)
  have enc: "load_block (buf dctx) (aes_crypt_ecb rom_tables ctx AES_ENCRYPT b) = sub_shift (?E m)"
    using n by (simp add: aes_crypt_ecb_run final_rom words_of_store keys m del: mult_Suc_right)
  have "aes_crypt_ecb rom_tables dctx AES_DECRYPT (aes_crypt_ecb rom_tables ctx AES_ENCRYPT b) =
      store_block (xor_regs (round_key (buf ctx) 0) (inv_sub_shift (sub_shift (?E (m - m)))))"
    using n assms(2) run_inverse [OF sched [unfolded m], of m "load_block (buf ctx) b"]
    by (simp add: aes_crypt_ecb_run(2) final_rom enc keys m del: mult_Suc_right)
  then show ?thesis
    using b by (simp add: store_of_words)
qed

section \<open>The schedules fit\<close>

lemma round_key_update:
  assumes "4 * r + 3 < length rk"
  shows "round_key (rk[4 * r := a, 4 * r + 1 := b, 4 * r + 2 := c, 4 * r + 3 := d]) q =
           (if q = r then (a, b, c, d) else round_key rk q)"
proof (cases "q = r")
  case True
  then show ?thesis using assms by (simp add: round_key_def)
next
  case False
  then have "4 * q + i \<noteq> 4 * r + j" if "i < 4" "j < 4" for i j
    using that by presburger
  from this [of 0] this [of 1] this [of 2] this [of 3] show ?thesis
    using False by (simp add: round_key_def nth_list_update)
qed

lemma mix4_at:
  assumes "4 * r + 3 < length rk"
  shows "\<exists>rk'. mix4 T sk (rk, 4 * r, 4 * q) = (rk', 4 * Suc r, 4 * (q - 1)) \<and>
    length rk' = length rk \<and>
    (\<forall>p. round_key rk' p =
       (if p = r then map_regs (inv_mix_key T) (round_key sk q) else round_key rk p))"
proof -
  have "4 * q + 4 - 8 = 4 * (q - 1)" by simp
  then show ?thesis
    using round_key_update [OF assms] by (simp add: mix4_def map_regs_def round_key_def)
qed

lemma copy4_at:
  assumes "4 * r + 3 < length rk"
  shows "\<exists>rk'. copy4 (rk, 4 * r, 4 * q) sk = (rk', 4 * Suc r, 4 * Suc q) \<and>
    length rk' = length rk \<and>
    (\<forall>p. round_key rk' p = (if p = r then round_key sk q else round_key rk p))"
  using round_key_update [OF assms] by (simp add: copy4_def round_key_def)

lemma mix4_loop:
  assumes "k < n" "4 * n + 3 < length rk"
  shows "\<exists>rk'. (mix4 T sk ^^ k) (rk, 4, 4 * (n - 1)) = (rk', 4 * Suc k, 4 * (n - 1 - k)) \<and>
    length rk' = length rk \<and> round_key rk' 0 = round_key rk 0 \<and>
    (\<forall>r. 0 < r \<and> r \<le> k \<longrightarrow> round_key rk' r = map_regs (inv_mix_key T) (round_key sk (n - r)))"
  using assms(1)
proof (induction k)
  case 0
  then show ?case by simp
next
  case (Suc k)
  then obtain rk1 where 1: "(mix4 T sk ^^ k) (rk, 4, 4 * (n - 1)) = (rk1, 4 * Suc k, 4 * (n - 1 - k))"
    "length rk1 = length rk" "round_key rk1 0 = round_key rk 0"
    "\<forall>r. 0 < r \<and> r \<le> k \<longrightarrow> round_key rk1 r = map_regs (inv_mix_key T) (round_key sk (n - r))"
    by auto
  have "4 * Suc k + 3 < length rk1"
    using Suc.prems assms(2) 1(2) by simp
  from mix4_at [OF this, of T sk "n - 1 - k"] obtain rk2
    where 2: "mix4 T sk (rk1, 4 * Suc k, 4 * (n - 1 - k)) = (rk2, 4 * Suc (Suc k), 4 * (n - 1 - k - 1))"
      "length rk2 = length rk1"
      "\<forall>p. round_key rk2 p = (if p = Suc k then map_regs (inv_mix_key T) (round_key sk (n - 1 - k))
         else round_key rk1 p)"
    by blast
  have "(mix4 T sk ^^ Suc k) (rk, 4, 4 * (n - 1)) = (rk2, 4 * Suc (Suc k), 4 * (n - 1 - Suc k))"
    using 1(1) 2(1) by simp
  then show ?case
    using 1 2 by (intro exI [of _ rk2]) (auto simp: le_Suc_eq)
qed

text \<open>What a whole decryption schedule holds, for any schedule buffer long enough.\<close>

lemma dec_schedule:
  assumes "1 < n" "4 * n + 3 < length dk"
  shows "\<exists>rk d s rk' d' s' rk'' d'' s''.
    copy4 (dk, 0, 4 * n) ek = (rk, d, s) \<and>
    (mix4 rom_tables ek ^^ (n - 1)) (rk, d, s - 8) = (rk', d', s') \<and>
    copy4 (rk', d', s') ek = (rk'', d'', s'') \<and>
    length rk'' = length dk \<and> inverse_schedule n rk'' ek"
proof -
  from copy4_at [of 0 dk n ek] assms obtain rk where rk: "copy4 (dk, 0, 4 * n) ek = (rk, 4, 4 * Suc n)"
    "length rk = length dk" "round_key rk 0 = round_key ek n"
    by auto
  have s: "4 * Suc n - 8 = 4 * (n - 1)" by simp
  from mix4_loop [of "n - 1" n rk rom_tables ek] assms rk obtain rk'
    where rk': "(mix4 rom_tables ek ^^ (n - 1)) (rk, 4, 4 * (n - 1)) = (rk', 4 * n, 0)"
      "length rk' = length rk" "round_key rk' 0 = round_key rk 0"
      "\<forall>r. 0 < r \<and> r \<le> n - 1 \<longrightarrow>
         round_key rk' r = map_regs (inv_mix_key rom_tables) (round_key ek (n - r))"
    by auto
  from copy4_at [of n rk' 0 ek] assms rk rk' obtain rk''
    where rk'': "copy4 (rk', 4 * n, 0) ek = (rk'', 4 * Suc n, 4)" "length rk'' = length rk'"
      "\<forall>p. round_key rk'' p = (if p = n then round_key ek 0 else round_key rk' p)"
    by auto
  have "inverse_schedule n rk'' ek"
    using rk rk' rk'' assms by (auto simp: inverse_schedule_def inv_mix_key_rom [abs_def])
  then show ?thesis
    using rk rk' rk'' s by auto
qed

lemma length_load_key [simp]: "length (load_key key n rk) = length rk"
  by (simp add: load_key_def)

lemma length_expand [simp]:
  "length (expand128 T i rk) = length rk" "length (expand192 T i rk) = length rk"
  "length (expand256 T i rk) = length rk"
  by (simp_all add: expand128_def expand192_def expand256_def Let_def)

lemma length_fold_step:
  "(\<And>i xs. length (f i xs) = length xs) \<Longrightarrow> length (fold f is rk) = length rk"
  by (induction "is" arbitrary: rk) auto

lemma length_expand_key [simp]: "length (expand_key T n rk) = length rk"
  by (simp add: expand_key_def length_fold_step)

section \<open>The static tables are right after the first key schedule\<close>

definition aes_state_ok :: "aes_state \<Rightarrow> bool" where
  "aes_state_ok st \<longleftrightarrow> tables st = (if aes_init_done st then rom_tables else static_tables)"

lemma aes_state_ok_init: "aes_state_ok aes_state_init"
  by (simp add: aes_state_ok_def aes_state_init_def)

lemma init_tables_ok:
  assumes "aes_state_ok st"
  shows "aes_state_ok (init_tables st)" "tables (init_tables st) = rom_tables"
    "aes_init_done (init_tables st)"
  using assms by (simp_all add: aes_state_ok_def init_tables_def gen_tables_rom)

text \<open>\<open>aes_pair e d\<close>: a context keyed for encryption and one keyed for decryption that undoes it.\<close>

definition aes_pair :: "aes_context \<Rightarrow> aes_context \<Rightarrow> bool" where
  "aes_pair ectx dctx \<longleftrightarrow> nr dctx = nr ectx \<and> even (nr ectx) \<and> 0 < nr ectx \<and>
     inverse_schedule (nr ectx) (buf dctx) (buf ectx)"

lemma rounds_of_keysize_bounds:
  "rounds_of_keysize ks = Some n \<Longrightarrow> even n \<and> 1 < n \<and> n \<le> 14"
  by (auto simp: rounds_of_keysize_def split: if_splits)

lemma setkey_enc_Some:
  assumes "rounds_of_keysize ks = Some n"
  shows "\<exists>ectx. aes_setkey_enc st ctx key ks = (init_tables st, ectx, 0) \<and>
    nr ectx = n \<and> length (buf ectx) = length (buf ctx)"
  using assms by (simp add: aes_setkey_enc_def Let_def)

text \<open>
  A schedule does not depend on what its buffer held: \<open>agree k\<close> says that two buffers hold the
  same first \<open>k\<close> words.
\<close>

definition agree :: "nat \<Rightarrow> u32 list \<Rightarrow> u32 list \<Rightarrow> bool" where
  "agree k xs ys \<longleftrightarrow> length xs = length ys \<and> (\<forall>i<k. xs ! i = ys ! i)"

lemma agree_upd:
  "k' = Suc k \<Longrightarrow> agree k xs ys \<Longrightarrow> k < length xs \<Longrightarrow> v = w \<Longrightarrow> agree k' (xs[k := v]) (ys[k := w])"
  by (auto simp: agree_def nth_list_update less_Suc_eq)

lemma agree_nth: "agree k xs ys \<Longrightarrow> i < k \<Longrightarrow> xs ! i = ys ! i"
  by (simp add: agree_def)

lemma agree_length: "agree k xs ys \<Longrightarrow> length xs = length ys"
  by (simp add: agree_def)

lemma agree_load_key:
  "length xs = length ys \<Longrightarrow> n \<le> length xs \<Longrightarrow> agree n (load_key key n xs) (load_key key n ys)"
proof (induction n)
  case 0
  then show ?case by (simp add: load_key_def agree_def)
next
  case (Suc n)
  then have IH: "agree n (load_key key n xs) (load_key key n ys)" by simp
  then show ?case
    using Suc.prems agree_upd [OF refl IH] length_load_key [of key n xs]
    by (simp add: load_key_def)
qed

lemma agree_expand128:
  assumes "i < 10" "agree (4 * i + 4) xs ys" "length xs = 68"
  shows "agree (4 * Suc i + 4) (expand128 T i xs) (expand128 T i ys)"
  using assms agree_nth [OF assms(2)] agree_length [OF assms(2)] unfolding expand128_def Let_def
  by (intro agree_upd) simp_all

lemma agree_expand192:
  assumes "i < 8" "agree (6 * i + 6) xs ys" "length xs = 68"
  shows "agree (6 * Suc i + 6) (expand192 T i xs) (expand192 T i ys)"
  using assms agree_nth [OF assms(2)] agree_length [OF assms(2)] unfolding expand192_def Let_def
  by (intro agree_upd) simp_all

lemma agree_expand256:
  assumes "i < 7" "agree (8 * i + 8) xs ys" "length xs = 68"
  shows "agree (8 * Suc i + 8) (expand256 T i xs) (expand256 T i ys)"
  using assms agree_nth [OF assms(2)] agree_length [OF assms(2)] unfolding expand256_def Let_def
  by (intro agree_upd) simp_all

lemma agree_loop:
  assumes "\<And>i xs ys. i < n \<Longrightarrow> agree (m * i + m) xs ys \<Longrightarrow> length xs = 68 \<Longrightarrow>
      agree (m * Suc i + m) (f i xs) (f i ys)"
    and "agree m xs ys" "length xs = 68" "\<And>i xs. length (f i xs) = length xs"
  shows "k \<le> n \<Longrightarrow> agree (m * k + m) (fold f [0..<k] xs) (fold f [0..<k] ys)"
proof (induction k)
  case 0
  then show ?case using assms(2) by simp
next
  case (Suc k)
  then show ?case using assms(1) [of k] assms(3) length_fold_step [of f, OF assms(4)] by simp
qed

lemma agree_schedule:
  assumes "rounds_of_keysize ks = Some n" "length xs = 68" "length ys = 68"
  shows "agree (4 * Suc n) (expand_key T n (load_key key (ks div 32) xs))
    (expand_key T n (load_key key (ks div 32) ys))"
proof -
  let ?x = "load_key key (ks div 32) xs" and ?y = "load_key key (ks div 32) ys"
  have l: "agree (ks div 32) ?x ?y"
    using assms by (intro agree_load_key) (auto simp: rounds_of_keysize_def split: if_splits)
  consider "ks = 128" "n = 10" | "ks = 192" "n = 12" | "ks = 256" "n = 14"
    using assms(1) by (auto simp: rounds_of_keysize_def split: if_splits)
  then show ?thesis
  proof cases
    case 1
    have "agree (4 * 10 + 4) (fold (expand128 T) [0..<10] ?x) (fold (expand128 T) [0..<10] ?y)"
      using l 1 assms by (intro agree_loop [where n = 10] agree_expand128) simp_all
    then show ?thesis using 1 by (simp add: expand_key_def del: upt_rec_numeral)
  next
    case 2
    have "agree (6 * 8 + 6) (fold (expand192 T) [0..<8] ?x) (fold (expand192 T) [0..<8] ?y)"
      using l 2 assms by (intro agree_loop [where n = 8] agree_expand192) simp_all
    then show ?thesis using 2 by (simp add: expand_key_def agree_def del: upt_rec_numeral)
  next
    case 3
    have "agree (8 * 7 + 8) (fold (expand256 T) [0..<7] ?x) (fold (expand256 T) [0..<7] ?y)"
      using l 3 assms by (intro agree_loop [where n = 7] agree_expand256) simp_all
    then show ?thesis using 3 by (simp add: expand_key_def agree_def del: upt_rec_numeral)
  qed
qed

lemma agree_round_key: "agree (4 * Suc n) xs ys \<Longrightarrow> r \<le> n \<Longrightarrow> round_key xs r = round_key ys r"
  by (simp add: round_key_def agree_def)

lemma inverse_schedule_agree:
  assumes "inverse_schedule n dk ek" "agree (4 * Suc n) ek ek'"
  shows "inverse_schedule n dk ek'"
  using assms agree_round_key [OF assms(2)] by (simp add: inverse_schedule_def)

text \<open>\<open>ctx\<close>, \<open>dctx\<close> and \<open>cty\<close> are the three contexts with whatever they held before.\<close>

lemma setkey_pair:
  assumes ks: "rounds_of_keysize ks = Some n" and st: "aes_state_ok st"
    and len: "length (buf ctx) = 68" "length (buf dctx) = 68" "length (buf cty) = 68"
    and enc: "aes_setkey_enc st ctx key ks = (st', ectx, r)"
  shows "\<exists>dctx'. aes_setkey_dec st' dctx cty key ks = (st', dctx', 0) \<and> aes_pair ectx dctx' \<and>
    r = 0 \<and> tables st' = rom_tables \<and> aes_state_ok st'"
proof -
  note n = rounds_of_keysize_bounds [OF ks]
  note ok = init_tables_ok [OF st]
  have twice: "init_tables (init_tables st) = init_tables st"
    using ok by (simp add: init_tables_def)
  define ek where "ek = expand_key rom_tables n (load_key key (ks div 32) (buf cty))"
  have st': "st' = init_tables st" "r = 0" and e: "nr ectx = n"
      "buf ectx = expand_key rom_tables n (load_key key (ks div 32) (buf ctx))"
      "aes_setkey_enc st' cty key ks = (st', \<lparr>nr = n, buf = ek\<rparr>, 0)"
    using enc ks twice ok by (auto simp: aes_setkey_enc_def Let_def ek_def)
  have ag: "agree (4 * Suc n) ek (buf ectx)"
    unfolding ek_def e by (rule agree_schedule [OF ks len(3,1)])
  from n len have "1 < n" "4 * n + 3 < length (buf (dctx\<lparr>nr := n\<rparr>))" by simp_all
  from dec_schedule [OF this, of ek] show ?thesis
    using n e st' ok ks inverse_schedule_agree [OF _ ag]
    by (auto simp: aes_setkey_dec_def aes_pair_def)
qed

lemma ecb_pair:
  "aes_pair ectx dctx \<Longrightarrow> length b = 16 \<Longrightarrow>
     aes_crypt_ecb rom_tables dctx AES_DECRYPT (aes_crypt_ecb rom_tables ectx AES_ENCRYPT b) = b"
  by (simp add: aes_pair_def ecb_inverse)

end
