(* ===== verification/Aes_Modes.thy ===== *)
theory Aes_Modes
  imports Aes_Core
begin

text \<open>
  The modes of operation of \<open>srl/aes.c\<close>: CBC, CFB128, CFB8 and CTR. The loops are written
  over an arbitrary block function, the C functions apply them to \<open>aes_crypt_ecb\<close>. What a mode
  needs of its cipher is stated by two locales: CFB and CTR only need a function on 16-byte
  blocks, CBC needs an inverse too. A pair \<open>(length, input)\<close> of the C signature is the list
  of the \<open>length\<close> bytes at \<open>input\<close>; the updated \<open>iv\<close> or counter is part of the result.
\<close>

section \<open>The loops\<close>

definition POLARSSL_ERR_AES_INVALID_INPUT_LENGTH :: int where
  "POLARSSL_ERR_AES_INVALID_INPUT_LENGTH = -0x22"

function cbc_decrypt_loop :: "(bytes \<Rightarrow> bytes) \<Rightarrow> bytes \<Rightarrow> bytes \<Rightarrow> bytes \<times> bytes" where
  "cbc_decrypt_loop D iv input =
     (if input = [] then (iv, [])
      else
        (let temp = take 16 input; out = xor_bytes (D (take 16 input)) iv;
             (iv, rest) = cbc_decrypt_loop D temp (drop 16 input)
         in (iv, out @ rest)))"
  by pat_completeness auto
termination
  by (relation "measure (\<lambda>(D, iv, input). length input)") auto

function cbc_encrypt_loop :: "(bytes \<Rightarrow> bytes) \<Rightarrow> bytes \<Rightarrow> bytes \<Rightarrow> bytes \<times> bytes" where
  "cbc_encrypt_loop E iv input =
     (if input = [] then (iv, [])
      else
        (let out = E (xor_bytes (take 16 input) iv);
             (iv, rest) = cbc_encrypt_loop E out (drop 16 input)
         in (iv, out @ rest)))"
  by pat_completeness auto
termination
  by (relation "measure (\<lambda>(E, iv, input). length input)") auto

declare cbc_decrypt_loop.simps [simp del] cbc_encrypt_loop.simps [simp del]

definition aes_crypt_cbc ::
  "aes_tables \<Rightarrow> aes_context \<Rightarrow> aes_mode \<Rightarrow> bytes \<Rightarrow> bytes \<Rightarrow> int + (bytes \<times> bytes)" where
  "aes_crypt_cbc T ctx mode iv input =
     (if length input mod 16 \<noteq> 0 then Inl POLARSSL_ERR_AES_INVALID_INPUT_LENGTH
      else if mode = AES_DECRYPT then Inr (cbc_decrypt_loop (aes_crypt_ecb T ctx mode) iv input)
      else Inr (cbc_encrypt_loop (aes_crypt_ecb T ctx mode) iv input))"

fun cfb128_loop ::
  "(bytes \<Rightarrow> bytes) \<Rightarrow> aes_mode \<Rightarrow> nat \<times> bytes \<Rightarrow> bytes \<Rightarrow> (nat \<times> bytes) \<times> bytes" where
  "cfb128_loop E mode (n, iv) [] = ((n, iv), [])"
| "cfb128_loop E mode (n, iv) (p # ps) =
     (let iv = (if n = 0 then E iv else iv);
          c = (if mode = AES_DECRYPT then p else iv ! n XOR p);
          out = (if mode = AES_DECRYPT then p XOR iv ! n else c);
          (s, rest) = cfb128_loop E mode ((n + 1) AND 0x0F, iv[n := c]) ps
      in (s, out # rest))"

definition aes_crypt_cfb128 ::
  "aes_tables \<Rightarrow> aes_context \<Rightarrow> aes_mode \<Rightarrow> nat \<times> bytes \<Rightarrow> bytes \<Rightarrow> (nat \<times> bytes) \<times> bytes" where
  "aes_crypt_cfb128 T ctx mode = cfb128_loop (aes_crypt_ecb T ctx AES_ENCRYPT) mode"

text \<open>
  \<open>ov\<close> has 17 bytes: the old \<open>iv\<close> and, in its last place, the ciphertext byte; \<open>iv\<close> becomes
  \<open>ov + 1\<close>.
\<close>

fun cfb8_loop :: "(bytes \<Rightarrow> bytes) \<Rightarrow> aes_mode \<Rightarrow> bytes \<Rightarrow> bytes \<Rightarrow> bytes \<times> bytes" where
  "cfb8_loop E mode iv [] = (iv, [])"
| "cfb8_loop E mode iv (p # ps) =
     (let ov = take 16 iv; iv = E iv; c = iv ! 0 XOR p;
          last = (case mode of AES_DECRYPT \<Rightarrow> p | AES_ENCRYPT \<Rightarrow> c);
          (iv, rest) = cfb8_loop E mode (drop 1 (ov @ [last])) ps
      in (iv, c # rest))"

definition aes_crypt_cfb8 ::
  "aes_tables \<Rightarrow> aes_context \<Rightarrow> aes_mode \<Rightarrow> bytes \<Rightarrow> bytes \<Rightarrow> bytes \<times> bytes" where
  "aes_crypt_cfb8 T ctx mode = cfb8_loop (aes_crypt_ecb T ctx AES_ENCRYPT) mode"

fun incr_counter :: "nat \<Rightarrow> bytes \<Rightarrow> bytes" where
  "incr_counter 0 nc = nc"
| "incr_counter (Suc i) nc =
     (let nc = nc[i := nc ! i + 1] in if nc ! i \<noteq> 0 then nc else incr_counter i nc)"

fun ctr_loop ::
  "(bytes \<Rightarrow> bytes) \<Rightarrow> nat \<times> bytes \<times> bytes \<Rightarrow> bytes \<Rightarrow> (nat \<times> bytes \<times> bytes) \<times> bytes" where
  "ctr_loop E (n, nc, sb) [] = ((n, nc, sb), [])"
| "ctr_loop E (n, nc, sb) (c # cs) =
     (let (nc, sb) = (if n = 0 then (incr_counter 16 nc, E nc) else (nc, sb));
          (s, rest) = ctr_loop E ((n + 1) AND 0x0F, nc, sb) cs
      in (s, (c XOR sb ! n) # rest))"

definition aes_crypt_ctr ::
  "aes_tables \<Rightarrow> aes_context \<Rightarrow> nat \<times> bytes \<times> bytes \<Rightarrow> bytes \<Rightarrow>
     (nat \<times> bytes \<times> bytes) \<times> bytes" where
  "aes_crypt_ctr T ctx = ctr_loop (aes_crypt_ecb T ctx AES_ENCRYPT)"

lemma xor_cancel_right: "(x XOR y) XOR y = (x :: 'a::len word)"
  by (simp add: xor.assoc)

lemma xor_cancel_mid: "y XOR x XOR y = (x :: 'a::len word)"
  by (metis xor.assoc xor.commute xor_cancel_right)

section \<open>What the modes need of a cipher\<close>

locale block_fun =
  fixes E :: "bytes \<Rightarrow> bytes"
  assumes length_E: "length b = 16 \<Longrightarrow> length (E b) = 16"
begin

lemma cfb8_roundtrip:
  assumes "length iv = 16" "cfb8_loop E AES_ENCRYPT iv ps = (iv', cs)"
  shows "cfb8_loop E AES_DECRYPT iv cs = (iv', ps)"
  using assms
  by (induction ps arbitrary: iv iv' cs) (auto simp: Let_def xor_cancel split: prod.splits)

lemma cfb8_length:
  "cfb8_loop E mode iv ps = (iv', cs) \<Longrightarrow> length iv = 16 \<Longrightarrow> length iv' = 16 \<and> length cs = length ps"
  by (induction ps arbitrary: iv iv' cs) (auto simp: Let_def split: prod.splits)

lemma cfb8_append:
  "cfb8_loop E mode iv (ps @ qs) =
     (let (iv1, cs) = cfb8_loop E mode iv ps; (iv2, ds) = cfb8_loop E mode iv1 qs
      in (iv2, cs @ ds))"
  by (induction ps arbitrary: iv) (auto simp: Let_def split: prod.splits)

lemma and_15_less: "n AND 15 < (16::nat)"
  using take_bit_nat_less_exp [of 4 n] by (simp add: take_bit_eq_mask mask_eq_exp_minus_1)

lemma cfb128_roundtrip:
  assumes "length iv = 16" "n < 16" "cfb128_loop E AES_ENCRYPT (n, iv) ps = (s, cs)"
  shows "cfb128_loop E AES_DECRYPT (n, iv) cs = (s, ps)"
  using assms
proof (induction ps arbitrary: n iv s cs)
  case Nil
  then show ?case by auto
next
  case (Cons p ps)
  let ?iv = "if n = 0 then E iv else iv"
  obtain s' rest where rest: "cfb128_loop E AES_ENCRYPT
      ((n + 1) AND 0x0F, ?iv[n := ?iv ! n XOR p]) ps = (s', rest)"
    by fastforce
  then have "cfb128_loop E AES_DECRYPT ((n + 1) AND 0x0F, ?iv[n := ?iv ! n XOR p]) rest = (s', ps)"
    using Cons.prems by (intro Cons.IH) (auto simp: length_E and_15_less)
  with rest Cons.prems show ?case
    by (auto simp: Let_def xor_cancel_mid xor_cancel_right)
      (metis xor_cancel_mid xor.commute)+
qed

lemma cfb128_append:
  "cfb128_loop E mode s (ps @ qs) =
     (let (s1, cs) = cfb128_loop E mode s ps; (s2, ds) = cfb128_loop E mode s1 qs
      in (s2, cs @ ds))"
  by (induction E mode s ps rule: cfb128_loop.induct) (auto simp: Let_def split: prod.splits)

lemma cbc_length:
  assumes "length iv = 16" "length ps mod 16 = 0" "cbc_encrypt_loop E iv ps = (iv', cs)"
  shows "length cs = length ps \<and> length iv' = 16"
  using assms
proof (induction ps arbitrary: iv cs rule: length_induct)
  case (1 ps)
  note enc = cbc_encrypt_loop.simps [of E iv ps]
  show ?case
  proof (cases "ps = []")
    case True
    with "1.prems" enc show ?thesis by simp
  next
    case False
    then have len: "16 \<le> length ps" "length (drop 16 ps) mod 16 = 0"
      using "1.prems"(2) by (auto simp: mod_eq_0_iff_dvd dvd_diff_nat dest: dvd_imp_le)
    let ?out = "E (xor_bytes (take 16 ps) iv)"
    obtain iv1 rest where rest: "cbc_encrypt_loop E ?out (drop 16 ps) = (iv1, rest)"
      by fastforce
    have out: "length ?out = 16" using len "1.prems"(1) by (simp add: length_E)
    have cs: "cs = ?out @ rest" "iv' = iv1"
      using "1.prems"(3) False rest enc by auto
    have "length (drop 16 ps) < length ps" using len by simp
    from "1.IH" [rule_format, OF this out len(2)] rest cs
    have "length rest = length (drop 16 ps) \<and> length iv1 = 16" by simp
    then show ?thesis using out cs len by simp
  qed
qed

lemma cfb128_length:
  "cfb128_loop E mode (n, iv) ps = ((n', iv'), cs) \<Longrightarrow> length iv = 16 \<Longrightarrow> n < 16 \<Longrightarrow>
     n' = (n + length ps) mod 16 \<and> length iv' = 16 \<and> length cs = length ps"
proof (induction ps arbitrary: n iv n' iv' cs)
  case Nil
  then show ?case by simp
next
  case (Cons p ps)
  let ?iv = "if n = 0 then E iv else iv"
  let ?c = "if mode = AES_DECRYPT then p else ?iv ! n XOR p"
  obtain s rest where rest: "cfb128_loop E mode ((n + 1) AND 0x0F, ?iv[n := ?c]) ps = (s, rest)"
    by fastforce
  obtain m jv where s: "s = (m, jv)" by (cases s)
  have "m = (((n + 1) AND 0x0F) + length ps) mod 16 \<and> length jv = 16 \<and> length rest = length ps"
    using Cons.IH [OF rest [unfolded s]] Cons.prems by (simp add: length_E and_15_less)
  moreover have "(n + 1) AND 0x0F = (n + 1) mod (16 :: nat)"
    using take_bit_eq_mask [of 4 "n + 1"] by (simp add: take_bit_eq_mod mask_eq_exp_minus_1)
  ultimately show ?case
    using Cons.prems rest s by (auto simp: Let_def mod_simps)
qed

lemma ctr_roundtrip:
  "ctr_loop E s ps = (s', cs) \<Longrightarrow> ctr_loop E s cs = (s', ps)"
proof (induction ps arbitrary: s s' cs)
  case Nil
  then show ?case by (cases s) auto
next
  case (Cons p ps)
  obtain n nc sb where s: "s = (n, nc, sb)" by (cases s)
  obtain nc1 sb1 where k: "(if n = 0 then (incr_counter 16 nc, E nc) else (nc, sb)) = (nc1, sb1)"
    by fastforce
  obtain s1 rest where rest: "ctr_loop E ((n + 1) AND 0x0F, nc1, sb1) ps = (s1, rest)"
    by fastforce
  show ?case
    using Cons.IH [OF rest] Cons.prems rest k by (auto simp: s xor_cancel_right)
qed

lemma ctr_append:
  "ctr_loop E s (ps @ qs) =
     (let (s1, cs) = ctr_loop E s ps; (s2, ds) = ctr_loop E s1 qs in (s2, cs @ ds))"
proof (induction ps arbitrary: s)
  case Nil
  then show ?case by (cases s) (auto split: prod.splits)
next
  case (Cons p ps)
  then show ?case by (cases s) (auto split: prod.splits)
qed

end

locale block_cipher = block_fun +
  fixes D :: "bytes \<Rightarrow> bytes"
  assumes length_D: "length b = 16 \<Longrightarrow> length (D b) = 16"
    and D_E: "length b = 16 \<Longrightarrow> D (E b) = b"
begin

lemma cbc_roundtrip:
  assumes "length iv = 16" "length ps mod 16 = 0" "cbc_encrypt_loop E iv ps = (iv', cs)"
  shows "cbc_decrypt_loop D iv cs = (iv', ps)"
  using assms
proof (induction ps arbitrary: iv cs rule: length_induct)
  case (1 ps)
  note enc = cbc_encrypt_loop.simps [of E iv ps] and dec = cbc_decrypt_loop.simps [of D iv cs]
  show ?case
  proof (cases "ps = []")
    case True
    with "1.prems" enc dec show ?thesis by simp
  next
    case False
    then have len: "16 \<le> length ps" "length (drop 16 ps) mod 16 = 0"
      using "1.prems"(2) by (auto simp: mod_eq_0_iff_dvd dvd_diff_nat dest: dvd_imp_le)
    let ?out = "E (xor_bytes (take 16 ps) iv)"
    obtain iv1 rest where rest: "cbc_encrypt_loop E ?out (drop 16 ps) = (iv1, rest)"
      by fastforce
    have out: "length ?out = 16" "xor_bytes (D ?out) iv = take 16 ps"
      using len "1.prems"(1) by (simp_all add: length_E D_E xor_bytes_cancel)
    have cs: "cs = ?out @ rest" "iv' = iv1"
      using "1.prems"(3) False rest enc by auto
    have "cbc_decrypt_loop D ?out rest = (iv1, drop 16 ps)"
      using "1.IH" len out rest False cs by auto
    then show ?thesis
      using dec out cs by auto
  qed
qed

end

text \<open>A keyed pair of contexts is a block cipher.\<close>

locale keyed_aes =
  fixes ectx dctx :: aes_context
  assumes pair: "aes_pair ectx dctx"

sublocale keyed_aes \<subseteq> block_cipher
  "aes_crypt_ecb rom_tables ectx AES_ENCRYPT" "aes_crypt_ecb rom_tables dctx AES_DECRYPT"
  by unfold_locales (simp_all add: ecb_pair [OF pair])

context keyed_aes
begin

lemma cbc_pair:
  "length iv = 16 \<Longrightarrow> length ps mod 16 = 0 \<Longrightarrow>
     cbc_encrypt_loop (aes_crypt_ecb rom_tables ectx AES_ENCRYPT) iv ps = (iv', cs) \<Longrightarrow>
     cbc_decrypt_loop (aes_crypt_ecb rom_tables dctx AES_DECRYPT) iv cs = (iv', ps)"
  by (rule cbc_roundtrip)

end

text \<open>Every context gives a block function, keyed or not.\<close>

interpretation ecb: block_fun "aes_crypt_ecb T ctx mode" for T ctx mode
  by unfold_locales simp

text \<open>The contexts the two key schedules build from a fresh state and zeroed buffers.\<close>

definition zero_ctx :: aes_context where
  "zero_ctx = \<lparr>nr = 0, buf = replicate 68 0\<rparr>"

definition keyed_enc :: "bytes \<Rightarrow> aes_context" where
  "keyed_enc key = fst (snd (aes_setkey_enc aes_state_init zero_ctx key 128))"

definition keyed_dec :: "bytes \<Rightarrow> aes_context" where
  "keyed_dec key = fst (snd (aes_setkey_dec
     (fst (aes_setkey_enc aes_state_init zero_ctx key 128)) zero_ctx zero_ctx key 128))"

lemma keyed_pair: "aes_pair (keyed_enc key) (keyed_dec key)"
proof -
  obtain st ectx r where e: "aes_setkey_enc aes_state_init zero_ctx key 128 = (st, ectx, r)"
    by (cases "aes_setkey_enc aes_state_init zero_ctx key 128")
  from setkey_pair [OF _ aes_state_ok_init _ _ _ e, of 10 zero_ctx zero_ctx] show ?thesis
    using e by (auto simp: keyed_enc_def keyed_dec_def rounds_of_keysize_def zero_ctx_def)
qed

interpretation aes128: keyed_aes "keyed_enc key" "keyed_dec key" for key
  by unfold_locales (rule keyed_pair)

section \<open>The counter is a big-endian number\<close>

definition be_value :: "bytes \<Rightarrow> nat" where
  "be_value bs = foldl (\<lambda>a b. 256 * a + unat b) 0 bs"

lemma be_value_snoc: "be_value (bs @ [b]) = 256 * be_value bs + unat b"
  by (simp add: be_value_def)

lemma be_value_bound: "be_value bs < 256 ^ length bs"
proof (induction bs rule: rev_induct)
  case Nil
  then show ?case by (simp add: be_value_def)
next
  case (snoc b bs)
  have "256 * (be_value bs + 1) \<le> 256 * 256 ^ length bs"
    by (rule mult_le_mono2) (use snoc in simp)
  moreover have "unat b < 256" by simp
  ultimately have "256 * be_value bs + unat b < 256 * 256 ^ length bs"
    by (simp only: distrib_left mult_1_right)
  then show ?case by (simp add: be_value_snoc)
qed

lemma incr_counter_append:
  "i \<le> length xs \<Longrightarrow> incr_counter i (xs @ ys) = incr_counter i xs @ ys"
  by (induction i arbitrary: xs) (auto simp: Let_def list_update_append nth_append)

lemma length_incr_counter [simp]: "length (incr_counter i nc) = length nc"
  by (induction i nc rule: incr_counter.induct) (auto simp: Let_def)

lemma incr_counter_value:
  "be_value (incr_counter (length nc) nc) = (be_value nc + 1) mod 256 ^ length nc"
proof (induction nc rule: rev_induct)
  case Nil
  then show ?case by (simp add: be_value_def)
next
  case (snoc b bs)
  show ?case
  proof (cases "b + 1 = 0")
    case False
    then have "unat (b + 1) = unat b + 1"
      using unatSuc [of b] by (simp add: add.commute)
    moreover have "256 * be_value bs + unat b + 1 < 256 * 256 ^ length bs"
    proof -
      have "be_value bs + 1 \<le> 256 ^ length bs" using be_value_bound [of bs] by simp
      then have "256 * (be_value bs + 1) \<le> 256 * 256 ^ length bs" by (rule mult_le_mono2)
      moreover have "unat b + 1 < 256"
        using \<open>unat (b + 1) = unat b + 1\<close> unat_u8_less [of "b + 1"] by simp
      ultimately show ?thesis by simp
    qed
    ultimately show ?thesis
      using False by (simp add: be_value_snoc Let_def nth_append list_update_append)
  next
    case True
    then have "b = - 1" by (simp add: add_eq_0_iff2)
    then have b: "unat b + 1 = 256" by (simp add: unsigned_minus_1_eq_mask mask_eq_exp_minus_1)
    have "be_value (incr_counter (length (bs @ [b])) (bs @ [b])) =
        256 * ((be_value bs + 1) mod 256 ^ length bs)"
      using True snoc.IH
      by (simp add: Let_def nth_append list_update_append incr_counter_append be_value_snoc)
    also have "\<dots> = (256 * be_value bs + (unat b + 1)) mod (256 * 256 ^ length bs)"
      unfolding b by (simp add: mult_mod_right distrib_left add.commute)
    finally show ?thesis by (simp add: be_value_snoc)
  qed
qed

end
