(* ===== verification/EncDec.thy ===== *)
theory EncDec
  imports Aes_Modes
begin

text \<open>
  \<open>srl/EncDec.c\<close>: the credentials on a card are enciphered with AES-128 in CFB8 mode, one
  64-byte block for the username and one for the password. The key and the initialisation
  vector come from \<open>crypt.h\<close>, which is not in the repository: they are parameters. The
  \<open>aes_context\<close> is a local variable whose first contents are arbitrary, a parameter as well.
  An output buffer is a parameter whose first \<open>len\<close> bytes are overwritten.
\<close>

section \<open>The code\<close>

definition KEY_LENGHT :: nat where
  "KEY_LENGHT = 128"

definition IV_LENGHT :: nat where
  "IV_LENGHT = 16"

definition MAX_BLOCK_SIZE :: nat where
  "MAX_BLOCK_SIZE = 64"

record crypt_h =
  static_key :: bytes
  random_iv :: bytes

definition crypt_cfb ::
  "aes_mode \<Rightarrow> crypt_h \<Rightarrow> aes_context \<Rightarrow> aes_state \<Rightarrow> nat \<Rightarrow> bytes \<Rightarrow> bytes \<Rightarrow>
     aes_state \<times> bytes \<times> bool" where
  "crypt_cfb mode cr ctx st len inp out =
     (let iv = take IV_LENGHT (random_iv cr);
          (st, ctx, ret) = aes_setkey_enc st ctx (static_key cr) KEY_LENGHT
      in if ret \<noteq> 0 then (st, out, False)
         else
           (let (iv, cs) = aes_crypt_cfb8 (tables st) ctx mode iv (take len inp)
            in (st, cs @ drop len out, True)))"

definition enc_cfb where "enc_cfb = crypt_cfb AES_ENCRYPT"

definition dec_cfb where "dec_cfb = crypt_cfb AES_DECRYPT"

definition encrypt_data ::
  "crypt_h \<Rightarrow> aes_context \<Rightarrow> aes_state \<Rightarrow> bytes \<Rightarrow> bytes \<Rightarrow> bytes \<Rightarrow> bytes \<Rightarrow>
     aes_state \<times> bytes \<times> bytes \<times> bool" where
  "encrypt_data cr ctx st username password enc_username enc_password =
     (let (st, enc_username, ok) = enc_cfb cr ctx st MAX_BLOCK_SIZE username enc_username
      in if \<not> ok then (st, enc_username, enc_password, False)
         else
           (let (st, enc_password, ok) = enc_cfb cr ctx st MAX_BLOCK_SIZE password enc_password
            in (st, enc_username, enc_password, ok)))"

definition decrypt_data ::
  "crypt_h \<Rightarrow> aes_context \<Rightarrow> aes_state \<Rightarrow> bytes \<Rightarrow> bytes \<Rightarrow> bytes \<Rightarrow> bytes \<Rightarrow>
     aes_state \<times> bytes \<times> bytes \<times> bool" where
  "decrypt_data cr ctx st enc_username enc_password username password =
     (let (st, username, ok) = dec_cfb cr ctx st MAX_BLOCK_SIZE enc_username username
      in if \<not> ok then (st, username, password, False)
         else
           (let (st, password, ok) = dec_cfb cr ctx st MAX_BLOCK_SIZE enc_password password
            in (st, username, password, ok)))"

section \<open>Deciphering undoes enciphering\<close>

text \<open>The key schedule of a 16-byte key, whatever the context held before.\<close>

definition card_ctx :: "crypt_h \<Rightarrow> aes_context \<Rightarrow> aes_context" where
  "card_ctx cr ctx =
     \<lparr>nr = 10, buf = expand_key rom_tables 10 (load_key (static_key cr) 4 (buf ctx))\<rparr>"

lemma crypt_cfb_ok:
  assumes "aes_state_ok st"
  shows "crypt_cfb mode cr ctx st len inp out =
     (init_tables st,
      snd (aes_crypt_cfb8 rom_tables (card_ctx cr ctx) mode (take 16 (random_iv cr)) (take len inp))
        @ drop len out, True)"
  using init_tables_ok [OF assms]
  by (simp add: crypt_cfb_def aes_setkey_enc_def rounds_of_keysize_def KEY_LENGHT_def
      IV_LENGHT_def card_ctx_def Let_def split_def)

lemma init_tables_idem [simp]: "init_tables (init_tables st) = init_tables st"
  by (simp add: init_tables_def)

lemma cfb8_lengths:
  "length iv = 16 \<Longrightarrow> length (snd (aes_crypt_cfb8 T ctx mode iv ps)) = length ps"
  using ecb.cfb8_length by (metis aes_crypt_cfb8_def prod.collapse)

text \<open>Each output keeps its size, whether the key could be set or not.\<close>

lemma crypt_cfb_length:
  assumes "crypt_cfb mode cr ctx st n inp out = (st', out', ok)" "16 \<le> length (random_iv cr)" "length inp = n" "length out = n"
  shows "length out' = n"
proof -
  obtain st1 ctx1 r where k: "aes_setkey_enc st ctx (static_key cr) KEY_LENGHT = (st1, ctx1, r)" by (metis prod.exhaust)
  obtain iv cs where c: "aes_crypt_cfb8 (tables st1) ctx1 mode (take IV_LENGHT (random_iv cr)) inp = (iv, cs)" by fastforce
  then have "length cs = n" using cfb8_lengths [of "take IV_LENGHT (random_iv cr)"] assms(2,3) by (metis IV_LENGHT_def length_take min.absorb2 snd_conv)
  moreover have "out' = (if r \<noteq> 0 then out else cs @ drop n out)"
    using assms(1,3) k c by (simp add: crypt_cfb_def split: if_splits)
  ultimately show ?thesis using assms(4) by simp
qed

lemma decrypt_lengths:
  assumes "decrypt_data cr ctx st eu ep u p = (st', u', p', ok)" "16 \<le> length (random_iv cr)"
    and "length eu = 64" "length ep = 64" "length u = 64" "length p = 64"
  shows "length u' = 64" "length p' = 64"
proof -
  obtain s1 v1 k1 where 1: "dec_cfb cr ctx st 64 eu u = (s1, v1, k1)" by (metis prod.exhaust)
  obtain s2 v2 k2 where 2: "dec_cfb cr ctx s1 64 ep p = (s2, v2, k2)" by (metis prod.exhaust)
  have "length v1 = 64" "length v2 = 64"
    using crypt_cfb_length [OF 1 [unfolded dec_cfb_def]] crypt_cfb_length [OF 2 [unfolded dec_cfb_def]] assms(2-6) by simp_all
  then show "length u' = 64" "length p' = 64"
    using assms(1,6) 1 2 by (auto simp: decrypt_data_def MAX_BLOCK_SIZE_def split: if_splits)
qed

lemma cfb8_inverse:
  assumes "length iv = 16"
  shows "snd (aes_crypt_cfb8 T ctx AES_DECRYPT iv (snd (aes_crypt_cfb8 T ctx AES_ENCRYPT iv ps))) = ps"
  using ecb.cfb8_roundtrip [OF assms] by (metis aes_crypt_cfb8_def prod.collapse snd_conv)

lemma dec_enc_cfb:
  assumes "aes_state_ok st" "aes_state_ok st'" "length (random_iv cr) = 16" "length inp = len"
    and "enc_cfb cr ctx st len inp out = (st1, enc, ok)"
  shows "ok \<and> st1 = init_tables st \<and> length enc = max len (length out) \<and>
    dec_cfb cr ctx st' len enc out' = (init_tables st', inp @ drop len out', True)"
  using assms(3-5)
  by (auto simp: enc_cfb_def dec_cfb_def crypt_cfb_ok [OF assms(1)] crypt_cfb_ok [OF assms(2)]
      cfb8_lengths cfb8_inverse)

section \<open>What the local context held\<close>

text \<open>The round keys do not depend on the memory the context is in, so neither does the cipher.\<close>

lemma run_rounds_agree:
  "agree (4 * Suc n) rk rk' \<Longrightarrow> k < n \<Longrightarrow> run_rounds (AES_FROUND T rk) k x = run_rounds (AES_FROUND T rk') k x"
  by (induction k) (simp_all add: AES_FROUND_def agree_def)

lemma ecb_agree:
  assumes "agree (4 * Suc n) (buf ctx) (buf ctx')" "nr ctx = n" "nr ctx' = n" "even n" "0 < n"
  shows "aes_crypt_ecb T ctx AES_ENCRYPT = aes_crypt_ecb T ctx' AES_ENCRYPT"
proof
  fix b
  have "load_block (buf ctx) b = load_block (buf ctx') b"
    "final_enc T (buf ctx) (4 * n) = final_enc T (buf ctx') (4 * n)"
    using assms(1) by (simp_all add: load_block_def final_enc_def agree_def)
  then show "aes_crypt_ecb T ctx AES_ENCRYPT b = aes_crypt_ecb T ctx' AES_ENCRYPT b"
    using assms(2-5) run_rounds_agree [OF assms(1), of "n - 1"] by (simp add: aes_crypt_ecb_run)
qed

lemma crypt_cfb_context:
  assumes "aes_state_ok st" "length (buf ctx) = 68" "length (buf ctx') = 68"
  shows "crypt_cfb mode cr ctx st = crypt_cfb mode cr ctx' st"
proof -
  have "rounds_of_keysize 128 = Some 10" by (simp add: rounds_of_keysize_def)
  from agree_schedule [OF this assms(2,3), of rom_tables "static_key cr"]
  have "agree (4 * Suc 10) (buf (card_ctx cr ctx)) (buf (card_ctx cr ctx'))" by (simp add: card_ctx_def)
  then have "aes_crypt_ecb rom_tables (card_ctx cr ctx) AES_ENCRYPT = aes_crypt_ecb rom_tables (card_ctx cr ctx') AES_ENCRYPT"
    by (rule ecb_agree) (simp_all add: card_ctx_def)
  then show ?thesis
    by (intro ext) (simp add: crypt_cfb_ok [OF assms(1)] aes_crypt_cfb8_def)
qed

lemma decrypt_context:
  assumes "aes_state_ok st" "length (buf ctx) = 68" "length (buf ctx') = 68"
  shows "decrypt_data cr ctx st = decrypt_data cr ctx' st"
proof -
  have eq: "dec_cfb cr ctx st = dec_cfb cr ctx' st" "dec_cfb cr ctx (init_tables st) = dec_cfb cr ctx' (init_tables st)"
    unfolding dec_cfb_def
    by (rule crypt_cfb_context [OF assms], rule crypt_cfb_context [OF init_tables_ok(1) [OF assms(1)] assms(2,3)])
  show ?thesis
  proof (intro ext)
    fix eu ep u p
    obtain s1 u1 k1 where "dec_cfb cr ctx' st MAX_BLOCK_SIZE eu u = (s1, u1, k1)" by (metis prod.exhaust)
    moreover have "s1 = init_tables st"
      using calculation by (simp add: dec_cfb_def crypt_cfb_ok [OF assms(1)])
    ultimately show "decrypt_data cr ctx st eu ep u p = decrypt_data cr ctx' st eu ep u p"
      by (simp add: decrypt_data_def eq)
  qed
qed

text \<open>Deciphering both blocks of a card gives back what was enciphered.\<close>

lemma decrypt_encrypt:
  assumes "aes_state_ok st" "aes_state_ok st'" "length (random_iv cr) = 16"
    and "length user = 64" "length pass = 64"
    and "length eu = 64" "length ep = 64" "length du = 64" "length dp = 64"
    and "encrypt_data cr ctx st user pass eu ep = (st1, eu1, ep1, ok)"
  shows "ok \<and> length eu1 = 64 \<and> length ep1 = 64 \<and>
    decrypt_data cr ctx st' eu1 ep1 du dp = (init_tables st', user, pass, True)"
proof -
  have st2: "aes_state_ok (init_tables s)" if "aes_state_ok s" for s by (rule init_tables_ok(1) [OF that])
  obtain s2 u2 k2 where u: "enc_cfb cr ctx st 64 user eu = (s2, u2, k2)" by (cases "enc_cfb cr ctx st 64 user eu")
  note 1 = dec_enc_cfb [OF assms(1,2,3,4) u, of du]
  obtain s3 p3 k3 where p: "enc_cfb cr ctx s2 64 pass ep = (s3, p3, k3)" by (cases "enc_cfb cr ctx s2 64 pass ep")
  have "aes_state_ok s2" using 1 st2 [OF assms(1)] by simp
  note 2 = dec_enc_cfb [OF this st2 [OF assms(2)] assms(3,5) p, of dp]
  show ?thesis
    using 1 2 u p assms by (auto simp: encrypt_data_def decrypt_data_def MAX_BLOCK_SIZE_def)
qed

end
