(* ===== verification/Aes_Gf.thy ===== *)
theory Aes_Gf
  imports Aes_Core
begin

text \<open>
  The field of 256 elements in which FIPS 197 defines the substitution of the cipher: products, inverses and the
  affine map as the standard has them, and the proof that the table \<open>FSb\<close> of \<open>srl/aes.c\<close> holds them.
\<close>

section \<open>The field\<close>

text \<open>\<open>xt\<close> is the product with x modulo x^8 + x^4 + x^3 + x + 1; a product adds the multiples for the bits of a factor.\<close>

primrec gf_sum :: "u8 \<Rightarrow> u8 \<Rightarrow> nat \<Rightarrow> u8" where
  "gf_sum a b 0 = 0"
| "gf_sum a b (Suc n) = gf_sum a b n XOR (if bit b n then (xt ^^ n) a else 0)"

definition gf_mul :: "u8 \<Rightarrow> u8 \<Rightarrow> u8" where
  "gf_mul a b = gf_sum a b 8"

text \<open>The inverse is the 254th power; 0 goes to 0.\<close>

definition gf_inv :: "u8 \<Rightarrow> u8" where
  "gf_inv x =
     (let x2 = gf_mul x x; x4 = gf_mul x2 x2; x8 = gf_mul x4 x4; x16 = gf_mul x8 x8; x32 = gf_mul x16 x16;
          x64 = gf_mul x32 x32; x128 = gf_mul x64 x64
      in gf_mul x2 (gf_mul x4 (gf_mul x8 (gf_mul x16 (gf_mul x32 (gf_mul x64 x128))))))"

definition rotl8 :: "nat \<Rightarrow> u8 \<Rightarrow> u8" where
  "rotl8 n b = push_bit n b OR drop_bit (8 - n) b"

definition affine :: "u8 \<Rightarrow> u8" where
  "affine b = b XOR rotl8 1 b XOR rotl8 2 b XOR rotl8 3 b XOR rotl8 4 b XOR 0x63"

definition fips_sbox :: "u8 \<Rightarrow> u8" where
  "fips_sbox x = affine (gf_inv x)"

section \<open>Powers of 3\<close>

text \<open>3 generates the field without 0; \<open>aes_gen_tables\<close> walks through its powers.\<close>

lemma xt_0 [simp]: "xt 0 = 0"
  by (simp add: xt_def)

definition gf_pow3 :: "nat \<Rightarrow> u8" where
  "gf_pow3 i = ((\<lambda>b. b XOR xt b) ^^ i) 1"

lemma gf_pow3_simps [simp]: "gf_pow3 0 = 1" "gf_pow3 (Suc i) = gf_pow3 i XOR xt (gf_pow3 i)"
  by (simp_all add: gf_pow3_def)

text \<open>A check of a list takes its elements one by one, and not the statement for one that is not known.\<close>

lemma list_all_weak: "xs = ys \<Longrightarrow> list_all P xs = list_all P ys"
  by simp

lemma pow_table_next:
  "list_all (\<lambda>(x, y). (word_of_int y :: u8) = word_of_int x XOR xt (word_of_int x)) (zip pow_table (tl pow_table))"
  by (simp add: pow_table_def xt_def cong: list_all_weak)

lemma gf_pow3_table: "n < 256 \<Longrightarrow> gf_pow3 n = word_of_int (pow_table ! n)"
proof (induction n)
  case 0
  then show ?case by (simp add: pow_table_def)
next
  case (Suc n)
  have "zip pow_table (tl pow_table) ! n = (pow_table ! n, pow_table ! Suc n)" "n < length (zip pow_table (tl pow_table))"
    using Suc.prems by (simp_all add: nth_tl)
  then have "(word_of_int (pow_table ! Suc n) :: u8) = word_of_int (pow_table ! n) XOR xt (word_of_int (pow_table ! n))"
    using pow_table_next unfolding list_all_length by fastforce
  then show ?case using Suc by simp
qed

lemma gf_pow3_255: "gf_pow3 255 = 1"
  by (simp add: gf_pow3_table pow_table_def)

lemma gf_pow3_log:
  assumes "x \<noteq> 0"
  shows "gf_pow3 (nat (log_table ! unat x)) = x" "1 \<le> log_table ! unat x" "log_table ! unat x < 256"
proof -
  have "unat x \<in> set [1..<256]" using assms unat_u8_less [of x] by (simp add: Suc_le_eq unat_gt_0)
  then have l: "pow_table ! nat (log_table ! unat x) = int (unat x)" "1 \<le> log_table ! unat x" "log_table ! unat x < 256"
    using pow_log_nth unfolding list_all_iff by auto
  then show "1 \<le> log_table ! unat x" "log_table ! unat x < 256" by simp_all
  show "gf_pow3 (nat (log_table ! unat x)) = x" using l gf_pow3_table [of "nat (log_table ! unat x)"] by simp
qed

lemma xt_8: "xt (xt (xt (xt (xt (xt (xt (xt a))))))) = a XOR xt a XOR xt (xt (xt a)) XOR xt (xt (xt (xt a)))"
proof -
  have "xt (xt (xt (xt (xt (xt (xt (xt (gf_pow3 n)))))))) =
      gf_pow3 n XOR xt (gf_pow3 n) XOR xt (xt (xt (gf_pow3 n))) XOR xt (xt (xt (xt (gf_pow3 n))))" for n
  proof (induction n)
    case 0
    show ?case by (simp add: xt_def)
  next
    case (Suc n)
    then show ?case by (simp add: xt_xor xor_ac)
  qed
  from this [of "nat (log_table ! unat a)"] show ?thesis by (cases "a = 0") (simp_all add: gf_pow3_log)
qed

section \<open>Products\<close>

lemma xt_pow_xor: "(xt ^^ i) (a XOR b) = (xt ^^ i) a XOR (xt ^^ i) b"
  by (induction i) (simp_all add: xt_xor)

lemma gf_mul_1 [simp]: "gf_mul a 1 = a" and gf_mul_2: "gf_mul a 2 = xt a" and gf_mul_3: "gf_mul a 3 = a XOR xt a"
  and gf_mul_27: "gf_mul a 0x1B = a XOR xt a XOR xt (xt (xt a)) XOR xt (xt (xt (xt a)))"
  by (simp_all add: gf_mul_def numeral_eq_Suc xor.assoc)

lemma gf_mul_0 [simp]: "gf_mul a 0 = 0"
  by (simp add: gf_mul_def numeral_eq_Suc)

lemma gf_mul_xor: "gf_mul a (b XOR c) = gf_mul a b XOR gf_mul a c"
proof -
  have "gf_sum a (b XOR c) n = gf_sum a b n XOR gf_sum a c n" for n
    by (induction n) (auto simp: bit_xor_iff xor_ac)
  then show ?thesis by (simp add: gf_mul_def)
qed

lemma gf_mul_xt: "gf_mul a (xt b) = xt (gf_mul a b)"
proof -
  define p where "p = push_bit 1 b"
  have bit: "bit p 0 = False" "n < 7 \<Longrightarrow> bit p (Suc n) = bit b n" for n
    unfolding p_def using bit_push_bit_iff [of 1 b 0] bit_push_bit_iff [of 1 b "Suc n"] by simp_all
  have push: "n < 8 \<Longrightarrow> gf_sum a p (Suc n) = xt (gf_sum a b n)" for n
    by (induction n) (simp_all add: bit xt_xor)
  have "gf_mul a p = xt (gf_sum a b 7)"
    using push [of 7] by (simp add: gf_mul_def numeral_eq_Suc)
  moreover have "gf_mul a b = gf_sum a b 7 XOR (if bit b 7 then (xt ^^ 7) a else 0)"
    by (simp add: gf_mul_def numeral_eq_Suc)
  moreover have "xt ((xt ^^ 7) a) = gf_mul a 0x1B"
    unfolding gf_mul_27 xt_8 [symmetric] by (simp add: numeral_eq_Suc)
  moreover have "xt b = p XOR (if bit b 7 then 0x1B else 0)" by (simp only: xt_def p_def)
  ultimately show ?thesis by (simp add: gf_mul_xor xt_xor)
qed

lemma gf_pow3_mul: "gf_mul (gf_pow3 i) (gf_pow3 j) = gf_pow3 (i + j)"
  by (induction j) (simp_all add: gf_mul_xor gf_mul_xt)

lemma gf_pow3_mod: "gf_pow3 (255 * k + i) = gf_pow3 i"
proof (induction k)
  case (Suc k)
  have "gf_pow3 (255 * Suc k + i) = gf_mul (gf_pow3 (255 * k + i)) (gf_pow3 255)"
    by (simp only: gf_pow3_mul mult_Suc_right add.commute add.left_commute add.assoc)
  then show ?case using Suc by (simp only: gf_pow3_255 gf_mul_1)
qed simp

lemma gf_inv_pow3: "gf_inv (gf_pow3 i) = gf_pow3 (254 * i)"
proof -
  have square: "gf_mul (gf_pow3 i) (gf_pow3 i) = gf_pow3 (2 * i)" by (simp add: gf_pow3_mul mult_2)
  have d: "gf_mul (gf_pow3 (numeral k * i)) (gf_pow3 (numeral m * i)) = gf_pow3 (numeral (k + m) * i)" for k m
    unfolding gf_pow3_mul by (simp only: add_mult_distrib [symmetric] numeral_plus_numeral)
  show ?thesis by (simp only: gf_inv_def Let_def square d add_num_simps)
qed

lemma affine_table:
  "list_all (\<lambda>i. FSb_rom ! i = affine (word_of_int (pow_table ! nat (255 - log_table ! i)))) [1..<256]"
  by (simp add: upt_1_256 FSb_nth pow_nth log_nth affine_def rotl8_def)

section \<open>The table of the code\<close>

lemma gf_inv_0: "gf_inv 0 = 0"
  by (simp add: gf_inv_def Let_def)

text \<open>\<open>sub_byte\<close>, an entry of \<open>FSb\<close>, is the substitution of the standard.\<close>

lemma sub_byte_fips: "sub_byte x = fips_sbox x"
proof (cases "x = 0")
  case True
  then show ?thesis by (simp add: sub_byte_def fips_sbox_def gf_inv_0 affine_def rotl8_def FSb_rom_def)
next
  case False
  define l where "l = nat (log_table ! unat x)"
  have l: "gf_pow3 l = x" "1 \<le> l" "l \<le> 255" "nat (255 - log_table ! unat x) = 255 - l"
    using gf_pow3_log [OF False] unfolding l_def by simp_all
  have "254 * l = 255 * (l - 1) + (255 - l)" using l(2,3) by (simp add: algebra_simps)
  then have "gf_inv x = gf_pow3 (255 - l)" using gf_inv_pow3 [of l] gf_pow3_mod [of "l - 1" "255 - l"] l(1) by simp
  also have "\<dots> = word_of_int (pow_table ! (255 - l))" using l(2) by (intro gf_pow3_table) simp
  finally have "gf_inv x = \<dots>" .
  moreover have "unat x \<in> set [1..<256]" using False unat_u8_less [of x] by (simp add: Suc_le_eq unat_gt_0)
  ultimately show ?thesis
    using affine_table l(4) unfolding list_all_iff by (simp add: sub_byte_def fips_sbox_def)
qed

end
