(* ===== verification/Aes_Fips.thy ===== *)
theory Aes_Fips
  imports Aes_Gf
begin

text \<open>
  The cipher of FIPS 197 over bytes: substitution, rows, columns, round keys, and the expansion of a key of four, six or eight words.
  \<open>aes_setkey_enc\<close> and \<open>aes_crypt_ecb\<close> of \<open>srl/aes.c\<close>, with its tables of 32-bit words, compute it.
\<close>

section \<open>The standard\<close>

text \<open>The state is 16 bytes, column by column; a word is four bytes.\<close>

definition sub_bytes :: "bytes \<Rightarrow> bytes" where
  "sub_bytes s = map fips_sbox s"

definition shift_rows :: "bytes \<Rightarrow> bytes" where
  "shift_rows s = map (\<lambda>i. s ! (i mod 4 + 4 * ((i div 4 + i mod 4) mod 4))) [0..<16]"

definition mix_single :: "u8 \<Rightarrow> u8 \<Rightarrow> u8 \<Rightarrow> u8 \<Rightarrow> bytes" where
  "mix_single a b c d =
     [gf_mul a 2 XOR gf_mul b 3 XOR c XOR d, a XOR gf_mul b 2 XOR gf_mul c 3 XOR d,
      a XOR b XOR gf_mul c 2 XOR gf_mul d 3, gf_mul a 3 XOR b XOR c XOR gf_mul d 2]"

definition mix_columns :: "bytes \<Rightarrow> bytes" where
  "mix_columns s = concat (map (\<lambda>c. mix_single (s ! (4 * c)) (s ! (4 * c + 1)) (s ! (4 * c + 2)) (s ! (4 * c + 3))) [0..<4])"

definition rot_word :: "bytes \<Rightarrow> bytes" where
  "rot_word w = rotate1 w"

definition fips_rcon :: "nat \<Rightarrow> bytes" where
  "fips_rcon j = [(xt ^^ (j - 1)) 1, 0, 0, 0]"

text \<open>The words of the schedule one after the other; \<open>nk\<close> is the number of words of the key.\<close>

definition next_word :: "nat \<Rightarrow> bytes list \<Rightarrow> bytes" where
  "next_word nk ws =
     (let i = length ws; temp = ws ! (i - 1);
          temp = (if i mod nk = 0 then xor_bytes (sub_bytes (rot_word temp)) (fips_rcon (i div nk))
            else if nk > 6 \<and> i mod nk = 4 then sub_bytes temp else temp)
      in xor_bytes (ws ! (i - nk)) temp)"

definition key_words :: "bytes \<Rightarrow> nat \<Rightarrow> bytes list" where
  "key_words key nk = map (\<lambda>i. take 4 (drop (4 * i) key)) [0..<nk]"

definition fips_schedule :: "bytes \<Rightarrow> nat \<Rightarrow> nat \<Rightarrow> bytes list" where
  "fips_schedule key nk n = ((\<lambda>ws. ws @ [next_word nk ws]) ^^ (n - nk)) (key_words key nk)"

definition add_round_key :: "bytes list \<Rightarrow> nat \<Rightarrow> bytes \<Rightarrow> bytes" where
  "add_round_key ws r s = xor_bytes s (concat (take 4 (drop (4 * r) ws)))"

definition fips_rounds :: "bytes list \<Rightarrow> nat \<Rightarrow> bytes \<Rightarrow> bytes" where
  "fips_rounds ws n s = fold (\<lambda>r s. add_round_key ws r (mix_columns (shift_rows (sub_bytes s)))) [1..<n] s"

definition fips_cipher :: "bytes \<Rightarrow> nat \<Rightarrow> bytes \<Rightarrow> bytes" where
  "fips_cipher key nk b =
     (let nr = nk + 6; ws = fips_schedule key nk (4 * (nr + 1));
          s = fips_rounds ws nr (add_round_key ws 0 b)
      in add_round_key ws nr (shift_rows (sub_bytes s)))"

section \<open>Words and bytes\<close>

lemmas word_bytes = PUT_UINT32_LE_def

lemma store_sub_shift: "store_block (sub_shift x) = shift_rows (sub_bytes (store_block x))"
  by (cases x) (simp add: store_block_def sub_shift_def sub_bytes_def shift_rows_def PUT_UINT32_LE_def sub_byte_fips upt_rec Let_def)

lemma store_mix: "store_block (map_regs mix_column x) = mix_columns (store_block x)"
  by (cases x) (simp add: store_block_def map_regs_def mix_columns_def mix_single_def mix_column_def mix_bytes_def PUT_UINT32_LE_def
      gf_mul_2 gf_mul_3 upt_rec xor_ac)

lemma store_xor: "store_block (xor_regs x y) = xor_bytes (store_block x) (store_block y)"
  by (cases x; cases y) (simp add: store_block_def xor_regs_def PUT_UINT32_LE_def xor_bytes_def byte_of_xor)

lemma store_load:
  assumes "length b = 16"
  shows "store_block (load_block rk b) = xor_bytes b (store_block (round_key rk 0))"
proof -
  obtain b0 b1 b2 b3 b4 b5 b6 b7 b8 b9 b10 b11 b12 b13 b14 b15
    where "b = [b0, b1, b2, b3, b4, b5, b6, b7, b8, b9, b10, b11, b12, b13, b14, b15]"
    using assms by (auto simp: numeral_eq_Suc length_Suc_conv)
  then show ?thesis
    by (simp add: load_block_def store_block_def PUT_UINT32_LE_def GET_UINT32_LE_def round_key_def xor_bytes_def byte_of_xor
        numeral_2_eq_2 [symmetric])
qed

lemma put_xor: "PUT_UINT32_LE (v XOR w) = xor_bytes (PUT_UINT32_LE v) (PUT_UINT32_LE w)"
  by (simp add: PUT_UINT32_LE_def xor_bytes_def byte_of_xor)

lemma put_sub_word:
  "PUT_UINT32_LE (sub_word rom_tables w) = sub_bytes (PUT_UINT32_LE w)"
  "PUT_UINT32_LE (sub_rot_word rom_tables w) = sub_bytes (rot_word (PUT_UINT32_LE w))"
  by (simp_all add: sub_word_def sub_rot_word_def PUT_UINT32_LE_def sub_bytes_def rot_word_def sbox_rom_nth xor32_le32 sub_byte_fips)

lemma xt_powers: "map (\<lambda>i. (xt ^^ i) 1) [0, 1, 2, 3, 4, 5, 6, 7, 8, 9] = [1, 2, 4, 8, 0x10, 0x20, 0x40, 0x80, 0x1B, 0x36]"
  by code_simp

lemma put_rcon:
  assumes "i < 10"
  shows "PUT_UINT32_LE (RCON rom_tables ! i) = fips_rcon (Suc i)"
proof -
  have "list_all (\<lambda>i. PUT_UINT32_LE (RCON rom_tables ! i) = fips_rcon (Suc i)) [0, 1, 2, 3, 4, 5, 6, 7, 8, 9]"
    using xt_powers by (simp add: rom_tables_def fips_rcon_def PUT_UINT32_LE_def byte_of_def)
  moreover have "i \<in> set [0, 1, 2, 3, 4, 5, 6, 7, 8, 9]" using assms by auto
  ultimately show ?thesis unfolding list_all_iff by blast
qed

section \<open>The schedule\<close>

text \<open>The array holds the words from its start on.\<close>

definition holds_words :: "u32 list \<Rightarrow> bytes list \<Rightarrow> bool" where
  "holds_words rk ws \<longleftrightarrow> length ws \<le> length rk \<and> (\<forall>i<length ws. PUT_UINT32_LE (rk ! i) = ws ! i)"

text \<open>The word the three loops write at position \<open>p\<close>.\<close>

definition code_word :: "nat \<Rightarrow> u32 list \<Rightarrow> nat \<Rightarrow> u32" where
  "code_word nk rk p = rk ! (p - nk) XOR
     (if p mod nk = 0 then RCON rom_tables ! (p div nk - 1) XOR sub_rot_word rom_tables (rk ! (p - 1))
      else if nk > 6 \<and> p mod nk = 4 then sub_word rom_tables (rk ! (p - 1)) else rk ! (p - 1))"

abbreviation (input) word_step :: "nat \<Rightarrow> nat \<Rightarrow> u32 list \<Rightarrow> u32 list" where
  "word_step nk p rk \<equiv> rk[p := code_word nk rk p]"

lemma length_schedule: "nk \<le> n \<Longrightarrow> length (fips_schedule key nk n) = n"
proof -
  have "length (((\<lambda>ws. ws @ [next_word nk ws]) ^^ k) ws) = length ws + k" for k ws by (induction k) simp_all
  then show "nk \<le> n \<Longrightarrow> length (fips_schedule key nk n) = n" by (simp add: fips_schedule_def key_words_def)
qed

lemma schedule_Suc: "nk \<le> n \<Longrightarrow> fips_schedule key nk (Suc n) = fips_schedule key nk n @ [next_word nk (fips_schedule key nk n)]"
  by (simp add: fips_schedule_def Suc_diff_le)

lemma schedule_take: "nk \<le> k \<Longrightarrow> k \<le> m \<Longrightarrow> take k (fips_schedule key nk m) = fips_schedule key nk k"
proof (induction m)
  case (Suc m)
  show ?case
  proof (cases "k = Suc m")
    case True
    then show ?thesis using Suc.prems length_schedule [of nk k key] by simp
  next
    case False
    then show ?thesis using Suc schedule_Suc [of nk m key] length_schedule [of nk m key] by simp
  qed
qed (simp add: fips_schedule_def key_words_def)

lemma word_step_holds:
  assumes "holds_words rk ws" "0 < nk" "nk \<le> length ws" "length ws < length rk" "length ws div nk \<le> 10"
  shows "holds_words (word_step nk (length ws) rk) (ws @ [next_word nk ws])"
proof -
  let ?p = "length ws"
  have h: "i < ?p \<Longrightarrow> PUT_UINT32_LE (rk ! i) = ws ! i" for i using assms(1) by (simp add: holds_words_def)
  have q: "PUT_UINT32_LE (rk ! (?p - nk)) = ws ! (?p - nk)" "PUT_UINT32_LE (rk ! (?p - 1)) = ws ! (?p - 1)"
    using assms(2,3) by (intro h; simp)+
  have "0 < ?p div nk" using assms(2,3) by (simp add: div_greater_zero_iff)
  then have r: "PUT_UINT32_LE (RCON rom_tables ! (?p div nk - 1)) = fips_rcon (?p div nk)"
    using put_rcon [of "?p div nk - 1"] assms(5) by simp
  have x: "xor_bytes u v = xor_bytes v u" for u v
    by (rule nth_equalityI) (simp_all add: nth_xor_bytes xor.commute)
  have "PUT_UINT32_LE (code_word nk rk ?p) = next_word nk ws"
    by (simp add: code_word_def next_word_def put_xor put_sub_word q [unfolded One_nat_def] r [unfolded One_nat_def] x [of "fips_rcon (?p div nk)"] Let_def)
  then show ?thesis
    using assms(1,4) by (auto simp: holds_words_def nth_append nth_list_update)
qed

lemma word_steps_hold:
  assumes "holds_words rk (fips_schedule key nk p)" "0 < nk" "nk \<le> p" "p + k \<le> length rk" "p + k \<le> 11 * nk"
  shows "holds_words (fold (word_step nk) [p..<p + k] rk) (fips_schedule key nk (p + k))"
  using assms(4,5)
proof (induction k)
  case 0
  then show ?case using assms(1) by simp
next
  case (Suc k)
  let ?rk = "fold (word_step nk) [p..<p + k] rk"
  have len: "length (fold (word_step nk) ps rk) = length rk" for ps by (induction ps arbitrary: rk) simp_all
  have l: "length (fips_schedule key nk (p + k)) = p + k" using assms(3) by (intro length_schedule) simp
  have "(p + k) div nk < 11" by (rule less_mult_imp_div_less) (use Suc.prems in simp)
  then have "holds_words (word_step nk (p + k) ?rk) (fips_schedule key nk (p + k) @ [next_word nk (fips_schedule key nk (p + k))])"
    using word_step_holds [of ?rk "fips_schedule key nk (p + k)" nk] Suc assms(2,3) l len by simp
  then show ?case using schedule_Suc [of nk "p + k" key] assms(3) by simp
qed

text \<open>The three loops take the same steps, four, six or eight at a time.\<close>

lemma code_word_128:
  "code_word 4 rk (4 * i + 4) = rk ! (4 * i) XOR (RCON rom_tables ! i XOR sub_rot_word rom_tables (rk ! (4 * i + 3)))"
  "code_word 4 rk (4 * i + 5) = rk ! (4 * i + 1) XOR rk ! (4 * i + 4)"
  "code_word 4 rk (4 * i + 6) = rk ! (4 * i + 2) XOR rk ! (4 * i + 5)"
  "code_word 4 rk (4 * i + 7) = rk ! (4 * i + 3) XOR rk ! (4 * i + 6)"
proof -
  have "(4 * i + 4) mod 4 = 0" "(4 * i + 5) mod 4 = 1" "(4 * i + 6) mod 4 = 2" "(4 * i + 7) mod 4 = 3" "(4 * i + 4) div 4 = Suc i"
    by presburger+
  then show "code_word 4 rk (4 * i + 4) = rk ! (4 * i) XOR (RCON rom_tables ! i XOR sub_rot_word rom_tables (rk ! (4 * i + 3)))"
    "code_word 4 rk (4 * i + 5) = rk ! (4 * i + 1) XOR rk ! (4 * i + 4)"
    "code_word 4 rk (4 * i + 6) = rk ! (4 * i + 2) XOR rk ! (4 * i + 5)"
    "code_word 4 rk (4 * i + 7) = rk ! (4 * i + 3) XOR rk ! (4 * i + 6)"
    by (simp_all add: code_word_def add.commute)
qed

lemma code_word_192:
  "code_word 6 rk (6 * i + 6) = rk ! (6 * i) XOR (RCON rom_tables ! i XOR sub_rot_word rom_tables (rk ! (6 * i + 5)))"
  "code_word 6 rk (6 * i + 7) = rk ! (6 * i + 1) XOR rk ! (6 * i + 6)"
  "code_word 6 rk (6 * i + 8) = rk ! (6 * i + 2) XOR rk ! (6 * i + 7)"
  "code_word 6 rk (6 * i + 9) = rk ! (6 * i + 3) XOR rk ! (6 * i + 8)"
  "code_word 6 rk (6 * i + 10) = rk ! (6 * i + 4) XOR rk ! (6 * i + 9)"
  "code_word 6 rk (6 * i + 11) = rk ! (6 * i + 5) XOR rk ! (6 * i + 10)"
proof -
  have "(6 * i + 6) mod 6 = 0" "(6 * i + 7) mod 6 = 1" "(6 * i + 8) mod 6 = 2" "(6 * i + 9) mod 6 = 3" "(6 * i + 10) mod 6 = 4"
    "(6 * i + 11) mod 6 = 5" "(6 * i + 6) div 6 = Suc i"
    by presburger+
  then show "code_word 6 rk (6 * i + 6) = rk ! (6 * i) XOR (RCON rom_tables ! i XOR sub_rot_word rom_tables (rk ! (6 * i + 5)))"
    "code_word 6 rk (6 * i + 7) = rk ! (6 * i + 1) XOR rk ! (6 * i + 6)"
    "code_word 6 rk (6 * i + 8) = rk ! (6 * i + 2) XOR rk ! (6 * i + 7)"
    "code_word 6 rk (6 * i + 9) = rk ! (6 * i + 3) XOR rk ! (6 * i + 8)"
    "code_word 6 rk (6 * i + 10) = rk ! (6 * i + 4) XOR rk ! (6 * i + 9)"
    "code_word 6 rk (6 * i + 11) = rk ! (6 * i + 5) XOR rk ! (6 * i + 10)"
    by (simp_all add: code_word_def add.commute)
qed

lemma code_word_256:
  "code_word 8 rk (8 * i + 8) = rk ! (8 * i) XOR (RCON rom_tables ! i XOR sub_rot_word rom_tables (rk ! (8 * i + 7)))"
  "code_word 8 rk (8 * i + 9) = rk ! (8 * i + 1) XOR rk ! (8 * i + 8)"
  "code_word 8 rk (8 * i + 10) = rk ! (8 * i + 2) XOR rk ! (8 * i + 9)"
  "code_word 8 rk (8 * i + 11) = rk ! (8 * i + 3) XOR rk ! (8 * i + 10)"
  "code_word 8 rk (8 * i + 12) = rk ! (8 * i + 4) XOR sub_word rom_tables (rk ! (8 * i + 11))"
  "code_word 8 rk (8 * i + 13) = rk ! (8 * i + 5) XOR rk ! (8 * i + 12)"
  "code_word 8 rk (8 * i + 14) = rk ! (8 * i + 6) XOR rk ! (8 * i + 13)"
  "code_word 8 rk (8 * i + 15) = rk ! (8 * i + 7) XOR rk ! (8 * i + 14)"
proof -
  have "(8 * i + 8) mod 8 = 0" "(8 * i + 9) mod 8 = 1" "(8 * i + 10) mod 8 = 2" "(8 * i + 11) mod 8 = 3" "(8 * i + 12) mod 8 = 4"
    "(8 * i + 13) mod 8 = 5" "(8 * i + 14) mod 8 = 6" "(8 * i + 15) mod 8 = 7" "(8 * i + 8) div 8 = Suc i"
    by presburger+
  then show "code_word 8 rk (8 * i + 8) = rk ! (8 * i) XOR (RCON rom_tables ! i XOR sub_rot_word rom_tables (rk ! (8 * i + 7)))"
    "code_word 8 rk (8 * i + 9) = rk ! (8 * i + 1) XOR rk ! (8 * i + 8)"
    "code_word 8 rk (8 * i + 10) = rk ! (8 * i + 2) XOR rk ! (8 * i + 9)"
    "code_word 8 rk (8 * i + 11) = rk ! (8 * i + 3) XOR rk ! (8 * i + 10)"
    "code_word 8 rk (8 * i + 12) = rk ! (8 * i + 4) XOR sub_word rom_tables (rk ! (8 * i + 11))"
    "code_word 8 rk (8 * i + 13) = rk ! (8 * i + 5) XOR rk ! (8 * i + 12)"
    "code_word 8 rk (8 * i + 14) = rk ! (8 * i + 6) XOR rk ! (8 * i + 13)"
    "code_word 8 rk (8 * i + 15) = rk ! (8 * i + 7) XOR rk ! (8 * i + 14)"
    by (simp_all add: code_word_def add.commute)
qed

lemma expand_steps:
  "expand128 rom_tables i rk = fold (word_step 4) [4 * i + 4..<4 * i + 4 + 4] rk"
  "expand192 rom_tables i rk = fold (word_step 6) [6 * i + 6..<6 * i + 6 + 6] rk"
  "expand256 rom_tables i rk = fold (word_step 8) [8 * i + 8..<8 * i + 8 + 8] rk"
proof -
  have u: "[4 * i + 4..<4 * i + 4 + 4] = [4 * i + 4, 4 * i + 5, 4 * i + 6, 4 * i + 7]"
    "[6 * i + 6..<6 * i + 6 + 6] = [6 * i + 6, 6 * i + 7, 6 * i + 8, 6 * i + 9, 6 * i + 10, 6 * i + 11]"
    "[8 * i + 8..<8 * i + 8 + 8] = [8 * i + 8, 8 * i + 9, 8 * i + 10, 8 * i + 11, 8 * i + 12, 8 * i + 13, 8 * i + 14, 8 * i + 15]"
    by (simp_all add: upt_rec)
  show "expand128 rom_tables i rk = fold (word_step 4) [4 * i + 4..<4 * i + 4 + 4] rk"
    unfolding u fold.simps o_apply id_apply code_word_128 expand128_def Let_def by (simp add: xor.assoc)
  show "expand192 rom_tables i rk = fold (word_step 6) [6 * i + 6..<6 * i + 6 + 6] rk"
    unfolding u fold.simps o_apply id_apply code_word_192 expand192_def Let_def by (simp add: xor.assoc)
  show "expand256 rom_tables i rk = fold (word_step 8) [8 * i + 8..<8 * i + 8 + 8] rk"
    unfolding u fold.simps o_apply id_apply code_word_256 expand256_def Let_def by (simp add: xor.assoc)
qed

lemma expand_loop:
  assumes "\<And>i rk. f i rk = fold (word_step nk) [nk * i + nk..<nk * i + nk + nk] rk"
  shows "fold f [0..<m] rk = fold (word_step nk) [nk..<nk + nk * m] rk"
proof (induction m)
  case (Suc m)
  have "[nk..<nk + nk * Suc m] = [nk..<nk + nk * m] @ [nk * m + nk..<nk * m + nk + nk]"
    using upt_add_eq_append [of nk "nk + nk * m" nk] by (simp add: ac_simps)
  then show ?case using Suc assms by simp
qed simp

lemma take_drop_four: "p + 4 \<le> length xs \<Longrightarrow> take 4 (drop p xs) = [xs ! p, xs ! (p + 1), xs ! (p + 2), xs ! (p + 3)]"
  by (rule nth_equalityI) (auto simp: less_Suc_eq numeral_eq_Suc)

lemma load_key_holds:
  assumes "nk \<le> length rk" "4 * nk \<le> length key"
  shows "holds_words (load_key key nk rk) (key_words key nk)"
  using assms
proof (induction nk)
  case 0
  then show ?case by (simp add: holds_words_def key_words_def)
next
  case (Suc nk)
  have "PUT_UINT32_LE (GET_UINT32_LE key (4 * nk)) = take 4 (drop (4 * nk) key)"
    using Suc.prems(2) take_drop_four [of "4 * nk" key] by (simp add: PUT_UINT32_LE_def GET_UINT32_LE_def)
  then show ?case
    using Suc by (auto simp: holds_words_def key_words_def load_key_def nth_append nth_list_update less_Suc_eq)
qed

text \<open>After \<open>aes_setkey_enc\<close> the array holds the schedule of the standard.\<close>

lemma expand_key_holds:
  assumes "rounds_of_keysize ks = Some n" "length rk = 68" "ks div 8 \<le> length key"
  shows "holds_words (expand_key rom_tables n (load_key key (ks div 32) rk)) (fips_schedule key (ks div 32) (4 * (n + 1)))"
proof -
  have run: "holds_words (fold f [0..<m] (load_key key nk rk)) (fips_schedule key nk (nk + nk * m))"
    if "\<And>i rk. f i rk = fold (word_step nk) [nk * i + nk..<nk * i + nk + nk] rk" "0 < nk" "nk + nk * m \<le> 68" "m \<le> 10" "4 * nk \<le> length key"
    for f nk m
  proof -
    have "holds_words (load_key key nk rk) (fips_schedule key nk nk)"
      using load_key_holds [of nk rk key] that(3,5) assms(2) by (simp add: fips_schedule_def)
    moreover have "nk + nk * m \<le> 11 * nk" using that(4) by (simp add: add.commute mult.commute)
    ultimately show ?thesis
      unfolding expand_loop [OF that(1)] using that(2,3) assms(2) by (intro word_steps_hold) simp_all
  qed
  have shorter: "holds_words xs (fips_schedule key nk k)" if "holds_words xs (fips_schedule key nk m)" "nk \<le> k" "k \<le> m" for xs nk k m
  proof -
    have "length (fips_schedule key nk m) = m" "length (fips_schedule key nk k) = k" using that by (simp_all add: length_schedule)
    then show ?thesis using that(1,3) unfolding holds_words_def schedule_take [OF that(2,3), of key, symmetric] by simp
  qed
  consider "ks = 128" "n = 10" | "ks = 192" "n = 12" | "ks = 256" "n = 14"
    using assms(1) by (auto simp: rounds_of_keysize_def split: if_splits)
  then show ?thesis
  proof cases
    case 1
    show ?thesis using run [of "expand128 rom_tables" 4 10] expand_steps(1) assms(3) 1 by (simp add: expand_key_def)
  next
    case 2
    show ?thesis using shorter [OF run [of "expand192 rom_tables" 6 8], of 52] expand_steps(2) assms(3) 2 by (simp add: expand_key_def)
  next
    case 3
    show ?thesis using shorter [OF run [of "expand256 rom_tables" 8 7], of 60] expand_steps(3) assms(3) 3 by (simp add: expand_key_def)
  qed
qed

section \<open>The cipher\<close>

lemma store_round_key:
  assumes "holds_words rk ws" "4 * r + 4 \<le> length ws"
  shows "store_block (round_key rk r) = concat (take 4 (drop (4 * r) ws))"
  using assms take_drop_four [OF assms(2)] by (simp add: holds_words_def store_block_def round_key_def)

lemma xor_bytes_commute: "xor_bytes xs ys = xor_bytes ys xs"
  by (rule nth_equalityI) (simp_all add: nth_xor_bytes xor.commute)

lemma rounds_fips:
  assumes "holds_words rk ws" "length ws = 4 * (n + 1)" "k \<le> n" "store_block x = s"
  shows "store_block (run_rounds (AES_FROUND rom_tables rk) k x) = fips_rounds ws (Suc k) s"
  using assms(3)
proof (induction k)
  case 0
  then show ?case using assms(4) by (simp add: fips_rounds_def)
next
  case (Suc k)
  let ?y = "run_rounds (AES_FROUND rom_tables rk) k x"
  have key: "store_block (round_key rk (Suc k)) = concat (take 4 (drop (4 * Suc k) ws))"
    using Suc.prems assms(2) by (intro store_round_key [OF assms(1)]) simp
  have "store_block (run_rounds (AES_FROUND rom_tables rk) (Suc k) x) =
      xor_bytes (store_block (round_key rk (Suc k))) (mix_columns (shift_rows (sub_bytes (store_block ?y))))"
    by (simp add: fround_rom store_xor store_mix store_sub_shift del: mult_Suc_right)
  then show ?case
    using Suc key by (simp add: fips_rounds_def add_round_key_def xor_bytes_commute del: mult_Suc_right)
qed

lemma aes_encrypts:
  assumes "holds_words (buf ctx) (fips_schedule key nk (4 * (nk + 6 + 1)))" "nr ctx = nk + 6" "even nk" "length b = 16"
  shows "aes_crypt_ecb rom_tables ctx AES_ENCRYPT b = fips_cipher key nk b"
proof -
  let ?ws = "fips_schedule key nk (4 * (nk + 6 + 1))" and ?rk = "buf ctx"
  have len: "length ?ws = 4 * (nk + 6 + 1)" by (intro length_schedule) simp
  let ?x = "load_block ?rk b" and ?y = "run_rounds (AES_FROUND rom_tables ?rk) (nk + 5) (load_block ?rk b)"
  have first: "store_block ?x = add_round_key ?ws 0 b"
    using store_load [OF assms(4)] store_round_key [OF assms(1), of 0] len by (simp add: add_round_key_def)
  have mid: "store_block ?y = fips_rounds ?ws (nk + 6) (add_round_key ?ws 0 b)"
  proof -
    have "nk + 5 \<le> nk + 6" "Suc (nk + 5) = nk + 6" by simp_all
    then show ?thesis using rounds_fips [OF assms(1) len _ first, of "nk + 5"] by (simp only:)
  qed
  have last: "store_block (round_key ?rk (nk + 6)) = concat (take 4 (drop (4 * (nk + 6)) ?ws))"
    using len by (intro store_round_key [OF assms(1)]) simp
  have e: "even (nr ctx)" "0 < nr ctx" "nr ctx - 1 = nk + 5" using assms(2,3) by simp_all
  have "aes_crypt_ecb rom_tables ctx AES_ENCRYPT b = store_block (xor_regs (round_key ?rk (nk + 6)) (sub_shift ?y))"
    unfolding aes_crypt_ecb_run(1) [OF e(1,2)] e(3) unfolding assms(2) final_rom(1) ..
  also have "\<dots> = add_round_key ?ws (nk + 6) (shift_rows (sub_bytes (store_block ?y)))"
    by (simp add: store_xor store_sub_shift last add_round_key_def xor_bytes_commute)
  finally show ?thesis unfolding mid by (simp add: fips_cipher_def Let_def)
qed

end
