(* ===== verification/Aes_Example.thy ===== *)
theory Aes_Example
  imports Aes_Fips
begin

text \<open>
  The worked example of FIPS 197, appendix C.1: the definitions of \<open>Aes_Fips\<close>, evaluated in the logic, give the round keys and
  the ciphertext the standard prints. The equations unfold an operation only on lists that are written out.
\<close>

definition example_key :: bytes where
  "example_key = [0x00, 0x01, 0x02, 0x03, 0x04, 0x05, 0x06, 0x07, 0x08, 0x09, 0x0A, 0x0B, 0x0C, 0x0D, 0x0E, 0x0F]"

definition example_block :: bytes where
  "example_block = [0x00, 0x11, 0x22, 0x33, 0x44, 0x55, 0x66, 0x77, 0x88, 0x99, 0xAA, 0xBB, 0xCC, 0xDD, 0xEE, 0xFF]"

section \<open>Evaluation\<close>

named_theorems fips_eval

lemma sbox_eval [fips_eval]:
  "fips_sbox (numeral n) = FSb_rom ! unat (numeral n :: u8)" "fips_sbox 0 = FSb_rom ! 0" "fips_sbox 1 = FSb_rom ! 1"
  by (simp_all add: sub_byte_fips [symmetric] sub_byte_def)

lemma bytes_eval [fips_eval]:
  "sub_bytes [] = []" "sub_bytes (x # xs) = fips_sbox x # sub_bytes xs" "rot_word [x0, x1, x2, x3] = [x1, x2, x3, x0]"
  "xor_bytes [] ys = []" "xor_bytes (x # xs) (y # ys) = (x XOR y) # xor_bytes xs ys"
  by (simp_all add: sub_bytes_def rot_word_def xor_bytes_def)

lemma next_word_eval [fips_eval]:
  "next_word nk (w # ws) =
     (let i = length (w # ws); temp = (w # ws) ! (i - 1);
          temp = (if i mod nk = 0 then xor_bytes (sub_bytes (rot_word temp)) (fips_rcon (i div nk))
            else if nk > 6 \<and> i mod nk = 4 then sub_bytes temp else temp)
      in xor_bytes ((w # ws) ! (i - nk)) temp)"
  by (simp add: next_word_def)

lemma rcon_eval [fips_eval]:
  "fips_rcon 1 = [1, 0, 0, 0]" "fips_rcon (Suc 0) = [1, 0, 0, 0]" "fips_rcon 2 = [2, 0, 0, 0]" "fips_rcon 3 = [4, 0, 0, 0]"
  "fips_rcon 4 = [8, 0, 0, 0]" "fips_rcon 5 = [0x10, 0, 0, 0]" "fips_rcon 6 = [0x20, 0, 0, 0]" "fips_rcon 7 = [0x40, 0, 0, 0]"
  "fips_rcon 8 = [0x80, 0, 0, 0]" "fips_rcon 9 = [0x1B, 0, 0, 0]" "fips_rcon 10 = [0x36, 0, 0, 0]"
  using xt_powers by (simp_all add: fips_rcon_def)

lemma funpow_numeral: "(f ^^ numeral k) x = (f ^^ pred_numeral k) (f x)"
  by (metis comp_apply funpow_Suc_right numeral_eq_Suc)

lemmas schedule_eval = funpow_numeral [where f = "\<lambda>ws. ws @ [next_word nk ws]" for nk]

lemma state_eval [fips_eval]:
  "shift_rows [s0, s1, s2, s3, s4, s5, s6, s7, s8, s9, s10, s11, s12, s13, s14, s15] =
     [s0, s5, s10, s15, s4, s9, s14, s3, s8, s13, s2, s7, s12, s1, s6, s11]"
  "mix_columns [s0, s1, s2, s3, s4, s5, s6, s7, s8, s9, s10, s11, s12, s13, s14, s15] =
     mix_single s0 s1 s2 s3 @ mix_single s4 s5 s6 s7 @ mix_single s8 s9 s10 s11 @ mix_single s12 s13 s14 s15"
  "add_round_key ws r (x # xs) = xor_bytes (x # xs) (concat (take 4 (drop (4 * r) ws)))"
  by (simp_all add: shift_rows_def mix_columns_def add_round_key_def upt_rec)

lemmas column_eval [fips_eval] = mix_single_def gf_mul_2 gf_mul_3 xt_def

section \<open>The example\<close>

lemma example_schedule:
  "fips_schedule example_key 4 44 =
    [[0x00, 0x01, 0x02, 0x03], [0x04, 0x05, 0x06, 0x07], [0x08, 0x09, 0x0A, 0x0B], [0x0C, 0x0D, 0x0E, 0x0F],
     [0xD6, 0xAA, 0x74, 0xFD], [0xD2, 0xAF, 0x72, 0xFA], [0xDA, 0xA6, 0x78, 0xF1], [0xD6, 0xAB, 0x76, 0xFE],
     [0xB6, 0x92, 0xCF, 0x0B], [0x64, 0x3D, 0xBD, 0xF1], [0xBE, 0x9B, 0xC5, 0x00], [0x68, 0x30, 0xB3, 0xFE],
     [0xB6, 0xFF, 0x74, 0x4E], [0xD2, 0xC2, 0xC9, 0xBF], [0x6C, 0x59, 0x0C, 0xBF], [0x04, 0x69, 0xBF, 0x41],
     [0x47, 0xF7, 0xF7, 0xBC], [0x95, 0x35, 0x3E, 0x03], [0xF9, 0x6C, 0x32, 0xBC], [0xFD, 0x05, 0x8D, 0xFD],
     [0x3C, 0xAA, 0xA3, 0xE8], [0xA9, 0x9F, 0x9D, 0xEB], [0x50, 0xF3, 0xAF, 0x57], [0xAD, 0xF6, 0x22, 0xAA],
     [0x5E, 0x39, 0x0F, 0x7D], [0xF7, 0xA6, 0x92, 0x96], [0xA7, 0x55, 0x3D, 0xC1], [0x0A, 0xA3, 0x1F, 0x6B],
     [0x14, 0xF9, 0x70, 0x1A], [0xE3, 0x5F, 0xE2, 0x8C], [0x44, 0x0A, 0xDF, 0x4D], [0x4E, 0xA9, 0xC0, 0x26],
     [0x47, 0x43, 0x87, 0x35], [0xA4, 0x1C, 0x65, 0xB9], [0xE0, 0x16, 0xBA, 0xF4], [0xAE, 0xBF, 0x7A, 0xD2],
     [0x54, 0x99, 0x32, 0xD1], [0xF0, 0x85, 0x57, 0x68], [0x10, 0x93, 0xED, 0x9C], [0xBE, 0x2C, 0x97, 0x4E],
     [0x13, 0x11, 0x1D, 0x7F], [0xE3, 0x94, 0x4A, 0x17], [0xF3, 0x07, 0xA7, 0x8B], [0x4D, 0x2B, 0x30, 0xC5]]"
  by (simp add: fips_schedule_def schedule_eval key_words_def upt_rec [of _ 4] example_key_def fips_eval FSb_nth
      cong: let_weak_cong if_weak_cong)

lemma example_cipher:
  "fips_cipher example_key 4 example_block =
     [0x69, 0xC4, 0xE0, 0xD8, 0x6A, 0x7B, 0x04, 0x30, 0xD8, 0xCD, 0xB7, 0x80, 0x70, 0xB4, 0xC5, 0x5A]"
  by (simp add: fips_cipher_def example_schedule example_block_def fips_rounds_def upt_rec fips_eval FSb_nth
      cong: let_weak_cong if_weak_cong)

end
