(* ===== verification/Aes_Properties.thy ===== *)
theory Aes_Properties
  imports EncDec Aes_Example
begin

text \<open>
  The properties of the cipher and of the credential encryption: the tables, the cipher of FIPS 197, the round trips of
  every mode with the schedules the code builds, the errors, and what the fixed initialisation
  vector of \<open>EncDec.c\<close> gives away.
\<close>

section \<open>Tables and block cipher\<close>

text \<open>The tables \<open>aes_gen_tables\<close> computes at run time into zeroed static memory are, entry by
  entry, the tables the source carries as literals for \<open>POLARSSL_AES_ROM_TABLES\<close>.\<close>

theorem generated_tables: "aes_gen_tables static_tables = rom_tables"
  by (rule gen_tables_rom)

text \<open>C16: encryption is the cipher of FIPS 197. For each of the three key sizes, any key of that many bits and any
  block, \<open>aes_crypt_ecb\<close> with the context that \<open>aes_setkey_enc\<close> keyed returns what the standard
  defines over single bytes with the arithmetic of its field, whatever the context held before and whether or not the
  tables had been generated.\<close>

theorem aes_is_fips197:
  assumes "rounds_of_keysize keysize = Some n" "aes_state_ok st" "length (buf ctx) = 68"
    and "keysize div 8 \<le> length key" "length b = 16"
    and "aes_setkey_enc st ctx key keysize = (st1, ectx, r)"
  shows "r = 0 \<and> aes_crypt_ecb (tables st1) ectx AES_ENCRYPT b = fips_cipher key (keysize div 32) b"
proof -
  have n: "n = keysize div 32 + 6" "even (keysize div 32)"
    using assms(1) by (auto simp: rounds_of_keysize_def split: if_splits)
  have c: "st1 = init_tables st" "ectx = \<lparr>nr = n, buf = expand_key rom_tables n (load_key key (keysize div 32) (buf ctx))\<rparr>" "r = 0"
    using assms(1,6) init_tables_ok [OF assms(2)] by (simp_all add: aes_setkey_enc_def Let_def)
  then have "holds_words (buf ectx) (fips_schedule key (keysize div 32) (4 * (keysize div 32 + 6 + 1)))" "nr ectx = keysize div 32 + 6"
    using expand_key_holds [OF assms(1,3,4)] n by simp_all
  then show ?thesis
    using aes_encrypts [OF _ _ n(2) assms(5)] c init_tables_ok [OF assms(2)] by simp
qed

theorem aes_is_fips197_witness:
  "case aes_setkey_enc aes_state_init zero_ctx example_key 128 of (st1, ectx, r) \<Rightarrow>
     r = 0 \<and> aes_crypt_ecb (tables st1) ectx AES_ENCRYPT example_block =
       [0x69, 0xC4, 0xE0, 0xD8, 0x6A, 0x7B, 0x04, 0x30, 0xD8, 0xCD, 0xB7, 0x80, 0x70, 0xB4, 0xC5, 0x5A]"
proof -
  have "rounds_of_keysize 128 = Some 10" "length (buf zero_ctx) = 68" "length example_key = 16" "length example_block = 16"
    by (simp_all add: rounds_of_keysize_def zero_ctx_def example_key_def example_block_def)
  then show ?thesis
    using aes_is_fips197 [of 128 10 aes_state_init zero_ctx example_key example_block] example_cipher
    by (auto simp: aes_state_ok_init split: prod.split)
qed

text \<open>C18: for each of the three key sizes, any key and any block, a context keyed by
  \<open>aes_setkey_dec\<close> decrypts what a context keyed by \<open>aes_setkey_enc\<close> encrypted, whatever the three
  contexts held before and whether or not the tables had been generated.\<close>

theorem ecb_roundtrip:
  assumes "rounds_of_keysize keysize = Some n" "aes_state_ok st"
    and "length (buf ctx) = 68" "length (buf dctx) = 68" "length (buf cty) = 68" "length b = 16"
    and "aes_setkey_enc st ctx key keysize = (st1, ectx, r1)"
    and "aes_setkey_dec st1 dctx cty key keysize = (st2, dctx', r2)"
  shows "r1 = 0 \<and> r2 = 0 \<and>
    aes_crypt_ecb (tables st2) dctx' AES_DECRYPT (aes_crypt_ecb (tables st2) ectx AES_ENCRYPT b) = b"
  using setkey_pair [OF assms(1-5,7)] assms(6,8) ecb_pair by auto

theorem ecb_roundtrip_witness:
  "case aes_setkey_enc aes_state_init zero_ctx (replicate 32 5) 256 of (st1, ectx, r1) \<Rightarrow>
     (case aes_setkey_dec st1 zero_ctx zero_ctx (replicate 32 5) 256 of (st2, dctx, r2) \<Rightarrow>
        r1 = 0 \<and> r2 = 0 \<and>
        aes_crypt_ecb (tables st2) dctx AES_DECRYPT
          (aes_crypt_ecb (tables st2) ectx AES_ENCRYPT (replicate 16 7)) = replicate 16 7)"
proof -
  have "rounds_of_keysize 256 = Some 14" by (simp add: rounds_of_keysize_def)
  moreover have "length (buf zero_ctx) = 68" by (simp add: zero_ctx_def)
  ultimately show ?thesis
    using ecb_roundtrip [of 256 14 aes_state_init zero_ctx zero_ctx zero_ctx "replicate 16 7"]
    by (auto simp: aes_state_ok_init split: prod.split)
qed

text \<open>A key size other than 128, 192 and 256 is refused by both key schedules with
  \<open>POLARSSL_ERR_AES_INVALID_KEY_LENGTH\<close> and leaves the context as it was; the three sizes are accepted.\<close>

theorem setkey_errors:
  "(rounds_of_keysize keysize = None \<longleftrightarrow> keysize \<notin> {128, 192, 256}) \<and>
   (snd (snd (aes_setkey_enc st ctx key keysize)) = 0 \<longleftrightarrow> keysize \<in> {128, 192, 256}) \<and>
   (snd (snd (aes_setkey_dec st ctx cty key keysize)) = 0 \<longleftrightarrow> keysize \<in> {128, 192, 256}) \<and>
   (keysize \<in> {128, 192, 256} \<or>
      snd (aes_setkey_enc st ctx key keysize) = (ctx, POLARSSL_ERR_AES_INVALID_KEY_LENGTH) \<and>
      snd (aes_setkey_dec st ctx cty key keysize) = (ctx, POLARSSL_ERR_AES_INVALID_KEY_LENGTH))"
  by (auto simp: rounds_of_keysize_def aes_setkey_enc_def aes_setkey_dec_def Let_def
      POLARSSL_ERR_AES_INVALID_KEY_LENGTH_def split: prod.splits)

section \<open>Modes\<close>

text \<open>CBC decryption with the decryption schedule inverts CBC encryption with the encryption
  schedule, for every input whose length is a multiple of 16; the ciphertext has the length of
  the plaintext and both directions leave the same chaining value.\<close>

theorem cbc_inverts:
  assumes "rounds_of_keysize keysize = Some n" "aes_state_ok st"
    and "length (buf ctx) = 68" "length (buf dctx) = 68" "length (buf cty) = 68"
    and "aes_setkey_enc st ctx key keysize = (st1, ectx, r1)"
    and "aes_setkey_dec st1 dctx cty key keysize = (st2, dctx', r2)"
    and "length iv = 16" "length input mod 16 = 0"
  shows "\<exists>iv' out. aes_crypt_cbc (tables st2) ectx AES_ENCRYPT iv input = Inr (iv', out) \<and>
    length out = length input \<and>
    aes_crypt_cbc (tables st2) dctx' AES_DECRYPT iv out = Inr (iv', input)"
proof -
  have p: "aes_pair ectx dctx'" "tables st2 = rom_tables"
    using setkey_pair [OF assms(1-6)] assms(7) by auto
  obtain iv' out where e: "cbc_encrypt_loop (aes_crypt_ecb rom_tables ectx AES_ENCRYPT) iv input = (iv', out)"
    by fastforce
  show ?thesis
    using keyed_aes.cbc_pair [OF keyed_aes.intro [OF p(1)] assms(8,9) e]
      ecb.cbc_length [OF assms(8,9) e] assms(9) e
    by (simp add: aes_crypt_cbc_def p(2))
qed

theorem cbc_inverts_witness:
  "case aes_setkey_enc aes_state_init zero_ctx (replicate 24 1) 192 of (st1, ectx, r1) \<Rightarrow>
     (case aes_setkey_dec st1 zero_ctx zero_ctx (replicate 24 1) 192 of (st2, dctx, r2) \<Rightarrow>
        \<exists>iv' out. aes_crypt_cbc (tables st2) ectx AES_ENCRYPT (replicate 16 2) (replicate 32 3) =
            Inr (iv', out) \<and> length out = length (replicate 32 (3 :: u8)) \<and>
          aes_crypt_cbc (tables st2) dctx AES_DECRYPT (replicate 16 2) out = Inr (iv', replicate 32 3))"
proof -
  have "rounds_of_keysize 192 = Some 12" by (simp add: rounds_of_keysize_def)
  moreover have "length (buf zero_ctx) = 68" by (simp add: zero_ctx_def)
  ultimately show ?thesis
    using cbc_inverts [of 192 12 aes_state_init zero_ctx zero_ctx zero_ctx "replicate 24 1"
        _ _ _ _ _ _ "replicate 16 2" "replicate 32 3"]
    by (auto simp: aes_state_ok_init simp del: replicate.simps split: prod.split)
qed

text \<open>CBC refuses exactly the inputs whose length is not a multiple of 16, in both directions.\<close>

theorem cbc_length_error:
  "aes_crypt_cbc T ctx mode iv input = Inl POLARSSL_ERR_AES_INVALID_INPUT_LENGTH \<longleftrightarrow>
     length input mod 16 \<noteq> 0"
  by (simp add: aes_crypt_cbc_def)

text \<open>CFB128 of a message in two pieces, with the offset and the vector carried from one call to
  the next, is CFB128 of the whole; decryption with the same starting offset and vector gives the
  message back and ends in the same state, the offset having advanced modulo 16.\<close>

theorem cfb128_stream:
  assumes "length iv = 16" "n < 16"
  shows "case aes_crypt_cfb128 T ctx AES_ENCRYPT (n, iv) (xs @ ys) of ((n', iv'), cs) \<Rightarrow>
    n' = (n + length (xs @ ys)) mod 16 \<and> length cs = length (xs @ ys) \<and>
    aes_crypt_cfb128 T ctx AES_DECRYPT (n, iv) cs = ((n', iv'), xs @ ys) \<and>
    (case aes_crypt_cfb128 T ctx AES_ENCRYPT (n, iv) xs of (s, c1) \<Rightarrow>
      (case aes_crypt_cfb128 T ctx AES_ENCRYPT s ys of (s', c2) \<Rightarrow> s' = (n', iv') \<and> cs = c1 @ c2))"
proof -
  let ?E = "cfb128_loop (aes_crypt_ecb T ctx AES_ENCRYPT) AES_ENCRYPT"
  obtain s c1 where 1: "?E (n, iv) xs = (s, c1)" by fastforce
  obtain n' iv' c2 where 2: "?E s ys = ((n', iv'), c2)" by (metis prod.exhaust)
  have "?E (n, iv) (xs @ ys) = ((n', iv'), c1 @ c2)"
    unfolding ecb.cfb128_append by (simp add: 1 2)
  with ecb.cfb128_roundtrip [OF assms this] ecb.cfb128_length [OF this assms] 1 2 show ?thesis
    by (simp add: aes_crypt_cfb128_def)
qed

theorem cfb128_stream_witness:
  "case aes_crypt_cfb128 rom_tables zero_ctx AES_ENCRYPT (3, replicate 16 1) ([1, 2] @ [3]) of ((n', iv'), cs) \<Rightarrow>
    n' = (3 + length ([1, 2] @ [3 :: u8])) mod 16 \<and> length cs = length ([1, 2] @ [3 :: u8]) \<and>
    aes_crypt_cfb128 rom_tables zero_ctx AES_DECRYPT (3, replicate 16 1) cs = ((n', iv'), [1, 2] @ [3]) \<and>
    (case aes_crypt_cfb128 rom_tables zero_ctx AES_ENCRYPT (3, replicate 16 1) [1, 2] of (s, c1) \<Rightarrow>
      (case aes_crypt_cfb128 rom_tables zero_ctx AES_ENCRYPT s [3] of (s', c2) \<Rightarrow> s' = (n', iv') \<and> cs = c1 @ c2))"
  by (rule cfb128_stream) simp_all

text \<open>CFB8 of a message in two pieces is CFB8 of the whole, has the length of the message, and is
  undone by CFB8 decryption with the same vector; the vector always keeps 16 bytes.\<close>

theorem cfb8_stream:
  assumes "length iv = 16"
  shows "case aes_crypt_cfb8 T ctx AES_ENCRYPT iv (xs @ ys) of (iv', cs) \<Rightarrow>
    length iv' = 16 \<and> length cs = length (xs @ ys) \<and>
    aes_crypt_cfb8 T ctx AES_DECRYPT iv cs = (iv', xs @ ys) \<and>
    (case aes_crypt_cfb8 T ctx AES_ENCRYPT iv xs of (s, c1) \<Rightarrow>
      (case aes_crypt_cfb8 T ctx AES_ENCRYPT s ys of (s', c2) \<Rightarrow> s' = iv' \<and> cs = c1 @ c2))"
proof -
  let ?E = "cfb8_loop (aes_crypt_ecb T ctx AES_ENCRYPT) AES_ENCRYPT"
  obtain s c1 where 1: "?E iv xs = (s, c1)" by fastforce
  obtain iv' c2 where 2: "?E s ys = (iv', c2)" by fastforce
  have "?E iv (xs @ ys) = (iv', c1 @ c2)"
    unfolding ecb.cfb8_append by (simp add: 1 2)
  with ecb.cfb8_roundtrip [OF assms this] ecb.cfb8_length [OF this assms] 1 2 show ?thesis
    by (simp add: aes_crypt_cfb8_def)
qed

text \<open>CTR mode applied twice from the same offset, counter and stream block is the identity and
  ends in the same state, and a message can be passed in pieces.\<close>

theorem ctr_stream:
  "case aes_crypt_ctr T ctx s (xs @ ys) of (s', cs) \<Rightarrow>
    aes_crypt_ctr T ctx s cs = (s', xs @ ys) \<and>
    (case aes_crypt_ctr T ctx s xs of (s1, c1) \<Rightarrow>
      (case aes_crypt_ctr T ctx s1 ys of (s2, c2) \<Rightarrow> s2 = s' \<and> cs = c1 @ c2))"
proof -
  let ?E = "ctr_loop (aes_crypt_ecb T ctx AES_ENCRYPT)"
  obtain s1 c1 where 1: "?E s xs = (s1, c1)" by fastforce
  obtain s2 c2 where 2: "?E s1 ys = (s2, c2)" by fastforce
  have "?E s (xs @ ys) = (s2, c1 @ c2)"
    unfolding ecb.ctr_append by (simp add: 1 2)
  with ecb.ctr_roundtrip [OF this] 1 2 show ?thesis
    by (simp add: aes_crypt_ctr_def)
qed

text \<open>The counter of CTR mode is a big-endian number that the loop of the source increments by one,
  modulo 2 to the power of its width, and it keeps its length.\<close>

theorem counter_increment:
  "be_value (incr_counter (length nc) nc) = (be_value nc + 1) mod 256 ^ length nc \<and>
   length (incr_counter (length nc) nc) = length nc"
  by (simp add: incr_counter_value)

section \<open>Card credentials\<close>

text \<open>C15: what \<open>encrypt_data\<close> wrote for a card, \<open>decrypt_data\<close> reads back, for every key, every
  initialisation vector and every 64-byte username and password, in any two states of the
  program and whatever the output buffers held.\<close>

theorem credentials_roundtrip:
  assumes "aes_state_ok st" "aes_state_ok st'" "length (random_iv cr) = 16"
    and "length user = 64" "length pass = 64"
    and "length eu = 64" "length ep = 64" "length du = 64" "length dp = 64"
    and "encrypt_data cr ctx st user pass eu ep = (st1, eu1, ep1, ok)"
  shows "ok \<and> length eu1 = 64 \<and> length ep1 = 64 \<and>
    decrypt_data cr ctx st' eu1 ep1 du dp = (init_tables st', user, pass, True)"
  by (rule decrypt_encrypt [OF assms])

theorem credentials_roundtrip_witness:
  "case encrypt_data \<lparr>static_key = replicate 16 9, random_iv = replicate 16 4\<rparr> zero_ctx aes_state_init
      (replicate 64 1) (replicate 64 2) (replicate 64 0) (replicate 64 0) of (st1, eu1, ep1, ok) \<Rightarrow>
     ok \<and> length eu1 = 64 \<and> length ep1 = 64 \<and>
     decrypt_data \<lparr>static_key = replicate 16 9, random_iv = replicate 16 4\<rparr> zero_ctx aes_state_init
       eu1 ep1 (replicate 64 0) (replicate 64 0) =
       (init_tables aes_state_init, replicate 64 1, replicate 64 2, True)"
proof -
  let ?cr = "\<lparr>static_key = replicate 16 9, random_iv = replicate 16 4\<rparr>"
  let ?r = "encrypt_data ?cr zero_ctx aes_state_init
      (replicate 64 1) (replicate 64 2) (replicate 64 0) (replicate 64 0)"
  obtain st1 eu1 ep1 ok where r: "?r = (st1, eu1, ep1, ok)" by (metis prod.exhaust)
  show ?thesis
    unfolding r prod.case
    by (rule credentials_roundtrip [OF aes_state_ok_init aes_state_ok_init _ _ _ _ _ _ _ r]) simp_all
qed

text \<open>Since every card is enciphered with the same key and vector, two credentials with a common
  prefix have ciphertexts with a common prefix of at least the same length: the ciphertext on the
  card shows which users share the beginning of a name or a password.\<close>

theorem common_prefix_shows:
  assumes "aes_state_ok st" "length (random_iv cr) = 16" "length a = 64" "length b = 64"
    and "take k a = take k b" "k \<le> 64"
  shows "take k (fst (snd (enc_cfb cr ctx st MAX_BLOCK_SIZE a out))) =
         take k (fst (snd (enc_cfb cr ctx st MAX_BLOCK_SIZE b out)))"
proof -
  let ?E = "\<lambda>xs. snd (aes_crypt_cfb8 rom_tables (card_ctx cr ctx) AES_ENCRYPT (random_iv cr) xs)"
  have pre: "take k (?E xs) = ?E (take k xs)" if "length xs = 64" for xs
  proof -
    have "?E (take k xs @ drop k xs) = ?E (take k xs) @
        snd (aes_crypt_cfb8 rom_tables (card_ctx cr ctx) AES_ENCRYPT
          (fst (aes_crypt_cfb8 rom_tables (card_ctx cr ctx) AES_ENCRYPT (random_iv cr) (take k xs))) (drop k xs))"
      unfolding aes_crypt_cfb8_def ecb.cfb8_append by (simp add: Let_def split: prod.split)
    moreover have "length (?E (take k xs)) = k"
      using cfb8_lengths [of "random_iv cr"] assms(2,6) that by simp
    ultimately show ?thesis by simp
  qed
  have len: "length (?E xs) = length xs" for xs using cfb8_lengths [of "random_iv cr"] assms(2) by simp
  show ?thesis
    using assms pre [OF assms(3)] pre [OF assms(4)] len
    by (simp add: enc_cfb_def crypt_cfb_ok MAX_BLOCK_SIZE_def)
qed

theorem common_prefix_shows_witness:
  "take 3 (fst (snd (enc_cfb \<lparr>static_key = replicate 16 9, random_iv = replicate 16 4\<rparr> zero_ctx aes_state_init
      MAX_BLOCK_SIZE (replicate 3 7 @ replicate 61 1) []))) =
   take 3 (fst (snd (enc_cfb \<lparr>static_key = replicate 16 9, random_iv = replicate 16 4\<rparr> zero_ctx aes_state_init
      MAX_BLOCK_SIZE (replicate 3 7 @ replicate 61 2) [])))"
  by (rule common_prefix_shows) (simp_all add: aes_state_ok_init)

end
