(* ===== verification/Sha1_Spec.thy ===== *)
theory Sha1_Spec
  imports Prelude
begin

text \<open>
  What the two SHA-1 implementations of the repository (\<open>lib/sha-1.c\<close> and \<open>app/sha1.c\<close>) have to
  compute: FIPS PUB 180-1, with the 80-word message schedule, the padding to a multiple of 64
  bytes and the 160-bit chaining value. \<open>feed\<close> is the same hash as a machine that takes one byte
  at a time, the form both implementations have. The locale \<open>sha1_impl\<close> is their interface.
\<close>

section \<open>FIPS 180-1\<close>

type_synonym sha_regs = "u32 \<times> u32 \<times> u32 \<times> u32 \<times> u32"

definition rotl32 :: "nat \<Rightarrow> u32 \<Rightarrow> u32" where
  "rotl32 n x = push_bit n x OR drop_bit (32 - n) x"

definition be32_at :: "bytes \<Rightarrow> nat \<Rightarrow> u32" where
  "be32_at b i = le32 (b ! (i + 3)) (b ! (i + 2)) (b ! (i + 1)) (b ! i)"

definition be_bytes32 :: "u32 \<Rightarrow> bytes" where
  "be_bytes32 w = [byte_of 3 w, byte_of 2 w, byte_of 1 w, byte_of 0 w]"

definition be_bytes64 :: "u64 \<Rightarrow> bytes" where
  "be_bytes64 w = map (\<lambda>k. ucast (drop_bit (8 * k) w)) [7, 6, 5, 4, 3, 2, 1, 0]"

definition sha_K :: "nat \<Rightarrow> u32" where
  "sha_K t = [0x5a827999, 0x6ed9eba1, 0x8f1bbcdc, 0xca62c1d6] ! (t div 20)"

definition sha_f :: "nat \<Rightarrow> u32 \<Rightarrow> u32 \<Rightarrow> u32 \<Rightarrow> u32" where
  "sha_f t b c d =
     (if t < 20 then (b AND c) OR (NOT b AND d)
      else if t < 40 then b XOR c XOR d
      else if t < 60 then (b AND c) OR (b AND d) OR (c AND d)
      else b XOR c XOR d)"

definition sha_word :: "u32 list \<Rightarrow> nat \<Rightarrow> u32" where
  "sha_word W t = rotl32 1 (W ! (t - 3) XOR W ! (t - 8) XOR W ! (t - 14) XOR W ! (t - 16))"

definition sha_schedule :: "bytes \<Rightarrow> nat \<Rightarrow> u32 list" where
  "sha_schedule M n =
     fold (\<lambda>t W. W @ [sha_word W t]) [16..<n] (map (\<lambda>t. be32_at M (4 * t)) [0..<16])"

definition sha_round :: "u32 \<Rightarrow> nat \<Rightarrow> sha_regs \<Rightarrow> sha_regs" where
  "sha_round w t = (\<lambda>(a, b, c, d, e).
     (rotl32 5 a + sha_f t b c d + e + w + sha_K t, a, rotl32 30 b, c, d))"

definition add_regs :: "u32 list \<Rightarrow> sha_regs \<Rightarrow> u32 list" where
  "add_regs h = (\<lambda>(a, b, c, d, e). [h ! 0 + a, h ! 1 + b, h ! 2 + c, h ! 3 + d, h ! 4 + e])"

definition regs_of :: "u32 list \<Rightarrow> sha_regs" where
  "regs_of h = (h ! 0, h ! 1, h ! 2, h ! 3, h ! 4)"

definition sha_compress :: "u32 list \<Rightarrow> bytes \<Rightarrow> u32 list" where
  "sha_compress h M =
     (let W = sha_schedule M 80
      in add_regs h (fold (\<lambda>t. sha_round (W ! t) t) [0..<80] (regs_of h)))"

definition sha_H0 :: "u32 list" where
  "sha_H0 = [0x67452301, 0xefcdab89, 0x98badcfe, 0x10325476, 0xc3d2e1f0]"

function sha_blocks :: "u32 list \<Rightarrow> bytes \<Rightarrow> u32 list" where
  "sha_blocks h xs =
     (if length xs < 64 then h else sha_blocks (sha_compress h (take 64 xs)) (drop 64 xs))"
  by pat_completeness auto
termination
  by (relation "measure (\<lambda>(h, xs). length xs)") auto

declare sha_blocks.simps [simp del]

definition sha_pad :: "bytes \<Rightarrow> bytes" where
  "sha_pad msg = [0x80] @ replicate ((119 - length msg mod 64) mod 64) 0
     @ be_bytes64 (word_of_nat (8 * length msg))"

definition fips_sha1 :: "bytes \<Rightarrow> u32 list" where
  "fips_sha1 msg = sha_blocks sha_H0 (msg @ sha_pad msg)"

definition digest_bytes :: "u32 list \<Rightarrow> bytes" where
  "digest_bytes h = concat (map be_bytes32 h)"

lemma length_sha_blocks: "length h = 5 \<Longrightarrow> length (sha_blocks h xs) = 5"
proof (induction h xs rule: sha_blocks.induct)
  case (1 h xs)
  have "length (add_regs h r) = 5" for r by (cases r) (simp add: add_regs_def)
  then show ?case using 1 by (subst sha_blocks.simps) (simp add: sha_compress_def Let_def)
qed

lemma length_digest: "length (digest_bytes (fips_sha1 msg)) = 20"
proof -
  have "length (digest_bytes h) = 4 * length h" for h
    by (induction h) (simp_all add: digest_bytes_def be_bytes32_def)
  then show ?thesis by (simp add: fips_sha1_def length_sha_blocks sha_H0_def)
qed

section \<open>The message schedule\<close>

lemma sha_schedule_0: "sha_schedule M 16 = map (\<lambda>t. be32_at M (4 * t)) [0..<16]"
  by (simp add: sha_schedule_def)

lemma sha_schedule_Suc:
  "sha_schedule M (16 + Suc n) = sha_schedule M (16 + n) @ [sha_word (sha_schedule M (16 + n)) (16 + n)]"
proof -
  have "[16..<16 + Suc n] = [16..<16 + n] @ [16 + n]"
    using upt_Suc_append [of 16 "16 + n"] by simp
  then show ?thesis
    unfolding sha_schedule_def by (simp only: fold_append o_def fold_simps id_apply)
qed

lemma length_sha_schedule: "length (sha_schedule M (16 + n)) = 16 + n"
proof (induction n)
  case 0
  then show ?case by (simp add: sha_schedule_0)
next
  case (Suc n)
  then show ?case unfolding sha_schedule_Suc by simp
qed

lemma sha_schedule_prefix:
  "t < 16 + n \<Longrightarrow> sha_schedule M (16 + n + k) ! t = sha_schedule M (16 + n) ! t"
proof (induction k)
  case 0
  then show ?case by simp
next
  case (Suc k)
  then show ?case
    using sha_schedule_Suc [of M "n + k"] length_sha_schedule [of M "n + k"]
    by (simp add: nth_append add.assoc)
qed

lemma sha_schedule_nth:
  assumes "16 \<le> t" "t < 80"
  shows "sha_schedule M 80 ! t = sha_word (sha_schedule M 80) t"
proof -
  define n k where "n = t - 16" and "k = 80 - Suc t"
  with assms have t: "t = 16 + n" "80 = 16 + Suc n + k" by simp_all
  then have eq80: "16 + n + Suc k = 80" by simp
  have "sha_schedule M 80 ! t = sha_schedule M (16 + Suc n) ! t"
    unfolding t(2) by (rule sha_schedule_prefix) (simp add: t)
  also have "\<dots> = sha_word (sha_schedule M (16 + n)) t"
    unfolding sha_schedule_Suc t(1) nth_append length_sha_schedule by simp
  also have "\<dots> = sha_word (sha_schedule M 80) t"
  proof -
    have "sha_schedule M (16 + n) ! j = sha_schedule M 80 ! j" if "j < t" for j
      using sha_schedule_prefix [of j n M "Suc k", unfolded eq80] that t(1) by simp
    then show ?thesis using t(1) by (simp add: sha_word_def)
  qed
  finally show ?thesis .
qed

lemma sha_schedule_first: "t < 16 \<Longrightarrow> sha_schedule M 80 ! t = be32_at M (4 * t)"
  using sha_schedule_prefix [of t 0 M 64] by (simp add: sha_schedule_0)

lemma fold_upt_cong: "(\<And>t. a \<le> t \<Longrightarrow> t < b \<Longrightarrow> f t = g t) \<Longrightarrow> fold f [a..<b] = fold g [a..<b]"
  by (intro ext List.fold_cong) auto

lemma upt_split: "i \<le> j \<Longrightarrow> j \<le> k \<Longrightarrow> [i..<k] = [i..<j] @ [j..<k]"
  using upt_add_eq_append [of i j "k - j"] by simp

lemma pad_zeros:
  assumes "p = (n + 1) mod 64"
  shows "56 < p \<Longrightarrow> (119 - n mod 64) mod 64 = 64 - p + 56"
    and "\<not> 56 < p \<Longrightarrow> (119 - n mod 64) mod 64 = 64 - p - (8 :: nat)"
proof -
  define q where "q = n mod 64"
  have "q < 64" by (simp add: q_def)
  have p: "p = (if q = 63 then 0 else q + 1)"
    unfolding assms q_def using mod_Suc [of n 64] by auto
  show "56 < p \<Longrightarrow> (119 - n mod 64) mod 64 = 64 - p + 56"
    "\<not> 56 < p \<Longrightarrow> (119 - n mod 64) mod 64 = 64 - p - 8"
    unfolding q_def [symmetric] using \<open>q < 64\<close> p by (auto simp: mod_if split: if_splits)
qed

section \<open>One byte at a time\<close>

type_synonym sha_stream = "u32 list \<times> bytes"

definition feed :: "sha_stream \<Rightarrow> u8 \<Rightarrow> sha_stream" where
  "feed = (\<lambda>(h, P) x. if length P < 63 then (h, P @ [x]) else (sha_compress h (P @ [x]), []))"

definition absorbed :: "bytes \<Rightarrow> sha_stream" where
  "absorbed msg = foldl feed (sha_H0, []) msg"

lemma feed_blocks:
  "length P < 64 \<Longrightarrow> fst (foldl feed (h, P) xs) = sha_blocks h (P @ xs)"
proof (induction xs arbitrary: h P)
  case Nil
  then show ?case by (simp add: sha_blocks.simps [of h P])
next
  case (Cons x xs)
  show ?case
  proof (cases "length P < 63")
    case True
    then show ?thesis using Cons.IH [of "P @ [x]" h] by (simp add: feed_def)
  next
    case False
    with Cons.prems have "length P = 63" by simp
    then show ?thesis
      using Cons.IH [of "[]" "sha_compress h (P @ [x])"]
      by (simp add: feed_def sha_blocks.simps [of h "P @ x # xs"])
  qed
qed

lemma fips_absorbed: "fips_sha1 msg = fst (foldl feed (absorbed msg) (sha_pad msg))"
  using feed_blocks [of "[]" sha_H0 "msg @ sha_pad msg"]
  by (simp add: fips_sha1_def absorbed_def)

lemma absorbed_snoc: "absorbed (msg @ [x]) = feed (absorbed msg) x"
  by (simp add: absorbed_def)

lemma absorbed_append: "absorbed (msg @ xs) = foldl feed (absorbed msg) xs"
  by (simp add: absorbed_def)

lemma feed_length:
  "length P < 64 \<Longrightarrow> length (snd (feed (h, P) x)) = (length P + 1) mod 64"
  by (cases "length P = 63") (auto simp: feed_def)

lemma absorbed_length: "length (snd (absorbed msg)) = length msg mod 64"
proof (induction msg rule: rev_induct)
  case Nil
  then show ?case by (simp add: absorbed_def)
next
  case (snoc x msg)
  have "length (snd (absorbed msg)) < 64" using snoc by simp
  then have "length (snd (feed (absorbed msg) x)) = (length (snd (absorbed msg)) + 1) mod 64"
    using feed_length [of "snd (absorbed msg)" "fst (absorbed msg)" x] by simp
  then show ?case using snoc by (simp add: absorbed_snoc mod_Suc_eq)
qed

text \<open>Filling up a block, in the two situations a buffered implementation distinguishes.\<close>

lemma feed_within:
  "length P + length xs < 64 \<Longrightarrow> foldl feed (h, P) xs = (h, P @ xs)"
  by (induction xs arbitrary: P) (auto simp: feed_def)

lemma feed_block:
  assumes "length P + length xs = 64" "xs \<noteq> []"
  shows "foldl feed (h, P) xs = (sha_compress h (P @ xs), [])"
proof -
  obtain ys y where xs: "xs = ys @ [y]" using assms(2) by (metis rev_exhaust)
  then have "foldl feed (h, P) ys = (h, P @ ys)"
    using assms(1) by (intro feed_within) simp
  then show ?thesis using assms(1) by (simp add: xs feed_def)
qed

section \<open>The interface of an implementation\<close>

text \<open>
  \<open>rel s msg\<close>: the context \<open>s\<close> has taken in the message \<open>msg\<close>. \<open>limit\<close> is the longest message,
  in bytes, the implementation accepts.
\<close>

locale sha1_impl =
  fixes rel :: "'s \<Rightarrow> bytes \<Rightarrow> bool"
    and init :: 's
    and input :: "'s \<Rightarrow> bytes \<Rightarrow> 's"
    and result :: "'s \<Rightarrow> u32 list"
    and fits :: "nat \<Rightarrow> bool"
  assumes rel_init: "rel init []"
    and rel_input: "rel s msg \<Longrightarrow> fits (length msg + length xs) \<Longrightarrow> rel (input s xs) (msg @ xs)"
    and rel_result: "rel s msg \<Longrightarrow> fits (length msg) \<Longrightarrow> result s = fips_sha1 msg"
    and fits_mono: "fits n \<Longrightarrow> m \<le> n \<Longrightarrow> fits m"
begin

lemma stream_rel:
  "rel s msg \<Longrightarrow> fits (length msg + length (concat chunks)) \<Longrightarrow>
     rel (foldl input s chunks) (msg @ concat chunks)"
proof (induction chunks arbitrary: s msg)
  case Nil
  then show ?case by simp
next
  case (Cons c cs)
  have "rel (input s c) (msg @ c)"
    using Cons.prems by (intro rel_input) (auto elim: fits_mono)
  then show ?case using Cons.IH [of "input s c" "msg @ c"] Cons.prems by (simp add: add.assoc)
qed

lemma stream:
  "fits (length (concat chunks)) \<Longrightarrow>
     result (foldl input init chunks) = fips_sha1 (concat chunks)"
  using stream_rel [OF rel_init] by (auto intro: rel_result)

lemma one_shot: "fits (length msg) \<Longrightarrow> result (input init msg) = fips_sha1 msg"
  using stream [of "[msg]"] by simp

end

end
