(* ===== verification/Sha1_Lib.thy ===== *)
theory Sha1_Lib
  imports Sha1_Spec
begin

text \<open>
  \<open>lib/sha-1.c\<close>, the hash of the websocket handshake, on a little-endian machine: the
  message schedule is computed in place in the 64-byte message buffer, 16 words at a time.
\<close>

section \<open>The code\<close>

text \<open>
  The union \<open>c\<close> is its 64-bit view (\<open>c.b8[k]\<close> is byte \<open>k\<close> of the little-endian number), the
  union \<open>h\<close> its five words and the union \<open>m\<close> its 64 bytes.
\<close>

record sha1_ctxt =
  ctx_h :: "u32 list"
  ctx_c :: u64
  ctx_m :: bytes
  ctx_count :: u8

definition swap_bytes32 :: "bytes \<Rightarrow> bytes" where
  "swap_bytes32 m = concat (map (\<lambda>i. [m ! (4 * i + 3), m ! (4 * i + 2), m ! (4 * i + 1), m ! (4 * i)]) [0..<16])"

definition words_le :: "bytes \<Rightarrow> u32 list" where
  "words_le m = map (\<lambda>i. le32 (m ! (4 * i)) (m ! (4 * i + 1)) (m ! (4 * i + 2)) (m ! (4 * i + 3))) [0..<16]"

definition sha1_expand :: "nat \<Rightarrow> u32 list \<Rightarrow> u32 list" where
  "sha1_expand s W = W[s := rotl32 1 (W ! ((s + 13) AND 0x0f) XOR W ! ((s + 8) AND 0x0f) XOR
     W ! ((s + 2) AND 0x0f) XOR W ! s)]"

definition F0 :: "u32 \<Rightarrow> u32 \<Rightarrow> u32 \<Rightarrow> u32" where "F0 b c d = (b AND c) OR (NOT b AND d)"
definition F1 :: "u32 \<Rightarrow> u32 \<Rightarrow> u32 \<Rightarrow> u32" where "F1 b c d = (b XOR c) XOR d"
definition F2 :: "u32 \<Rightarrow> u32 \<Rightarrow> u32 \<Rightarrow> u32" where "F2 b c d = (b AND c) OR (b AND d) OR (c AND d)"
definition F3 :: "u32 \<Rightarrow> u32 \<Rightarrow> u32 \<Rightarrow> u32" where "F3 b c d = (b XOR c) XOR d"

definition sha1_mix ::
  "(u32 \<Rightarrow> u32 \<Rightarrow> u32 \<Rightarrow> u32) \<Rightarrow> nat \<Rightarrow> nat \<Rightarrow> sha_regs \<times> u32 list \<Rightarrow> sha_regs \<times> u32 list" where
  "sha1_mix F t s = (\<lambda>((a, b, c, d, e), W).
     (let tmp = rotl32 5 a + F b c d + e + W ! s + sha_K t
      in ((tmp, a, rotl32 30 b, c, d), W)))"

definition sha1_round0 :: "nat \<Rightarrow> sha_regs \<times> u32 list \<Rightarrow> sha_regs \<times> u32 list" where
  "sha1_round0 t = (\<lambda>(r, W).
     (let s = t AND 0x0f; W = (if 16 \<le> t then sha1_expand s W else W)
      in sha1_mix F0 t s (r, W)))"

definition sha1_round ::
  "(u32 \<Rightarrow> u32 \<Rightarrow> u32 \<Rightarrow> u32) \<Rightarrow> nat \<Rightarrow> sha_regs \<times> u32 list \<Rightarrow> sha_regs \<times> u32 list" where
  "sha1_round F t = (\<lambda>(r, W). (let s = t AND 0x0f in sha1_mix F t s (r, sha1_expand s W)))"

definition sha1_step :: "sha1_ctxt \<Rightarrow> sha1_ctxt" where
  "sha1_step ctxt =
     (let W = words_le (swap_bytes32 (ctx_m ctxt));
          h = ctx_h ctxt;
          s = (regs_of h, W);
          s = fold sha1_round0 [0..<20] s;
          s = fold (sha1_round F1) [20..<40] s;
          s = fold (sha1_round F2) [40..<60] s;
          s = fold (sha1_round F3) [60..<80] s
      in ctxt\<lparr>ctx_h := add_regs h (fst s), ctx_m := replicate 64 0\<rparr>)"

definition PUTPAD :: "u8 \<Rightarrow> sha1_ctxt \<Rightarrow> sha1_ctxt" where
  "PUTPAD x ctxt =
     (let ctxt = ctxt\<lparr>ctx_m := (ctx_m ctxt)[unat (ctx_count ctxt mod 64) := x]\<rparr>;
          ctxt = ctxt\<lparr>ctx_count := (ctx_count ctxt + 1) mod 64\<rparr>
      in if ctx_count ctxt mod 64 = 0 then sha1_step ctxt else ctxt)"

definition sha1_init :: sha1_ctxt where
  "sha1_init = \<lparr>ctx_h = [0x67452301, 0xefcdab89, 0x98badcfe, 0x10325476, 0xc3d2e1f0],
     ctx_c = 0, ctx_m = replicate 64 0, ctx_count = 0\<rparr>"

text \<open>\<open>bzero(&m[start], n)\<close> and \<open>memcpy(&m[start], xs, length xs)\<close>.\<close>

definition overwrite :: "bytes \<Rightarrow> nat \<Rightarrow> bytes \<Rightarrow> bytes" where
  "overwrite m start xs = take start m @ xs @ drop (start + length xs) m"

definition c_byte :: "sha1_ctxt \<Rightarrow> nat \<Rightarrow> u8" where
  "c_byte ctxt k = ucast (drop_bit (8 * k) (ctx_c ctxt))"

text \<open>The eight last bytes of the padding, most significant first.\<close>

definition put_length :: "sha1_ctxt \<Rightarrow> sha1_ctxt" where
  "put_length ctxt = fold (\<lambda>k ctxt. PUTPAD (c_byte ctxt k) ctxt) [7, 6, 5, 4, 3, 2, 1, 0] ctxt"

definition sha1_pad :: "sha1_ctxt \<Rightarrow> sha1_ctxt" where
  "sha1_pad ctxt =
     (let ctxt = PUTPAD 0x80 ctxt;
          padstart = unat (ctx_count ctxt mod 64);
          padlen = 64 - padstart;
          (ctxt, padstart, padlen) =
            (if padlen < 8 then
               (let ctxt = ctxt\<lparr>ctx_m := overwrite (ctx_m ctxt) padstart (replicate padlen 0)\<rparr>;
                    ctxt = ctxt\<lparr>ctx_count := (ctx_count ctxt + word_of_nat padlen) mod 64\<rparr>;
                    ctxt = sha1_step ctxt;
                    padstart = unat (ctx_count ctxt mod 64)
                in (ctxt, padstart, 64 - padstart))
             else (ctxt, padstart, padlen));
          ctxt = ctxt\<lparr>ctx_m := overwrite (ctx_m ctxt) padstart (replicate (padlen - 8) 0)\<rparr>;
          ctxt = ctxt\<lparr>ctx_count := (ctx_count ctxt + word_of_nat (padlen - 8)) mod 64\<rparr>
      in put_length ctxt)"

text \<open>The gap is never empty: the buffer position is taken modulo 64.\<close>

lemma unat_mod_64: "unat (c mod 64 :: u8) < 64"
  by (simp add: unat_mod)

function sha1_loop :: "sha1_ctxt \<Rightarrow> bytes \<Rightarrow> sha1_ctxt" where
  "sha1_loop ctxt input =
     (if input = [] then ctxt
      else
        (let gapstart = unat (ctx_count ctxt mod 64);
             gaplen = 64 - gapstart;
             copysiz = (if gaplen < length input then gaplen else length input);
             ctxt = ctxt\<lparr>ctx_m := overwrite (ctx_m ctxt) gapstart (take copysiz input)\<rparr>;
             ctxt = ctxt\<lparr>ctx_count := (ctx_count ctxt + word_of_nat copysiz) mod 64\<rparr>;
             ctxt = ctxt\<lparr>ctx_c := ctx_c ctxt + word_of_nat copysiz * 8\<rparr>;
             ctxt = (if ctx_count ctxt mod 64 = 0 then sha1_step ctxt else ctxt)
         in sha1_loop ctxt (drop copysiz input)))"
  by pat_completeness auto

termination
  by (relation "measure (\<lambda>(ctxt, input). length input)") (use unat_mod_64 in auto)

declare sha1_loop.simps [simp del]

definition sha1_result :: "sha1_ctxt \<Rightarrow> bytes" where
  "sha1_result ctxt = concat (map (\<lambda>h. [byte_of 3 h, byte_of 2 h, byte_of 1 h, byte_of 0 h])
     (ctx_h (sha1_pad ctxt)))"

definition SHA1 :: "bytes \<Rightarrow> bytes" where
  "SHA1 d = sha1_result (sha1_loop sha1_init d)"

section \<open>The message schedule in place\<close>

lemma and_15: "n AND 15 = n mod (16 :: nat)"
  using take_bit_eq_mask [of 4 n] by (simp add: take_bit_eq_mod mask_eq_exp_minus_1)

lemma length_concat4:
  assumes "\<And>i. length (f i) = 4"
  shows "length (concat (map f [0..<n])) = 4 * n"
  by (induction n) (simp_all add: assms)

lemma nth_concat4:
  assumes "\<And>i. length (f i) = 4" "k < 4"
  shows "i < n \<Longrightarrow> concat (map f [0..<n]) ! (4 * i + k) = f i ! k"
proof (induction n)
  case 0
  then show ?case by simp
next
  case (Suc n)
  have app: "concat (map f [0..<Suc n]) = concat (map f [0..<n]) @ f n" by simp
  show ?case
  proof (cases "i = n")
    case True
    then show ?thesis unfolding app by (simp add: nth_append length_concat4 assms)
  next
    case False
    then have "i < n" "4 * i + k < 4 * n" using Suc.prems assms(2) by simp_all
    then show ?thesis unfolding app using Suc.IH by (simp add: nth_append length_concat4 assms)
  qed
qed

lemma words_le_swap:
  "words_le (swap_bytes32 M) = map (\<lambda>t. be32_at M (4 * t)) [0..<16]"
proof -
  let ?f = "\<lambda>i. [M ! (4 * i + 3), M ! (4 * i + 2), M ! (4 * i + 1), M ! (4 * i)]"
  have nth: "swap_bytes32 M ! (4 * i + k) = ?f i ! k" if "i < 16" "k < 4" for i k
    unfolding swap_bytes32_def by (rule nth_concat4) (use that in simp_all)
  show ?thesis
    unfolding words_le_def be32_at_def
  proof (rule map_cong [OF refl])
    fix i :: nat
    assume "i \<in> set [0..<16]"
    then have i: "i < 16" by simp
    from nth [OF i, of 0] nth [OF i, of 1] nth [OF i, of 2] nth [OF i, of 3]
    show "le32 (swap_bytes32 M ! (4 * i)) (swap_bytes32 M ! (4 * i + 1))
        (swap_bytes32 M ! (4 * i + 2)) (swap_bytes32 M ! (4 * i + 3)) =
      le32 (M ! (4 * i + 3)) (M ! (4 * i + 2)) (M ! (4 * i + 1)) (M ! (4 * i))"
      by (simp add: numeral_2_eq_2 numeral_3_eq_3)
  qed
qed

text \<open>Before round \<open>t\<close> the 16 words of the buffer are the last 16 of the schedule computed so far.\<close>

definition rolling :: "u32 list \<Rightarrow> nat \<Rightarrow> u32 list \<Rightarrow> bool" where
  "rolling w t W \<longleftrightarrow> length W = 16 \<and>
     (\<forall>j. j < max t 16 \<and> max t 16 \<le> j + 16 \<longrightarrow> W ! (j mod 16) = w ! j)"

definition lib_round :: "nat \<Rightarrow> sha_regs \<times> u32 list \<Rightarrow> sha_regs \<times> u32 list" where
  "lib_round t =
     (if t < 20 then sha1_round0 t else if t < 40 then sha1_round F1 t
      else if t < 60 then sha1_round F2 t else sha1_round F3 t)"

lemma fold_lib_round:
  "fold (sha1_round F3) [60..<80] (fold (sha1_round F2) [40..<60]
     (fold (sha1_round F1) [20..<40] (fold sha1_round0 [0..<20] s))) = fold lib_round [0..<80] s"
proof -
  have "[0..<80] = [0..<20] @ [20..<40] @ [40..<60] @ [60..<80]"
    using upt_split [of 0 20 80] upt_split [of 20 40 80] upt_split [of 40 60 80] by simp
  moreover have
    "fold sha1_round0 [0..<20] = fold lib_round [0..<20]"
    "fold (sha1_round F1) [20..<40] = fold lib_round [20..<40]"
    "fold (sha1_round F2) [40..<60] = fold lib_round [40..<60]"
    "fold (sha1_round F3) [60..<80] = fold lib_round [60..<80]"
    by (rule fold_upt_cong; simp add: lib_round_def)+
  ultimately show ?thesis by (simp only: fold_append o_def)
qed

lemma sha1_mix_spec:
  assumes "W ! s = w" "\<And>b c d. F b c d = sha_f t b c d"
  shows "sha1_mix F t s (r, W) = (sha_round w t r, W)"
  using assms by (cases r) (simp add: sha1_mix_def sha_round_def)

lemma lib_round_mix:
  "lib_round t (r, W) = sha1_mix (sha_f t) t (t mod 16) (r, if 16 \<le> t then sha1_expand (t mod 16) W else W)"
proof -
  have "F0 = sha_f t" if "t < 20"
    using that by (intro ext) (simp add: sha_f_def F0_def)
  moreover have "F1 = sha_f t" if "20 \<le> t" "t < 40"
    using that by (intro ext) (simp add: sha_f_def F1_def xor.assoc)
  moreover have "F2 = sha_f t" if "40 \<le> t" "t < 60"
    using that by (intro ext) (simp add: sha_f_def F2_def)
  moreover have "F3 = sha_f t" if "60 \<le> t"
    using that by (intro ext) (simp add: sha_f_def F3_def xor.assoc)
  ultimately show ?thesis
    by (simp add: lib_round_def sha1_round0_def sha1_round_def and_15 Let_def)
qed

lemma mod_16_distinct:
  assumes "j < t" "t < j + 16"
  shows "j mod 16 \<noteq> t mod (16 :: nat)"
proof
  assume "j mod 16 = t mod 16"
  then have "16 dvd t - j" using assms(1) by (metis less_imp_le mod_eq_dvd_iff_nat)
  with assms show False by (auto dest: dvd_imp_le)
qed

lemma rolling_expand:
  assumes "rolling (sha_schedule M 80) t W" "16 \<le> t" "t < 80"
  shows "rolling (sha_schedule M 80) (Suc t) (sha1_expand (t mod 16) W)"
    "sha1_expand (t mod 16) W ! (t mod 16) = sha_schedule M 80 ! t"
proof -
  let ?w = "sha_schedule M 80"
  have W: "length W = 16" "\<And>j. j < t \<Longrightarrow> t \<le> j + 16 \<Longrightarrow> W ! (j mod 16) = ?w ! j"
    using assms by (auto simp: rolling_def)
  obtain n where n: "t = 16 + n" using assms(2) le_Suc_ex by blast
  have ix: "(t mod 16 + 13) mod 16 = (t - 3) mod 16" "(t mod 16 + 8) mod 16 = (t - 8) mod 16"
      "(t mod 16 + 2) mod 16 = (t - 14) mod 16" "t mod 16 = (t - 16) mod 16"
    by (simp_all add: n mod_simps add.commute)
  have "W ! ((t mod 16 + 13) mod 16) = ?w ! (t - 3)" "W ! ((t mod 16 + 8) mod 16) = ?w ! (t - 8)"
      "W ! ((t mod 16 + 2) mod 16) = ?w ! (t - 14)" "W ! (t mod 16) = ?w ! (t - 16)"
    unfolding ix(1-3) using W(2) [of "t - 3"] W(2) [of "t - 8"] W(2) [of "t - 14"] W(2) [of "t - 16"]
      assms ix(4) by simp_all
  then have e: "sha1_expand (t mod 16) W = W[t mod 16 := ?w ! t]"
    using assms by (simp add: sha1_expand_def and_15 sha_schedule_nth sha_word_def)
  then show "sha1_expand (t mod 16) W ! (t mod 16) = ?w ! t"
    using W by simp
  have "W[t mod 16 := ?w ! t] ! (j mod 16) = ?w ! j" if "j < Suc t" "Suc t \<le> j + 16" for j
  proof (cases "j = t")
    case True
    then show ?thesis using W by simp
  next
    case False
    then have "j mod 16 \<noteq> t mod 16" using that mod_16_distinct by simp
    then show ?thesis using that False W(2) [of j] by simp
  qed
  then show "rolling ?w (Suc t) (sha1_expand (t mod 16) W)"
    using W assms e by (auto simp: rolling_def max_def)
qed

lemma lib_round_step:
  assumes "rolling (sha_schedule M 80) t W" "t < 80"
  shows "\<exists>W'. lib_round t (r, W) = (sha_round (sha_schedule M 80 ! t) t r, W') \<and>
    rolling (sha_schedule M 80) (Suc t) W'"
proof (cases "16 \<le> t")
  case True
  then show ?thesis
    using rolling_expand [OF assms(1) _ assms(2)] by (simp add: lib_round_mix sha1_mix_spec)
next
  case False
  then have "rolling (sha_schedule M 80) (Suc t) W" "W ! (t mod 16) = sha_schedule M 80 ! t"
    using assms by (auto simp: rolling_def max_def)
  then show ?thesis using False by (simp add: lib_round_mix sha1_mix_spec)
qed

lemma lib_rounds:
  assumes "rolling (sha_schedule M 80) 0 W" "n \<le> 80"
  shows "\<exists>W'. fold lib_round [0..<n] (r, W) =
      (fold (\<lambda>t. sha_round (sha_schedule M 80 ! t) t) [0..<n] r, W') \<and>
    rolling (sha_schedule M 80) n W'"
  using assms(2)
proof (induction n)
  case 0
  then show ?case using assms(1) by simp
next
  case (Suc n)
  then obtain W' where "fold lib_round [0..<n] (r, W) =
      (fold (\<lambda>t. sha_round (sha_schedule M 80 ! t) t) [0..<n] r, W')"
    "rolling (sha_schedule M 80) n W'" by auto
  then show ?case
    using lib_round_step [of M n W'] Suc.prems by simp
qed

lemma sha1_step_compress:
  "sha1_step ctxt = ctxt\<lparr>ctx_h := sha_compress (ctx_h ctxt) (ctx_m ctxt), ctx_m := replicate 64 0\<rparr>"
proof -
  let ?W = "words_le (swap_bytes32 (ctx_m ctxt))"
  have "rolling (sha_schedule (ctx_m ctxt) 80) 0 ?W"
    by (auto simp: rolling_def words_le_swap sha_schedule_first)
  from lib_rounds [OF this, of 80 "regs_of (ctx_h ctxt)"] obtain W' where
    "fold lib_round [0..<80] (regs_of (ctx_h ctxt), ?W) =
      (fold (\<lambda>t. sha_round (sha_schedule (ctx_m ctxt) 80 ! t) t) [0..<80] (regs_of (ctx_h ctxt)), W')"
    by blast
  then show ?thesis
    by (simp only: sha1_step_def sha_compress_def Let_def fold_lib_round fst_conv)
qed

section \<open>The buffer\<close>

text \<open>The context holds the chaining value \<open>h\<close> and, at the front of \<open>m\<close>, an unfinished block \<open>P\<close>.\<close>

definition lib_buf :: "sha1_ctxt \<Rightarrow> sha_stream \<Rightarrow> bool" where
  "lib_buf ctxt = (\<lambda>(h, P). ctx_h ctxt = h \<and> length (ctx_m ctxt) = 64 \<and>
     unat (ctx_count ctxt) = length P \<and> length P < 64 \<and> take (length P) (ctx_m ctxt) = P)"

lemma count_add:
  fixes c :: u8
  shows "unat ((c + word_of_nat n) mod 64) = (unat c + n) mod 64"
proof -
  have "unat ((c + word_of_nat n) mod 64) = (unat c + n) mod 256 mod 64"
    by (simp add: unat_mod unat_word_ariths unsigned_of_nat take_bit_eq_mod mod_simps)
  also have "\<dots> = (unat c + n) mod 64"
    by (rule mod_mod_cancel) simp
  finally show ?thesis .
qed

lemma count_add1: "unat ((c + 1) mod 64 :: u8) = (unat c + 1) mod 64"
  using count_add [of c 1] by simp

lemma count_mod: "unat c < 64 \<Longrightarrow> c mod 64 = (c :: u8)"
  by (simp add: word_unat_eq_iff unat_mod)

lemma mod_64_idem [simp]: "c mod 64 mod 64 = (c mod 64 :: u8)"
  by (rule count_mod) (rule unat_mod_64)

lemma u8_mod_eq_0: "(c mod 64 = (0 :: u8)) \<longleftrightarrow> unat (c mod 64) = 0"
  by (simp add: unat_eq_0)

lemma lib_buf_step:
  "length P = 64 \<Longrightarrow> ctx_m ctxt = P \<Longrightarrow> ctx_h ctxt = h \<Longrightarrow> unat (ctx_count ctxt) = 0 \<Longrightarrow>
     lib_buf (sha1_step ctxt) (sha_compress h P, [])"
  by (simp add: lib_buf_def sha1_step_compress)

lemma take_overwrite:
  "start \<le> length m \<Longrightarrow> take (start + length xs) (overwrite m start xs) = take start m @ xs"
  by (simp add: overwrite_def)

lemma length_overwrite [simp]:
  "start + length xs \<le> length m \<Longrightarrow> length (overwrite m start xs) = length m"
  by (simp add: overwrite_def)

text \<open>Writing at the end of the unfinished block and advancing \<open>count\<close>, as every caller does.\<close>

lemma lib_buf_put:
  assumes "lib_buf ctxt (h, P)" "length P + length xs \<le> 64" "xs \<noteq> []"
    and ctxt': "ctx_h ctxt' = h" "ctx_m ctxt' = overwrite (ctx_m ctxt) (length P) xs"
      "unat (ctx_count ctxt') = (length P + length xs) mod 64"
  shows "lib_buf (if ctx_count ctxt' mod 64 = 0 then sha1_step ctxt' else ctxt') (foldl feed (h, P) xs)"
proof -
  have m: "length (ctx_m ctxt') = 64" "take (length P + length xs) (ctx_m ctxt') = P @ xs"
    using assms by (simp_all add: lib_buf_def take_overwrite)
  have count: "ctx_count ctxt' mod 64 = 0 \<longleftrightarrow> length P + length xs = 64"
    using assms(2,3) unfolding u8_mod_eq_0 unat_mod ctxt'(3) by (cases xs) (auto dest!: dvd_imp_le)
  show ?thesis
  proof (cases "length P + length xs = 64")
    case True
    then show ?thesis
      using assms m count by (simp add: feed_block lib_buf_step)
  next
    case False
    then show ?thesis
      using assms m count by (simp add: feed_within lib_buf_def)
  qed
qed

lemma lib_buf_PUTPAD:
  assumes "lib_buf ctxt s"
  shows "lib_buf (PUTPAD x ctxt) (feed s x)"
proof -
  obtain h P where s: "s = (h, P)" by (cases s)
  have P: "unat (ctx_count ctxt) = length P" "length P < 64" "length (ctx_m ctxt) = 64"
    "ctx_h ctxt = h"
    using assms by (simp_all add: s lib_buf_def)
  let ?c = "ctxt\<lparr>ctx_m := overwrite (ctx_m ctxt) (length P) [x], ctx_count := (ctx_count ctxt + 1) mod 64\<rparr>"
  have "(ctx_m ctxt)[length P := x] = overwrite (ctx_m ctxt) (length P) [x]"
    using P by (simp add: overwrite_def upd_conv_take_nth_drop)
  then have "PUTPAD x ctxt = (if ctx_count ?c mod 64 = 0 then sha1_step ?c else ?c)"
    using P by (simp add: PUTPAD_def Let_def count_mod)
  then show ?thesis
    using lib_buf_put [of ctxt h P "[x]" ?c] assms P by (simp add: s count_add1)
qed

lemma lib_buf_loop:
  "lib_buf ctxt s \<Longrightarrow> lib_buf (sha1_loop ctxt xs) (foldl feed s xs) \<and>
     ctx_c (sha1_loop ctxt xs) = ctx_c ctxt + word_of_nat (8 * length xs)"
proof (induction xs arbitrary: ctxt s rule: length_induct)
  case (1 xs)
  obtain h P where s: "s = (h, P)" by (cases s)
  have P: "unat (ctx_count ctxt) = length P" "length P < 64" "length (ctx_m ctxt) = 64"
    "ctx_h ctxt = h"
    using "1.prems" by (simp_all add: s lib_buf_def)
  show ?case
  proof (cases "xs = []")
    case True
    then show ?thesis using "1.prems" by (simp add: sha1_loop.simps [of ctxt "[]"])
  next
    case False
    define n where "n = (if 64 - length P < length xs then 64 - length P else length xs)"
    have n: "length P + n \<le> 64" "0 < n" "n \<le> length xs"
      using False P by (auto simp: n_def)
    define c where "c = ctxt\<lparr>ctx_m := overwrite (ctx_m ctxt) (length P) (take n xs),
      ctx_count := (ctx_count ctxt + word_of_nat n) mod 64,
      ctx_c := ctx_c ctxt + word_of_nat n * 8\<rparr>"
    define c' where "c' = (if ctx_count c mod 64 = 0 then sha1_step c else c)"
    have loop: "sha1_loop ctxt xs = sha1_loop c' (drop n xs)"
      using False P by (simp add: sha1_loop.simps [of ctxt xs] Let_def count_mod n_def c_def c'_def)
    have "lib_buf c' (foldl feed (h, P) (take n xs))"
      unfolding c'_def
      by (rule lib_buf_put [OF "1.prems" [unfolded s]])
        (use n False P in \<open>simp_all add: c_def min_absorb2 count_add\<close>)
    then have IH: "lib_buf (sha1_loop c' (drop n xs)) (foldl feed (foldl feed (h, P) (take n xs)) (drop n xs))"
        "ctx_c (sha1_loop c' (drop n xs)) = ctx_c c' + word_of_nat (8 * length (drop n xs))"
      using "1.IH" [rule_format, of "drop n xs" c'] n by simp_all
    have "ctx_c c' = ctx_c ctxt + word_of_nat n * 8"
      by (simp add: c'_def c_def sha1_step_compress)
    then have "ctx_c (sha1_loop ctxt xs) = ctx_c ctxt + word_of_nat (8 * (n + (length xs - n)))"
      using IH(2) by (simp add: loop algebra_simps)
    moreover have "foldl feed (foldl feed (h, P) (take n xs)) (drop n xs) = foldl feed s xs"
      by (simp add: s flip: foldl_append)
    ultimately show ?thesis using IH(1) n by (simp add: loop)
  qed
qed

section \<open>Padding and the whole hash\<close>

lemma lib_buf_PUTPADs:
  "lib_buf ctxt s \<Longrightarrow> lib_buf (fold PUTPAD xs ctxt) (foldl feed s xs)"
  by (induction xs arbitrary: ctxt s) (simp_all add: lib_buf_PUTPAD)

lemma ctx_c_PUTPAD [simp]: "ctx_c (PUTPAD x ctxt) = ctx_c ctxt"
  by (simp add: PUTPAD_def Let_def sha1_step_compress)

lemma c_byte_PUTPAD [simp]: "c_byte (PUTPAD x ctxt) = c_byte ctxt"
  by (simp add: c_byte_def fun_eq_iff)

lemma fold_PUTPAD_c_byte:
  "fold (\<lambda>k ctxt. PUTPAD (c_byte ctxt k) ctxt) ks ctxt = fold PUTPAD (map (c_byte ctxt) ks) ctxt"
  by (induction ks arbitrary: ctxt) simp_all

lemma lib_buf_zeros:
  assumes "lib_buf ctxt (h, P)" "length P + n < 64"
  shows "lib_buf (ctxt\<lparr>ctx_m := overwrite (ctx_m ctxt) (length P) (replicate n 0),
      ctx_count := (ctx_count ctxt + word_of_nat n) mod 64\<rparr>) (h, P @ replicate n 0)"
  using assms take_overwrite [of "length P" "ctx_m ctxt" "replicate n 0"]
  by (simp add: lib_buf_def count_add)

lemma lib_buf_full_zeros:
  assumes "lib_buf ctxt (h, P)" "length P + n = 64"
  shows "lib_buf (sha1_step (ctxt\<lparr>ctx_m := overwrite (ctx_m ctxt) (length P) (replicate n 0),
      ctx_count := (ctx_count ctxt + word_of_nat n) mod 64\<rparr>))
    (sha_compress h (P @ replicate n 0), [])"
  using assms by (intro lib_buf_step) (simp_all add: lib_buf_def count_add overwrite_def)

lemma lib_buf_put_length:
  assumes "lib_buf c s" "ctx_c c = w"
  shows "ctx_h (put_length c) = fst (foldl feed s (be_bytes64 w))"
proof -
  have "map (c_byte c) [7, 6, 5, 4, 3, 2, 1, 0] = be_bytes64 w"
    unfolding be_bytes64_def by (intro map_cong refl) (simp only: c_byte_def assms(2))
  then show ?thesis
    unfolding put_length_def fold_PUTPAD_c_byte using lib_buf_PUTPADs [OF assms(1), of "be_bytes64 w"]
    by (auto simp: lib_buf_def split: prod.splits)
qed

lemma lib_sha1_pad:
  assumes "lib_buf ctxt s" "ctx_c ctxt = word_of_nat (8 * length msg)"
    and "length (snd s) = length msg mod 64"
  shows "ctx_h (sha1_pad ctxt) = fst (foldl feed s (sha_pad msg))"
proof -
  define c1 where "c1 = PUTPAD 0x80 ctxt"
  obtain h P where feed1: "feed s 0x80 = (h, P)" by (cases "feed s 0x80")
  have c1: "lib_buf c1 (h, P)" "ctx_c c1 = word_of_nat (8 * length msg)"
    using lib_buf_PUTPAD [OF assms(1), of "0x80"] assms(2) by (simp_all add: c1_def feed1)
  have P: "length P < 64" "unat (ctx_count c1) = length P" "unat (ctx_count c1 mod 64) = length P"
    using c1(1) by (simp_all add: lib_buf_def unat_mod)
  have lenP: "length P = (length msg + 1) mod 64"
    using feed_length [of "snd s" "fst s" "0x80"] assms by (simp add: feed1 mod_simps)
  let ?L = "be_bytes64 (word_of_nat (8 * length msg))"
  show ?thesis
  proof (cases "64 - length P < 8")
    case False
    define n where "n = 64 - length P - 8"
    have n: "(119 - length msg mod 64) mod 64 = n" "length P + n < 64"
      using False P pad_zeros(2) [OF lenP] unfolding n_def by simp_all
    define c2 where "c2 = c1\<lparr>ctx_m := overwrite (ctx_m c1) (length P) (replicate n 0),
      ctx_count := (ctx_count c1 + word_of_nat n) mod 64\<rparr>"
    have c2: "lib_buf c2 (h, P @ replicate n 0)" "ctx_c c2 = word_of_nat (8 * length msg)"
      using lib_buf_zeros [OF c1(1) n(2)] c1(2) by (simp_all add: c2_def)
    have "sha1_pad ctxt = put_length c2"
      using False P by (simp add: sha1_pad_def Let_def n_def c2_def flip: c1_def)
    then show ?thesis
      using lib_buf_put_length [OF c2] n by (simp add: sha_pad_def feed1 feed_within)
  next
    case True
    define n where "n = 64 - length P"
    have n: "(119 - length msg mod 64) mod 64 = n + 56" "length P + n = 64"
      using True P pad_zeros(1) [OF lenP] unfolding n_def by simp_all
    define c2 where "c2 = sha1_step (c1\<lparr>ctx_m := overwrite (ctx_m c1) (length P) (replicate n 0),
      ctx_count := (ctx_count c1 + word_of_nat n) mod 64\<rparr>)"
    have c2: "lib_buf c2 (sha_compress h (P @ replicate n 0), [])"
        "ctx_c c2 = word_of_nat (8 * length msg)"
      using lib_buf_full_zeros [OF c1(1) n(2)] c1(2) by (simp_all add: c2_def sha1_step_compress)
    then have count2: "unat (ctx_count c2 mod 64) = 0"
      by (simp add: lib_buf_def unat_mod)
    define c3 where "c3 = c2\<lparr>ctx_m := overwrite (ctx_m c2) 0 (replicate 56 0),
      ctx_count := (ctx_count c2 + word_of_nat 56) mod 64\<rparr>"
    have c3: "lib_buf c3 (sha_compress h (P @ replicate n 0), replicate 56 0)"
        "ctx_c c3 = word_of_nat (8 * length msg)"
      using lib_buf_zeros [OF c2(1), of 56] c2(2) by (simp_all add: c3_def)
    have "sha1_pad ctxt = put_length c3"
      using True P count2
      by (simp add: sha1_pad_def Let_def n_def c3_def c2_def flip: c1_def)
    moreover have "foldl feed (h, P) (replicate n 0) = (sha_compress h (P @ replicate n 0), [])"
      by (rule feed_block) (use n P in auto)
    moreover have "foldl feed (k, []) (replicate 56 0) = (k, replicate 56 0)" for k
      by (simp add: feed_within)
    ultimately show ?thesis
      using lib_buf_put_length [OF c3] n(1)
      by (simp add: sha_pad_def feed1 replicate_add)
  qed
qed

definition lib_rel :: "sha1_ctxt \<Rightarrow> bytes \<Rightarrow> bool" where
  "lib_rel ctxt msg \<longleftrightarrow> lib_buf ctxt (absorbed msg) \<and> ctx_c ctxt = word_of_nat (8 * length msg)"

text \<open>
  \<open>SHA1\<close> of any message: the 64-bit bit counter may wrap around, the standard only defines
  messages for which it does not, and the specification wraps the same way.
\<close>

interpretation lib: sha1_impl lib_rel sha1_init sha1_loop "\<lambda>ctxt. ctx_h (sha1_pad ctxt)" "\<lambda>_. True"
proof unfold_locales
  show "lib_rel sha1_init []"
    by (simp add: lib_rel_def lib_buf_def absorbed_def sha1_init_def sha_H0_def)
next
  fix s msg xs
  assume "lib_rel s msg"
  then show "lib_rel (sha1_loop s xs) (msg @ xs)"
    using lib_buf_loop [of s "absorbed msg" xs]
    by (simp add: lib_rel_def absorbed_append algebra_simps)
next
  fix s msg
  assume "lib_rel s msg"
  then show "ctx_h (sha1_pad s) = fips_sha1 msg"
    by (simp add: lib_rel_def lib_sha1_pad absorbed_length fips_absorbed)
qed

end
