(* ===== verification/Sha1_App.thy ===== *)
theory Sha1_App
  imports Sha1_Spec
begin

text \<open>
  \<open>app/sha1.c\<close>, the hash of the first version of the desktop program: a message is taken byte
  by byte, the bit length is kept in two 32-bit words, and a context that was finished or has
  overflowed is corrupted by further input.
\<close>

section \<open>The code\<close>

record SHA1Context =
  Message_Digest :: "u32 list"
  Length_Low :: u32
  Length_High :: u32
  Message_Block :: bytes
  Message_Block_Index :: nat
  Computed :: bool
  Corrupted :: bool

definition SHA1CircularShift :: "nat \<Rightarrow> u32 \<Rightarrow> u32" where
  "SHA1CircularShift bits word = (push_bit bits word AND 0xFFFFFFFF) OR drop_bit (32 - bits) word"

text \<open>\<open>SHA1Reset\<close> leaves the bytes of the block as they were.\<close>

definition SHA1Reset :: "SHA1Context \<Rightarrow> SHA1Context" where
  "SHA1Reset ctx = ctx\<lparr>Length_Low := 0, Length_High := 0, Message_Block_Index := 0,
     Message_Digest := [0x67452301, 0xEFCDAB89, 0x98BADCFE, 0x10325476, 0xC3D2E1F0],
     Computed := False, Corrupted := False\<rparr>"

definition load_word :: "bytes \<Rightarrow> nat \<Rightarrow> u32" where
  "load_word M t = push_bit 24 (ucast (M ! (t * 4))) OR push_bit 16 (ucast (M ! (t * 4 + 1))) OR
     push_bit 8 (ucast (M ! (t * 4 + 2))) OR ucast (M ! (t * 4 + 3))"

definition W_load :: "bytes \<Rightarrow> u32 list \<Rightarrow> u32 list" where
  "W_load M W = fold (\<lambda>t W. W[t := load_word M t]) [0..<16] W"

definition W_extend :: "u32 list \<Rightarrow> u32 list" where
  "W_extend W = fold (\<lambda>t W. W[t := SHA1CircularShift 1
     (W ! (t - 3) XOR W ! (t - 8) XOR W ! (t - 14) XOR W ! (t - 16))]) [16..<80] W"

definition app_round :: "(u32 \<Rightarrow> u32 \<Rightarrow> u32 \<Rightarrow> u32) \<Rightarrow> u32 \<Rightarrow> u32 list \<Rightarrow> nat \<Rightarrow> sha_regs \<Rightarrow> sha_regs" where
  "app_round F K W t = (\<lambda>(A, B, C, D, E).
     (let temp = SHA1CircularShift 5 A + F B C D + E + W ! t + K;
          temp = temp AND 0xFFFFFFFF
      in (temp, A, SHA1CircularShift 30 B, C, D)))"

text \<open>\<open>W80\<close> is what the local array \<open>W[80]\<close> held before.\<close>

definition SHA1ProcessMessageBlock :: "u32 list \<Rightarrow> SHA1Context \<Rightarrow> SHA1Context" where
  "SHA1ProcessMessageBlock W80 ctx =
     (let W = W_extend (W_load (Message_Block ctx) W80);
          h = Message_Digest ctx;
          s = (h ! 0, h ! 1, h ! 2, h ! 3, h ! 4);
          s = fold (app_round (\<lambda>B C D. (B AND C) OR (NOT B AND D)) 0x5A827999 W) [0..<20] s;
          s = fold (app_round (\<lambda>B C D. B XOR C XOR D) 0x6ED9EBA1 W) [20..<40] s;
          s = fold (app_round (\<lambda>B C D. (B AND C) OR (B AND D) OR (C AND D)) 0x8F1BBCDC W) [40..<60] s;
          (A, B, C, D, E) = fold (app_round (\<lambda>B C D. B XOR C XOR D) 0xCA62C1D6 W) [60..<80] s
      in ctx\<lparr>Message_Digest := [(h ! 0 + A) AND 0xFFFFFFFF, (h ! 1 + B) AND 0xFFFFFFFF,
           (h ! 2 + C) AND 0xFFFFFFFF, (h ! 3 + D) AND 0xFFFFFFFF, (h ! 4 + E) AND 0xFFFFFFFF],
           Message_Block_Index := 0\<rparr>)"

definition W_junk :: "u32 list" where
  "W_junk = replicate 80 0"

definition store_byte :: "u8 \<Rightarrow> SHA1Context \<Rightarrow> SHA1Context" where
  "store_byte x ctx = ctx\<lparr>Message_Block := (Message_Block ctx)[Message_Block_Index ctx := x],
     Message_Block_Index := Message_Block_Index ctx + 1\<rparr>"

definition input_byte :: "u8 \<Rightarrow> SHA1Context \<Rightarrow> SHA1Context" where
  "input_byte x ctx =
     (let ctx = store_byte (x AND 0xFF) ctx;
          ctx = ctx\<lparr>Length_Low := (Length_Low ctx + 8) AND 0xFFFFFFFF\<rparr>;
          ctx = (if Length_Low ctx = 0 then
                   (let ctx = ctx\<lparr>Length_High := (Length_High ctx + 1) AND 0xFFFFFFFF\<rparr>
                    in if Length_High ctx = 0 then ctx\<lparr>Corrupted := True\<rparr> else ctx)
                 else ctx)
      in if Message_Block_Index ctx = 64 then SHA1ProcessMessageBlock W_junk ctx else ctx)"

fun input_bytes :: "SHA1Context \<Rightarrow> bytes \<Rightarrow> SHA1Context" where
  "input_bytes ctx [] = ctx"
| "input_bytes ctx (x # xs) = (if Corrupted ctx then ctx else input_bytes (input_byte x ctx) xs)"

definition SHA1Input :: "SHA1Context \<Rightarrow> bytes \<Rightarrow> SHA1Context" where
  "SHA1Input ctx message_array =
     (if length message_array = 0 then ctx
      else if Computed ctx \<or> Corrupted ctx then ctx\<lparr>Corrupted := True\<rparr>
      else input_bytes ctx message_array)"

function zero_until :: "nat \<Rightarrow> SHA1Context \<Rightarrow> SHA1Context" where
  "zero_until n ctx =
     (if Message_Block_Index ctx < n then zero_until n (store_byte 0 ctx) else ctx)"
  by pat_completeness auto
termination
  by (relation "measure (\<lambda>(n, ctx). n - Message_Block_Index ctx)") (auto simp: store_byte_def)

declare zero_until.simps [simp del]

definition length_bytes :: "SHA1Context \<Rightarrow> bytes" where
  "length_bytes ctx = map (\<lambda>w. ucast (w AND 0xFF))
     [drop_bit 24 (Length_High ctx), drop_bit 16 (Length_High ctx), drop_bit 8 (Length_High ctx),
      Length_High ctx,
      drop_bit 24 (Length_Low ctx), drop_bit 16 (Length_Low ctx), drop_bit 8 (Length_Low ctx),
      Length_Low ctx]"

definition SHA1PadMessage :: "SHA1Context \<Rightarrow> SHA1Context" where
  "SHA1PadMessage ctx =
     (let ctx = (if Message_Block_Index ctx > 55
                 then zero_until 56 (SHA1ProcessMessageBlock W_junk (zero_until 64 (store_byte 0x80 ctx)))
                 else zero_until 56 (store_byte 0x80 ctx))
      in SHA1ProcessMessageBlock W_junk
           (ctx\<lparr>Message_Block := take 56 (Message_Block ctx) @ length_bytes ctx\<rparr>))"

definition SHA1Result :: "SHA1Context \<Rightarrow> SHA1Context \<times> int" where
  "SHA1Result ctx =
     (if Corrupted ctx then (ctx, 0)
      else if \<not> Computed ctx then ((SHA1PadMessage ctx)\<lparr>Computed := True\<rparr>, 1)
      else (ctx, 1))"

section \<open>A block\<close>

lemma and_full [simp]: "(x :: u32) AND 0xFFFFFFFF = x" "(b :: u8) AND 0xFF = b"
proof -
  have "(0xFFFFFFFF :: u32) = - 1" "(0xFF :: u8) = - 1" by simp_all
  then show "x AND 0xFFFFFFFF = x" "b AND 0xFF = b" by (simp_all only: and.right_neutral)
qed

lemma SHA1CircularShift_rotl: "SHA1CircularShift n w = rotl32 n w"
  by (simp add: SHA1CircularShift_def rotl32_def)

lemma load_word_be32: "load_word M t = be32_at M (4 * t)"
  by (simp add: load_word_def be32_at_def le32_def mult.commute or.commute or.left_commute)

lemma W_load_schedule:
  "length W = 80 \<Longrightarrow> W_load M W = sha_schedule M 16 @ drop 16 W"
  by (simp add: W_load_def fold_list_update load_word_be32 [abs_def] sha_schedule_0)

lemma W_extend_schedule:
  assumes "length W = 80" "n \<le> 64"
  shows "fold (\<lambda>t W. W[t := SHA1CircularShift 1
     (W ! (t - 3) XOR W ! (t - 8) XOR W ! (t - 14) XOR W ! (t - 16))]) [16..<16 + n]
     (sha_schedule M 16 @ drop 16 W) = sha_schedule M (16 + n) @ drop (16 + n) W"
  using assms(2)
proof (induction n)
  case 0
  then show ?case by simp
next
  case (Suc n)
  let ?S = "sha_schedule M (16 + n)"
  have len: "length ?S = 16 + n" by (rule length_sha_schedule)
  have "drop (16 + n) W = W ! (16 + n) # drop (16 + Suc n) W"
    using Cons_nth_drop_Suc [of "16 + n" W] Suc.prems assms(1) by simp
  then have "(?S @ drop (16 + n) W)[16 + n := v] = (?S @ [v]) @ drop (16 + Suc n) W" for v
    using len by (simp add: list_update_append)
  moreover have "[16..<16 + Suc n] = [16..<16 + n] @ [16 + n]"
    using upt_Suc_append [of 16 "16 + n"] by simp
  ultimately show ?case
    using Suc len unfolding sha_schedule_Suc
    by (simp add: SHA1CircularShift_rotl sha_word_def nth_append)
qed

lemma W_schedule:
  assumes "length W = 80"
  shows "W_extend (W_load M W) = sha_schedule M 80"
proof -
  have e: "16 + 64 = (80 :: nat)" by simp
  show ?thesis
    unfolding W_extend_def W_load_schedule [OF assms] W_extend_schedule [OF assms order_refl, unfolded e]
    using assms by simp
qed

lemma app_round_spec:
  "(\<And>b c d. F b c d = sha_f t b c d) \<Longrightarrow> K = sha_K t \<Longrightarrow> app_round F K W t = sha_round (W ! t) t"
  by (rule ext) (auto simp: app_round_def sha_round_def SHA1CircularShift_rotl)

lemma app_rounds:
  "fold (app_round (\<lambda>B C D. B XOR C XOR D) 0xCA62C1D6 W) [60..<80]
     (fold (app_round (\<lambda>B C D. (B AND C) OR (B AND D) OR (C AND D)) 0x8F1BBCDC W) [40..<60]
       (fold (app_round (\<lambda>B C D. B XOR C XOR D) 0x6ED9EBA1 W) [20..<40]
         (fold (app_round (\<lambda>B C D. (B AND C) OR (NOT B AND D)) 0x5A827999 W) [0..<20] s))) =
   fold (\<lambda>t. sha_round (W ! t) t) [0..<80] s"
proof -
  have split: "[0..<80] = [0..<20] @ [20..<40] @ [40..<60] @ [60..<80]"
    using upt_split [of 0 20 80] upt_split [of 20 40 80] upt_split [of 40 60 80] by simp
  have K: "t < 20 \<Longrightarrow> sha_K t = 0x5A827999" "20 \<le> t \<Longrightarrow> t < 40 \<Longrightarrow> sha_K t = 0x6ED9EBA1"
      "40 \<le> t \<Longrightarrow> t < 60 \<Longrightarrow> sha_K t = 0x8F1BBCDC" "60 \<le> t \<Longrightarrow> t < 80 \<Longrightarrow> sha_K t = 0xCA62C1D6" for t
  proof -
    show "t < 20 \<Longrightarrow> sha_K t = 0x5A827999" by (simp add: sha_K_def)
    have "t div 20 = 1" if "20 \<le> t" "t < 40" using that by simp
    then show "20 \<le> t \<Longrightarrow> t < 40 \<Longrightarrow> sha_K t = 0x6ED9EBA1" by (simp add: sha_K_def)
    have "t div 20 = 2" if "40 \<le> t" "t < 60" using that by simp
    then show "40 \<le> t \<Longrightarrow> t < 60 \<Longrightarrow> sha_K t = 0x8F1BBCDC" by (simp add: sha_K_def)
    have "t div 20 = 3" if "60 \<le> t" "t < 80" using that by simp
    then show "60 \<le> t \<Longrightarrow> t < 80 \<Longrightarrow> sha_K t = 0xCA62C1D6" by (simp add: sha_K_def)
  qed
  have
    "fold (app_round (\<lambda>B C D. (B AND C) OR (NOT B AND D)) 0x5A827999 W) [0..<20] =
       fold (\<lambda>t. sha_round (W ! t) t) [0..<20]"
    "fold (app_round (\<lambda>B C D. B XOR C XOR D) 0x6ED9EBA1 W) [20..<40] =
       fold (\<lambda>t. sha_round (W ! t) t) [20..<40]"
    "fold (app_round (\<lambda>B C D. (B AND C) OR (B AND D) OR (C AND D)) 0x8F1BBCDC W) [40..<60] =
       fold (\<lambda>t. sha_round (W ! t) t) [40..<60]"
    "fold (app_round (\<lambda>B C D. B XOR C XOR D) 0xCA62C1D6 W) [60..<80] =
       fold (\<lambda>t. sha_round (W ! t) t) [60..<80]"
    by (rule fold_upt_cong, rule app_round_spec; simp add: K sha_f_def)+
  then show ?thesis unfolding split by (simp only: fold_append o_def)
qed

lemma SHA1ProcessMessageBlock_compress:
  assumes "length W = 80"
  shows "SHA1ProcessMessageBlock W ctx =
    ctx\<lparr>Message_Digest := sha_compress (Message_Digest ctx) (Message_Block ctx), Message_Block_Index := 0\<rparr>"
  unfolding SHA1ProcessMessageBlock_def Let_def app_rounds W_schedule [OF assms] sha_compress_def
    regs_of_def
  by (simp add: add_regs_def split: prod.split)

section \<open>The buffer and the length\<close>

definition app_buf :: "SHA1Context \<Rightarrow> sha_stream \<Rightarrow> bool" where
  "app_buf ctx = (\<lambda>(h, P). Message_Digest ctx = h \<and> length (Message_Block ctx) = 64 \<and>
     Message_Block_Index ctx = length P \<and> length P < 64 \<and> take (length P) (Message_Block ctx) = P)"

definition app_rel :: "SHA1Context \<Rightarrow> bytes \<Rightarrow> bool" where
  "app_rel ctx msg \<longleftrightarrow> app_buf ctx (absorbed msg) \<and>
     Length_Low ctx = word_of_nat (8 * length msg) \<and>
     Length_High ctx = word_of_nat (8 * length msg div 4294967296) \<and>
     \<not> Computed ctx \<and> \<not> Corrupted ctx"

lemma store_byte_buf:
  assumes "app_buf ctx (h, P)"
  shows "app_buf (let ctx = store_byte x ctx in
      if Message_Block_Index ctx = 64 then SHA1ProcessMessageBlock W_junk ctx else ctx) (feed (h, P) x)"
proof -
  have P: "Message_Block_Index ctx = length P" "length P < 64" "length (Message_Block ctx) = 64"
      "Message_Digest ctx = h" "take (length P) (Message_Block ctx) = P"
    using assms by (simp_all add: app_buf_def)
  have blk: "take (Suc (length P)) ((Message_Block ctx)[length P := x]) = P @ [x]"
    using P by (simp add: take_Suc_conv_app_nth)
  show ?thesis
  proof (cases "length P = 63")
    case True
    then have "(Message_Block ctx)[63 := x] = P @ [x]"
      using blk P by simp
    then show ?thesis
      using True P by (simp add: app_buf_def store_byte_def feed_def SHA1ProcessMessageBlock_compress W_junk_def)
  next
    case False
    then show ?thesis using P blk by (simp add: app_buf_def store_byte_def feed_def)
  qed
qed

lemma length_carry:
  "word_of_nat (8 * n) + 8 = (0 :: u32) \<longleftrightarrow> Suc n mod 2 ^ 29 = 0"
  "8 * Suc n div 4294967296 = (if Suc n mod 2 ^ 29 = 0 then 8 * n div 4294967296 + 1 else 8 * n div 4294967296)"
proof -
  have "word_of_nat (8 * n) + 8 = (word_of_nat (8 * Suc n) :: u32)" by simp
  also have "\<dots> = 0 \<longleftrightarrow> 2 ^ 32 dvd 8 * Suc n"
    by (simp only: word_of_nat_eq_0_iff) simp
  also have "\<dots> \<longleftrightarrow> 8 * 2 ^ 29 dvd 8 * Suc n" by simp
  also have "\<dots> \<longleftrightarrow> 2 ^ 29 dvd Suc n" by (simp only: nat_mult_dvd_cancel1 zero_less_numeral)
  finally show "word_of_nat (8 * n) + 8 = (0 :: u32) \<longleftrightarrow> Suc n mod 2 ^ 29 = 0"
    by (simp only: dvd_eq_mod_eq_0)
  have "8 * k div 4294967296 = k div 2 ^ 29" for k :: nat
    using div_mult_mult1 [of 8 k "2 ^ 29"] by simp
  then show "8 * Suc n div 4294967296 = (if Suc n mod 2 ^ 29 = 0 then 8 * n div 4294967296 + 1 else 8 * n div 4294967296)"
    by (simp only: div_Suc) simp
qed

lemma app_rel_byte:
  assumes "app_rel ctx msg" "8 * length (msg @ [x]) < 2 ^ 64"
  shows "app_rel (input_byte x ctx) (msg @ [x])"
proof -
  obtain h P where s: "absorbed msg = (h, P)" by (cases "absorbed msg")
  define n where "n = length msg"
  let ?c = "store_byte x ctx"
  have rel: "app_buf ctx (h, P)" "Length_Low ctx = word_of_nat (8 * n)"
      "Length_High ctx = word_of_nat (8 * n div 4294967296)" "\<not> Computed ctx" "\<not> Corrupted ctx"
    using assms(1) by (simp_all add: app_rel_def s n_def)
  define low high where "low = (word_of_nat (8 * Suc n) :: u32)"
    and "high = (word_of_nat (8 * Suc n div 4294967296) :: u32)"
  have low: "Length_Low ctx + 8 = low" by (simp add: rel low_def)
  have high: "(if low = 0 then Length_High ctx + 1 else Length_High ctx) = high"
    using length_carry [of n] unfolding high_def low [symmetric] rel by (simp del: mult_Suc_right)
  have "8 * Suc n < 2 ^ 32 * 4294967296" using assms(2) by (simp add: n_def)
  then have lt: "8 * Suc n div 4294967296 < 2 ^ 32" by (rule less_mult_imp_div_less)
  have gt: "low = 0 \<Longrightarrow> 0 < 8 * Suc n div 4294967296"
    using length_carry(1) [of n] unfolding length_carry(2) rel(2) [symmetric] low by simp
  have "low = 0 \<Longrightarrow> high \<noteq> 0"
    using nat_dvd_not_less [OF gt lt] unfolding high_def word_of_nat_eq_0_iff by simp
  define c1 where "c1 = ?c\<lparr>Length_Low := low, Length_High := high\<rparr>"
  have "input_byte x ctx = (if Message_Block_Index c1 = 64 then SHA1ProcessMessageBlock W_junk c1 else c1)"
  proof (cases "low = 0")
    case True
    then show ?thesis using \<open>low = 0 \<Longrightarrow> high \<noteq> 0\<close> low high [symmetric]
      by (simp add: input_byte_def Let_def c1_def store_byte_def)
  next
    case False
    then have "c1 = ?c\<lparr>Length_Low := low\<rparr>"
      unfolding c1_def by (intro SHA1Context.equality) (simp_all add: high [symmetric] store_byte_def)
    then show ?thesis using False low
      by (simp add: input_byte_def Let_def store_byte_def)
  qed
  moreover have "app_buf (if Message_Block_Index c1 = 64 then SHA1ProcessMessageBlock W_junk c1 else c1)
      (feed (h, P) x)"
    using store_byte_buf [OF rel(1), of x]
    by (simp add: Let_def app_buf_def c1_def SHA1ProcessMessageBlock_compress W_junk_def split: if_splits prod.splits)
  ultimately show ?thesis
    using rel by (simp add: app_rel_def absorbed_snoc s c1_def store_byte_def low_def high_def n_def
        SHA1ProcessMessageBlock_compress W_junk_def)
qed

lemma app_rel_bytes:
  "app_rel ctx msg \<Longrightarrow> 8 * length (msg @ xs) < 2 ^ 64 \<Longrightarrow> app_rel (input_bytes ctx xs) (msg @ xs)"
proof (induction xs arbitrary: ctx msg)
  case Nil
  then show ?case by simp
next
  case (Cons x xs)
  have "\<not> Corrupted ctx" using Cons.prems by (simp add: app_rel_def)
  moreover have "app_rel (input_byte x ctx) (msg @ [x])"
    using Cons.prems by (intro app_rel_byte) simp_all
  ultimately show ?case using Cons.IH [of "input_byte x ctx" "msg @ [x]"] Cons.prems by simp
qed

section \<open>Padding\<close>

lemma zero_until_spec:
  assumes "Message_Block_Index ctx \<le> n" "n \<le> length (Message_Block ctx)"
  shows "zero_until n ctx = ctx\<lparr>Message_Block := take (Message_Block_Index ctx) (Message_Block ctx)
      @ replicate (n - Message_Block_Index ctx) 0 @ drop n (Message_Block ctx), Message_Block_Index := n\<rparr>"
  using assms
proof (induction "n - Message_Block_Index ctx" arbitrary: ctx)
  case 0
  then show ?case by (simp add: zero_until.simps [of "Message_Block_Index ctx" ctx])
next
  case (Suc k)
  let ?i = "Message_Block_Index ctx" and ?B = "Message_Block ctx"
  have "zero_until n (store_byte 0 ctx) = (store_byte 0 ctx)\<lparr>Message_Block :=
      take (Suc ?i) (?B[?i := 0]) @ replicate (n - Suc ?i) 0 @ drop n ?B, Message_Block_Index := n\<rparr>"
    using Suc by (subst Suc.hyps(1)) (simp_all add: store_byte_def)
  moreover have "take (Suc ?i) (?B[?i := 0]) = take ?i ?B @ [0]"
    using Suc by (simp add: take_Suc_conv_app_nth)
  moreover have "n - ?i = Suc (n - Suc ?i)" using Suc by simp
  ultimately show ?case
    using Suc by (simp add: zero_until.simps [of n ctx] store_byte_def)
qed

lemma word_byte_of_nat:
  assumes "j + 8 \<le> 32"
  shows "(ucast (drop_bit j (word_of_nat N :: u32)) :: u8) = ucast (drop_bit j (word_of_nat N :: u64))"
    and "(ucast (drop_bit j (word_of_nat (N div 4294967296) :: u32)) :: u8) =
      ucast (drop_bit (32 + j) (word_of_nat N :: u64))"
proof -
  have N: "bit (N div 4294967296) i = bit N (32 + i)" for i
    using bit_drop_bit_eq [of 32 N] by (simp add: drop_bit_eq_div fun_eq_iff)
  show "(ucast (drop_bit j (word_of_nat N :: u32)) :: u8) = ucast (drop_bit j (word_of_nat N :: u64))"
    using assms by (intro bit_word_eqI) (auto simp: bit_ucast_iff bit_drop_bit_eq bit_of_nat_iff)
  show "(ucast (drop_bit j (word_of_nat (N div 4294967296) :: u32)) :: u8) =
      ucast (drop_bit (32 + j) (word_of_nat N :: u64))"
    using assms unfolding N
    by (intro bit_word_eqI) (simp only: bit_ucast_iff bit_drop_bit_eq bit_of_nat_iff o_def N, auto simp: add.assoc)
qed

lemma ucast_and_FF: "ucast ((w :: u32) AND 0xFF) = (ucast w :: u8)"
proof -
  have "w AND 0xFF = w AND mask 8" by (simp add: mask_eq_exp_minus_1)
  moreover have "ucast (w AND mask 8) = (ucast w :: u8)"
    by (rule bit_word_eqI) (simp add: bit_ucast_iff bit_and_iff bit_mask_iff del: mask_numeral)
  ultimately show ?thesis by simp
qed

lemma length_bytes_be64:
  assumes "Length_Low ctx = word_of_nat N" "Length_High ctx = word_of_nat (N div 4294967296)"
  shows "length_bytes ctx = be_bytes64 (word_of_nat N)"
proof -
  note lo = word_byte_of_nat(1) [of _ N] and hi = word_byte_of_nat(2) [of _ N]
  have "ucast (drop_bit 0 (word_of_nat N :: u32)) = (ucast (drop_bit 0 (word_of_nat N :: u64)) :: u8)"
    "ucast (drop_bit 0 (word_of_nat (N div 4294967296) :: u32)) = (ucast (drop_bit (32 + 0) (word_of_nat N :: u64)) :: u8)"
    by (rule lo hi, simp)+
  then show ?thesis
    by (simp add: length_bytes_def be_bytes64_def ucast_and_FF assms lo hi)
qed

lemma length_bytes_update [simp]:
  "length_bytes (ctx\<lparr>Message_Block := B\<rparr>) = length_bytes ctx"
  "length_bytes (ctx\<lparr>Message_Block_Index := i\<rparr>) = length_bytes ctx"
  "length_bytes (ctx\<lparr>Message_Digest := d\<rparr>) = length_bytes ctx"
  by (simp_all add: length_bytes_def)

lemma SHA1PadMessage_digest:
  assumes "app_rel ctx msg"
  shows "Message_Digest (SHA1PadMessage ctx) = fips_sha1 msg"
proof -
  obtain h P where s: "absorbed msg = (h, P)" by (cases "absorbed msg")
  let ?L = "be_bytes64 (word_of_nat (8 * length msg))"
  have P: "Message_Block_Index ctx = length P" "length P < 64" "length (Message_Block ctx) = 64"
      "Message_Digest ctx = h" "take (length P) (Message_Block ctx) = P"
    using assms by (simp_all add: app_rel_def app_buf_def s)
  have lenP: "length P = length msg mod 64" using absorbed_length [of msg] by (simp add: s)
  have "Length_Low ctx = word_of_nat (8 * length msg)"
      "Length_High ctx = word_of_nat (8 * length msg div 4294967296)"
    using assms unfolding app_rel_def by blast+
  then have Len: "length_bytes ctx = ?L" "length ?L = 8"
    by (rule length_bytes_be64) (simp add: be_bytes64_def)
  let ?c = "store_byte 0x80 ctx"
  have c: "take (length (P @ [0x80])) (Message_Block ?c) = P @ [0x80]" "length (Message_Block ?c) = 64"
      "Message_Block_Index ?c = length (P @ [0x80])"
    using P by (simp_all add: store_byte_def take_Suc_conv_app_nth)
  show ?thesis
  proof (cases "length P > 55")
    case False
    define z where "z = 56 - length (P @ [0x80])"
    have "zero_until 56 ?c = ?c\<lparr>Message_Block := (P @ [0x80]) @ replicate z 0 @ drop 56 (Message_Block ?c),
        Message_Block_Index := 56\<rparr>"
      using False c unfolding z_def by (subst zero_until_spec) simp_all
    moreover have "56 - length P = Suc (55 - length P)" using False by simp
    ultimately have "Message_Digest (SHA1PadMessage ctx) = sha_compress h (P @ [0x80] @ replicate z 0 @ ?L)"
      using False P Len c
      by (simp add: SHA1PadMessage_def SHA1ProcessMessageBlock_compress W_junk_def z_def
          store_byte_def)
    also have "\<dots> = fst (foldl feed (h, P) ([0x80] @ replicate z 0 @ ?L))"
      using False Len by (subst feed_block) (simp_all add: z_def)
    also have "[0x80] @ replicate z 0 @ ?L = sha_pad msg"
    proof -
      have "119 - length P = 64 + z" "z < 64" using False by (simp_all add: z_def)
      then show ?thesis unfolding sha_pad_def lenP [symmetric] by simp
    qed
    finally show ?thesis by (simp only: fips_absorbed s)
  next
    case True
    define z where "z = 64 - length (P @ [0x80])"
    define k where "k = sha_compress h (P @ [0x80] @ replicate z 0)"
    have "zero_until 64 ?c = ?c\<lparr>Message_Block := P @ [0x80] @ replicate z 0, Message_Block_Index := 64\<rparr>"
      using P c unfolding z_def by (subst zero_until_spec) simp_all
    then have c2: "SHA1ProcessMessageBlock W_junk (zero_until 64 ?c) =
        ?c\<lparr>Message_Block := P @ [0x80] @ replicate z 0, Message_Digest := k, Message_Block_Index := 0\<rparr>"
      using P by (simp add: SHA1ProcessMessageBlock_compress W_junk_def k_def store_byte_def)
    have "zero_until 56 (?c\<lparr>Message_Block := P @ [0x80] @ replicate z 0, Message_Digest := k,
          Message_Block_Index := 0\<rparr>) =
        ?c\<lparr>Message_Block := replicate 56 0 @ drop 56 (P @ [0x80] @ replicate z 0), Message_Digest := k,
          Message_Block_Index := 56\<rparr>"
      using P True by (subst zero_until_spec) (simp_all add: z_def)
    then have "Message_Digest (SHA1PadMessage ctx) = sha_compress k (replicate 56 0 @ ?L)"
      using True P Len c2
      by (simp add: SHA1PadMessage_def SHA1ProcessMessageBlock_compress W_junk_def store_byte_def)
    also have "\<dots> = fst (foldl feed (k, []) (replicate 56 0 @ ?L))"
      using Len by (subst feed_block) simp_all
    also have "(k, []) = foldl feed (h, P) ([0x80] @ replicate z 0)"
      using P by (subst feed_block) (simp_all add: z_def k_def)
    also have "foldl feed \<dots> (replicate 56 0 @ ?L) =
        foldl feed (h, P) ([0x80] @ replicate (z + 56) 0 @ ?L)"
      by (simp add: replicate_add)
    also have "[0x80] @ replicate (z + 56) 0 @ ?L = sha_pad msg"
    proof -
      have "119 - length P = z + 56" "z + 56 < 64" using True P by (simp_all add: z_def)
      then show ?thesis unfolding sha_pad_def lenP [symmetric] by simp
    qed
    finally show ?thesis by (simp only: fips_absorbed s)
  qed
qed

section \<open>Streams and corrupted contexts\<close>

lemma app_rel_reset:
  "length (Message_Block ctx) = 64 \<Longrightarrow> app_rel (SHA1Reset ctx) []"
  by (simp add: app_rel_def app_buf_def absorbed_def SHA1Reset_def sha_H0_def)

lemma app_rel_input:
  "app_rel ctx msg \<Longrightarrow> 8 * (length msg + length xs) < 2 ^ 64 \<Longrightarrow> app_rel (SHA1Input ctx xs) (msg @ xs)"
  using app_rel_bytes [of ctx msg xs] by (auto simp: SHA1Input_def app_rel_def)

lemma app_rel_result:
  "app_rel ctx msg \<Longrightarrow> SHA1Result ctx = ((SHA1PadMessage ctx)\<lparr>Computed := True\<rparr>, 1)"
  by (simp add: SHA1Result_def app_rel_def)

definition fresh_context :: SHA1Context where
  "fresh_context = SHA1Reset \<lparr>Message_Digest = [], Length_Low = 0, Length_High = 0,
     Message_Block = replicate 64 0, Message_Block_Index = 0, Computed = False, Corrupted = False\<rparr>"

interpretation app: sha1_impl app_rel fresh_context SHA1Input
  "\<lambda>ctx. Message_Digest (fst (SHA1Result ctx))" "\<lambda>n. 8 * n < 2 ^ 64"
proof unfold_locales
  show "app_rel fresh_context []"
    unfolding fresh_context_def by (rule app_rel_reset) simp
qed (simp_all add: app_rel_input app_rel_result SHA1PadMessage_digest)

end
