(* ===== verification/Sha1_Properties.thy ===== *)
theory Sha1_Properties
  imports Sha1_Lib Sha1_App
begin

text \<open>
  The two SHA-1 implementations of the repository compute the same function, FIPS 180-1, however
  the message is cut into pieces.
\<close>

lemma sha1_result_digest: "sha1_result ctxt = digest_bytes (ctx_h (sha1_pad ctxt))"
  by (simp add: sha1_result_def digest_bytes_def be_bytes32_def [abs_def])

lemma SHA1_fips: "SHA1 d = digest_bytes (fips_sha1 d)"
  by (simp add: SHA1_def sha1_result_digest lib.one_shot)

text \<open>C17: \<open>SHA1\<close> of \<open>lib/sha-1.c\<close>, with its rolling 16-word schedule and its in-place padding, returns
  the FIPS 180-1 digest of every message.\<close>

theorem lib_sha1_correct: "SHA1 d = digest_bytes (fips_sha1 d)"
  by (rule SHA1_fips)

text \<open>The streaming interface of \<open>lib/sha-1.c\<close> gives the digest of the concatenation, however the
  message is cut into calls of \<open>sha1_loop\<close>.\<close>

theorem lib_sha1_streaming:
  "sha1_result (foldl sha1_loop sha1_init chunks) = SHA1 (concat chunks)"
  by (simp add: SHA1_def sha1_result_digest lib.one_shot lib.stream)

text \<open>C19: the byte-wise implementation of \<open>app/sha1.c\<close>, reset from any context and given the message in
  any pieces, returns 1 and the FIPS 180-1 digest, for every message shorter than 2 to the power of
  64 bits.\<close>

theorem app_sha1_correct:
  assumes "length (Message_Block ctx) = 64" "8 * length (concat chunks) < 2 ^ 64"
  shows "case SHA1Result (foldl SHA1Input (SHA1Reset ctx) chunks) of (ctx', r) \<Rightarrow>
    r = 1 \<and> Computed ctx' \<and> Message_Digest ctx' = fips_sha1 (concat chunks)"
  using app.stream_rel [OF app_rel_reset [OF assms(1)], of chunks] assms(2)
  by (simp add: app_rel_result SHA1PadMessage_digest)

theorem app_sha1_correct_witness:
  "case SHA1Result (foldl SHA1Input (SHA1Reset fresh_context) [[97], [98, 99]]) of (ctx', r) \<Rightarrow>
    r = 1 \<and> Computed ctx' \<and> Message_Digest ctx' = fips_sha1 (concat [[97], [98, 99]])"
  by (rule app_sha1_correct) (simp_all add: fresh_context_def SHA1Reset_def)

text \<open>The two implementations agree on every message both accept.\<close>

theorem sha1_implementations_agree:
  assumes "length (Message_Block ctx) = 64" "8 * length msg < 2 ^ 64"
  shows "SHA1 msg = digest_bytes (Message_Digest (fst (SHA1Result (SHA1Input (SHA1Reset ctx) msg))))"
  using app.stream_rel [OF app_rel_reset [OF assms(1)], of "[msg]"] assms(2)
  by (simp add: app_rel_result SHA1PadMessage_digest SHA1_def sha1_result_digest lib.one_shot)

theorem sha1_implementations_agree_witness:
  "SHA1 [97, 98, 99] =
     digest_bytes (Message_Digest (fst (SHA1Result (SHA1Input (SHA1Reset fresh_context) [97, 98, 99]))))"
  by (rule sha1_implementations_agree) (simp_all add: fresh_context_def SHA1Reset_def)

text \<open>Input after a result corrupts the context of \<open>app/sha1.c\<close>: a finished context refuses it, stays
  corrupted under any further input, keeps its digest and makes \<open>SHA1Result\<close> return 0; an empty
  input changes nothing.\<close>

theorem app_sha1_corrupted:
  "(case SHA1Result ctx of (ctx1, r) \<Rightarrow>
     SHA1Input ctx1 [] = ctx1 \<and>
     (case SHA1Result (foldl SHA1Input ctx1 ((x # xs) # chunks)) of (ctx2, r2) \<Rightarrow>
        r2 = 0 \<and> Corrupted ctx2 \<and> Message_Digest ctx2 = Message_Digest ctx1))"
proof -
  have stay: "Corrupted c \<and> Message_Digest c = d \<Longrightarrow>
      Corrupted (foldl SHA1Input c chunks) \<and> Message_Digest (foldl SHA1Input c chunks) = d" for c d
    by (induction chunks arbitrary: c) (simp_all add: SHA1Input_def)
  obtain ctx1 r where r: "SHA1Result ctx = (ctx1, r)" by fastforce
  then have c1: "Computed ctx1 \<or> Corrupted ctx1"
    by (auto simp: SHA1Result_def split: if_splits)
  then have "Corrupted (SHA1Input ctx1 (x # xs)) \<and>
      Message_Digest (SHA1Input ctx1 (x # xs)) = Message_Digest ctx1"
    by (simp add: SHA1Input_def)
  from stay [OF this] show ?thesis
    by (simp add: r) (simp add: SHA1Result_def SHA1Input_def)
qed

end
