(* ===== verification/Base64.thy ===== *)
theory Base64
  imports Prelude
begin

text \<open>
  \<open>lib/base64-decode.c\<close>: \<open>lws_b64_encode_string\<close>, which encodes the handshake's key and accept
  hash. The file's \<open>decode\<close> table is not used by any code of the repository; the decoder below
  reads it as the original program did (an entry is the sextet plus 62) and is the
  specification the encoder is held against.
\<close>

section \<open>The code\<close>

definition encode :: bytes where
  "encode = ascii ''ABCDEFGHIJKLMNOPQRSTUVWXYZabcdefghijklmnopqrstuvwxyz0123456789+/''"

definition decode :: bytes where
  "decode = ascii (''|$$$}rstuvwxyz{$$$$$$$>?@ABCDEFGHIJKLMNOPQRSTUVW$$$$$$XYZ['' @ [CHR 0x5C] @ '']^_'' @
     [CHR 0x60] @ ''abcdefghijklmnopq'')"

definition eq_char :: u8 where
  "eq_char = 0x3d"

text \<open>The four indices into \<open>encode\<close> a triple is cut into.\<close>

definition index0 :: "u8 \<Rightarrow> u8" where "index0 t0 = drop_bit 2 t0"
definition index1 :: "u8 \<Rightarrow> u8 \<Rightarrow> u8" where
  "index1 t0 t1 = push_bit 4 (t0 AND 0x03) OR drop_bit 4 (t1 AND 0xf0)"
definition index2 :: "u8 \<Rightarrow> u8 \<Rightarrow> u8" where
  "index2 t1 t2 = push_bit 2 (t1 AND 0x0f) OR drop_bit 6 (t2 AND 0xc0)"
definition index3 :: "u8 \<Rightarrow> u8" where "index3 t2 = t2 AND 0x3f"

definition b64_quad :: "u8 \<Rightarrow> u8 \<Rightarrow> u8 \<Rightarrow> nat \<Rightarrow> bytes" where
  "b64_quad t0 t1 t2 len =
     [encode ! unat (index0 t0),
      encode ! unat (index1 t0 t1),
      (if len > 1 then encode ! unat (index2 t1 t2) else eq_char),
      (if len > 2 then encode ! unat (index3 t2) else eq_char)]"

text \<open>
  The bytes written to \<open>out\<close> and the count \<open>done\<close> at the end of the loop, \<open>None\<close> for the early
  return \<open>-1\<close>. \<open>triple\<close> is filled up with zeros.
\<close>

function b64_loop :: "int \<Rightarrow> bytes \<Rightarrow> int \<Rightarrow> bytes \<times> int option" where
  "b64_loop out_size inp n =
     (if inp = [] then ([], Some n)
      else
        (let len = min 3 (length inp);
             triple = take len inp @ replicate (3 - len) 0
         in if n + 4 \<ge> out_size then ([], None)
            else
              (let (out, r) = b64_loop out_size (drop 3 inp) (n + 4)
               in (b64_quad (triple ! 0) (triple ! 1) (triple ! 2) len @ out, r))))"
  by pat_completeness auto
termination
  by (relation "measure (\<lambda>(sz, inp, n). length inp)") auto

declare b64_loop.simps [simp del]

definition lws_b64_encode_string :: "bytes \<Rightarrow> int \<Rightarrow> bytes \<times> int" where
  "lws_b64_encode_string inp out_size =
     (case b64_loop out_size inp 0 of
        (out, None) \<Rightarrow> (out, -1)
      | (out, Some n) \<Rightarrow> if n + 1 \<ge> out_size then (out, -1) else (out @ [0], n))"

section \<open>The decoder\<close>

definition sextet :: "u8 \<Rightarrow> u8 option" where
  "sextet c =
     (if 43 \<le> c \<and> c \<le> 122 \<and> decode ! (unat c - 43) \<noteq> 0x24 then Some (decode ! (unat c - 43) - 62)
      else None)"

definition join1 :: "u8 \<Rightarrow> u8 \<Rightarrow> u8" where "join1 a b = push_bit 2 a OR drop_bit 4 b"
definition join2 :: "u8 \<Rightarrow> u8 \<Rightarrow> u8" where "join2 b c = push_bit 4 b OR drop_bit 2 c"
definition join3 :: "u8 \<Rightarrow> u8 \<Rightarrow> u8" where "join3 c d = push_bit 6 c OR d"

definition unquad :: "u8 \<Rightarrow> u8 \<Rightarrow> u8 \<Rightarrow> u8 \<Rightarrow> bytes option" where
  "unquad c0 c1 c2 c3 =
     (case (sextet c0, sextet c1) of
        (Some a, Some b) \<Rightarrow>
          if c2 = eq_char then (if c3 = eq_char then Some [join1 a b] else None)
          else (case sextet c2 of
              None \<Rightarrow> None
            | Some c \<Rightarrow>
                if c3 = eq_char then Some [join1 a b, join2 b c]
                else (case sextet c3 of None \<Rightarrow> None | Some d \<Rightarrow> Some [join1 a b, join2 b c, join3 c d]))
      | _ \<Rightarrow> None)"

fun b64_decode :: "bytes \<Rightarrow> bytes option" where
  "b64_decode [] = Some []"
| "b64_decode (c0 # c1 # c2 # c3 # cs) =
     (case (unquad c0 c1 c2 c3, b64_decode cs) of (Some x, Some y) \<Rightarrow> Some (x @ y) | _ \<Rightarrow> None)"
| "b64_decode _ = None"

section \<open>The tables\<close>

lemma encode_codes:
  "encode = [65, 66, 67, 68, 69, 70, 71, 72, 73, 74, 75, 76, 77, 78, 79, 80, 81, 82, 83, 84, 85, 86, 87, 88,
    89, 90, 97, 98, 99, 100, 101, 102, 103, 104, 105, 106, 107, 108, 109, 110, 111, 112, 113,
    114, 115, 116, 117, 118, 119, 120, 121, 122, 48, 49, 50, 51, 52, 53, 54, 55, 56, 57, 43, 47]"
  by (simp add: encode_def ascii_def)

lemma decode_codes:
  "decode = [124, 36, 36, 36, 125, 114, 115, 116, 117, 118, 119, 120, 121, 122, 123, 36, 36, 36, 36, 36, 36,
    36, 62, 63, 64, 65, 66, 67, 68, 69, 70, 71, 72, 73, 74, 75, 76, 77, 78, 79, 80, 81, 82, 83,
    84, 85, 86, 87, 36, 36, 36, 36, 36, 36, 88, 89, 90, 91, 92, 93, 94, 95, 96, 97, 98, 99,
    100, 101, 102, 103, 104, 105, 106, 107, 108, 109, 110, 111, 112, 113]"
  by (simp add: decode_def ascii_def)

definition all_64 :: "(nat \<Rightarrow> bool) \<Rightarrow> bool" where
  "all_64 P = list_all P [0..<64]"

lemma all_64_D: "all_64 P \<Longrightarrow> n < 64 \<Longrightarrow> P n"
  by (simp add: all_64_def list_all_iff)

lemma tables_inverse: "n < 64 \<Longrightarrow> sextet (encode ! n) = Some (word_of_nat n) \<and> encode ! n \<noteq> eq_char \<and> encode ! n \<noteq> 0"
  by (rule all_64_D [of "\<lambda>n. sextet (encode ! n) = Some (word_of_nat n) \<and> encode ! n \<noteq> eq_char \<and> encode ! n \<noteq> 0"])
    (simp add: all_64_def upt_conv_Cons encode_codes decode_codes sextet_def eq_char_def)

section \<open>Decoding undoes encoding\<close>

lemma u8_bits_eqI:
  fixes a b :: u8
  assumes "bit a 0 = bit b 0" "bit a 1 = bit b 1" "bit a 2 = bit b 2" "bit a 3 = bit b 3"
    "bit a 4 = bit b 4" "bit a 5 = bit b 5" "bit a 6 = bit b 6" "bit a 7 = bit b 7"
  shows "a = b"
proof (rule bit_word_eqI)
  fix n
  assume "n < LENGTH(8)"
  then have "n = 0 \<or> n = 1 \<or> n = 2 \<or> n = 3 \<or> n = 4 \<or> n = 5 \<or> n = 6 \<or> n = 7" by auto
  then show "bit a n = bit b n" using assms by (elim disjE) simp_all
qed

lemmas bit8_simps = bit_push_bit_iff bit_drop_bit_eq bit_and_iff bit_or_iff bit_take_bit_iff

lemma bit_u8_high [simp]: "8 \<le> n \<Longrightarrow> \<not> bit (x :: u8) n"
  using bit_imp_le_length [of x n] by auto

lemmas index_defs = index0_def index1_def index2_def index3_def

lemma joins [simp]:
  "join1 (index0 t0) (index1 t0 t1) = t0"
  "join2 (index1 t0 t1) (index2 t1 t2) = t1"
  "join3 (index2 t1 t2) (index3 t2) = t2"
  by (rule u8_bits_eqI; simp add: join1_def join2_def join3_def index_defs bit8_simps)+

lemma index_bounds:
  "take_bit 6 (index0 t0) = index0 t0" "take_bit 6 (index1 t0 t1) = index1 t0 t1"
  "take_bit 6 (index2 t1 t2) = index2 t1 t2" "take_bit 6 (index3 t2) = index3 t2"
  by (rule u8_bits_eqI; simp add: index_defs bit8_simps)+

lemma sextet_encode:
  assumes "take_bit 6 x = (x :: u8)"
  shows "sextet (encode ! unat x) = Some x" "encode ! unat x \<noteq> eq_char" "encode ! unat x \<noteq> 0"
proof -
  have "unat x = take_bit 6 (unat x)" by (metis assms unsigned_take_bit_eq)
  then have "unat x < 64" using take_bit_nat_less_exp [of 6 "unat x"] by simp
  from tables_inverse [OF this] show "sextet (encode ! unat x) = Some x"
    "encode ! unat x \<noteq> eq_char" "encode ! unat x \<noteq> 0" by simp_all
qed

lemmas quad_simps = sextet_encode [OF index_bounds(1)] sextet_encode [OF index_bounds(2)]
  sextet_encode [OF index_bounds(3)] sextet_encode [OF index_bounds(4)]

lemma unquad_quad:
  "b64_decode (b64_quad t0 t1 t2 3 @ cs) = map_option (\<lambda>x. [t0, t1, t2] @ x) (b64_decode cs)"
  "b64_decode (b64_quad t0 t1 0 2 @ cs) = map_option (\<lambda>x. [t0, t1] @ x) (b64_decode cs)"
  "b64_decode (b64_quad t0 0 0 1 @ cs) = map_option (\<lambda>x. [t0] @ x) (b64_decode cs)"
  by (simp_all add: b64_quad_def unquad_def quad_simps split: option.split)

text \<open>The three ways the loop takes its input.\<close>

lemma b64_loop_cases:
  obtains "inp = []" | t0 where "inp = [t0]" | t0 t1 where "inp = [t0, t1]"
    | t0 t1 t2 ts where "inp = t0 # t1 # t2 # ts"
  by (metis neq_Nil_conv)

lemma b64_loop_eqs:
  "b64_loop sz [] n = ([], Some n)"
  "b64_loop sz [t0] n = (if n + 4 \<ge> sz then ([], None) else (b64_quad t0 0 0 1, Some (n + 4)))"
  "b64_loop sz [t0, t1] n = (if n + 4 \<ge> sz then ([], None) else (b64_quad t0 t1 0 2, Some (n + 4)))"
  "b64_loop sz (t0 # t1 # t2 # ts) n = (if n + 4 \<ge> sz then ([], None)
     else (b64_quad t0 t1 t2 3 @ fst (b64_loop sz ts (n + 4)), snd (b64_loop sz ts (n + 4))))"
  by (simp_all add: b64_loop.simps [of sz "[]"] b64_loop.simps [of sz "_ # _"] Let_def
      numeral_2_eq_2 numeral_3_eq_3 split: prod.split)

definition b64_length :: "nat \<Rightarrow> nat" where
  "b64_length n = 4 * ((n + 2) div 3)"

lemma b64_length_3: "b64_length (Suc (Suc (Suc n))) = 4 + b64_length n"
  unfolding b64_length_def by presburger

lemma b64_loop_result:
  "snd (b64_loop sz inp n) = (if inp = [] \<or> n + int (b64_length (length inp)) < sz
     then Some (n + int (b64_length (length inp))) else None)"
proof (induction "length inp" arbitrary: inp n rule: less_induct)
  case less
  show ?case
  proof (cases inp rule: b64_loop_cases)
    case (4 t0 t1 t2 ts)
    then have IH: "snd (b64_loop sz ts (n + 4)) =
        (if ts = [] \<or> n + 4 + int (b64_length (length ts)) < sz
         then Some (n + 4 + int (b64_length (length ts))) else None)"
      using less [of ts "n + 4"] by simp
    then show ?thesis by (auto simp: 4 b64_loop_eqs b64_length_3 b64_length_def [of 0])
  qed (simp_all add: b64_loop_eqs b64_length_def)
qed

lemma b64_loop_out:
  "snd (b64_loop sz inp n) = Some m \<Longrightarrow>
     b64_decode (fst (b64_loop sz inp n)) = Some inp \<and>
     length (fst (b64_loop sz inp n)) = b64_length (length inp) \<and> 0 \<notin> set (fst (b64_loop sz inp n))"
proof (induction "length inp" arbitrary: inp n rule: less_induct)
  case less
  have quad: "length (b64_quad t0 t1 t2 len) = 4" "0 \<notin> set (b64_quad t0 t1 t2 len)" for t0 t1 t2 len
    using quad_simps by (auto simp: b64_quad_def eq_char_def)
  show ?case
  proof (cases inp rule: b64_loop_cases)
    case (4 t0 t1 t2 ts)
    then have "b64_decode (fst (b64_loop sz ts (n + 4))) = Some ts \<and>
        length (fst (b64_loop sz ts (n + 4))) = b64_length (length ts) \<and>
        0 \<notin> set (fst (b64_loop sz ts (n + 4)))"
      using less by (auto simp: b64_loop_eqs split: if_splits)
    then show ?thesis
      using less.prems quad by (auto simp: 4 b64_loop_eqs unquad_quad b64_length_3 split: if_splits)
  qed (use less.prems quad unquad_quad [where cs = "[]"] in
      \<open>auto simp: b64_loop_eqs b64_length_def split: if_splits\<close>)
qed

lemma b64_encode_ok:
  "lws_b64_encode_string inp sz = (out, r) \<Longrightarrow>
     (if int (b64_length (length inp)) + 1 < sz
      then r = int (b64_length (length inp)) \<and>
        (\<exists>cs. out = cs @ [0] \<and> length cs = b64_length (length inp) \<and> 0 \<notin> set cs \<and> b64_decode cs = Some inp)
      else r = -1)"
  using b64_loop_result [of sz inp 0] b64_loop_out [of sz inp 0]
  by (cases "b64_loop sz inp 0") (auto simp: lws_b64_encode_string_def b64_length_def split: if_splits)

section \<open>Properties\<close>

text \<open>C20: with a large enough buffer \<open>lws_b64_encode_string\<close> writes a NUL-terminated string without
  inner NULs, of the four characters per started triple it returns as its length, and decoding
  it gives the input back. With a smaller buffer it returns -1; the buffer must hold one byte more
  than the string and its terminator need.\<close>

theorem b64_encode_correct:
  "case lws_b64_encode_string inp out_size of (out, r) \<Rightarrow>
     if int (4 * ((length inp + 2) div 3)) + 2 \<le> out_size
     then r = int (4 * ((length inp + 2) div 3)) \<and>
       (\<exists>cs. out = cs @ [0] \<and> int (length cs) = r \<and> 0 \<notin> set cs \<and> b64_decode cs = Some inp)
     else r = -1"
  using b64_encode_ok [of inp out_size] by (auto simp: b64_length_def split: prod.split)

text \<open>\<open>lws_b64_encode_string\<close> never writes past its buffer, whatever its size.\<close>

theorem b64_encode_bounded:
  "int (length (fst (lws_b64_encode_string inp out_size))) \<le> max 0 out_size"
proof -
  have "int (length (fst (b64_loop out_size inp n))) + n \<le> max n out_size" for n
  proof (induction "length inp" arbitrary: inp n rule: less_induct)
    case less
    show ?case
    proof (cases inp rule: b64_loop_cases)
      case (4 t0 t1 t2 ts)
      then show ?thesis
        using less [of ts "n + 4"] by (auto simp: b64_loop_eqs b64_quad_def)
    qed (auto simp: b64_loop_eqs b64_quad_def)
  qed
  from this [of 0] show ?thesis
    using b64_loop_result [of out_size inp 0] b64_loop_out [of out_size inp 0]
    by (auto simp: lws_b64_encode_string_def split: prod.split option.split if_splits)
qed

end
