(* ===== verification/Lextable.thy ===== *)
theory Lextable
  imports Prelude
begin

text \<open>
  The header name recogniser: the byte table \<open>lextable\<close> of \<open>lib/parsers.c\<close>, the function
  \<open>lextable_decode\<close> that walks it, and \<open>lib/minilex.c\<close>, the program that made the table from the
  list of names: a trie is built one name at a time and written out with relative jumps.
\<close>

section \<open>The table and its walk\<close>

definition lextable :: bytes where
  "lextable =
    [0x47, 0x07, 0x48, 0x0A, 0x43, 0x0F, 0x53, 0x19, 0x55, 0x3F, 0x4F, 0x46, 0x8D, 0x52, 0xC5,
     0x01, 0xD4, 0x01, 0xA0, 0x01, 0x80, 0x00, 0x6F, 0x02, 0xD4, 0x76, 0xF3, 0x01, 0xF4, 0x01,
     0xBA, 0x01, 0x81, 0x00, 0xEF, 0x01, 0xEE, 0x01, 0xEE, 0x01, 0xE5, 0x01, 0xE3, 0x01, 0xF4,
     0x01, 0xE9, 0x01, 0xEF, 0x01, 0xEE, 0x01, 0xBA, 0x01, 0x82, 0x00, 0xE5, 0x01, 0xE3, 0x01,
     0xAD, 0x01, 0xD7, 0x01, 0xE5, 0x01, 0xE2, 0x01, 0xD3, 0x01, 0xEF, 0x01, 0xE3, 0x01, 0xEB,
     0x01, 0xE5, 0x01, 0xF4, 0x01, 0xAD, 0x01, 0x4B, 0x08, 0x50, 0x10, 0x44, 0x27, 0x56, 0x2F,
     0x4F, 0x36, 0x45, 0x3C, 0x41, 0x46, 0xCE, 0x4C, 0xE5, 0x01, 0xF9, 0x01, 0x31, 0x03, 0x32,
     0x04, 0xBA, 0x25, 0xBA, 0x01, 0x83, 0x00, 0xBA, 0x01, 0x84, 0x00, 0xF2, 0x01, 0xEF, 0x01,
     0xF4, 0x01, 0xEF, 0x01, 0xE3, 0x01, 0xEF, 0x01, 0xEC, 0x01, 0xBA, 0x01, 0x85, 0x00, 0xF0,
     0x01, 0xE7, 0x01, 0xF2, 0x01, 0xE1, 0x01, 0xE4, 0x01, 0xE5, 0x01, 0xBA, 0x01, 0x86, 0x00,
     0xF2, 0x01, 0xE9, 0x01, 0xE7, 0x01, 0xE9, 0x01, 0xEE, 0x01, 0xBA, 0x01, 0x87, 0x00, 0xF2,
     0x01, 0xE1, 0x01, 0xE6, 0x01, 0xF4, 0x01, 0xBA, 0x01, 0x88, 0x00, 0x8A, 0x01, 0x89, 0x00,
     0x8A, 0x00, 0xE5, 0x01, 0xF2, 0x01, 0xF3, 0x01, 0xE9, 0x01, 0xEF, 0x01, 0xEE, 0x01, 0xBA,
     0x01, 0x8B, 0x00, 0xF2, 0x01, 0xE9, 0x01, 0xE7, 0x01, 0xE9, 0x01, 0xEE, 0x01, 0xBA, 0x01,
     0x8C, 0x00, 0xF8, 0x01, 0xF4, 0x01, 0xE5, 0x01, 0xEE, 0x01, 0xF3, 0x01, 0xE9, 0x01, 0xEF,
     0x01, 0xEE, 0x01, 0xF3, 0x01, 0xBA, 0x01, 0x8D, 0x00, 0xE3, 0x01, 0xE3, 0x01, 0xE5, 0x01,
     0xF0, 0x01, 0xF4, 0x01, 0xBA, 0x01, 0x8E, 0x00, 0xEF, 0x01, 0xEE, 0x01, 0xE3, 0x01, 0xE5,
     0x01, 0xBA, 0x01, 0x8F, 0x00, 0xD4, 0x01, 0xD0, 0x01, 0xAF, 0x01, 0xB1, 0x01, 0xAE, 0x01,
     0xB1, 0x01, 0xA0, 0x01, 0x90, 0x00]"

text \<open>
  An access outside of the table is \<open>None\<close>. A position is an \<open>int\<close>, \<open>-1\<close> when the name is
  unknown. The argument is the byte the parser passes, as the \<open>char\<close> it is compared as: a byte
  above \<open>0x7f\<close> matches no entry, signed or not.
\<close>

function lextable_decode :: "int \<Rightarrow> u8 \<Rightarrow> int option" where
  "lextable_decode pos c =
     (if pos < 0 then Some pos
      else if length lextable \<le> nat pos + 1 then None
      else if lextable ! (nat pos + 1) = 0 then Some pos
      else if lextable ! nat pos AND 0x7f = c then Some (pos + 2 * uint (lextable ! (nat pos + 1)))
      else if lextable ! nat pos AND 0x80 \<noteq> 0 then Some (-1)
      else lextable_decode (pos + 2) c)"
  by pat_completeness auto
termination
  by (relation "measure (\<lambda>(pos, c). length lextable - nat pos)") auto

declare lextable_decode.simps [simp del]

section \<open>The program that made the table\<close>

definition header_names :: "string list" where
  "header_names = [
     ''GET '', ''Host:'', ''Connection:'', ''Sec-WebSocket-Key1:'', ''Sec-WebSocket-Key2:'',
     ''Sec-WebSocket-Protocol:'', ''Upgrade:'', ''Origin:'', ''Sec-WebSocket-Draft:'', [CHR 0x0d, CHR 0x0a],
     ''Sec-WebSocket-Key:'', ''Sec-WebSocket-Version:'', ''Sec-WebSocket-Origin:'',
     ''Sec-WebSocket-Extensions:'', ''Sec-WebSocket-Accept:'', ''Sec-WebSocket-Nonce:'', ''HTTP/1.1 '']"

text \<open>
  \<open>set\<close> as lists of character codes. A state of the trie is the list of its \<open>count\<close> pairs
  \<open>(c, state)\<close>; the list of states ends where \<open>next\<close> is, the later ones are still empty.
\<close>

definition set_codes :: "nat list list" where
  "set_codes = map (map of_char) header_names"

type_synonym trie = "(nat \<times> nat) list list"

definition trie_char :: "nat \<Rightarrow> trie \<times> nat \<Rightarrow> trie \<times> nat" where
  "trie_char c = (\<lambda>(state, walk).
     (case map_of (state ! walk) c of
        Some s \<Rightarrow> (state, s)
      | None \<Rightarrow> (state[walk := state ! walk @ [(c, length state)]] @ [[]], length state)))"

definition trie_name :: "nat \<times> nat list \<Rightarrow> trie \<Rightarrow> trie" where
  "trie_name = (\<lambda>(n, name) state.
     (let (state, walk) = fold trie_char name (state, 0) in state[walk := [(n, 0)]]))"

definition build_trie :: "nat list list \<Rightarrow> trie" where
  "build_trie names = fold trie_name (zip [0..<length names] names) [[]]"

fun bytepos_from :: "nat \<Rightarrow> trie \<Rightarrow> nat list" where
  "bytepos_from walk [] = []"
| "bytepos_from walk (s # ss) = walk # bytepos_from (walk + 2 * length s) ss"

fun emit_state :: "nat list \<Rightarrow> nat \<Rightarrow> (nat \<times> nat) list \<Rightarrow> nat list option" where
  "emit_state bp walk [] = Some []"
| "emit_state bp walk ((y, saw) # es) =
     (let y = (if es = [] then y OR 0x80 else y) in
      if saw \<noteq> 0 \<and> 0xff < (bp ! saw - walk) div 2 then None
      else map_option (\<lambda>rest. y # (if saw = 0 then 0 else (bp ! saw - walk) div 2) # rest)
             (emit_state bp (walk + 2) es))"

fun emit :: "nat list \<Rightarrow> nat \<Rightarrow> trie \<Rightarrow> nat list option" where
  "emit bp walk [] = Some []"
| "emit bp walk (s # ss) =
     (case emit_state bp walk s of
        None \<Rightarrow> None
      | Some xs \<Rightarrow> map_option (\<lambda>ys. xs @ ys) (emit bp (walk + 2 * length s) ss))"

definition minilex :: "nat list list \<Rightarrow> bytes option" where
  "minilex names =
     (let state = build_trie names
      in map_option (map word_of_nat) (emit (bytepos_from 0 state) 0 state))"

section \<open>The table is what the program makes\<close>

lemma set_codes_eq: "set_codes = [[71, 69, 84, 32], [72, 111, 115, 116, 58], [67, 111, 110, 110, 101, 99, 116, 105, 111, 110,
   58], [83, 101, 99, 45, 87, 101, 98, 83, 111, 99, 107, 101, 116, 45, 75, 101, 121, 49, 58],
   [83, 101, 99, 45, 87, 101, 98, 83, 111, 99, 107, 101, 116, 45, 75, 101, 121, 50, 58], [83,
   101, 99, 45, 87, 101, 98, 83, 111, 99, 107, 101, 116, 45, 80, 114, 111, 116, 111, 99, 111,
   108, 58], [85, 112, 103, 114, 97, 100, 101, 58], [79, 114, 105, 103, 105, 110, 58], [83,
   101, 99, 45, 87, 101, 98, 83, 111, 99, 107, 101, 116, 45, 68, 114, 97, 102, 116, 58], [13,
   10], [83, 101, 99, 45, 87, 101, 98, 83, 111, 99, 107, 101, 116, 45, 75, 101, 121, 58], [83,
   101, 99, 45, 87, 101, 98, 83, 111, 99, 107, 101, 116, 45, 86, 101, 114, 115, 105, 111, 110,
   58], [83, 101, 99, 45, 87, 101, 98, 83, 111, 99, 107, 101, 116, 45, 79, 114, 105, 103, 105,
   110, 58], [83, 101, 99, 45, 87, 101, 98, 83, 111, 99, 107, 101, 116, 45, 69, 120, 116, 101,
   110, 115, 105, 111, 110, 115, 58], [83, 101, 99, 45, 87, 101, 98, 83, 111, 99, 107, 101,
   116, 45, 65, 99, 99, 101, 112, 116, 58], [83, 101, 99, 45, 87, 101, 98, 83, 111, 99, 107,
   101, 116, 45, 78, 111, 110, 99, 101, 58], [72, 84, 84, 80, 47, 49, 46, 49, 32]]"
  by (simp add: set_codes_def header_names_def)

lemma trie_eq: "build_trie set_codes = [[(71, 1), (72, 5), (67, 10), (83, 21), (85, 51), (79, 59), (13, 72)], [(69, 2)], [(84, 3)],
   [(32, 4)], [(0, 0)], [(111, 6), (84, 114)], [(115, 7)], [(116, 8)], [(58, 9)], [(1, 0)],
   [(111, 11)], [(110, 12)], [(110, 13)], [(101, 14)], [(99, 15)], [(116, 16)], [(105, 17)],
   [(111, 18)], [(110, 19)], [(58, 20)], [(2, 0)], [(101, 22)], [(99, 23)], [(45, 24)], [(87,
   25)], [(101, 26)], [(98, 27)], [(83, 28)], [(111, 29)], [(99, 30)], [(107, 31)], [(101,
   32)], [(116, 33)], [(45, 34)], [(75, 35), (80, 42), (68, 66), (86, 75), (79, 83), (69, 90),
   (65, 101), (78, 108)], [(101, 36)], [(121, 37)], [(49, 38), (50, 40), (58, 74)], [(58, 39)],
   [(3, 0)], [(58, 41)], [(4, 0)], [(114, 43)], [(111, 44)], [(116, 45)], [(111, 46)], [(99,
   47)], [(111, 48)], [(108, 49)], [(58, 50)], [(5, 0)], [(112, 52)], [(103, 53)], [(114, 54)],
   [(97, 55)], [(100, 56)], [(101, 57)], [(58, 58)], [(6, 0)], [(114, 60)], [(105, 61)], [(103,
   62)], [(105, 63)], [(110, 64)], [(58, 65)], [(7, 0)], [(114, 67)], [(97, 68)], [(102, 69)],
   [(116, 70)], [(58, 71)], [(8, 0)], [(10, 73)], [(9, 0)], [(10, 0)], [(101, 76)], [(114,
   77)], [(115, 78)], [(105, 79)], [(111, 80)], [(110, 81)], [(58, 82)], [(11, 0)], [(114,
   84)], [(105, 85)], [(103, 86)], [(105, 87)], [(110, 88)], [(58, 89)], [(12, 0)], [(120,
   91)], [(116, 92)], [(101, 93)], [(110, 94)], [(115, 95)], [(105, 96)], [(111, 97)], [(110,
   98)], [(115, 99)], [(58, 100)], [(13, 0)], [(99, 102)], [(99, 103)], [(101, 104)], [(112,
   105)], [(116, 106)], [(58, 107)], [(14, 0)], [(111, 109)], [(110, 110)], [(99, 111)], [(101,
   112)], [(58, 113)], [(15, 0)], [(84, 115)], [(80, 116)], [(47, 117)], [(49, 118)], [(46,
   119)], [(49, 120)], [(32, 121)], [(16, 0)]]"
  unfolding set_codes_eq
  by code_simp

lemma minilex_lextable_eq: "minilex set_codes = Some lextable"
  unfolding minilex_def Let_def trie_eq lextable_def by simp

section \<open>The walk, state by state\<close>

lemma length_lextable [simp]: "length lextable = 276"
  by (simp add: lextable_def)

lemma upt_276: "[0..<276] = 0 # 1 # [2..<276]"
  by (simp add: upt_conv_Cons numeral_2_eq_2)

lemmas lextable_nth = nth_table [OF lextable_def, unfolded length_lextable upt_276, simplified]

lemma decode_terminal:
  "0 \<le> pos \<Longrightarrow> nat pos + 1 < 276 \<Longrightarrow> lextable ! (nat pos + 1) = 0 \<Longrightarrow> lextable_decode pos c = Some pos"
  by (simp add: lextable_decode.simps [of pos c])

lemma decode_last:
  assumes "0 \<le> pos" "nat pos + 1 < 276" "lextable ! (nat pos + 1) \<noteq> 0" "lextable ! nat pos AND 0x80 \<noteq> 0"
  shows "lextable_decode pos c = Some (if c = lextable ! nat pos AND 0x7f
    then pos + 2 * uint (lextable ! (nat pos + 1)) else -1)"
  using assms by (simp add: lextable_decode.simps [of pos c])

lemma decode_more:
  assumes "0 \<le> pos" "nat pos + 1 < 276" "lextable ! (nat pos + 1) \<noteq> 0" "lextable ! nat pos AND 0x80 = 0"
  shows "lextable_decode pos c = (if c = lextable ! nat pos AND 0x7f
    then Some (pos + 2 * uint (lextable ! (nat pos + 1))) else lextable_decode (pos + 2) c)"
  using assms by (simp add: lextable_decode.simps [of pos c])

lemma decode_eqs_last:
  "lextable_decode 12 c = Some (if c = 0xD then 176 else -1)"
  "lextable_decode 14 c = Some (if c = 0x45 then 16 else -1)"
  "lextable_decode 16 c = Some (if c = 0x54 then 18 else -1)"
  "lextable_decode 18 c = Some (if c = 0x20 then 20 else -1)"
  "lextable_decode 24 c = Some (if c = 0x54 then 260 else -1)"
  "lextable_decode 26 c = Some (if c = 0x73 then 28 else -1)"
  "lextable_decode 28 c = Some (if c = 0x74 then 30 else -1)"
  "lextable_decode 30 c = Some (if c = 0x3A then 32 else -1)"
  "lextable_decode 34 c = Some (if c = 0x6F then 36 else -1)"
  "lextable_decode 36 c = Some (if c = 0x6E then 38 else -1)"
  "lextable_decode 38 c = Some (if c = 0x6E then 40 else -1)"
  "lextable_decode 40 c = Some (if c = 0x65 then 42 else -1)"
  "lextable_decode 42 c = Some (if c = 0x63 then 44 else -1)"
  "lextable_decode 44 c = Some (if c = 0x74 then 46 else -1)"
  "lextable_decode 46 c = Some (if c = 0x69 then 48 else -1)"
  "lextable_decode 48 c = Some (if c = 0x6F then 50 else -1)"
  "lextable_decode 50 c = Some (if c = 0x6E then 52 else -1)"
  "lextable_decode 52 c = Some (if c = 0x3A then 54 else -1)"
  "lextable_decode 56 c = Some (if c = 0x65 then 58 else -1)"
  "lextable_decode 58 c = Some (if c = 0x63 then 60 else -1)"
  "lextable_decode 60 c = Some (if c = 0x2D then 62 else -1)"
  "lextable_decode 62 c = Some (if c = 0x57 then 64 else -1)"
  "lextable_decode 64 c = Some (if c = 0x65 then 66 else -1)"
  "lextable_decode 66 c = Some (if c = 0x62 then 68 else -1)"
  "lextable_decode 68 c = Some (if c = 0x53 then 70 else -1)"
  "lextable_decode 70 c = Some (if c = 0x6F then 72 else -1)"
  "lextable_decode 72 c = Some (if c = 0x63 then 74 else -1)"
  "lextable_decode 74 c = Some (if c = 0x6B then 76 else -1)"
  "lextable_decode 76 c = Some (if c = 0x65 then 78 else -1)"
  "lextable_decode 78 c = Some (if c = 0x74 then 80 else -1)"
  "lextable_decode 80 c = Some (if c = 0x2D then 82 else -1)"
  "lextable_decode 96 c = Some (if c = 0x4E then 248 else -1)"
  "lextable_decode 98 c = Some (if c = 0x65 then 100 else -1)"
  "lextable_decode 100 c = Some (if c = 0x79 then 102 else -1)"
  "lextable_decode 106 c = Some (if c = 0x3A then 180 else -1)"
  "lextable_decode 108 c = Some (if c = 0x3A then 110 else -1)"
  "lextable_decode 112 c = Some (if c = 0x3A then 114 else -1)"
  "lextable_decode 116 c = Some (if c = 0x72 then 118 else -1)"
  "lextable_decode 118 c = Some (if c = 0x6F then 120 else -1)"
  "lextable_decode 120 c = Some (if c = 0x74 then 122 else -1)"
  "lextable_decode 122 c = Some (if c = 0x6F then 124 else -1)"
  "lextable_decode 124 c = Some (if c = 0x63 then 126 else -1)"
  "lextable_decode 126 c = Some (if c = 0x6F then 128 else -1)"
  "lextable_decode 128 c = Some (if c = 0x6C then 130 else -1)"
  "lextable_decode 130 c = Some (if c = 0x3A then 132 else -1)"
  "lextable_decode 134 c = Some (if c = 0x70 then 136 else -1)"
  "lextable_decode 136 c = Some (if c = 0x67 then 138 else -1)"
  "lextable_decode 138 c = Some (if c = 0x72 then 140 else -1)"
  "lextable_decode 140 c = Some (if c = 0x61 then 142 else -1)"
  "lextable_decode 142 c = Some (if c = 0x64 then 144 else -1)"
  "lextable_decode 144 c = Some (if c = 0x65 then 146 else -1)"
  "lextable_decode 146 c = Some (if c = 0x3A then 148 else -1)"
  "lextable_decode 150 c = Some (if c = 0x72 then 152 else -1)"
  "lextable_decode 152 c = Some (if c = 0x69 then 154 else -1)"
  "lextable_decode 154 c = Some (if c = 0x67 then 156 else -1)"
  "lextable_decode 156 c = Some (if c = 0x69 then 158 else -1)"
  "lextable_decode 158 c = Some (if c = 0x6E then 160 else -1)"
  "lextable_decode 160 c = Some (if c = 0x3A then 162 else -1)"
  "lextable_decode 164 c = Some (if c = 0x72 then 166 else -1)"
  "lextable_decode 166 c = Some (if c = 0x61 then 168 else -1)"
  "lextable_decode 168 c = Some (if c = 0x66 then 170 else -1)"
  "lextable_decode 170 c = Some (if c = 0x74 then 172 else -1)"
  "lextable_decode 172 c = Some (if c = 0x3A then 174 else -1)"
  "lextable_decode 176 c = Some (if c = 0xA then 178 else -1)"
  "lextable_decode 182 c = Some (if c = 0x65 then 184 else -1)"
  "lextable_decode 184 c = Some (if c = 0x72 then 186 else -1)"
  "lextable_decode 186 c = Some (if c = 0x73 then 188 else -1)"
  "lextable_decode 188 c = Some (if c = 0x69 then 190 else -1)"
  "lextable_decode 190 c = Some (if c = 0x6F then 192 else -1)"
  "lextable_decode 192 c = Some (if c = 0x6E then 194 else -1)"
  "lextable_decode 194 c = Some (if c = 0x3A then 196 else -1)"
  "lextable_decode 198 c = Some (if c = 0x72 then 200 else -1)"
  "lextable_decode 200 c = Some (if c = 0x69 then 202 else -1)"
  "lextable_decode 202 c = Some (if c = 0x67 then 204 else -1)"
  "lextable_decode 204 c = Some (if c = 0x69 then 206 else -1)"
  "lextable_decode 206 c = Some (if c = 0x6E then 208 else -1)"
  "lextable_decode 208 c = Some (if c = 0x3A then 210 else -1)"
  "lextable_decode 212 c = Some (if c = 0x78 then 214 else -1)"
  "lextable_decode 214 c = Some (if c = 0x74 then 216 else -1)"
  "lextable_decode 216 c = Some (if c = 0x65 then 218 else -1)"
  "lextable_decode 218 c = Some (if c = 0x6E then 220 else -1)"
  "lextable_decode 220 c = Some (if c = 0x73 then 222 else -1)"
  "lextable_decode 222 c = Some (if c = 0x69 then 224 else -1)"
  "lextable_decode 224 c = Some (if c = 0x6F then 226 else -1)"
  "lextable_decode 226 c = Some (if c = 0x6E then 228 else -1)"
  "lextable_decode 228 c = Some (if c = 0x73 then 230 else -1)"
  "lextable_decode 230 c = Some (if c = 0x3A then 232 else -1)"
  "lextable_decode 234 c = Some (if c = 0x63 then 236 else -1)"
  "lextable_decode 236 c = Some (if c = 0x63 then 238 else -1)"
  "lextable_decode 238 c = Some (if c = 0x65 then 240 else -1)"
  "lextable_decode 240 c = Some (if c = 0x70 then 242 else -1)"
  "lextable_decode 242 c = Some (if c = 0x74 then 244 else -1)"
  "lextable_decode 244 c = Some (if c = 0x3A then 246 else -1)"
  "lextable_decode 248 c = Some (if c = 0x6F then 250 else -1)"
  "lextable_decode 250 c = Some (if c = 0x6E then 252 else -1)"
  "lextable_decode 252 c = Some (if c = 0x63 then 254 else -1)"
  "lextable_decode 254 c = Some (if c = 0x65 then 256 else -1)"
  "lextable_decode 256 c = Some (if c = 0x3A then 258 else -1)"
  "lextable_decode 260 c = Some (if c = 0x54 then 262 else -1)"
  "lextable_decode 262 c = Some (if c = 0x50 then 264 else -1)"
  "lextable_decode 264 c = Some (if c = 0x2F then 266 else -1)"
  "lextable_decode 266 c = Some (if c = 0x31 then 268 else -1)"
  "lextable_decode 268 c = Some (if c = 0x2E then 270 else -1)"
  "lextable_decode 270 c = Some (if c = 0x31 then 272 else -1)"
  "lextable_decode 272 c = Some (if c = 0x20 then 274 else -1)"
  by (simp_all add: decode_last lextable_nth)

lemma decode_eqs_more:
  "lextable_decode 104 c = Some (if c = 0x32 then 112 else if c = 0x3A then 180 else -1)"
  "lextable_decode 102 c = Some (if c = 0x31 then 108 else if c = 0x32 then 112 else if c =
     0x3A then 180 else -1)"
  "lextable_decode 94 c = Some (if c = 0x41 then 234 else if c = 0x4E then 248 else -1)"
  "lextable_decode 92 c = Some (if c = 0x45 then 212 else if c = 0x41 then 234 else if c = 0x4E
     then 248 else -1)"
  "lextable_decode 90 c = Some (if c = 0x4F then 198 else if c = 0x45 then 212 else if c = 0x41
     then 234 else if c = 0x4E then 248 else -1)"
  "lextable_decode 88 c = Some (if c = 0x56 then 182 else if c = 0x4F then 198 else if c = 0x45
     then 212 else if c = 0x41 then 234 else if c = 0x4E then 248 else -1)"
  "lextable_decode 86 c = Some (if c = 0x44 then 164 else if c = 0x56 then 182 else if c = 0x4F
     then 198 else if c = 0x45 then 212 else if c = 0x41 then 234 else if c = 0x4E then 248
     else -1)"
  "lextable_decode 84 c = Some (if c = 0x50 then 116 else if c = 0x44 then 164 else if c = 0x56
     then 182 else if c = 0x4F then 198 else if c = 0x45 then 212 else if c = 0x41 then 234
     else if c = 0x4E then 248 else -1)"
  "lextable_decode 82 c = Some (if c = 0x4B then 98 else if c = 0x50 then 116 else if c = 0x44
     then 164 else if c = 0x56 then 182 else if c = 0x4F then 198 else if c = 0x45 then 212
     else if c = 0x41 then 234 else if c = 0x4E then 248 else -1)"
  "lextable_decode 22 c = Some (if c = 0x6F then 26 else if c = 0x54 then 260 else -1)"
  "lextable_decode 10 c = Some (if c = 0x4F then 150 else if c = 0xD then 176 else -1)"
  "lextable_decode 8 c = Some (if c = 0x55 then 134 else if c = 0x4F then 150 else if c = 0xD
     then 176 else -1)"
  "lextable_decode 6 c = Some (if c = 0x53 then 56 else if c = 0x55 then 134 else if c = 0x4F
     then 150 else if c = 0xD then 176 else -1)"
  "lextable_decode 4 c = Some (if c = 0x43 then 34 else if c = 0x53 then 56 else if c = 0x55
     then 134 else if c = 0x4F then 150 else if c = 0xD then 176 else -1)"
  "lextable_decode 2 c = Some (if c = 0x48 then 22 else if c = 0x43 then 34 else if c = 0x53
     then 56 else if c = 0x55 then 134 else if c = 0x4F then 150 else if c = 0xD then 176 else
     -1)"
  "lextable_decode 0 c = Some (if c = 0x47 then 14 else if c = 0x48 then 22 else if c = 0x43
     then 34 else if c = 0x53 then 56 else if c = 0x55 then 134 else if c = 0x4F then 150 else
     if c = 0xD then 176 else -1)"
  by (simp_all add: decode_more decode_eqs_last lextable_nth)

section \<open>Exactly the header names are recognised\<close>

definition terminal :: "int \<Rightarrow> bool" where
  "terminal q \<longleftrightarrow> lextable ! (nat q + 1) = 0"

definition token_of :: "int \<Rightarrow> nat" where
  "token_of q = unat (lextable ! nat q AND 0x7f)"

text \<open>
  The walk over a whole name, one byte at a time as the parser makes it: \<open>Some n\<close> when the last
  byte, and no earlier one, reaches the terminal entry of token \<open>n\<close>.
\<close>

fun lex_run :: "int \<Rightarrow> bytes \<Rightarrow> nat option" where
  "lex_run pos [] = None"
| "lex_run pos (c # cs) =
     (case lextable_decode pos c of
        None \<Rightarrow> None
      | Some q \<Rightarrow>
          if q < 0 then None
          else if terminal q then (if cs = [] then Some (token_of q) else None)
          else lex_run q cs)"

lemma header_bytes: "map ascii header_names = map (map word_of_nat) set_codes"
  by (simp add: set_codes_eq header_names_def ascii_def)

lemma lex_run_Cons:
  "lextable_decode pos c = Some q \<Longrightarrow>
     lex_run pos (c # cs) = Some n \<longleftrightarrow>
       0 \<le> q \<and> (if terminal q then cs = [] \<and> n = token_of q else lex_run q cs = Some n)"
  by auto

lemma terminal_entries:
  "terminal 20" "token_of 20 = 0"
  "terminal 32" "token_of 32 = 1"
  "terminal 54" "token_of 54 = 2"
  "terminal 110" "token_of 110 = 3"
  "terminal 114" "token_of 114 = 4"
  "terminal 132" "token_of 132 = 5"
  "terminal 148" "token_of 148 = 6"
  "terminal 162" "token_of 162 = 7"
  "terminal 174" "token_of 174 = 8"
  "terminal 178" "token_of 178 = 9"
  "terminal 180" "token_of 180 = 10"
  "terminal 196" "token_of 196 = 11"
  "terminal 210" "token_of 210 = 12"
  "terminal 232" "token_of 232 = 13"
  "terminal 246" "token_of 246 = 14"
  "terminal 258" "token_of 258 = 15"
  "terminal 274" "token_of 274 = 16"
  by (simp_all add: terminal_def token_of_def lextable_nth)

lemma other_entries:
  "\<not> terminal 14" "\<not> terminal 16" "\<not> terminal 18" "\<not> terminal 22" "\<not>
  terminal 26" "\<not> terminal 28" "\<not> terminal 30" "\<not> terminal 34" "\<not> terminal
  36" "\<not> terminal 38" "\<not> terminal 40" "\<not> terminal 42" "\<not> terminal 44"
  "\<not> terminal 46" "\<not> terminal 48" "\<not> terminal 50" "\<not> terminal 52" "\<not>
  terminal 56" "\<not> terminal 58" "\<not> terminal 60" "\<not> terminal 62" "\<not> terminal
  64" "\<not> terminal 66" "\<not> terminal 68" "\<not> terminal 70" "\<not> terminal 72"
  "\<not> terminal 74" "\<not> terminal 76" "\<not> terminal 78" "\<not> terminal 80" "\<not>
  terminal 82" "\<not> terminal 98" "\<not> terminal 100" "\<not> terminal 102" "\<not>
  terminal 108" "\<not> terminal 112" "\<not> terminal 116" "\<not> terminal 118" "\<not>
  terminal 120" "\<not> terminal 122" "\<not> terminal 124" "\<not> terminal 126" "\<not>
  terminal 128" "\<not> terminal 130" "\<not> terminal 134" "\<not> terminal 136" "\<not>
  terminal 138" "\<not> terminal 140" "\<not> terminal 142" "\<not> terminal 144" "\<not>
  terminal 146" "\<not> terminal 150" "\<not> terminal 152" "\<not> terminal 154" "\<not>
  terminal 156" "\<not> terminal 158" "\<not> terminal 160" "\<not> terminal 164" "\<not>
  terminal 166" "\<not> terminal 168" "\<not> terminal 170" "\<not> terminal 172" "\<not>
  terminal 176" "\<not> terminal 182" "\<not> terminal 184" "\<not> terminal 186" "\<not>
  terminal 188" "\<not> terminal 190" "\<not> terminal 192" "\<not> terminal 194" "\<not>
  terminal 198" "\<not> terminal 200" "\<not> terminal 202" "\<not> terminal 204" "\<not>
  terminal 206" "\<not> terminal 208" "\<not> terminal 212" "\<not> terminal 214" "\<not>
  terminal 216" "\<not> terminal 218" "\<not> terminal 220" "\<not> terminal 222" "\<not>
  terminal 224" "\<not> terminal 226" "\<not> terminal 228" "\<not> terminal 230" "\<not>
  terminal 234" "\<not> terminal 236" "\<not> terminal 238" "\<not> terminal 240" "\<not>
  terminal 242" "\<not> terminal 244" "\<not> terminal 248" "\<not> terminal 250" "\<not>
  terminal 252" "\<not> terminal 254" "\<not> terminal 256" "\<not> terminal 260" "\<not>
  terminal 262" "\<not> terminal 264" "\<not> terminal 266" "\<not> terminal 268" "\<not>
  terminal 270" "\<not> terminal 272"
  by (simp_all add: terminal_def lextable_nth)

text \<open>What the walk accepts from each state, one equation per state of the trie.\<close>

lemma lex_run_eqs:
  "lex_run 0 s = Some n \<longleftrightarrow> (\<exists>t. s = 0x47 # t \<and> lex_run 14 t =
     Some n) \<or> (\<exists>t. s = 0x48 # t \<and> lex_run 22 t = Some n) \<or> (\<exists>t. s
     = 0x43 # t \<and> lex_run 34 t = Some n) \<or> (\<exists>t. s = 0x53 # t \<and> lex_run 56
     t = Some n) \<or> (\<exists>t. s = 0x55 # t \<and> lex_run 134 t = Some n) \<or>
     (\<exists>t. s = 0x4F # t \<and> lex_run 150 t = Some n) \<or> (\<exists>t. s = 0xD # t
     \<and> lex_run 176 t = Some n)"
  "lex_run 14 s = Some n \<longleftrightarrow> (\<exists>t. s = 0x45 # t \<and> lex_run 16 t =
     Some n)"
  "lex_run 16 s = Some n \<longleftrightarrow> (\<exists>t. s = 0x54 # t \<and> lex_run 18 t =
     Some n)"
  "lex_run 18 s = Some n \<longleftrightarrow> s = [0x20] \<and> n = 0"
  "lex_run 22 s = Some n \<longleftrightarrow> (\<exists>t. s = 0x6F # t \<and> lex_run 26 t =
     Some n) \<or> (\<exists>t. s = 0x54 # t \<and> lex_run 260 t = Some n)"
  "lex_run 26 s = Some n \<longleftrightarrow> (\<exists>t. s = 0x73 # t \<and> lex_run 28 t =
     Some n)"
  "lex_run 28 s = Some n \<longleftrightarrow> (\<exists>t. s = 0x74 # t \<and> lex_run 30 t =
     Some n)"
  "lex_run 30 s = Some n \<longleftrightarrow> s = [0x3A] \<and> n = 1"
  "lex_run 34 s = Some n \<longleftrightarrow> (\<exists>t. s = 0x6F # t \<and> lex_run 36 t =
     Some n)"
  "lex_run 36 s = Some n \<longleftrightarrow> (\<exists>t. s = 0x6E # t \<and> lex_run 38 t =
     Some n)"
  "lex_run 38 s = Some n \<longleftrightarrow> (\<exists>t. s = 0x6E # t \<and> lex_run 40 t =
     Some n)"
  "lex_run 40 s = Some n \<longleftrightarrow> (\<exists>t. s = 0x65 # t \<and> lex_run 42 t =
     Some n)"
  "lex_run 42 s = Some n \<longleftrightarrow> (\<exists>t. s = 0x63 # t \<and> lex_run 44 t =
     Some n)"
  "lex_run 44 s = Some n \<longleftrightarrow> (\<exists>t. s = 0x74 # t \<and> lex_run 46 t =
     Some n)"
  "lex_run 46 s = Some n \<longleftrightarrow> (\<exists>t. s = 0x69 # t \<and> lex_run 48 t =
     Some n)"
  "lex_run 48 s = Some n \<longleftrightarrow> (\<exists>t. s = 0x6F # t \<and> lex_run 50 t =
     Some n)"
  "lex_run 50 s = Some n \<longleftrightarrow> (\<exists>t. s = 0x6E # t \<and> lex_run 52 t =
     Some n)"
  "lex_run 52 s = Some n \<longleftrightarrow> s = [0x3A] \<and> n = 2"
  "lex_run 56 s = Some n \<longleftrightarrow> (\<exists>t. s = 0x65 # t \<and> lex_run 58 t =
     Some n)"
  "lex_run 58 s = Some n \<longleftrightarrow> (\<exists>t. s = 0x63 # t \<and> lex_run 60 t =
     Some n)"
  "lex_run 60 s = Some n \<longleftrightarrow> (\<exists>t. s = 0x2D # t \<and> lex_run 62 t =
     Some n)"
  "lex_run 62 s = Some n \<longleftrightarrow> (\<exists>t. s = 0x57 # t \<and> lex_run 64 t =
     Some n)"
  "lex_run 64 s = Some n \<longleftrightarrow> (\<exists>t. s = 0x65 # t \<and> lex_run 66 t =
     Some n)"
  "lex_run 66 s = Some n \<longleftrightarrow> (\<exists>t. s = 0x62 # t \<and> lex_run 68 t =
     Some n)"
  "lex_run 68 s = Some n \<longleftrightarrow> (\<exists>t. s = 0x53 # t \<and> lex_run 70 t =
     Some n)"
  "lex_run 70 s = Some n \<longleftrightarrow> (\<exists>t. s = 0x6F # t \<and> lex_run 72 t =
     Some n)"
  "lex_run 72 s = Some n \<longleftrightarrow> (\<exists>t. s = 0x63 # t \<and> lex_run 74 t =
     Some n)"
  "lex_run 74 s = Some n \<longleftrightarrow> (\<exists>t. s = 0x6B # t \<and> lex_run 76 t =
     Some n)"
  "lex_run 76 s = Some n \<longleftrightarrow> (\<exists>t. s = 0x65 # t \<and> lex_run 78 t =
     Some n)"
  "lex_run 78 s = Some n \<longleftrightarrow> (\<exists>t. s = 0x74 # t \<and> lex_run 80 t =
     Some n)"
  "lex_run 80 s = Some n \<longleftrightarrow> (\<exists>t. s = 0x2D # t \<and> lex_run 82 t =
     Some n)"
  "lex_run 82 s = Some n \<longleftrightarrow> (\<exists>t. s = 0x4B # t \<and> lex_run 98 t =
     Some n) \<or> (\<exists>t. s = 0x50 # t \<and> lex_run 116 t = Some n) \<or> (\<exists>t.
     s = 0x44 # t \<and> lex_run 164 t = Some n) \<or> (\<exists>t. s = 0x56 # t \<and> lex_run
     182 t = Some n) \<or> (\<exists>t. s = 0x4F # t \<and> lex_run 198 t = Some n) \<or>
     (\<exists>t. s = 0x45 # t \<and> lex_run 212 t = Some n) \<or> (\<exists>t. s = 0x41 # t
     \<and> lex_run 234 t = Some n) \<or> (\<exists>t. s = 0x4E # t \<and> lex_run 248 t = Some
     n)"
  "lex_run 98 s = Some n \<longleftrightarrow> (\<exists>t. s = 0x65 # t \<and> lex_run 100 t =
     Some n)"
  "lex_run 100 s = Some n \<longleftrightarrow> (\<exists>t. s = 0x79 # t \<and> lex_run 102 t
     = Some n)"
  "lex_run 102 s = Some n \<longleftrightarrow> (\<exists>t. s = 0x31 # t \<and> lex_run 108 t
     = Some n) \<or> (\<exists>t. s = 0x32 # t \<and> lex_run 112 t = Some n) \<or> s = [0x3A]
     \<and> n = 10"
  "lex_run 108 s = Some n \<longleftrightarrow> s = [0x3A] \<and> n = 3"
  "lex_run 112 s = Some n \<longleftrightarrow> s = [0x3A] \<and> n = 4"
  "lex_run 116 s = Some n \<longleftrightarrow> (\<exists>t. s = 0x72 # t \<and> lex_run 118 t
     = Some n)"
  "lex_run 118 s = Some n \<longleftrightarrow> (\<exists>t. s = 0x6F # t \<and> lex_run 120 t
     = Some n)"
  "lex_run 120 s = Some n \<longleftrightarrow> (\<exists>t. s = 0x74 # t \<and> lex_run 122 t
     = Some n)"
  "lex_run 122 s = Some n \<longleftrightarrow> (\<exists>t. s = 0x6F # t \<and> lex_run 124 t
     = Some n)"
  "lex_run 124 s = Some n \<longleftrightarrow> (\<exists>t. s = 0x63 # t \<and> lex_run 126 t
     = Some n)"
  "lex_run 126 s = Some n \<longleftrightarrow> (\<exists>t. s = 0x6F # t \<and> lex_run 128 t
     = Some n)"
  "lex_run 128 s = Some n \<longleftrightarrow> (\<exists>t. s = 0x6C # t \<and> lex_run 130 t
     = Some n)"
  "lex_run 130 s = Some n \<longleftrightarrow> s = [0x3A] \<and> n = 5"
  "lex_run 134 s = Some n \<longleftrightarrow> (\<exists>t. s = 0x70 # t \<and> lex_run 136 t
     = Some n)"
  "lex_run 136 s = Some n \<longleftrightarrow> (\<exists>t. s = 0x67 # t \<and> lex_run 138 t
     = Some n)"
  "lex_run 138 s = Some n \<longleftrightarrow> (\<exists>t. s = 0x72 # t \<and> lex_run 140 t
     = Some n)"
  "lex_run 140 s = Some n \<longleftrightarrow> (\<exists>t. s = 0x61 # t \<and> lex_run 142 t
     = Some n)"
  "lex_run 142 s = Some n \<longleftrightarrow> (\<exists>t. s = 0x64 # t \<and> lex_run 144 t
     = Some n)"
  "lex_run 144 s = Some n \<longleftrightarrow> (\<exists>t. s = 0x65 # t \<and> lex_run 146 t
     = Some n)"
  "lex_run 146 s = Some n \<longleftrightarrow> s = [0x3A] \<and> n = 6"
  "lex_run 150 s = Some n \<longleftrightarrow> (\<exists>t. s = 0x72 # t \<and> lex_run 152 t
     = Some n)"
  "lex_run 152 s = Some n \<longleftrightarrow> (\<exists>t. s = 0x69 # t \<and> lex_run 154 t
     = Some n)"
  "lex_run 154 s = Some n \<longleftrightarrow> (\<exists>t. s = 0x67 # t \<and> lex_run 156 t
     = Some n)"
  "lex_run 156 s = Some n \<longleftrightarrow> (\<exists>t. s = 0x69 # t \<and> lex_run 158 t
     = Some n)"
  "lex_run 158 s = Some n \<longleftrightarrow> (\<exists>t. s = 0x6E # t \<and> lex_run 160 t
     = Some n)"
  "lex_run 160 s = Some n \<longleftrightarrow> s = [0x3A] \<and> n = 7"
  "lex_run 164 s = Some n \<longleftrightarrow> (\<exists>t. s = 0x72 # t \<and> lex_run 166 t
     = Some n)"
  "lex_run 166 s = Some n \<longleftrightarrow> (\<exists>t. s = 0x61 # t \<and> lex_run 168 t
     = Some n)"
  "lex_run 168 s = Some n \<longleftrightarrow> (\<exists>t. s = 0x66 # t \<and> lex_run 170 t
     = Some n)"
  "lex_run 170 s = Some n \<longleftrightarrow> (\<exists>t. s = 0x74 # t \<and> lex_run 172 t
     = Some n)"
  "lex_run 172 s = Some n \<longleftrightarrow> s = [0x3A] \<and> n = 8"
  "lex_run 176 s = Some n \<longleftrightarrow> s = [0xA] \<and> n = 9"
  "lex_run 182 s = Some n \<longleftrightarrow> (\<exists>t. s = 0x65 # t \<and> lex_run 184 t
     = Some n)"
  "lex_run 184 s = Some n \<longleftrightarrow> (\<exists>t. s = 0x72 # t \<and> lex_run 186 t
     = Some n)"
  "lex_run 186 s = Some n \<longleftrightarrow> (\<exists>t. s = 0x73 # t \<and> lex_run 188 t
     = Some n)"
  "lex_run 188 s = Some n \<longleftrightarrow> (\<exists>t. s = 0x69 # t \<and> lex_run 190 t
     = Some n)"
  "lex_run 190 s = Some n \<longleftrightarrow> (\<exists>t. s = 0x6F # t \<and> lex_run 192 t
     = Some n)"
  "lex_run 192 s = Some n \<longleftrightarrow> (\<exists>t. s = 0x6E # t \<and> lex_run 194 t
     = Some n)"
  "lex_run 194 s = Some n \<longleftrightarrow> s = [0x3A] \<and> n = 11"
  "lex_run 198 s = Some n \<longleftrightarrow> (\<exists>t. s = 0x72 # t \<and> lex_run 200 t
     = Some n)"
  "lex_run 200 s = Some n \<longleftrightarrow> (\<exists>t. s = 0x69 # t \<and> lex_run 202 t
     = Some n)"
  "lex_run 202 s = Some n \<longleftrightarrow> (\<exists>t. s = 0x67 # t \<and> lex_run 204 t
     = Some n)"
  "lex_run 204 s = Some n \<longleftrightarrow> (\<exists>t. s = 0x69 # t \<and> lex_run 206 t
     = Some n)"
  "lex_run 206 s = Some n \<longleftrightarrow> (\<exists>t. s = 0x6E # t \<and> lex_run 208 t
     = Some n)"
  "lex_run 208 s = Some n \<longleftrightarrow> s = [0x3A] \<and> n = 12"
  "lex_run 212 s = Some n \<longleftrightarrow> (\<exists>t. s = 0x78 # t \<and> lex_run 214 t
     = Some n)"
  "lex_run 214 s = Some n \<longleftrightarrow> (\<exists>t. s = 0x74 # t \<and> lex_run 216 t
     = Some n)"
  "lex_run 216 s = Some n \<longleftrightarrow> (\<exists>t. s = 0x65 # t \<and> lex_run 218 t
     = Some n)"
  "lex_run 218 s = Some n \<longleftrightarrow> (\<exists>t. s = 0x6E # t \<and> lex_run 220 t
     = Some n)"
  "lex_run 220 s = Some n \<longleftrightarrow> (\<exists>t. s = 0x73 # t \<and> lex_run 222 t
     = Some n)"
  "lex_run 222 s = Some n \<longleftrightarrow> (\<exists>t. s = 0x69 # t \<and> lex_run 224 t
     = Some n)"
  "lex_run 224 s = Some n \<longleftrightarrow> (\<exists>t. s = 0x6F # t \<and> lex_run 226 t
     = Some n)"
  "lex_run 226 s = Some n \<longleftrightarrow> (\<exists>t. s = 0x6E # t \<and> lex_run 228 t
     = Some n)"
  "lex_run 228 s = Some n \<longleftrightarrow> (\<exists>t. s = 0x73 # t \<and> lex_run 230 t
     = Some n)"
  "lex_run 230 s = Some n \<longleftrightarrow> s = [0x3A] \<and> n = 13"
  "lex_run 234 s = Some n \<longleftrightarrow> (\<exists>t. s = 0x63 # t \<and> lex_run 236 t
     = Some n)"
  "lex_run 236 s = Some n \<longleftrightarrow> (\<exists>t. s = 0x63 # t \<and> lex_run 238 t
     = Some n)"
  "lex_run 238 s = Some n \<longleftrightarrow> (\<exists>t. s = 0x65 # t \<and> lex_run 240 t
     = Some n)"
  "lex_run 240 s = Some n \<longleftrightarrow> (\<exists>t. s = 0x70 # t \<and> lex_run 242 t
     = Some n)"
  "lex_run 242 s = Some n \<longleftrightarrow> (\<exists>t. s = 0x74 # t \<and> lex_run 244 t
     = Some n)"
  "lex_run 244 s = Some n \<longleftrightarrow> s = [0x3A] \<and> n = 14"
  "lex_run 248 s = Some n \<longleftrightarrow> (\<exists>t. s = 0x6F # t \<and> lex_run 250 t
     = Some n)"
  "lex_run 250 s = Some n \<longleftrightarrow> (\<exists>t. s = 0x6E # t \<and> lex_run 252 t
     = Some n)"
  "lex_run 252 s = Some n \<longleftrightarrow> (\<exists>t. s = 0x63 # t \<and> lex_run 254 t
     = Some n)"
  "lex_run 254 s = Some n \<longleftrightarrow> (\<exists>t. s = 0x65 # t \<and> lex_run 256 t
     = Some n)"
  "lex_run 256 s = Some n \<longleftrightarrow> s = [0x3A] \<and> n = 15"
  "lex_run 260 s = Some n \<longleftrightarrow> (\<exists>t. s = 0x54 # t \<and> lex_run 262 t
     = Some n)"
  "lex_run 262 s = Some n \<longleftrightarrow> (\<exists>t. s = 0x50 # t \<and> lex_run 264 t
     = Some n)"
  "lex_run 264 s = Some n \<longleftrightarrow> (\<exists>t. s = 0x2F # t \<and> lex_run 266 t
     = Some n)"
  "lex_run 266 s = Some n \<longleftrightarrow> (\<exists>t. s = 0x31 # t \<and> lex_run 268 t
     = Some n)"
  "lex_run 268 s = Some n \<longleftrightarrow> (\<exists>t. s = 0x2E # t \<and> lex_run 270 t
     = Some n)"
  "lex_run 270 s = Some n \<longleftrightarrow> (\<exists>t. s = 0x31 # t \<and> lex_run 272 t
     = Some n)"
  "lex_run 272 s = Some n \<longleftrightarrow> s = [0x20] \<and> n = 16"
  by (cases s; auto simp: lex_run_Cons decode_eqs_last decode_eqs_more terminal_entries other_entries
      simp del: lex_run.simps(2) split: if_splits)+

lemma lex_run_names:
  "lex_run 0 s = Some n \<longleftrightarrow> n < 17 \<and> s = ascii (header_names ! n)"
proof
  assume "lex_run 0 s = Some n"
  then show "n < 17 \<and> s = ascii (header_names ! n)"
    by (simp only: lex_run_eqs) (elim disjE exE conjE; simp add: header_names_def ascii_def)
next
  assume n: "n < 17 \<and> s = ascii (header_names ! n)"
  then have "n \<in> set [0..<17]" by simp
  also have "[0..<17] = [0, 1, 2, 3, 4, 5, 6, 7, 8, 9, 10, 11, 12, 13, 14, 15, 16]"
    by (simp add: upt_conv_Cons)
  finally show "lex_run 0 s = Some n"
    using n by (simp only: list.set insert_iff empty_iff) (elim disjE; simp add: lex_run_eqs header_names_def ascii_def del: lex_run.simps(2))
qed

end
