(* ===== verification/Header_Table.thy ===== *)
theory Header_Table
  imports Lextable "HOL-Library.Monad_Syntax"
begin

text \<open>
  The header table of a connection, \<open>struct allocated_headers\<close>, and the operations of
  \<open>lib/parsers.c\<close> on it. The values of the headers lie in one array \<open>data\<close>; a header is a chain
  of fragments of it. An access outside of an array, and a walk along a chain that does not
  end, are \<open>None\<close>; the invariant \<open>ah_ok\<close> is what rules them out.
\<close>

section \<open>State\<close>

abbreviation (input) "WSI_TOKEN_GET_URI \<equiv> 0 :: nat"
abbreviation (input) "WSI_TOKEN_HOST \<equiv> 1 :: nat"
abbreviation (input) "WSI_TOKEN_CONNECTION \<equiv> 2 :: nat"
abbreviation (input) "WSI_TOKEN_PROTOCOL \<equiv> 5 :: nat"
abbreviation (input) "WSI_TOKEN_UPGRADE \<equiv> 6 :: nat"
abbreviation (input) "WSI_TOKEN_ORIGIN \<equiv> 7 :: nat"
abbreviation (input) "WSI_TOKEN_CHALLENGE \<equiv> 9 :: nat"
abbreviation (input) "WSI_TOKEN_KEY \<equiv> 10 :: nat"
abbreviation (input) "WSI_TOKEN_VERSION \<equiv> 11 :: nat"
abbreviation (input) "WSI_TOKEN_SWORIGIN \<equiv> 12 :: nat"
abbreviation (input) "WSI_TOKEN_EXTENSIONS \<equiv> 13 :: nat"
abbreviation (input) "WSI_TOKEN_HTTP \<equiv> 16 :: nat"
abbreviation (input) "WSI_TOKEN_COUNT \<equiv> 23 :: nat"
abbreviation (input) "WSI_TOKEN_NAME_PART \<equiv> 24 :: nat"
abbreviation (input) "WSI_TOKEN_SKIPPING \<equiv> 25 :: nat"
abbreviation (input) "WSI_TOKEN_SKIPPING_SAW_CR \<equiv> 26 :: nat"
abbreviation (input) "WSI_PARSING_COMPLETE \<equiv> 27 :: nat"

definition LWS_MAX_HEADER_LEN :: nat where
  "LWS_MAX_HEADER_LEN = 1024"

definition FRAGS :: nat where
  "FRAGS = WSI_TOKEN_COUNT * 2"

record lws_fragments =
  offset :: nat
  len :: nat
  next_frag :: nat

record allocated_headers =
  next_frag_index :: nat
  pos :: nat
  frag_index :: "nat list"
  frags :: "lws_fragments list"
  data :: bytes

section \<open>Operations\<close>

definition nth_opt :: "'a list \<Rightarrow> nat \<Rightarrow> 'a option" where
  "nth_opt xs i = (if i < length xs then Some (xs ! i) else None)"

definition update_opt :: "'a list \<Rightarrow> nat \<Rightarrow> 'a \<Rightarrow> 'a list option" where
  "update_opt xs i x = (if i < length xs then Some (xs[i := x]) else None)"

text \<open>\<open>mem\<close> is the fresh memory \<open>malloc\<close> returned, with whatever it holds, or no memory.\<close>

definition lws_allocate_header_table :: "allocated_headers option \<Rightarrow> allocated_headers option \<times> int" where
  "lws_allocate_header_table mem =
     (case mem of
        None \<Rightarrow> (None, -1)
      | Some ah \<Rightarrow>
          (Some (ah\<lparr>frag_index := replicate WSI_TOKEN_COUNT 0, next_frag_index := 0, pos := 0\<rparr>), 0))"

fun chain_len :: "nat \<Rightarrow> lws_fragments list \<Rightarrow> nat \<Rightarrow> nat option" where
  "chain_len 0 fs n = None"
| "chain_len (Suc fuel) fs n =
     do { f \<leftarrow> nth_opt fs n;
          if next_frag f = 0 then Some (len f)
          else do { r \<leftarrow> chain_len fuel fs (next_frag f); Some (len f + r) } }"

definition lws_hdr_total_length :: "allocated_headers \<Rightarrow> nat \<Rightarrow> nat option" where
  "lws_hdr_total_length ah h =
     do { n \<leftarrow> nth_opt (frag_index ah) h;
          if n = 0 then Some 0 else chain_len (length (frags ah)) (frags ah) n }"

text \<open>The C string at an address of \<open>data\<close>; \<open>None\<close> when no NUL follows inside the array.\<close>

definition c_string :: "bytes \<Rightarrow> nat \<Rightarrow> bytes option" where
  "c_string d off = (if 0 \<in> set (drop off d) then Some (takeWhile (\<lambda>c. c \<noteq> 0) (drop off d)) else None)"

definition strcpy_at :: "bytes \<Rightarrow> nat \<Rightarrow> bytes \<Rightarrow> bytes option" where
  "strcpy_at dest i s =
     (if i + length s + 1 \<le> length dest
      then Some (take i dest @ s @ [0] @ drop (i + length s + 1) dest) else None)"

fun chain_copy :: "nat \<Rightarrow> allocated_headers \<Rightarrow> nat \<Rightarrow> bytes \<Rightarrow> nat \<Rightarrow> bytes option" where
  "chain_copy 0 ah n dest i = None"
| "chain_copy (Suc fuel) ah n dest i =
     do { f \<leftarrow> nth_opt (frags ah) n;
          s \<leftarrow> c_string (data ah) (offset f);
          dest \<leftarrow> strcpy_at dest i s;
          if next_frag f = 0 then Some dest
          else chain_copy fuel ah (next_frag f) dest (i + len f) }"

definition lws_hdr_copy :: "allocated_headers \<Rightarrow> bytes \<Rightarrow> int \<Rightarrow> nat \<Rightarrow> (bytes \<times> int) option" where
  "lws_hdr_copy ah dest l h =
     do { toklen \<leftarrow> lws_hdr_total_length ah h;
          if int toklen \<ge> l then Some (dest, -1)
          else do {
            n \<leftarrow> nth_opt (frag_index ah) h;
            if n = 0 then Some (dest, 0)
            else do { dest \<leftarrow> chain_copy (length (frags ah)) ah n dest 0; Some (dest, int toklen) } } }"

text \<open>The address of the first fragment, \<open>Some None\<close> being the null pointer.\<close>

definition lws_hdr_simple_ptr :: "allocated_headers \<Rightarrow> nat \<Rightarrow> nat option option" where
  "lws_hdr_simple_ptr ah h =
     do { n \<leftarrow> nth_opt (frag_index ah) h;
          if n = 0 then Some None else do { f \<leftarrow> nth_opt (frags ah) n; Some (Some (offset f)) } }"

text \<open>\<open>frags[next_frag_index].len++\<close> and \<open>data[pos++] = c\<close>.\<close>

definition frag_len_incr :: "allocated_headers \<Rightarrow> allocated_headers option" where
  "frag_len_incr ah =
     do { f \<leftarrow> nth_opt (frags ah) (next_frag_index ah);
          fs \<leftarrow> update_opt (frags ah) (next_frag_index ah) (f\<lparr>len := len f + 1\<rparr>);
          Some (ah\<lparr>frags := fs\<rparr>) }"

definition data_put :: "allocated_headers \<Rightarrow> u8 \<Rightarrow> allocated_headers option" where
  "data_put ah c =
     do { d \<leftarrow> update_opt (data ah) (pos ah) c; Some (ah\<lparr>data := d, pos := pos ah + 1\<rparr>) }"

definition init_frag :: "allocated_headers \<Rightarrow> allocated_headers option" where
  "init_frag ah =
     do { fs \<leftarrow> update_opt (frags ah) (next_frag_index ah) \<lparr>offset = pos ah, len = 0, next_frag = 0\<rparr>;
          Some (ah\<lparr>frags := fs\<rparr>) }"

text \<open>The bytes of the string and its NUL, one after the other.\<close>

fun create_bytes :: "allocated_headers \<Rightarrow> bytes \<Rightarrow> (allocated_headers \<times> int) option" where
  "create_bytes ah [] = Some (ah, 0)"
| "create_bytes ah (c # cs) =
     (if pos ah = LWS_MAX_HEADER_LEN then Some (ah, -1)
      else do {
        ah \<leftarrow> data_put ah c;
        ah \<leftarrow> (if c \<noteq> 0 then frag_len_incr ah else Some ah);
        create_bytes ah cs })"

definition lws_hdr_simple_create ::
  "allocated_headers \<Rightarrow> nat \<Rightarrow> bytes \<Rightarrow> (allocated_headers \<times> int) option" where
  "lws_hdr_simple_create ah h s =
     (let ah = ah\<lparr>next_frag_index := next_frag_index ah + 1\<rparr>
      in if next_frag_index ah = FRAGS then Some (ah, -1)
         else do {
           fi \<leftarrow> update_opt (frag_index ah) h (next_frag_index ah);
           ah \<leftarrow> init_frag (ah\<lparr>frag_index := fi\<rparr>);
           create_bytes ah (s @ [0]) })"

section \<open>The invariant\<close>

definition frag_ok :: "allocated_headers \<Rightarrow> nat \<Rightarrow> bool" where
  "frag_ok ah n \<longleftrightarrow>
     (let f = frags ah ! n in
        (next_frag f = 0 \<or> n < next_frag f \<and> next_frag f \<le> next_frag_index ah) \<and>
        offset f + len f \<le> pos ah)"

definition frag_closed :: "allocated_headers \<Rightarrow> nat \<Rightarrow> bool" where
  "frag_closed ah n \<longleftrightarrow> (\<exists>i. offset (frags ah ! n) \<le> i \<and> i < pos ah \<and> data ah ! i = 0)"

definition ah_ok :: "allocated_headers \<Rightarrow> bool" where
  "ah_ok ah \<longleftrightarrow>
     length (frag_index ah) = WSI_TOKEN_COUNT \<and> length (frags ah) = FRAGS \<and>
     length (data ah) = LWS_MAX_HEADER_LEN \<and> pos ah \<le> LWS_MAX_HEADER_LEN \<and>
     next_frag_index ah < FRAGS \<and>
     (\<forall>i \<in> set (frag_index ah). i \<le> next_frag_index ah) \<and>
     (\<forall>n. 0 < n \<and> n \<le> next_frag_index ah \<longrightarrow> frag_ok ah n)"

definition mem_ok :: "allocated_headers \<Rightarrow> bool" where
  "mem_ok ah \<longleftrightarrow> length (frags ah) = FRAGS \<and> length (data ah) = LWS_MAX_HEADER_LEN"

lemma ah_ok_alloc:
  "mem_ok mem \<Longrightarrow> lws_allocate_header_table (Some mem) = (Some ah, r) \<Longrightarrow> ah_ok ah \<and> r = 0"
  by (auto simp: mem_ok_def lws_allocate_header_table_def ah_ok_def FRAGS_def LWS_MAX_HEADER_LEN_def)

lemma ah_ok_lengths:
  "ah_ok ah \<Longrightarrow> length (frags ah) = 46" "ah_ok ah \<Longrightarrow> length (data ah) = 1024"
  "ah_ok ah \<Longrightarrow> length (frag_index ah) = 23" "ah_ok ah \<Longrightarrow> next_frag_index ah < 46"
  "ah_ok ah \<Longrightarrow> pos ah \<le> 1024"
  by (simp_all add: ah_ok_def FRAGS_def LWS_MAX_HEADER_LEN_def)

lemma chain_len_total:
  assumes "ah_ok ah"
  shows "0 < n \<Longrightarrow> n \<le> next_frag_index ah \<Longrightarrow> next_frag_index ah < n + fuel \<Longrightarrow>
    \<exists>l. chain_len fuel (frags ah) n = Some l"
proof (induction fuel arbitrary: n)
  case 0
  then show ?case by simp
next
  case (Suc fuel)
  let ?f = "frags ah ! n"
  have n: "n < length (frags ah)" "frag_ok ah n"
    using Suc.prems assms by (auto simp: ah_ok_def)
  show ?case
  proof (cases "next_frag ?f = 0")
    case True
    then show ?thesis using n by (simp add: nth_opt_def)
  next
    case False
    then have "n < next_frag ?f" "next_frag ?f \<le> next_frag_index ah"
      using n(2) by (auto simp: frag_ok_def Let_def)
    then show ?thesis
      using Suc.IH [of "next_frag ?f"] Suc.prems n False by (auto simp: nth_opt_def)
  qed
qed

lemma total_length_defined:
  assumes "ah_ok ah" "h < WSI_TOKEN_COUNT"
  shows "\<exists>l. lws_hdr_total_length ah h = Some l"
proof -
  have "frag_index ah ! h \<le> next_frag_index ah"
    using assms by (auto simp: ah_ok_def)
  then show ?thesis
    using assms chain_len_total [OF assms(1), of "frag_index ah ! h" "length (frags ah)"]
      ah_ok_lengths(4) [OF assms(1)]
    by (auto simp: lws_hdr_total_length_def nth_opt_def ah_ok_lengths)
qed

section \<open>The invariant is kept\<close>

lemma data_put_eq:
  assumes "ah_ok a" "pos a < 1024"
  shows "data_put a c = Some (a\<lparr>data := (data a)[pos a := c], pos := Suc (pos a)\<rparr>)"
  using assms by (simp add: data_put_def update_opt_def ah_ok_lengths)

lemma ah_ok_data_put:
  "ah_ok a \<Longrightarrow> pos a < 1024 \<Longrightarrow> ah_ok (a\<lparr>data := (data a)[pos a := c], pos := Suc (pos a)\<rparr>)"
  by (auto simp: ah_ok_def frag_ok_def Let_def LWS_MAX_HEADER_LEN_def)

lemma frag_len_incr_eq:
  assumes "ah_ok a"
  shows "frag_len_incr a = Some (a\<lparr>frags := (frags a)[next_frag_index a :=
    (frags a ! next_frag_index a)\<lparr>len := len (frags a ! next_frag_index a) + 1\<rparr>]\<rparr>)"
  using ah_ok_lengths [OF assms] by (simp add: frag_len_incr_def nth_opt_def update_opt_def)

lemma ah_ok_len_incr:
  assumes "ah_ok a" "offset (frags a ! next_frag_index a) + len (frags a ! next_frag_index a) < pos a"
  shows "ah_ok (a\<lparr>frags := (frags a)[next_frag_index a :=
    (frags a ! next_frag_index a)\<lparr>len := len (frags a ! next_frag_index a) + 1\<rparr>]\<rparr>)"
  using assms ah_ok_lengths [OF assms(1)]
  by (auto simp: ah_ok_def frag_ok_def Let_def nth_list_update)

text \<open>\<open>data[pos++] = c; if (c) frags[next_frag_index].len++\<close>, the writes every collecting step makes.\<close>

definition put_byte :: "allocated_headers \<Rightarrow> u8 \<Rightarrow> allocated_headers" where
  "put_byte a c =
     (let a = a\<lparr>data := (data a)[pos a := c], pos := Suc (pos a)\<rparr> in
      if c = 0 then a
      else a\<lparr>frags := (frags a)[next_frag_index a :=
        (frags a ! next_frag_index a)\<lparr>len := len (frags a ! next_frag_index a) + 1\<rparr>]\<rparr>)"

lemma put_byte_eq:
  assumes "ah_ok a" "pos a < 1024"
  shows "do { a \<leftarrow> data_put a c; if c \<noteq> 0 then frag_len_incr a else Some a } = Some (put_byte a c)"
  using assms ah_ok_data_put [OF assms, of c]
  by (simp add: data_put_eq put_byte_def Let_def frag_len_incr_eq)

lemma put_byte_simps [simp]:
  "next_frag_index (put_byte a c) = next_frag_index a"
  "frag_index (put_byte a c) = frag_index a"
  "pos (put_byte a c) = Suc (pos a)"
  "data (put_byte a c) = (data a)[pos a := c]"
  "length (frags (put_byte a c)) = length (frags a)"
  by (simp_all add: put_byte_def Let_def not_less list_update_beyond)

lemma offset_put_byte [simp]:
  "offset (frags (put_byte a c) ! n) = offset (frags a ! n)"
  by (cases "n = next_frag_index a"; cases "n < length (frags a)") (simp_all add: put_byte_def Let_def not_less list_update_beyond)

lemma ah_ok_put_byte:
  assumes "ah_ok a" "pos a < 1024" "0 < next_frag_index a"
  shows "ah_ok (put_byte a c)"
proof -
  have "frag_ok a (next_frag_index a)" using assms by (simp add: ah_ok_def)
  then show ?thesis
    using ah_ok_data_put [OF assms(1,2), of c]
      ah_ok_len_incr [of "a\<lparr>data := (data a)[pos a := c], pos := Suc (pos a)\<rparr>"]
    by (cases "c = 0") (simp_all add: put_byte_def Let_def frag_ok_def)
qed

lemma frag_closed_mono:
  assumes "frag_closed a n" "offset (frags a' ! n) = offset (frags a ! n)" "pos a \<le> pos a'"
    and "\<And>i. i < pos a \<Longrightarrow> data a' ! i = data a ! i"
  shows "frag_closed a' n"
  using assms by (force simp: frag_closed_def)

lemma frag_closed_put_byte: "frag_closed a n \<Longrightarrow> frag_closed (put_byte a c) n"
  by (erule frag_closed_mono) simp_all

lemma frag_closed_put_nul:
  assumes "ah_ok a" "pos a < 1024" "0 < next_frag_index a"
  shows "frag_closed (put_byte a 0) (next_frag_index a)"
proof -
  have "frag_ok a (next_frag_index a)" using assms by (simp add: ah_ok_def)
  then show ?thesis
    using assms ah_ok_lengths(2) [OF assms(1)]
    by (auto simp: frag_closed_def frag_ok_def Let_def intro!: exI [of _ "pos a"])
qed

text \<open>The next fragment, empty and not yet part of a chain.\<close>

definition new_frag :: "allocated_headers \<Rightarrow> allocated_headers" where
  "new_frag a = a\<lparr>next_frag_index := Suc (next_frag_index a),
     frags := (frags a)[Suc (next_frag_index a) := \<lparr>offset = pos a, len = 0, next_frag = 0\<rparr>]\<rparr>"

lemma new_frag_simps [simp]:
  "next_frag_index (new_frag a) = Suc (next_frag_index a)" "frag_index (new_frag a) = frag_index a"
  "pos (new_frag a) = pos a" "data (new_frag a) = data a" "length (frags (new_frag a)) = length (frags a)"
  by (simp_all add: new_frag_def)

lemma init_frag_eq:
  "ah_ok a \<Longrightarrow> Suc (next_frag_index a) < 46 \<Longrightarrow>
     init_frag (a\<lparr>next_frag_index := Suc (next_frag_index a)\<rparr>) = Some (new_frag a)"
  by (simp add: init_frag_def update_opt_def ah_ok_lengths new_frag_def)

lemma nth_new_frag:
  "ah_ok a \<Longrightarrow> Suc (next_frag_index a) < 46 \<Longrightarrow>
     frags (new_frag a) ! n =
       (if n = Suc (next_frag_index a) then \<lparr>offset = pos a, len = 0, next_frag = 0\<rparr> else frags a ! n)"
  by (simp add: new_frag_def ah_ok_lengths)

lemma ah_ok_new_frag:
  assumes "ah_ok a" "Suc (next_frag_index a) < 46"
  shows "ah_ok (new_frag a)"
  using assms nth_new_frag [OF assms]
  by (auto simp: ah_ok_def frag_ok_def Let_def FRAGS_def le_Suc_eq)

lemma frag_closed_new_frag:
  "ah_ok a \<Longrightarrow> Suc (next_frag_index a) < 46 \<Longrightarrow> n \<le> next_frag_index a \<Longrightarrow>
     frag_closed (new_frag a) n = frag_closed a n"
  by (simp add: frag_closed_def nth_new_frag)

end
