(* ===== verification/Header_Parser.thy ===== *)
theory Header_Parser
  imports Header_Table
begin

text \<open>
  \<open>libwebsocket_parse\<close> of \<open>lib/parsers.c\<close>: the state machine that takes the bytes of an HTTP
  request or response one by one and fills the header table. It must be memory safe for every
  byte sequence a peer can send, and must file every header of a well-formed request.
\<close>

section \<open>The state machine\<close>

record hdr_wsi =
  ah :: allocated_headers
  lextable_pos :: int
  parser_state :: nat
  ietf_spec_revision :: u8
  hdr_parsing_completed :: bool

text \<open>\<open>atoi\<close> of the C library on the decimal strings it is defined for.\<close>

definition is_digit :: "u8 \<Rightarrow> bool" where
  "is_digit c \<longleftrightarrow> 0x30 \<le> c \<and> c \<le> 0x39"

definition is_space :: "u8 \<Rightarrow> bool" where
  "is_space c \<longleftrightarrow> c = 0x20 \<or> (0x09 \<le> c \<and> c \<le> 0x0d)"

definition digits_value :: "bytes \<Rightarrow> int" where
  "digits_value ds = foldl (\<lambda>v d. 10 * v + (uint d - 0x30)) 0 ds"

definition atoi :: "bytes \<Rightarrow> int" where
  "atoi s =
     (case dropWhile is_space s of
        [] \<Rightarrow> 0
      | c # cs \<Rightarrow>
          if c = 0x2d then - digits_value (takeWhile is_digit cs)
          else if c = 0x2b then digits_value (takeWhile is_digit cs)
          else digits_value (takeWhile is_digit (c # cs)))"

definition set_parsing_complete :: "hdr_wsi \<Rightarrow> hdr_wsi option" where
  "set_parsing_complete w =
     do { u \<leftarrow> lws_hdr_total_length (ah w) WSI_TOKEN_UPGRADE;
          w \<leftarrow> (if u \<noteq> 0 then
                 do { v \<leftarrow> lws_hdr_total_length (ah w) WSI_TOKEN_VERSION;
                      if v \<noteq> 0 then
                        do { p \<leftarrow> lws_hdr_simple_ptr (ah w) WSI_TOKEN_VERSION;
                             off \<leftarrow> p;
                             s \<leftarrow> c_string (data (ah w)) off;
                             Some (w\<lparr>ietf_spec_revision := word_of_int (atoi s)\<rparr>) }
                      else Some w }
               else Some w);
          Some (w\<lparr>parser_state := WSI_PARSING_COMPLETE, hdr_parsing_completed := True\<rparr>) }"

text \<open>\<open>while (frags[n].next_frag_index) n = frags[n].next_frag_index\<close>\<close>

fun chain_end :: "nat \<Rightarrow> lws_fragments list \<Rightarrow> nat \<Rightarrow> nat option" where
  "chain_end 0 fs n = None"
| "chain_end (Suc fuel) fs n =
     do { f \<leftarrow> nth_opt fs n;
          if next_frag f = 0 then Some n else chain_end fuel fs (next_frag f) }"

definition start_fragment :: "hdr_wsi \<Rightarrow> (hdr_wsi \<times> int) option" where
  "start_fragment w =
     (let a = (ah w)\<lparr>next_frag_index := next_frag_index (ah w) + 1\<rparr>
      in if next_frag_index a = FRAGS then Some (w\<lparr>ah := a\<rparr>, -1)
         else do {
           a \<leftarrow> init_frag a;
           n \<leftarrow> nth_opt (frag_index a) (parser_state w);
           if n = 0 then
             do { fi \<leftarrow> update_opt (frag_index a) (parser_state w) (next_frag_index a);
                  Some (w\<lparr>ah := a\<lparr>frag_index := fi\<rparr>\<rparr>, 0) }
           else
             do { n \<leftarrow> chain_end (length (frags a)) (frags a) n;
                  f \<leftarrow> nth_opt (frags a) n;
                  fs \<leftarrow> update_opt (frags a) n (f\<lparr>next_frag := next_frag_index a\<rparr>);
                  let a = a\<lparr>frags := fs\<rparr> in
                  if pos a = LWS_MAX_HEADER_LEN then Some (w\<lparr>ah := a\<rparr>, -1)
                  else do { a \<leftarrow> data_put a 0x20; a \<leftarrow> frag_len_incr a; Some (w\<lparr>ah := a\<rparr>, 0) } } })"

definition parse_collect :: "hdr_wsi \<Rightarrow> u8 \<Rightarrow> (hdr_wsi \<times> int) option" where
  "parse_collect w c =
     do { i \<leftarrow> nth_opt (frag_index (ah w)) (parser_state w);
          f \<leftarrow> nth_opt (frags (ah w)) i;
          if len f = 0 \<and> c = 0x20 then Some (w, 0)
          else
            let (w, c) = (if parser_state w = WSI_TOKEN_GET_URI \<and> c = 0x20
                          then (w\<lparr>parser_state := WSI_TOKEN_SKIPPING\<rparr>, 0) else (w, c));
                (w, c) = (if parser_state w \<noteq> WSI_TOKEN_CHALLENGE \<and> c = 0x0d
                          then (w\<lparr>parser_state := WSI_TOKEN_SKIPPING_SAW_CR\<rparr>, 0) else (w, c))
            in if pos (ah w) = LWS_MAX_HEADER_LEN then Some (w, -1)
               else do {
                 a \<leftarrow> data_put (ah w) c;
                 a \<leftarrow> (if c \<noteq> 0 then frag_len_incr a else Some a);
                 let w = w\<lparr>ah := a\<rparr> in
                 if parser_state w = WSI_TOKEN_CHALLENGE
                 then do { w \<leftarrow> set_parsing_complete w; Some (w, 0) } else Some (w, 0) } }"

definition parse_name :: "hdr_wsi \<Rightarrow> u8 \<Rightarrow> (hdr_wsi \<times> int) option" where
  "parse_name w c =
     do { p \<leftarrow> lextable_decode (lextable_pos w) c;
          let w = w\<lparr>lextable_pos := p\<rparr> in
          if p < 0 then
            do { g \<leftarrow> nth_opt (frag_index (ah w)) WSI_TOKEN_GET_URI;
                 h \<leftarrow> nth_opt (frag_index (ah w)) WSI_TOKEN_HTTP;
                 if g \<noteq> 0 \<or> h \<noteq> 0 then Some (w\<lparr>parser_state := WSI_TOKEN_SKIPPING\<rparr>, 0)
                 else Some (w, -1) }
          else do {
            t \<leftarrow> nth_opt lextable (nat p + 1);
            if t \<noteq> 0 then Some (w, 0)
            else do {
              b \<leftarrow> nth_opt lextable (nat p);
              let n = unat (b AND 0x7f) in do {
              g \<leftarrow> nth_opt (frag_index (ah w)) WSI_TOKEN_GET_URI;
              if n = WSI_TOKEN_GET_URI \<and> g \<noteq> 0 then Some (w, -1)
              else
                let n = (if n = WSI_TOKEN_SWORIGIN then WSI_TOKEN_ORIGIN else n);
                    w = w\<lparr>parser_state := WSI_TOKEN_GET_URI + n\<rparr>
                in if parser_state w = WSI_TOKEN_CHALLENGE
                   then do { w \<leftarrow> set_parsing_complete w; Some (w, 0) }
                   else start_fragment w } } } }"

definition libwebsocket_parse :: "hdr_wsi \<Rightarrow> u8 \<Rightarrow> (hdr_wsi \<times> int) option" where
  "libwebsocket_parse w c =
     (if parser_state w \<le> WSI_TOKEN_HTTP then parse_collect w c
      else if parser_state w = WSI_TOKEN_NAME_PART then parse_name w c
      else if parser_state w = WSI_TOKEN_SKIPPING then
        Some (if c = 0x0d then w\<lparr>parser_state := WSI_TOKEN_SKIPPING_SAW_CR\<rparr> else w, 0)
      else if parser_state w = WSI_TOKEN_SKIPPING_SAW_CR then
        Some (if c = 0x0a then w\<lparr>parser_state := WSI_TOKEN_NAME_PART, lextable_pos := 0\<rparr>
              else w\<lparr>parser_state := WSI_TOKEN_SKIPPING\<rparr>, 0)
      else Some (w, 0))"

text \<open>
  The bytes of a read are passed in one by one until one of them is refused; the connection is
  closed then.
\<close>

fun parse_bytes :: "hdr_wsi \<Rightarrow> bytes \<Rightarrow> (hdr_wsi \<times> int) option" where
  "parse_bytes w [] = Some (w, 0)"
| "parse_bytes w (c # cs) =
     do { (w, r) \<leftarrow> libwebsocket_parse w c; if r \<noteq> 0 then Some (w, r) else parse_bytes w cs }"

section \<open>Memory safety\<close>

text \<open>The recogniser never leaves its table from an even position inside it.\<close>

lemma lex_entries:
  "list_all (\<lambda>k. (lextable ! Suc (2 * k) = 0 \<longrightarrow> unat (lextable ! (2 * k) AND 0x7f) \<le> 16) \<and>
     2 * k + 2 * unat (lextable ! Suc (2 * k)) < 276 \<and>
     (lextable ! Suc (2 * k) = 0 \<or> k < 137)) [0..<138]"
proof -
  have upt: "[0..<138] = 0 # 1 # [2..<138]" by (simp add: upt_conv_Cons numeral_2_eq_2)
  show ?thesis unfolding upt by (simp add: lextable_nth)
qed

lemma lex_entry:
  assumes "0 \<le> p" "p < 276" "even p"
  shows "nat p + 1 < 276" "lextable ! (nat p + 1) = 0 \<Longrightarrow> unat (lextable ! nat p AND 0x7f) \<le> 16"
    "p + 2 * uint (lextable ! (nat p + 1)) < 276" "lextable ! (nat p + 1) \<noteq> 0 \<Longrightarrow> p + 2 < 276"
proof -
  obtain k where k: "p = 2 * int k" using assms by (metis dvdE nonneg_int_cases zero_le_mult_iff zero_less_numeral not_less)
  then have "k < 138" "nat p = 2 * k" using assms by auto
  moreover from lex_entries have "(lextable ! Suc (2 * k) = 0 \<longrightarrow> unat (lextable ! (2 * k) AND 0x7f) \<le> 16) \<and>
     2 * k + 2 * unat (lextable ! Suc (2 * k)) < 276 \<and> (lextable ! Suc (2 * k) = 0 \<or> k < 137)"
    using \<open>k < 138\<close> by (simp only: list_all_iff) simp
  ultimately have e: "lextable ! Suc (2 * k) = 0 \<longrightarrow> unat (lextable ! (2 * k) AND 0x7f) \<le> 16"
      "2 * k + 2 * unat (lextable ! Suc (2 * k)) < 276" "lextable ! Suc (2 * k) = 0 \<or> k < 137"
    by blast+
  have "int (2 * k + 2 * unat (lextable ! Suc (2 * k))) < int 276"
    using e(2) by (simp only: of_nat_less_iff)
  then show "p + 2 * uint (lextable ! (nat p + 1)) < 276"
    using k \<open>nat p = 2 * k\<close> by simp
  show "nat p + 1 < 276" "lextable ! (nat p + 1) = 0 \<Longrightarrow> unat (lextable ! nat p AND 0x7f) \<le> 16"
    "lextable ! (nat p + 1) \<noteq> 0 \<Longrightarrow> p + 2 < 276"
    using k \<open>nat p = 2 * k\<close> \<open>k < 138\<close> e(1,3) by auto
qed

lemma decode_defined:
  "0 \<le> p \<Longrightarrow> p < 276 \<Longrightarrow> even p \<Longrightarrow>
     \<exists>q. lextable_decode p c = Some q \<and> (q = -1 \<or> 0 \<le> q \<and> q < 276 \<and> even q)"
proof (induction p c rule: lextable_decode.induct)
  case (1 p c)
  note e = lex_entry [OF "1.prems"]
  show ?case
    using "1.IH" "1.prems" e by (subst lextable_decode.simps) auto
qed

definition hdr_ok :: "hdr_wsi \<Rightarrow> bool" where
  "hdr_ok w \<longleftrightarrow>
     ah_ok (ah w) \<and>
     (parser_state w = WSI_TOKEN_NAME_PART \<longrightarrow>
        0 \<le> lextable_pos w \<and> lextable_pos w < 276 \<and> even (lextable_pos w)) \<and>
     (parser_state w \<le> WSI_TOKEN_HTTP \<longrightarrow>
        parser_state w \<noteq> WSI_TOKEN_CHALLENGE \<and> 0 < frag_index (ah w) ! parser_state w) \<and>
     (\<forall>n. 0 < n \<and> n \<le> next_frag_index (ah w) \<and>
        (n < next_frag_index (ah w) \<or> WSI_TOKEN_HTTP < parser_state w) \<longrightarrow> frag_closed (ah w) n)"

lemma frag_index_le:
  "ah_ok a \<Longrightarrow> h < 23 \<Longrightarrow> frag_index a ! h \<le> next_frag_index a"
  by (auto simp: ah_ok_def)

lemma collect_safe:
  assumes ok: "hdr_ok w" and st: "parser_state w \<le> 16"
  shows "\<exists>w' r. parse_collect w c = Some (w', r) \<and> (r = 0 \<or> r = -1) \<and> (r = 0 \<longrightarrow> hdr_ok w')"
proof -
  let ?a = "ah w" and ?s = "parser_state w"
  have a: "ah_ok ?a" and s: "?s \<noteq> 9" "0 < frag_index ?a ! ?s"
    using ok st by (simp_all add: hdr_ok_def)
  then have i: "?s < length (frag_index ?a)" "frag_index ?a ! ?s < length (frags ?a)"
      "0 < next_frag_index ?a"
    using st frag_index_le [OF a, of ?s] ah_ok_lengths [OF a] by auto
  have head: "nth_opt (frag_index ?a) ?s = Some (frag_index ?a ! ?s)"
      "nth_opt (frags ?a) (frag_index ?a ! ?s) = Some (frags ?a ! (frag_index ?a ! ?s))"
    using i by (simp_all add: nth_opt_def)
  show ?thesis
  proof (cases "len (frags ?a ! (frag_index ?a ! ?s)) = 0 \<and> c = 0x20")
    case True
    then show ?thesis using ok head by (simp add: parse_collect_def)
  next
    case False
    define w1 c1 where "w1 = (if ?s = 0 \<and> c = 0x20 then w\<lparr>parser_state := 25\<rparr>
        else if c = 0x0d then w\<lparr>parser_state := 26\<rparr> else w)"
      and "c1 = (if ?s = 0 \<and> c = 0x20 \<or> c = 0x0d then 0 else c)"
    have w1: "ah w1 = ?a" "parser_state w1 \<noteq> 9" "16 < parser_state w1 \<Longrightarrow> c1 = 0"
        "parser_state w1 \<le> 16 \<Longrightarrow> parser_state w1 = ?s" "parser_state w1 \<noteq> 24"
      using s st by (auto simp: w1_def c1_def)
    have step: "parse_collect w c =
        (if pos ?a = 1024 then Some (w1, -1)
         else do { a \<leftarrow> data_put ?a c1; a \<leftarrow> (if c1 \<noteq> 0 then frag_len_incr a else Some a);
                   Some (w1\<lparr>ah := a\<rparr>, 0) })"
      using False s by (auto simp: parse_collect_def head w1_def c1_def LWS_MAX_HEADER_LEN_def Let_def)
    show ?thesis
    proof (cases "pos ?a = 1024")
      case True
      then show ?thesis by (simp add: step)
    next
      case False
      then have p: "pos ?a < 1024" using ah_ok_lengths(5) [OF a] by simp
      have "parse_collect w c = Some (w1\<lparr>ah := put_byte ?a c1\<rparr>, 0)"
        using False put_byte_eq [OF a p, of c1] unfolding step
        by (simp add: data_put_eq [OF a p])
      moreover have "hdr_ok (w1\<lparr>ah := put_byte ?a c1\<rparr>)"
        using ok w1 s i a p ah_ok_put_byte [OF a p i(3)] frag_closed_put_nul [OF a p i(3)]
        unfolding hdr_ok_def
        by (auto simp: frag_closed_put_byte le_less)
      ultimately show ?thesis by simp
    qed
  qed
qed

lemma complete_safe:
  assumes "ah_ok (ah w)" "\<And>n. 0 < n \<Longrightarrow> n \<le> next_frag_index (ah w) \<Longrightarrow> frag_closed (ah w) n"
  shows "\<exists>w'. set_parsing_complete w = Some w' \<and> ah w' = ah w \<and> parser_state w' = 27"
proof -
  obtain u where u: "lws_hdr_total_length (ah w) 6 = Some u"
    using total_length_defined [OF assms(1), of 6] by auto
  obtain v where v: "lws_hdr_total_length (ah w) 11 = Some v"
    using total_length_defined [OF assms(1), of 11] by auto
  note len = ah_ok_lengths [OF assms(1)]
  let ?n = "frag_index (ah w) ! 11"
  have "?n \<le> next_frag_index (ah w)" by (rule frag_index_le [OF assms(1)]) simp
  have "\<exists>off s. lws_hdr_simple_ptr (ah w) 11 = Some (Some off) \<and> c_string (data (ah w)) off = Some s"
    if "v \<noteq> 0"
  proof -
    have n: "0 < ?n"
      using v that len by (auto simp: lws_hdr_total_length_def nth_opt_def split: if_splits)
    then obtain i where i: "offset (frags (ah w) ! ?n) \<le> i" "i < pos (ah w)" "data (ah w) ! i = 0"
      using assms(2) [of ?n] \<open>?n \<le> next_frag_index (ah w)\<close> by (auto simp: frag_closed_def)
    have "0 \<in> set (drop (offset (frags (ah w) ! ?n)) (data (ah w)))"
      using i len by (auto simp: in_set_conv_nth intro!: exI [of _ "i - offset (frags (ah w) ! ?n)"])
    then show ?thesis
      using n len \<open>?n \<le> next_frag_index (ah w)\<close>
      by (simp add: lws_hdr_simple_ptr_def nth_opt_def c_string_def)
  qed
  then show ?thesis
    using u v by (auto simp: set_parsing_complete_def)
qed

lemma chain_end_defined:
  assumes "\<And>m. 0 < m \<Longrightarrow> m \<le> k \<Longrightarrow> next_frag (fs ! m) = 0 \<or> m < next_frag (fs ! m) \<and> next_frag (fs ! m) \<le> k"
    and "k < length fs"
  shows "0 < n \<Longrightarrow> n \<le> k \<Longrightarrow> k < n + fuel \<Longrightarrow>
    \<exists>e. chain_end fuel fs n = Some e \<and> n \<le> e \<and> e \<le> k \<and> next_frag (fs ! e) = 0"
proof (induction fuel arbitrary: n)
  case 0
  then show ?case by simp
next
  case (Suc fuel)
  have n: "nth_opt fs n = Some (fs ! n)" using Suc.prems assms(2) by (simp add: nth_opt_def)
  show ?case
  proof (cases "next_frag (fs ! n) = 0")
    case True
    then show ?thesis using n Suc.prems by auto
  next
    case False
    then have m: "n < next_frag (fs ! n)" "next_frag (fs ! n) \<le> k"
      using assms(1) [of n] Suc.prems by auto
    then obtain e where "chain_end fuel fs (next_frag (fs ! n)) = Some e" "next_frag (fs ! n) \<le> e"
        "e \<le> k" "next_frag (fs ! e) = 0"
      using Suc.IH [of "next_frag (fs ! n)"] Suc.prems by auto
    then show ?thesis using n False m by auto
  qed
qed

definition link_frag :: "allocated_headers \<Rightarrow> nat \<Rightarrow> allocated_headers" where
  "link_frag a e = a\<lparr>frags := (frags a)[e := (frags a ! e)\<lparr>next_frag := next_frag_index a\<rparr>]\<rparr>"

lemma link_frag_simps [simp]:
  "next_frag_index (link_frag a e) = next_frag_index a" "frag_index (link_frag a e) = frag_index a"
  "pos (link_frag a e) = pos a" "data (link_frag a e) = data a"
  "length (frags (link_frag a e)) = length (frags a)"
  by (simp_all add: link_frag_def)

lemma offset_link_frag [simp]: "offset (frags (link_frag a e) ! n) = offset (frags a ! n)"
  by (cases "n = e"; cases "n < length (frags a)") (simp_all add: link_frag_def not_less list_update_beyond)

lemma frag_closed_link_frag [simp]: "frag_closed (link_frag a e) n = frag_closed a n"
  by (simp add: frag_closed_def)

lemma ah_ok_link_frag:
  "ah_ok a \<Longrightarrow> 0 < e \<Longrightarrow> e < next_frag_index a \<Longrightarrow> ah_ok (link_frag a e)"
  using ah_ok_lengths(1,4) [of a]
  by (auto simp: ah_ok_def frag_ok_def Let_def link_frag_def nth_list_update)

lemma ah_ok_set_index:
  "ah_ok a \<Longrightarrow> ah_ok (a\<lparr>frag_index := (frag_index a)[h := next_frag_index a]\<rparr>)"
  using set_update_subset_insert [of "frag_index a" h "next_frag_index a"]
  by (auto simp: ah_ok_def frag_ok_def)

text \<open>What \<open>start_fragment\<close> does when there is room for one more fragment.\<close>

lemma start_fragment_first:
  assumes "ah_ok (ah w)" "Suc (next_frag_index (ah w)) < 46" "parser_state w < 23"
    and "frag_index (ah w) ! parser_state w = 0"
  shows "start_fragment w = Some (w\<lparr>ah := (new_frag (ah w))\<lparr>frag_index :=
    (frag_index (ah w))[parser_state w := Suc (next_frag_index (ah w))]\<rparr>\<rparr>, 0)"
  using assms ah_ok_lengths [OF assms(1)]
  by (simp add: start_fragment_def FRAGS_def init_frag_eq nth_opt_def update_opt_def)

lemma start_fragment_more:
  assumes a: "ah_ok (ah w)" and room: "Suc (next_frag_index (ah w)) < 46" and st: "parser_state w < 23"
    and i: "0 < frag_index (ah w) ! parser_state w"
  shows "\<exists>e. 0 < e \<and> e \<le> next_frag_index (ah w) \<and>
    start_fragment w =
      (let a = link_frag (new_frag (ah w)) e
       in if pos a = 1024 then Some (w\<lparr>ah := a\<rparr>, -1) else Some (w\<lparr>ah := put_byte a 0x20\<rparr>, 0))"
proof -
  let ?a = "ah w" and ?n = "frag_index (ah w) ! parser_state w"
  note len = ah_ok_lengths [OF a]
  have ok: "ah_ok (new_frag ?a)" by (rule ah_ok_new_frag [OF a room])
  have chain: "next_frag (frags (new_frag ?a) ! m) = 0 \<or>
      m < next_frag (frags (new_frag ?a) ! m) \<and> next_frag (frags (new_frag ?a) ! m) \<le> next_frag_index ?a"
    if "0 < m" "m \<le> next_frag_index ?a" for m
    using a that nth_new_frag [OF a room, of m] by (auto simp: ah_ok_def frag_ok_def Let_def)
  have "?n \<le> next_frag_index ?a" by (rule frag_index_le [OF a st])
  then obtain e where e: "chain_end (length (frags ?a)) (frags (new_frag ?a)) ?n = Some e"
      "?n \<le> e" "e \<le> next_frag_index ?a"
    using chain_end_defined [of "next_frag_index ?a" "frags (new_frag ?a)" ?n "length (frags ?a)"] chain i len
    by auto
  have ok2: "ah_ok (link_frag (new_frag ?a) e)"
    using ok i e by (intro ah_ok_link_frag) simp_all
  have "start_fragment w =
      (let a = link_frag (new_frag ?a) e
       in if pos a = 1024 then Some (w\<lparr>ah := a\<rparr>, -1)
          else do { a \<leftarrow> data_put a 0x20; a \<leftarrow> frag_len_incr a; Some (w\<lparr>ah := a\<rparr>, 0) })"
    using a room st i len e
    by (simp add: start_fragment_def FRAGS_def init_frag_eq nth_opt_def update_opt_def link_frag_def
        LWS_MAX_HEADER_LEN_def Let_def)
  also have "\<dots> =
      (let a = link_frag (new_frag ?a) e
       in if pos a = 1024 then Some (w\<lparr>ah := a\<rparr>, -1) else Some (w\<lparr>ah := put_byte a 0x20\<rparr>, 0))"
    using put_byte_eq [OF ok2, of "0x20"] len(5) data_put_eq [OF ok2]
    by (auto simp: Let_def)
  finally show ?thesis using i e by (intro exI [of _ e]) simp
qed

lemma start_fragment_safe:
  assumes "ah_ok (ah w)" "parser_state w \<le> 16" "parser_state w \<noteq> 9"
    and closed: "\<And>n. 0 < n \<Longrightarrow> n \<le> next_frag_index (ah w) \<Longrightarrow> frag_closed (ah w) n"
  shows "\<exists>w' r. start_fragment w = Some (w', r) \<and> (r = 0 \<or> r = -1) \<and> (r = 0 \<longrightarrow> hdr_ok w')"
proof (cases "Suc (next_frag_index (ah w)) < 46")
  case False
  then show ?thesis
    using ah_ok_lengths(4) [OF assms(1)] by (simp add: start_fragment_def FRAGS_def)
next
  case room: True
  have ok: "ah_ok (new_frag (ah w))" by (rule ah_ok_new_frag [OF assms(1) room])
  note len = ah_ok_lengths [OF assms(1)]
  have st: "parser_state w < 23" using assms(2) by simp
  show ?thesis
  proof (cases "frag_index (ah w) ! parser_state w = 0")
    case True
    have "hdr_ok (w\<lparr>ah := (new_frag (ah w))\<lparr>frag_index :=
        (frag_index (ah w))[parser_state w := Suc (next_frag_index (ah w))]\<rparr>\<rparr>)"
      using ah_ok_set_index [OF ok, of "parser_state w"] assms closed len st
        frag_closed_new_frag [OF assms(1) room]
      by (auto simp: hdr_ok_def frag_closed_def less_Suc_eq_le)
    then show ?thesis using start_fragment_first [OF assms(1) room st True] by simp
  next
    case False
    then obtain e where e: "0 < e" "e \<le> next_frag_index (ah w)" and
      eq: "start_fragment w = (let a = link_frag (new_frag (ah w)) e
        in if pos a = 1024 then Some (w\<lparr>ah := a\<rparr>, -1) else Some (w\<lparr>ah := put_byte a 0x20\<rparr>, 0))"
      using start_fragment_more [OF assms(1) room st] by auto
    let ?a = "link_frag (new_frag (ah w)) e"
    have ok2: "ah_ok ?a" using ok e by (intro ah_ok_link_frag) simp_all
    show ?thesis
    proof (cases "pos ?a = 1024")
      case True
      then show ?thesis by (simp add: eq)
    next
      case p: False
      then have "ah_ok (put_byte ?a 0x20)"
        using len(5) by (intro ah_ok_put_byte ok2) simp_all
      moreover have "frag_closed (put_byte ?a 0x20) n" if "0 < n" "n \<le> next_frag_index (ah w)" for n
        using closed [OF that] that frag_closed_new_frag [OF assms(1) room]
        by (intro frag_closed_put_byte) simp
      ultimately have "hdr_ok (w\<lparr>ah := put_byte ?a 0x20\<rparr>)"
        using assms False st by (auto simp: hdr_ok_def less_Suc_eq_le)
      then show ?thesis using p by (simp add: eq)
    qed
  qed
qed

lemma name_safe:
  assumes ok: "hdr_ok w" and st: "parser_state w = 24"
  shows "\<exists>w' r. parse_name w c = Some (w', r) \<and> (r = 0 \<or> r = -1) \<and> (r = 0 \<longrightarrow> hdr_ok w')"
proof -
  have a: "ah_ok (ah w)" and p: "0 \<le> lextable_pos w" "lextable_pos w < 276" "even (lextable_pos w)"
    and closed: "\<And>n. 0 < n \<Longrightarrow> n \<le> next_frag_index (ah w) \<Longrightarrow> frag_closed (ah w) n"
    using ok st by (simp_all add: hdr_ok_def)
  note len = ah_ok_lengths [OF a]
  obtain q where q: "lextable_decode (lextable_pos w) c = Some q" "q = -1 \<or> 0 \<le> q \<and> q < 276 \<and> even q"
    using decode_defined [OF p] by blast
  show ?thesis
  proof (cases "q = -1")
    case True
    then show ?thesis
      using q a closed len by (auto simp: parse_name_def nth_opt_def Let_def hdr_ok_def)
  next
    case False
    then have r: "0 \<le> q" "q < 276" "even q" using q by auto
    note entry = lex_entry [OF r]
    define n where "n = unat (lextable ! nat q AND 0x7f)"
    show ?thesis
    proof (cases "lextable ! (nat q + 1) = 0")
      case nonterm: False
      then have "parse_name w c = Some (w\<lparr>lextable_pos := q\<rparr>, 0)"
        using q r entry(1) by (simp add: parse_name_def nth_opt_def Let_def)
      moreover have "hdr_ok (w\<lparr>lextable_pos := q\<rparr>)"
        using ok r st by (simp add: hdr_ok_def)
      ultimately show ?thesis by simp
    next
      case fin: True
      then have n: "n \<le> 16" using entry(2) fin by (simp add: n_def)
      let ?t = "if n = 12 then 7 else n"
      let ?w = "w\<lparr>lextable_pos := q, parser_state := ?t\<rparr>"
      have eq: "parse_name w c =
          (if n = 0 \<and> frag_index (ah w) ! 0 \<noteq> 0 then Some (w\<lparr>lextable_pos := q\<rparr>, -1)
           else if n = 9 then do { w \<leftarrow> set_parsing_complete ?w; Some (w, 0) }
           else start_fragment ?w)"
        using q r entry(1) fin len by (simp add: parse_name_def nth_opt_def Let_def flip: n_def)
      consider "n = 0 \<and> frag_index (ah w) ! 0 \<noteq> 0" | "n = 9" | "?t \<le> 16" "?t \<noteq> 9"
          "\<not> (n = 0 \<and> frag_index (ah w) ! 0 \<noteq> 0)" "n \<noteq> 9"
        using n by (cases "n = 9"; cases "n = 12"; cases "n = 0 \<and> frag_index (ah w) ! 0 \<noteq> 0") simp_all
      then show ?thesis
      proof cases
        case 1
        then show ?thesis by (simp add: eq)
      next
        case 2
        obtain w' where "set_parsing_complete ?w = Some w'" "ah w' = ah w" "parser_state w' = 27"
          using complete_safe [of ?w] a closed by auto
        then show ?thesis using 2 a closed by (simp add: eq hdr_ok_def)
      next
        case 3
        then show ?thesis
          using start_fragment_safe [of ?w] a closed unfolding eq by simp
      qed
    qed
  qed
qed

lemma parse_safe:
  assumes "hdr_ok w"
  shows "\<exists>w' r. libwebsocket_parse w c = Some (w', r) \<and> (r = 0 \<or> r = -1) \<and> (r = 0 \<longrightarrow> hdr_ok w')"
proof -
  consider "parser_state w \<le> 16" | "parser_state w = 24" | "16 < parser_state w" "parser_state w \<noteq> 24"
    by linarith
  then show ?thesis
  proof cases
    case 1
    then show ?thesis using collect_safe [OF assms] by (simp add: libwebsocket_parse_def)
  next
    case 2
    then show ?thesis using name_safe [OF assms] by (simp add: libwebsocket_parse_def)
  next
    case 3
    then show ?thesis using assms by (auto simp: libwebsocket_parse_def hdr_ok_def)
  qed
qed

lemma parse_bytes_safe:
  "hdr_ok w \<Longrightarrow> \<exists>w' r. parse_bytes w cs = Some (w', r) \<and> (r = 0 \<or> r = -1) \<and> (r = 0 \<longrightarrow> hdr_ok w')"
proof (induction cs arbitrary: w)
  case Nil
  then show ?case by simp
next
  case (Cons c cs)
  obtain w1 r1 where 1: "libwebsocket_parse w c = Some (w1, r1)" "r1 = 0 \<or> r1 = -1" "r1 = 0 \<longrightarrow> hdr_ok w1"
    using parse_safe [OF Cons.prems] by blast
  show ?case
  proof (cases "r1 = 0")
    case True
    then show ?thesis using 1 Cons.IH by simp
  next
    case False
    then show ?thesis using 1 by simp
  qed
qed

text \<open>The state a connection is accepted in.\<close>

definition new_hdr :: "allocated_headers \<Rightarrow> hdr_wsi" where
  "new_hdr a = \<lparr>ah = a, lextable_pos = 0, parser_state = WSI_TOKEN_NAME_PART,
     ietf_spec_revision = 0, hdr_parsing_completed = False\<rparr>"

lemma hdr_ok_new:
  "mem_ok mem \<Longrightarrow> lws_allocate_header_table (Some mem) = (Some a, r) \<Longrightarrow> hdr_ok (new_hdr a)"
  using ah_ok_alloc [of mem a r]
  by (auto simp: hdr_ok_def new_hdr_def lws_allocate_header_table_def)

end
