(* ===== verification/Header_Request.thy ===== *)
theory Header_Request
  imports Header_Parser
begin

text \<open>
  What the header parser is for: after a well-formed HTTP request the header table is the map
  from header names to their values, and the accessors of \<open>lib/parsers.c\<close> return them. The
  table is read as a map by \<open>hdr_map\<close>; one header line updates it at one token.
\<close>

section \<open>The table as a map\<close>

definition frag_content :: "allocated_headers \<Rightarrow> nat \<Rightarrow> bytes" where
  "frag_content a n = take (len (frags a ! n)) (drop (offset (frags a ! n)) (data a))"

definition hdr_map :: "allocated_headers \<Rightarrow> nat \<rightharpoonup> bytes" where
  "hdr_map a h = (if h < WSI_TOKEN_COUNT \<and> frag_index a ! h \<noteq> 0
     then Some (frag_content a (frag_index a ! h)) else None)"

text \<open>Every finished fragment is a whole header: its own chain, its content and then a NUL.\<close>

definition frag_exact :: "allocated_headers \<Rightarrow> nat \<Rightarrow> bool" where
  "frag_exact a n \<longleftrightarrow>
     (let f = frags a ! n in next_frag f = 0 \<and> offset f + len f < pos a \<and>
        data a ! (offset f + len f) = 0 \<and> 0 \<notin> set (frag_content a n))"

definition table_exact :: "allocated_headers \<Rightarrow> bool" where
  "table_exact a \<longleftrightarrow> ah_ok a \<and> (\<forall>n. 0 < n \<and> n \<le> next_frag_index a \<longrightarrow> frag_exact a n)"

lemma table_exact_alloc:
  assumes "mem_ok mem" "lws_allocate_header_table (Some mem) = (Some a, r)"
  shows "table_exact a" "hdr_map a = Map.empty" "next_frag_index a = 0" "pos a = 0"
  using assms ah_ok_alloc [OF assms]
  by (auto simp: lws_allocate_header_table_def table_exact_def hdr_map_def)

section \<open>The accessors read the map\<close>

lemma chain_len_single:
  "n < length fs \<Longrightarrow> next_frag (fs ! n) = 0 \<Longrightarrow> 0 < fuel \<Longrightarrow> chain_len fuel fs n = Some (len (fs ! n))"
  by (cases fuel) (simp_all add: nth_opt_def)

lemma chain_copy_single:
  "n < length (frags a) \<Longrightarrow> next_frag (frags a ! n) = 0 \<Longrightarrow> 0 < fuel \<Longrightarrow>
     chain_copy fuel a n dest i =
       do { s \<leftarrow> c_string (data a) (offset (frags a ! n)); strcpy_at dest i s }"
  by (cases fuel) (simp_all add: nth_opt_def)

lemma total_length_map:
  assumes "table_exact a" "h < 23"
  shows "lws_hdr_total_length a h = Some (case hdr_map a h of None \<Rightarrow> 0 | Some v \<Rightarrow> length v)"
proof -
  have a: "ah_ok a" using assms by (simp add: table_exact_def)
  note len = ah_ok_lengths [OF a]
  let ?n = "frag_index a ! h"
  have n: "?n \<le> next_frag_index a" by (rule frag_index_le [OF a assms(2)])
  show ?thesis
  proof (cases "?n = 0")
    case True
    then show ?thesis using assms len by (simp add: lws_hdr_total_length_def nth_opt_def hdr_map_def)
  next
    case False
    then have x: "frag_exact a ?n" using assms n by (simp add: table_exact_def)
    have "chain_len (length (frags a)) (frags a) ?n = Some (len (frags a ! ?n))"
      using x n len by (simp add: chain_len_single frag_exact_def Let_def)
    moreover have "length (frag_content a ?n) = len (frags a ! ?n)"
      using x len by (auto simp: frag_content_def frag_exact_def Let_def)
    ultimately show ?thesis
      using assms len False by (simp add: lws_hdr_total_length_def nth_opt_def hdr_map_def)
  qed
qed

lemma c_string_content:
  assumes "ah_ok a" "frag_exact a n"
  shows "c_string (data a) (offset (frags a ! n)) = Some (frag_content a n)"
proof -
  let ?f = "frags a ! n" and ?d = "drop (offset (frags a ! n)) (data a)"
  note len = ah_ok_lengths [OF assms(1)]
  have x: "offset ?f + len ?f < pos a" "data a ! (offset ?f + len ?f) = 0" "0 \<notin> set (take (len ?f) ?d)"
    using assms(2) by (simp_all add: frag_exact_def Let_def frag_content_def)
  then have l: "len ?f < length ?d" "?d ! len ?f = 0" using len by simp_all
  then have d: "?d = take (len ?f) ?d @ 0 # drop (Suc (len ?f)) ?d"
    by (metis id_take_nth_drop)
  then have "0 \<in> set ?d" by (metis in_set_conv_decomp)
  moreover have "takeWhile (\<lambda>c. c \<noteq> 0) ?d = take (len ?f) ?d"
    using x(3) by (subst d) (auto intro!: takeWhile_append2 [THEN trans])
  ultimately show ?thesis by (simp add: c_string_def frag_content_def)
qed

lemma simple_ptr_map:
  assumes "table_exact a" "h < 23"
  shows "lws_hdr_simple_ptr a h = Some None \<and> hdr_map a h = None \<or>
    (\<exists>off v. lws_hdr_simple_ptr a h = Some (Some off) \<and> hdr_map a h = Some v \<and> c_string (data a) off = Some v)"
proof -
  have a: "ah_ok a" using assms by (simp add: table_exact_def)
  note len = ah_ok_lengths [OF a]
  let ?n = "frag_index a ! h"
  have n: "?n \<le> next_frag_index a" by (rule frag_index_le [OF a assms(2)])
  show ?thesis
  proof (cases "?n = 0")
    case True
    then show ?thesis using assms len by (simp add: lws_hdr_simple_ptr_def nth_opt_def hdr_map_def)
  next
    case False
    then have "frag_exact a ?n" using assms n by (simp add: table_exact_def)
    then show ?thesis
      using assms len False n c_string_content [OF a]
      by (simp add: lws_hdr_simple_ptr_def nth_opt_def hdr_map_def)
  qed
qed

lemma hdr_copy_limit:
  assumes "table_exact a" "h < 23" "hdr_map a h = Some v" "int (length v) < l" "l \<le> int (length dest)"
  shows "lws_hdr_copy a dest l h = Some (v @ [0] @ drop (length v + 1) dest, int (length v))"
proof -
  have a: "ah_ok a" using assms by (simp add: table_exact_def)
  note len = ah_ok_lengths [OF a]
  let ?n = "frag_index a ! h"
  have n: "?n \<le> next_frag_index a" by (rule frag_index_le [OF a assms(2)])
  have nz: "?n \<noteq> 0" "v = frag_content a ?n" using assms(3) by (auto simp: hdr_map_def split: if_splits)
  then have x: "frag_exact a ?n" using assms n by (simp add: table_exact_def)
  have "chain_copy (length (frags a)) a ?n dest 0 = Some (v @ [0] @ drop (length v + 1) dest)"
    using x n len nz assms(4,5) c_string_content [OF a x]
    by (simp add: chain_copy_single frag_exact_def Let_def strcpy_at_def)
  then show ?thesis
    using assms len nz total_length_map [OF assms(1,2)] by (simp add: lws_hdr_copy_def nth_opt_def)
qed

lemma hdr_copy_map:
  "table_exact a \<Longrightarrow> h < 23 \<Longrightarrow> hdr_map a h = Some v \<Longrightarrow> length v < length dest \<Longrightarrow>
     lws_hdr_copy a dest (int (length dest)) h = Some (v @ [0] @ drop (length v + 1) dest, int (length v))"
  by (rule hdr_copy_limit) simp_all

lemma hdr_copy_long:
  "table_exact a \<Longrightarrow> h < 23 \<Longrightarrow> hdr_map a h = Some v \<Longrightarrow> l \<le> int (length v) \<Longrightarrow> lws_hdr_copy a dest l h = Some (dest, -1)"
  using total_length_map [of a h] by (simp add: lws_hdr_copy_def)

section \<open>One value\<close>

definition collected :: "allocated_headers \<Rightarrow> bytes \<Rightarrow> allocated_headers" where
  "collected a v = fold (\<lambda>c a. put_byte a c) v a"

lemma collected_simps [simp]:
  "collected a [] = a" "collected a (c # v) = collected (put_byte a c) v"
  "collected a (v @ v') = collected (collected a v) v'"
  by (simp_all add: collected_def)

lemma collected_fields:
  "next_frag_index (collected a v) = next_frag_index a" "frag_index (collected a v) = frag_index a"
  "pos (collected a v) = pos a + length v" "length (frags (collected a v)) = length (frags a)"
  by (induction v arbitrary: a) simp_all

lemma ah_ok_collected:
  "ah_ok a \<Longrightarrow> pos a + length v \<le> 1024 \<Longrightarrow> 0 < next_frag_index a \<Longrightarrow> ah_ok (collected a v)"
  by (induction v arbitrary: a) (simp_all add: ah_ok_put_byte)

lemma collected_data:
  "length (data a) = 1024 \<Longrightarrow> pos a + length v \<le> 1024 \<Longrightarrow>
     data (collected a v) = take (pos a) (data a) @ v @ drop (pos a + length v) (data a)"
proof (induction v arbitrary: a)
  case Nil
  then show ?case by simp
next
  case (Cons c v)
  then have "take (Suc (pos a)) ((data a)[pos a := c]) = take (pos a) (data a) @ [c]"
    by (simp add: take_Suc_conv_app_nth)
  then show ?case using Cons by simp
qed

lemma collected_frags:
  "0 \<notin> set v \<Longrightarrow> next_frag_index a < length (frags a) \<Longrightarrow>
     frags (collected a v) = (frags a)[next_frag_index a :=
       (frags a ! next_frag_index a)\<lparr>len := len (frags a ! next_frag_index a) + length v\<rparr>]"
  by (induction v arbitrary: a) (simp_all add: put_byte_def Let_def)

lemma parse_collect_put:
  assumes "ah_ok (ah w)" "parser_state w \<le> 16" "parser_state w \<noteq> 9" "0 < frag_index (ah w) ! parser_state w"
    and "pos (ah w) < 1024" "c \<noteq> 0x0d" "parser_state w = 0 \<Longrightarrow> c \<noteq> 0x20"
    and "c = 0x20 \<Longrightarrow> len (frags (ah w) ! (frag_index (ah w) ! parser_state w)) \<noteq> 0"
  shows "libwebsocket_parse w c = Some (w\<lparr>ah := put_byte (ah w) c\<rparr>, 0)"
proof -
  note len = ah_ok_lengths [OF assms(1)]
  have i: "frag_index (ah w) ! parser_state w \<le> next_frag_index (ah w)"
    using assms(2) by (intro frag_index_le [OF assms(1)]) simp
  then have "nth_opt (frag_index (ah w)) (parser_state w) = Some (frag_index (ah w) ! parser_state w)"
      "nth_opt (frags (ah w)) (frag_index (ah w) ! parser_state w) =
        Some (frags (ah w) ! (frag_index (ah w) ! parser_state w))"
    using len assms(2) by (simp_all add: nth_opt_def)
  then show ?thesis
    using assms put_byte_eq [OF assms(1,5), of c]
    by (auto simp: libwebsocket_parse_def parse_collect_def LWS_MAX_HEADER_LEN_def data_put_eq [OF assms(1,5)]
        split: if_splits)
qed

lemma parse_collect_nul:
  assumes "ah_ok (ah w)" "parser_state w \<le> 16" "parser_state w \<noteq> 9" "0 < frag_index (ah w) ! parser_state w"
    and "pos (ah w) < 1024"
  shows "libwebsocket_parse w 0x0d = Some (w\<lparr>parser_state := 26, ah := put_byte (ah w) 0\<rparr>, 0)"
    and "parser_state w = 0 \<Longrightarrow> len (frags (ah w) ! (frag_index (ah w) ! 0)) \<noteq> 0 \<Longrightarrow>
      libwebsocket_parse w 0x20 = Some (w\<lparr>parser_state := 25, ah := put_byte (ah w) 0\<rparr>, 0)"
proof -
  note len = ah_ok_lengths [OF assms(1)]
  have i: "frag_index (ah w) ! parser_state w \<le> next_frag_index (ah w)"
    using assms(2) by (intro frag_index_le [OF assms(1)]) simp
  then have h: "nth_opt (frag_index (ah w)) (parser_state w) = Some (frag_index (ah w) ! parser_state w)"
      "nth_opt (frags (ah w)) (frag_index (ah w) ! parser_state w) =
        Some (frags (ah w) ! (frag_index (ah w) ! parser_state w))"
    using len assms(2) by (simp_all add: nth_opt_def)
  have put: "data_put (ah w) 0 = Some (put_byte (ah w) 0)"
    using data_put_eq [OF assms(1,5), of 0] by (simp add: put_byte_def)
  show "libwebsocket_parse w 0x0d = Some (w\<lparr>parser_state := 26, ah := put_byte (ah w) 0\<rparr>, 0)"
    using assms h put by (simp add: libwebsocket_parse_def parse_collect_def LWS_MAX_HEADER_LEN_def)
  show "parser_state w = 0 \<Longrightarrow> len (frags (ah w) ! (frag_index (ah w) ! 0)) \<noteq> 0 \<Longrightarrow>
      libwebsocket_parse w 0x20 = Some (w\<lparr>parser_state := 25, ah := put_byte (ah w) 0\<rparr>, 0)"
    using assms h put by (simp add: libwebsocket_parse_def parse_collect_def LWS_MAX_HEADER_LEN_def)
qed

lemma parse_leading_space:
  assumes "ah_ok (ah w)" "parser_state w \<le> 16"
    and "len (frags (ah w) ! (frag_index (ah w) ! parser_state w)) = 0"
  shows "libwebsocket_parse w 0x20 = Some (w, 0)"
proof -
  have "frag_index (ah w) ! parser_state w \<le> next_frag_index (ah w)"
    using assms(2) by (intro frag_index_le [OF assms(1)]) simp
  then show ?thesis using assms ah_ok_lengths [OF assms(1)]
    by (simp add: libwebsocket_parse_def parse_collect_def nth_opt_def)
qed

definition plain_value :: "nat \<Rightarrow> bytes \<Rightarrow> bool" where
  "plain_value h v \<longleftrightarrow> 0 \<notin> set v \<and> 0x0d \<notin> set v \<and> (h = WSI_TOKEN_GET_URI \<longrightarrow> v \<noteq> [] \<and> 0x20 \<notin> set v) \<and>
     (v = [] \<or> hd v \<noteq> 0x20)"

lemma parse_value:
  assumes "ah_ok (ah w)" "parser_state w \<le> 16" "parser_state w \<noteq> 9"
    and "frag_index (ah w) ! parser_state w = next_frag_index (ah w)" "0 < next_frag_index (ah w)"
    and "pos (ah w) + length v \<le> 1024" "0 \<notin> set v" "0x0d \<notin> set v" "parser_state w = 0 \<Longrightarrow> 0x20 \<notin> set v"
    and "len (frags (ah w) ! next_frag_index (ah w)) \<noteq> 0 \<or> v = [] \<or> hd v \<noteq> 0x20"
  shows "parse_bytes w (v @ rest) = parse_bytes (w\<lparr>ah := collected (ah w) v\<rparr>) rest"
  using assms
proof (induction v arbitrary: w)
  case Nil
  then show ?case by simp
next
  case (Cons c v)
  have p: "pos (ah w) < 1024" using Cons.prems by simp
  have step: "libwebsocket_parse w c = Some (w\<lparr>ah := put_byte (ah w) c\<rparr>, 0)"
    using Cons.prems by (intro parse_collect_put p) auto
  have "len (frags (put_byte (ah w) c) ! next_frag_index (ah w)) \<noteq> 0"
    using Cons.prems ah_ok_lengths [of "ah w"] by (auto simp: put_byte_def Let_def)
  then show ?case
    using Cons.IH [of "w\<lparr>ah := put_byte (ah w) c\<rparr>"] Cons.prems step ah_ok_put_byte [OF Cons.prems(1) p]
    by simp
qed

section \<open>One header line\<close>

lemma parse_name_run:
  assumes "lex_run p s = Some n" "0 \<le> p" "p < 276" "even p" "ah_ok (ah w)" "parser_state w = 24"
    and "lextable_pos w = p" "n \<noteq> 12" "n \<noteq> 9" "n = 0 \<Longrightarrow> frag_index (ah w) ! 0 = 0"
  shows "\<exists>q. parse_bytes w (s @ rest) =
    do { (w, r) \<leftarrow> start_fragment (w\<lparr>lextable_pos := q, parser_state := n\<rparr>);
         if r \<noteq> 0 then Some (w, r) else parse_bytes w rest }"
  using assms
proof (induction s arbitrary: p w)
  case Nil
  then show ?case by simp
next
  case (Cons c s)
  note len = ah_ok_lengths [OF Cons.prems(5)]
  obtain q where q: "lextable_decode p c = Some q" "q = -1 \<or> 0 \<le> q \<and> q < 276 \<and> even q"
    using decode_defined [OF Cons.prems(2-4)] by blast
  with Cons.prems(1) have r: "0 \<le> q" "q < 276" "even q" by (auto split: if_splits)
  note entry = lex_entry [OF r]
  show ?case
  proof (cases "terminal q")
    case True
    then have n: "s = []" "n = unat (lextable ! nat q AND 0x7f)"
      using Cons.prems(1) q r by (auto simp: token_of_def split: if_splits)
    have "\<not> (n = 0 \<and> frag_index (ah w) ! 0 \<noteq> 0)" using Cons.prems(10) by blast
    then have "libwebsocket_parse w c = start_fragment (w\<lparr>lextable_pos := q, parser_state := n\<rparr>)"
      using True Cons.prems(1-9) n(2) [symmetric] q r entry(1) len
      by (cases "n = 0") (simp_all add: libwebsocket_parse_def parse_name_def nth_opt_def terminal_def Let_def)
    then show ?thesis using n(1) by (intro exI [of _ q]) simp
  next
    case False
    have step: "libwebsocket_parse w c = Some (w\<lparr>lextable_pos := q\<rparr>, 0)"
      using False Cons.prems q r entry(1)
      by (simp add: libwebsocket_parse_def parse_name_def nth_opt_def terminal_def Let_def)
    have "lex_run q s = Some n" using Cons.prems(1) q r False by simp
    from Cons.IH [OF this r, of "w\<lparr>lextable_pos := q\<rparr>"] Cons.prems step show ?thesis by simp
  qed
qed

text \<open>The table after one more header, whose value is complete.\<close>

definition add_header :: "allocated_headers \<Rightarrow> nat \<Rightarrow> bytes \<Rightarrow> allocated_headers" where
  "add_header a h v = put_byte (collected ((new_frag a)\<lparr>frag_index :=
     (frag_index a)[h := Suc (next_frag_index a)]\<rparr>) v) 0"

lemma add_header_simps [simp]:
  "next_frag_index (add_header a h v) = Suc (next_frag_index a)"
  "pos (add_header a h v) = pos a + length v + 1"
  "frag_index (add_header a h v) = (frag_index a)[h := Suc (next_frag_index a)]"
  by (simp_all add: add_header_def collected_fields)

lemma ah_ok_opened:
  assumes "ah_ok a" "Suc (next_frag_index a) < 46"
  shows "ah_ok ((new_frag a)\<lparr>frag_index := (frag_index a)[h := Suc (next_frag_index a)]\<rparr>)"
  using ah_ok_set_index [OF ah_ok_new_frag [OF assms], of h] by simp

lemma add_header_exact:
  assumes "table_exact a" "h < 23" "Suc (next_frag_index a) < 46" "pos a + length v < 1024" "0 \<notin> set v"
  shows "table_exact (add_header a h v)" "hdr_map (add_header a h v) = (hdr_map a)(h \<mapsto> v)"
proof -
  have a: "ah_ok a" and ex: "\<And>n. 0 < n \<Longrightarrow> n \<le> next_frag_index a \<Longrightarrow> frag_exact a n"
    using assms by (simp_all add: table_exact_def)
  note len = ah_ok_lengths [OF a]
  let ?o = "(new_frag a)\<lparr>frag_index := (frag_index a)[h := Suc (next_frag_index a)]\<rparr>"
  let ?k = "Suc (next_frag_index a)" and ?b = "add_header a h v"
  have b: "ah_ok ?b"
    unfolding add_header_def using assms a ah_ok_opened [OF a assms(3), of h]
    by (intro ah_ok_put_byte ah_ok_collected) (simp_all add: collected_fields)
  have d: "data ?b = take (pos a) (data a) @ v @ [0] @ drop (pos a + length v + 1) (data a)"
  proof -
    have "data (collected ?o v) = take (pos a) (data a) @ v @ drop (pos a + length v) (data a)"
      using collected_data [of ?o v] assms len by simp
    moreover have "drop (pos a + length v) (data a) =
        data a ! (pos a + length v) # drop (pos a + length v + 1) (data a)"
      using assms len by (simp add: Cons_nth_drop_Suc)
    ultimately show ?thesis
      using assms len by (simp add: add_header_def collected_fields list_update_append)
  qed
  have fs: "frags ?b = (frags a)[?k := \<lparr>offset = pos a, len = length v, next_frag = 0\<rparr>]"
    using collected_frags [of v ?o] assms len
    by (simp add: add_header_def put_byte_def new_frag_def)
  have new: "frag_content ?b ?k = v" "frag_exact ?b ?k"
    using d fs len assms by (simp_all add: frag_content_def frag_exact_def nth_append)
  have old: "frag_content ?b n = frag_content a n" "frag_exact ?b n"
    if "0 < n" "n \<le> next_frag_index a" for n
  proof -
    have x: "frag_exact a n" by (rule ex [OF that])
    then have "offset (frags a ! n) + len (frags a ! n) < pos a" by (simp add: frag_exact_def Let_def)
    then show c: "frag_content ?b n = frag_content a n"
      using that d fs len by (simp add: frag_content_def take_drop)
    show "frag_exact ?b n"
      using x c that d fs len by (simp add: frag_exact_def Let_def nth_append)
  qed
  show "table_exact ?b"
    using b new old by (auto simp: table_exact_def le_Suc_eq)
  show "hdr_map ?b = (hdr_map a)(h \<mapsto> v)"
  proof
    fix g
    have "frag_index a ! g \<le> next_frag_index a" if "g < 23" using that by (rule frag_index_le [OF a])
    then show "hdr_map ?b g = ((hdr_map a)(h \<mapsto> v)) g"
      using new old assms len by (auto simp: hdr_map_def nth_list_update)
  qed
qed

definition header_line :: "nat \<times> bytes \<Rightarrow> bytes" where
  "header_line = (\<lambda>(h, v). ascii (header_names ! h) @ [0x20] @ v @ [0x0d, 0x0a])"

definition request_header :: "nat \<Rightarrow> bool" where
  "request_header h \<longleftrightarrow> 0 < h \<and> h \<le> WSI_TOKEN_HTTP \<and> h \<noteq> WSI_TOKEN_CHALLENGE \<and> h \<noteq> WSI_TOKEN_SWORIGIN"

definition line_start :: "hdr_wsi \<Rightarrow> bool" where
  "line_start w \<longleftrightarrow> table_exact (ah w) \<and> parser_state w = WSI_TOKEN_NAME_PART \<and> lextable_pos w = 0"

text \<open>A name, perhaps a blank, and a value up to the end of the line.\<close>

lemma parse_name_value:
  assumes w: "line_start w" and h: "request_header h" and v: "plain_value h v"
    and fresh: "hdr_map (ah w) h = None" and room: "Suc (next_frag_index (ah w)) < 46"
    and fits: "pos (ah w) + length v < 1024" and blank: "b \<in> {[], [0x20]}"
  shows "\<exists>w'. line_start w' \<and> ah w' = add_header (ah w) h v \<and>
    ietf_spec_revision w' = ietf_spec_revision w \<and>
    parse_bytes w (ascii (header_names ! h) @ b @ v @ [0x0d, 0x0a] @ rest) = parse_bytes w' rest"
proof -
  have a: "ah_ok (ah w)" and st: "parser_state w = 24" "lextable_pos w = 0"
    using w by (simp_all add: line_start_def table_exact_def)
  note len = ah_ok_lengths [OF a]
  have h': "h < 23" "h \<le> 16" "h \<noteq> 9" "h \<noteq> 12" "h < 17" "0 < h"
    using h by (simp_all add: request_header_def)
  have f0: "frag_index (ah w) ! h = 0" using fresh h' by (simp add: hdr_map_def split: if_splits)
  let ?text = "ascii (header_names ! h) @ b @ v @ [0x0d, 0x0a] @ rest"
  have "lex_run 0 (ascii (header_names ! h)) = Some h" using h' by (simp add: lex_run_names)
  from parse_name_run [OF this _ _ _ a st, of "b @ v @ [0x0d, 0x0a] @ rest"] h' obtain q where
    q: "parse_bytes w ?text =
      do { (w, r) \<leftarrow> start_fragment (w\<lparr>lextable_pos := q, parser_state := h\<rparr>);
           if r \<noteq> 0 then Some (w, r) else parse_bytes w (b @ v @ [0x0d, 0x0a] @ rest) }"
    by auto
  let ?o = "(new_frag (ah w))\<lparr>frag_index := (frag_index (ah w))[h := Suc (next_frag_index (ah w))]\<rparr>"
  let ?w1 = "w\<lparr>lextable_pos := q, parser_state := h, ah := ?o\<rparr>"
  have o: "ah_ok ?o" by (rule ah_ok_opened [OF a room])
  have "start_fragment (w\<lparr>lextable_pos := q, parser_state := h\<rparr>) = Some (?w1, 0)"
    using start_fragment_first [of "w\<lparr>lextable_pos := q, parser_state := h\<rparr>"] a room h' f0 by simp
  then have 1: "parse_bytes w ?text = parse_bytes ?w1 (b @ v @ [0x0d, 0x0a] @ rest)"
    using q by simp
  have len0: "frags ?o ! Suc (next_frag_index (ah w)) = \<lparr>offset = pos (ah w), len = 0, next_frag = 0\<rparr>"
    using nth_new_frag [OF a room] by simp
  have "libwebsocket_parse ?w1 0x20 = Some (?w1, 0)"
    using o h' len len0 by (intro parse_leading_space) simp_all
  then have 2: "parse_bytes ?w1 (b @ v @ [0x0d, 0x0a] @ rest) = parse_bytes ?w1 (v @ [0x0d, 0x0a] @ rest)"
    using blank by auto
  let ?w2 = "?w1\<lparr>ah := collected ?o v\<rparr>"
  have 3: "parse_bytes ?w1 (v @ [0x0d, 0x0a] @ rest) = parse_bytes ?w2 ([0x0d, 0x0a] @ rest)"
    using parse_value [of ?w1 v "[0x0d, 0x0a] @ rest"] o h' len v fits by (simp add: plain_value_def)
  have c: "ah_ok (collected ?o v)" using o fits by (intro ah_ok_collected) simp_all
  have "libwebsocket_parse ?w2 0x0d = Some (?w2\<lparr>parser_state := 26, ah := add_header (ah w) h v\<rparr>, 0)"
    using parse_collect_nul(1) [of ?w2] c h' len fits by (simp add: collected_fields add_header_def)
  moreover have "libwebsocket_parse (?w2\<lparr>parser_state := 26, ah := add_header (ah w) h v\<rparr>) 0x0a =
      Some (?w2\<lparr>parser_state := 24, ah := add_header (ah w) h v, lextable_pos := 0\<rparr>, 0)"
    by (simp add: libwebsocket_parse_def)
  ultimately have "parse_bytes ?w2 ([0x0d, 0x0a] @ rest) =
      parse_bytes (?w2\<lparr>parser_state := 24, ah := add_header (ah w) h v, lextable_pos := 0\<rparr>) rest"
    by simp
  moreover have "line_start (?w2\<lparr>parser_state := 24, ah := add_header (ah w) h v, lextable_pos := 0\<rparr>)"
    using add_header_exact(1) [of "ah w" h v] w h' room fits v by (simp add: line_start_def plain_value_def)
  ultimately show ?thesis using 1 2 3
    by (intro exI [of _ "?w2\<lparr>parser_state := 24, ah := add_header (ah w) h v, lextable_pos := 0\<rparr>"]) simp
qed

lemma parse_header_line:
  assumes "line_start w" "request_header h" "plain_value h v" "hdr_map (ah w) h = None"
    and "Suc (next_frag_index (ah w)) < 46" "pos (ah w) + length v < 1024"
  shows "\<exists>w'. line_start w' \<and> ah w' = add_header (ah w) h v \<and>
    ietf_spec_revision w' = ietf_spec_revision w \<and>
    parse_bytes w (header_line (h, v) @ rest) = parse_bytes w' rest"
  using parse_name_value [OF assms, of "[0x20]" rest] by (simp add: header_line_def)

section \<open>A whole request\<close>

fun add_headers :: "allocated_headers \<Rightarrow> (nat \<times> bytes) list \<Rightarrow> allocated_headers" where
  "add_headers a [] = a"
| "add_headers a ((h, v) # hs) = add_headers (add_header a h v) hs"

definition space_needed :: "(nat \<times> bytes) list \<Rightarrow> nat" where
  "space_needed hs = sum_list (map (\<lambda>(h, v). length v + 1) hs)"

lemma parse_header_lines:
  assumes "line_start w" "\<forall>(h, v) \<in> set hs. request_header h \<and> plain_value h v"
    and "distinct (map fst hs)" "\<forall>h \<in> fst ` set hs. hdr_map (ah w) h = None"
    and "next_frag_index (ah w) + length hs < 46" "pos (ah w) + space_needed hs \<le> 1024"
  shows "\<exists>w'. line_start w' \<and> hdr_map (ah w') = hdr_map (ah w) ++ map_of hs \<and>
    ietf_spec_revision w' = ietf_spec_revision w \<and>
    parse_bytes w (concat (map header_line hs) @ rest) = parse_bytes w' rest"
  using assms
proof (induction hs arbitrary: w)
  case Nil
  then show ?case by auto
next
  case (Cons hv hs)
  obtain h v where hv: "hv = (h, v)" by (cases hv)
  have h: "request_header h" "plain_value h v" "hdr_map (ah w) h = None"
    using Cons.prems by (auto simp: hv)
  have room: "Suc (next_frag_index (ah w)) < 46" "pos (ah w) + length v < 1024"
    using Cons.prems by (simp_all add: hv space_needed_def)
  obtain w1 where w1: "line_start w1" "ah w1 = add_header (ah w) h v"
      "ietf_spec_revision w1 = ietf_spec_revision w"
      "parse_bytes w (header_line (h, v) @ concat (map header_line hs) @ rest) =
        parse_bytes w1 (concat (map header_line hs) @ rest)"
    using parse_header_line [OF Cons.prems(1) h room] by blast
  have map1: "hdr_map (ah w1) = (hdr_map (ah w))(h \<mapsto> v)"
    unfolding w1(2) using Cons.prems(1) h room
    by (intro add_header_exact(2)) (auto simp: line_start_def request_header_def plain_value_def)
  have "\<exists>w'. line_start w' \<and> hdr_map (ah w') = hdr_map (ah w1) ++ map_of hs \<and>
      ietf_spec_revision w' = ietf_spec_revision w1 \<and>
      parse_bytes w1 (concat (map header_line hs) @ rest) = parse_bytes w' rest"
    using Cons.prems map1 w1 by (intro Cons.IH) (auto simp: hv space_needed_def)
  then obtain w' where w': "line_start w'" "hdr_map (ah w') = hdr_map (ah w1) ++ map_of hs"
      "ietf_spec_revision w' = ietf_spec_revision w1"
      "parse_bytes w1 (concat (map header_line hs) @ rest) = parse_bytes w' rest" by blast
  have "map_of hs h = None" using Cons.prems(3) by (simp add: hv map_of_eq_None_iff)
  then have "hdr_map (ah w1) ++ map_of hs = hdr_map (ah w) ++ map_of (hv # hs)"
    unfolding map1 hv by (auto simp: map_add_def fun_eq_iff split: option.split)
  with w'(2) have "hdr_map (ah w') = hdr_map (ah w) ++ map_of (hv # hs)" by (rule trans)
  moreover have "parse_bytes w (concat (map header_line (hv # hs)) @ rest) = parse_bytes w' rest"
    using w1(4) w'(4) by (simp add: hv)
  moreover have "ietf_spec_revision w' = ietf_spec_revision w" using w'(3) w1(3) by simp
  ultimately show ?case using w'(1) by blast
qed

text \<open>The request line: the URI is filed under \<open>WSI_TOKEN_GET_URI\<close>, the version is skipped.\<close>

definition request_line :: "bytes \<Rightarrow> bytes" where
  "request_line uri = ascii ''GET '' @ uri @ ascii '' HTTP/1.1'' @ [0x0d, 0x0a]"

lemma parse_request_line:
  assumes w: "line_start w" and v: "plain_value 0 uri"
    and fresh: "hdr_map (ah w) 0 = None" and room: "Suc (next_frag_index (ah w)) < 46"
    and fits: "pos (ah w) + length uri < 1024"
  shows "\<exists>w'. line_start w' \<and> ah w' = add_header (ah w) 0 uri \<and>
    ietf_spec_revision w' = ietf_spec_revision w \<and>
    parse_bytes w (request_line uri @ rest) = parse_bytes w' rest"
proof -
  have a: "ah_ok (ah w)" and st: "parser_state w = 24" "lextable_pos w = 0"
    using w by (simp_all add: line_start_def table_exact_def)
  note len = ah_ok_lengths [OF a]
  have f0: "frag_index (ah w) ! 0 = 0" using fresh by (simp add: hdr_map_def split: if_splits)
  let ?tail = "ascii '' HTTP/1.1'' @ [0x0d, 0x0a] @ rest"
  have "lex_run 0 (ascii ''GET '') = Some 0" by (simp add: lex_run_names header_names_def)
  from parse_name_run [OF this _ _ _ a st, of "uri @ ?tail"] f0 obtain q where
    q: "parse_bytes w (request_line uri @ rest) =
      do { (w, r) \<leftarrow> start_fragment (w\<lparr>lextable_pos := q, parser_state := 0\<rparr>);
           if r \<noteq> 0 then Some (w, r) else parse_bytes w (uri @ ?tail) }"
    by (auto simp: request_line_def)
  let ?o = "(new_frag (ah w))\<lparr>frag_index := (frag_index (ah w))[0 := Suc (next_frag_index (ah w))]\<rparr>"
  let ?w1 = "w\<lparr>lextable_pos := q, parser_state := 0, ah := ?o\<rparr>"
  have o: "ah_ok ?o" by (rule ah_ok_opened [OF a room])
  have "start_fragment (w\<lparr>lextable_pos := q, parser_state := 0\<rparr>) = Some (?w1, 0)"
    using start_fragment_first [of "w\<lparr>lextable_pos := q, parser_state := 0\<rparr>"] a room f0 by simp
  then have 1: "parse_bytes w (request_line uri @ rest) = parse_bytes ?w1 (uri @ ?tail)"
    using q by simp
  let ?w2 = "?w1\<lparr>ah := collected ?o uri\<rparr>"
  have "hd uri \<noteq> 0x20" using v by (auto simp: plain_value_def)
  then have 2: "parse_bytes ?w1 (uri @ ?tail) = parse_bytes ?w2 ?tail"
    using parse_value [of ?w1 uri ?tail] o len v fits by (simp add: plain_value_def)
  have c: "ah_ok (collected ?o uri)" using o fits by (intro ah_ok_collected) simp_all
  have "len (frags (collected ?o uri) ! Suc (next_frag_index (ah w))) \<noteq> 0"
    using collected_frags [of uri ?o] v len room by (simp add: plain_value_def new_frag_def)
  then have sp: "libwebsocket_parse ?w2 0x20 = Some (?w2\<lparr>parser_state := 25, ah := add_header (ah w) 0 uri\<rparr>, 0)"
    using parse_collect_nul(2) [of ?w2] c len fits by (simp add: collected_fields add_header_def)
  let ?w3 = "?w2\<lparr>parser_state := 25, ah := add_header (ah w) 0 uri\<rparr>"
  have skip: "libwebsocket_parse ?w3 c = Some (?w3, 0)" if "c \<noteq> 0x0d" for c
    using that by (simp add: libwebsocket_parse_def)
  have cr: "libwebsocket_parse ?w3 0x0d = Some (?w3\<lparr>parser_state := 26\<rparr>, 0)"
    "libwebsocket_parse (?w3\<lparr>parser_state := 26\<rparr>) 0x0a = Some (?w3\<lparr>parser_state := 24, lextable_pos := 0\<rparr>, 0)"
    by (simp_all add: libwebsocket_parse_def)
  have tail: "?tail = [0x20, 0x48, 0x54, 0x54, 0x50, 0x2f, 0x31, 0x2e, 0x31, 0x0d, 0x0a] @ rest"
    by (simp add: ascii_def)
  have "parse_bytes ?w2 ?tail = parse_bytes (?w3\<lparr>parser_state := 24, lextable_pos := 0\<rparr>) rest"
    unfolding tail using sp skip cr by simp
  moreover have "line_start (?w3\<lparr>parser_state := 24, lextable_pos := 0\<rparr>)"
    using add_header_exact(1) [of "ah w" 0 uri] w room fits v by (simp add: line_start_def plain_value_def)
  ultimately show ?thesis using 1 2
    by (intro exI [of _ "?w3\<lparr>parser_state := 24, lextable_pos := 0\<rparr>"]) simp
qed

text \<open>The empty line ends the request and sets the protocol revision.\<close>

definition spec_revision :: "(nat \<rightharpoonup> bytes) \<Rightarrow> u8 \<Rightarrow> u8" where
  "spec_revision m old =
     (case (m WSI_TOKEN_UPGRADE, m WSI_TOKEN_VERSION) of
        (Some u, Some v) \<Rightarrow> if u \<noteq> [] \<and> v \<noteq> [] then word_of_int (atoi v) else old
      | _ \<Rightarrow> old)"

lemma parse_end:
  assumes w: "line_start w"
  shows "\<exists>w'. parse_bytes w [0x0d, 0x0a] = Some (w', 0) \<and> ah w' = ah w \<and>
    parser_state w' = WSI_PARSING_COMPLETE \<and> hdr_parsing_completed w' \<and>
    ietf_spec_revision w' = spec_revision (hdr_map (ah w)) (ietf_spec_revision w)"
proof -
  have t: "table_exact (ah w)" and st: "parser_state w = 24" "lextable_pos w = 0"
    using w by (simp_all add: line_start_def)
  then have a: "ah_ok (ah w)" by (simp add: table_exact_def)
  note len = ah_ok_lengths [OF a]
  let ?w1 = "w\<lparr>lextable_pos := 176\<rparr>"
  let ?w2 = "?w1\<lparr>lextable_pos := 178, parser_state := 9\<rparr>"
  have 1: "libwebsocket_parse w 0x0d = Some (?w1, 0)"
    using st by (simp add: libwebsocket_parse_def parse_name_def decode_eqs_more nth_opt_def lextable_nth)
  have 2: "libwebsocket_parse ?w1 0x0a = do { w \<leftarrow> set_parsing_complete ?w2; Some (w, 0) }"
    using st len
    by (simp add: libwebsocket_parse_def parse_name_def decode_eqs_last nth_opt_def lextable_nth Let_def)
  have tl: "lws_hdr_total_length (ah w) 6 = Some (case hdr_map (ah w) 6 of None \<Rightarrow> 0 | Some v \<Rightarrow> length v)"
    "lws_hdr_total_length (ah w) 11 = Some (case hdr_map (ah w) 11 of None \<Rightarrow> 0 | Some v \<Rightarrow> length v)"
    by (rule total_length_map [OF t]; simp)+
  have "\<exists>w'. set_parsing_complete ?w2 = Some w' \<and> ah w' = ah w \<and> parser_state w' = 27 \<and>
      hdr_parsing_completed w' \<and> ietf_spec_revision w' = spec_revision (hdr_map (ah w)) (ietf_spec_revision w)"
    using simple_ptr_map [OF t, of 11] tl
    by (auto simp: set_parsing_complete_def spec_revision_def split: option.splits)
  then show ?thesis using 1 2 by auto
qed

definition http_request :: "bytes \<Rightarrow> (nat \<times> bytes) list \<Rightarrow> bytes" where
  "http_request uri hs = request_line uri @ concat (map header_line hs) @ [0x0d, 0x0a]"

definition good_request :: "bytes \<Rightarrow> (nat \<times> bytes) list \<Rightarrow> bool" where
  "good_request uri hs \<longleftrightarrow> plain_value WSI_TOKEN_GET_URI uri \<and>
     (\<forall>(h, v) \<in> set hs. request_header h \<and> plain_value h v) \<and> distinct (map fst hs) \<and>
     length hs < 45 \<and> length uri + 1 + space_needed hs \<le> LWS_MAX_HEADER_LEN"

lemma parse_http_request:
  assumes "line_start w" "hdr_map (ah w) = Map.empty" "next_frag_index (ah w) = 0" "pos (ah w) = 0"
    and "good_request uri hs"
  shows "\<exists>w'. parse_bytes w (http_request uri hs) = Some (w', 0) \<and> table_exact (ah w') \<and>
    hdr_map (ah w') = (map_of hs)(WSI_TOKEN_GET_URI \<mapsto> uri) \<and>
    parser_state w' = WSI_PARSING_COMPLETE \<and>
    ietf_spec_revision w' = spec_revision (map_of hs) (ietf_spec_revision w)"
proof -
  have r: "plain_value 0 uri" "\<forall>(h, v) \<in> set hs. request_header h \<and> plain_value h v"
      "distinct (map fst hs)" "length hs < 45" "length uri + 1 + space_needed hs \<le> 1024"
    using assms(5) by (simp_all add: good_request_def LWS_MAX_HEADER_LEN_def)
  let ?rest = "concat (map header_line hs) @ [0x0d, 0x0a]"
  obtain w1 where w1: "line_start w1" "ah w1 = add_header (ah w) 0 uri"
      "ietf_spec_revision w1 = ietf_spec_revision w"
      "parse_bytes w (http_request uri hs) = parse_bytes w1 ?rest"
    using parse_request_line [OF assms(1) r(1), of ?rest] assms r by (auto simp: http_request_def)
  have m1: "hdr_map (ah w1) = [0 \<mapsto> uri]"
    unfolding w1(2) using assms r add_header_exact(2) [of "ah w" 0 uri]
    by (simp add: line_start_def plain_value_def)
  have "0 \<notin> fst ` set hs" using r(2) by (auto simp: request_header_def)
  then have n0: "map_of hs 0 = None" "h \<in> fst ` set hs \<Longrightarrow> hdr_map (ah w1) h = None" for h
    by (simp add: map_of_eq_None_iff, cases "h = 0") (simp_all add: m1)
  obtain w2 where w2: "line_start w2" "hdr_map (ah w2) = hdr_map (ah w1) ++ map_of hs"
      "ietf_spec_revision w2 = ietf_spec_revision w1"
      "parse_bytes w1 ?rest = parse_bytes w2 [0x0d, 0x0a]"
    using parse_header_lines [OF w1(1) r(2,3) ballI [OF n0(2)], of "[0x0d, 0x0a]"] w1(2) assms(3,4) r(4,5)
    by auto
  have m2: "hdr_map (ah w2) = (map_of hs)(0 \<mapsto> uri)"
    using n0 unfolding w2(2) m1 by (auto simp: map_add_def fun_eq_iff split: option.split)
  then have "spec_revision (hdr_map (ah w2)) x = spec_revision (map_of hs) x" for x
    by (simp add: spec_revision_def)
  then show ?thesis
    using parse_end [OF w2(1)] w1 w2 m2 by (auto simp: line_start_def)
qed

end
