(* ===== verification/Header_Properties.thy ===== *)
theory Header_Properties
  imports Header_Request
begin

text \<open>
  The properties of the header recogniser and of the header parser: what the generated table
  recognises, memory safety for every input, and the contents of the header table after a
  well-formed request.
\<close>

text \<open>\<open>minilex.c\<close>, run on its list of header names, prints exactly the table that \<open>parsers.c\<close>
  carries.\<close>

theorem lextable_is_generated: "minilex set_codes = Some lextable"
  by (rule minilex_lextable_eq)

text \<open>C21: for every byte string of any length: walking the table of \<open>parsers.c\<close> with \<open>lextable_decode\<close>, from its start and a byte
  at a time as the parser does, recognises token \<open>n\<close> at the end of the string, and not before, if and only if the
  string is the \<open>n\<close>-th header name: no other string is taken for a header and no header is missed. The walk never leaves
  the table for a string it recognises.\<close>

theorem header_names_recognised:
  "lex_run 0 s = Some n \<longleftrightarrow> n < 17 \<and> s = ascii (header_names ! n)"
  by (rule lex_run_names)

text \<open>C7: whatever bytes a peer sends, \<open>libwebsocket_parse\<close> started on a fresh header table never reads or
  writes outside of its arrays, never loops along a chain of fragments, and returns 0 or -1; as
  long as it returns 0 the table stays within its bounds.\<close>

theorem parser_memory_safe:
  assumes "mem_ok mem" "lws_allocate_header_table (Some mem) = (Some a, r)"
  shows "r = 0 \<and> (\<exists>w' r'. parse_bytes (new_hdr a) cs = Some (w', r') \<and> (r' = 0 \<or> r' = -1) \<and>
    (r' = 0 \<longrightarrow> pos (ah w') \<le> LWS_MAX_HEADER_LEN \<and> next_frag_index (ah w') < FRAGS \<and> hdr_ok w'))"
  using parse_bytes_safe [OF hdr_ok_new [OF assms], of cs] ah_ok_alloc [OF assms]
  by (fastforce simp: hdr_ok_def ah_ok_def)

definition zero_mem :: allocated_headers where
  "zero_mem = \<lparr>next_frag_index = 7, pos = 9, frag_index = [], frags = replicate FRAGS \<lparr>offset = 3, len = 4, next_frag = 1\<rparr>,
     data = replicate LWS_MAX_HEADER_LEN 1\<rparr>"

definition zero_table :: allocated_headers where
  "zero_table = zero_mem\<lparr>frag_index := replicate WSI_TOKEN_COUNT 0, next_frag_index := 0, pos := 0\<rparr>"

lemma zero_table_alloc: "mem_ok zero_mem" "lws_allocate_header_table (Some zero_mem) = (Some zero_table, 0)"
  by (simp_all add: mem_ok_def zero_mem_def zero_table_def lws_allocate_header_table_def)

theorem parser_memory_safe_witness:
  "(0 :: int) = 0 \<and> (\<exists>w' r'. parse_bytes (new_hdr zero_table) [0xff, 0x00] = Some (w', r') \<and> (r' = 0 \<or> r' = -1) \<and>
    (r' = 0 \<longrightarrow> pos (ah w') \<le> LWS_MAX_HEADER_LEN \<and> next_frag_index (ah w') < FRAGS \<and> hdr_ok w'))"
  by (rule parser_memory_safe [OF zero_table_alloc])

text \<open>C6: a well-formed request is parsed completely: the parser ends in \<open>WSI_PARSING_COMPLETE\<close>, the table
  is the map of the URI and of every header to its value, and the protocol revision is the number in
  the version header when there is an upgrade header.\<close>

theorem request_parsed:
  assumes "mem_ok mem" "lws_allocate_header_table (Some mem) = (Some a, r)" "good_request uri hs"
  shows "\<exists>w'. parse_bytes (new_hdr a) (http_request uri hs) = Some (w', 0) \<and>
    hdr_map (ah w') = (map_of hs)(WSI_TOKEN_GET_URI \<mapsto> uri) \<and> table_exact (ah w') \<and>
    parser_state w' = WSI_PARSING_COMPLETE \<and>
    ietf_spec_revision w' = spec_revision (map_of hs) 0"
proof -
  have "line_start (new_hdr a)" "ah (new_hdr a) = a" "ietf_spec_revision (new_hdr a) = 0"
    using table_exact_alloc(1) [OF assms(1,2)] by (simp_all add: line_start_def new_hdr_def)
  then show ?thesis
    using parse_http_request [of "new_hdr a" uri hs] table_exact_alloc [OF assms(1,2)] assms(3) by auto
qed

theorem request_parsed_witness:
  "\<exists>w'. parse_bytes (new_hdr zero_table)
      (http_request (ascii ''/chat'') [(1, ascii ''localhost''), (6, ascii ''websocket''), (11, ascii ''13'')]) = Some (w', 0) \<and>
    hdr_map (ah w') = (map_of [(1, ascii ''localhost''), (6, ascii ''websocket''), (11, ascii ''13'')])
      (WSI_TOKEN_GET_URI \<mapsto> ascii ''/chat'') \<and> table_exact (ah w') \<and>
    parser_state w' = WSI_PARSING_COMPLETE \<and>
    ietf_spec_revision w' = spec_revision (map_of [(1, ascii ''localhost''), (6, ascii ''websocket''), (11, ascii ''13'')]) 0"
  by (rule request_parsed [OF zero_table_alloc])
    (simp add: good_request_def plain_value_def request_header_def space_needed_def LWS_MAX_HEADER_LEN_def ascii_def)

text \<open>C22: on a table the parser filled, the accessors return what the map holds: \<open>lws_hdr_total_length\<close> the
  length of the value, 0 when there is none, \<open>lws_hdr_simple_ptr\<close> a C string that is the value, and
  \<open>lws_hdr_copy\<close> the value with its terminator, or -1 when the buffer cannot hold both.\<close>

theorem accessors_read_the_map:
  assumes "table_exact a" "h < WSI_TOKEN_COUNT" "hdr_map a h = Some v"
  shows "lws_hdr_total_length a h = Some (length v) \<and>
    (\<exists>off. lws_hdr_simple_ptr a h = Some (Some off) \<and> c_string (data a) off = Some v) \<and>
    lws_hdr_copy a dest (int (length dest)) h =
      Some (if length v < length dest then (v @ [0] @ drop (length v + 1) dest, int (length v)) else (dest, -1))"
  using total_length_map [OF assms(1,2)] simple_ptr_map [OF assms(1,2)] assms(3)
    hdr_copy_map [OF assms, of dest]
  by (auto simp: lws_hdr_copy_def)

definition host_table :: allocated_headers where
  "host_table = add_header zero_table WSI_TOKEN_HOST (ascii ''localhost'')"

lemma host_table_exact: "table_exact host_table" "hdr_map host_table = [WSI_TOKEN_HOST \<mapsto> ascii ''localhost'']"
  using add_header_exact [of zero_table 1 "ascii ''localhost''"] table_exact_alloc [OF zero_table_alloc]
  by (simp_all add: host_table_def ascii_def)

theorem accessors_read_the_map_witness:
  "lws_hdr_total_length host_table WSI_TOKEN_HOST = Some (length (ascii ''localhost'')) \<and>
    (\<exists>off. lws_hdr_simple_ptr host_table WSI_TOKEN_HOST = Some (Some off) \<and>
       c_string (data host_table) off = Some (ascii ''localhost'')) \<and>
    lws_hdr_copy host_table (replicate 4 0) (int (length (replicate 4 (0 :: u8)))) WSI_TOKEN_HOST =
      Some (if length (ascii ''localhost'') < length (replicate 4 (0 :: u8))
        then (ascii ''localhost'' @ [0] @ drop (length (ascii ''localhost'') + 1) (replicate 4 0), int (length (ascii ''localhost'')))
        else (replicate 4 0, -1))"
  by (rule accessors_read_the_map) (simp_all add: host_table_exact)

end
