(* ===== verification/Ws_State.thy ===== *)
theory Ws_State
  imports Prelude "HOL-Library.Monad_Syntax"
begin

text \<open>
  The state of one websocket connection, from \<open>lib/private-libwebsockets.h\<close>, and what the
  library calls out to: the socket, the extensions that are active on the connection, the
  callback of the protocol and the callback of protocol 0 that mirrors the poll table. The callouts
  are function pointers or library functions in the code; here they are the fields of \<open>ws_ops\<close>,
  functions over an environment of an arbitrary type \<open>'e\<close>. Callbacks receive the connection and may
  change it. The set of active extensions is fixed while a function of this layer runs. The target is
  the build of the repository: Win32, so \<open>size_t\<close> has 32 bits and \<open>__LP64__\<close> is not defined, with
  extensions.
\<close>

section \<open>Constants\<close>

type_synonym size_t = u32

definition LWS_SEND_BUFFER_PRE_PADDING :: nat where
  "LWS_SEND_BUFFER_PRE_PADDING = 4 + 10 + 2 * 2"

definition LWS_SEND_BUFFER_POST_PADDING :: nat where
  "LWS_SEND_BUFFER_POST_PADDING = 4"

definition LWS_MAX_SOCKET_IO_BUF :: nat where
  "LWS_MAX_SOCKET_IO_BUF = 4096"

abbreviation (input) "OPCODE_CONTINUATION \<equiv> 0 :: u8"
abbreviation (input) "OPCODE_TEXT_FRAME \<equiv> 1 :: u8"
abbreviation (input) "OPCODE_BINARY_FRAME \<equiv> 2 :: u8"
abbreviation (input) "OPCODE_CLOSE \<equiv> 8 :: u8"
abbreviation (input) "OPCODE_PING \<equiv> 9 :: u8"
abbreviation (input) "OPCODE_PONG \<equiv> 0xa :: u8"

abbreviation (input) "LWS_WRITE_TEXT \<equiv> 0 :: u8"
abbreviation (input) "LWS_WRITE_BINARY \<equiv> 1 :: u8"
abbreviation (input) "LWS_WRITE_CONTINUATION \<equiv> 2 :: u8"
abbreviation (input) "LWS_WRITE_HTTP \<equiv> 3 :: u8"
abbreviation (input) "LWS_WRITE_CLOSE \<equiv> 4 :: u8"
abbreviation (input) "LWS_WRITE_PING \<equiv> 5 :: u8"
abbreviation (input) "LWS_WRITE_PONG \<equiv> 6 :: u8"
abbreviation (input) "LWS_WRITE_NO_FIN \<equiv> 0x40 :: u8"

abbreviation (input) "LWS_RXFLOW_ALLOW \<equiv> 1 :: 2 word"
abbreviation (input) "LWS_RXFLOW_PENDING_CHANGE \<equiv> 2 :: 2 word"

datatype lws_connection_states =
    WSI_STATE_HTTP
  | WSI_STATE_HTTP_ISSUING_FILE
  | WSI_STATE_HTTP_HEADERS
  | WSI_STATE_DEAD_SOCKET
  | WSI_STATE_ESTABLISHED
  | WSI_STATE_CLIENT_UNCONNECTED
  | WSI_STATE_RETURNED_CLOSE_ALREADY
  | WSI_STATE_AWAITING_CLOSE_ACK

datatype lws_rx_parse_state =
    LWS_RXPS_NEW
  | LWS_RXPS_04_MASK_NONCE_1
  | LWS_RXPS_04_MASK_NONCE_2
  | LWS_RXPS_04_MASK_NONCE_3
  | LWS_RXPS_04_FRAME_HDR_1
  | LWS_RXPS_04_FRAME_HDR_LEN
  | LWS_RXPS_04_FRAME_HDR_LEN16_2
  | LWS_RXPS_04_FRAME_HDR_LEN16_1
  | LWS_RXPS_04_FRAME_HDR_LEN64_8
  | LWS_RXPS_04_FRAME_HDR_LEN64_7
  | LWS_RXPS_04_FRAME_HDR_LEN64_6
  | LWS_RXPS_04_FRAME_HDR_LEN64_5
  | LWS_RXPS_04_FRAME_HDR_LEN64_4
  | LWS_RXPS_04_FRAME_HDR_LEN64_3
  | LWS_RXPS_04_FRAME_HDR_LEN64_2
  | LWS_RXPS_04_FRAME_HDR_LEN64_1
  | LWS_RXPS_07_COLLECT_FRAME_KEY_1
  | LWS_RXPS_07_COLLECT_FRAME_KEY_2
  | LWS_RXPS_07_COLLECT_FRAME_KEY_3
  | LWS_RXPS_07_COLLECT_FRAME_KEY_4
  | LWS_RXPS_PAYLOAD_UNTIL_LENGTH_EXHAUSTED

datatype connection_mode =
    LWS_CONNMODE_HTTP_SERVING
  | LWS_CONNMODE_HTTP_SERVING_ACCEPTED
  | LWS_CONNMODE_PRE_WS_SERVING_ACCEPT
  | LWS_CONNMODE_WS_SERVING
  | LWS_CONNMODE_WS_CLIENT
  | LWS_CONNMODE_SSL_ACK_PENDING
  | LWS_CONNMODE_WS_CLIENT_WAITING_CONNECT
  | LWS_CONNMODE_WS_CLIENT_WAITING_PROXY_REPLY
  | LWS_CONNMODE_WS_CLIENT_ISSUE_HANDSHAKE
  | LWS_CONNMODE_WS_CLIENT_WAITING_SSL
  | LWS_CONNMODE_WS_CLIENT_WAITING_SERVER_REPLY
  | LWS_CONNMODE_WS_CLIENT_WAITING_EXTENSION_CONNECT
  | LWS_CONNMODE_WS_CLIENT_PENDING_CANDIDATE_CHILD
  | LWS_CONNMODE_SERVER_LISTENER

section \<open>The connection\<close>

text \<open>
  \<open>ws_protocol\<close> holds the fields of \<open>struct libwebsocket_protocols\<close> this layer reads, and the index of the
  protocol in the array of the context, -1 for the null pointer. A buffer from
  \<open>malloc\<close> is the list of its bytes, a null pointer \<open>None\<close>. The \<open>events\<close> word of the entry of the
  connection in the table \<open>context->fds\<close> is kept with the connection, as its two flags.
\<close>

record ws_protocol =
  protocol_index :: int
  per_session_data_size :: nat
  rx_buffer_size :: nat
  no_buffer_all_partial_tx :: bool
  has_callback :: bool

record wsi =
  protocol :: ws_protocol
  sock :: int
  pending_timeout :: nat
  pending_timeout_limit :: u32
  user_space :: bool
  http_fd :: int
  http_filepos :: u32
  http_filelen :: u32
  extension_data_pending :: bool
  wsi_spec_revision :: u8
  mode :: connection_mode
  state :: lws_connection_states
  lws_rx_parse_state :: lws_rx_parse_state
  position_in_fds_table :: int
  events_POLLIN :: bool
  events_POLLOUT :: bool
  rx_user_buffer :: bytes
  rx_user_buffer_head :: nat
  frame_masking_nonce_04 :: bytes
  frame_mask_index :: u8
  rx_packet_length :: size_t
  opcode :: u8
  final :: bool
  rsv :: u8
  frame_is_binary :: bool
  all_zero_nonce :: bool
  close_reason :: u16
  rxflow_buffer :: "bytes option"
  rxflow_len :: nat
  rxflow_pos :: nat
  rxflow_change_to :: "2 word"
  this_frame_masked :: bool
  inside_frame :: bool
  clean_buffer :: bool
  truncated_send_malloc :: "bytes option"
  truncated_send_offset :: u32
  truncated_send_len :: u32

section \<open>Callouts\<close>

text \<open>
  \<open>lws_tokens\<close>: the pointer is a block of memory and an offset in it; \<open>token_moved\<close> says that an
  extension replaced the pointer by one of its own. The null pointer of the spill loops is an
  empty block.
\<close>

record lws_tokens =
  token_mem :: bytes
  token_pos :: nat
  token_len :: nat
  token_moved :: bool

definition token_bytes :: "lws_tokens \<Rightarrow> bytes option" where
  "token_bytes t = (if token_pos t + token_len t \<le> length (token_mem t)
     then Some (take (token_len t) (drop (token_pos t) (token_mem t))) else None)"

definition null_tokens :: lws_tokens where
  "null_tokens = \<lparr>token_mem = [], token_pos = 0, token_len = 0, token_moved = True\<rparr>"

datatype ext_reason =
    LWS_EXT_CALLBACK_SERVER_CONTEXT_CONSTRUCT
  | LWS_EXT_CALLBACK_CLIENT_CONTEXT_CONSTRUCT
  | LWS_EXT_CALLBACK_SERVER_CONTEXT_DESTRUCT
  | LWS_EXT_CALLBACK_CLIENT_CONTEXT_DESTRUCT
  | LWS_EXT_CALLBACK_CONSTRUCT
  | LWS_EXT_CALLBACK_CLIENT_CONSTRUCT
  | LWS_EXT_CALLBACK_CHECK_OK_TO_REALLY_CLOSE
  | LWS_EXT_CALLBACK_CHECK_OK_TO_PROPOSE_EXTENSION
  | LWS_EXT_CALLBACK_DESTROY
  | LWS_EXT_CALLBACK_DESTROY_ANY_WSI_CLOSING
  | LWS_EXT_CALLBACK_ANY_WSI_ESTABLISHED
  | LWS_EXT_CALLBACK_PACKET_RX_PREPARSE
  | LWS_EXT_CALLBACK_PACKET_TX_PRESEND
  | LWS_EXT_CALLBACK_PACKET_TX_DO_SEND
  | LWS_EXT_CALLBACK_HANDSHAKE_REPLY_TX
  | LWS_EXT_CALLBACK_FLUSH_PENDING_TX
  | LWS_EXT_CALLBACK_EXTENDED_PAYLOAD_RX
  | LWS_EXT_CALLBACK_CAN_PROXY_CLIENT_CONNECTION
  | LWS_EXT_CALLBACK_1HZ
  | LWS_EXT_CALLBACK_REQUEST_ON_WRITEABLE
  | LWS_EXT_CALLBACK_IS_WRITEABLE
  | LWS_EXT_CALLBACK_PAYLOAD_TX
  | LWS_EXT_CALLBACK_PAYLOAD_RX

datatype cb_reason =
    LWS_CALLBACK_ESTABLISHED
  | LWS_CALLBACK_CLIENT_CONNECTION_ERROR
  | LWS_CALLBACK_CLIENT_FILTER_PRE_ESTABLISH
  | LWS_CALLBACK_CLIENT_ESTABLISHED
  | LWS_CALLBACK_CLOSED
  | LWS_CALLBACK_CLOSED_HTTP
  | LWS_CALLBACK_RECEIVE
  | LWS_CALLBACK_CLIENT_RECEIVE
  | LWS_CALLBACK_CLIENT_RECEIVE_PONG
  | LWS_CALLBACK_CLIENT_WRITEABLE
  | LWS_CALLBACK_SERVER_WRITEABLE
  | LWS_CALLBACK_HTTP
  | LWS_CALLBACK_HTTP_FILE_COMPLETION
  | LWS_CALLBACK_HTTP_WRITEABLE
  | LWS_CALLBACK_FILTER_NETWORK_CONNECTION
  | LWS_CALLBACK_FILTER_PROTOCOL_CONNECTION
  | LWS_CALLBACK_OPENSSL_LOAD_EXTRA_CLIENT_VERIFY_CERTS
  | LWS_CALLBACK_OPENSSL_LOAD_EXTRA_SERVER_VERIFY_CERTS
  | LWS_CALLBACK_OPENSSL_PERFORM_CLIENT_CERT_VERIFICATION
  | LWS_CALLBACK_CLIENT_APPEND_HANDSHAKE_HEADER
  | LWS_CALLBACK_CONFIRM_EXTENSION_OKAY
  | LWS_CALLBACK_CLIENT_CONFIRM_EXTENSION_SUPPORTED
  | LWS_CALLBACK_PROTOCOL_INIT
  | LWS_CALLBACK_PROTOCOL_DESTROY
  | LWS_CALLBACK_ADD_POLL_FD
  | LWS_CALLBACK_DEL_POLL_FD
  | LWS_CALLBACK_SET_MODE_POLL_FD
  | LWS_CALLBACK_CLEAR_MODE_POLL_FD

text \<open>The events a call to the mirror of the poll table is about, none when an entry goes.\<close>

datatype poll_flag = POLLIN | POLLOUT | NO_EVENTS

type_synonym 'e conn = "wsi \<times> 'e"

type_synonym 'e ext = "ext_reason \<Rightarrow> lws_tokens \<Rightarrow> 'e conn \<Rightarrow> int \<times> lws_tokens \<times> 'e conn"

record 'e ws_ops =
  active_extensions :: "'e ext list"
  callback :: "cb_reason \<Rightarrow> bytes \<Rightarrow> 'e conn \<Rightarrow> int \<times> 'e conn"
  poll_callback :: "cb_reason \<Rightarrow> poll_flag \<Rightarrow> 'e conn \<Rightarrow> 'e conn"
  send :: "bytes \<Rightarrow> 'e \<Rightarrow> int \<times> 'e"
  choked :: "'e \<Rightarrow> bool \<times> 'e"
  rand :: "'e \<Rightarrow> u8 \<times> 'e"
  malloc_ok :: "nat \<Rightarrow> 'e \<Rightarrow> bool \<times> 'e"

text \<open>
  The three loops over \<open>active_extensions\<close>: every extension is called until one reports a fatal
  error, \<open>spill\<close> telling whether any returned non-zero; the first non-zero result ends the loop;
  every extension is called and the results are combined.
\<close>

fun ext_each ::
  "ext_reason \<Rightarrow> 'e ext list \<Rightarrow> bool \<Rightarrow> lws_tokens \<Rightarrow> 'e conn \<Rightarrow> bool \<times> bool \<times> lws_tokens \<times> 'e conn" where
  "ext_each r [] spill tok s = (False, spill, tok, s)"
| "ext_each r (f # fs) spill tok s =
     (let (m, tok, s) = f r tok s
      in if m < 0 then (True, spill, tok, s) else ext_each r fs (spill \<or> m \<noteq> 0) tok s)"

fun ext_first ::
  "ext_reason \<Rightarrow> 'e ext list \<Rightarrow> lws_tokens \<Rightarrow> 'e conn \<Rightarrow> int \<times> lws_tokens \<times> 'e conn" where
  "ext_first r [] tok s = (0, tok, s)"
| "ext_first r (f # fs) tok s =
     (let (m, tok, s) = f r tok s in if m \<noteq> 0 then (m, tok, s) else ext_first r fs tok s)"

fun ext_any ::
  "ext_reason \<Rightarrow> 'e ext list \<Rightarrow> bool \<Rightarrow> lws_tokens \<Rightarrow> 'e conn \<Rightarrow> bool \<times> lws_tokens \<times> 'e conn" where
  "ext_any r [] handled tok s = (handled, tok, s)"
| "ext_any r (f # fs) handled tok s =
     (let (m, tok, s) = f r tok s in ext_any r fs (handled \<or> m \<noteq> 0) tok s)"

section \<open>Poll flags and flow control\<close>

definition libwebsocket_callback_on_writable :: "'e ws_ops \<Rightarrow> 'e conn \<Rightarrow> int \<times> 'e conn" where
  "libwebsocket_callback_on_writable ops s =
     (let (handled, tok, w, e) =
        ext_any LWS_EXT_CALLBACK_REQUEST_ON_WRITEABLE (active_extensions ops) False null_tokens s
      in if handled then (1, w, e)
         else if position_in_fds_table w < 0 then (-1, w, e)
         else (1, poll_callback ops LWS_CALLBACK_SET_MODE_POLL_FD POLLOUT (w\<lparr>events_POLLOUT := True\<rparr>, e)))"

text \<open>\<open>_libwebsocket_rx_flow_control\<close>, which applies a change, and the function that requests one.\<close>

definition apply_rx_flow_control :: "'e ws_ops \<Rightarrow> 'e conn \<Rightarrow> int \<times> 'e conn" where
  "apply_rx_flow_control ops = (\<lambda>(w, e).
     if rxflow_change_to w AND LWS_RXFLOW_PENDING_CHANGE = 0 then (0, w, e)
     else if rxflow_buffer w \<noteq> None then (0, snd (libwebsocket_callback_on_writable ops (w, e)))
     else
       (let w = w\<lparr>rxflow_change_to := rxflow_change_to w AND NOT LWS_RXFLOW_PENDING_CHANGE\<rparr>;
            allow = (rxflow_change_to w AND LWS_RXFLOW_ALLOW \<noteq> 0);
            w = w\<lparr>events_POLLIN := allow\<rparr>
        in (1, poll_callback ops
              (if allow then LWS_CALLBACK_SET_MODE_POLL_FD else LWS_CALLBACK_CLEAR_MODE_POLL_FD) POLLIN (w, e))))"

definition libwebsocket_rx_flow_control :: "wsi \<Rightarrow> bool \<Rightarrow> wsi" where
  "libwebsocket_rx_flow_control w enable =
     (if (if enable then 1 else 0) = rxflow_change_to w AND LWS_RXFLOW_ALLOW then w
      else w\<lparr>rxflow_change_to := LWS_RXFLOW_PENDING_CHANGE OR (if enable then 1 else 0)\<rparr>)"

definition user_callback_handle_rxflow ::
  "'e ws_ops \<Rightarrow> cb_reason \<Rightarrow> bytes \<Rightarrow> 'e conn \<Rightarrow> int \<times> 'e conn" where
  "user_callback_handle_rxflow ops reason inp s =
     (let (n, s) = callback ops reason inp s
      in if n = 0 then apply_rx_flow_control ops s else (n, s))"

end
