(* ===== verification/Ws_Send.thy ===== *)
theory Ws_Send
  imports Ws_State
begin

text \<open>
  The sending half of the library, \<open>lib/output.c\<close> and \<open>lws_handle_POLLOUT_event\<close>: masking, framing in
  place in the buffer of the caller, handing bytes to the socket, keeping what it did not take. A
  result \<open>None\<close> is an access outside of the buffers or, in the loops that extensions
  control, not returning.
\<close>

section \<open>Handing bytes to the socket\<close>

text \<open>The part of \<open>lws_issue_raw\<close> after the send: \<open>n\<close> of the bytes of \<open>buf\<close> were taken.\<close>

definition handle_truncated_send :: "'e ws_ops \<Rightarrow> bytes \<Rightarrow> int \<Rightarrow> 'e conn \<Rightarrow> int \<times> 'e conn" where
  "handle_truncated_send ops buf n = (\<lambda>(w, e).
     if truncated_send_malloc w \<noteq> None then
       (let w = w\<lparr>truncated_send_offset := truncated_send_offset w + word_of_int n,
                  truncated_send_len := truncated_send_len w - word_of_int n\<rparr>
        in if truncated_send_len w = 0 then (n, w\<lparr>truncated_send_malloc := None\<rparr>, e)
           else (n, snd (libwebsocket_callback_on_writable ops (w, e))))
     else if n < int (length buf) then
       if clean_buffer w then (n, w, e)
       else
         (let (ok, e) = malloc_ok ops (length buf - nat n) e
          in if \<not> ok then (-1, w, e)
             else
               (let w = w\<lparr>truncated_send_malloc := Some (drop (nat n) buf), truncated_send_offset := 0,
                          truncated_send_len := word_of_nat (length buf - nat n)\<rparr>
                in (int (length buf), snd (libwebsocket_callback_on_writable ops (w, e)))))
     else (n, w, e))"

definition lws_issue_raw :: "'e ws_ops \<Rightarrow> bytes \<Rightarrow> 'e conn \<Rightarrow> (int \<times> 'e conn) option" where
  "lws_issue_raw ops buf s =
     (let (m, tok, w, e) = ext_first LWS_EXT_CALLBACK_PACKET_TX_DO_SEND (active_extensions ops)
        \<lparr>token_mem = buf, token_pos = 0, token_len = length buf, token_moved = False\<rparr> s
      in if m < 0 then Some (-1, w, e)
         else do {
           buf \<leftarrow> token_bytes (tok\<lparr>token_len := length buf\<rparr>);
           if m \<noteq> 0 then Some (handle_truncated_send ops buf m (w, e))
           else
             (let (n, e) = send ops buf e
              in if n < 0 then Some (-1, w, e) else Some (handle_truncated_send ops buf n (w, e))) })"

text \<open>The loop ends when no extension has more to spill, or the pipe is choked; the flag is \<open>return -1\<close>.\<close>

partial_function (option) ext_access_loop ::
  "'e ws_ops \<Rightarrow> lws_tokens \<Rightarrow> 'e conn \<Rightarrow> (bool \<times> 'e conn) option" where
  "ext_access_loop ops tok s =
     (let (failed, spill, tok, w, e) =
        ext_each LWS_EXT_CALLBACK_PACKET_TX_PRESEND (active_extensions ops) False tok s
      in if failed then Some (True, w, e)
         else
           Option.bind
             (let w = (if token_moved tok then w\<lparr>clean_buffer := False\<rparr> else w)
              in if token_len tok \<noteq> 0
                 then Option.bind (token_bytes tok) (\<lambda>b. lws_issue_raw ops b (w, e))
                 else Some (0, w, e))
             (\<lambda>(n, w, e).
               if n < 0 then Some (True, w, e)
               else if \<not> spill then Some (False, w, e)
               else
                 (let (full, e) = choked ops e
                  in if \<not> full \<and> truncated_send_malloc w = None
                     then ext_access_loop ops null_tokens (w, e)
                     else
                       (let (r, w, e) = libwebsocket_callback_on_writable ops (w, e)
                        in Some (False, w\<lparr>extension_data_pending := True\<rparr>, e)))))"

definition lws_issue_raw_ext_access ::
  "'e ws_ops \<Rightarrow> lws_tokens \<Rightarrow> 'e conn \<Rightarrow> (int \<times> 'e conn) option" where
  "lws_issue_raw_ext_access ops tok s =
     do { (failed, s) \<leftarrow> ext_access_loop ops tok s;
          Some (if failed then -1 else int (token_len tok), s) }"

section \<open>Masking and framing\<close>

fun random_bytes :: "'e ws_ops \<Rightarrow> nat \<Rightarrow> 'e \<Rightarrow> bytes \<times> 'e" where
  "random_bytes ops 0 e = ([], e)"
| "random_bytes ops (Suc n) e =
     (let (b, e) = rand ops e; (bs, e) = random_bytes ops n e in (b # bs, e))"

definition libwebsockets_get_random :: "'e ws_ops \<Rightarrow> nat \<Rightarrow> 'e \<Rightarrow> bytes \<times> int \<times> 'e" where
  "libwebsockets_get_random ops n e = (let (bs, e) = random_bytes ops n e in (bs, int n, e))"

definition libwebsocket_0405_frame_mask_generate :: "'e ws_ops \<Rightarrow> 'e conn \<Rightarrow> int \<times> 'e conn" where
  "libwebsocket_0405_frame_mask_generate ops = (\<lambda>(w, e).
     (let (nonce, n, e) = libwebsockets_get_random ops 4 e;
          w = w\<lparr>frame_masking_nonce_04 := nonce\<rparr>
      in if n \<noteq> 4 then (1, w, e) else (0, w\<lparr>frame_mask_index := 0\<rparr>, e)))"

text \<open>\<open>xs[n] ^ frame_masking_nonce_04[(frame_mask_index++) & 3]\<close>, byte after byte.\<close>

fun mask_bytes :: "bytes \<Rightarrow> u8 \<Rightarrow> bytes \<Rightarrow> bytes" where
  "mask_bytes nonce i [] = []"
| "mask_bytes nonce i (x # xs) = (x XOR nonce ! unat (i AND 3)) # mask_bytes nonce (i + 1) xs"

definition frame_opcode :: "u8 \<Rightarrow> u8 option" where
  "frame_opcode prot =
     (let p = prot AND 0xf
      in if p = LWS_WRITE_TEXT then Some OPCODE_TEXT_FRAME
         else if p = LWS_WRITE_BINARY then Some OPCODE_BINARY_FRAME
         else if p = LWS_WRITE_CONTINUATION then Some OPCODE_CONTINUATION
         else if p = LWS_WRITE_CLOSE then Some OPCODE_CLOSE
         else if p = LWS_WRITE_PING then Some OPCODE_PING
         else if p = LWS_WRITE_PONG then Some OPCODE_PONG
         else None)"

definition frame_header :: "u8 \<Rightarrow> nat \<Rightarrow> u8 \<Rightarrow> bytes" where
  "frame_header n len is_masked_bit =
     (if len < 126 then [n, word_of_nat len OR is_masked_bit]
      else if len < 65536 then [n, 126 OR is_masked_bit, word_of_nat (len div 256), word_of_nat len]
      else [n, 127 OR is_masked_bit, 0, 0, 0, 0,
            word_of_nat (len div 16777216), word_of_nat (len div 65536),
            word_of_nat (len div 256), word_of_nat len])"

text \<open>Writing bytes at a distance before an address of a buffer.\<close>

definition put_before :: "bytes \<Rightarrow> nat \<Rightarrow> nat \<Rightarrow> bytes \<Rightarrow> bytes option" where
  "put_before mem p k xs = (if k \<le> p then put_at mem (p - k) xs else None)"

text \<open>
  The header of a frame, written into the padding before the payload: \<open>pre\<close> is how far it
  reaches, \<open>dropmask\<close> where the masking key goes, an index computed before the reason of a close frame
  moves the payload by two bytes. The result \<open>Some None\<close> is \<open>return -1\<close>.
\<close>

definition frame_in_place ::
  "u8 \<Rightarrow> wsi \<Rightarrow> lws_tokens \<Rightarrow> (nat \<times> nat option \<times> lws_tokens) option option" where
  "frame_in_place prot w tok =
     (if wsi_spec_revision w \<noteq> 13 then Some (Some (0, None, tok))
      else
        let masked7 = (mode w = LWS_CONNMODE_WS_CLIENT);
            pre = (if masked7 then 4 else 0);
            dropmask = (if masked7 then Some (token_pos tok - pre) else None)
        in (case frame_opcode prot of
              None \<Rightarrow> Some None
            | Some n \<Rightarrow>
                do {
                  tok \<leftarrow> (if prot AND 0xf = LWS_WRITE_CLOSE \<and> close_reason w \<noteq> 0 then
                          do { mem \<leftarrow> put_before (token_mem tok) (token_pos tok) 2
                                 [ucast (drop_bit 8 (close_reason w)), ucast (close_reason w)];
                               Some (tok\<lparr>token_mem := mem, token_pos := token_pos tok - 2,
                                         token_len := token_len tok + 2\<rparr>) }
                          else Some tok);
                  let n = (if prot AND LWS_WRITE_NO_FIN = 0 then n OR 0x80 else n);
                      hdr = frame_header n (token_len tok) (if masked7 then 0x80 else 0);
                      pre = pre + length hdr
                  in do { mem \<leftarrow> put_before (token_mem tok) (token_pos tok) pre hdr;
                          Some (Some (pre, dropmask, tok\<lparr>token_mem := mem\<rparr>)) } }))"

text \<open>
  Masking in place, in the direction from client to server. A continued frame has no \<open>dropmask\<close>, but
  the loop still writes through it.
\<close>

definition mask_in_place ::
  "'e ws_ops \<Rightarrow> nat option \<Rightarrow> lws_tokens \<Rightarrow> 'e conn \<Rightarrow> (bool \<times> lws_tokens \<times> 'e conn) option" where
  "mask_in_place ops dropmask tok = (\<lambda>(w, e).
     if mode w \<noteq> LWS_CONNMODE_WS_CLIENT then Some (True, tok, w, e)
     else
       let (r, w, e) = (if inside_frame w then (0, w, e) else libwebsocket_0405_frame_mask_generate ops (w, e))
       in if r \<noteq> 0 then Some (False, tok, w, e)
          else (case dropmask of
              None \<Rightarrow> if token_len tok = 0 then Some (True, tok, w, e) else None
            | Some d \<Rightarrow>
                do {
                  xs \<leftarrow> token_bytes (tok\<lparr>token_pos := d + 4\<rparr>);
                  mem \<leftarrow> put_at (token_mem tok) (d + 4)
                          (mask_bytes (frame_masking_nonce_04 w) (frame_mask_index w) xs);
                  mem \<leftarrow> put_at mem d (frame_masking_nonce_04 w);
                  Some (True, tok\<lparr>token_mem := mem\<rparr>,
                    w\<lparr>frame_mask_index := frame_mask_index w + word_of_nat (token_len tok)\<rparr>, e) }))"

text \<open>From the label \<open>send_raw\<close> on; \<open>orig_len\<close> is the length the caller gave.\<close>

definition send_raw ::
  "'e ws_ops \<Rightarrow> u8 \<Rightarrow> nat \<Rightarrow> nat \<Rightarrow> lws_tokens \<Rightarrow> 'e conn \<Rightarrow> (int \<times> 'e conn) option" where
  "send_raw ops prot orig_len pre tok = (\<lambda>(w, e).
     (let tok = tok\<lparr>token_pos := token_pos tok - pre, token_len := token_len tok + pre, token_moved := False\<rparr>
      in if prot \<in> {LWS_WRITE_CLOSE, LWS_WRITE_HTTP, LWS_WRITE_PONG, LWS_WRITE_PING} then
           do { b \<leftarrow> token_bytes tok; lws_issue_raw ops b (w, e) }
         else
           do {
             (n, w, e) \<leftarrow> lws_issue_raw_ext_access ops tok (w\<lparr>inside_frame := True\<rparr>, e);
             if n < 0 then Some (n, w, e)
             else if n = int (token_len tok) then Some (int orig_len, w\<lparr>inside_frame := False\<rparr>, e)
             else Some (n - int pre, w, e) }))"

text \<open>
  \<open>libwebsocket_write(wsi, &mem[p], len, protocol)\<close>. The result holds the memory of the caller after
  the call; when an extension moved the payload, it is the one the caller passed.
\<close>

definition libwebsocket_write ::
  "'e ws_ops \<Rightarrow> bytes \<Rightarrow> nat \<Rightarrow> nat \<Rightarrow> u8 \<Rightarrow> 'e conn \<Rightarrow> (int \<times> bytes \<times> 'e conn) option" where
  "libwebsocket_write ops mem p len prot = (\<lambda>(w, e).
     let tok = \<lparr>token_mem = mem, token_pos = p, token_len = len, token_moved = False\<rparr>;
         control = (prot \<in> {LWS_WRITE_CLOSE, LWS_WRITE_PING, LWS_WRITE_PONG})
     in if len = 0 \<and> \<not> control then Some (0, mem, w, e)
        else if prot = LWS_WRITE_HTTP then
          do { (n, s) \<leftarrow> send_raw ops prot len 0 tok (w, e); Some (n, mem, s) }
        else if state w \<noteq> WSI_STATE_ESTABLISHED then Some (-1, mem, w, e)
        else if inside_frame w then
          do { (ok, tok, s) \<leftarrow> mask_in_place ops None tok (w, e);
               if \<not> ok then Some (-1, token_mem tok, s)
               else do { (n, s) \<leftarrow> send_raw ops prot len 0 tok s; Some (n, token_mem tok, s) } }
        else
          let w = w\<lparr>clean_buffer := \<not> no_buffer_all_partial_tx (protocol w)\<rparr>;
              (failed, spill, tok, w, e) =
                (if control then (False, False, tok, w, e)
                 else ext_each LWS_EXT_CALLBACK_PAYLOAD_TX (active_extensions ops) False tok (w, e))
          in if failed then Some (-1, mem, w, e)
             else
               let w = (if token_moved tok then w\<lparr>clean_buffer := False\<rparr> else w)
               in do {
                 r \<leftarrow> frame_in_place prot w tok;
                 (case r of
                    None \<Rightarrow> Some (-1, mem, w, e)
                  | Some (pre, dropmask, tok) \<Rightarrow>
                      do {
                        (ok, tok, s) \<leftarrow> mask_in_place ops dropmask tok (w, e);
                        let mem = (if token_moved tok then mem else token_mem tok) in
                        if \<not> ok then Some (-1, mem, s)
                        else do { (n, s) \<leftarrow> send_raw ops prot len pre tok s; Some (n, mem, s) } }) })"

section \<open>Service when the socket is writable\<close>

fun ext_max :: "ext_reason \<Rightarrow> 'e ext list \<Rightarrow> int \<Rightarrow> 'e conn \<Rightarrow> int \<times> 'e conn" where
  "ext_max r [] handled s = (handled, s)"
| "ext_max r (f # fs) handled s =
     (let (m, tok, s) = f r null_tokens s in ext_max r fs (if m > handled then m else handled) s)"

text \<open>The spill loop: \<open>Some r\<close> is a return, \<open>None\<close> falls through to the user service.\<close>

partial_function (option) pollout_spill :: "'e ws_ops \<Rightarrow> 'e conn \<Rightarrow> (int option \<times> 'e conn) option" where
  "pollout_spill ops s =
     (let (failed, spill, tok, s) =
        ext_each LWS_EXT_CALLBACK_PACKET_TX_PRESEND (active_extensions ops) False null_tokens s
      in if failed then Some (Some (-1), s)
         else if token_len tok \<noteq> 0 then
           Option.bind (Option.bind (token_bytes tok) (\<lambda>b. lws_issue_raw ops b s))
             (\<lambda>(n, w, e).
               if n < 0 then Some (Some (-1), w, e)
               else if n \<noteq> int (token_len tok) then Some (Some (-1), w, e)
               else if \<not> spill then Some (None, w, e)
               else (let (full, e) = choked ops e
                     in if \<not> full then pollout_spill ops (w, e) else Some (Some 0, w, e)))
         else if spill then pollout_spill ops s
         else Some (None, s))"

definition user_service :: "'e ws_ops \<Rightarrow> bool \<Rightarrow> 'e conn \<Rightarrow> int \<times> 'e conn" where
  "user_service ops pollfd = (\<lambda>(w, e).
     (let s = (if pollfd then
                 poll_callback ops LWS_CALLBACK_CLEAR_MODE_POLL_FD POLLOUT (w\<lparr>events_POLLOUT := False\<rparr>, e)
               else (w, e))
      in user_callback_handle_rxflow ops
           (if mode (fst s) = LWS_CONNMODE_WS_CLIENT then LWS_CALLBACK_CLIENT_WRITEABLE
            else LWS_CALLBACK_SERVER_WRITEABLE) [] s))"

definition notify_action :: "'e ws_ops \<Rightarrow> 'e conn \<Rightarrow> int \<times> 'e conn" where
  "notify_action ops s = user_service ops False s"

definition lws_handle_POLLOUT_event :: "'e ws_ops \<Rightarrow> bool \<Rightarrow> 'e conn \<Rightarrow> (int \<times> 'e conn) option" where
  "lws_handle_POLLOUT_event ops pollfd s =
     (case truncated_send_malloc (fst s) of
        Some pending \<Rightarrow>
          do { b \<leftarrow> token_bytes \<lparr>token_mem = pending, token_pos = unat (truncated_send_offset (fst s)),
                   token_len = unat (truncated_send_len (fst s)), token_moved = False\<rparr>;
               (n, s) \<leftarrow> lws_issue_raw ops b s;
               Some (0, s) }
      | None \<Rightarrow>
          let (handled, s) = ext_max LWS_EXT_CALLBACK_IS_WRITEABLE (active_extensions ops) 0 s
          in if handled = 1 then Some (notify_action ops s)
             else if \<not> extension_data_pending (fst s) \<or> handled = 2 then Some (user_service ops pollfd s)
             else
               do { (r, w, e) \<leftarrow> pollout_spill ops s;
                    (case r of
                       Some n \<Rightarrow> Some (n, w, e)
                     | None \<Rightarrow> Some (user_service ops pollfd (w\<lparr>extension_data_pending := False\<rparr>, e))) }) "

end
