(* ===== verification/Ws_Receive.thy ===== *)
theory Ws_Receive
  imports Ws_Send
begin

text \<open>
  The receiving half of a server connection, from \<open>lib/parsers.c\<close>: the state machine that takes a
  frame apart byte by byte, what happens to a full buffer or a finished frame, and the loop that
  feeds the machine and stops when the application holds back the flow.
\<close>

section \<open>Frame headers\<close>

text \<open>
  How the switch over the parse state leaves: \<open>break\<close>, \<open>return -1\<close>, or \<open>goto spill\<close>.
\<close>

datatype rx_next = Rx_break wsi | Rx_fail wsi | Rx_spill wsi

text \<open>The label \<open>handle_first\<close>.\<close>

definition handle_first :: "wsi \<Rightarrow> u8 \<Rightarrow> wsi" where
  "handle_first w c =
     (let w = w\<lparr>opcode := c AND 0xf, rsv := c AND 0x70, final := (drop_bit 7 c AND 1 \<noteq> 0)\<rparr>;
          w = (if opcode w = OPCODE_TEXT_FRAME \<or> opcode w = OPCODE_BINARY_FRAME
               then w\<lparr>frame_is_binary := (opcode w = OPCODE_BINARY_FRAME)\<rparr> else w)
      in w\<lparr>lws_rx_parse_state := LWS_RXPS_04_FRAME_HDR_LEN\<rparr>)"

definition after_length :: "wsi \<Rightarrow> wsi" where
  "after_length w =
     w\<lparr>lws_rx_parse_state := (if this_frame_masked w then LWS_RXPS_07_COLLECT_FRAME_KEY_1
                             else LWS_RXPS_PAYLOAD_UNTIL_LENGTH_EXHAUSTED)\<rparr>"

definition frame_hdr_len :: "wsi \<Rightarrow> u8 \<Rightarrow> rx_next" where
  "frame_hdr_len w c =
     (let w = w\<lparr>this_frame_masked := (c AND 0x80 \<noteq> 0)\<rparr>
      in if c AND 0x7f = 126 then
           (if opcode w AND 8 \<noteq> 0 then Rx_fail w
            else Rx_break (w\<lparr>lws_rx_parse_state := LWS_RXPS_04_FRAME_HDR_LEN16_2\<rparr>))
         else if c AND 0x7f = 127 then
           (if opcode w AND 8 \<noteq> 0 then Rx_fail w
            else Rx_break (w\<lparr>lws_rx_parse_state := LWS_RXPS_04_FRAME_HDR_LEN64_8\<rparr>))
         else Rx_break (after_length (w\<lparr>rx_packet_length := ucast (c AND 0x7f)\<rparr>)))"

definition set_nonce :: "nat \<Rightarrow> u8 \<Rightarrow> lws_rx_parse_state \<Rightarrow> wsi \<Rightarrow> wsi" where
  "set_nonce i c st w =
     w\<lparr>frame_masking_nonce_04 := (frame_masking_nonce_04 w)[i := c],
       all_zero_nonce := (if c \<noteq> 0 then False else all_zero_nonce w),
       lws_rx_parse_state := st\<rparr>"

definition or_length :: "nat \<Rightarrow> u8 \<Rightarrow> lws_rx_parse_state \<Rightarrow> wsi \<Rightarrow> wsi" where
  "or_length k c st w =
     w\<lparr>rx_packet_length := rx_packet_length w OR push_bit k (ucast c), lws_rx_parse_state := st\<rparr>"

text \<open>All the states but the payload state.\<close>

definition rx_header :: "wsi \<Rightarrow> u8 \<Rightarrow> rx_next" where
  "rx_header w c =
     (case lws_rx_parse_state w of
        LWS_RXPS_NEW \<Rightarrow>
          Rx_break (if wsi_spec_revision w = 13 then handle_first (w\<lparr>all_zero_nonce := True\<rparr>) c else w)
      | LWS_RXPS_04_MASK_NONCE_1 \<Rightarrow> Rx_break (set_nonce 1 c LWS_RXPS_04_MASK_NONCE_2 w)
      | LWS_RXPS_04_MASK_NONCE_2 \<Rightarrow> Rx_break (set_nonce 2 c LWS_RXPS_04_MASK_NONCE_3 w)
      | LWS_RXPS_04_MASK_NONCE_3 \<Rightarrow>
          Rx_break (set_nonce 3 c LWS_RXPS_04_FRAME_HDR_1 w\<lparr>frame_mask_index := 0\<rparr>)
      | LWS_RXPS_04_FRAME_HDR_1 \<Rightarrow> Rx_break (handle_first w c)
      | LWS_RXPS_04_FRAME_HDR_LEN \<Rightarrow> frame_hdr_len w c
      | LWS_RXPS_04_FRAME_HDR_LEN16_2 \<Rightarrow>
          Rx_break (w\<lparr>rx_packet_length := push_bit 8 (ucast c),
                      lws_rx_parse_state := LWS_RXPS_04_FRAME_HDR_LEN16_1\<rparr>)
      | LWS_RXPS_04_FRAME_HDR_LEN16_1 \<Rightarrow>
          Rx_break (after_length (w\<lparr>rx_packet_length := rx_packet_length w OR ucast c\<rparr>))
      | LWS_RXPS_04_FRAME_HDR_LEN64_8 \<Rightarrow>
          if c AND 0x80 \<noteq> 0 then Rx_fail w
          else Rx_break (w\<lparr>rx_packet_length := 0, lws_rx_parse_state := LWS_RXPS_04_FRAME_HDR_LEN64_7\<rparr>)
      | LWS_RXPS_04_FRAME_HDR_LEN64_7 \<Rightarrow> Rx_break (w\<lparr>lws_rx_parse_state := LWS_RXPS_04_FRAME_HDR_LEN64_6\<rparr>)
      | LWS_RXPS_04_FRAME_HDR_LEN64_6 \<Rightarrow> Rx_break (w\<lparr>lws_rx_parse_state := LWS_RXPS_04_FRAME_HDR_LEN64_5\<rparr>)
      | LWS_RXPS_04_FRAME_HDR_LEN64_5 \<Rightarrow> Rx_break (w\<lparr>lws_rx_parse_state := LWS_RXPS_04_FRAME_HDR_LEN64_4\<rparr>)
      | LWS_RXPS_04_FRAME_HDR_LEN64_4 \<Rightarrow> Rx_break (or_length 24 c LWS_RXPS_04_FRAME_HDR_LEN64_3 w)
      | LWS_RXPS_04_FRAME_HDR_LEN64_3 \<Rightarrow> Rx_break (or_length 16 c LWS_RXPS_04_FRAME_HDR_LEN64_2 w)
      | LWS_RXPS_04_FRAME_HDR_LEN64_2 \<Rightarrow> Rx_break (or_length 8 c LWS_RXPS_04_FRAME_HDR_LEN64_1 w)
      | LWS_RXPS_04_FRAME_HDR_LEN64_1 \<Rightarrow>
          Rx_break (after_length (w\<lparr>rx_packet_length := rx_packet_length w OR ucast c\<rparr>))
      | LWS_RXPS_07_COLLECT_FRAME_KEY_1 \<Rightarrow> Rx_break (set_nonce 0 c LWS_RXPS_07_COLLECT_FRAME_KEY_2 w)
      | LWS_RXPS_07_COLLECT_FRAME_KEY_2 \<Rightarrow> Rx_break (set_nonce 1 c LWS_RXPS_07_COLLECT_FRAME_KEY_3 w)
      | LWS_RXPS_07_COLLECT_FRAME_KEY_3 \<Rightarrow> Rx_break (set_nonce 2 c LWS_RXPS_07_COLLECT_FRAME_KEY_4 w)
      | LWS_RXPS_07_COLLECT_FRAME_KEY_4 \<Rightarrow>
          (let w = set_nonce 3 c LWS_RXPS_PAYLOAD_UNTIL_LENGTH_EXHAUSTED w\<lparr>frame_mask_index := 0\<rparr>
           in if rx_packet_length w = 0 then Rx_spill w else Rx_break w)
      | LWS_RXPS_PAYLOAD_UNTIL_LENGTH_EXHAUSTED \<Rightarrow> Rx_break w)"

section \<open>Payload\<close>

text \<open>The size at which the receive buffer is handed over.\<close>

definition rx_limit :: "wsi \<Rightarrow> nat" where
  "rx_limit w = (if rx_buffer_size (protocol w) = 0 then LWS_MAX_SOCKET_IO_BUF else rx_buffer_size (protocol w))"

definition rx_payload :: "wsi \<Rightarrow> u8 \<Rightarrow> rx_next option" where
  "rx_payload w c =
     do {
       mem \<leftarrow> put_at (rx_user_buffer w) (LWS_SEND_BUFFER_PRE_PADDING + rx_user_buffer_head w)
               [if all_zero_nonce w then c
                else c XOR frame_masking_nonce_04 w ! unat (frame_mask_index w AND 3)];
       let w = w\<lparr>rx_user_buffer := mem, rx_user_buffer_head := rx_user_buffer_head w + 1,
                 frame_mask_index := (if all_zero_nonce w then frame_mask_index w else frame_mask_index w + 1),
                 rx_packet_length := rx_packet_length w - 1\<rparr>
       in Some (if rx_packet_length w = 0 then Rx_spill (w\<lparr>lws_rx_parse_state := LWS_RXPS_NEW\<rparr>)
                else if rx_user_buffer_head w \<noteq> rx_limit w then Rx_break w
                else Rx_spill w) }"

definition rx_tokens :: "wsi \<Rightarrow> lws_tokens" where
  "rx_tokens w = \<lparr>token_mem = rx_user_buffer w, token_pos = LWS_SEND_BUFFER_PRE_PADDING,
     token_len = rx_user_buffer_head w, token_moved = False\<rparr>"

text \<open>A frame for the application, in the buffer \<open>tok\<close>, which the extensions have seen.\<close>

definition deliver :: "'e ws_ops \<Rightarrow> lws_tokens \<Rightarrow> 'e conn \<Rightarrow> (int \<times> 'e conn) option" where
  "deliver ops tok = (\<lambda>(w, e).
     do {
       (ret, w, e) \<leftarrow>
         (if token_len tok > 0 then
            do {
              b \<leftarrow> token_bytes tok;
              mem \<leftarrow> put_at (token_mem tok) (token_pos tok + token_len tok) [0];
              let w = (if token_moved tok then w else w\<lparr>rx_user_buffer := mem\<rparr>)
              in Some (if has_callback (protocol w)
                       then user_callback_handle_rxflow ops LWS_CALLBACK_RECEIVE b (w, e) else (0, w, e)) }
          else Some (0, w, e));
       Some (ret, w\<lparr>rx_user_buffer_head := 0\<rparr>, e) })"

text \<open>The label \<open>spill\<close>.\<close>

definition rx_spill :: "'e ws_ops \<Rightarrow> 'e conn \<Rightarrow> (int \<times> 'e conn) option" where
  "rx_spill ops = (\<lambda>(w, e).
     if opcode w = OPCODE_CLOSE then
       if state w = WSI_STATE_AWAITING_CLOSE_ACK then Some (-1, w, e)
       else
         do {
           (n, mem, w, e) \<leftarrow> libwebsocket_write ops (rx_user_buffer w) LWS_SEND_BUFFER_PRE_PADDING
              (rx_user_buffer_head w) LWS_WRITE_CLOSE (w, e);
           Some (-1, w\<lparr>rx_user_buffer := mem, state := WSI_STATE_RETURNED_CLOSE_ALREADY\<rparr>, e) }
     else if opcode w = OPCODE_PING then
       do {
         (n, mem, w, e) \<leftarrow> libwebsocket_write ops (rx_user_buffer w) LWS_SEND_BUFFER_PRE_PADDING
            (rx_user_buffer_head w) LWS_WRITE_PONG (w, e);
         let w = w\<lparr>rx_user_buffer := mem\<rparr>
         in if n < 0 then Some (-1, w, e) else Some (0, w\<lparr>rx_user_buffer_head := 0\<rparr>, e) }
     else if opcode w = OPCODE_PONG then Some (0, w\<lparr>rx_user_buffer_head := 0\<rparr>, e)
     else if opcode w \<in> {OPCODE_TEXT_FRAME, OPCODE_BINARY_FRAME, OPCODE_CONTINUATION} then
       (let (failed, spill, tok, w, e) =
          ext_each LWS_EXT_CALLBACK_PAYLOAD_RX (active_extensions ops) False (rx_tokens w) (w, e);
            w = (if token_moved tok then w else w\<lparr>rx_user_buffer := token_mem tok\<rparr>)
        in if failed then Some (-1, w, e) else deliver ops tok (w, e))
     else
       (let (handled, tok, w, e) =
          ext_any LWS_EXT_CALLBACK_EXTENDED_PAYLOAD_RX (active_extensions ops) False (rx_tokens w) (w, e)
        in Some (0, w\<lparr>rx_user_buffer_head := 0\<rparr>, e)))"

definition libwebsocket_rx_sm :: "'e ws_ops \<Rightarrow> u8 \<Rightarrow> 'e conn \<Rightarrow> (int \<times> 'e conn) option" where
  "libwebsocket_rx_sm ops c = (\<lambda>(w, e).
     do {
       r \<leftarrow> (if lws_rx_parse_state w = LWS_RXPS_PAYLOAD_UNTIL_LENGTH_EXHAUSTED then rx_payload w c
            else Some (rx_header w c));
       (case r of
          Rx_break w \<Rightarrow> Some (0, w, e)
        | Rx_fail w \<Rightarrow> Some (-1, w, e)
        | Rx_spill w \<Rightarrow> rx_spill ops (w, e)) })"

section \<open>Feeding the machine\<close>

text \<open>
  The loop over the bytes of one read. The result 1 says that the rest is kept in \<open>rxflow_buffer\<close>;
  the code does not check the \<open>malloc\<close> for it.
\<close>

fun libwebsocket_interpret_incoming_packet ::
  "'e ws_ops \<Rightarrow> bytes \<Rightarrow> 'e conn \<Rightarrow> (int \<times> 'e conn) option" where
  "libwebsocket_interpret_incoming_packet ops [] s = Some (0, s)"
| "libwebsocket_interpret_incoming_packet ops (c # cs) (w, e) =
     (if rxflow_change_to w AND LWS_RXFLOW_ALLOW = 0 then
        if rxflow_buffer w = None then
          (let (ok, e) = malloc_ok ops (length (c # cs)) e
           in if ok then Some (1, w\<lparr>rxflow_buffer := Some (c # cs), rxflow_len := length (c # cs), rxflow_pos := 0\<rparr>, e)
              else None)
        else Some (1, w, e)
      else
        let w = (if rxflow_buffer w \<noteq> None then w\<lparr>rxflow_pos := rxflow_pos w + 1\<rparr> else w)
        in do {
          (m, s) \<leftarrow> libwebsocket_rx_sm ops c (w, e);
          if m < 0 then Some (-1, s) else libwebsocket_interpret_incoming_packet ops cs s })"

declare libwebsocket_interpret_incoming_packet.simps(2) [simp del]

definition libwebsockets_remaining_packet_payload :: "wsi \<Rightarrow> size_t" where
  "libwebsockets_remaining_packet_payload w = rx_packet_length w"

definition lws_frame_is_binary :: "wsi \<Rightarrow> bool" where
  "lws_frame_is_binary w = frame_is_binary w"

end
