(* ===== verification/Ws_Framing.thy ===== *)
theory Ws_Framing
  imports Ws_Receive
begin

text \<open>
  Frames on the wire: the header written by \<open>frame_header\<close> and what the receiving machine makes of it,
  masking and its inverse, and the payload loop, which hands the buffer over whenever it is
  full and once more at the end of the frame.
\<close>

section \<open>Lengths and masks\<close>

lemma byte_of_nat:
  assumes "k < 4"
  shows "(word_of_nat (len div 2 ^ (8 * k)) :: u8) = byte_of k (word_of_nat len)"
proof -
  have "bit (len div 2 ^ (8 * k)) i = bit len (8 * k + i)" for i
    using bit_drop_bit_eq [of "8 * k" len] by (simp add: drop_bit_eq_div fun_eq_iff)
  then show ?thesis
    using assms by (intro bit_word_eqI) (auto simp: byte_of_def bit_ucast_iff bit_drop_bit_eq bit_of_nat_iff)
qed

lemma frame_bytes:
  "(word_of_nat (len div 16777216) :: u8) = byte_of 3 (word_of_nat len)"
  "(word_of_nat (len div 65536) :: u8) = byte_of 2 (word_of_nat len)"
  "(word_of_nat (len div 256) :: u8) = byte_of (Suc 0) (word_of_nat len)"
  "(word_of_nat len :: u8) = byte_of 0 (word_of_nat len)"
  using byte_of_nat [of 3 len] byte_of_nat [of 2 len] byte_of_nat [of 1 len] byte_of_nat [of 0 len]
  by simp_all

lemma frame_length_read:
  "push_bit 24 (ucast (word_of_nat (len div 16777216) :: u8)) OR push_bit 16 (ucast (word_of_nat (len div 65536) :: u8)) OR
   push_bit 8 (ucast (word_of_nat (len div 256) :: u8)) OR ucast (word_of_nat len :: u8) = (word_of_nat len :: u32)"
  using le32_byte_of [of "word_of_nat len"] by (simp only: frame_bytes(1-3) frame_bytes(4) [of len] le32_def or.assoc or.commute or.left_commute)

lemma frame_length_read16:
  assumes "len < 65536"
  shows "push_bit 8 (ucast (word_of_nat (len div 256) :: u8)) OR ucast (word_of_nat len :: u8) = (word_of_nat len :: u32)"
  using frame_length_read [of len] assms by simp

lemma small_length:
  assumes "len < 126"
  shows "(word_of_nat len OR 0x80) AND 0x7f = (word_of_nat len :: u8)" "word_of_nat len AND 0x7f = (word_of_nat len :: u8)"
    "(word_of_nat len OR 0x80) AND 0x80 \<noteq> (0 :: u8)" "word_of_nat len AND 0x80 = (0 :: u8)"
    "(word_of_nat len :: u8) \<noteq> 126" "(word_of_nat len :: u8) \<noteq> 127"
proof -
  let ?P = "\<lambda>x :: u8. x < 126 \<longrightarrow> (x OR 0x80) AND 0x7f = x \<and> x AND 0x7f = x \<and> (x OR 0x80) AND 0x80 \<noteq> 0 \<and>
    x AND 0x80 = 0 \<and> x \<noteq> 126 \<and> x \<noteq> 127"
  have "all_u8 ?P" by code_simp
  then have "?P (word_of_nat len)" by (rule all_u8_D)
  moreover have "(word_of_nat len :: u8) < 126"
    using assms by (simp add: word_less_nat_alt)
  ultimately show "(word_of_nat len OR 0x80) AND 0x7f = (word_of_nat len :: u8)" "word_of_nat len AND 0x7f = (word_of_nat len :: u8)"
    "(word_of_nat len OR 0x80) AND 0x80 \<noteq> (0 :: u8)" "word_of_nat len AND 0x80 = (0 :: u8)"
    "(word_of_nat len :: u8) \<noteq> 126" "(word_of_nat len :: u8) \<noteq> 127"
    by auto
qed

lemma ucast_small: "len < 256 \<Longrightarrow> ucast (word_of_nat len :: u8) = (word_of_nat len :: u32)"
  by (simp add: unsigned_of_nat take_bit_nat_eq_self)

lemma put_at_ok: "p + length xs \<le> length mem \<Longrightarrow> put_at mem p xs = Some (take p mem @ xs @ drop (p + length xs) mem)"
  by (simp add: put_at_def)

lemma length_mask_bytes [simp]: "length (mask_bytes nonce i xs) = length xs"
  by (induction xs arbitrary: i) auto

lemma mask_mask [simp]: "mask_bytes nonce i (mask_bytes nonce i xs) = xs"
  by (induction xs arbitrary: i) (auto simp: xor.assoc)

lemma and_3: "unat (i AND 3 :: u8) < 4"
proof -
  have "all_u8 (\<lambda>i. unat (i AND 3) < 4)" by code_simp
  then show ?thesis by (rule all_u8_D)
qed

lemma mask_zero: "mask_bytes [0, 0, 0, 0] i xs = xs"
proof (induction xs arbitrary: i)
  case (Cons x xs)
  have "[0, 0, 0, 0 :: u8] ! unat (i AND 3) = 0"
    using and_3 [of i] by (auto simp: nth_Cons' less_Suc_eq)
  then show ?case using Cons by simp
qed simp

section \<open>Reading a header\<close>

text \<open>The application accepts data: the flow is open and nothing is held back.\<close>

definition flow_open :: "wsi \<Rightarrow> bool" where
  "flow_open w \<longleftrightarrow> rxflow_change_to w = LWS_RXFLOW_ALLOW \<and> rxflow_buffer w = None"

lemma flow_open_update [simp]:
  "flow_open (w\<lparr>lws_rx_parse_state := st\<rparr>) = flow_open w"
  "flow_open (w\<lparr>this_frame_masked := m\<rparr>) = flow_open w"
  "flow_open (w\<lparr>rx_packet_length := n\<rparr>) = flow_open w"
  "flow_open (w\<lparr>all_zero_nonce := z\<rparr>) = flow_open w"
  "flow_open (w\<lparr>frame_masking_nonce_04 := k\<rparr>) = flow_open w"
  "flow_open (w\<lparr>frame_mask_index := i\<rparr>) = flow_open w"
  "flow_open (w\<lparr>opcode := x\<rparr>) = flow_open w"
  "flow_open (w\<lparr>rsv := x\<rparr>) = flow_open w"
  "flow_open (w\<lparr>final := m\<rparr>) = flow_open w"
  "flow_open (w\<lparr>frame_is_binary := m\<rparr>) = flow_open w"
  "flow_open (w\<lparr>rx_user_buffer := b\<rparr>) = flow_open w"
  "flow_open (w\<lparr>rx_user_buffer_head := h\<rparr>) = flow_open w"
  by (simp_all add: flow_open_def)

lemma interpret_header:
  assumes "flow_open w" "lws_rx_parse_state w \<noteq> LWS_RXPS_PAYLOAD_UNTIL_LENGTH_EXHAUSTED"
    and "rx_header w c = Rx_break w'"
  shows "libwebsocket_interpret_incoming_packet ops (c # cs) (w, e) =
    libwebsocket_interpret_incoming_packet ops cs (w', e)"
  using assms
  by (simp add: libwebsocket_interpret_incoming_packet.simps(2) flow_open_def libwebsocket_rx_sm_def)

text \<open>The connection after the header of a frame.\<close>

definition header_read :: "u8 \<Rightarrow> nat \<Rightarrow> bool \<Rightarrow> wsi \<Rightarrow> wsi" where
  "header_read b0 len masked w =
     after_length (handle_first (w\<lparr>all_zero_nonce := True\<rparr>) b0\<lparr>this_frame_masked := masked, rx_packet_length := word_of_nat len\<rparr>)"

lemma and_8: "(b AND 0xf) AND 8 = (b AND 8 :: u8)"
  by (simp add: and.assoc)

lemma read_header:
  assumes "flow_open w" "lws_rx_parse_state w = LWS_RXPS_NEW" "wsi_spec_revision w = 13"
    and "b0 AND 8 = 0 \<or> len < 126"
  shows "libwebsocket_interpret_incoming_packet ops
     (frame_header b0 len (if masked then 0x80 else 0) @ cs) (w, e) =
    libwebsocket_interpret_incoming_packet ops cs (header_read b0 len masked w, e)"
proof -
  let ?rd = "libwebsocket_interpret_incoming_packet ops"
  let ?w = "handle_first (w\<lparr>all_zero_nonce := True\<rparr>) b0"
  let ?m = "\<lambda>n :: u8. if masked then n OR 0x80 else n"
  have w: "flow_open ?w" "lws_rx_parse_state ?w = LWS_RXPS_04_FRAME_HDR_LEN" "opcode ?w = b0 AND 0xf"
    using assms(1) by (simp_all add: handle_first_def Let_def)
  have 0: "?rd (b0 # xs) (w, e) = ?rd xs (?w, e)" for xs
    using assms by (intro interpret_header) (simp_all add: rx_header_def)
  consider "len < 126" | "126 \<le> len" "len < 65536" | "65536 \<le> len" by linarith
  then show ?thesis
  proof cases
    case 1
    have "rx_header ?w (?m (word_of_nat len)) = Rx_break (header_read b0 len masked w)"
      using small_length [OF 1] ucast_small [of len] 1 w by (simp add: rx_header_def frame_hdr_len_def header_read_def Let_def)
    then show ?thesis
      using 1 w by (cases masked) (simp_all add: frame_header_def 0 interpret_header)
  next
    case 2
    have "b0 AND 8 = 0" using assms(4) 2 by simp
    then show ?thesis
      using 2 w frame_length_read16 [OF 2(2)]
      by (cases masked) (simp_all add: frame_header_def 0 interpret_header rx_header_def frame_hdr_len_def
          header_read_def after_length_def Let_def and_8 or_length_def or.assoc)
  next
    case 3
    have "b0 AND 8 = 0" using assms(4) 3 by simp
    then show ?thesis
      using 3 w frame_length_read [of len]
      by (cases masked) (simp_all add: frame_header_def 0 interpret_header rx_header_def frame_hdr_len_def
          header_read_def after_length_def Let_def and_8 or_length_def or.assoc)
  qed
qed

text \<open>The masking key; a key of zeros is as no key.\<close>

definition key_read :: "bytes \<Rightarrow> wsi \<Rightarrow> wsi" where
  "key_read k w = w\<lparr>frame_masking_nonce_04 := k,
     all_zero_nonce := (all_zero_nonce w \<and> k = [0, 0, 0, 0]), frame_mask_index := 0,
     lws_rx_parse_state := LWS_RXPS_PAYLOAD_UNTIL_LENGTH_EXHAUSTED\<rparr>"

lemma length_4: "length k = 4 \<Longrightarrow> \<exists>a b c d. k = [a, b, c, d]"
  by (auto simp: numeral_eq_Suc length_Suc_conv)

lemma read_key:
  assumes "flow_open w" "lws_rx_parse_state w = LWS_RXPS_07_COLLECT_FRAME_KEY_1"
    and "length (frame_masking_nonce_04 w) = 4" "length k = 4"
  shows "libwebsocket_interpret_incoming_packet ops (k @ cs) (w, e) =
    (if rx_packet_length w = 0 then
       do { (m, s) \<leftarrow> rx_spill ops (key_read k w, e);
            if m < 0 then Some (-1, s) else libwebsocket_interpret_incoming_packet ops cs s }
     else libwebsocket_interpret_incoming_packet ops cs (key_read k w, e))"
proof -
  obtain a b c d where k: "k = [a, b, c, d]" using length_4 [OF assms(4)] by blast
  obtain n0 n1 n2 n3 where n: "frame_masking_nonce_04 w = [n0, n1, n2, n3]"
    using length_4 [OF assms(3)] by blast
  let ?w = "set_nonce 2 c LWS_RXPS_07_COLLECT_FRAME_KEY_4
    (set_nonce 1 b LWS_RXPS_07_COLLECT_FRAME_KEY_3 (set_nonce 0 a LWS_RXPS_07_COLLECT_FRAME_KEY_2 w))"
  have "libwebsocket_interpret_incoming_packet ops (k @ cs) (w, e) =
      libwebsocket_interpret_incoming_packet ops (d # cs) (?w, e)"
    using assms(1,2) by (simp add: k interpret_header rx_header_def set_nonce_def)
  moreover have "flow_open ?w" "lws_rx_parse_state ?w = LWS_RXPS_07_COLLECT_FRAME_KEY_4"
    "rx_packet_length ?w = rx_packet_length w"
    using assms(1) by (simp_all add: set_nonce_def)
  moreover have "set_nonce 3 d LWS_RXPS_PAYLOAD_UNTIL_LENGTH_EXHAUSTED ?w\<lparr>frame_mask_index := 0\<rparr> = key_read k w"
    by (simp add: set_nonce_def key_read_def k n)
  moreover have "rx_packet_length (key_read k w) = rx_packet_length w" by (simp add: key_read_def)
  ultimately show ?thesis
    by (cases "rx_packet_length w = 0")
      (simp_all add: libwebsocket_interpret_incoming_packet.simps(2) flow_open_def libwebsocket_rx_sm_def
        rx_header_def)
qed

section \<open>The payload loop\<close>

text \<open>The pieces in which a payload reaches the application: full buffers, then the rest.\<close>

fun spills :: "nat \<Rightarrow> bytes \<Rightarrow> bytes \<Rightarrow> bytes list" where
  "spills n acc [] = []"
| "spills n acc (x # xs) =
     (if xs = [] \<or> length acc + 1 = n then (acc @ [x]) # spills n [] xs else spills n (acc @ [x]) xs)"

lemma concat_spills: "xs \<noteq> [] \<Longrightarrow> concat (spills n acc xs) = acc @ xs"
proof (induction n acc xs rule: spills.induct)
  case (2 n acc x xs)
  then show ?case by (cases "xs = []") auto
qed simp

lemma spills_bounds:
  "length acc < n \<Longrightarrow> list_all (\<lambda>b. b \<noteq> [] \<and> length b \<le> n) (spills n acc xs)"
  by (induction n acc xs rule: spills.induct) auto

text \<open>\<open>acc\<close> is in the receive buffer.\<close>

definition rx_holds :: "wsi \<Rightarrow> bytes \<Rightarrow> bool" where
  "rx_holds w acc \<longleftrightarrow> rx_user_buffer_head w = length acc \<and>
     take (length acc) (drop LWS_SEND_BUFFER_PRE_PADDING (rx_user_buffer w)) = acc \<and>
     length (rx_user_buffer w) = LWS_SEND_BUFFER_PRE_PADDING + rx_limit w + LWS_SEND_BUFFER_POST_PADDING"

text \<open>An application without extensions whose callback takes the data and makes no calls of its own.\<close>

definition quiet_app :: "'e ws_ops \<Rightarrow> (bytes \<Rightarrow> 'e \<Rightarrow> 'e) \<Rightarrow> bool" where
  "quiet_app ops dl \<longleftrightarrow> active_extensions ops = [] \<and>
     (\<forall>bs w e. callback ops LWS_CALLBACK_RECEIVE bs (w, e) = (0, w, dl bs e))"

definition data_frame :: "wsi \<Rightarrow> bool" where
  "data_frame w \<longleftrightarrow> has_callback (protocol w) \<and>
     opcode w \<in> {OPCODE_TEXT_FRAME, OPCODE_BINARY_FRAME, OPCODE_CONTINUATION}"

lemma put_at_snoc:
  assumes "take (length acc) (drop p mem) = acc" "p + length acc < length mem"
  shows "\<exists>mem'. put_at mem (p + length acc) [x] = Some mem' \<and> length mem' = length mem \<and>
    take (Suc (length acc)) (drop p mem') = acc @ [x]"
proof -
  have "take (length acc) (drop p (take (p + length acc) mem)) = acc"
    using assms(1) by (simp add: drop_take)
  then show ?thesis
    using assms(2) by (simp add: put_at_def)
qed

lemma spill_data:
  assumes "quiet_app ops dl" "data_frame w" "flow_open w" "rx_holds w acc" "acc \<noteq> []"
    and "length acc \<le> rx_limit w"
  shows "\<exists>mem. rx_spill ops (w, e) = Some (0, w\<lparr>rx_user_buffer := mem, rx_user_buffer_head := 0\<rparr>, dl acc e) \<and>
    length mem = length (rx_user_buffer w)"
proof -
  let ?n = "length acc"
  have buf: "take ?n (drop LWS_SEND_BUFFER_PRE_PADDING (rx_user_buffer w)) = acc"
    "LWS_SEND_BUFFER_PRE_PADDING + ?n + 1 \<le> length (rx_user_buffer w)"
    using assms(4,6) by (simp_all add: rx_holds_def LWS_SEND_BUFFER_POST_PADDING_def)
  let ?mem = "take (LWS_SEND_BUFFER_PRE_PADDING + ?n) (rx_user_buffer w) @ [0] @
    drop (LWS_SEND_BUFFER_PRE_PADDING + ?n + 1) (rx_user_buffer w)"
  have "put_at (rx_user_buffer w) (LWS_SEND_BUFFER_PRE_PADDING + ?n) [0] = Some ?mem"
    using buf(2) by (simp add: put_at_def)
  moreover have "rx_tokens w = \<lparr>token_mem = rx_user_buffer w, token_pos = LWS_SEND_BUFFER_PRE_PADDING,
      token_len = ?n, token_moved = False\<rparr>"
    using assms(4) by (simp add: rx_tokens_def rx_holds_def)
  moreover have "token_bytes \<lparr>token_mem = rx_user_buffer w, token_pos = LWS_SEND_BUFFER_PRE_PADDING,
      token_len = ?n, token_moved = False\<rparr> = Some acc"
    using buf by (simp add: token_bytes_def)
  moreover have "has_callback (protocol w)" "active_extensions ops = []"
    "callback ops LWS_CALLBACK_RECEIVE acc (v, e) = (0, v, dl acc e)" for v
    using assms(1,2) by (simp_all add: quiet_app_def data_frame_def)
  moreover have "rxflow_change_to w AND LWS_RXFLOW_PENDING_CHANGE = 0"
    using assms(3) by (simp add: flow_open_def)
  ultimately have "deliver ops (rx_tokens w) (w, e) =
      Some (0, w\<lparr>rx_user_buffer := ?mem, rx_user_buffer_head := 0\<rparr>, dl acc e)"
    using assms(5) by (simp add: deliver_def user_callback_handle_rxflow_def apply_rx_flow_control_def)
  moreover have "rx_spill ops (w, e) = deliver ops (rx_tokens w) (w, e)"
    using assms(1,2) by (auto simp: rx_spill_def data_frame_def quiet_app_def rx_tokens_def)
  moreover have "length ?mem = length (rx_user_buffer w)"
    using buf(2) by simp
  ultimately show ?thesis by metis
qed

lemma rx_limit_pos [simp]: "0 < rx_limit w"
  by (simp add: rx_limit_def LWS_MAX_SOCKET_IO_BUF_def)

lemma rx_limit_update [simp]:
  "rx_limit (w\<lparr>rx_user_buffer := b\<rparr>) = rx_limit w"
  "rx_limit (w\<lparr>rx_user_buffer_head := h\<rparr>) = rx_limit w"
  "rx_limit (w\<lparr>frame_mask_index := i\<rparr>) = rx_limit w"
  "rx_limit (w\<lparr>rx_packet_length := n\<rparr>) = rx_limit w"
  "rx_limit (w\<lparr>lws_rx_parse_state := st\<rparr>) = rx_limit w"
  "rx_limit (w\<lparr>frame_masking_nonce_04 := k\<rparr>) = rx_limit w"
  "rx_limit (w\<lparr>all_zero_nonce := z\<rparr>) = rx_limit w"
  by (simp_all add: rx_limit_def)

text \<open>One byte of payload, put back to its plain value, goes into the buffer.\<close>

definition mask_ok :: "wsi \<Rightarrow> bool" where
  "mask_ok w \<longleftrightarrow> (all_zero_nonce w \<longrightarrow> frame_masking_nonce_04 w = [0, 0, 0, 0])"

lemma zero_key: "[0, 0, 0, 0 :: u8] ! unat (i AND 3 :: u8) = 0"
  using and_3 [of i] by (auto simp: nth_Cons' less_Suc_eq)

lemma rx_payload_byte:
  assumes "rx_holds w acc" "length acc < rx_limit w" "mask_ok w"
  defines "i \<equiv> frame_mask_index w"
  shows "\<exists>mem j. rx_payload w (p XOR frame_masking_nonce_04 w ! unat (i AND 3)) =
      (let w' = w\<lparr>rx_user_buffer := mem, rx_user_buffer_head := Suc (length acc), frame_mask_index := j,
                  rx_packet_length := rx_packet_length w - 1\<rparr>
       in Some (if rx_packet_length w = 1 then Rx_spill (w'\<lparr>lws_rx_parse_state := LWS_RXPS_NEW\<rparr>)
                else if Suc (length acc) \<noteq> rx_limit w then Rx_break w' else Rx_spill w')) \<and>
    rx_holds (w\<lparr>rx_user_buffer := mem, rx_user_buffer_head := Suc (length acc)\<rparr>) (acc @ [p]) \<and>
    length mem = length (rx_user_buffer w) \<and>
    mask_bytes (frame_masking_nonce_04 w) (i + 1) xs = mask_bytes (frame_masking_nonce_04 w) j xs"
proof -
  have b: "take (length acc) (drop LWS_SEND_BUFFER_PRE_PADDING (rx_user_buffer w)) = acc"
    "LWS_SEND_BUFFER_PRE_PADDING + length acc < length (rx_user_buffer w)"
    "length (rx_user_buffer w) = LWS_SEND_BUFFER_PRE_PADDING + rx_limit w + LWS_SEND_BUFFER_POST_PADDING"
    "rx_user_buffer_head w = length acc"
    using assms(1,2) by (simp_all add: rx_holds_def)
  obtain mem where m: "put_at (rx_user_buffer w) (LWS_SEND_BUFFER_PRE_PADDING + length acc) [p] = Some mem"
    "length mem = length (rx_user_buffer w)"
    "take (Suc (length acc)) (drop LWS_SEND_BUFFER_PRE_PADDING mem) = acc @ [p]"
    using put_at_snoc [OF b(1,2), of p] by auto
  let ?k = "frame_masking_nonce_04 w ! unat (i AND 3)"
  have z: "rx_packet_length w - 1 = 0 \<longleftrightarrow> rx_packet_length w = 1" by (simp add: diff_eq_eq)
  show ?thesis
  proof (cases "all_zero_nonce w")
    case True
    then have "?k = 0" "mask_bytes (frame_masking_nonce_04 w) (i + 1) xs = mask_bytes (frame_masking_nonce_04 w) i xs"
      using assms(3) zero_key [of i] by (simp_all add: mask_ok_def mask_zero)
    then show ?thesis
      using m b z True
      by (intro exI [of _ mem] exI [of _ i]) (simp add: rx_payload_def rx_holds_def i_def Let_def)
  next
    case False
    have "(p XOR ?k) XOR ?k = p" by (simp add: xor.assoc)
    then show ?thesis
      using m b z False
      by (intro exI [of _ mem] exI [of _ "i + 1"]) (simp add: rx_payload_def rx_holds_def i_def Let_def)
  qed
qed

lemma interpret_payload:
  assumes "flow_open w" "lws_rx_parse_state w = LWS_RXPS_PAYLOAD_UNTIL_LENGTH_EXHAUSTED" "rx_payload w c = Some r"
  shows "libwebsocket_interpret_incoming_packet ops (c # cs) (w, e) =
    (case r of
       Rx_break w \<Rightarrow> libwebsocket_interpret_incoming_packet ops cs (w, e)
     | Rx_fail w \<Rightarrow> Some (-1, w, e)
     | Rx_spill w \<Rightarrow> do { (m, s) \<leftarrow> rx_spill ops (w, e);
         if m < 0 then Some (-1, s) else libwebsocket_interpret_incoming_packet ops cs s })"
  using assms
  by (simp add: libwebsocket_interpret_incoming_packet.simps(2) flow_open_def libwebsocket_rx_sm_def
      split: rx_next.split)

lemma data_frame_update [simp]:
  "data_frame (w\<lparr>rx_user_buffer := b\<rparr>) = data_frame w"
  "data_frame (w\<lparr>rx_user_buffer_head := h\<rparr>) = data_frame w"
  "data_frame (w\<lparr>frame_mask_index := i\<rparr>) = data_frame w"
  "data_frame (w\<lparr>rx_packet_length := n\<rparr>) = data_frame w"
  "data_frame (w\<lparr>lws_rx_parse_state := st\<rparr>) = data_frame w"
  "data_frame (w\<lparr>frame_masking_nonce_04 := k\<rparr>) = data_frame w"
  "data_frame (w\<lparr>all_zero_nonce := z\<rparr>) = data_frame w"
  by (simp_all add: data_frame_def)

lemma rx_holds_update [simp]:
  "rx_holds (w\<lparr>frame_mask_index := i\<rparr>) acc = rx_holds w acc"
  "rx_holds (w\<lparr>rx_packet_length := n\<rparr>) acc = rx_holds w acc"
  "rx_holds (w\<lparr>lws_rx_parse_state := st\<rparr>) acc = rx_holds w acc"
  "rx_holds (w\<lparr>frame_masking_nonce_04 := k\<rparr>) acc = rx_holds w acc"
  "rx_holds (w\<lparr>all_zero_nonce := z\<rparr>) acc = rx_holds w acc"
  by (simp_all add: rx_holds_def)

lemma of_nat_pred: "(word_of_nat (Suc n) :: u32) - 1 = word_of_nat n"
  by simp

text \<open>The same byte, counted against the rest \<open>ps\<close> of the frame.\<close>

lemma payload_counted:
  assumes "rx_holds w acc" "length acc < rx_limit w" "mask_ok w"
    and "rx_packet_length w = word_of_nat (Suc (length ps))" "Suc (length ps) < 2 ^ 32"
  obtains mem j w' where
    "w' = w\<lparr>rx_user_buffer := mem, rx_user_buffer_head := Suc (length acc), frame_mask_index := j,
       rx_packet_length := word_of_nat (length ps)\<rparr>"
    "rx_payload w (p XOR frame_masking_nonce_04 w ! unat (frame_mask_index w AND 3)) =
       Some (if ps = [] then Rx_spill (w'\<lparr>lws_rx_parse_state := LWS_RXPS_NEW\<rparr>)
             else if Suc (length acc) \<noteq> rx_limit w then Rx_break w' else Rx_spill w')"
    "rx_holds w' (acc @ [p])" "length mem = length (rx_user_buffer w)"
    "mask_bytes (frame_masking_nonce_04 w) (frame_mask_index w + 1) ps = mask_bytes (frame_masking_nonce_04 w) j ps"
proof -
  obtain mem j where b:
    "rx_payload w (p XOR frame_masking_nonce_04 w ! unat (frame_mask_index w AND 3)) =
      (let w' = w\<lparr>rx_user_buffer := mem, rx_user_buffer_head := Suc (length acc), frame_mask_index := j,
                  rx_packet_length := rx_packet_length w - 1\<rparr>
       in Some (if rx_packet_length w = 1 then Rx_spill (w'\<lparr>lws_rx_parse_state := LWS_RXPS_NEW\<rparr>)
                else if Suc (length acc) \<noteq> rx_limit w then Rx_break w' else Rx_spill w'))"
    "rx_holds (w\<lparr>rx_user_buffer := mem, rx_user_buffer_head := Suc (length acc)\<rparr>) (acc @ [p])"
    "length mem = length (rx_user_buffer w)"
    "mask_bytes (frame_masking_nonce_04 w) (frame_mask_index w + 1) ps = mask_bytes (frame_masking_nonce_04 w) j ps"
    using rx_payload_byte [OF assms(1-3), of p ps] by blast
  have pred: "rx_packet_length w - 1 = word_of_nat (length ps)"
    using assms(4) by simp
  have one: "rx_packet_length w = 1 \<longleftrightarrow> ps = []"
  proof -
    have "rx_packet_length w = 1 \<longleftrightarrow> word_of_nat (length ps) = (0 :: u32)"
      using pred by (metis add.right_neutral diff_add_cancel diff_self)
    also have "\<dots> \<longleftrightarrow> ps = []"
      using assms(5) by (cases "ps = []", auto simp: word_of_nat_eq_0_iff dest!: dvd_imp_le)
    finally show ?thesis .
  qed
  show ?thesis
    by (rule that [OF refl _ _ b(3,4)]) (use b(1,2) in \<open>simp_all add: Let_def pred one\<close>)
qed

text \<open>The machine after the last byte of a frame, all else being as before.\<close>

definition frame_done :: "bytes \<Rightarrow> u8 \<Rightarrow> wsi \<Rightarrow> wsi" where
  "frame_done mem i w = w\<lparr>rx_user_buffer := mem, rx_user_buffer_head := 0, frame_mask_index := i,
     rx_packet_length := 0, lws_rx_parse_state := LWS_RXPS_NEW\<rparr>"

lemma frame_done_update [simp]:
  "frame_done m i (w\<lparr>rx_user_buffer := b\<rparr>) = frame_done m i w"
  "frame_done m i (w\<lparr>rx_user_buffer_head := h\<rparr>) = frame_done m i w"
  "frame_done m i (w\<lparr>frame_mask_index := j\<rparr>) = frame_done m i w"
  "frame_done m i (w\<lparr>rx_packet_length := n\<rparr>) = frame_done m i w"
  "frame_done m i (w\<lparr>lws_rx_parse_state := st\<rparr>) = frame_done m i w"
  by (simp_all add: frame_done_def)

lemma read_payload:
  assumes "quiet_app ops dl" "data_frame w" "flow_open w" "mask_ok w"
    and "lws_rx_parse_state w = LWS_RXPS_PAYLOAD_UNTIL_LENGTH_EXHAUSTED"
    and "rx_holds w acc" "length acc < rx_limit w"
    and "ps \<noteq> []" "length ps < 2 ^ 32" "rx_packet_length w = word_of_nat (length ps)"
  shows "\<exists>mem i. libwebsocket_interpret_incoming_packet ops
       (mask_bytes (frame_masking_nonce_04 w) (frame_mask_index w) ps @ cs) (w, e) =
      libwebsocket_interpret_incoming_packet ops cs
        (frame_done mem i w, fold dl (spills (rx_limit w) acc ps) e) \<and>
      length mem = length (rx_user_buffer w)"
  using assms(2-)
proof (induction ps arbitrary: w acc e)
  case (Cons p ps)
  let ?rd = "libwebsocket_interpret_incoming_packet ops"
  have len: "rx_packet_length w = word_of_nat (Suc (length ps))" "Suc (length ps) < 2 ^ 32"
    using Cons.prems(8,9) by simp_all
  obtain mem j w' where w': "w' = w\<lparr>rx_user_buffer := mem, rx_user_buffer_head := Suc (length acc),
      frame_mask_index := j, rx_packet_length := word_of_nat (length ps)\<rparr>"
    and r: "rx_payload w (p XOR frame_masking_nonce_04 w ! unat (frame_mask_index w AND 3)) =
      Some (if ps = [] then Rx_spill (w'\<lparr>lws_rx_parse_state := LWS_RXPS_NEW\<rparr>)
            else if Suc (length acc) \<noteq> rx_limit w then Rx_break w' else Rx_spill w')"
    and h: "rx_holds w' (acc @ [p])" and b: "length mem = length (rx_user_buffer w)"
    "mask_bytes (frame_masking_nonce_04 w) (frame_mask_index w + 1) ps = mask_bytes (frame_masking_nonce_04 w) j ps"
    by (rule payload_counted [OF Cons.prems(5,6,3) len, of p])
  let ?w = "w\<lparr>rx_user_buffer := mem, rx_user_buffer_head := Suc (length acc), frame_mask_index := j,
    rx_packet_length := word_of_nat (length ps)\<rparr>"
  note r = r [unfolded w'] and h = h [unfolded w']
  have spill: "\<exists>m. rx_spill ops (v, e) =
      Some (0, v\<lparr>rx_user_buffer := m, rx_user_buffer_head := 0\<rparr>, dl (acc @ [p]) e) \<and> length m = length (rx_user_buffer w)"
    if "v = ?w \<or> v = ?w\<lparr>lws_rx_parse_state := LWS_RXPS_NEW\<rparr>" for v
    using that spill_data [OF assms(1), of v "acc @ [p]" e] Cons.prems(1,2,6) h b(1) by auto
  note step = interpret_payload [OF Cons.prems(2,4) r, of ops]
  consider "ps = []" | "ps \<noteq> []" "Suc (length acc) \<noteq> rx_limit w" | "ps \<noteq> []" "Suc (length acc) = rx_limit w"
    by blast
  then show ?case
  proof cases
    case 1
    obtain m where "rx_spill ops (?w\<lparr>lws_rx_parse_state := LWS_RXPS_NEW\<rparr>, e) =
        Some (0, ?w\<lparr>lws_rx_parse_state := LWS_RXPS_NEW, rx_user_buffer := m, rx_user_buffer_head := 0\<rparr>, dl (acc @ [p]) e)"
      "length m = length (rx_user_buffer w)" using spill by blast
    moreover have "?w\<lparr>lws_rx_parse_state := LWS_RXPS_NEW, rx_user_buffer := m, rx_user_buffer_head := 0\<rparr> =
        frame_done m j w"
      using 1 by (cases w) (simp add: frame_done_def)
    ultimately show ?thesis
      using 1 by (intro exI [of _ m] exI [of _ j]) (simp add: step)
  next
    case 2
    have "\<exists>m i. ?rd (mask_bytes (frame_masking_nonce_04 ?w) (frame_mask_index ?w) ps @ cs) (?w, e) =
        ?rd cs (frame_done m i ?w, fold dl (spills (rx_limit ?w) (acc @ [p]) ps) e) \<and>
        length m = length (rx_user_buffer ?w)"
      using Cons.prems 2 h by (intro Cons.IH) (simp_all add: mask_ok_def)
    then show ?thesis
      using 2 b(1) by (simp add: step b(2))
  next
    case 3
    obtain m where m: "rx_spill ops (?w, e) =
        Some (0, ?w\<lparr>rx_user_buffer := m, rx_user_buffer_head := 0\<rparr>, dl (acc @ [p]) e)"
      "length m = length (rx_user_buffer w)" using spill by blast
    let ?v = "?w\<lparr>rx_user_buffer := m, rx_user_buffer_head := 0\<rparr>"
    have "rx_holds ?v []" using Cons.prems(5) m(2) by (simp add: rx_holds_def)
    then have "\<exists>m' i. ?rd (mask_bytes (frame_masking_nonce_04 ?v) (frame_mask_index ?v) ps @ cs) (?v, dl (acc @ [p]) e) =
        ?rd cs (frame_done m' i ?v, fold dl (spills (rx_limit ?v) [] ps) (dl (acc @ [p]) e)) \<and>
        length m' = length (rx_user_buffer ?v)"
      using Cons.prems 3 by (intro Cons.IH) (simp_all add: mask_ok_def)
    then show ?thesis
      using 3 m by (simp add: step b(2))
  qed
qed simp

end
