(* ===== verification/Ws_Wire.thy ===== *)
theory Ws_Wire
  imports Ws_Framing
begin

text \<open>
  What \<open>libwebsocket_write\<close> puts on the wire, and what the receiving machine makes of a stream of such
  frames. No extension is active on the connection in this theory.
\<close>

section \<open>Writing a frame in place\<close>

lemma put_at_append:
  "length X = length Y \<Longrightarrow> put_at (A @ X @ B) (length A) Y = Some (A @ Y @ B)"
  by (simp add: put_at_def)

lemma token_bytes_append:
  "token_bytes \<lparr>token_mem = A @ X @ B, token_pos = length A, token_len = length X, token_moved = m\<rparr> = Some X"
  by (simp add: token_bytes_def)

definition mask_bit :: "wsi \<Rightarrow> u8" where
  "mask_bit w = (if mode w = LWS_CONNMODE_WS_CLIENT then 0x80 else 0)"

definition key_len :: "wsi \<Rightarrow> nat" where
  "key_len w = (if mode w = LWS_CONNMODE_WS_CLIENT then 4 else 0)"

text \<open>The first byte of a frame for a value of the parameter \<open>protocol\<close>.\<close>

definition first_byte :: "u8 \<Rightarrow> u8 \<Rightarrow> u8" where
  "first_byte prot n = (if prot AND LWS_WRITE_NO_FIN = 0 then n OR 0x80 else n)"

lemma frame_in_place_header:
  assumes "wsi_spec_revision w = 13" "frame_opcode prot = Some n"
    and "prot AND 0xf = LWS_WRITE_CLOSE \<longrightarrow> close_reason w = 0"
    and "length K = key_len w" "length H = length (frame_header (first_byte prot n) (length P) (mask_bit w))"
  shows "frame_in_place prot w
      \<lparr>token_mem = A @ H @ K @ P @ Z, token_pos = length A + length H + length K, token_len = length P, token_moved = m\<rparr> =
    Some (Some (length K + length H,
      if mode w = LWS_CONNMODE_WS_CLIENT then Some (length A + length H) else None,
      \<lparr>token_mem = A @ frame_header (first_byte prot n) (length P) (mask_bit w) @ K @ P @ Z,
       token_pos = length A + length H + length K, token_len = length P, token_moved = m\<rparr>))"
  using assms put_at_append [of H "frame_header (first_byte prot n) (length P) (mask_bit w)" A "K @ P @ Z"]
  by (auto simp: frame_in_place_def put_before_def first_byte_def mask_bit_def key_len_def Let_def)

lemma mask_in_place_server:
  "mode w \<noteq> LWS_CONNMODE_WS_CLIENT \<Longrightarrow> mask_in_place ops d tok (w, e) = Some (True, tok, w, e)"
  by (simp add: mask_in_place_def)

lemma length_random_bytes: "random_bytes ops n e = (bs, e') \<Longrightarrow> length bs = n"
  by (induction n arbitrary: bs e e') (auto split: prod.splits)

lemma mask_in_place_client:
  assumes "mode w = LWS_CONNMODE_WS_CLIENT" "\<not> inside_frame w" "random_bytes ops 4 e = (key, e')" "length K = 4"
  shows "mask_in_place ops (Some (length (A @ H)))
      \<lparr>token_mem = A @ H @ K @ P @ Z, token_pos = p, token_len = length P, token_moved = m\<rparr> (w, e) =
    Some (True,
      \<lparr>token_mem = A @ H @ key @ mask_bytes key 0 P @ Z, token_pos = p, token_len = length P, token_moved = m\<rparr>,
      w\<lparr>frame_masking_nonce_04 := key, frame_mask_index := word_of_nat (length P)\<rparr>, e')"
proof -
  have k: "length key = 4" using length_random_bytes [OF assms(3)] .
  have "token_bytes \<lparr>token_mem = (A @ H @ K) @ P @ Z, token_pos = length (A @ H @ K), token_len = length P, token_moved = m\<rparr> = Some P"
    by (rule token_bytes_append)
  moreover have "put_at ((A @ H @ K) @ P @ Z) (length (A @ H @ K)) (mask_bytes key 0 P) =
      Some ((A @ H @ K) @ mask_bytes key 0 P @ Z)"
    by (rule put_at_append) simp
  moreover have "put_at ((A @ H) @ K @ mask_bytes key 0 P @ Z) (length (A @ H)) key =
      Some ((A @ H) @ key @ mask_bytes key 0 P @ Z)"
    by (rule put_at_append) (simp add: assms(4) k)
  ultimately show ?thesis
    using assms k
    by (simp add: mask_in_place_def libwebsocket_0405_frame_mask_generate_def libwebsockets_get_random_def add.assoc)
qed

section \<open>Sending it\<close>

lemma issue_raw_plain:
  assumes "active_extensions ops = []"
  shows "lws_issue_raw ops buf (w, e) =
    (let (n, e) = send ops buf e in if n < 0 then Some (-1, w, e) else Some (handle_truncated_send ops buf n (w, e)))"
  using assms by (simp add: lws_issue_raw_def token_bytes_def)

lemma ext_access_plain:
  assumes "active_extensions ops = []"
  shows "lws_issue_raw_ext_access ops
      \<lparr>token_mem = A @ X @ B, token_pos = length A, token_len = length X, token_moved = False\<rparr> (w, e) =
    (if X = [] then Some (0, w, e)
     else do { (n, s) \<leftarrow> lws_issue_raw ops X (w, e);
          Some (if n < 0 then -1 else int (length X), s) })"
  using assms token_bytes_append [of A X B False]
  by (auto simp: lws_issue_raw_ext_access_def ext_access_loop.simps [of ops] split: prod.split Option.bind_splits)

text \<open>
  The bytes of one frame on the wire, and the part of \<open>libwebsocket_write\<close> that depends on the
  socket: a control frame goes out directly, a data frame is marked as unfinished around the send.
\<close>

definition wire_frame :: "wsi \<Rightarrow> u8 \<Rightarrow> bytes \<Rightarrow> bytes \<Rightarrow> bytes" where
  "wire_frame w b0 key P = frame_header b0 (length P) (mask_bit w) @
     (if mode w = LWS_CONNMODE_WS_CLIENT then key @ mask_bytes key 0 P else P)"

definition draw_key :: "'e ws_ops \<Rightarrow> nat \<Rightarrow> 'e conn \<Rightarrow> bytes \<times> 'e conn" where
  "draw_key ops len = (\<lambda>(w, e).
     if mode w = LWS_CONNMODE_WS_CLIENT then
       (let (key, e) = random_bytes ops 4 e
        in (key, w\<lparr>frame_masking_nonce_04 := key, frame_mask_index := word_of_nat len\<rparr>, e))
     else ([], w, e))"

definition is_control :: "u8 \<Rightarrow> bool" where
  "is_control prot \<longleftrightarrow> prot \<in> {LWS_WRITE_CLOSE, LWS_WRITE_PING, LWS_WRITE_PONG}"

definition send_frame :: "'e ws_ops \<Rightarrow> u8 \<Rightarrow> bytes \<Rightarrow> nat \<Rightarrow> 'e conn \<Rightarrow> (int \<times> 'e conn) option" where
  "send_frame ops prot frame len = (\<lambda>(w, e).
     if is_control prot then lws_issue_raw ops frame (w, e)
     else do { (n, w, e) \<leftarrow> lws_issue_raw ops frame (w\<lparr>inside_frame := True\<rparr>, e);
               Some (if n < 0 then (-1, w, e) else (int len, w\<lparr>inside_frame := False\<rparr>, e)) })"

lemma frame_header_ne [simp]: "frame_header n len m \<noteq> []"
  by (simp add: frame_header_def)

lemma send_raw_frame:
  assumes "active_extensions ops = []" "X \<noteq> []" "prot \<noteq> LWS_WRITE_HTTP" "p = length A + pre"
    and "length X = len + pre"
  shows "send_raw ops prot orig pre
      \<lparr>token_mem = A @ X @ B, token_pos = p, token_len = len, token_moved = m\<rparr> (w, e) =
    send_frame ops prot X orig (w, e)"
proof -
  have t: "\<lparr>token_mem = A @ X @ B, token_pos = p - pre, token_len = len + pre, token_moved = False\<rparr> =
      \<lparr>token_mem = A @ X @ B, token_pos = length A, token_len = length X, token_moved = False\<rparr>"
    using assms by simp
  show ?thesis
    using assms(1-3) token_bytes_append [of A X B False] ext_access_plain [OF assms(1), of A X B]
    unfolding send_raw_def t
    by (auto simp: send_frame_def is_control_def t split: prod.split Option.bind_splits)
qed

lemma write_frame:
  assumes "active_extensions ops = []" "state w = WSI_STATE_ESTABLISHED" "\<not> inside_frame w"
    and "wsi_spec_revision w = 13" "frame_opcode prot = Some n"
    and "prot AND 0xf = LWS_WRITE_CLOSE \<longrightarrow> close_reason w = 0" "P \<noteq> [] \<or> is_control prot"
    and "length K = key_len w" "length H = length (frame_header (first_byte prot n) (length P) (mask_bit w))"
  shows "libwebsocket_write ops (A @ H @ K @ P @ Z) (length A + length H + length K) (length P) prot (w, e) =
    (let (key, s) = draw_key ops (length P) (w\<lparr>clean_buffer := \<not> no_buffer_all_partial_tx (protocol w)\<rparr>, e);
         frame = wire_frame w (first_byte prot n) key P
     in do { (r, s) \<leftarrow> send_frame ops prot frame (length P) s; Some (r, A @ frame @ Z, s) })"
proof -
  let ?w = "w\<lparr>clean_buffer := \<not> no_buffer_all_partial_tx (protocol w)\<rparr>"
  let ?hdr = "frame_header (first_byte prot n) (length P) (mask_bit w)"
  let ?p = "length A + length H + length K"
  have http: "prot \<noteq> LWS_WRITE_HTTP" using assms(5) by (auto simp: frame_opcode_def Let_def)
  have hdr: "frame_in_place prot ?w
      \<lparr>token_mem = A @ H @ K @ P @ Z, token_pos = ?p, token_len = length P, token_moved = False\<rparr> =
    Some (Some (length K + length H,
      if mode w = LWS_CONNMODE_WS_CLIENT then Some (length A + length H) else None,
      \<lparr>token_mem = A @ ?hdr @ K @ P @ Z, token_pos = ?p, token_len = length P, token_moved = False\<rparr>))"
    using frame_in_place_header [of ?w prot n K H P A Z False] assms(4-6,8,9)
    by (simp add: mask_bit_def key_len_def)
  have ctl: "prot \<in> {LWS_WRITE_CLOSE, LWS_WRITE_PING, LWS_WRITE_PONG} \<longleftrightarrow> is_control prot"
    by (simp add: is_control_def)
  have start: "libwebsocket_write ops (A @ H @ K @ P @ Z) ?p (length P) prot (w, e) =
    do { (ok, tok, s) \<leftarrow> mask_in_place ops (if mode w = LWS_CONNMODE_WS_CLIENT then Some (length A + length H) else None)
           \<lparr>token_mem = A @ ?hdr @ K @ P @ Z, token_pos = ?p, token_len = length P, token_moved = False\<rparr> (?w, e);
         let mem = (if token_moved tok then A @ H @ K @ P @ Z else token_mem tok) in
         if \<not> ok then Some (-1, mem, s)
         else do { (r, s) \<leftarrow> send_raw ops prot (length P) (length K + length H) tok s; Some (r, mem, s) } }"
    using assms(1-3,7) http hdr unfolding libwebsocket_write_def ctl by (auto simp: Let_def)
  show ?thesis
  proof (cases "mode w = LWS_CONNMODE_WS_CLIENT")
    case True
    obtain key e' where key: "random_bytes ops 4 e = (key, e')" by fastforce
    have k: "length key = 4" "length K = 4" using length_random_bytes [OF key] assms(8) True by (simp_all add: key_len_def)
    let ?v = "?w\<lparr>frame_masking_nonce_04 := key, frame_mask_index := word_of_nat (length P)\<rparr>"
    have "send_raw ops prot (length P) (length K + length H)
        \<lparr>token_mem = A @ (?hdr @ key @ mask_bytes key 0 P) @ Z, token_pos = ?p, token_len = length P, token_moved = False\<rparr> (?v, e') =
      send_frame ops prot (?hdr @ key @ mask_bytes key 0 P) (length P) (?v, e')"
      using assms(1,9) k by (intro send_raw_frame http) simp_all
    moreover have "mask_in_place ops (Some (length (A @ ?hdr)))
        \<lparr>token_mem = A @ ?hdr @ K @ P @ Z, token_pos = ?p, token_len = length P, token_moved = False\<rparr> (?w, e) =
      Some (True, \<lparr>token_mem = A @ ?hdr @ key @ mask_bytes key 0 P @ Z, token_pos = ?p, token_len = length P,
        token_moved = False\<rparr>, ?v, e')"
      using True assms(3) key k by (intro mask_in_place_client) simp_all
    ultimately show ?thesis
      using True assms(9) unfolding start by (simp add: draw_key_def key wire_frame_def)
  next
    case False
    have "send_raw ops prot (length P) (length K + length H)
        \<lparr>token_mem = A @ (?hdr @ K @ P) @ Z, token_pos = ?p, token_len = length P, token_moved = False\<rparr> (?w, e) =
      send_frame ops prot (?hdr @ K @ P) (length P) (?w, e)"
      using assms(1,9) by (intro send_raw_frame http) simp_all
    then show ?thesis
      using False assms(8) unfolding start
      by (simp add: draw_key_def wire_frame_def mask_in_place_server key_len_def)
  qed
qed

section \<open>Receiving a stream of frames\<close>

text \<open>A server connection between two frames.\<close>

definition rx_idle :: "wsi \<Rightarrow> bool" where
  "rx_idle w \<longleftrightarrow> flow_open w \<and> lws_rx_parse_state w = LWS_RXPS_NEW \<and> wsi_spec_revision w = 13 \<and>
     rx_holds w [] \<and> length (frame_masking_nonce_04 w) = 4 \<and> has_callback (protocol w)"

definition client_frame :: "u8 \<Rightarrow> bytes \<Rightarrow> bytes \<Rightarrow> bytes" where
  "client_frame b0 key P = frame_header b0 (length P) 0x80 @ key @ mask_bytes key 0 P"

lemma wire_frame_client:
  "mode w = LWS_CONNMODE_WS_CLIENT \<Longrightarrow> wire_frame w b0 key P = client_frame b0 key P"
  by (simp add: wire_frame_def client_frame_def mask_bit_def)

lemma header_read_simps [simp]:
  "flow_open (header_read b0 len m w) = flow_open w"
  "rx_holds (header_read b0 len m w) acc = rx_holds w acc"
  "rx_limit (header_read b0 len m w) = rx_limit w"
  "protocol (header_read b0 len m w) = protocol w"
  "wsi_spec_revision (header_read b0 len m w) = wsi_spec_revision w"
  "frame_masking_nonce_04 (header_read b0 len m w) = frame_masking_nonce_04 w"
  "rx_packet_length (header_read b0 len m w) = word_of_nat len"
  "opcode (header_read b0 len m w) = b0 AND 0xf"
  "final (header_read b0 len m w) = (drop_bit 7 b0 AND 1 \<noteq> 0)"
  "all_zero_nonce (header_read b0 len m w)"
  "lws_rx_parse_state (header_read b0 len m w) =
     (if m then LWS_RXPS_07_COLLECT_FRAME_KEY_1 else LWS_RXPS_PAYLOAD_UNTIL_LENGTH_EXHAUSTED)"
  by (simp_all add: header_read_def handle_first_def after_length_def Let_def rx_holds_def rx_limit_def flow_open_def)

lemma key_read_simps [simp]:
  "flow_open (key_read k w) = flow_open w"
  "rx_holds (key_read k w) acc = rx_holds w acc"
  "rx_limit (key_read k w) = rx_limit w"
  "protocol (key_read k w) = protocol w"
  "wsi_spec_revision (key_read k w) = wsi_spec_revision w"
  "frame_masking_nonce_04 (key_read k w) = k"
  "frame_mask_index (key_read k w) = 0"
  "rx_packet_length (key_read k w) = rx_packet_length w"
  "opcode (key_read k w) = opcode w"
  "final (key_read k w) = final w"
  "lws_rx_parse_state (key_read k w) = LWS_RXPS_PAYLOAD_UNTIL_LENGTH_EXHAUSTED"
  "rx_user_buffer (key_read k w) = rx_user_buffer w"
  "mask_ok (key_read k w)"
  by (simp_all add: key_read_def rx_holds_def rx_limit_def flow_open_def mask_ok_def)

lemma read_frame:
  assumes "quiet_app ops dl" "rx_idle w" "b0 AND 0xf \<in> {OPCODE_TEXT_FRAME, OPCODE_BINARY_FRAME, OPCODE_CONTINUATION}"
    and "length key = 4" "P \<noteq> []" "length P < 2 ^ 32"
  shows "\<exists>w'. libwebsocket_interpret_incoming_packet ops (client_frame b0 key P @ cs) (w, e) =
      libwebsocket_interpret_incoming_packet ops cs (w', fold dl (spills (rx_limit w) [] P) e) \<and>
    rx_idle w' \<and> rx_limit w' = rx_limit w \<and> opcode w' = b0 AND 0xf \<and> final w' = (drop_bit 7 b0 AND 1 \<noteq> 0)"
proof -
  let ?h = "header_read b0 (length P) True w" and ?rd = "libwebsocket_interpret_incoming_packet ops"
  let ?k = "key_read key ?h"
  have w: "flow_open w" "lws_rx_parse_state w = LWS_RXPS_NEW" "wsi_spec_revision w = 13" "rx_holds w []"
    "length (frame_masking_nonce_04 w) = 4" "has_callback (protocol w)"
    using assms(2) by (simp_all add: rx_idle_def)
  have "(b0 AND 0xf) AND 8 = 0" using assms(3) by auto
  then have "b0 AND 8 = 0" by (simp add: and_8)
  then have "?rd (client_frame b0 key P @ cs) (w, e) = ?rd (key @ mask_bytes key 0 P @ cs) (?h, e)"
    using read_header [OF w(1-3), of b0 "length P" ops True] by (simp add: client_frame_def)
  also have "\<dots> = ?rd (mask_bytes key 0 P @ cs) (?k, e)"
  proof -
    have "word_of_nat (length P) \<noteq> (0 :: u32)"
      using assms(5,6) by (auto simp: word_of_nat_eq_0_iff dest!: dvd_imp_le)
    then show ?thesis
      using w assms(4) by (simp add: read_key)
  qed
  finally have start: "?rd (client_frame b0 key P @ cs) (w, e) = ?rd (mask_bytes key 0 P @ cs) (?k, e)" .
  have df: "data_frame ?k" using w(6) assms(3) by (simp add: data_frame_def)
  have pay: "\<exists>mem i. ?rd (mask_bytes (frame_masking_nonce_04 ?k) (frame_mask_index ?k) P @ cs) (?k, e) =
      ?rd cs (frame_done mem i ?k, fold dl (spills (rx_limit ?k) [] P) e) \<and> length mem = length (rx_user_buffer ?k)"
    using df w assms(5,6) by (intro read_payload [OF assms(1)]) simp_all
  obtain mem i where 1: "?rd (client_frame b0 key P @ cs) (w, e) =
      ?rd cs (frame_done mem i ?k, fold dl (spills (rx_limit w) [] P) e)" "length mem = length (rx_user_buffer ?k)"
    using pay unfolding start by auto
  have "rx_holds ?k []" using w(4) by simp
  then have "rx_holds (frame_done mem i ?k) []" "rx_limit (frame_done mem i ?k) = rx_limit w"
    using 1(2) by (auto simp: rx_holds_def frame_done_def rx_limit_def)
  then show ?thesis
    using 1 w assms(4) by (intro exI [of _ "frame_done mem i ?k"]) (simp add: rx_idle_def frame_done_def)
qed

lemma read_frames:
  assumes "quiet_app ops dl" "rx_idle w"
    and "list_all (\<lambda>(b0, key, P). b0 AND 0xf \<in> {OPCODE_TEXT_FRAME, OPCODE_BINARY_FRAME, OPCODE_CONTINUATION} \<and>
           length key = 4 \<and> P \<noteq> [] \<and> length P < 2 ^ 32) fs"
  shows "\<exists>w'. libwebsocket_interpret_incoming_packet ops
       (concat (map (\<lambda>(b0, key, P). client_frame b0 key P) fs)) (w, e) =
      Some (0, w', fold dl (concat (map (\<lambda>(b0, key, P). spills (rx_limit w) [] P) fs)) e) \<and>
    rx_idle w' \<and> rx_limit w' = rx_limit w"
  using assms(2,3)
proof (induction fs arbitrary: w e)
  case (Cons f fs)
  obtain b0 key P where f: "f = (b0, key, P)" by (cases f)
  let ?fs = "concat (map (\<lambda>(b0, key, P). client_frame b0 key P) fs)"
  obtain w' where "libwebsocket_interpret_incoming_packet ops (client_frame b0 key P @ ?fs) (w, e) =
      libwebsocket_interpret_incoming_packet ops ?fs (w', fold dl (spills (rx_limit w) [] P) e)"
    "rx_idle w'" "rx_limit w' = rx_limit w"
    using read_frame [OF assms(1) Cons.prems(1), of b0 key P ?fs e] Cons.prems(2) by (auto simp: f)
  moreover from Cons.IH [OF this(2), of "fold dl (spills (rx_limit w) [] P) e"] this Cons.prems(2)
  obtain w'' where "libwebsocket_interpret_incoming_packet ops ?fs (w', fold dl (spills (rx_limit w) [] P) e) =
      Some (0, w'', fold dl (concat (map (\<lambda>(b0, key, P). spills (rx_limit w) [] P) fs))
        (fold dl (spills (rx_limit w) [] P) e))" "rx_idle w''" "rx_limit w'' = rx_limit w"
    by auto
  ultimately show ?case by (auto simp: f)
qed simp

text \<open>What one read leaves behind is where the next one starts.\<close>

lemma interpret_append:
  assumes "libwebsocket_interpret_incoming_packet ops xs s = Some (0, s')"
  shows "libwebsocket_interpret_incoming_packet ops (xs @ ys) s = libwebsocket_interpret_incoming_packet ops ys s'"
  using assms
proof (induction xs arbitrary: s)
  case (Cons x xs)
  then show ?case
    by (cases s) (auto simp: libwebsocket_interpret_incoming_packet.simps(2) Let_def
        split: if_splits option.splits prod.splits Option.bind_splits)
qed simp

section \<open>A socket that may take less\<close>

text \<open>
  \<open>acc e\<close> is what the socket of the connection has accepted. A send fails or takes the beginning of what
  it is offered; the other callouts send nothing, and the mirror of the poll table makes no calls
  of its own.
\<close>

definition tx_socket :: "'e ws_ops \<Rightarrow> ('e \<Rightarrow> bytes) \<Rightarrow> bool" where
  "tx_socket ops acc \<longleftrightarrow> active_extensions ops = [] \<and>
     (\<forall>bs e n e'. send ops bs e = (n, e') \<longrightarrow>
        (if n < 0 then acc e' = acc e else n \<le> int (length bs) \<and> acc e' = acc e @ take (nat n) bs)) \<and>
     (\<forall>r f w e w' e'. poll_callback ops r f (w, e) = (w', e') \<longrightarrow> w' = w \<and> acc e' = acc e) \<and>
     (\<forall>n e ok e'. malloc_ok ops n e = (ok, e') \<longrightarrow> ok \<and> acc e' = acc e) \<and>
     (\<forall>e b e'. rand ops e = (b, e') \<longrightarrow> acc e' = acc e)"

text \<open>The bytes the connection still owes the socket, and that its counters agree with the buffer.\<close>

definition owed :: "wsi \<Rightarrow> bytes" where
  "owed w = (case truncated_send_malloc w of None \<Rightarrow> []
     | Some m \<Rightarrow> take (unat (truncated_send_len w)) (drop (unat (truncated_send_offset w)) m))"

definition tx_ok :: "wsi \<Rightarrow> bool" where
  "tx_ok w \<longleftrightarrow> (case truncated_send_malloc w of None \<Rightarrow> True
     | Some m \<Rightarrow> length m < 2 ^ 32 \<and> truncated_send_len w \<noteq> 0 \<and>
         unat (truncated_send_offset w) + unat (truncated_send_len w) = length m)"

lemma tx_socket_no_ext: "tx_socket ops acc \<Longrightarrow> active_extensions ops = []"
  by (simp add: tx_socket_def)

lemma tx_socket_send:
  assumes "tx_socket ops acc" "send ops bs e = (n, e')"
  shows "if n < 0 then acc e' = acc e else n \<le> int (length bs) \<and> acc e' = acc e @ take (nat n) bs"
  using assms unfolding tx_socket_def by blast

lemma tx_socket_poll:
  assumes "tx_socket ops acc" "poll_callback ops r f (w, e) = (w', e')"
  shows "w' = w" "acc e' = acc e"
  using assms unfolding tx_socket_def by blast+

lemma tx_socket_malloc:
  assumes "tx_socket ops acc" "malloc_ok ops n e = (ok, e')"
  shows "ok" "acc e' = acc e"
  using assms unfolding tx_socket_def by blast+

lemma tx_socket_rand: "tx_socket ops acc \<Longrightarrow> rand ops e = (b, e') \<Longrightarrow> acc e' = acc e"
  unfolding tx_socket_def by blast

lemma on_writable_tx:
  assumes "tx_socket ops acc" "libwebsocket_callback_on_writable ops (w, e) = (r, w', e')"
  shows "w' = (if position_in_fds_table w < 0 then w else w\<lparr>events_POLLOUT := True\<rparr>)" "acc e' = acc e"
proof -
  have n: "active_extensions ops = []" using assms(1) by (simp add: tx_socket_def)
  obtain v x where p: "poll_callback ops LWS_CALLBACK_SET_MODE_POLL_FD POLLOUT (w\<lparr>events_POLLOUT := True\<rparr>, e) = (v, x)"
    by fastforce
  note v = tx_socket_poll [OF assms(1) p]
  then show "w' = (if position_in_fds_table w < 0 then w else w\<lparr>events_POLLOUT := True\<rparr>)" "acc e' = acc e"
    using assms(2) n p v by (auto simp: libwebsocket_callback_on_writable_def split: if_splits)
qed

lemma owed_update [simp]:
  "owed (w\<lparr>events_POLLOUT := b\<rparr>) = owed w" "tx_ok (w\<lparr>events_POLLOUT := b\<rparr>) = tx_ok w"
  "owed (w\<lparr>inside_frame := b\<rparr>) = owed w" "tx_ok (w\<lparr>inside_frame := b\<rparr>) = tx_ok w"
  "owed (w\<lparr>clean_buffer := b\<rparr>) = owed w" "tx_ok (w\<lparr>clean_buffer := b\<rparr>) = tx_ok w"
  "owed (w\<lparr>frame_masking_nonce_04 := k\<rparr>) = owed w" "tx_ok (w\<lparr>frame_masking_nonce_04 := k\<rparr>) = tx_ok w"
  "owed (w\<lparr>frame_mask_index := i\<rparr>) = owed w" "tx_ok (w\<lparr>frame_mask_index := i\<rparr>) = tx_ok w"
  by (simp_all add: owed_def tx_ok_def split: option.split)

text \<open>While bytes are owed, the poll table asks for the socket to become writable.\<close>

definition armed :: "wsi \<Rightarrow> bool" where
  "armed w \<longleftrightarrow> truncated_send_malloc w \<noteq> None \<and> 0 \<le> position_in_fds_table w \<longrightarrow> events_POLLOUT w"

lemma armed_on_writable: "armed (if position_in_fds_table w < 0 then w else w\<lparr>events_POLLOUT := True\<rparr>)"
  by (simp add: armed_def)

lemma armed_update [simp]:
  "armed (w\<lparr>inside_frame := b\<rparr>) = armed w" "armed (w\<lparr>clean_buffer := b\<rparr>) = armed w"
  by (simp_all add: armed_def)

text \<open>Handing over bytes when none are owed: taken at once, kept for later, or left to the caller.\<close>

lemma issue_raw_fresh:
  assumes "tx_socket ops acc" "truncated_send_malloc w = None" "length buf < 2 ^ 32"
    and "lws_issue_raw ops buf (w, e) = Some (n, w', e')"
  shows "n < 0 \<and> acc e' = acc e \<and> w' = w \<or>
    0 \<le> n \<and> n \<le> int (length buf) \<and> tx_ok w' \<and> armed w' \<and>
    (if clean_buffer w then w' = w \<and> acc e' = acc e @ take (nat n) buf
     else n = int (length buf) \<and> acc e' @ owed w' = acc e @ buf)"
proof -
  have n: "active_extensions ops = []" using assms(1) by (simp add: tx_socket_def)
  obtain k x where s: "send ops buf e = (k, x)" by fastforce
  note k = tx_socket_send [OF assms(1) s]
  show ?thesis
  proof (cases "0 \<le> k \<and> k < int (length buf) \<and> \<not> clean_buffer w")
    case False
    then show ?thesis
      using assms(2,4) n s k
      by (auto simp: issue_raw_plain handle_truncated_send_def owed_def tx_ok_def armed_def split: if_splits)
  next
    case True
    obtain ok y where m: "malloc_ok ops (length buf - nat k) x = (ok, y)" by fastforce
    note y = tx_socket_malloc [OF assms(1) m]
    let ?w = "w\<lparr>truncated_send_malloc := Some (drop (nat k) buf), truncated_send_offset := 0,
      truncated_send_len := word_of_nat (length buf - nat k)\<rparr>"
    obtain r v z where c: "libwebsocket_callback_on_writable ops (?w, y) = (r, v, z)" by (metis prod.exhaust)
    note v = on_writable_tx [OF assms(1) c]
    have u: "unat (word_of_nat (length buf - nat k) :: u32) = length buf - nat k"
      using assms(3) by (simp add: unsigned_of_nat take_bit_nat_eq_self)
    then have "tx_ok ?w" "owed ?w = drop (nat k) buf"
      using True assms(3) by (auto simp: tx_ok_def owed_def word_of_nat_eq_0_iff dest!: dvd_imp_le)
    then have "tx_ok v" "owed v = drop (nat k) buf" using v(1) by simp_all
    moreover have "armed v" using v(1) armed_on_writable [of ?w] by simp
    moreover have "n = int (length buf)" "w' = v" "e' = z"
      using assms(2,4) n s m y(1) c True by (simp_all add: issue_raw_plain handle_truncated_send_def)
    ultimately show ?thesis
      using True k y(2) v(2) by simp
  qed
qed

text \<open>Handing over bytes while some are owed moves the buffered ones on, whatever was offered.\<close>

lemma owed_length:
  "truncated_send_malloc w = Some m \<Longrightarrow> tx_ok w \<Longrightarrow> length (owed w) = unat (truncated_send_len w)"
  by (auto simp: tx_ok_def owed_def min_def)

lemma unat_move:
  assumes "unat (off :: u32) + unat (len :: u32) < 2 ^ 32" "k \<le> unat len"
  shows "unat (off + word_of_nat k) = unat off + k" "unat (len - word_of_nat k) = unat len - k"
proof -
  have k: "unat (word_of_nat k :: u32) = k"
    using assms by (simp add: unsigned_of_nat take_bit_nat_eq_self)
  show "unat (off + word_of_nat k) = unat off + k"
    using assms k unat_plus_simple [of off "word_of_nat k"] by (simp add: no_olen_add_nat)
  show "unat (len - word_of_nat k) = unat len - k"
    using assms k by (simp add: unat_sub_if')
qed

lemma issue_raw_pending:
  assumes "tx_socket ops acc" "truncated_send_malloc w = Some m" "tx_ok w"
    and "lws_issue_raw ops buf (w, e) = Some (n, w', e')" "length buf \<le> length (owed w)"
  shows "n < 0 \<and> acc e' = acc e \<and> w' = w \<or>
    0 \<le> n \<and> n \<le> int (length buf) \<and> tx_ok w' \<and> armed w' \<and> owed w' = drop (nat n) (owed w) \<and>
    acc e' = acc e @ take (nat n) buf"
proof -
  obtain k x where s: "send ops buf e = (k, x)" by fastforce
  note k = tx_socket_send [OF assms(1) s]
  note no = tx_socket_no_ext [OF assms(1)]
  show ?thesis
  proof (cases "k < 0")
    case True
    then show ?thesis using assms(4) no s k by (simp add: issue_raw_plain)
  next
    case False
    define l where "l = nat k"
    have kl: "k = int l" using False by (simp add: l_def)
    have t: "length m < 2 ^ 32" "unat (truncated_send_offset w) + unat (truncated_send_len w) = length m"
      using assms(2,3) by (simp_all add: tx_ok_def)
    have l: "l \<le> unat (truncated_send_len w)" "l \<le> length buf"
      using k kl assms(5) owed_length [OF assms(2,3)] by simp_all
    let ?w = "w\<lparr>truncated_send_offset := truncated_send_offset w + word_of_nat l,
      truncated_send_len := truncated_send_len w - word_of_nat l\<rparr>"
    have u: "unat (truncated_send_offset w + word_of_nat l) = unat (truncated_send_offset w) + l"
      "unat (truncated_send_len w - word_of_nat l) = unat (truncated_send_len w) - l"
      using unat_move [OF _ l(1), of "truncated_send_offset w"] t by simp_all
    have o: "owed ?w = drop l (owed w)"
      using assms(2) u by (simp add: owed_def drop_take add.commute)
    have step: "handle_truncated_send ops buf k (w, x) =
      (if truncated_send_len ?w = 0 then (k, ?w\<lparr>truncated_send_malloc := None\<rparr>, x)
       else (k, snd (libwebsocket_callback_on_writable ops (?w, x))))"
      using assms(2) by (simp add: handle_truncated_send_def kl)
    have res: "(n, w', e') = handle_truncated_send ops buf k (w, x)"
      using assms(4) no s False by (simp add: issue_raw_plain)
    show ?thesis
    proof (cases "truncated_send_len ?w = 0")
      case True
      then have "unat (truncated_send_len w) - l = 0" using u(2) by simp
      then have "drop l (owed w) = []" using owed_length [OF assms(2,3)] by simp
      then show ?thesis
        using res step True k kl by (simp add: owed_def tx_ok_def armed_def)
    next
      case False
      obtain r v z where c: "libwebsocket_callback_on_writable ops (?w, x) = (r, v, z)" by (metis prod.exhaust)
      note v = on_writable_tx [OF assms(1) c]
      have "tx_ok ?w" using assms(2) False t u l by (simp add: tx_ok_def)
      then show ?thesis
        using res step False k kl c v o armed_on_writable [of ?w] by auto
    qed
  qed
qed

lemma acc_random_bytes:
  "tx_socket ops acc \<Longrightarrow> random_bytes ops n e = (bs, e') \<Longrightarrow> acc e' = acc e"
  by (induction n arbitrary: bs e e') (auto split: prod.splits dest: tx_socket_rand)

text \<open>A data frame, written on a connection that owes nothing, in a buffer with the padding the API asks for.\<close>

definition can_write :: "wsi \<Rightarrow> u8 \<Rightarrow> bool" where
  "can_write w prot \<longleftrightarrow> state w = WSI_STATE_ESTABLISHED \<and> \<not> inside_frame w \<and> wsi_spec_revision w = 13 \<and>
     frame_opcode prot \<noteq> None \<and> (prot AND 0xf = LWS_WRITE_CLOSE \<longrightarrow> close_reason w = 0)"

lemma length_frame_header: "length (frame_header n len m) \<le> 10"
  by (simp add: frame_header_def)

lemma split_padding:
  assumes "m + k \<le> length pad"
  shows "\<exists>A H K. pad = A @ H @ K \<and> length H = m \<and> length K = k"
proof -
  let ?n = "length pad - (m + k)"
  have "pad = take ?n pad @ take m (drop ?n pad) @ drop m (drop ?n pad)"
    by (simp only: append_take_drop_id)
  moreover have "length (take m (drop ?n pad)) = m" "length (drop m (drop ?n pad)) = k"
    using assms by simp_all
  ultimately show ?thesis by blast
qed

lemma write_at:
  assumes "active_extensions ops = []" "can_write w prot" "P \<noteq> [] \<or> is_control prot" "14 \<le> length pad"
  shows "\<exists>A. libwebsocket_write ops (pad @ P @ Z) (length pad) (length P) prot (w, e) =
    (let (key, s) = draw_key ops (length P) (w\<lparr>clean_buffer := \<not> no_buffer_all_partial_tx (protocol w)\<rparr>, e);
         frame = wire_frame w (first_byte prot (the (frame_opcode prot))) key P
     in do { (r, s) \<leftarrow> send_frame ops prot frame (length P) s; Some (r, A @ frame @ Z, s) }) \<and>
    length A + length (frame_header (first_byte prot (the (frame_opcode prot))) (length P) (mask_bit w)) + key_len w = length pad"
proof -
  obtain n where n: "frame_opcode prot = Some n" using assms(2) by (auto simp: can_write_def)
  let ?h = "frame_header (first_byte prot n) (length P) (mask_bit w)"
  have "length ?h + key_len w \<le> length pad"
    using assms(4) length_frame_header [of "first_byte prot n" "length P" "mask_bit w"] by (simp add: key_len_def)
  then obtain A H K where p: "pad = A @ H @ K" "length H = length ?h" "length K = key_len w"
    using split_padding by blast
  have "libwebsocket_write ops (A @ H @ K @ P @ Z) (length A + length H + length K) (length P) prot (w, e) =
      (let (key, s) = draw_key ops (length P) (w\<lparr>clean_buffer := \<not> no_buffer_all_partial_tx (protocol w)\<rparr>, e);
           frame = wire_frame w (first_byte prot n) key P
       in do { (r, s) \<leftarrow> send_frame ops prot frame (length P) s; Some (r, A @ frame @ Z, s) })"
    using assms(1-3) p n by (intro write_frame) (simp_all add: can_write_def)
  then show ?thesis
    using p n by (intro exI [of _ A]) (simp add: add.assoc)
qed

text \<open>A POLLOUT event while bytes are owed hands over those bytes and nothing else.\<close>

lemma pollout_pending:
  assumes "tx_socket ops acc" "owed w \<noteq> []" "tx_ok w" "armed w"
  shows "\<exists>w' e'. lws_handle_POLLOUT_event ops pollfd (w, e) = Some (0, w', e') \<and>
    tx_ok w' \<and> armed w' \<and> acc e' @ owed w' = acc e @ owed w"
proof -
  obtain m where m: "truncated_send_malloc w = Some m"
    using assms(2) by (auto simp: owed_def split: option.splits)
  have b: "token_bytes \<lparr>token_mem = m, token_pos = unat (truncated_send_offset w),
      token_len = unat (truncated_send_len w), token_moved = False\<rparr> = Some (owed w)"
    using assms(3) m by (simp add: token_bytes_def owed_def tx_ok_def)
  obtain k x where "send ops (owed w) e = (k, x)" by fastforce
  then have "lws_issue_raw ops (owed w) (w, e) =
      Some (if k < 0 then (-1, w, x) else handle_truncated_send ops (owed w) k (w, x))"
    by (simp add: issue_raw_plain tx_socket_no_ext [OF assms(1)])
  then obtain n w' e' where i: "lws_issue_raw ops (owed w) (w, e) = Some (n, w', e')"
    by (metis prod.exhaust)
  have "lws_handle_POLLOUT_event ops pollfd (w, e) = Some (0, w', e')"
    using m b i by (simp add: lws_handle_POLLOUT_event_def)
  moreover have "tx_ok w' \<and> armed w' \<and> acc e' @ owed w' = acc e @ owed w"
    using issue_raw_pending [OF assms(1) m assms(3) i] assms(3,4) by auto
  ultimately show ?thesis by blast
qed

text \<open>The events that serve a connection which owes bytes.\<close>

inductive tx_step :: "'e ws_ops \<Rightarrow> 'e conn \<Rightarrow> 'e conn \<Rightarrow> bool" for ops where
  pollout: "owed (fst s) \<noteq> [] \<Longrightarrow> lws_handle_POLLOUT_event ops pollfd s = Some (r, s') \<Longrightarrow> tx_step ops s s'"

inductive_cases tx_stepE: "tx_step ops s s'"

lemma tx_steps_conserve:
  assumes "(tx_step ops)\<^sup>*\<^sup>* s s'" "tx_socket ops acc" "tx_ok (fst s)" "armed (fst s)"
  shows "tx_ok (fst s') \<and> armed (fst s') \<and> acc (snd s') @ owed (fst s') = acc (snd s) @ owed (fst s)"
  using assms
proof (induction rule: rtranclp_induct)
  case (step s' s'')
  from step.hyps(2) obtain r pollfd where
    "owed (fst s') \<noteq> []" "lws_handle_POLLOUT_event ops pollfd s' = Some (r, s'')"
    by (auto elim: tx_stepE)
  then show ?case
    using step pollout_pending [OF step.prems(1), of "fst s'" pollfd "snd s'"] by auto
qed simp

text \<open>What one call of \<open>libwebsocket_write\<close> on a server connection does with its frame.\<close>

definition server_frame :: "u8 \<Rightarrow> bytes \<Rightarrow> bytes" where
  "server_frame prot P = frame_header (first_byte prot (the (frame_opcode prot))) (length P) 0 @ P"

lemma write_server:
  assumes "active_extensions ops = []" "can_write w prot" "mode w \<noteq> LWS_CONNMODE_WS_CLIENT"
    and "P \<noteq> [] \<or> is_control prot" "14 \<le> length pad"
  shows "\<exists>A. libwebsocket_write ops (pad @ P @ Z) (length pad) (length P) prot (w, e) =
    do { (r, s) \<leftarrow> send_frame ops prot (server_frame prot P) (length P)
           (w\<lparr>clean_buffer := \<not> no_buffer_all_partial_tx (protocol w)\<rparr>, e);
         Some (r, A @ server_frame prot P @ Z, s) } \<and>
    length A + length (server_frame prot P) = length pad + length P"
  using write_at [OF assms(1,2,4,5), of Z e] assms(3)
  by (simp add: draw_key_def wire_frame_def mask_bit_def key_len_def server_frame_def Let_def)

text \<open>A socket that takes whatever it is offered; \<open>sent\<close> is what that does to the environment.\<close>

definition takes_all :: "'e ws_ops \<Rightarrow> (bytes \<Rightarrow> 'e \<Rightarrow> 'e) \<Rightarrow> bool" where
  "takes_all ops sent \<longleftrightarrow> active_extensions ops = [] \<and> (\<forall>bs e. send ops bs e = (int (length bs), sent bs e))"

lemma send_frame_all:
  assumes "takes_all ops sent" "truncated_send_malloc w = None"
  shows "send_frame ops prot X len (w, e) =
    Some (if is_control prot then (int (length X), w, sent X e) else (int len, w\<lparr>inside_frame := False\<rparr>, sent X e))"
  using assms by (simp add: takes_all_def send_frame_def issue_raw_plain handle_truncated_send_def)

end
