(* ===== verification/Ws_Safety.thy ===== *)
theory Ws_Safety
  imports Ws_Wire
begin

text \<open>
  Memory safety of the receiving machine, for every byte a peer may send: it stays inside its receive
  buffer and its masking key, also when it answers a ping or a close frame in place.
\<close>

section \<open>What the callouts leave alone\<close>

text \<open>The parts of a connection that decide which addresses the machine touches.\<close>

definition rx_shape :: "wsi \<Rightarrow> nat \<times> nat \<times> nat \<times> nat \<times> connection_mode" where
  "rx_shape w = (rx_limit w, length (rx_user_buffer w), rx_user_buffer_head w,
     length (frame_masking_nonce_04 w), mode w)"

text \<open>
  Callbacks may do what they like with the connection, writing to it and holding back its flow
  included, but for its receive buffer; \<open>malloc\<close> does not fail.
\<close>

definition keeps_rx :: "'e ws_ops \<Rightarrow> bool" where
  "keeps_rx ops \<longleftrightarrow> active_extensions ops = [] \<and>
     (\<forall>r bs w e n w' e'. callback ops r bs (w, e) = (n, w', e') \<longrightarrow> rx_shape w' = rx_shape w) \<and>
     (\<forall>r f w e w' e'. poll_callback ops r f (w, e) = (w', e') \<longrightarrow> rx_shape w' = rx_shape w) \<and>
     (\<forall>n e. fst (malloc_ok ops n e))"

lemma keeps_rx_D:
  assumes "keeps_rx ops"
  shows "active_extensions ops = []"
    and "callback ops r bs (w, e) = (n, w', e') \<Longrightarrow> rx_shape w' = rx_shape w"
    and "poll_callback ops q f (w, e) = (w', e') \<Longrightarrow> rx_shape w' = rx_shape w"
    and "fst (malloc_ok ops k x)"
  using assms unfolding keeps_rx_def by blast+

lemma rx_shape_update [simp]:
  "rx_shape (w\<lparr>events_POLLIN := b\<rparr>) = rx_shape w" "rx_shape (w\<lparr>events_POLLOUT := b\<rparr>) = rx_shape w"
  "rx_shape (w\<lparr>truncated_send_malloc := m\<rparr>) = rx_shape w" "rx_shape (w\<lparr>truncated_send_offset := x\<rparr>) = rx_shape w"
  "rx_shape (w\<lparr>truncated_send_len := x\<rparr>) = rx_shape w" "rx_shape (w\<lparr>inside_frame := b\<rparr>) = rx_shape w"
  "rx_shape (w\<lparr>clean_buffer := b\<rparr>) = rx_shape w" "rx_shape (w\<lparr>rxflow_change_to := f\<rparr>) = rx_shape w"
  "rx_shape (w\<lparr>state := s\<rparr>) = rx_shape w" "rx_shape (w\<lparr>lws_rx_parse_state := p\<rparr>) = rx_shape w"
  "rx_shape (w\<lparr>frame_mask_index := i\<rparr>) = rx_shape w" "rx_shape (w\<lparr>rx_packet_length := l\<rparr>) = rx_shape w"
  "rx_shape (w\<lparr>opcode := c\<rparr>) = rx_shape w" "rx_shape (w\<lparr>rsv := c\<rparr>) = rx_shape w"
  "rx_shape (w\<lparr>final := b\<rparr>) = rx_shape w" "rx_shape (w\<lparr>frame_is_binary := b\<rparr>) = rx_shape w"
  "rx_shape (w\<lparr>all_zero_nonce := b\<rparr>) = rx_shape w" "rx_shape (w\<lparr>this_frame_masked := b\<rparr>) = rx_shape w"
  "rx_shape (w\<lparr>rxflow_pos := n\<rparr>) = rx_shape w"
  by (simp_all add: rx_shape_def rx_limit_def)

lemma poll_shape:
  "keeps_rx ops \<Longrightarrow> rx_shape (fst (poll_callback ops q f s)) = rx_shape (fst s)"
  using keeps_rx_D(3) by (metis prod.collapse)

lemma on_writable_shape:
  "keeps_rx ops \<Longrightarrow> rx_shape (fst (snd (libwebsocket_callback_on_writable ops s))) = rx_shape (fst s)"
  by (cases s) (simp add: libwebsocket_callback_on_writable_def keeps_rx_D(1) poll_shape)

lemma truncated_shape:
  "keeps_rx ops \<Longrightarrow> rx_shape (fst (snd (handle_truncated_send ops buf n (w, e)))) = rx_shape w"
  by (simp add: handle_truncated_send_def Let_def on_writable_shape split: prod.split)

text \<open>A call that returns, with the shape unchanged.\<close>

definition returns_shape :: "wsi \<Rightarrow> (int \<times> 'e conn) option \<Rightarrow> bool" where
  "returns_shape w r \<longleftrightarrow> (\<exists>n w' e'. r = Some (n, w', e') \<and> rx_shape w' = rx_shape w)"

lemma returns_shape_Some [simp]: "returns_shape w (Some (n, s)) \<longleftrightarrow> rx_shape (fst s) = rx_shape w"
  by (cases s) (simp add: returns_shape_def)

lemma returns_shapeE:
  assumes "returns_shape w r"
  obtains n w' e' where "r = Some (n, w', e')" "rx_shape w' = rx_shape w"
  using assms by (auto simp: returns_shape_def)

lemma issue_raw_shape:
  assumes "keeps_rx ops"
  shows "returns_shape w (lws_issue_raw ops buf (w, e))"
proof -
  obtain n e' where s: "send ops buf e = (n, e')" by fastforce
  obtain k s' where t: "handle_truncated_send ops buf n (w, e') = (k, s')"
    by (cases "handle_truncated_send ops buf n (w, e')") auto
  then have "rx_shape (fst s') = rx_shape w"
    using truncated_shape [OF assms, of buf n w e'] by simp
  then show ?thesis
    using s t by (simp add: issue_raw_plain [OF keeps_rx_D(1) [OF assms]])
qed

lemma send_raw_shape:
  assumes "keeps_rx ops" "pre \<le> token_pos tok" "token_pos tok + token_len tok \<le> length (token_mem tok)"
  shows "returns_shape w (send_raw ops prot orig pre tok (w, e))"
proof -
  let ?tok = "tok\<lparr>token_pos := token_pos tok - pre, token_len := token_len tok + pre, token_moved := False\<rparr>"
  obtain b where b: "token_bytes ?tok = Some b" "length b = token_len tok + pre"
    using assms(2,3) by (auto simp: token_bytes_def)
  note no = keeps_rx_D(1) [OF assms(1)]
  have ext: "lws_issue_raw_ext_access ops ?tok (v, e) =
    (if token_len ?tok = 0 then Some (0, v, e)
     else do { (n, s) \<leftarrow> lws_issue_raw ops b (v, e); Some (if n < 0 then -1 else int (token_len ?tok), s) })" for v
    using b no
    by (auto simp: lws_issue_raw_ext_access_def ext_access_loop.simps [of ops] split: prod.split Option.bind_splits)
  obtain n1 v1 e1 where 1: "lws_issue_raw ops b (w, e) = Some (n1, v1, e1)" "rx_shape v1 = rx_shape w"
    using issue_raw_shape [OF assms(1)] by (rule returns_shapeE)
  obtain n2 v2 e2 where 2: "lws_issue_raw ops b (w\<lparr>inside_frame := True\<rparr>, e) = Some (n2, v2, e2)"
    "rx_shape v2 = rx_shape (w\<lparr>inside_frame := True\<rparr>)"
    using issue_raw_shape [OF assms(1)] by (rule returns_shapeE)
  show ?thesis
    using 1 2 b(1) ext [of "w\<lparr>inside_frame := True\<rparr>"]
    by (auto simp: send_raw_def Let_def)
qed

lemma put_at_total:
  "p + length xs \<le> length mem \<Longrightarrow> \<exists>mem'. put_at mem p xs = Some mem' \<and> length mem' = length mem"
  by (simp add: put_at_def)

lemma put_before_total:
  "k \<le> p \<Longrightarrow> length xs \<le> k \<Longrightarrow> p \<le> length mem \<Longrightarrow>
   \<exists>mem'. put_before mem p k xs = Some mem' \<and> length mem' = length mem"
  using put_at_total [of "p - k" xs mem] by (simp add: put_before_def)

text \<open>A server writes its header into the padding, whatever it is asked to write.\<close>

lemma frame_in_place_total:
  assumes "mode w \<noteq> LWS_CONNMODE_WS_CLIENT" "12 \<le> token_pos tok"
    and "token_pos tok + token_len tok \<le> length (token_mem tok)"
  shows "frame_in_place prot w tok = Some None \<or>
    (\<exists>pre d tok'. frame_in_place prot w tok = Some (Some (pre, d, tok')) \<and> pre \<le> token_pos tok' \<and>
       token_pos tok' + token_len tok' = token_pos tok + token_len tok \<and>
       length (token_mem tok') = length (token_mem tok) \<and> token_moved tok' = token_moved tok)"
proof (cases "wsi_spec_revision w = 13 \<and> frame_opcode prot \<noteq> None")
  case False
  then show ?thesis using assms(2) by (auto simp: frame_in_place_def)
next
  case True
  then obtain n where n: "frame_opcode prot = Some n" by blast
  define close where "close \<longleftrightarrow> prot AND 0xf = LWS_WRITE_CLOSE \<and> close_reason w \<noteq> 0"
  obtain mem where m: "put_before (token_mem tok) (token_pos tok) 2
      [ucast (drop_bit 8 (close_reason w)), ucast (close_reason w)] = Some mem" "length mem = length (token_mem tok)"
    using put_before_total [of 2 "token_pos tok" "[ucast (drop_bit 8 (close_reason w)), ucast (close_reason w)]"
        "token_mem tok"] assms(2,3) by auto
  define tok1 where "tok1 = (if close then tok\<lparr>token_mem := mem, token_pos := token_pos tok - 2,
    token_len := token_len tok + 2\<rparr> else tok)"
  have tok1: "10 \<le> token_pos tok1" "token_pos tok1 + token_len tok1 = token_pos tok + token_len tok"
    "length (token_mem tok1) = length (token_mem tok)" "token_moved tok1 = token_moved tok"
    using assms(2,3) m(2) by (auto simp: tok1_def)
  let ?hdr = "frame_header (first_byte prot n) (token_len tok1) 0"
  obtain mem2 where m2: "put_before (token_mem tok1) (token_pos tok1) (length ?hdr) ?hdr = Some mem2"
    "length mem2 = length (token_mem tok1)"
    using put_before_total [of "length ?hdr" "token_pos tok1" ?hdr "token_mem tok1"] tok1 assms(3)
      length_frame_header [of "first_byte prot n" "token_len tok1" 0] by fastforce
  have "frame_in_place prot w tok = Some (Some (length ?hdr, None, tok1\<lparr>token_mem := mem2\<rparr>))"
    using True n assms(1) m m2(1)
    by (auto simp: frame_in_place_def first_byte_def [symmetric] tok1_def close_def Let_def)
  then show ?thesis
    using tok1 m2(2) length_frame_header [of "first_byte prot n" "token_len tok1" 0] by fastforce
qed

lemma write_server_total:
  assumes "keeps_rx ops" "mode w \<noteq> LWS_CONNMODE_WS_CLIENT" "12 \<le> p" "p + len \<le> length mem"
  shows "\<exists>n mem' w' e'. libwebsocket_write ops mem p len prot (w, e) = Some (n, mem', w', e') \<and>
    length mem' = length mem \<and> rx_shape w' = rx_shape w"
proof -
  let ?tok = "\<lparr>token_mem = mem, token_pos = p, token_len = len, token_moved = False\<rparr>"
  let ?w = "w\<lparr>clean_buffer := \<not> no_buffer_all_partial_tx (protocol w)\<rparr>"
  note no = keeps_rx_D(1) [OF assms(1)]
  have raw: "\<exists>n w' e'. send_raw ops prot len 0 ?tok (w, e) = Some (n, w', e') \<and> rx_shape w' = rx_shape w"
    using send_raw_shape [OF assms(1), of 0 ?tok w prot len e] assms(4) by (simp add: returns_shape_def)
  consider "len = 0 \<and> prot \<notin> {LWS_WRITE_CLOSE, LWS_WRITE_PING, LWS_WRITE_PONG} \<or> prot = LWS_WRITE_HTTP \<or>
      state w \<noteq> WSI_STATE_ESTABLISHED \<or> inside_frame w"
    | "\<not> (len = 0 \<and> prot \<notin> {LWS_WRITE_CLOSE, LWS_WRITE_PING, LWS_WRITE_PONG})" "prot \<noteq> LWS_WRITE_HTTP"
      "state w = WSI_STATE_ESTABLISHED" "\<not> inside_frame w"
    by blast
  then show ?thesis
  proof cases
    case 1
    then show ?thesis
      using raw assms(2) by (auto simp: libwebsocket_write_def mask_in_place_server Let_def)
  next
    case 2
    have start: "libwebsocket_write ops mem p len prot (w, e) =
      do { r \<leftarrow> frame_in_place prot ?w ?tok;
           (case r of None \<Rightarrow> Some (-1, mem, ?w, e)
            | Some (pre, d, tok) \<Rightarrow> do {
                (ok, tok, s) \<leftarrow> mask_in_place ops d tok (?w, e);
                let mem = (if token_moved tok then mem else token_mem tok) in
                if \<not> ok then Some (-1, mem, s)
                else do { (n, s) \<leftarrow> send_raw ops prot len pre tok s; Some (n, mem, s) } }) }"
      using 2 no by (auto simp: libwebsocket_write_def Let_def)
    have "frame_in_place prot ?w ?tok = Some None \<or>
      (\<exists>pre d tok'. frame_in_place prot ?w ?tok = Some (Some (pre, d, tok')) \<and> pre \<le> token_pos tok' \<and>
         token_pos tok' + token_len tok' = token_pos ?tok + token_len ?tok \<and>
         length (token_mem tok') = length (token_mem ?tok) \<and> token_moved tok' = token_moved ?tok)"
      using assms(2-4) by (intro frame_in_place_total) simp_all
    then show ?thesis
    proof (elim disjE exE conjE)
      fix pre d tok'
      assume f: "frame_in_place prot ?w ?tok = Some (Some (pre, d, tok'))" "pre \<le> token_pos tok'"
        "token_pos tok' + token_len tok' = token_pos ?tok + token_len ?tok"
        "length (token_mem tok') = length (token_mem ?tok)" "token_moved tok' = token_moved ?tok"
      then obtain n w' e' where "send_raw ops prot len pre tok' (?w, e) = Some (n, w', e')"
        "rx_shape w' = rx_shape ?w"
        using send_raw_shape [OF assms(1), of pre tok' ?w prot len e] assms(4) by (auto elim: returns_shapeE)
      then show ?thesis
        using f assms(2) unfolding start by (simp add: mask_in_place_server)
    qed (simp_all add: start)
  qed
qed

section \<open>The machine stays inside its buffer\<close>

text \<open>
  Between two bytes: room for one more byte in the buffer, which has the size it was allocated
  with, and a key of four bytes.
\<close>

definition rx_safe :: "wsi \<Rightarrow> bool" where
  "rx_safe w \<longleftrightarrow> rx_user_buffer_head w < rx_limit w \<and> length (frame_masking_nonce_04 w) = 4 \<and>
     length (rx_user_buffer w) = LWS_SEND_BUFFER_PRE_PADDING + rx_limit w + LWS_SEND_BUFFER_POST_PADDING \<and>
     mode w \<noteq> LWS_CONNMODE_WS_CLIENT"

lemma rx_safe_shape: "rx_shape w' = rx_shape w \<Longrightarrow> rx_safe w \<Longrightarrow> rx_safe w'"
  by (simp add: rx_safe_def rx_shape_def)

text \<open>The same with the buffer possibly full, before it is handed over.\<close>

definition rx_full :: "wsi \<Rightarrow> bool" where
  "rx_full w \<longleftrightarrow> rx_user_buffer_head w \<le> rx_limit w \<and> rx_safe (w\<lparr>rx_user_buffer_head := 0\<rparr>)"

lemma rx_full_shape: "rx_shape w' = rx_shape w \<Longrightarrow> rx_full w \<Longrightarrow> rx_full w'"
  by (simp add: rx_full_def rx_safe_def rx_shape_def)

lemma rx_full_reset: "rx_full w \<Longrightarrow> rx_safe (w\<lparr>rx_user_buffer_head := 0\<rparr>)"
  by (simp add: rx_full_def)

lemma rx_full_buffer: "rx_full w \<Longrightarrow> length mem = length (rx_user_buffer w) \<Longrightarrow> rx_full (w\<lparr>rx_user_buffer := mem\<rparr>)"
  by (simp add: rx_full_def rx_safe_def)

lemma flow_control_shape:
  assumes "keeps_rx ops"
  shows "rx_shape (fst (snd (apply_rx_flow_control ops s))) = rx_shape (fst s)"
  using on_writable_shape [OF assms, of s] poll_shape [OF assms]
  by (cases s) (simp add: apply_rx_flow_control_def Let_def)

lemma user_callback_shape:
  assumes "keeps_rx ops"
  shows "rx_shape (fst (snd (user_callback_handle_rxflow ops r b (w, e)))) = rx_shape w"
proof -
  obtain n w' e' where c: "callback ops r b (w, e) = (n, w', e')" by (cases "callback ops r b (w, e)") auto
  then show ?thesis
    using keeps_rx_D(2) [OF assms c] flow_control_shape [OF assms, of "(w', e')"]
    by (simp add: user_callback_handle_rxflow_def)
qed

definition returns_safe :: "(int \<times> 'e conn) option \<Rightarrow> bool" where
  "returns_safe r \<longleftrightarrow> (\<exists>n w e. r = Some (n, w, e) \<and> (0 \<le> n \<longrightarrow> rx_safe w))"

lemma returns_safe_Some [simp]: "returns_safe (Some (n, s)) \<longleftrightarrow> (0 \<le> n \<longrightarrow> rx_safe (fst s))"
  by (cases s) (simp add: returns_safe_def)

lemma deliver_safe:
  assumes "keeps_rx ops" "rx_full w"
  shows "returns_safe (deliver ops (rx_tokens w) (w, e))"
proof (cases "rx_user_buffer_head w = 0")
  case True
  then show ?thesis
    using rx_full_reset [OF assms(2)] by (simp add: deliver_def rx_tokens_def)
next
  case False
  let ?n = "rx_user_buffer_head w"
  have len: "LWS_SEND_BUFFER_PRE_PADDING + ?n + 1 \<le> length (rx_user_buffer w)"
    using assms(2) by (simp add: rx_full_def rx_safe_def LWS_SEND_BUFFER_POST_PADDING_def)
  obtain mem where m: "put_at (rx_user_buffer w) (LWS_SEND_BUFFER_PRE_PADDING + ?n) [0] = Some mem"
    "length mem = length (rx_user_buffer w)"
    using put_at_total [of "LWS_SEND_BUFFER_PRE_PADDING + ?n" "[0]" "rx_user_buffer w"] len by auto
  obtain b where b: "token_bytes (rx_tokens w) = Some b"
    using len by (auto simp: token_bytes_def rx_tokens_def)
  let ?v = "w\<lparr>rx_user_buffer := mem\<rparr>"
  have v: "rx_full ?v" using rx_full_buffer [OF assms(2) m(2)] .
  obtain r w' e' where u: "(if has_callback (protocol ?v)
      then user_callback_handle_rxflow ops LWS_CALLBACK_RECEIVE b (?v, e) else (0, ?v, e)) = (r, w', e')"
    by (metis prod.exhaust)
  then have "rx_shape w' = rx_shape ?v"
    using user_callback_shape [OF assms(1), of LWS_CALLBACK_RECEIVE b ?v e] by (auto split: if_splits)
  then have "rx_safe (w'\<lparr>rx_user_buffer_head := 0\<rparr>)"
    using rx_full_reset rx_full_shape v by blast
  then show ?thesis
    using False m b u by (simp add: deliver_def rx_tokens_def)
qed

lemma spill_safe:
  assumes "keeps_rx ops" "rx_full w"
  shows "returns_safe (rx_spill ops (w, e))"
proof -
  note no = keeps_rx_D(1) [OF assms(1)]
  have len: "LWS_SEND_BUFFER_PRE_PADDING + rx_user_buffer_head w \<le> length (rx_user_buffer w)"
    "mode w \<noteq> LWS_CONNMODE_WS_CLIENT" "12 \<le> LWS_SEND_BUFFER_PRE_PADDING"
    using assms(2) by (simp_all add: rx_full_def rx_safe_def LWS_SEND_BUFFER_PRE_PADDING_def)
  have reply: "\<exists>n mem w' e'. libwebsocket_write ops (rx_user_buffer w) LWS_SEND_BUFFER_PRE_PADDING
      (rx_user_buffer_head w) prot (w, e) = Some (n, mem, w', e') \<and>
      rx_safe (w'\<lparr>rx_user_buffer := mem, rx_user_buffer_head := 0\<rparr>)" for prot
  proof -
    obtain n mem w' e' where "libwebsocket_write ops (rx_user_buffer w) LWS_SEND_BUFFER_PRE_PADDING
      (rx_user_buffer_head w) prot (w, e) = Some (n, mem, w', e')" "length mem = length (rx_user_buffer w)"
      "rx_shape w' = rx_shape w"
      using write_server_total [OF assms(1) len(2,3,1)] by blast
    moreover have "rx_full w'" using rx_full_shape [OF calculation(3) assms(2)] .
    moreover have "length mem = length (rx_user_buffer w')"
      using calculation(2,3) by (simp add: rx_shape_def)
    ultimately show ?thesis
      using rx_full_reset [OF rx_full_buffer] by fastforce
  qed
  show ?thesis
  proof (cases "opcode w \<in> {OPCODE_CLOSE, OPCODE_PING}")
    case True
    then show ?thesis
      using reply [of LWS_WRITE_CLOSE] reply [of LWS_WRITE_PONG]
      by (auto simp: rx_spill_def Let_def)
  next
    case False
    have d: "returns_safe (deliver ops (rx_tokens w) (w, e))" by (rule deliver_safe [OF assms])
    have t: "w\<lparr>rx_user_buffer := token_mem (rx_tokens w)\<rparr> = w" "\<not> token_moved (rx_tokens w)"
      by (simp_all add: rx_tokens_def)
    show ?thesis
      using False rx_full_reset [OF assms(2)] d t by (auto simp: rx_spill_def no Let_def)
  qed
qed

text \<open>Header bytes change neither the buffer nor its position.\<close>

lemma rx_safe_update [simp]:
  "rx_safe (w\<lparr>lws_rx_parse_state := p\<rparr>) = rx_safe w" "rx_safe (w\<lparr>frame_mask_index := i\<rparr>) = rx_safe w"
  "rx_safe (w\<lparr>rx_packet_length := l\<rparr>) = rx_safe w" "rx_safe (w\<lparr>opcode := c\<rparr>) = rx_safe w"
  "rx_safe (w\<lparr>rsv := c\<rparr>) = rx_safe w" "rx_safe (w\<lparr>final := b\<rparr>) = rx_safe w"
  "rx_safe (w\<lparr>frame_is_binary := b\<rparr>) = rx_safe w" "rx_safe (w\<lparr>all_zero_nonce := b\<rparr>) = rx_safe w"
  "rx_safe (w\<lparr>this_frame_masked := b\<rparr>) = rx_safe w" "rx_safe (w\<lparr>rxflow_buffer := f\<rparr>) = rx_safe w"
  "rx_safe (w\<lparr>rxflow_len := n\<rparr>) = rx_safe w" "rx_safe (w\<lparr>rxflow_pos := n\<rparr>) = rx_safe w"
  by (simp_all add: rx_safe_def rx_limit_def)

lemma rx_safe_nonce [simp]: "rx_safe (set_nonce i c st w) = rx_safe w"
  by (simp add: set_nonce_def rx_safe_def rx_limit_def)

lemma rx_safe_after_length [simp]: "rx_safe (after_length w) = rx_safe w"
  by (simp add: after_length_def)

lemma rx_safe_or_length [simp]: "rx_safe (or_length k c st w) = rx_safe w"
  by (simp add: or_length_def)

lemma rx_safe_handle_first [simp]: "rx_safe (handle_first w c) = rx_safe w"
  by (simp add: handle_first_def Let_def)

lemma rx_safe_full: "rx_safe w \<Longrightarrow> rx_full w"
  by (simp add: rx_full_def rx_safe_def rx_limit_pos)

lemma rx_safe_header:
  assumes "rx_safe w"
  shows "case rx_header w c of Rx_break w' \<Rightarrow> rx_safe w' | Rx_fail w' \<Rightarrow> True | Rx_spill w' \<Rightarrow> rx_full w'"
  using assms
  by (cases "lws_rx_parse_state w") (simp_all add: rx_header_def frame_hdr_len_def rx_safe_full Let_def)

lemma rx_safe_payload:
  assumes "rx_safe w"
  shows "\<exists>r. rx_payload w c = Some r \<and>
    (case r of Rx_break w' \<Rightarrow> rx_safe w' | Rx_fail w' \<Rightarrow> True | Rx_spill w' \<Rightarrow> rx_full w')"
proof -
  let ?x = "if all_zero_nonce w then c else c XOR frame_masking_nonce_04 w ! unat (frame_mask_index w AND 3)"
  have "LWS_SEND_BUFFER_PRE_PADDING + rx_user_buffer_head w + 1 \<le> length (rx_user_buffer w)"
    using assms by (simp add: rx_safe_def)
  then obtain mem where m: "put_at (rx_user_buffer w) (LWS_SEND_BUFFER_PRE_PADDING + rx_user_buffer_head w) [?x] = Some mem"
    "length mem = length (rx_user_buffer w)"
    using put_at_total [of "LWS_SEND_BUFFER_PRE_PADDING + rx_user_buffer_head w" "[?x]" "rx_user_buffer w"] by auto
  then show ?thesis
    using assms by (auto simp: rx_payload_def rx_safe_def rx_full_def rx_limit_pos Let_def)
qed

lemma rx_sm_safe:
  assumes "keeps_rx ops" "rx_safe w"
  shows "returns_safe (libwebsocket_rx_sm ops c (w, e))"
proof (cases "lws_rx_parse_state w = LWS_RXPS_PAYLOAD_UNTIL_LENGTH_EXHAUSTED")
  case True
  obtain r where "rx_payload w c = Some r"
    "case r of Rx_break w' \<Rightarrow> rx_safe w' | Rx_fail w' \<Rightarrow> True | Rx_spill w' \<Rightarrow> rx_full w'"
    using rx_safe_payload [OF assms(2)] by blast
  then show ?thesis
    using True spill_safe [OF assms(1)] by (auto simp: libwebsocket_rx_sm_def split: rx_next.splits)
next
  case False
  then show ?thesis
    using rx_safe_header [OF assms(2), of c] spill_safe [OF assms(1)]
    by (auto simp: libwebsocket_rx_sm_def split: rx_next.splits)
qed

lemma interpret_safe:
  assumes "keeps_rx ops" "rx_safe w"
  shows "\<exists>n w' e'. libwebsocket_interpret_incoming_packet ops bs (w, e) = Some (n, w', e') \<and>
    n \<in> {-1, 0, 1} \<and> (n \<noteq> -1 \<longrightarrow> rx_safe w')"
  using assms(2)
proof (induction bs arbitrary: w e)
  case (Cons b bs)
  have ok: "fst (malloc_ok ops n e)" for n using keeps_rx_D(4) [OF assms(1)] .
  show ?case
  proof (cases "rxflow_change_to w AND LWS_RXFLOW_ALLOW = 0")
    case True
    obtain y e' where m: "malloc_ok ops (length (b # bs)) e = (y, e')" by fastforce
    then have "y" using ok [of "length (b # bs)"] by simp
    then show ?thesis
      using True m Cons.prems
      by (cases "rxflow_buffer w") (simp_all add: libwebsocket_interpret_incoming_packet.simps(2))
  next
    case False
    let ?w = "if rxflow_buffer w \<noteq> None then w\<lparr>rxflow_pos := rxflow_pos w + 1\<rparr> else w"
    have "rx_safe ?w" using Cons.prems by simp
    then have "returns_safe (libwebsocket_rx_sm ops b (?w, e))" by (rule rx_sm_safe [OF assms(1)])
    then obtain n v x where r: "libwebsocket_rx_sm ops b (?w, e) = Some (n, v, x)" "0 \<le> n \<longrightarrow> rx_safe v"
      by (auto simp: returns_safe_def)
    have step: "libwebsocket_interpret_incoming_packet ops (b # bs) (w, e) =
        (if n < 0 then Some (-1, v, x) else libwebsocket_interpret_incoming_packet ops bs (v, x))"
      using False r(1) by (simp add: libwebsocket_interpret_incoming_packet.simps(2) Let_def split del: if_split)
    show ?thesis
      using r(2) Cons.IH [of v x] unfolding step by (cases "n < 0") auto
  qed
qed simp

end
