(* ===== verification/Ws_Control.thy ===== *)
theory Ws_Control
  imports Ws_Safety
begin

text \<open>
  Control frames and frames without payload: how the machine reads a short frame of any kind up to
  the point where the frame is acted upon, and the answer to a ping.
\<close>

section \<open>Reading a frame that fits the buffer\<close>

lemma read_short:
  assumes "flow_open w" "mask_ok w" "lws_rx_parse_state w = LWS_RXPS_PAYLOAD_UNTIL_LENGTH_EXHAUSTED"
    and "rx_holds w acc" "length acc + length ps \<le> rx_limit w"
    and "ps \<noteq> []" "length ps < 2 ^ 32" "rx_packet_length w = word_of_nat (length ps)"
  shows "\<exists>mem i w'. w' = w\<lparr>rx_user_buffer := mem, rx_user_buffer_head := length acc + length ps, frame_mask_index := i,
       rx_packet_length := 0, lws_rx_parse_state := LWS_RXPS_NEW\<rparr> \<and>
    libwebsocket_interpret_incoming_packet ops
       (mask_bytes (frame_masking_nonce_04 w) (frame_mask_index w) ps @ cs) (w, e) =
      do { (m, s) \<leftarrow> rx_spill ops (w', e);
           if m < 0 then Some (-1, s) else libwebsocket_interpret_incoming_packet ops cs s } \<and>
    rx_holds w' (acc @ ps) \<and> length mem = length (rx_user_buffer w)"
  using assms
proof (induction ps arbitrary: w acc)
  case (Cons p ps)
  let ?rd = "libwebsocket_interpret_incoming_packet ops"
  have len: "length acc < rx_limit w" "rx_packet_length w = word_of_nat (Suc (length ps))" "Suc (length ps) < 2 ^ 32"
    using Cons.prems(5,7,8) by simp_all
  obtain mem j v where v: "v = w\<lparr>rx_user_buffer := mem, rx_user_buffer_head := Suc (length acc),
      frame_mask_index := j, rx_packet_length := word_of_nat (length ps)\<rparr>"
    and r: "rx_payload w (p XOR frame_masking_nonce_04 w ! unat (frame_mask_index w AND 3)) =
      Some (if ps = [] then Rx_spill (v\<lparr>lws_rx_parse_state := LWS_RXPS_NEW\<rparr>)
            else if Suc (length acc) \<noteq> rx_limit w then Rx_break v else Rx_spill v)"
    and h: "rx_holds v (acc @ [p])" and b: "length mem = length (rx_user_buffer w)"
    "mask_bytes (frame_masking_nonce_04 w) (frame_mask_index w + 1) ps = mask_bytes (frame_masking_nonce_04 w) j ps"
    by (rule payload_counted [OF Cons.prems(4) len(1) Cons.prems(2) len(2,3), of p])
  note step = interpret_payload [OF Cons.prems(1,3) r, of ops]
  show ?case
  proof (cases "ps = []")
    case True
    then show ?thesis
      using h b(1) v
      by (intro exI [of _ mem] exI [of _ j] exI [of _ "v\<lparr>lws_rx_parse_state := LWS_RXPS_NEW\<rparr>"])
        (simp add: step)
  next
    case False
    then have "Suc (length acc) \<noteq> rx_limit w" using Cons.prems(5) by (cases ps) auto
    with False have go: "?rd (mask_bytes (frame_masking_nonce_04 w) (frame_mask_index w) (p # ps) @ cs) (w, e) =
        ?rd (mask_bytes (frame_masking_nonce_04 v) (frame_mask_index v) ps @ cs) (v, e)"
      using v by (simp add: step b(2))
    have "\<exists>mem i w'. w' = v\<lparr>rx_user_buffer := mem, rx_user_buffer_head := length (acc @ [p]) + length ps,
         frame_mask_index := i, rx_packet_length := 0, lws_rx_parse_state := LWS_RXPS_NEW\<rparr> \<and>
      ?rd (mask_bytes (frame_masking_nonce_04 v) (frame_mask_index v) ps @ cs) (v, e) =
        do { (m, s) \<leftarrow> rx_spill ops (w', e); if m < 0 then Some (-1, s) else ?rd cs s } \<and>
      rx_holds w' ((acc @ [p]) @ ps) \<and> length mem = length (rx_user_buffer v)"
      using Cons.prems v h False by (intro Cons.IH) (simp_all add: mask_ok_def)
    then show ?thesis
      unfolding go using v b(1) by simp
  qed
qed simp

lemma interpret_spill:
  assumes "flow_open w" "lws_rx_parse_state w \<noteq> LWS_RXPS_PAYLOAD_UNTIL_LENGTH_EXHAUSTED"
    and "rx_header w c = Rx_spill w'"
  shows "libwebsocket_interpret_incoming_packet ops (c # cs) (w, e) =
    do { (m, s) \<leftarrow> rx_spill ops (w', e);
         if m < 0 then Some (-1, s) else libwebsocket_interpret_incoming_packet ops cs s }"
  using assms by (simp add: libwebsocket_interpret_incoming_packet.simps(2) flow_open_def libwebsocket_rx_sm_def)

text \<open>A masked frame, up to its payload.\<close>

lemma read_client_start:
  assumes "rx_idle w" "b0 AND 8 = 0 \<or> length P < 126" "length key = 4" "length P < 2 ^ 32"
  defines "k \<equiv> key_read key (header_read b0 (length P) True w)"
  shows "libwebsocket_interpret_incoming_packet ops (client_frame b0 key P @ cs) (w, e) =
    (if P = [] then
       do { (m, s) \<leftarrow> rx_spill ops (k, e);
            if m < 0 then Some (-1, s) else libwebsocket_interpret_incoming_packet ops cs s }
     else libwebsocket_interpret_incoming_packet ops (mask_bytes key 0 P @ cs) (k, e))"
proof -
  let ?rd = "libwebsocket_interpret_incoming_packet ops"
  have w: "flow_open w" "lws_rx_parse_state w = LWS_RXPS_NEW" "wsi_spec_revision w = 13"
    "length (frame_masking_nonce_04 w) = 4"
    using assms(1) by (simp_all add: rx_idle_def)
  have "?rd (client_frame b0 key P @ cs) (w, e) =
      ?rd (key @ mask_bytes key 0 P @ cs) (header_read b0 (length P) True w, e)"
    using read_header [OF w(1-3) assms(2), of ops True] by (simp add: client_frame_def)
  moreover have "rx_packet_length (header_read b0 (length P) True w) = 0 \<longleftrightarrow> P = []"
    using assms(4) by (cases "P = []", auto simp: word_of_nat_eq_0_iff dest!: dvd_imp_le)
  ultimately show ?thesis
    using w assms(3) by (cases "P = []") (simp_all add: k_def read_key)
qed

lemma spill_nothing:
  assumes "active_extensions ops = []" "rx_user_buffer_head w = 0"
    and "opcode w \<in> {OPCODE_TEXT_FRAME, OPCODE_BINARY_FRAME, OPCODE_CONTINUATION}"
  shows "rx_spill ops (w, e) = Some (0, w, e)"
proof -
  have "w\<lparr>rx_user_buffer := rx_user_buffer w\<rparr> = w" "w\<lparr>rx_user_buffer_head := 0\<rparr> = w"
    using assms(2) by (cases w, simp)+
  then show ?thesis
    using assms by (auto simp: rx_spill_def deliver_def rx_tokens_def)
qed

section \<open>A ping is answered\<close>

lemma rx_holds_split:
  assumes "rx_holds w P" "length P \<le> rx_limit w"
  shows "\<exists>pad Z. rx_user_buffer w = pad @ P @ Z \<and> length pad = LWS_SEND_BUFFER_PRE_PADDING"
proof -
  let ?p = LWS_SEND_BUFFER_PRE_PADDING and ?b = "rx_user_buffer w"
  have "take (length P) (drop ?p ?b) = P" "?p \<le> length ?b"
    using assms by (simp_all add: rx_holds_def)
  then have "?b = take ?p ?b @ P @ drop (length P) (drop ?p ?b)"
    by (metis append_take_drop_id)
  moreover have "length (take ?p ?b) = ?p" using \<open>?p \<le> length ?b\<close> by simp
  ultimately show ?thesis by blast
qed

lemma ping_answered:
  assumes "active_extensions ops = []" "\<And>bs e. send ops bs e = (int (length bs), sent bs e)"
    and "rx_holds w P" "length P \<le> rx_limit w" "opcode w = OPCODE_PING" "can_write w LWS_WRITE_PONG"
    and "mode w \<noteq> LWS_CONNMODE_WS_CLIENT" "truncated_send_malloc w = None"
  shows "\<exists>mem. rx_spill ops (w, e) =
      Some (0, w\<lparr>clean_buffer := \<not> no_buffer_all_partial_tx (protocol w), rx_user_buffer := mem,
        rx_user_buffer_head := 0\<rparr>, sent (server_frame LWS_WRITE_PONG P) e) \<and>
    length mem = length (rx_user_buffer w)"
proof -
  obtain pad Z where b: "rx_user_buffer w = pad @ P @ Z" "length pad = LWS_SEND_BUFFER_PRE_PADDING"
    using rx_holds_split [OF assms(3,4)] by blast
  have ctl: "is_control LWS_WRITE_PONG" by (simp add: is_control_def)
  have "14 \<le> length pad" by (simp add: b(2) LWS_SEND_BUFFER_PRE_PADDING_def)
  then obtain A where a: "libwebsocket_write ops (pad @ P @ Z) (length pad) (length P) LWS_WRITE_PONG (w, e) =
      do { (r, s) \<leftarrow> send_frame ops LWS_WRITE_PONG (server_frame LWS_WRITE_PONG P) (length P)
             (w\<lparr>clean_buffer := \<not> no_buffer_all_partial_tx (protocol w)\<rparr>, e);
           Some (r, A @ server_frame LWS_WRITE_PONG P @ Z, s) }"
    "length A + length (server_frame LWS_WRITE_PONG P) = length pad + length P"
    using write_server [OF assms(1,6,7), of P pad Z e] ctl by blast
  have "rx_user_buffer_head w = length P" using assms(3) by (simp add: rx_holds_def)
  then show ?thesis
    using a assms(2,5,8) b ctl
    by (intro exI [of _ "A @ server_frame LWS_WRITE_PONG P @ Z"]) (simp add: rx_spill_def send_frame_def issue_raw_plain [OF assms(1)] handle_truncated_send_def)
qed

end
