(* ===== verification/Ws_Properties.thy ===== *)
theory Ws_Properties
  imports Ws_Control
begin

text \<open>
  The properties of the websocket layer: a frame written by one side is read by the other, a stream
  of frames reaches the application piece by piece, what happens to bytes the socket did not take,
  and where the code departs from what its comments promise.
\<close>

section \<open>From one side to the other\<close>

text \<open>C23: what a client writes with \<open>libwebsocket_write\<close> as text, binary or continuation, finished or not,
  the server at the other end hands to its application: the call returns the length of the payload and
  sends one masked frame; the receiving machine, fed that frame, passes the payload on in pieces that fit
  its receive buffer, knows the opcode and whether the frame was the last, and waits for the
  next frame.\<close>

theorem masked_frame_roundtrip:
  assumes "takes_all cops sent" "can_write cw prot" "truncated_send_malloc cw = None"
    and "mode cw = LWS_CONNMODE_WS_CLIENT" "frame_opcode prot = Some n" "n \<in> {0, 1, 2}"
    and "P \<noteq> []" "length P < 2 ^ 32" "LWS_SEND_BUFFER_PRE_PADDING \<le> length pad"
    and "quiet_app sops dl" "rx_idle sw"
  shows "\<exists>frame mem' cw' ce' pieces sw'.
    libwebsocket_write cops (pad @ P @ post) (length pad) (length P) prot (cw, ce) =
      Some (int (length P), mem', cw', sent frame ce') \<and> \<not> inside_frame cw' \<and>
    libwebsocket_interpret_incoming_packet sops frame (sw, se) = Some (0, sw', fold dl pieces se) \<and>
    concat pieces = P \<and> (\<forall>b\<in>set pieces. b \<noteq> [] \<and> length b \<le> rx_limit sw) \<and>
    rx_idle sw' \<and> opcode sw' = n \<and> (final sw' \<longleftrightarrow> prot AND LWS_WRITE_NO_FIN = 0)"
proof -
  let ?b0 = "first_byte prot n"
  let ?cw = "cw\<lparr>clean_buffer := \<not> no_buffer_all_partial_tx (protocol cw)\<rparr>"
  have data: "\<not> is_control prot"
    using assms(5,6) by (auto simp: is_control_def frame_opcode_def)
  obtain key ce' where key: "random_bytes cops 4 ce = (key, ce')" by fastforce
  let ?f = "client_frame ?b0 key P"
  obtain A where "libwebsocket_write cops (pad @ P @ post) (length pad) (length P) prot (cw, ce) =
      (let (key, s) = draw_key cops (length P) (?cw, ce); frame = wire_frame cw ?b0 key P
       in do { (r, s) \<leftarrow> send_frame cops prot frame (length P) s; Some (r, A @ frame @ post, s) })"
    using write_at [of cops cw prot P pad post ce] assms by (auto simp: takes_all_def LWS_SEND_BUFFER_PRE_PADDING_def)
  also have "\<dots> = Some (int (length P), A @ ?f @ post,
      ?cw\<lparr>frame_masking_nonce_04 := key, frame_mask_index := word_of_nat (length P), inside_frame := False\<rparr>, sent ?f ce')"
    using assms(3,4) data by (simp add: draw_key_def key wire_frame_client send_frame_all [OF assms(1)] Let_def)
  finally have w: "libwebsocket_write cops (pad @ P @ post) (length pad) (length P) prot (cw, ce) = \<dots>" .
  have b0: "?b0 AND 0xf = n" "drop_bit 7 ?b0 AND 1 \<noteq> 0 \<longleftrightarrow> prot AND LWS_WRITE_NO_FIN = 0"
    using assms(6) by (auto simp: first_byte_def)
  obtain sw' where r: "libwebsocket_interpret_incoming_packet sops (?f @ []) (sw, se) =
      libwebsocket_interpret_incoming_packet sops [] (sw', fold dl (spills (rx_limit sw) [] P) se)"
    "rx_idle sw'" "opcode sw' = n" "final sw' \<longleftrightarrow> prot AND LWS_WRITE_NO_FIN = 0"
    using read_frame [OF assms(10,11), of ?b0 key P "[]" se] assms(6-8) b0 length_random_bytes [OF key] by auto
  have "concat (spills (rx_limit sw) [] P) = P" "\<forall>b\<in>set (spills (rx_limit sw) [] P). b \<noteq> [] \<and> length b \<le> rx_limit sw"
    using concat_spills [OF assms(7)] spills_bounds [of "[]" "rx_limit sw" P] by (simp_all add: list_all_iff)
  moreover have "libwebsocket_interpret_incoming_packet sops ?f (sw, se) =
      Some (0, sw', fold dl (spills (rx_limit sw) [] P) se)"
    using r(1) by simp
  ultimately show ?thesis
    using r(2-4) by (intro exI conjI) (rule w, simp_all)
qed

text \<open>Connections and callouts to apply the properties to.\<close>

definition demo_wsi :: wsi where
  "demo_wsi = \<lparr>protocol = \<lparr>protocol_index = 0, per_session_data_size = 4, rx_buffer_size = 8, no_buffer_all_partial_tx = False, has_callback = True\<rparr>,
     sock = 3, pending_timeout = 0, pending_timeout_limit = 0,
     user_space = True, http_fd = 0, http_filepos = 0, http_filelen = 0,
     extension_data_pending = False, wsi_spec_revision = 13, mode = LWS_CONNMODE_WS_SERVING,
     state = WSI_STATE_ESTABLISHED, lws_rx_parse_state = LWS_RXPS_NEW, position_in_fds_table = 1,
     events_POLLIN = True, events_POLLOUT = False, rx_user_buffer = replicate 30 0, rx_user_buffer_head = 0,
     frame_masking_nonce_04 = [0, 0, 0, 0], frame_mask_index = 0, rx_packet_length = 0, opcode = 0,
     final = False, rsv = 0, frame_is_binary = False, all_zero_nonce = False, close_reason = 0,
     rxflow_buffer = None, rxflow_len = 0, rxflow_pos = 0, rxflow_change_to = LWS_RXFLOW_ALLOW,
     this_frame_masked = False, inside_frame = False, clean_buffer = False,
     truncated_send_malloc = None, truncated_send_offset = 0, truncated_send_len = 0\<rparr>"

text \<open>The environment is the list of buffers sent or received; the socket takes at most \<open>k\<close> bytes.\<close>

definition demo_ops :: "nat \<Rightarrow> bytes list ws_ops" where
  "demo_ops k = \<lparr>active_extensions = [], callback = (\<lambda>r b (w, e). (0, w, e @ [b])), poll_callback = (\<lambda>r f s. s),
     send = (\<lambda>b e. (int (min k (length b)), e @ [take k b])), choked = (\<lambda>e. (False, e)), rand = (\<lambda>e. (7, e)),
     malloc_ok = (\<lambda>n e. (True, e))\<rparr>"

definition demo_all :: "bytes list ws_ops" where
  "demo_all = (demo_ops 0)\<lparr>send := \<lambda>b e. (int (length b), e @ [b])\<rparr>"

lemma demo_quiet: "quiet_app (demo_ops k) (\<lambda>b e. e @ [b])" "quiet_app demo_all (\<lambda>b e. e @ [b])"
  by (simp_all add: quiet_app_def demo_ops_def demo_all_def)

lemma demo_takes_all: "takes_all demo_all (\<lambda>b e. e @ [b])"
  by (simp add: takes_all_def demo_all_def demo_ops_def)

lemma demo_idle: "rx_idle demo_wsi"
  by (simp add: rx_idle_def demo_wsi_def flow_open_def rx_holds_def rx_limit_def
      LWS_SEND_BUFFER_PRE_PADDING_def LWS_SEND_BUFFER_POST_PADDING_def)

lemma demo_can_write: "m \<in> {0, 1, 2, 5, 6} \<Longrightarrow> can_write (demo_wsi\<lparr>mode := x\<rparr>) m"
  by (auto simp: can_write_def demo_wsi_def frame_opcode_def)

lemma demo_socket: "tx_socket (demo_ops k) concat"
  by (auto simp: tx_socket_def demo_ops_def min_def)

theorem masked_frame_roundtrip_witness:
  "\<exists>frame mem' cw' ce' pieces sw'.
    libwebsocket_write demo_all (replicate 18 0 @ replicate 20 65 @ []) (length (replicate 18 (0 :: u8)))
      (length (replicate 20 (65 :: u8))) LWS_WRITE_TEXT (demo_wsi\<lparr>mode := LWS_CONNMODE_WS_CLIENT\<rparr>, []) =
      Some (int (length (replicate 20 (65 :: u8))), mem', cw', ce' @ [frame]) \<and> \<not> inside_frame cw' \<and>
    libwebsocket_interpret_incoming_packet demo_all frame (demo_wsi, []) =
      Some (0, sw', fold (\<lambda>b e. e @ [b]) pieces []) \<and>
    concat pieces = replicate 20 65 \<and> (\<forall>b\<in>set pieces. b \<noteq> [] \<and> length b \<le> rx_limit demo_wsi) \<and>
    rx_idle sw' \<and> opcode sw' = OPCODE_TEXT_FRAME \<and> (final sw' \<longleftrightarrow> LWS_WRITE_TEXT AND LWS_WRITE_NO_FIN = 0)"
  using demo_can_write [of 0]
  by (intro masked_frame_roundtrip demo_takes_all demo_quiet demo_idle)
    (auto simp: demo_wsi_def frame_opcode_def LWS_SEND_BUFFER_PRE_PADDING_def)

text \<open>A sequence of masked data frames, in one read, reaches the application completely and in order, in
  pieces that are never empty and never larger than the receive buffer, and leaves the connection
  waiting for the next frame.\<close>

theorem frames_received:
  assumes "quiet_app ops dl" "rx_idle w"
    and "\<forall>(b0, key, P)\<in>set fs. b0 AND 0xf \<in> {OPCODE_TEXT_FRAME, OPCODE_BINARY_FRAME, OPCODE_CONTINUATION} \<and>
           length key = 4 \<and> P \<noteq> [] \<and> length P < 2 ^ 32"
  shows "\<exists>w' pieces. libwebsocket_interpret_incoming_packet ops
       (concat (map (\<lambda>(b0, key, P). client_frame b0 key P) fs)) (w, e) = Some (0, w', fold dl pieces e) \<and>
    rx_idle w' \<and> concat pieces = concat (map (\<lambda>(b0, key, P). P) fs) \<and>
    (\<forall>b\<in>set pieces. b \<noteq> [] \<and> length b \<le> rx_limit w)"
proof -
  let ?pieces = "concat (map (\<lambda>(b0, key, P). spills (rx_limit w) [] P) fs)"
  have "list_all (\<lambda>(b0, key, P). b0 AND 0xf \<in> {OPCODE_TEXT_FRAME, OPCODE_BINARY_FRAME, OPCODE_CONTINUATION} \<and>
           length key = 4 \<and> P \<noteq> [] \<and> length P < 2 ^ 32) fs"
    using assms(3) by (simp only: list_all_iff)
  from read_frames [OF assms(1,2) this, of e] obtain w' where
    "libwebsocket_interpret_incoming_packet ops (concat (map (\<lambda>(b0, key, P). client_frame b0 key P) fs)) (w, e) =
      Some (0, w', fold dl ?pieces e)" "rx_idle w'" by blast
  moreover have "concat ?pieces = concat (map (\<lambda>(b0, key, P). P) fs)"
    using assms(3) by (induction fs) (auto simp: concat_spills)
  moreover have "\<forall>b\<in>set ?pieces. b \<noteq> [] \<and> length b \<le> rx_limit w"
    using spills_bounds [of "[]" "rx_limit w"] by (fastforce simp: list_all_iff)
  ultimately show ?thesis by blast
qed

theorem frames_received_witness:
  "\<exists>w' pieces. libwebsocket_interpret_incoming_packet demo_all
       (concat (map (\<lambda>(b0, key, P). client_frame b0 key P) [(0x01, [1, 2, 3, 4], replicate 9 5), (0x80, [9, 9, 9, 9], [6])]))
       (demo_wsi, []) = Some (0, w', fold (\<lambda>b e. e @ [b]) pieces []) \<and>
    rx_idle w' \<and> concat pieces = concat (map (\<lambda>(b0, key, P). P) [(0x01 :: u8, [1, 2, 3, 4 :: u8], replicate 9 5), (0x80, [9, 9, 9, 9], [6])]) \<and>
    (\<forall>b\<in>set pieces. b \<noteq> [] \<and> length b \<le> rx_limit demo_wsi)"
  by (rule frames_received [OF demo_quiet(2) demo_idle]) simp

section \<open>Bytes the socket did not take\<close>

text \<open>C25: with a protocol that asks for partial sends to be buffered, no byte of a frame is lost or moved: once
  \<open>libwebsocket_write\<close> has returned the length of the frame's payload (of the frame, for a control
  frame), the bytes the socket has accepted, followed by the bytes the connection still owes, are the
  bytes accepted before followed by the whole frame, after any number of POLLOUT events, however little
  the socket takes at a time; and as long as bytes are owed the poll table asks for POLLOUT.\<close>

theorem partial_sends_buffered:
  assumes "tx_socket ops acc" "can_write w prot" "mode w \<noteq> LWS_CONNMODE_WS_CLIENT"
    and "truncated_send_malloc w = None" "no_buffer_all_partial_tx (protocol w)"
    and "P \<noteq> [] \<or> is_control prot" "length P < 2 ^ 31" "LWS_SEND_BUFFER_PRE_PADDING \<le> length pad"
    and "libwebsocket_write ops (pad @ P @ Z) (length pad) (length P) prot (w, e) = Some (n, mem', w', e')"
    and "0 \<le> n" "(tx_step ops)\<^sup>*\<^sup>* (w', e') (w'', e'')"
  shows "n = int (length (if is_control prot then server_frame prot P else P)) \<and>
    acc e'' @ owed w'' = acc e @ server_frame prot P \<and>
    (owed w'' \<noteq> [] \<and> 0 \<le> position_in_fds_table w'' \<longrightarrow> events_POLLOUT w'')"
proof -
  let ?w = "w\<lparr>clean_buffer := \<not> no_buffer_all_partial_tx (protocol w)\<rparr>" and ?f = "server_frame prot P"
  obtain A where "libwebsocket_write ops (pad @ P @ Z) (length pad) (length P) prot (w, e) =
      do { (r, s) \<leftarrow> send_frame ops prot ?f (length P) (?w, e); Some (r, A @ ?f @ Z, s) }"
    using write_server [of ops w prot P pad Z e] assms tx_socket_no_ext [OF assms(1)]
    by (auto simp: LWS_SEND_BUFFER_PRE_PADDING_def)
  with assms(9) have s: "send_frame ops prot ?f (length P) (?w, e) = Some (n, w', e')"
    by (auto split: Option.bind_splits)
  have len: "length ?f < 2 ^ 32"
    using assms(7) length_frame_header [of "first_byte prot (the (frame_opcode prot))" "length P" 0]
    by (simp add: server_frame_def)
  obtain k v x where i: "lws_issue_raw ops ?f (if is_control prot then ?w else ?w\<lparr>inside_frame := True\<rparr>, e) = Some (k, v, x)"
    using s by (auto simp: send_frame_def split: if_splits Option.bind_splits)
  have k: "0 \<le> k" using s i assms(10) by (auto simp: send_frame_def split: if_splits)
  have "tx_ok v \<and> armed v \<and> k = int (length ?f) \<and> acc x @ owed v = acc e @ ?f"
    using issue_raw_fresh [OF assms(1) _ len i] assms(4,5) k by (auto split: if_splits)
  then have "tx_ok w' \<and> armed w' \<and> acc e' @ owed w' = acc e @ ?f \<and>
      n = int (length (if is_control prot then ?f else P))"
    using s i by (auto simp: send_frame_def split: if_splits)
  then show ?thesis
    using tx_steps_conserve [OF assms(11,1)] by (auto simp: armed_def owed_def split: option.splits)
qed

definition demo_buffered :: wsi where
  "demo_buffered = demo_wsi\<lparr>protocol := (protocol demo_wsi)\<lparr>no_buffer_all_partial_tx := True\<rparr>\<rparr>"

lemma demo_write:
  assumes "w = demo_wsi \<or> w = demo_buffered"
  shows "can_write w LWS_WRITE_TEXT" "mode w \<noteq> LWS_CONNMODE_WS_CLIENT" "truncated_send_malloc w = None"
  using assms by (auto simp: can_write_def demo_wsi_def demo_buffered_def frame_opcode_def is_control_def)

lemma text_not_control: "\<not> is_control LWS_WRITE_TEXT"
  by (simp add: is_control_def)

text \<open>Five bytes in a frame of seven, through a socket that takes three bytes at a time.\<close>

lemma demo_buffered_write:
  "\<exists>mem' w' e'. libwebsocket_write (demo_ops 3) (replicate 18 0 @ [1, 2, 3, 4, 5] @ [])
       (length (replicate 18 (0 :: u8))) (length [1, 2, 3, 4, 5 :: u8]) LWS_WRITE_TEXT (demo_buffered, []) =
     Some (5, mem', w', e')"
proof -
  have can: "can_write demo_buffered LWS_WRITE_TEXT" "mode demo_buffered \<noteq> LWS_CONNMODE_WS_CLIENT"
    "truncated_send_malloc demo_buffered = None"
    using demo_write [of demo_buffered] by simp_all
  have no: "active_extensions (demo_ops 3) = []" by (simp add: demo_ops_def)
  have f: "server_frame LWS_WRITE_TEXT [1, 2, 3, 4, 5] = [0x81, 5, 1, 2, 3, 4, 5]"
    by (simp add: server_frame_def frame_opcode_def first_byte_def frame_header_def)
  show ?thesis
    using write_server [OF no can(1,2), of "[1, 2, 3, 4, 5]" "replicate 18 0" "[]" "[]"]
    apply (auto simp: f text_not_control send_frame_def issue_raw_plain [OF no])
    by (auto simp: handle_truncated_send_def demo_ops_def
        demo_buffered_def demo_wsi_def libwebsocket_callback_on_writable_def)
qed

theorem partial_sends_buffered_witness:
  "\<exists>mem' w' e'. libwebsocket_write (demo_ops 3) (replicate 18 0 @ [1, 2, 3, 4, 5] @ [])
       (length (replicate 18 (0 :: u8))) (length [1, 2, 3, 4, 5 :: u8]) LWS_WRITE_TEXT (demo_buffered, []) =
     Some (5, mem', w', e') \<and> concat e' @ owed w' = concat [] @ server_frame LWS_WRITE_TEXT [1, 2, 3, 4, 5]"
proof -
  obtain mem' w' e' where w: "libwebsocket_write (demo_ops 3) (replicate 18 0 @ [1, 2, 3, 4, 5] @ [])
       (length (replicate 18 (0 :: u8))) (length [1, 2, 3, 4, 5 :: u8]) LWS_WRITE_TEXT (demo_buffered, []) =
     Some (5, mem', w', e')"
    using demo_buffered_write by blast
  from partial_sends_buffered [OF demo_socket _ _ _ _ _ _ _ w _ rtranclp.rtrancl_refl]
    demo_write [of demo_buffered] w
  show ?thesis by (simp add: demo_buffered_def LWS_SEND_BUFFER_PRE_PADDING_def)
qed

text \<open>C27: with every other protocol a partial send loses bytes: when the socket takes only \<open>k\<close> bytes of a data
  frame, \<open>libwebsocket_write\<close> still returns the full length, the connection owes nothing and is not
  inside a frame, so neither the library nor the caller knows that the rest was not sent.\<close>

theorem partial_send_lost:
  assumes "active_extensions ops = []" "can_write w prot" "mode w \<noteq> LWS_CONNMODE_WS_CLIENT"
    and "truncated_send_malloc w = None" "\<not> no_buffer_all_partial_tx (protocol w)"
    and "P \<noteq> []" "\<not> is_control prot" "LWS_SEND_BUFFER_PRE_PADDING \<le> length pad"
    and "send ops (server_frame prot P) e = (int k, e')" "k < length (server_frame prot P)"
  shows "\<exists>mem' w'. libwebsocket_write ops (pad @ P @ Z) (length pad) (length P) prot (w, e) =
      Some (int (length P), mem', w', e') \<and> owed w' = [] \<and> \<not> inside_frame w'"
proof -
  let ?w = "w\<lparr>clean_buffer := \<not> no_buffer_all_partial_tx (protocol w)\<rparr>" and ?f = "server_frame prot P"
  obtain A where "libwebsocket_write ops (pad @ P @ Z) (length pad) (length P) prot (w, e) =
      do { (r, s) \<leftarrow> send_frame ops prot ?f (length P) (?w, e); Some (r, A @ ?f @ Z, s) }"
    using write_server [OF assms(1-3), of P pad Z e] assms(6,8) by (auto simp: LWS_SEND_BUFFER_PRE_PADDING_def)
  then show ?thesis
    using assms(4,5,7,9,10)
    by (simp add: send_frame_def issue_raw_plain [OF assms(1)] handle_truncated_send_def owed_def)
qed

theorem partial_send_lost_witness:
  "\<exists>mem' w'. libwebsocket_write (demo_ops 3) (replicate 18 0 @ [1, 2, 3, 4, 5] @ [])
      (length (replicate 18 (0 :: u8))) (length [1, 2, 3, 4, 5 :: u8]) LWS_WRITE_TEXT (demo_wsi, []) =
      Some (int (length [1, 2, 3, 4, 5 :: u8]), mem', w', [] @ [take 3 (server_frame LWS_WRITE_TEXT [1, 2, 3, 4, 5])]) \<and>
      owed w' = [] \<and> \<not> inside_frame w'"
  by (rule partial_send_lost [where k = 3])
    (simp_all add: demo_write text_not_control demo_ops_def LWS_SEND_BUFFER_PRE_PADDING_def server_frame_def frame_opcode_def
      frame_header_def demo_wsi_def)

text \<open>A write on a server connection that still owes bytes is not queued behind them. The call goes
  through and returns the length of its payload, but of its frame only the \<open>k\<close> bytes the
  socket takes are sent, ahead of everything owed, and as many of the owed bytes are dropped; the rest of
  the frame is forgotten.\<close>

theorem pending_overtaken:
  assumes "tx_socket ops acc" "can_write w prot" "mode w \<noteq> LWS_CONNMODE_WS_CLIENT"
    and "owed w \<noteq> []" "tx_ok w" "P \<noteq> []" "\<not> is_control prot" "LWS_SEND_BUFFER_PRE_PADDING \<le> length pad"
    and "length (server_frame prot P) \<le> length (owed w)"
    and "libwebsocket_write ops (pad @ P @ Z) (length pad) (length P) prot (w, e) = Some (n, mem', w', e')" "0 \<le> n"
  shows "n = int (length P) \<and> \<not> inside_frame w' \<and>
    (\<exists>k. acc e' = acc e @ take k (server_frame prot P) \<and> owed w' = drop k (owed w))"
proof -
  let ?w = "w\<lparr>clean_buffer := \<not> no_buffer_all_partial_tx (protocol w)\<rparr>" and ?f = "server_frame prot P"
  let ?v = "?w\<lparr>inside_frame := True\<rparr>"
  obtain A where "libwebsocket_write ops (pad @ P @ Z) (length pad) (length P) prot (w, e) =
      do { (r, s) \<leftarrow> send_frame ops prot ?f (length P) (?w, e); Some (r, A @ ?f @ Z, s) }"
    using write_server [of ops w prot P pad Z e] assms tx_socket_no_ext [OF assms(1)]
    by (auto simp: LWS_SEND_BUFFER_PRE_PADDING_def)
  with assms(10) have s: "send_frame ops prot ?f (length P) (?w, e) = Some (n, w', e')"
    by (auto split: Option.bind_splits)
  then obtain r v x where i: "lws_issue_raw ops ?f (?v, e) = Some (r, v, x)"
    using assms(7) by (auto simp: send_frame_def split: Option.bind_splits)
  have r: "0 \<le> r" "n = int (length P)" "w' = v\<lparr>inside_frame := False\<rparr>" "e' = x"
    using s i assms(7,11) by (auto simp: send_frame_def split: if_splits)
  obtain m where m: "truncated_send_malloc ?v = Some m"
    using assms(4) by (auto simp: owed_def split: option.splits)
  have "tx_ok ?v" "length ?f \<le> length (owed ?v)" using assms(5,9) by simp_all
  from issue_raw_pending [OF assms(1) m this(1) i this(2)] show ?thesis
    using r by auto
qed

definition demo_owing :: wsi where
  "demo_owing = demo_wsi\<lparr>truncated_send_malloc := Some [1, 2, 3, 4, 5, 6, 7, 8], truncated_send_offset := 0,
     truncated_send_len := 8\<rparr>"

lemma demo_owing_write:
  "\<exists>mem' w' e'. libwebsocket_write (demo_ops 3) (replicate 18 0 @ [9] @ [])
       (length (replicate 18 (0 :: u8))) (length [9 :: u8]) LWS_WRITE_TEXT (demo_owing, []) = Some (1, mem', w', e')"
proof -
  have can: "can_write demo_owing LWS_WRITE_TEXT" "mode demo_owing \<noteq> LWS_CONNMODE_WS_CLIENT"
    by (simp_all add: can_write_def demo_owing_def demo_wsi_def frame_opcode_def)
  have no: "active_extensions (demo_ops 3) = []" by (simp add: demo_ops_def)
  have f: "server_frame LWS_WRITE_TEXT [9] = [0x81, 1, 9]"
    by (simp add: server_frame_def frame_opcode_def first_byte_def frame_header_def)
  show ?thesis
    using write_server [OF no can, of "[9]" "replicate 18 0" "[]" "[]"]
    apply (auto simp: f text_not_control send_frame_def issue_raw_plain [OF no])
    by (auto simp: handle_truncated_send_def demo_ops_def demo_owing_def demo_wsi_def
        libwebsocket_callback_on_writable_def)
qed

theorem pending_overtaken_witness:
  "\<exists>mem' w' e'. libwebsocket_write (demo_ops 3) (replicate 18 0 @ [9] @ [])
       (length (replicate 18 (0 :: u8))) (length [9 :: u8]) LWS_WRITE_TEXT (demo_owing, []) = Some (1, mem', w', e') \<and>
     (\<exists>k. concat e' = concat [] @ take k (server_frame LWS_WRITE_TEXT [9]) \<and> owed w' = drop k (owed demo_owing))"
proof -
  obtain mem' w' e' where w: "libwebsocket_write (demo_ops 3) (replicate 18 0 @ [9] @ [])
       (length (replicate 18 (0 :: u8))) (length [9 :: u8]) LWS_WRITE_TEXT (demo_owing, []) = Some (1, mem', w', e')"
    using demo_owing_write by blast
  have "owed demo_owing = [1, 2, 3, 4, 5, 6, 7, 8]" "tx_ok demo_owing" "can_write demo_owing LWS_WRITE_TEXT"
    "mode demo_owing \<noteq> LWS_CONNMODE_WS_CLIENT" "length (server_frame LWS_WRITE_TEXT [9]) = 3"
    by (simp_all add: owed_def tx_ok_def can_write_def demo_owing_def demo_wsi_def frame_opcode_def server_frame_def
        frame_header_def)
  from pending_overtaken [OF demo_socket this(3,4) _ this(2) _ text_not_control _ _ w] this(1,5) w
  show ?thesis by (simp add: LWS_SEND_BUFFER_PRE_PADDING_def)
qed

section \<open>What a peer can do to the receiving machine\<close>

text \<open>C26: whatever bytes a peer sends, and however they are cut into reads, a server connection never writes
  outside its receive buffer or reads outside its masking key: the loop over the bytes of a read
  returns, with -1 when the connection is to be closed, and otherwise the connection is again
  within bounds; callbacks may write and hold back the flow.\<close>

theorem rx_memory_safe:
  assumes "keeps_rx ops" "rx_safe w"
  shows "\<exists>n w' e'. libwebsocket_interpret_incoming_packet ops bs (w, e) = Some (n, w', e') \<and>
    n \<in> {-1, 0, 1} \<and> (n \<noteq> -1 \<longrightarrow> rx_safe w')"
  by (rule interpret_safe [OF assms])

theorem rx_memory_safe_witness:
  "\<exists>n w' e'. libwebsocket_interpret_incoming_packet (demo_ops 1) [0x89, 0x85, 1, 2, 3, 4, 5, 6, 7, 8, 9] (demo_wsi, []) =
     Some (n, w', e') \<and> n \<in> {-1, 0, 1} \<and> (n \<noteq> -1 \<longrightarrow> rx_safe w')"
  by (rule rx_memory_safe)
    (auto simp: keeps_rx_def demo_ops_def rx_safe_def demo_wsi_def rx_limit_def LWS_SEND_BUFFER_PRE_PADDING_def
      LWS_SEND_BUFFER_POST_PADDING_def)

text \<open>A ping frame of up to 125 bytes that fits the receive buffer is answered with one unmasked pong frame
  with the same payload, even if the answer is the only thing sent, and the connection waits for the next
  frame.\<close>

theorem ping_echoed:
  assumes "takes_all ops sent" "rx_idle w" "can_write w LWS_WRITE_PONG" "mode w \<noteq> LWS_CONNMODE_WS_CLIENT"
    and "truncated_send_malloc w = None" "b0 AND 0xf = OPCODE_PING" "length key = 4"
    and "P \<noteq> []" "length P < 126" "length P \<le> rx_limit w"
  shows "\<exists>w'. libwebsocket_interpret_incoming_packet ops (client_frame b0 key P) (w, e) =
      Some (0, w', sent (server_frame LWS_WRITE_PONG P) e) \<and> rx_idle w'"
proof -
  let ?k = "key_read key (header_read b0 (length P) True w)"
  have no: "active_extensions ops = []" "\<And>bs e. send ops bs e = (int (length bs), sent bs e)"
    using assms(1) by (simp_all add: takes_all_def)
  have same: "state ?k = state w" "inside_frame ?k = inside_frame w" "mode ?k = mode w" "close_reason ?k = close_reason w"
    "truncated_send_malloc ?k = truncated_send_malloc w"
    by (simp_all add: key_read_def header_read_def handle_first_def after_length_def Let_def)
  have w: "flow_open ?k" "mask_ok ?k" "rx_holds ?k []" "rx_limit ?k = rx_limit w"
    using assms(2) by (simp_all add: rx_idle_def)
  obtain mem i w1 where 1: "w1 = ?k\<lparr>rx_user_buffer := mem, rx_user_buffer_head := length P, frame_mask_index := i,
       rx_packet_length := 0, lws_rx_parse_state := LWS_RXPS_NEW\<rparr>"
    "libwebsocket_interpret_incoming_packet ops (mask_bytes key 0 P) (?k, e) =
      do { (m, s) \<leftarrow> rx_spill ops (w1, e);
           if m < 0 then Some (-1, s) else libwebsocket_interpret_incoming_packet ops [] s }"
    "rx_holds w1 P" "length mem = length (rx_user_buffer ?k)"
    using read_short [OF w(1,2) _ w(3), of P ops "[]" e] assms(8-10) w(4)
    by (auto simp del: libwebsocket_interpret_incoming_packet.simps)
  have "length P \<le> rx_limit w1" "opcode w1 = OPCODE_PING" "can_write w1 LWS_WRITE_PONG"
    "mode w1 \<noteq> LWS_CONNMODE_WS_CLIENT" "truncated_send_malloc w1 = None"
    using assms(3-6,10) same 1(1) by (simp_all add: can_write_def)
  from ping_answered [OF no 1(3) this, of e] obtain mem' where
    a: "rx_spill ops (w1, e) = Some (0, w1\<lparr>clean_buffer := \<not> no_buffer_all_partial_tx (protocol w1),
        rx_user_buffer := mem', rx_user_buffer_head := 0\<rparr>, sent (server_frame LWS_WRITE_PONG P) e)"
    "length mem' = length (rx_user_buffer w1)"
    by blast
  have "rx_idle (w1\<lparr>clean_buffer := \<not> no_buffer_all_partial_tx (protocol w1), rx_user_buffer := mem',
      rx_user_buffer_head := 0\<rparr>)"
    using assms(2,7) 1 a(2) w by (simp add: rx_idle_def flow_open_def rx_holds_def rx_limit_def)
  then show ?thesis
    using a(1) 1(2) read_client_start [OF assms(2), of b0 P key ops "[]" e] assms(7-9) by simp
qed

theorem ping_echoed_witness:
  "\<exists>w'. libwebsocket_interpret_incoming_packet demo_all (client_frame 0x89 [1, 2, 3, 4] [5, 6, 7]) (demo_wsi, []) =
     Some (0, w', [] @ [server_frame LWS_WRITE_PONG [5, 6, 7]]) \<and> rx_idle w'"
  by (rule ping_echoed [OF demo_takes_all demo_idle])
    (simp_all add: can_write_def demo_wsi_def frame_opcode_def rx_limit_def)

text \<open>Control frames with an extended length, and frames with a length of 2^63 or more, end the
  connection: the loop returns -1 and nothing reaches the application or the socket.\<close>

theorem bad_lengths_refused:
  assumes "rx_idle w"
    and "b0 AND 8 \<noteq> 0 \<and> b1 AND 0x7f \<in> {126, 127} \<or>
      b0 AND 8 = 0 \<and> b1 AND 0x7f = 127 \<and> cs \<noteq> [] \<and> hd cs AND 0x80 \<noteq> 0"
  shows "\<exists>w'. libwebsocket_interpret_incoming_packet ops (b0 # b1 # cs) (w, e) = Some (-1, w', e)"
proof -
  let ?rd = "libwebsocket_interpret_incoming_packet ops"
  let ?w = "handle_first (w\<lparr>all_zero_nonce := True\<rparr>) b0"
  have w: "flow_open w" "lws_rx_parse_state w = LWS_RXPS_NEW" "wsi_spec_revision w = 13"
    using assms(1) by (simp_all add: rx_idle_def)
  have h: "flow_open ?w" "lws_rx_parse_state ?w = LWS_RXPS_04_FRAME_HDR_LEN" "opcode ?w AND 8 = b0 AND 8"
    using w by (simp_all add: handle_first_def Let_def and_8)
  have 1: "?rd (b0 # b1 # cs) (w, e) = ?rd (b1 # cs) (?w, e)"
    using w by (intro interpret_header) (simp_all add: rx_header_def)
  show ?thesis
    using assms(2)
  proof (elim disjE conjE)
    assume "b0 AND 8 \<noteq> 0" "b1 AND 0x7f \<in> {126, 127}"
    then have "\<exists>v. rx_header ?w b1 = Rx_fail v"
      using h(2,3) by (auto simp: rx_header_def frame_hdr_len_def)
    then show ?thesis
      using h unfolding 1 by (auto simp: libwebsocket_interpret_incoming_packet.simps(2) flow_open_def libwebsocket_rx_sm_def)
  next
    assume b: "b0 AND 8 = 0" "b1 AND 0x7f = 127" "cs \<noteq> []" "hd cs AND 0x80 \<noteq> 0"
    let ?v = "?w\<lparr>this_frame_masked := (b1 AND 0x80 \<noteq> 0), lws_rx_parse_state := LWS_RXPS_04_FRAME_HDR_LEN64_8\<rparr>"
    have "?rd (b1 # cs) (?w, e) = ?rd cs (?v, e)"
      using h b by (intro interpret_header) (simp_all add: rx_header_def frame_hdr_len_def)
    moreover have "rx_header ?v (hd cs) = Rx_fail ?v" using b(4) by (simp add: rx_header_def)
    ultimately show ?thesis
      using h(1) b(3) unfolding 1
      by (cases cs) (simp_all add: libwebsocket_interpret_incoming_packet.simps(2) flow_open_def libwebsocket_rx_sm_def)
  qed
qed

theorem bad_lengths_refused_witness:
  "\<exists>w'. libwebsocket_interpret_incoming_packet demo_all (0x89 # 0xfe # [0, 0x80]) (demo_wsi, []) = Some (-1, w', [])"
  by (rule bad_lengths_refused [OF demo_idle]) simp

text \<open>C28: a masked data frame without payload throws the machine out of step: it does not go back to
  waiting for a header, so the next byte, the header of the next frame, is taken for a byte of payload, and
  the count of bytes that are still to come wraps round to 2^32 - 1.\<close>

theorem empty_masked_frame_desync:
  assumes "quiet_app ops dl" "rx_idle w" "1 < rx_limit w" "length key = 4"
    and "b0 AND 0xf \<in> {OPCODE_TEXT_FRAME, OPCODE_BINARY_FRAME, OPCODE_CONTINUATION}"
  shows "\<exists>w'. libwebsocket_interpret_incoming_packet ops (client_frame b0 key [] @ [x]) (w, e) = Some (0, w', e) \<and>
    lws_rx_parse_state w' = LWS_RXPS_PAYLOAD_UNTIL_LENGTH_EXHAUSTED \<and> unat (rx_packet_length w') = 2 ^ 32 - 1"
proof -
  let ?k = "key_read key (header_read b0 0 True w)"
  have no: "active_extensions ops = []" using assms(1) by (simp add: quiet_app_def)
  have w: "flow_open ?k" "mask_ok ?k" "rx_holds ?k []" "rx_limit ?k = rx_limit w"
    using assms(2) by (simp_all add: rx_idle_def)
  then have head: "rx_user_buffer_head ?k = 0" by (simp add: rx_holds_def)
  have "(b0 AND 0xf) AND 8 = 0" using assms(5) by auto
  then have b: "b0 AND 8 = 0" by (simp add: and_8)
  have "rx_spill ops (?k, e) = Some (0, ?k, e)"
    using assms(5) spill_nothing [OF no head, of e] by simp
  then have 1: "libwebsocket_interpret_incoming_packet ops (client_frame b0 key [] @ [x]) (w, e) =
      libwebsocket_interpret_incoming_packet ops [x] (?k, e)"
    using read_client_start [OF assms(2), of b0 "[]" key ops "[x]" e] b assms(4) by simp
  let ?m = "frame_masking_nonce_04 ?k ! unat (frame_mask_index ?k AND 3)"
  obtain mem j where "rx_payload ?k ((x XOR ?m) XOR ?m) =
      (let w' = ?k\<lparr>rx_user_buffer := mem, rx_user_buffer_head := Suc (length []), frame_mask_index := j,
                  rx_packet_length := rx_packet_length ?k - 1\<rparr>
       in Some (if rx_packet_length ?k = 1 then Rx_spill (w'\<lparr>lws_rx_parse_state := LWS_RXPS_NEW\<rparr>)
                else if Suc (length []) \<noteq> rx_limit ?k then Rx_break w' else Rx_spill w'))"
    using rx_payload_byte [OF w(3) _ w(2), of "x XOR ?m" "[]"] by auto
  then have "rx_payload ?k x = Some (Rx_break (?k\<lparr>rx_user_buffer := mem, rx_user_buffer_head := 1,
      frame_mask_index := j, rx_packet_length := -1\<rparr>))"
    using assms(3) w(4) by (simp add: xor.assoc)
  then show ?thesis
    using interpret_payload [OF w(1), of x _ ops "[]" e] unfolding 1 by (simp add: unsigned_minus_1_eq_mask mask_eq_exp_minus_1)
qed

theorem empty_masked_frame_desync_witness:
  "\<exists>w'. libwebsocket_interpret_incoming_packet demo_all (client_frame 0x81 [1, 2, 3, 4] [] @ [0x81]) (demo_wsi, []) =
     Some (0, w', []) \<and>
    lws_rx_parse_state w' = LWS_RXPS_PAYLOAD_UNTIL_LENGTH_EXHAUSTED \<and> unat (rx_packet_length w') = 2 ^ 32 - 1"
  by (rule empty_masked_frame_desync [OF demo_quiet(2) demo_idle]) (simp_all add: demo_wsi_def rx_limit_def)

end
