(* ===== verification/Serial_Port.thy ===== *)
theory Serial_Port
  imports Prelude "HOL-Library.Monad_Syntax"
begin

text \<open>
  The serial ports, from the Windows half of \<open>srl/rs232.c\<close>. The functions of the Win32 API it calls
  are the fields of \<open>win32\<close>, functions over an environment of an arbitrary type \<open>'e\<close>; the two global
  arrays are the record \<open>serial\<close>, which later components extend. An access outside of the array of
  handles is \<open>None\<close>.
\<close>

section \<open>The API below\<close>

type_synonym handle = int

abbreviation (input) INVALID_HANDLE_VALUE :: handle where
  "INVALID_HANDLE_VALUE \<equiv> -1"

abbreviation (input) MAXDWORD :: u32 where
  "MAXDWORD \<equiv> 0xffffffff"

record commtimeouts =
  ReadIntervalTimeout :: u32
  ReadTotalTimeoutMultiplier :: u32
  ReadTotalTimeoutConstant :: u32
  WriteTotalTimeoutMultiplier :: u32
  WriteTotalTimeoutConstant :: u32

datatype modem_flag = MS_RLSD_ON | MS_CTS_ON | MS_DSR_ON

datatype comm_function = SETDTR | CLRDTR | SETRTS | CLRRTS

text \<open>
  \<open>BuildCommDCBA\<close> yields the device control block, an uninterpreted list of bytes, or fails; \<open>ReadFile\<close> the
  bytes it stored, \<open>WriteFile\<close> its success and the number of bytes it took.
\<close>

record 'e win32 =
  CreateFileA :: "bytes \<Rightarrow> 'e \<Rightarrow> handle \<times> 'e"
  BuildCommDCBA :: "bytes \<Rightarrow> 'e \<Rightarrow> bytes option \<times> 'e"
  SetCommState :: "handle \<Rightarrow> bytes \<Rightarrow> 'e \<Rightarrow> bool \<times> 'e"
  SetCommTimeouts :: "handle \<Rightarrow> commtimeouts \<Rightarrow> 'e \<Rightarrow> bool \<times> 'e"
  CloseHandle :: "handle \<Rightarrow> 'e \<Rightarrow> 'e"
  ReadFile :: "handle \<Rightarrow> nat \<Rightarrow> 'e \<Rightarrow> bytes \<times> 'e"
  WriteFile :: "handle \<Rightarrow> bytes \<Rightarrow> 'e \<Rightarrow> bool \<times> nat \<times> 'e"
  GetCommModemStatus :: "handle \<Rightarrow> 'e \<Rightarrow> (modem_flag \<Rightarrow> bool) \<times> 'e"
  EscapeCommFunction :: "handle \<Rightarrow> comm_function \<Rightarrow> 'e \<Rightarrow> 'e"

section \<open>Ports\<close>

record serial =
  Cport :: "handle list"
  baudr :: bytes

type_synonym ('a, 'e) ser = "'a serial_scheme \<times> 'e"

definition comports :: "bytes list" where
  "comports = map (\<lambda>s. [0x5c, 0x5c, 0x2e, 0x5c] @ ascii s)
     [''COM1'', ''COM2'', ''COM3'', ''COM4'', ''COM5'', ''COM6'', ''COM7'', ''COM8'', ''COM9'', ''COM10'',
      ''COM11'', ''COM12'', ''COM13'', ''COM14'', ''COM15'', ''COM16'']"

text \<open>The switch over \<open>baudrate\<close>.\<close>

definition baud_string :: "nat \<Rightarrow> bytes option" where
  "baud_string baudrate =
     map_option (\<lambda>s. ascii (''baud='' @ s @ '' data=8 parity=N stop=1 dtr=on rts=on''))
       (map_of [(110, ''110''), (300, ''300''), (600, ''600''), (1200, ''1200''), (2400, ''2400''),
          (4800, ''4800''), (9600, ''9600''), (19200, ''19200''), (38400, ''38400''), (57600, ''57600''),
          (115200, ''115200''), (128000, ''128000''), (256000, ''256000''), (500000, ''500000''),
          (1000000, ''1000000'')] baudrate)"

definition Cptimeouts :: commtimeouts where
  "Cptimeouts = \<lparr>ReadIntervalTimeout = MAXDWORD, ReadTotalTimeoutMultiplier = 0, ReadTotalTimeoutConstant = 0,
     WriteTotalTimeoutMultiplier = 0, WriteTotalTimeoutConstant = 0\<rparr>"

definition RS232_OpenComport ::
  "('e, 'b) win32_scheme \<Rightarrow> int \<Rightarrow> nat \<Rightarrow> ('a, 'e) ser \<Rightarrow> int \<times> ('a, 'e) ser" where
  "RS232_OpenComport api n baudrate = (\<lambda>(st, e).
     if n > 15 \<or> n < 0 then (1, st, e)
     else
       (case baud_string baudrate of
          None \<Rightarrow> (1, st, e)
        | Some s \<Rightarrow>
            let st = st\<lparr>baudr := s @ [0] @ drop (length s + 1) (baudr st)\<rparr>;
                (h, e) = CreateFileA api (comports ! nat n) e;
                st = st\<lparr>Cport := (Cport st)[nat n := h]\<rparr>
            in if h = INVALID_HANDLE_VALUE then (1, st, e)
               else
                 (let (dcb, e) = BuildCommDCBA api s e
                  in case dcb of
                       None \<Rightarrow> (1, st, CloseHandle api h e)
                     | Some port_settings \<Rightarrow>
                         (let (ok, e) = SetCommState api h port_settings e
                          in if \<not> ok then (1, st, CloseHandle api h e)
                             else
                               (let (ok, e) = SetCommTimeouts api h Cptimeouts e
                                in if \<not> ok then (1, st, CloseHandle api h e) else (0, st, e))))))"

definition port_handle :: "'a serial_scheme \<Rightarrow> int \<Rightarrow> handle option" where
  "port_handle st n = (if 0 \<le> n \<and> n < int (length (Cport st)) then Some (Cport st ! nat n) else None)"

text \<open>The result holds the bytes stored in the buffer; their number is what the function returns.\<close>

definition RS232_PollComport ::
  "('e, 'b) win32_scheme \<Rightarrow> int \<Rightarrow> nat \<Rightarrow> ('a, 'e) ser \<Rightarrow> (bytes \<times> ('a, 'e) ser) option" where
  "RS232_PollComport api n k = (\<lambda>(st, e).
     do { h \<leftarrow> port_handle st n; let (bs, e) = ReadFile api h k e in Some (bs, st, e) })"

definition RS232_SendByte ::
  "('e, 'b) win32_scheme \<Rightarrow> int \<Rightarrow> u8 \<Rightarrow> ('a, 'e) ser \<Rightarrow> (int \<times> ('a, 'e) ser) option" where
  "RS232_SendByte api n c = (\<lambda>(st, e).
     do { h \<leftarrow> port_handle st n;
          let (ok, k, e) = WriteFile api h [c] e in Some (if int k < 0 then 1 else 0, st, e) })"

definition RS232_SendBuf ::
  "('e, 'b) win32_scheme \<Rightarrow> int \<Rightarrow> bytes \<Rightarrow> ('a, 'e) ser \<Rightarrow> (int \<times> ('a, 'e) ser) option" where
  "RS232_SendBuf api n bs = (\<lambda>(st, e).
     do { h \<leftarrow> port_handle st n;
          let (ok, k, e) = WriteFile api h bs e in Some (if ok then int k else -1, st, e) })"

definition RS232_CloseComport ::
  "('e, 'b) win32_scheme \<Rightarrow> int \<Rightarrow> ('a, 'e) ser \<Rightarrow> ('a, 'e) ser option" where
  "RS232_CloseComport api n = (\<lambda>(st, e).
     do { h \<leftarrow> port_handle st n; Some (st, CloseHandle api h e) })"

text \<open>The bytes of a C string, up to its NUL.\<close>

fun RS232_cputs :: "('e, 'b) win32_scheme \<Rightarrow> int \<Rightarrow> bytes \<Rightarrow> ('a, 'e) ser \<Rightarrow> ('a, 'e) ser option" where
  "RS232_cputs api n [] s = None"
| "RS232_cputs api n (c # cs) s =
     (if c = 0 then Some s else do { (r, s) \<leftarrow> RS232_SendByte api n c s; RS232_cputs api n cs s })"

section \<open>Modem lines\<close>

definition modem_status ::
  "('e, 'b) win32_scheme \<Rightarrow> modem_flag \<Rightarrow> int \<Rightarrow> ('a, 'e) ser \<Rightarrow> (int \<times> ('a, 'e) ser) option" where
  "modem_status api f n = (\<lambda>(st, e).
     do { h \<leftarrow> port_handle st n;
          let (status, e) = GetCommModemStatus api h e in Some (if status f then 1 else 0, st, e) })"

definition RS232_IsDCDEnabled where "RS232_IsDCDEnabled api = modem_status api MS_RLSD_ON"
definition RS232_IsCTSEnabled where "RS232_IsCTSEnabled api = modem_status api MS_CTS_ON"
definition RS232_IsDSREnabled where "RS232_IsDSREnabled api = modem_status api MS_DSR_ON"

definition escape_comm ::
  "('e, 'b) win32_scheme \<Rightarrow> comm_function \<Rightarrow> int \<Rightarrow> ('a, 'e) ser \<Rightarrow> ('a, 'e) ser option" where
  "escape_comm api f n = (\<lambda>(st, e).
     do { h \<leftarrow> port_handle st n; Some (st, EscapeCommFunction api h f e) })"

definition RS232_enableDTR where "RS232_enableDTR api = escape_comm api SETDTR"
definition RS232_disableDTR where "RS232_disableDTR api = escape_comm api CLRDTR"
definition RS232_enableRTS where "RS232_enableRTS api = escape_comm api SETRTS"
definition RS232_disableRTS where "RS232_disableRTS api = escape_comm api CLRRTS"

section \<open>Opening\<close>

lemma baud_string_fits: "baud_string b = Some s \<Longrightarrow> length s < 64"
  by (auto simp: baud_string_def ascii_def split: if_splits)

text \<open>A port that opens has a valid handle; opening never leaves the array or changes another port.\<close>

lemma open_frame:
  assumes "RS232_OpenComport api n b (st, e) = (r, st', e')"
  shows "\<exists>hs bs. st' = st\<lparr>Cport := hs, baudr := bs\<rparr> \<and> length hs = length (Cport st) \<and>
    (\<forall>i < length hs. i \<noteq> nat n \<longrightarrow> hs ! i = Cport st ! i) \<and>
    (length (baudr st) = 64 \<longrightarrow> length bs = 64)"
proof -
  have same: "st = st\<lparr>Cport := Cport st, baudr := baudr st\<rparr>" by simp
  show ?thesis
  proof (cases "n > 15 \<or> n < 0 \<or> baud_string b = None")
    case True
    then have "st' = st" using assms by (auto simp: RS232_OpenComport_def split: if_splits)
    then show ?thesis using same by (intro exI [of _ "Cport st"] exI [of _ "baudr st"]) simp
  next
    case False
    then obtain s where s: "baud_string b = Some s" "n \<le> 15" "0 \<le> n" by auto
    obtain h e1 where c: "CreateFileA api (comports ! nat n) e = (h, e1)" by fastforce
    let ?bs = "s @ [0] @ drop (length s + 1) (baudr st)"
    have "st' = st\<lparr>baudr := ?bs, Cport := (Cport st)[nat n := h]\<rparr>"
      using assms s c by (auto simp: RS232_OpenComport_def Let_def split: if_splits option.splits prod.splits)
    then show ?thesis
      using baud_string_fits [OF s(1)]
      by (intro exI [of _ "(Cport st)[nat n := h]"] exI [of _ ?bs]) auto
  qed
qed

lemma open_fails_range:
  "n > 15 \<or> n < 0 \<Longrightarrow> RS232_OpenComport api n b s = (1, s)"
  by (cases s) (simp add: RS232_OpenComport_def)

end
