(* ===== verification/Reader_Link.thy ===== *)
theory Reader_Link
  imports Serial_Port
begin

text \<open>
  The link to the card reader, \<open>srl/ArduinoRFID.c\<close>: looking for the board, the keep-alive exchange,
  writing a block to a card, receiving the message a card holds and its serial number. The pauses of
  the code (\<open>Sleep\<close>) and its messages on the console have no place in the model. Loops that end only when
  the other side does its part are partial functions: \<open>None\<close> is not returning, or an access outside of an
  array.
\<close>

section \<open>State\<close>

abbreviation (input) RESPONSE_BUFFER_LENGHT :: nat where "RESPONSE_BUFFER_LENGHT \<equiv> 2"
abbreviation (input) MAX_MESSAGE_LENGHT :: nat where "MAX_MESSAGE_LENGHT \<equiv> 64"
abbreviation (input) KA_RECEIVED :: int where "KA_RECEIVED \<equiv> 0"
abbreviation (input) SS_RECEIVED :: int where "SS_RECEIVED \<equiv> 1"
abbreviation (input) BAUD_RATE :: nat where "BAUD_RATE \<equiv> 115200"
abbreviation (input) SERIAL_LENGHT :: nat where "SERIAL_LENGHT \<equiv> 4"

definition hey_message :: bytes where
  "hey_message = ascii ''HEY!'' @ [0]"

text \<open>
  \<open>time\<close> is the C function of that name. \<open>no_return\<close> is the value the caller of \<open>compare_keep_alive\<close>
  finds when that function ends without a \<open>return\<close>.
\<close>

record 'e host = "'e win32" +
  time :: "'e \<Rightarrow> int \<times> 'e"
  no_return :: int

record link = serial +
  response_buffer :: bytes

section \<open>Finding the board\<close>

text \<open>
  One turn of the loop, at port \<open>p\<close>: whether the board was found, the port to go on with and
  the buffer \<open>OK\<close>, which keeps what an earlier turn left in it. When the port does not answer, it is the
  next port that is closed.
\<close>

definition probe ::
  "('e, 'b) win32_scheme \<Rightarrow> int \<Rightarrow> bytes \<Rightarrow> ('a, 'e) ser \<Rightarrow> (bool \<times> int \<times> bytes \<times> ('a, 'e) ser) option" where
  "probe api p OK s =
     (let (r, s) = RS232_OpenComport api p BAUD_RATE s
      in if r \<noteq> 0 then Some (False, p + 1, OK, s)
         else do {
           (r, s) \<leftarrow> RS232_SendBuf api p (ascii ''INIT'' @ [0x0a]) s;
           if r = 1 then do { s \<leftarrow> RS232_CloseComport api p s; Some (False, p, OK, s) }
           else do {
             (bs, s) \<leftarrow> RS232_PollComport api p 4 s;
             OK \<leftarrow> put_at OK 0 bs;
             let OK = (if bs \<noteq> [] then OK[3 := 0] else OK)
             in if bs \<noteq> [] \<and> c_str OK = Some (ascii ''OK!'') then Some (True, p, OK, s)
                else do { s \<leftarrow> RS232_CloseComport api (p + 1) s; Some (False, p + 1, OK, s) } } })"

partial_function (option) discover ::
  "('e, 'b) win32_scheme \<Rightarrow> int \<Rightarrow> bytes \<Rightarrow> ('a, 'e) ser \<Rightarrow> (int \<times> ('a, 'e) ser) option" where
  "discover api p OK s =
     Option.bind (probe api p OK s) (\<lambda>(found, p, OK, s).
       if found then Some (p, s) else discover api (if p = 16 then 0 else p) OK s)"

definition wait_for_device ::
  "('e, 'b) win32_scheme \<Rightarrow> bytes \<Rightarrow> ('a, 'e) ser \<Rightarrow> (int \<times> ('a, 'e) ser) option" where
  "wait_for_device api OK s = discover api 0 OK s"

section \<open>Keep-alive\<close>

definition send_keep_alive :: "('e, 'b) win32_scheme \<Rightarrow> int \<Rightarrow> ('a, 'e) ser \<Rightarrow> ('a, 'e) ser option" where
  "send_keep_alive api p s = RS232_cputs api p hey_message s"

definition compare_keep_alive :: "('e, 'b) host_scheme \<Rightarrow> bytes \<Rightarrow> int" where
  "compare_keep_alive api buf =
     (if buf ! 0 = of_char CHR ''K'' \<and> buf ! 1 = of_char CHR ''A'' then KA_RECEIVED
      else if buf ! 0 = of_char CHR ''S'' \<and> buf ! 1 = of_char CHR ''S'' then SS_RECEIVED
      else no_return api)"

definition receive_keep_alive ::
  "('e, 'b) host_scheme \<Rightarrow> int \<Rightarrow> ('a link_scheme \<times> 'e) \<Rightarrow> (int \<times> 'a link_scheme \<times> 'e) option" where
  "receive_keep_alive api p s =
     do {
       (bs, st, e) \<leftarrow> RS232_PollComport api p RESPONSE_BUFFER_LENGHT s;
       buf \<leftarrow> put_at (response_buffer st) 0 bs;
       let n = compare_keep_alive api buf;
           ret = (if n = KA_RECEIVED then KA_RECEIVED else if n = SS_RECEIVED then SS_RECEIVED else -1)
       in Some (ret, st\<lparr>response_buffer := replicate RESPONSE_BUFFER_LENGHT 0\<rparr>, e) }"

section \<open>Writing a block\<close>

fun send_all :: "('e, 'b) win32_scheme \<Rightarrow> int \<Rightarrow> bytes list \<Rightarrow> ('a, 'e) ser \<Rightarrow> ('a, 'e) ser option" where
  "send_all api p [] s = Some s"
| "send_all api p (b # bs) s = do { (r, s) \<leftarrow> RS232_SendBuf api p b s; send_all api p bs s }"

definition write_block ::
  "('e, 'b) win32_scheme \<Rightarrow> int \<Rightarrow> bytes \<Rightarrow> nat \<Rightarrow> u8 \<Rightarrow> ('a, 'e) ser \<Rightarrow> ('a, 'e) ser option" where
  "write_block api p block len block_num s =
     (if len \<noteq> 64 then Some s
      else if length block < len then None
      else
        let my_block = take len block @ [block_num] @ replicate 15 0
        in send_all api p (map (\<lambda>i. take 16 (drop (i * 16) my_block)) [0..<5]) s)"

section \<open>Receiving\<close>

partial_function (option) serial_loop ::
  "('e, 'b) win32_scheme \<Rightarrow> int \<Rightarrow> bytes \<Rightarrow> nat \<Rightarrow> ('a, 'e) ser \<Rightarrow> (bytes \<times> ('a, 'e) ser) option" where
  "serial_loop api p buf rec s =
     (if rec < SERIAL_LENGHT then
        Option.bind (RS232_PollComport api p (SERIAL_LENGHT - rec) s) (\<lambda>(bs, s).
          Option.bind (put_at buf rec bs) (\<lambda>buf. serial_loop api p buf (rec + length bs) s))
      else Some (buf, s))"

definition wait_serial_number ::
  "('e, 'b) win32_scheme \<Rightarrow> int \<Rightarrow> bytes \<Rightarrow> ('a, 'e) ser \<Rightarrow> (bytes \<times> ('a, 'e) ser) option" where
  "wait_serial_number api p buf s = serial_loop api p buf 0 s"

definition check_message :: "bytes \<Rightarrow> u8 \<Rightarrow> bool option" where
  "check_message buf ack_byte = (if 64 < length buf then Some (buf ! 64 = ack_byte) else None)"

text \<open>The loop of \<open>wait_message\<close>: the buffer, how much of it is filled, and whether anything came.\<close>

partial_function (option) message_loop ::
  "('e, 'b) host_scheme \<Rightarrow> int \<Rightarrow> int \<Rightarrow> nat \<Rightarrow> bytes \<Rightarrow> nat \<Rightarrow> bool \<Rightarrow> ('a, 'e) ser \<Rightarrow>
     (bytes \<times> bool \<times> ('a, 'e) ser) option" where
  "message_loop api p end_time buff_lenght buf received arrived s =
     (let (now, e) = time api (snd s); s = (fst s, e)
      in if now < end_time \<and> received < buff_lenght then
           Option.bind (RS232_PollComport api p (buff_lenght - received) s) (\<lambda>(bs, s).
             Option.bind (put_at buf received bs) (\<lambda>buf.
               message_loop api p end_time buff_lenght buf (received + length bs) (arrived \<or> bs \<noteq> []) s))
         else Some (buf, arrived, s))"

definition wait_message ::
  "('e, 'b) host_scheme \<Rightarrow> int \<Rightarrow> int \<Rightarrow> bytes \<Rightarrow> nat \<Rightarrow> ('a, 'e) ser \<Rightarrow> (int \<times> bytes \<times> ('a, 'e) ser) option" where
  "wait_message api p timeout buff buff_lenght = (\<lambda>(st, e).
     let (now, e) = time api e
     in if buff_lenght \<noteq> MAX_MESSAGE_LENGHT * 4 + 4 then Some (0, buff, st, e)
        else do {
          (buff, arrived, s) \<leftarrow> message_loop api p (now + timeout) buff_lenght buff 0 False (st, e);
          if arrived then do {
            a \<leftarrow> check_message buff 0x30;
            b \<leftarrow> check_message (drop 65 buff) 0x31;
            c \<leftarrow> check_message (drop 130 buff) 0x32;
            d \<leftarrow> check_message (drop 195 buff) 0x33;
            Some (if a \<and> b \<and> c \<and> d then 1 else 0, buff, s) }
          else Some (0, buff, s) })"

end
