(* ===== verification/Card_Database.thy ===== *)
theory Card_Database
  imports Prelude "HOL-Library.Monad_Syntax"
begin

text \<open>
  The table of allowed cards, \<open>srl/DatabaseManager.c\<close>. The MySQL client library is the record \<open>mysql\<close> of
  the functions the code calls; there is one connection at a time, so its handle is not passed around.
  A string that does not fit the array it is printed into is \<open>None\<close>.
\<close>

section \<open>The code\<close>

text \<open>
  \<open>mysql_init\<close> fails when memory runs out; \<open>mysql_query\<close> returns its error flag; the result of
  \<open>mysql_store_result\<close> is the first column of every row, or the null pointer.
\<close>

record 'e mysql =
  mysql_init :: "'e \<Rightarrow> bool \<times> 'e"
  mysql_real_connect :: "bytes \<Rightarrow> bytes \<Rightarrow> bytes \<Rightarrow> bytes \<Rightarrow> 'e \<Rightarrow> bool \<times> 'e"
  mysql_query :: "bytes \<Rightarrow> 'e \<Rightarrow> bool \<times> 'e"
  mysql_store_result :: "'e \<Rightarrow> bytes list option \<times> 'e"
  mysql_close :: "'e \<Rightarrow> 'e"

text \<open>\<open>%x\<close> of a byte, and \<open>%x%x%x%x\<close> of the serial number.\<close>

definition hex_digit :: "u8 \<Rightarrow> u8" where
  "hex_digit d = (if d < 10 then 0x30 + d else 0x57 + d)"

definition hex_byte :: "u8 \<Rightarrow> bytes" where
  "hex_byte b = (if b < 16 then [hex_digit b] else [hex_digit (drop_bit 4 b), hex_digit (b AND 0xf)])"

definition serial_string :: "bytes \<Rightarrow> bytes option" where
  "serial_string sn =
     (if 4 \<le> length sn then Some (concat (map (\<lambda>i. hex_byte (sn ! i)) [0..<4])) else None)"

definition sprintf_into :: "nat \<Rightarrow> bytes \<Rightarrow> bytes option" where
  "sprintf_into n s = (if length s < n then Some s else None)"

definition insert_query :: "bytes \<Rightarrow> bytes" where
  "insert_query s = ascii ''INSERT INTO allowcard (serialnumber) VALUES ('' @ [0x27] @ s @ [0x27] @ ascii '')''"

definition select_query :: "bytes \<Rightarrow> bytes" where
  "select_query s = ascii ''SELECT serialnumber FROM allowcard WHERE serialnumber='' @ [0x27] @ s @ [0x27]"

definition connect :: "('e, 'a) mysql_scheme \<Rightarrow> 'e \<Rightarrow> bool \<times> 'e" where
  "connect db e = mysql_real_connect db (ascii ''localhost'') (ascii ''root'') [] (ascii ''argorfid'') e"

text \<open>The result \<open>None\<close> of the inner option is the value of a function that ends without a \<open>return\<close>.\<close>

definition insert_serial :: "('e, 'a) mysql_scheme \<Rightarrow> bytes \<Rightarrow> 'e \<Rightarrow> (bool option \<times> 'e) option" where
  "insert_serial db four_serial_byte e =
     (let (con, e) = mysql_init db e in
      do {
        s \<leftarrow> serial_string four_serial_byte;
        query \<leftarrow> sprintf_into 100 (insert_query s);
        (if \<not> con then Some (Some False, e)
         else
           (let (ok, e) = connect db e
            in if \<not> ok then Some (Some False, mysql_close db e)
               else
                 (let (err, e) = mysql_query db query e
                  in if err then Some (Some False, mysql_close db e)
                     else Some (None, mysql_close db e)))) })"

text \<open>A match returns without closing the connection.\<close>

definition is_serial_present :: "('e, 'a) mysql_scheme \<Rightarrow> bytes \<Rightarrow> 'e \<Rightarrow> (int \<times> 'e) option" where
  "is_serial_present db four_serial_byte e =
     (let (con, e) = mysql_init db e in
      do {
        s \<leftarrow> serial_string four_serial_byte;
        query \<leftarrow> sprintf_into 100 (select_query s);
        (if \<not> con then Some (-1, e)
         else
           (let (ok, e) = connect db e
            in if \<not> ok then Some (-1, mysql_close db e)
               else
                 (let (err, e) = mysql_query db query e
                  in if err then Some (-1, mysql_close db e)
                     else
                       (let (result, e) = mysql_store_result db e
                        in case result of
                             None \<Rightarrow> Some (-1, mysql_close db e)
                           | Some [] \<Rightarrow> Some (0, mysql_close db e)
                           | Some (row # rows) \<Rightarrow>
                               do {
                                 string_serial \<leftarrow> sprintf_into 9 s;
                                 fetched_serial \<leftarrow> sprintf_into 9 row;
                                 Some (if string_serial = fetched_serial then (1, e)
                                       else (0, mysql_close db e)) })))) })"

section \<open>Printed serial numbers\<close>

lemma length_hex_byte: "1 \<le> length (hex_byte b)" "length (hex_byte b) \<le> 2"
  by (simp_all add: hex_byte_def)

lemma serial_string_fits:
  assumes "serial_string sn = Some s"
  shows "length s < 9" "length (insert_query s) < 100" "length (select_query s) < 100"
proof -
  have "length s \<le> 8"
    using assms length_hex_byte(2) [of "sn ! 0"] length_hex_byte(2) [of "sn ! 1"]
      length_hex_byte(2) [of "sn ! 2"] length_hex_byte(2) [of "sn ! 3"]
    by (auto simp: serial_string_def upt_rec numeral_2_eq_2 numeral_3_eq_3 split: if_splits)
  then show "length s < 9" "length (insert_query s) < 100" "length (select_query s) < 100"
    by (simp_all add: insert_query_def select_query_def ascii_def)
qed

lemma serial_string_eq: "serial_string [a, b, c, d] = Some (hex_byte a @ hex_byte b @ hex_byte c @ hex_byte d)"
  by (simp add: serial_string_def upt_conv_Cons)

lemma hex_byte_two:
  assumes "0 < a" "a < 16" "b < 16"
  shows "hex_byte (16 * a + b) = [hex_digit a, hex_digit b]"
proof -
  have ab: "unat a < 16" "unat b < 16" using assms(2,3) by (simp_all add: word_less_nat_alt)
  then have n: "unat (16 * a + b) = 16 * unat a + unat b"
    by (simp add: unat_word_ariths)
  have "drop_bit 4 (16 * a + b) = a" unfolding word_unat_eq_iff using ab n by (simp add: drop_bit_eq_div unat_div)
  moreover have "(16 * a + b) AND 0xf = b"
  proof -
    have "(16 * a + b) AND mask 4 = take_bit 4 (16 * a + b)" by (simp add: take_bit_eq_mask)
    moreover have "unat (take_bit 4 (16 * a + b)) = (16 * unat a + unat b) mod 16"
      using n by (simp add: take_bit_eq_mod unat_mod)
    ultimately show ?thesis using ab by (simp add: mask_eq_exp_minus_1 word_unat_eq_iff)
  qed
  moreover have "\<not> 16 * a + b < 16"
  proof -
    have "0 < unat a" using assms(1) by (simp add: word_less_nat_alt)
    then show ?thesis using n by (simp add: word_less_nat_alt)
  qed
  ultimately show ?thesis by (simp add: hex_byte_def)
qed

lemma serial_string_4: "length sn = 4 \<Longrightarrow> \<exists>s. serial_string sn = Some s"
  by (simp add: serial_string_def)

lemma select_query_inj [simp]: "select_query s = select_query t \<longleftrightarrow> s = t"
  by (simp add: select_query_def)

lemma insert_query_inj [simp]: "insert_query s = insert_query t \<longleftrightarrow> s = t"
  by (simp add: insert_query_def)

section \<open>What is relied on of the database\<close>

text \<open>
  \<open>cards e\<close> is the set of strings in the column, \<open>answer e\<close> the result of the last query and \<open>conns e\<close> the
  number of open connections. A query that reports no error has done what its text says; the other
  functions leave the table alone.
\<close>

definition mysql_ok ::
  "('e, 'a) mysql_scheme \<Rightarrow> ('e \<Rightarrow> bytes set) \<Rightarrow> ('e \<Rightarrow> bytes list) \<Rightarrow> ('e \<Rightarrow> int) \<Rightarrow> bool" where
  "mysql_ok db cards answer conns \<longleftrightarrow>
     (\<forall>e ok e'. mysql_init db e = (ok, e') \<longrightarrow> cards e' = cards e \<and> conns e' = (if ok then conns e + 1 else conns e)) \<and>
     (\<forall>h u p d e ok e'. mysql_real_connect db h u p d e = (ok, e') \<longrightarrow> cards e' = cards e \<and> conns e' = conns e) \<and>
     (\<forall>s e err e'. mysql_query db (select_query s) e = (err, e') \<longrightarrow> cards e' = cards e \<and> conns e' = conns e \<and>
        (\<not> err \<longrightarrow> set (answer e') = (if s \<in> cards e then {s} else {}))) \<and>
     (\<forall>s e err e'. mysql_query db (insert_query s) e = (err, e') \<longrightarrow> conns e' = conns e \<and>
        cards e' = (if err then cards e else insert s (cards e))) \<and>
     (\<forall>e r e'. mysql_store_result db e = (r, e') \<longrightarrow> cards e' = cards e \<and> conns e' = conns e \<and>
        (r = None \<or> r = Some (answer e))) \<and>
     (\<forall>e. cards (mysql_close db e) = cards e \<and> conns (mysql_close db e) = conns e - 1)"

lemma mysql_ok_D:
  assumes "mysql_ok db cards answer conns"
  shows "mysql_init db e = (ok, e') \<Longrightarrow> cards e' = cards e \<and> conns e' = (if ok then conns e + 1 else conns e)"
    and "connect db e = (ok, e') \<Longrightarrow> cards e' = cards e \<and> conns e' = conns e"
    and "mysql_query db (select_query s) e = (err, e') \<Longrightarrow> cards e' = cards e \<and> conns e' = conns e \<and>
        (\<not> err \<longrightarrow> set (answer e') = (if s \<in> cards e then {s} else {}))"
    and "mysql_query db (insert_query s) e = (err, e') \<Longrightarrow> conns e' = conns e \<and>
        cards e' = (if err then cards e else insert s (cards e))"
    and "mysql_store_result db e = (r, e') \<Longrightarrow> cards e' = cards e \<and> conns e' = conns e \<and>
        (r = None \<or> r = Some (answer e))"
    and "cards (mysql_close db e) = cards e" "conns (mysql_close db e) = conns e - 1"
proof -
  note ok = assms [unfolded mysql_ok_def]
  show "mysql_init db e = (ok, e') \<Longrightarrow> cards e' = cards e \<and> conns e' = (if ok then conns e + 1 else conns e)"
    using ok [THEN conjunct1] by blast
  show "connect db e = (ok, e') \<Longrightarrow> cards e' = cards e \<and> conns e' = conns e"
    using ok [THEN conjunct2, THEN conjunct1] unfolding connect_def by blast
  show "mysql_query db (select_query s) e = (err, e') \<Longrightarrow> cards e' = cards e \<and> conns e' = conns e \<and>
        (\<not> err \<longrightarrow> set (answer e') = (if s \<in> cards e then {s} else {}))"
    using ok [THEN conjunct2, THEN conjunct2, THEN conjunct1] by blast
  show "mysql_query db (insert_query s) e = (err, e') \<Longrightarrow> conns e' = conns e \<and>
        cards e' = (if err then cards e else insert s (cards e))"
    using ok [THEN conjunct2, THEN conjunct2, THEN conjunct2, THEN conjunct1] by blast
  show "mysql_store_result db e = (r, e') \<Longrightarrow> cards e' = cards e \<and> conns e' = conns e \<and>
        (r = None \<or> r = Some (answer e))"
    using ok [THEN conjunct2, THEN conjunct2, THEN conjunct2, THEN conjunct2, THEN conjunct1] by blast
  show "cards (mysql_close db e) = cards e" "conns (mysql_close db e) = conns e - 1"
    using ok by simp_all
qed

text \<open>The answer is 1 exactly for a string in the table, unless the database fails; a match keeps a connection.\<close>

lemma present_spec:
  assumes "mysql_ok db cards answer conns" "serial_string sn = Some s"
  shows "\<exists>r e'. is_serial_present db sn e = Some (r, e') \<and> cards e' = cards e \<and>
    (r = -1 \<or> r = (if s \<in> cards e then 1 else 0)) \<and>
    conns e' = (if r = 1 then conns e + 1 else conns e)"
proof -
  note D = mysql_ok_D [OF assms(1)]
  obtain con e1 where 1: "mysql_init db e = (con, e1)" by fastforce
  obtain ok e2 where 2: "connect db e1 = (ok, e2)" by fastforce
  obtain err e3 where 3: "mysql_query db (select_query s) e2 = (err, e3)" by fastforce
  obtain r e4 where 4: "mysql_store_result db e3 = (r, e4)" by fastforce
  note facts = D(1) [OF 1] D(2) [OF 2] D(3) [OF 3] D(5) [OF 4] D(6,7)
  have fits: "sprintf_into 100 (select_query s) = Some (select_query s)" "sprintf_into 9 s = Some s"
    using serial_string_fits [OF assms(2)] by (simp_all add: sprintf_into_def)
  show ?thesis
  proof (cases "con \<and> ok \<and> \<not> err \<and> r \<noteq> None")
    case False
    then have "\<exists>e'. is_serial_present db sn e = Some (-1, e') \<and> cards e' = cards e \<and> conns e' = conns e"
      using facts by (auto simp: is_serial_present_def 1 2 3 4 assms(2) fits)
    then show ?thesis by (intro exI [of _ "-1"]) simp
  next
    case True
    then have r: "r = Some (answer e3)" using facts(4) by auto
    show ?thesis
    proof (cases "answer e3")
      case Nil
      then have "s \<notin> cards e2" using facts(3) True by (auto split: if_splits)
      then show ?thesis
        using Nil True r facts by (auto simp: is_serial_present_def 1 2 3 4 assms(2) fits)
    next
      case (Cons row rows)
      then have "s \<in> cards e2" "row = s" using facts(3) True by (auto split: if_splits)
      then show ?thesis
        using Cons True r facts by (auto simp: is_serial_present_def 1 2 3 4 assms(2) fits)
    qed
  qed
qed

lemma insert_spec:
  assumes "mysql_ok db cards answer conns" "serial_string sn = Some s"
  shows "\<exists>r e'. insert_serial db sn e = Some (r, e') \<and> r \<noteq> Some True \<and> conns e' = conns e \<and>
    cards e' = (if r = None then insert s (cards e) else cards e)"
proof -
  note D = mysql_ok_D [OF assms(1)]
  obtain con e1 where 1: "mysql_init db e = (con, e1)" by fastforce
  obtain ok e2 where 2: "connect db e1 = (ok, e2)" by fastforce
  obtain err e3 where 3: "mysql_query db (insert_query s) e2 = (err, e3)" by fastforce
  have fits: "sprintf_into 100 (insert_query s) = Some (insert_query s)"
    using serial_string_fits [OF assms(2)] by (simp add: sprintf_into_def)
  show ?thesis
    using D(1) [OF 1] D(2) [OF 2] D(4) [OF 3] D(6,7)
    by (auto simp: insert_serial_def 1 2 3 assms(2) fits)
qed

text \<open>A database that does not fail.\<close>

definition mysql_up :: "('e, 'a) mysql_scheme \<Rightarrow> bool" where
  "mysql_up db \<longleftrightarrow> (\<forall>e. fst (mysql_init db e)) \<and> (\<forall>e. fst (connect db e)) \<and>
     (\<forall>q e. \<not> fst (mysql_query db q e)) \<and> (\<forall>e. fst (mysql_store_result db e) \<noteq> None)"

lemma present_up:
  assumes "mysql_up db" "is_serial_present db sn e = Some (r, e')"
  shows "r \<noteq> -1"
proof -
  obtain con e1 where 1: "mysql_init db e = (con, e1)" by fastforce
  obtain ok e2 where 2: "connect db e1 = (ok, e2)" by fastforce
  obtain s where s: "serial_string sn = Some s"
    using assms(2) by (auto simp: is_serial_present_def 1 split: Option.bind_splits)
  obtain err e3 where 3: "mysql_query db (select_query s) e2 = (err, e3)" by fastforce
  obtain x e4 where 4: "mysql_store_result db e3 = (x, e4)" by fastforce
  have "con" "ok" "\<not> err" "x \<noteq> None"
    using assms(1) 1 2 3 4 unfolding mysql_up_def by (metis fst_conv)+
  then show ?thesis
    using assms(2) serial_string_fits [OF s]
    by (auto simp: is_serial_present_def 1 2 3 4 s sprintf_into_def split: list.splits Option.bind_splits if_splits)
qed

lemma insert_up:
  assumes "mysql_up db" "insert_serial db sn e = Some (r, e')"
  shows "r = None"
proof -
  obtain con e1 where 1: "mysql_init db e = (con, e1)" by fastforce
  obtain ok e2 where 2: "connect db e1 = (ok, e2)" by fastforce
  obtain s where s: "serial_string sn = Some s"
    using assms(2) by (auto simp: insert_serial_def 1 split: Option.bind_splits)
  obtain err e3 where 3: "mysql_query db (insert_query s) e2 = (err, e3)" by fastforce
  have "con" "ok" "\<not> err"
    using assms(1) 1 2 3 unfolding mysql_up_def by (metis fst_conv)+
  then show ?thesis
    using assms(2) serial_string_fits [OF s] by (auto simp: insert_serial_def 1 2 3 s sprintf_into_def)
qed

end
