(* ===== verification/Card_Reader.thy ===== *)
theory Card_Reader
  imports Reader_Link Card_Database EncDec
begin

text \<open>
  The reader of the login service, \<open>srl/ArgoRFID_Reader.c\<close>: the thread that waits for a card, checks it
  against the database and deciphers what it holds into the global buffers, and the functions the
  server thread reads them with. The calls of the Windows shell and of \<open>system\<close> are fields of
  \<open>desktop\<close>.
\<close>

section \<open>State\<close>

abbreviation (input) TIMEOUT :: int where "TIMEOUT \<equiv> 10"

record 'e desktop = "'e host" +
  mysql_lib :: "'e mysql"
  Shell_NotifyIcon :: "bytes \<Rightarrow> bytes \<Rightarrow> 'e \<Rightarrow> 'e"
  system_call :: "bytes \<Rightarrow> 'e \<Rightarrow> 'e"
  crypt :: crypt_h
  stack_context :: aes_context

record reader = link +
  buff :: bytes
  name :: bytes
  surname :: bytes
  username :: bytes
  password :: bytes
  is_data_present :: bool
  port :: int
  aes_globals :: aes_state

type_synonym ('a, 'e) rd = "'a reader_scheme \<times> 'e"

section \<open>A card arrives\<close>

text \<open>\<open>strcat\<close> appends in place in the array of the name; \<open>szInfo\<close> has 256 bytes.\<close>

definition sendInfoNotification :: "('e, 'b) desktop_scheme \<Rightarrow> ('a, 'e) rd \<Rightarrow> ('a, 'e) rd option" where
  "sendInfoNotification api = (\<lambda>(st, e).
     do {
       n \<leftarrow> c_str (name st);
       s \<leftarrow> c_str (surname st);
       full \<leftarrow> put_at (name st) (length n) (s @ [0]);
       info \<leftarrow> sprintf_into 256 (n @ s);
       Some (st\<lparr>name := full\<rparr>, Shell_NotifyIcon api info (ascii ''Tag detected! Starting Firefox...'') e) })"

definition start :: "('e, 'b) desktop_scheme \<Rightarrow> bytes \<Rightarrow> ('a, 'e) rd \<Rightarrow> ('a, 'e) rd" where
  "start api cmd = (\<lambda>(st, e). (st, system_call api cmd e))"

definition clear_fields :: "'a reader_scheme \<Rightarrow> 'a reader_scheme" where
  "clear_fields st = st\<lparr>name := replicate MAX_MESSAGE_LENGHT 0, surname := replicate MAX_MESSAGE_LENGHT 0,
     username := replicate MAX_MESSAGE_LENGHT 0, password := replicate MAX_MESSAGE_LENGHT 0\<rparr>"

text \<open>The \<open>i\<close>-th block of a message.\<close>

definition message_block :: "bytes \<Rightarrow> nat \<Rightarrow> bytes" where
  "message_block b i = take MAX_MESSAGE_LENGHT (drop ((MAX_MESSAGE_LENGHT + 1) * i) b)"

text \<open>What follows a valid message and the serial number of its card.\<close>

definition card_present :: "('e, 'b) desktop_scheme \<Rightarrow> bytes \<Rightarrow> ('a, 'e) rd \<Rightarrow> ('a, 'e) rd option" where
  "card_present api serialnumber = (\<lambda>(st, e).
     let st = clear_fields st;
         st = st\<lparr>name := message_block (buff st) 0, surname := message_block (buff st) 1\<rparr>;
         enc_username = message_block (buff st) 2;
         enc_password = message_block (buff st) 3
     in do {
       (present, e) \<leftarrow> is_serial_present (mysql_lib api) serialnumber e;
       if present \<noteq> 1 then Some (st, e)
       else
         (let st = st\<lparr>is_data_present := True\<rparr>;
              (aes, user, pass, ok) = decrypt_data (crypt api) (stack_context api) (aes_globals st)
                enc_username enc_password (username st) (password st);
              st = st\<lparr>aes_globals := aes, username := user, password := pass\<rparr>
          in do {
            s \<leftarrow> sendInfoNotification api (st, e);
            Some (start api (ascii ''START firefox https://www.portaleargo.it/argoweb/home.seam'') s) }) })"

text \<open>
  One turn of the endless loop. \<open>sn\<close> is the local array of the serial number, which keeps its contents from
  turn to turn.
\<close>

definition reader_turn ::
  "('e, 'b) desktop_scheme \<Rightarrow> bytes \<Rightarrow> ('a, 'e) rd \<Rightarrow> (bytes \<times> ('a, 'e) rd) option" where
  "reader_turn api sn = (\<lambda>(st, e).
     do {
       (st, e) \<leftarrow> send_keep_alive api (port st) (st, e);
       (r, st, e) \<leftarrow> receive_keep_alive api (port st) (st, e);
       if r \<noteq> SS_RECEIVED then Some (sn, st, e)
       else
         let st = st\<lparr>is_data_present := False\<rparr>
         in do {
           (valid, b, st, e) \<leftarrow> wait_message api (port st) TIMEOUT (buff st) (MAX_MESSAGE_LENGHT * 4 + 4) (st, e);
           let st = st\<lparr>buff := b\<rparr>
           in if valid \<noteq> 1 then Some (sn, st, e)
              else do {
                (sn, s) \<leftarrow> wait_serial_number api (port st) sn (st, e);
                s \<leftarrow> card_present api sn s;
                Some (sn, s) } } })"

text \<open>The loop ends when another thread has set the port to -1.\<close>

partial_function (option) reader_loop ::
  "('e, 'b) desktop_scheme \<Rightarrow> bytes \<Rightarrow> ('a, 'e) rd \<Rightarrow> ('a, 'e) rd option" where
  "reader_loop api sn s =
     (if port (fst s) \<noteq> -1 then Option.bind (reader_turn api sn s) (\<lambda>(sn, s). reader_loop api sn s)
      else Some s)"

definition start_rfid_reader ::
  "('e, 'b) desktop_scheme \<Rightarrow> bytes \<Rightarrow> bytes \<Rightarrow> ('a, 'e) rd \<Rightarrow> ('a, 'e) rd option" where
  "start_rfid_reader api OK sn s =
     do { (p, st, e) \<leftarrow> wait_for_device api OK s; reader_loop api sn (st\<lparr>port := p\<rparr>, e) }"

section \<open>What the server thread reads\<close>

text \<open>
  The four getters share one body. \<open>strlen\<close> beyond the array is \<open>None\<close>, and so is \<open>strcpy_s\<close> with a
  string that leaves no room for its NUL, which ends the program.
\<close>

definition get_field :: "('a reader_scheme \<Rightarrow> bytes) \<Rightarrow> 'a reader_scheme \<Rightarrow> bytes \<Rightarrow> (int \<times> bytes) option" where
  "get_field field st dest =
     (if is_data_present st then
        do { s \<leftarrow> c_str (field st);
             if length s > MAX_MESSAGE_LENGHT then Some (-1, dest)
             else if length s + 1 > MAX_MESSAGE_LENGHT then None
             else do { dest \<leftarrow> put_at dest 0 (s @ [0]); Some (int (length s), dest) } }
      else Some (-1, dest))"

definition get_name where "get_name = get_field name"
definition get_surname where "get_surname = get_field surname"
definition get_username where "get_username = get_field username"
definition get_password where "get_password = get_field password"

definition clean_data :: "'a reader_scheme \<Rightarrow> 'a reader_scheme" where
  "clean_data st = clear_fields st"

text \<open>The port is forgotten before it is closed.\<close>

definition close_rfid_reader :: "('e, 'b) desktop_scheme \<Rightarrow> ('a, 'e) rd \<Rightarrow> ('a, 'e) rd option" where
  "close_rfid_reader api = (\<lambda>(st, e).
     let st = st\<lparr>port := -1\<rparr> in RS232_CloseComport api (port st) (st, e))"

end
