(* ===== verification/Reader_Exchange.thy ===== *)
theory Reader_Exchange
  imports Card_Reader
begin

text \<open>
  What happens on the serial line between the board and the reader: the loops that fill a buffer collect
  exactly the bytes sent, however they are cut into reads, and a turn of the reader takes a whole
  message and a serial number from the line.
\<close>

section \<open>What is relied on of the serial line\<close>

text \<open>
  \<open>rest e\<close> is what the board has sent and the service has not yet read. A read takes the
  beginning of it, at least one byte if there is one. \<open>keep e\<close> is whatever else of the environment
  reads, writes and the clock leave alone.
\<close>

definition line_reads :: "('e, 'b) win32_scheme \<Rightarrow> ('e \<Rightarrow> bytes) \<Rightarrow> ('e \<Rightarrow> 'k) \<Rightarrow> bool" where
  "line_reads api rest keep \<longleftrightarrow>
     (\<forall>h n e bs e'. ReadFile api h n e = (bs, e') \<longrightarrow>
        length bs \<le> n \<and> rest e = bs @ rest e' \<and> (0 < n \<and> rest e \<noteq> [] \<longrightarrow> bs \<noteq> []) \<and> keep e' = keep e)"

definition serial_line :: "('e, 'b) host_scheme \<Rightarrow> ('e \<Rightarrow> bytes) \<Rightarrow> ('e \<Rightarrow> 'k) \<Rightarrow> bool" where
  "serial_line api rest keep \<longleftrightarrow>
     line_reads api rest keep \<and>
     (\<forall>e t e'. time api e = (t, e') \<longrightarrow> rest e' = rest e \<and> keep e' = keep e) \<and>
     (\<forall>h bs e ok n e'. WriteFile api h bs e = (ok, n, e') \<longrightarrow> rest e' = rest e \<and> keep e' = keep e)"

lemma line_reads_D:
  "line_reads api rest keep \<Longrightarrow> ReadFile api h n e = (bs, e') \<Longrightarrow>
     length bs \<le> n \<and> rest e = bs @ rest e' \<and> (0 < n \<and> rest e \<noteq> [] \<longrightarrow> bs \<noteq> []) \<and> keep e' = keep e"
  unfolding line_reads_def by blast

lemma serial_line_reads: "serial_line api rest keep \<Longrightarrow> line_reads api rest keep"
  by (simp add: serial_line_def)

lemma serial_line_D:
  assumes "serial_line api rest keep"
  shows "ReadFile api h n e = (bs, e') \<Longrightarrow>
      length bs \<le> n \<and> rest e = bs @ rest e' \<and> (0 < n \<and> rest e \<noteq> [] \<longrightarrow> bs \<noteq> []) \<and> keep e' = keep e"
    and "time api e = (t, e') \<Longrightarrow> rest e' = rest e \<and> keep e' = keep e"
    and "WriteFile api h bs e = (k, n, e') \<Longrightarrow> rest e' = rest e \<and> keep e' = keep e"
  using assms unfolding serial_line_def line_reads_def by blast+

text \<open>The clock during the exchange: the time-out does not pass while bytes of the board are still unread.\<close>

definition clock_within :: "('e, 'b) host_scheme \<Rightarrow> ('e \<Rightarrow> bytes) \<Rightarrow> int \<Rightarrow> bool" where
  "clock_within api rest t \<longleftrightarrow>
     (\<forall>e. t \<le> fst (time api e) \<and> (rest e \<noteq> [] \<longrightarrow> fst (time api e) < t + TIMEOUT))"

text \<open>
  \<open>left T e\<close> bounds the number of looks at the clock before it shows \<open>T\<close>. Reads store no more than they
  are asked to.
\<close>

definition clock_runs :: "('e, 'b) host_scheme \<Rightarrow> (int \<Rightarrow> 'e \<Rightarrow> nat) \<Rightarrow> bool" where
  "clock_runs api left \<longleftrightarrow>
     (\<forall>T e t e'. time api e = (t, e') \<and> t < T \<longrightarrow> left T e' < left T e) \<and>
     (\<forall>T h n e bs e'. ReadFile api h n e = (bs, e') \<longrightarrow> length bs \<le> n \<and> left T e' \<le> left T e)"

section \<open>Filling a buffer from the line\<close>

lemma poll_some:
  assumes "line_reads api rest keep" "port_handle st p = Some h" "rest e = M @ R" "M \<noteq> []"
  obtains bs e' M' where "RS232_PollComport api p (length M) (st, e) = Some (bs, st, e')"
    "M = bs @ M'" "bs \<noteq> []" "rest e' = M' @ R" "keep e' = keep e"
proof -
  obtain bs e' where r: "ReadFile api h (length M) e = (bs, e')" by fastforce
  note d = line_reads_D [OF assms(1) r]
  have "bs = take (length bs) M"
    using d assms(3) by (metis append_eq_append_conv_if append_take_drop_id)
  moreover have "rest e' = drop (length bs) M @ R"
    using d assms(3) by (metis append_eq_conv_conj drop_append diff_is_0_eq drop0)
  moreover have "bs \<noteq> []" using d assms(3,4) by auto
  moreover have "keep e' = keep e" using d by blast
  ultimately show ?thesis
    using r assms(2) by (intro that [of bs e' "drop (length bs) M"])
      (auto simp: RS232_PollComport_def, metis append_take_drop_id)
qed

lemma put_at_fill:
  assumes "n + length bs \<le> length mem"
  obtains mem' where "put_at mem n bs = Some mem'" "length mem' = length mem"
    "take (n + length bs) mem' = take n mem @ bs"
  using assms by (intro that [of "take n mem @ bs @ drop (n + length bs) mem"]) (simp_all add: put_at_def)

lemma message_loop_fills:
  assumes "serial_line api rest keep" "\<And>e. rest e \<noteq> [] \<Longrightarrow> fst (time api e) < T" "port_handle st p = Some h"
    and "rest e = M @ R" "received + length M = length mem"
  shows "\<exists>e'. message_loop api p T (length mem) mem received arrived (st, e) =
      Some (take received mem @ M, arrived \<or> M \<noteq> [], st, e') \<and> rest e' = R \<and> keep e' = keep e"
  using assms(4,5)
proof (induction "length M" arbitrary: M e mem received arrived rule: less_induct)
  case less
  obtain now e1 where t: "time api e = (now, e1)" by fastforce
  have now: "M \<noteq> [] \<Longrightarrow> now < T" "rest e1 = M @ R" "keep e1 = keep e"
    using assms(2) [of e] t serial_line_D(2) [OF assms(1) t] less.prems(1) by simp_all
  show ?case
  proof (cases "M = []")
    case True
    then show ?thesis
      using t now less.prems by (intro exI [of _ e1]) (simp add: message_loop.simps)
  next
    case False
    obtain bs e2 M' where b: "RS232_PollComport api p (length M) (st, e1) = Some (bs, st, e2)"
      "M = bs @ M'" "bs \<noteq> []" "rest e2 = M' @ R" "keep e2 = keep e1"
      by (rule poll_some [OF serial_line_reads [OF assms(1)] assms(3) now(2) False])
    obtain mem' where f: "put_at mem received bs = Some mem'" "length mem' = length mem"
      "take (received + length bs) mem' = take received mem @ bs"
      using put_at_fill [of received bs mem] b(2) less.prems(2) by auto
    have "received < length mem" "length mem - received = length M"
      using False less.prems(2) by (cases M, simp_all)
    then have "message_loop api p T (length mem) mem received arrived (st, e) =
        message_loop api p T (length mem') mem' (received + length bs) True (st, e2)"
      using t now(1) [OF False] b(1,3) f(1,2) by (subst message_loop.simps) simp
    moreover have "length M' < length M" "received + length bs + length M' = length mem'"
      using b(2,3) f(2) less.prems(2) by simp_all
    ultimately show ?thesis
      using less.hyps [of M' e2 "received + length bs" mem' True] b(2-5) f(3) now(3) by auto
  qed
qed

lemma serial_loop_fills:
  assumes "line_reads api rest keep" "port_handle st p = Some h"
    and "rest e = M @ R" "received + length M = 4" "length mem = 4"
  shows "\<exists>e'. serial_loop api p mem received (st, e) = Some (take received mem @ M, st, e') \<and> rest e' = R \<and> keep e' = keep e"
  using assms(3-5)
proof (induction "length M" arbitrary: M e mem received rule: less_induct)
  case less
  show ?case
  proof (cases "M = []")
    case True
    then show ?thesis
      using less.prems by (intro exI [of _ e]) (simp add: serial_loop.simps)
  next
    case False
    obtain bs e2 M' where b: "RS232_PollComport api p (length M) (st, e) = Some (bs, st, e2)"
      "M = bs @ M'" "bs \<noteq> []" "rest e2 = M' @ R" "keep e2 = keep e"
      by (rule poll_some [OF assms(1,2) less.prems(1) False])
    obtain mem' where f: "put_at mem received bs = Some mem'" "length mem' = length mem"
      "take (received + length bs) mem' = take received mem @ bs"
      using put_at_fill [of received bs mem] b(2) less.prems(2,3) by auto
    have "received < 4" "4 - received = length M"
      using False less.prems(2) by (cases M, simp_all)
    then have "serial_loop api p mem received (st, e) = serial_loop api p mem' (received + length bs) (st, e2)"
      using b(1) f(1) by (subst serial_loop.simps) simp
    moreover have "length M' < length M" "received + length bs + length M' = 4"
      using b(2,3) less.prems(2) by simp_all
    ultimately show ?thesis
      using less.hyps [of M' e2 "received + length bs" mem'] b(2,4,5) f(2,3) less.prems(3) by auto
  qed
qed

section \<open>Messages\<close>

text \<open>The message the board sends for a card: four blocks, each followed by its mark.\<close>

definition card_message :: "bytes \<Rightarrow> bytes \<Rightarrow> bytes \<Rightarrow> bytes \<Rightarrow> bytes" where
  "card_message n s u p = n @ [0x30] @ s @ [0x31] @ u @ [0x32] @ p @ [0x33]"

definition block :: "bytes \<Rightarrow> bool" where
  "block b \<longleftrightarrow> length b = MAX_MESSAGE_LENGHT"

lemma length_card_message:
  "block n \<Longrightarrow> block s \<Longrightarrow> block u \<Longrightarrow> block p \<Longrightarrow> length (card_message n s u p) = 260"
  by (simp add: card_message_def block_def)

lemma card_message_blocks:
  assumes "block n" "block s" "block u" "block p"
  shows "message_block (card_message n s u p) 0 = n" "message_block (card_message n s u p) (Suc 0) = s"
    "message_block (card_message n s u p) 2 = u" "message_block (card_message n s u p) 3 = p"
  using assms by (simp_all add: message_block_def card_message_def block_def)

text \<open>The four marks, as \<open>wait_message\<close> checks them.\<close>

definition marks_ok :: "bytes \<Rightarrow> bool" where
  "marks_ok b \<longleftrightarrow> b ! 64 = 0x30 \<and> b ! 129 = 0x31 \<and> b ! 194 = 0x32 \<and> b ! 259 = 0x33"

lemma card_message_marks:
  "block n \<Longrightarrow> block s \<Longrightarrow> block u \<Longrightarrow> block p \<Longrightarrow> marks_ok (card_message n s u p)"
  by (simp add: marks_ok_def card_message_def block_def nth_append)

lemma wait_message_decides:
  assumes "length b = 260"
    and "message_loop api p (now + timeout) 260 mem 0 False (st, e1) = Some (b, arrived, s)"
    and "time api e = (now, e1)"
  shows "wait_message api p timeout mem 260 (st, e) = Some (if arrived \<and> marks_ok b then 1 else 0, b, s)"
  using assms by (simp add: wait_message_def check_message_def marks_ok_def)

lemma wait_message_receives:
  assumes "serial_line api rest keep" "clock_within api rest t" "port_handle st p = Some h"
    and "rest e = M @ R" "length M = 260" "length mem = 260"
  shows "\<exists>e'. wait_message api p TIMEOUT mem 260 (st, e) = Some (if marks_ok M then 1 else 0, M, st, e') \<and> rest e' = R \<and> keep e' = keep e"
proof -
  obtain now e1 where n: "time api e = (now, e1)" by fastforce
  have "t \<le> now" using assms(2) n unfolding clock_within_def by (metis fst_conv)
  then have "fst (time api x) < now + TIMEOUT" if "rest x \<noteq> []" for x
    using assms(2) that unfolding clock_within_def by (metis add_right_mono order_less_le_trans)
  moreover have e1: "rest e1 = M @ R" "keep e1 = keep e" using serial_line_D(2) [OF assms(1) n] assms(4) by simp_all
  ultimately obtain e' where
    "message_loop api p (now + TIMEOUT) (length mem) mem 0 False (st, e1) = Some (M, M \<noteq> [], st, e')" "rest e' = R" "keep e' = keep e1"
    using message_loop_fills [OF assms(1) _ assms(3), of "now + TIMEOUT" e1 M R 0 mem False] assms(5,6) by auto
  then show ?thesis
    using wait_message_decides [OF assms(5) _ n, of p TIMEOUT mem st "M \<noteq> []" "(st, e')"] assms(5,6) e1 by auto
qed

section \<open>A turn of the reader\<close>

lemma cputs_sends:
  assumes "serial_line api rest keep" "port_handle st p = Some h" "0 \<notin> set cs"
  shows "\<exists>e'. RS232_cputs api p (cs @ [0]) (st, e) = Some (st, e') \<and> rest e' = rest e \<and> keep e' = keep e"
  using assms(3)
proof (induction cs arbitrary: e)
  case (Cons c cs)
  obtain k n e1 where w: "WriteFile api h [c] e = (k, n, e1)" by (metis prod.exhaust)
  then show ?case
    using Cons serial_line_D(3) [OF assms(1) w] assms(2) by (fastforce simp: RS232_SendByte_def)
qed simp

text \<open>When the two bytes of a signal have arrived, they are read together.\<close>

definition pairs_together :: "('e, 'b) host_scheme \<Rightarrow> ('e \<Rightarrow> bytes) \<Rightarrow> bool" where
  "pairs_together api rest \<longleftrightarrow> (\<forall>h e. 2 \<le> length (rest e) \<longrightarrow> length (fst (ReadFile api h 2 e)) = 2)"

lemma keep_alive_signal:
  assumes "serial_line api rest keep" "pairs_together api rest" "port_handle st p = Some h"
    and "rest e = ascii ''SS'' @ R" "length (response_buffer st) = 2"
  shows "\<exists>e'. receive_keep_alive api p (st, e) = Some (SS_RECEIVED, st\<lparr>response_buffer := [0, 0]\<rparr>, e') \<and>
    rest e' = R \<and> keep e' = keep e"
proof -
  obtain bs e' where r: "ReadFile api h 2 e = (bs, e')" by fastforce
  note d = serial_line_D(1) [OF assms(1) r]
  have "length bs = 2"
    using assms(2,4) r unfolding pairs_together_def by (metis fst_conv ascii_def length_append length_map le_add1 list.size(3,4) One_nat_def Suc_1 add_Suc_right plus_1_eq_Suc add_0_right)
  then have bs: "bs = [0x53, 0x53]" "rest e' = R"
    using d assms(4) by (auto simp: ascii_def append_eq_append_conv length_Suc_conv numeral_2_eq_2)
  then have "put_at (response_buffer st) 0 bs = Some [0x53, 0x53]"
    using put_at_0 [of bs "response_buffer st"] assms(5) by simp
  moreover have "RS232_PollComport api p 2 (st, e) = Some (bs, st, e')"
    using r assms(3) by (simp add: RS232_PollComport_def)
  moreover have "replicate 2 0 = [0, 0 :: u8]" by (simp add: numeral_2_eq_2)
  ultimately show ?thesis
    using bs d by (simp add: receive_keep_alive_def compare_keep_alive_def)
qed

lemma port_handle_update [simp]:
  "port_handle (st\<lparr>response_buffer := r\<rparr>) n = port_handle st n"
  "port_handle (st'\<lparr>is_data_present := d\<rparr>) n = port_handle st' n"
  "port_handle (st'\<lparr>buff := b\<rparr>) n = port_handle st' n"
  by (simp_all add: port_handle_def)

text \<open>A turn takes one signal, one message and one serial number from the line.\<close>

lemma turn_takes_message:
  assumes "serial_line api rest keep" "pairs_together api rest" "clock_within api rest t"
    and "port_handle st (port st) = Some h" "length (response_buffer st) = 2" "length (buff st) = 260" "length sn0 = 4"
    and "rest e = ascii ''SS'' @ M @ sn @ R" "length M = 260" "length sn = 4" "marks_ok M"
  defines "st' \<equiv> st\<lparr>response_buffer := [0, 0], is_data_present := False, buff := M\<rparr>"
  shows "\<exists>e'. reader_turn api sn0 (st, e) = do { s \<leftarrow> card_present api sn (st', e'); Some (sn, s) } \<and>
    rest e' = R \<and> keep e' = keep e"
proof -
  let ?st = "st\<lparr>response_buffer := [0, 0]\<rparr>"
  have "hey_message = ascii ''HEY!'' @ [0]" "0 \<notin> set (ascii ''HEY!'')"
    by (simp_all add: hey_message_def ascii_def)
  then obtain e1 where 1: "send_keep_alive api (port st) (st, e) = Some (st, e1)" "rest e1 = rest e" "keep e1 = keep e"
    using cputs_sends [OF assms(1,4), of "ascii ''HEY!''" e] by (auto simp: send_keep_alive_def)
  obtain e2 where 2: "receive_keep_alive api (port st) (st, e1) = Some (SS_RECEIVED, ?st, e2)"
    "rest e2 = M @ sn @ R" "keep e2 = keep e1"
    using keep_alive_signal [OF assms(1,2,4) _ assms(5), of e1 "M @ sn @ R"] 1(2) assms(8) by auto
  obtain e3 where 3: "wait_message api (port st) TIMEOUT (buff st) 260 (?st\<lparr>is_data_present := False\<rparr>, e2) =
      Some (1, M, ?st\<lparr>is_data_present := False\<rparr>, e3)" "rest e3 = sn @ R" "keep e3 = keep e2"
    using wait_message_receives [OF assms(1,3), of "?st\<lparr>is_data_present := False\<rparr>" "port st" h e2 M "sn @ R" "buff st"]
      assms(4,6,9,11) 2(2) by auto
  obtain e4 where 4: "wait_serial_number api (port st) sn0 (st', e3) = Some (sn, st', e4)" "rest e4 = R" "keep e4 = keep e3"
    using serial_loop_fills [OF serial_line_reads [OF assms(1)], of st' "port st" h e3 sn R 0 sn0] assms(4,7,10) 3(2)
    by (auto simp: wait_serial_number_def st'_def)
  show ?thesis
    using 1 2 3 4 by (intro exI [of _ e4]) (simp add: reader_turn_def st'_def)
qed

section \<open>Credentials from the card\<close>

text \<open>The service knows the credentials \<open>user\<close> and \<open>pass\<close> of an allowed card, or it knows nothing.\<close>

definition credentials_ready :: "bytes \<Rightarrow> bytes \<Rightarrow> 'a reader_scheme \<Rightarrow> bool" where
  "credentials_ready user pass st \<longleftrightarrow> is_data_present st \<and> username st = user \<and> password st = pass"

definition no_credentials :: "'a reader_scheme \<Rightarrow> bool" where
  "no_credentials st \<longleftrightarrow> \<not> is_data_present st \<and>
     username st = replicate MAX_MESSAGE_LENGHT 0 \<and> password st = replicate MAX_MESSAGE_LENGHT 0"

lemma notification_fits:
  assumes "c_str n = Some n'" "c_str s = Some s'" "block n" "length n' + length s' < MAX_MESSAGE_LENGHT"
    and "name st = n" "surname st = s"
  shows "\<exists>full. sendInfoNotification api (st, e) =
    Some (st\<lparr>name := full\<rparr>, Shell_NotifyIcon api (n' @ s') (ascii ''Tag detected! Starting Firefox...'') e)"
  using assms
  by (intro exI [of _ "take (length n') n @ s' @ 0 # drop (Suc (length n' + length s')) n"])
    (simp add: sendInfoNotification_def put_at_def sprintf_into_def block_def)

lemma card_present_spec:
  assumes "mysql_ok (mysql_lib api) cards answer conns" "serial_string sn = Some k"
    and "buff st = card_message n s u p" "block n" "block s" "block u" "block p" "\<not> is_data_present st"
    and "c_str n = Some n'" "c_str s = Some s'" "length n' + length s' < MAX_MESSAGE_LENGHT"
    and "aes_state_ok (aes_globals st)" "length (random_iv (crypt api)) = 16" "block user" "block pass"
    and "aes_state_ok st0" "length eu = 64" "length ep = 64" "length (buf ctx) = 68" "length (buf (stack_context api)) = 68"
    and "encrypt_data (crypt api) ctx st0 user pass eu ep = (st1, u, p, True)"
  shows "\<exists>st' e'. card_present api sn (st, e) = Some (st', e') \<and>
    (if k \<in> cards e \<and> is_data_present st' then credentials_ready user pass st' else no_credentials st') \<and>
    (mysql_up (mysql_lib api) \<and> k \<in> cards e \<longrightarrow> is_data_present st')"
proof -
  note blocks = card_message_blocks [OF assms(4-7)]
  obtain r e1 where r: "is_serial_present (mysql_lib api) sn e = Some (r, e1)" "r = -1 \<or> r = (if k \<in> cards e then 1 else 0)"
    using present_spec [OF assms(1,2), of e] by auto
  let ?st = "clear_fields st\<lparr>name := n, surname := s\<rparr>"
  have st: "buff (clear_fields st) = buff st" "username ?st = replicate 64 0" "password ?st = replicate 64 0"
    "aes_globals ?st = aes_globals st" "is_data_present ?st = is_data_present st"
    by (simp_all add: clear_fields_def)
  show ?thesis
  proof (cases "r = 1")
    case False
    then show ?thesis
      using r present_up [OF _ r(1)] blocks assms(3,8) st
      by (auto simp: card_present_def no_credentials_def numeral_2_eq_2 [symmetric])
  next
    case True
    let ?v = "?st\<lparr>is_data_present := True, aes_globals := init_tables (aes_globals st), username := user, password := pass\<rparr>"
    have "decrypt_data (crypt api) (stack_context api) (aes_globals st) u p (replicate 64 0) (replicate 64 0) =
        (init_tables (aes_globals st), user, pass, True)"
      unfolding decrypt_context [OF assms(12,20,19)]
      using decrypt_encrypt [OF assms(16,12,13) _ _ assms(17,18) _ _ assms(21), of "replicate 64 0" "replicate 64 0"]
        assms(14,15) by (simp add: block_def)
    moreover obtain full where "sendInfoNotification api (?v, e1) =
        Some (?v\<lparr>name := full\<rparr>, Shell_NotifyIcon api (n' @ s') (ascii ''Tag detected! Starting Firefox...'') e1)"
      using notification_fits [OF assms(9,10,4,11), of ?v api e1] by auto
    ultimately have "\<exists>e'. card_present api sn (st, e) = Some (?v\<lparr>name := full\<rparr>, e')"
      using True r(1) blocks assms(3) st by (simp add: card_present_def start_def)
    moreover have "credentials_ready user pass (?v\<lparr>name := full\<rparr>)" by (simp add: credentials_ready_def)
    moreover have "k \<in> cards e" using True r(2) by (auto split: if_splits)
    ultimately show ?thesis by (auto simp: credentials_ready_def)
  qed
qed

section \<open>A card is read\<close>

text \<open>
  The service waits for a card: it has an open port, and its buffers have the lengths of their
  declarations.
\<close>

definition reader_waits :: "'a reader_scheme \<Rightarrow> bool" where
  "reader_waits st \<longleftrightarrow> port_handle st (port st) \<noteq> None \<and> length (response_buffer st) = 2 \<and>
     length (buff st) = 260 \<and> aes_state_ok (aes_globals st)"

text \<open>The four blocks of a card that \<open>encrypt_data\<close> has enciphered the credentials for, in some state of the writing program.\<close>

definition card_holds :: "crypt_h \<Rightarrow> bytes \<Rightarrow> bytes \<Rightarrow> bytes \<Rightarrow> bytes \<Rightarrow> bytes \<Rightarrow> bytes \<Rightarrow> bool" where
  "card_holds cr n s u p user pass \<longleftrightarrow>
     block n \<and> block s \<and> block user \<and> block pass \<and>
     (\<exists>n' s'. c_str n = Some n' \<and> c_str s = Some s' \<and> length n' + length s' < MAX_MESSAGE_LENGHT) \<and>
     (\<exists>ctx st0 st1 eu ep. aes_state_ok st0 \<and> length (buf ctx) = 68 \<and> length eu = 64 \<and> length ep = 64 \<and>
        encrypt_data cr ctx st0 user pass eu ep = (st1, u, p, True))"

lemma card_turn:
  assumes "serial_line api rest cards" "pairs_together api rest" "clock_within api rest t"
    and "mysql_ok (mysql_lib api) cards answer conns" "mysql_up (mysql_lib api)"
    and "length (random_iv (crypt api)) = 16" "length (buf (stack_context api)) = 68"
    and "reader_waits st" "length sn0 = 4"
    and "card_holds (crypt api) n s u p user pass"
    and "rest e = ascii ''SS'' @ card_message n s u p @ sn @ R" "length sn = 4" "serial_string sn = Some k"
  shows "\<exists>st' e'. reader_turn api sn0 (st, e) = Some (sn, st', e') \<and>
    (if k \<in> cards e then credentials_ready user pass st' else no_credentials st')"
proof -
  obtain h where h: "port_handle st (port st) = Some h" using assms(8) by (auto simp: reader_waits_def)
  obtain n' s' where c: "c_str n = Some n'" "c_str s = Some s'" "length n' + length s' < 64"
    and b: "block n" "block s" "block user" "block pass"
    using assms(10) by (auto simp: card_holds_def)
  obtain ctx st0 st1 eu ep where enc: "aes_state_ok st0" "length (buf ctx) = 68" "length eu = 64" "length ep = 64"
    "encrypt_data (crypt api) ctx st0 user pass eu ep = (st1, u, p, True)"
    using assms(10) by (auto simp: card_holds_def)
  have "block u" "block p"
    using decrypt_encrypt [OF enc(1,1) assms(6) _ _ enc(3,4) _ _ enc(5), of "replicate 64 0" "replicate 64 0"] b
    by (simp_all add: block_def)
  note M = length_card_message [OF b(1,2) this] card_message_marks [OF b(1,2) this]
  let ?st = "st\<lparr>response_buffer := [0, 0], is_data_present := False, buff := card_message n s u p\<rparr>"
  obtain e' where t: "reader_turn api sn0 (st, e) = do { s \<leftarrow> card_present api sn (?st, e'); Some (sn, s) }"
    "cards e' = cards e"
    using turn_takes_message [OF assms(1-3) h _ _ assms(9,11) M(1) assms(12) M(2)] assms(8)
    by (auto simp: reader_waits_def)
  obtain st' e2 where "card_present api sn (?st, e') = Some (st', e2)"
    "if k \<in> cards e' \<and> is_data_present st' then credentials_ready user pass st' else no_credentials st'"
    "mysql_up (mysql_lib api) \<and> k \<in> cards e' \<longrightarrow> is_data_present st'"
    using card_present_spec [OF assms(4,13) _ b(1,2) \<open>block u\<close> \<open>block p\<close> _ c(1-3) _ assms(6) b(3,4) enc(1,3,4,2) assms(7) enc(5),
        of ?st e'] assms(8)
    by (auto simp: reader_waits_def)
  then show ?thesis
    using t assms(5) by (intro exI [of _ st'] exI [of _ e2]) auto
qed

end
