(* ===== verification/Reader_Safety.thy ===== *)
theory Reader_Safety
  imports Reader_Exchange
begin

text \<open>
  The reader in an arbitrary environment: whatever the serial line, the clock and the database do,
  which states a turn can end in.
\<close>

section \<open>What each step leaves alone\<close>

lemma poll_frame:
  "RS232_PollComport api p k (st, e) = Some (bs, st', e') \<Longrightarrow> st' = st"
  by (auto simp: RS232_PollComport_def split: Option.bind_splits prod.splits)

lemma cputs_frame: "RS232_cputs api p cs (st, e) = Some (st', e') \<Longrightarrow> st' = st"
  by (induction cs arbitrary: e)
    (auto simp: RS232_SendByte_def split: if_splits Option.bind_splits prod.splits)

lemma receive_frame:
  assumes "receive_keep_alive api p (st, e) = Some (r, st', e')"
  shows "st' = st\<lparr>response_buffer := [0, 0]\<rparr>"
proof -
  obtain bs v x where "RS232_PollComport api p 2 (st, e) = Some (bs, v, x)"
    using assms by (auto simp: receive_keep_alive_def split: Option.bind_splits)
  then show ?thesis
    using assms poll_frame [of api p 2 st e bs v x]
    by (auto simp: receive_keep_alive_def Let_def numeral_2_eq_2 split: Option.bind_splits)
qed

lemma message_loop_frame:
  assumes "message_loop api p T n mem k arrived s = Some r"
  shows "fst (snd (snd r)) = fst s \<and> length (fst r) = length mem"
proof (rule message_loop.raw_induct
    [where P = "\<lambda>api p T n mem k arrived s r. fst (snd (snd r)) = fst s \<and> length (fst r) = length mem", OF _ assms],
    goal_cases)
  case (1 loop api p T n mem k arrived s r)
  obtain now e where t: "time api (snd s) = (now, e)" by fastforce
  show ?case
  proof (cases "now < T \<and> k < n")
    case False
    then show ?thesis using 1(2) t by auto
  next
    case True
    then obtain bs v x m where "RS232_PollComport api p (n - k) (fst s, e) = Some (bs, v, x)" "put_at mem k bs = Some m"
      "loop api p T n m (k + length bs) (arrived \<or> bs \<noteq> []) (v, x) = Some r"
      using 1(2) t by (auto split: Option.bind_splits)
    then show ?thesis
      using 1(1) poll_frame put_at_SomeD by (metis fst_conv)
  qed
qed

text \<open>However the loop ends, it has put the bytes it read behind those already there, and left the rest of the buffer as it was.\<close>

lemma message_loop_reads:
  assumes "message_loop api p T n mem k arrived s = Some r"
    and "serial_line api rest keep" "n = length mem" "k \<le> length mem"
  shows "\<exists>Q e'. r = (take k mem @ Q @ drop (k + length Q) mem, arrived \<or> Q \<noteq> [], fst s, e') \<and>
    rest (snd s) = Q @ rest e' \<and> k + length Q \<le> length mem"
proof (rule message_loop.raw_induct
    [where P = "\<lambda>api p T n mem k arrived s r. serial_line api rest keep \<longrightarrow> n = length mem \<longrightarrow> k \<le> length mem \<longrightarrow>
      (\<exists>Q e'. r = (take k mem @ Q @ drop (k + length Q) mem, arrived \<or> Q \<noteq> [], fst s, e') \<and>
        rest (snd s) = Q @ rest e' \<and> k + length Q \<le> length mem)", OF _ assms(1), rule_format], goal_cases)
  case (1 loop api p T n mem k arrived s r)
  obtain now e where t: "time api (snd s) = (now, e)" by fastforce
  have e: "rest e = rest (snd s)" using serial_line_D(2) [OF 1(3) t] by simp
  show ?case
  proof (cases "now < T \<and> k < n")
    case False
    then have "r = (take k mem @ [] @ drop (k + length ([] :: bytes)) mem, arrived \<or> ([] :: bytes) \<noteq> [], fst s, e)"
      using 1(2) t by auto
    then show ?thesis using 1(5) e by (intro exI [of _ "[]"] exI [of _ e]) simp
  next
    case True
    then obtain bs v x m where 2: "RS232_PollComport api p (n - k) (fst s, e) = Some (bs, v, x)" "put_at mem k bs = Some m"
      "loop api p T n m (k + length bs) (arrived \<or> bs \<noteq> []) (v, x) = Some r"
      using 1(2) t by (auto split: Option.bind_splits)
    obtain h where "port_handle (fst s) p = Some h" "ReadFile api h (n - k) e = (bs, x)"
      using 2(1) by (auto simp: RS232_PollComport_def split: Option.bind_splits prod.splits)
    then have x: "rest e = bs @ rest x" "length bs \<le> n - k"
      using serial_line_D(1) [OF 1(3)] by blast+
    have m: "length m = length mem" "take (k + length bs) m = take k mem @ bs" "k + length bs \<le> length m"
      "drop (k + length bs) m = drop (k + length bs) mem"
      using 2(2) 1(5) by (auto simp: put_at_def split: if_splits)
    obtain Q e' where q: "r = (take (k + length bs) m @ Q @ drop (k + length bs + length Q) m,
        (arrived \<or> bs \<noteq> []) \<or> Q \<noteq> [], fst (v, x), e')"
      "rest (snd (v, x)) = Q @ rest e'" "k + length bs + length Q \<le> length m"
      using 1(1) [OF 2(3), rule_format, OF 1(3)] m 1(4) by auto
    have "drop (k + length bs + length Q) m = drop (k + length (bs @ Q)) mem"
      using m(4) by (metis drop_drop add.commute add.assoc length_append)
    moreover have "v = fst s" using poll_frame [OF 2(1)] by simp
    ultimately show ?thesis
      using q m e x by (intro exI [of _ "bs @ Q"] exI [of _ e']) (auto simp: add.assoc)
  qed
qed (use assms(2-4) in simp_all)

lemma serial_loop_frame:
  assumes "serial_loop api p mem k s = Some r"
  shows "fst (snd r) = fst s \<and> length (fst r) = length mem"
proof (rule serial_loop.raw_induct
    [where P = "\<lambda>api p mem k s r. fst (snd r) = fst s \<and> length (fst r) = length mem", OF _ assms], goal_cases)
  case (1 loop api p mem k s r)
  show ?case
  proof (cases "k < 4")
    case False
    then show ?thesis using 1(2) by auto
  next
    case True
    then obtain bs v x m where "RS232_PollComport api p (4 - k) s = Some (bs, v, x)" "put_at mem k bs = Some m"
      "loop api p m (k + length bs) (v, x) = Some r"
      using 1(2) by (auto split: Option.bind_splits)
    then show ?thesis
      using 1(1) poll_frame [of api p "4 - k" "fst s" "snd s" bs v x] put_at_SomeD by (metis fst_conv prod.collapse)
  qed
qed

text \<open>When the wait for the serial number ends, the four bytes are the next ones of the line.\<close>

lemma serial_loop_reads:
  assumes "serial_loop api p mem k s = Some r"
    and "serial_line api rest keep" "length mem = 4" "k \<le> 4"
  shows "\<exists>Q e'. r = (take k mem @ Q, fst s, e') \<and> rest (snd s) = Q @ rest e' \<and> k + length Q = 4"
proof (rule serial_loop.raw_induct
    [where P = "\<lambda>api p mem k s r. serial_line api rest keep \<longrightarrow> length mem = 4 \<longrightarrow> k \<le> 4 \<longrightarrow>
      (\<exists>Q e'. r = (take k mem @ Q, fst s, e') \<and> rest (snd s) = Q @ rest e' \<and> k + length Q = 4)", OF _ assms(1), rule_format],
    goal_cases)
  case (1 loop api p mem k s r)
  show ?case
  proof (cases "k < 4")
    case False
    then show ?thesis using 1(2,4,5) by (intro exI [of _ "[]"] exI [of _ "snd s"]) auto
  next
    case True
    then obtain bs v x m where 2: "RS232_PollComport api p (4 - k) (fst s, snd s) = Some (bs, v, x)" "put_at mem k bs = Some m"
      "loop api p m (k + length bs) (v, x) = Some r"
      using 1(2) by (auto split: Option.bind_splits)
    obtain h where "ReadFile api h (4 - k) (snd s) = (bs, x)"
      using 2(1) by (auto simp: RS232_PollComport_def split: Option.bind_splits prod.splits)
    then have x: "rest (snd s) = bs @ rest x" using serial_line_D(1) [OF 1(3)] by blast
    have m: "length m = 4" "take (k + length bs) m = take k mem @ bs" "k + length bs \<le> 4"
      using 2(2) 1(4,5) by (auto simp: put_at_def split: if_splits)
    obtain Q e' where q: "r = (take (k + length bs) m @ Q, v, e')" "rest x = Q @ rest e'" "k + length bs + length Q = 4"
      using 1(1) [OF 2(3), rule_format, OF 1(3) m(1,3)] by auto
    moreover have "v = fst s" using poll_frame [OF 2(1)] by simp
    ultimately show ?thesis
      using m x by (intro exI [of _ "bs @ Q"] exI [of _ e']) (auto simp: add.assoc)
  qed
qed (use assms(2-4) in simp_all)

lemma wait_serial_reads:
  assumes "wait_serial_number api p mem (st, e) = Some (sn, st', e')" "serial_line api rest keep" "length mem = 4"
  shows "st' = st" "rest e = sn @ rest e'" "length sn = 4"
  using serial_loop_reads [OF assms(1) [unfolded wait_serial_number_def] assms(2,3)] by auto

text \<open>When \<open>wait_message\<close> takes a message for valid, something has come, and stands in front of what the buffer held.\<close>

lemma wait_message_reads:
  assumes "wait_message api p timeout mem 260 (st, e) = Some (1, b, st', e')" "serial_line api rest keep" "length mem = 260"
  shows "\<exists>M. M \<noteq> [] \<and> rest e = M @ rest e' \<and> b = M @ drop (length M) mem"
proof -
  obtain now e1 where t: "time api e = (now, e1)" by fastforce
  obtain b1 a v x where l: "message_loop api p (now + timeout) 260 mem 0 False (st, e1) = Some (b1, a, v, x)"
    using assms(1) t by (auto simp: wait_message_def split: Option.bind_splits)
  have "length b1 = 260" using message_loop_frame [OF l] assms(3) by simp
  then have "a" "b = b1" "e' = x" using wait_message_decides [OF _ l t] assms(1) by (auto split: if_splits)
  moreover have "rest e1 = rest e" using serial_line_D(2) [OF assms(2) t] by simp
  ultimately show ?thesis using message_loop_reads [OF l assms(2)] assms(3) by auto
qed

lemma wait_message_frame:
  assumes "wait_message api p timeout mem 260 (st, e) = Some (r, b, st', e')" "length mem = 260"
  shows "st' = st" "length b = 260" "r = 1 \<Longrightarrow> marks_ok b"
proof -
  obtain now e1 where t: "time api e = (now, e1)" by fastforce
  obtain b1 a v x where l: "message_loop api p (now + timeout) 260 mem 0 False (st, e1) = Some (b1, a, v, x)"
    using assms(1) t by (auto simp: wait_message_def split: Option.bind_splits)
  note f = message_loop_frame [OF l]
  have "wait_message api p timeout mem 260 (st, e) = Some (if a \<and> marks_ok b1 then 1 else 0, b1, v, x)"
    using f assms(2) by (intro wait_message_decides [OF _ l t]) simp
  then show "st' = st" "length b = 260" "r = 1 \<Longrightarrow> marks_ok b"
    using assms f by (auto split: if_splits)
qed

section \<open>A turn\<close>

abbreviation (input) zeros :: bytes where "zeros \<equiv> replicate MAX_MESSAGE_LENGHT 0"

text \<open>
  The credentials of \<open>st'\<close> are what the last two blocks of its message decipher to, with the tables \<open>aes\<close> of the cipher.
\<close>

definition deciphered :: "('e, 'b) desktop_scheme \<Rightarrow> aes_state \<Rightarrow> 'a reader_scheme \<Rightarrow> bool" where
  "deciphered api aes st' \<longleftrightarrow> (\<exists>aes' ok. decrypt_data (crypt api) (stack_context api) aes
     (message_block (buff st') 2) (message_block (buff st') 3) zeros zeros = (aes', username st', password st', ok))"

lemma notification_frame:
  "sendInfoNotification api (st, e) = Some (st', e') \<Longrightarrow> \<exists>full. st' = st\<lparr>name := full\<rparr>"
  by (auto simp: sendInfoNotification_def split: Option.bind_splits)

text \<open>Credentials are on offer afterwards only when the database has the very serial number, asked in the state the environment is in.\<close>

lemma card_present_frame:
  assumes "card_present api sn (st, e) = Some (st', e')" "\<not> is_data_present st"
  shows "buff st' = buff st"
    "is_data_present st' \<Longrightarrow> (\<exists>e1. is_serial_present (mysql_lib api) sn e = Some (1, e1)) \<and> deciphered api (aes_globals st) st'"
proof -
  let ?st = "clear_fields st\<lparr>name := message_block (buff (clear_fields st)) 0, surname := message_block (buff (clear_fields st)) 1\<rparr>"
  have st: "buff (clear_fields st) = buff st" "username ?st = zeros" "password ?st = zeros" "aes_globals ?st = aes_globals st"
    "is_data_present ?st = is_data_present st"
    by (simp_all add: clear_fields_def)
  obtain r e1 where r: "is_serial_present (mysql_lib api) sn e = Some (r, e1)"
    using assms(1) by (auto simp: card_present_def Let_def split: Option.bind_splits)
  obtain aes user pass ok where d: "decrypt_data (crypt api) (stack_context api) (aes_globals st)
      (message_block (buff st) 2) (message_block (buff st) 3) zeros zeros = (aes, user, pass, ok)"
    by (metis prod.exhaust)
  let ?v = "?st\<lparr>is_data_present := True, aes_globals := aes, username := user, password := pass\<rparr>"
  have "st' = ?st \<or> r = 1 \<and> (\<exists>full. st' = ?v\<lparr>name := full\<rparr>)"
    using assms(1) r d st notification_frame [of api ?v e1]
    by (auto simp: card_present_def start_def Let_def split: Option.bind_splits if_splits)
  then show "buff st' = buff st"
    "is_data_present st' \<Longrightarrow> (\<exists>e1. is_serial_present (mysql_lib api) sn e = Some (1, e1)) \<and> deciphered api (aes_globals st) st'"
    using r d st assms(2) unfolding deciphered_def by (auto simp del: of_nat_1)
qed

text \<open>
  The turn from \<open>(sn0, st0, e0)\<close> to \<open>(sn', st', e')\<close> reads a card: the environment goes through the states \<open>x1\<close>, \<dots>, \<open>x5\<close>
  while the board signals a message, the message comes with its four marks, the serial number is taken from
  the line behind it, and the database, asked next for that number, has it.
\<close>

definition heard :: "'a reader_scheme \<Rightarrow> 'a reader_scheme" where
  "heard st = st\<lparr>response_buffer := [0, 0], is_data_present := False\<rparr>"

definition card_read ::
  "('e, 'b) desktop_scheme \<Rightarrow> ('e \<Rightarrow> bytes) \<Rightarrow> bytes \<times> ('a, 'e) rd \<Rightarrow> bytes \<times> ('a, 'e) rd \<Rightarrow> bool" where
  "card_read api rest = (\<lambda>(sn0, st0, e0) (sn', st', e').
     reader_turn api sn0 (st0, e0) = Some (sn', st', e') \<and>
     (\<exists>x1 x2 x3 x4 x5 M.
        send_keep_alive api (port st0) (st0, e0) = Some (st0, x1) \<and>
        receive_keep_alive api (port st0) (st0, x1) = Some (SS_RECEIVED, st0\<lparr>response_buffer := [0, 0]\<rparr>, x2) \<and>
        wait_message api (port st0) TIMEOUT (buff st0) 260 (heard st0, x2) = Some (1, buff st', heard st0, x3) \<and>
        M \<noteq> [] \<and> rest x2 = M @ rest x3 \<and> buff st' = M @ drop (length M) (buff st0) \<and> marks_ok (buff st') \<and>
        wait_serial_number api (port st0) sn0 (heard st0\<lparr>buff := buff st'\<rparr>, x3) = Some (sn', heard st0\<lparr>buff := buff st'\<rparr>, x4) \<and>
        length sn' = 4 \<and> rest x3 = sn' @ rest x4 \<and>
        is_serial_present (mysql_lib api) sn' x4 = Some (1, x5)) \<and>
     deciphered api (aes_globals st0) st')"

text \<open>How a turn ends: nothing was sent, a message that is not whole came, or a card.\<close>

lemma turn_ends:
  assumes "reader_turn api sn (st, e) = Some (sn', st', e')" "length (buff st) = 260"
  obtains (none) "st' = st\<lparr>response_buffer := [0, 0]\<rparr>" "sn' = sn"
    | (bad) b where "st' = heard st\<lparr>buff := b\<rparr>" "length b = 260" "sn' = sn"
    | (card) b x1 x2 x3 x4 where "send_keep_alive api (port st) (st, e) = Some (st, x1)"
        "receive_keep_alive api (port st) (st, x1) = Some (SS_RECEIVED, st\<lparr>response_buffer := [0, 0]\<rparr>, x2)"
        "wait_message api (port st) TIMEOUT (buff st) 260 (heard st, x2) = Some (1, b, heard st, x3)"
        "wait_serial_number api (port st) sn (heard st\<lparr>buff := b\<rparr>, x3) = Some (sn', heard st\<lparr>buff := b\<rparr>, x4)"
        "card_present api sn' (heard st\<lparr>buff := b\<rparr>, x4) = Some (st', e')" "length b = 260" "marks_ok b"
proof -
  obtain st1 x1 where 1: "send_keep_alive api (port st) (st, e) = Some (st1, x1)"
    using assms(1) by (auto simp: reader_turn_def split: Option.bind_splits)
  have st1: "st1 = st" using cputs_frame 1 unfolding send_keep_alive_def by metis
  obtain r st2 x2 where 2: "receive_keep_alive api (port st) (st, x1) = Some (r, st2, x2)"
    using assms(1) 1 st1 by (auto simp: reader_turn_def split: Option.bind_splits)
  note st2 = receive_frame [OF 2]
  show ?thesis
  proof (cases "r = SS_RECEIVED")
    case False
    then show ?thesis using assms 1 2 st1 st2 none by (auto simp: reader_turn_def)
  next
    case True
    have h: "st2\<lparr>is_data_present := False\<rparr> = heard st" "port st2 = port st" "buff st2 = buff st" "port (heard st) = port st"
      using st2 by (simp_all add: heard_def)
    obtain v b st3 x3 where 3: "wait_message api (port st) TIMEOUT (buff st) 260 (heard st, x2) = Some (v, b, st3, x3)"
      using assms(1) 1 2 st1 True h by (auto simp: reader_turn_def split: Option.bind_splits)
    note b = wait_message_frame [OF 3 assms(2)]
    show ?thesis
    proof (cases "v = 1")
      case False
      then have "st' = heard st\<lparr>buff := b\<rparr>" "sn' = sn" using assms(1) 1 2 3 st1 True b(1) h by (auto simp: reader_turn_def)
      then show ?thesis using bad b(2) by simp
    next
      case v: True
      obtain sn1 st4 x4 where 4: "wait_serial_number api (port st) sn (heard st\<lparr>buff := b\<rparr>, x3) = Some (sn1, st4, x4)"
        using assms(1) 1 2 3 st1 True v b(1) h by (auto simp: reader_turn_def split: Option.bind_splits)
      have st4: "st4 = heard st\<lparr>buff := b\<rparr>" using serial_loop_frame 4 unfolding wait_serial_number_def by fastforce
      have "card_present api sn1 (heard st\<lparr>buff := b\<rparr>, x4) = Some (st', e')" "sn' = sn1"
        using assms(1) 1 2 3 4 st1 True v b(1) st4 h by (auto simp: reader_turn_def split: Option.bind_splits)
      then show ?thesis using card [of x1 x2 b x3 x4] 1 2 3 4 b v st1 st2 st4 True by simp
    qed
  qed
qed

text \<open>A turn keeps what the service knows, or forgets it, or reads a card.\<close>

lemma turn_reads_card:
  assumes "reader_turn api sn (st, e) = Some (sn', st', e')" "length (buff st) = 260" "length sn = 4"
    and "serial_line api rest keep"
  shows "length (buff st') = 260 \<and> length sn' = 4 \<and> (is_data_present st' \<longrightarrow>
    sn' = sn \<and> buff st' = buff st \<and> username st' = username st \<and> password st' = password st \<and> is_data_present st \<or>
    card_read api rest (sn, st, e) (sn', st', e'))"
  using assms(1,2)
proof (cases rule: turn_ends)
  case (card b x1 x2 x3 x4)
  have d: "\<not> is_data_present (heard st\<lparr>buff := b\<rparr>)" by (simp add: heard_def)
  note f = card_present_frame [OF card(5) d]
  note s = wait_serial_reads [OF card(4) assms(4,3)]
  obtain M where M: "M \<noteq> []" "rest x2 = M @ rest x3" "b = M @ drop (length M) (buff st)"
    using wait_message_reads [OF card(3) assms(4,2)] by blast
  have "card_read api rest (sn, st, e) (sn', st', e')" if p: "is_data_present st'"
  proof -
    obtain x5 where "is_serial_present (mysql_lib api) sn' x4 = Some (1, x5)" "deciphered api (aes_globals st) st'"
      using f(2) [OF p] by (auto simp: heard_def)
    moreover have "buff st' = b" using f(1) by simp
    ultimately show ?thesis
      unfolding card_read_def prod.case using assms(1) card M s
      by (intro conjI exI [of _ x1] exI [of _ x2] exI [of _ x3] exI [of _ x4] exI [of _ x5] exI [of _ M]) simp_all
  qed
  then show ?thesis using f(1) s(3) card(6) by simp
qed (simp_all add: assms(2,3) heard_def)

section \<open>Runs of the service\<close>

text \<open>
  Turns of the reader, interleaved with \<open>clean_data\<close> of another thread. The state holds the serial number of
  the last turn.
\<close>

inductive reader_step ::
  "('e, 'b) desktop_scheme \<Rightarrow> bytes \<times> ('a, 'e) rd \<Rightarrow> bytes \<times> ('a, 'e) rd \<Rightarrow> bool" for api where
  turn: "port (fst s) \<noteq> -1 \<Longrightarrow> reader_turn api sn s = Some (sn', s') \<Longrightarrow> reader_step api (sn, s) (sn', s')"
| clean: "reader_step api (sn, st, e) (sn, clean_data st, e)"

inductive_cases reader_stepE: "reader_step api s s'"

text \<open>What is on offer is what one card brought that the run has read, or has been wiped since.\<close>

definition from_card ::
  "('e, 'b) desktop_scheme \<Rightarrow> ('e \<Rightarrow> bytes) \<Rightarrow> bytes \<times> ('a, 'e) rd \<Rightarrow> bytes \<times> ('a, 'e) rd \<Rightarrow> bool" where
  "from_card api rest s s' \<longleftrightarrow> (\<exists>s0 st1 e1.
     (reader_step api)\<^sup>*\<^sup>* s s0 \<and> port (fst (snd s0)) \<noteq> -1 \<and> card_read api rest s0 (fst s', st1, e1) \<and>
     (reader_step api)\<^sup>*\<^sup>* (fst s', st1, e1) s' \<and> buff (fst (snd s')) = buff st1 \<and>
     (username (fst (snd s')) = username st1 \<and> password (fst (snd s')) = password st1 \<or>
      username (fst (snd s')) = zeros \<and> password (fst (snd s')) = zeros))"

lemma from_card_step:
  assumes "from_card api rest s s'" "reader_step api s' s''" "fst s'' = fst s'" "buff (fst (snd s'')) = buff (fst (snd s'))"
    and "username (fst (snd s'')) = username (fst (snd s')) \<and> password (fst (snd s'')) = password (fst (snd s')) \<or>
      username (fst (snd s'')) = zeros \<and> password (fst (snd s'')) = zeros"
  shows "from_card api rest s s''"
  using assms rtranclp.rtrancl_into_rtrancl [of "reader_step api" _ s' s''] unfolding from_card_def by metis

lemma reader_run_from_card:
  assumes "(reader_step api)\<^sup>*\<^sup>* s s'" "serial_line api rest keep"
    and "length (fst s) = 4" "length (buff (fst (snd s))) = 260" "\<not> is_data_present (fst (snd s))"
  shows "length (fst s') = 4 \<and> length (buff (fst (snd s'))) = 260 \<and> (is_data_present (fst (snd s')) \<longrightarrow> from_card api rest s s')"
  using assms(1)
proof (induction rule: rtranclp_induct)
  case base
  then show ?case using assms(3-5) by simp
next
  case (step s' s'')
  from step(2) show ?case
  proof (cases rule: reader_step.cases)
    case (turn s1 sn sn' s1')
    obtain st e st' e' where s: "s1 = (st, e)" "s1' = (st', e')" by (metis prod.exhaust)
    have t: "reader_turn api sn (st, e) = Some (sn', st', e')" "port st \<noteq> -1" using turn s by simp_all
    have l: "length (buff st) = 260" "length sn = 4" using step(3) turn(1) s by simp_all
    note c = turn_reads_card [OF t(1) l assms(2)]
    have "from_card api rest s s''" if p: "is_data_present st'"
    proof (cases "card_read api rest (sn, st, e) (sn', st', e')")
      case True
      then show ?thesis
        using step(1) turn(1,2) s t(2) unfolding from_card_def
        by (intro exI [of _ "(sn, st, e)"] exI [of _ st'] exI [of _ e']) simp
    next
      case False
      then show ?thesis
        using c p step(3) turn(1,2) s by (intro from_card_step [OF _ step(2)]) auto
    qed
    then show ?thesis using c turn(2) s by simp
  next
    case (clean sn st e)
    have "from_card api rest s s''" if "is_data_present st"
      using that step(3) clean by (intro from_card_step [OF _ step(2)]) (auto simp: clean_data_def clear_fields_def)
    then show ?thesis using step(3) clean by (simp add: clean_data_def clear_fields_def)
  qed
qed

end
