(* ===== verification/Reader_Demo.thy ===== *)
theory Reader_Demo
  imports Reader_Safety
begin

text \<open>
  A computer, a board and a database to apply the properties of the reader to. The functions of the
  interfaces are given by concrete ones, which meet what the properties rely on.
\<close>

section \<open>The environment\<close>

text \<open>
  The bytes the board has sent, the time, the strings in the database, the answer to the last query, the
  number of open connections, and the log of notifications and commands.
\<close>

record demo_env =
  line :: bytes
  clock :: nat
  db_cards :: "bytes list"
  db_answer :: "bytes list"
  db_open :: int
  shell_log :: "bytes list"

definition demo_sql :: "bytes \<Rightarrow> 'a demo_env_scheme \<Rightarrow> bool \<times> 'a demo_env_scheme" where
  "demo_sql q e =
     (let s = drop 46 (take (length q - 2) q)
      in if q = insert_query s then (False, e\<lparr>db_cards := s # db_cards e\<rparr>)
         else (False, e\<lparr>db_answer := filter (\<lambda>s. q = select_query s) (db_cards e)\<rparr>))"

definition demo_mysql :: "'a demo_env_scheme mysql" where
  "demo_mysql = \<lparr>mysql_init = (\<lambda>e. (True, e\<lparr>db_open := db_open e + 1\<rparr>)), mysql_real_connect = (\<lambda>h u p d e. (True, e)),
     mysql_query = demo_sql, mysql_store_result = (\<lambda>e. (Some (db_answer e), e)),
     mysql_close = (\<lambda>e. e\<lparr>db_open := db_open e - 1\<rparr>)\<rparr>"

definition demo_crypt :: crypt_h where
  "demo_crypt = \<lparr>static_key = replicate 16 9, random_iv = replicate 16 4\<rparr>"

definition demo_desktop :: "demo_env desktop" where
  "demo_desktop = \<lparr>CreateFileA = (\<lambda>f e. (5, e)), BuildCommDCBA = (\<lambda>s e. (Some [], e)), SetCommState = (\<lambda>h d e. (True, e)),
     SetCommTimeouts = (\<lambda>h t e. (True, e)), CloseHandle = (\<lambda>h e. e),
     ReadFile = (\<lambda>h n e. (take n (line e), e\<lparr>line := drop n (line e)\<rparr>)), WriteFile = (\<lambda>h b e. (True, length b, e)),
     GetCommModemStatus = (\<lambda>h e. (\<lambda>f. False, e)), EscapeCommFunction = (\<lambda>h f e. e),
     time = (\<lambda>e. (int (clock e), e\<lparr>clock := Suc (clock e)\<rparr>)), no_return = 7,
     mysql_lib = demo_mysql, Shell_NotifyIcon = (\<lambda>i t e. e\<lparr>shell_log := i # shell_log e\<rparr>),
     system_call = (\<lambda>c e. e\<lparr>shell_log := c # shell_log e\<rparr>), crypt = demo_crypt, stack_context = zero_ctx\<rparr>"

text \<open>The same with a clock that stands still while bytes are unread.\<close>

definition demo_prompt :: "demo_env desktop" where
  "demo_prompt = demo_desktop\<lparr>time := (\<lambda>e. (if line e = [] then int (clock e) else 0, e\<lparr>clock := Suc (clock e)\<rparr>))\<rparr>"

definition demo_reader :: reader where
  "demo_reader = \<lparr>Cport = replicate 16 5, baudr = replicate 64 0, response_buffer = [0, 0], buff = replicate 260 0,
     name = zeros, surname = zeros, username = zeros, password = zeros, is_data_present = False, port = 2,
     aes_globals = aes_state_init\<rparr>"

definition demo_start :: demo_env where
  "demo_start = \<lparr>line = [], clock = 0, db_cards = [], db_answer = [], db_open = 0, shell_log = []\<rparr>"

section \<open>What it promises\<close>

lemma demo_handle: "port_handle demo_reader 2 = Some 5"
  by (simp add: port_handle_def demo_reader_def)

lemma demo_clock: "clock_runs demo_desktop (\<lambda>T e. nat (T - int (clock e)))"
  by (auto simp: clock_runs_def demo_desktop_def)

abbreviation (input) demo_cards :: "'a demo_env_scheme \<Rightarrow> bytes set" where
  "demo_cards \<equiv> \<lambda>e. set (db_cards e)"

lemma demo_line:
  "serial_line demo_desktop line demo_cards" "serial_line demo_prompt line demo_cards"
  "pairs_together demo_prompt line" "clock_within demo_prompt line 0"
  by (auto simp: serial_line_def line_reads_def pairs_together_def clock_within_def demo_prompt_def demo_desktop_def)

lemma demo_select: "demo_sql (select_query s) e = (False, e\<lparr>db_answer := filter (\<lambda>t. s = t) (db_cards e)\<rparr>)"
  by (simp add: demo_sql_def Let_def) (simp add: select_query_def insert_query_def ascii_def)

lemma demo_insert: "demo_sql (insert_query s) e = (False, e\<lparr>db_cards := s # db_cards e\<rparr>)"
  by (simp add: demo_sql_def insert_query_def ascii_def)

lemma demo_db: "mysql_ok demo_mysql demo_cards db_answer db_open" "mysql_up demo_mysql"
  by (auto simp: mysql_ok_def mysql_up_def demo_mysql_def demo_select demo_insert connect_def)
    (simp add: demo_sql_def Let_def split: if_splits)

lemma demo_db_prompt: "mysql_ok (mysql_lib demo_prompt) demo_cards db_answer db_open" "mysql_up (mysql_lib demo_prompt)"
  using demo_db by (simp_all add: demo_prompt_def demo_desktop_def)

section \<open>A card\<close>

abbreviation (input) demo_user :: bytes where "demo_user \<equiv> replicate 64 1"
abbreviation (input) demo_pass :: bytes where "demo_pass \<equiv> replicate 64 2"

definition demo_blocks :: "bytes \<times> bytes" where
  "demo_blocks =
     (let (st, u, p, ok) = encrypt_data demo_crypt zero_ctx aes_state_init demo_user demo_pass zeros zeros in (u, p))"

lemma demo_card_holds: "card_holds demo_crypt zeros zeros (fst demo_blocks) (snd demo_blocks) demo_user demo_pass"
proof -
  obtain st u p ok where r: "encrypt_data demo_crypt zero_ctx aes_state_init demo_user demo_pass zeros zeros = (st, u, p, ok)"
    by (metis prod.exhaust)
  have "length (random_iv demo_crypt) = 16" by (simp add: demo_crypt_def)
  then have "ok"
    using decrypt_encrypt [OF aes_state_ok_init aes_state_ok_init _ _ _ _ _ _ _ r, of zeros zeros] by simp
  moreover have "c_str zeros = Some []" using c_str_zeros [of "[]" 64] by simp
  moreover have "aes_state_ok aes_state_init \<and> length (buf zero_ctx) = 68" by (simp add: zero_ctx_def aes_state_ok_init)
  moreover have "encrypt_data demo_crypt zero_ctx aes_state_init demo_user demo_pass zeros zeros =
      (st, fst demo_blocks, snd demo_blocks, ok)"
    using r by (simp add: demo_blocks_def)
  ultimately have "\<exists>ctx st0 st1 eu ep. aes_state_ok st0 \<and> length (buf ctx) = 68 \<and> length eu = 64 \<and> length ep = 64 \<and>
      encrypt_data demo_crypt ctx st0 demo_user demo_pass eu ep = (st1, fst demo_blocks, snd demo_blocks, True)"
    by (intro exI [where x = zero_ctx] exI [where x = aes_state_init] exI [where x = st] exI [where x = zeros]) simp
  then show ?thesis
    using \<open>c_str zeros = Some []\<close> by (simp add: card_holds_def block_def)
qed

text \<open>The board has read a card with the serial number 1, 2, 3, 4, which is in the database.\<close>

definition demo_card_env :: demo_env where
  "demo_card_env = demo_start\<lparr>line := ascii ''SS'' @ card_message zeros zeros (fst demo_blocks) (snd demo_blocks) @ [1, 2, 3, 4] @ [],
     db_cards := [ascii ''1234'']\<rparr>"

lemma demo_serial: "serial_string [1, 2, 3, 4] = Some (ascii ''1234'')"
  by (simp add: serial_string_eq hex_byte_def hex_digit_def ascii_def)

lemma demo_waits: "reader_waits demo_reader"
  by (simp add: reader_waits_def demo_reader_def port_handle_def aes_state_ok_init)

lemma demo_parts:
  "length (random_iv (crypt demo_prompt)) = 16" "length (buf (stack_context demo_prompt)) = 68"
  "crypt demo_prompt = demo_crypt"
  by (simp_all add: demo_prompt_def demo_desktop_def demo_crypt_def zero_ctx_def)

end
