(* ===== verification/Board_Search.thy ===== *)
theory Board_Search
  imports Reader_Link
begin

text \<open>
  The search for the board, one port at a time: what the loop of \<open>wait_for_device\<close> does at a port that does not open and at
  the port of the board.
\<close>

text \<open>
  What the computer does at one port: it does not open; it opens as \<open>h\<close>; the board behind it answers.
\<close>

definition port_closed :: "('e, 'b) win32_scheme \<Rightarrow> nat \<Rightarrow> bool" where
  "port_closed api q \<longleftrightarrow> (\<forall>e. fst (CreateFileA api (comports ! q) e) = INVALID_HANDLE_VALUE)"

definition port_opens :: "('e, 'b) win32_scheme \<Rightarrow> nat \<Rightarrow> handle \<Rightarrow> bool" where
  "port_opens api q h \<longleftrightarrow> h \<noteq> INVALID_HANDLE_VALUE \<and> (\<forall>e. fst (CreateFileA api (comports ! q) e) = h) \<and>
     (\<forall>s e. fst (BuildCommDCBA api s e) \<noteq> None) \<and> (\<forall>d e. fst (SetCommState api h d e)) \<and>
     (\<forall>t e. fst (SetCommTimeouts api h t e))"

definition board_answers :: "('e, 'b) win32_scheme \<Rightarrow> handle \<Rightarrow> bool" where
  "board_answers api h \<longleftrightarrow>
     (\<forall>e. fst (WriteFile api h (ascii ''INIT'' @ [0x0a]) e) \<and> fst (snd (WriteFile api h (ascii ''INIT'' @ [0x0a]) e)) = 5) \<and>
     (\<forall>e. take 3 (fst (ReadFile api h 4 e)) = ascii ''OK!'' \<and> length (fst (ReadFile api h 4 e)) \<le> 4)"

lemma open_closed:
  assumes "port_closed api q" "q < 16"
  shows "\<exists>hs bs e'. RS232_OpenComport api (int q) BAUD_RATE (st, e) = (1, st\<lparr>Cport := hs, baudr := bs\<rparr>, e') \<and>
    length hs = length (Cport st)"
proof -
  obtain h e1 where c: "CreateFileA api (comports ! q) e = (h, e1)" by fastforce
  have "h = -1" using assms(1) c unfolding port_closed_def by (metis fst_conv)
  obtain s where s: "baud_string BAUD_RATE = Some s" by (simp add: baud_string_def)
  show ?thesis
    using assms(2) c s \<open>h = -1\<close>
    by (intro exI [of _ "(Cport st)[q := h]"] exI [of _ "s @ [0] @ drop (length s + 1) (baudr st)"] exI [of _ e1])
      (simp add: RS232_OpenComport_def)
qed

lemma open_opens:
  assumes "port_opens api q h" "q < 16"
  shows "\<exists>bs e'. RS232_OpenComport api (int q) BAUD_RATE (st, e) = (0, st\<lparr>Cport := (Cport st)[q := h], baudr := bs\<rparr>, e')"
proof -
  obtain e1 where c: "CreateFileA api (comports ! q) e = (h, e1)"
    using assms(1) unfolding port_opens_def by (metis prod.collapse)
  obtain s where s: "baud_string BAUD_RATE = Some s" by (simp add: baud_string_def)
  obtain d e2 where d: "BuildCommDCBA api s e1 = (Some d, e2)"
    using assms(1) unfolding port_opens_def by (metis prod.collapse option.exhaust)
  obtain e3 where e3: "SetCommState api h d e2 = (True, e3)"
    using assms(1) unfolding port_opens_def by (metis prod.collapse)
  obtain e4 where e4: "SetCommTimeouts api h Cptimeouts e3 = (True, e4)"
    using assms(1) unfolding port_opens_def by (metis prod.collapse)
  have "h \<noteq> -1" using assms(1) by (simp add: port_opens_def)
  then show ?thesis
    using assms(2) c s d e3 e4
    by (intro exI [of _ "s @ [0] @ drop (length s + 1) (baudr st)"] exI [of _ e4])
      (simp add: RS232_OpenComport_def)
qed

lemma probe_answered:
  assumes "port_opens api q h" "board_answers api h" "q < 16" "length (Cport st) = 16" "length OK = 4"
  shows "\<exists>bs OK' e'. probe api (int q) OK (st, e) = Some (True, int q, OK', st\<lparr>Cport := (Cport st)[q := h], baudr := bs\<rparr>, e')"
proof -
  obtain bs e1 where o: "RS232_OpenComport api (int q) BAUD_RATE (st, e) = (0, st\<lparr>Cport := (Cport st)[q := h], baudr := bs\<rparr>, e1)"
    using open_opens [OF assms(1,3)] by blast
  let ?st = "st\<lparr>Cport := (Cport st)[q := h], baudr := bs\<rparr>"
  have h: "port_handle ?st (int q) = Some h" using assms(3,4) by (simp add: port_handle_def)
  obtain e2 where w: "WriteFile api h (ascii ''INIT'' @ [0x0a]) e1 = (True, 5, e2)"
    using assms(2) unfolding board_answers_def by (metis prod.collapse)
  obtain r e3 where r: "ReadFile api h 4 e2 = (r, e3)" by fastforce
  have r3: "take 3 r = ascii ''OK!''" "length r \<le> 4" using assms(2) r unfolding board_answers_def by (metis fst_conv)+
  then obtain x where x: "r = ascii ''OK!'' @ x" by (metis append_take_drop_id)
  then have "length x \<le> 1" using r3(2) by (simp add: ascii_def)
  then have ok: "\<exists>y. put_at OK 0 r = Some (ascii ''OK!'' @ [y])"
    using x assms(5) by (cases OK rule: list.exhaust; cases x) (auto simp: put_at_def ascii_def length_Suc_conv numeral_eq_Suc)
  then obtain y where y: "put_at OK 0 r = Some (ascii ''OK!'' @ [y])" by blast
  have "c_str ((ascii ''OK!'' @ [y])[3 := 0]) = Some (ascii ''OK!'')" "r \<noteq> []"
    using x by (simp_all add: ascii_def c_str_def)
  then show ?thesis
    using o h w r y
    by (intro exI [of _ bs] exI [of _ "ascii ''OK!'' @ [0]"] exI [of _ e3])
      (simp add: probe_def RS232_SendBuf_def RS232_PollComport_def ascii_def)
qed

section \<open>The ports before the board\<close>

text \<open>Opening and closing ports leaves \<open>f\<close> of the environment alone.\<close>

definition opens_quietly :: "('e, 'b) win32_scheme \<Rightarrow> ('e \<Rightarrow> 'k) \<Rightarrow> bool" where
  "opens_quietly api f \<longleftrightarrow> (\<forall>p e. f (snd (CreateFileA api p e)) = f e) \<and> (\<forall>s e. f (snd (BuildCommDCBA api s e)) = f e) \<and>
     (\<forall>h d e. f (snd (SetCommState api h d e)) = f e) \<and> (\<forall>h t e. f (snd (SetCommTimeouts api h t e)) = f e) \<and>
     (\<forall>h e. f (CloseHandle api h e) = f e)"

lemma opens_quietly_D:
  assumes "opens_quietly api f"
  shows "CreateFileA api p e = (h, e') \<Longrightarrow> f e' = f e" "BuildCommDCBA api s e = (d, e') \<Longrightarrow> f e' = f e"
    "SetCommState api h1 d1 e = (k, e') \<Longrightarrow> f e' = f e" "SetCommTimeouts api h1 t e = (k, e') \<Longrightarrow> f e' = f e"
    "f (CloseHandle api h1 e) = f e"
  using assms unfolding opens_quietly_def by (metis snd_conv)+

lemma open_quiet:
  assumes "opens_quietly api f" "RS232_OpenComport api n b (st, e) = (r, st', e')"
  shows "f e' = f e"
  using assms(2)
  by (auto simp: RS232_OpenComport_def Let_def opens_quietly_D(5) [OF assms(1)] dest!: opens_quietly_D(1-4) [OF assms(1)]
      split: if_splits option.splits prod.splits)

lemma discover_reaches:
  assumes "\<And>q. q < p \<Longrightarrow> port_closed api q" "p < 16" "q \<le> p" "length (Cport st) = 16"
  shows "\<exists>hs bs e'. discover api (int q) OK (st, e) = discover api (int p) OK (st\<lparr>Cport := hs, baudr := bs\<rparr>, e') \<and>
    length hs = 16 \<and> (opens_quietly api f \<longrightarrow> f e' = f e)"
  using assms(3,4)
proof (induction "p - q" arbitrary: q st e)
  case 0
  then have "q = p" by simp
  then show ?case using 0(3) by (intro exI [of _ "Cport st"] exI [of _ "baudr st"] exI [of _ e]) simp
next
  case (Suc n)
  then have q: "q < p" "q < 16" using assms(2) by simp_all
  obtain hs bs e1 where o: "RS232_OpenComport api (int q) BAUD_RATE (st, e) = (1, st\<lparr>Cport := hs, baudr := bs\<rparr>, e1)"
    "length hs = length (Cport st)"
    using open_closed [OF assms(1) [OF q(1)] q(2)] by blast
  then have "probe api (int q) OK (st, e) = Some (False, int (Suc q), OK, st\<lparr>Cport := hs, baudr := bs\<rparr>, e1)"
    by (simp add: probe_def)
  then have d: "discover api (int q) OK (st, e) = discover api (int (Suc q)) OK (st\<lparr>Cport := hs, baudr := bs\<rparr>, e1)"
    using q(1) assms(2) by (simp add: discover.simps [of api "int q"])
  have "opens_quietly api f \<longrightarrow> f e1 = f e" using open_quiet [OF _ o(1)] by blast
  moreover have "length (Cport (st\<lparr>Cport := hs, baudr := bs\<rparr>)) = 16" "n = p - Suc q" "Suc q \<le> p"
    using o(2) Suc.prems(2) Suc.hyps(2) q(1) by simp_all
  ultimately show ?case
    using Suc.hyps(1) [of "Suc q" "st\<lparr>Cport := hs, baudr := bs\<rparr>" e1] d by auto
qed

end
