(* ===== verification/Reader_Properties.thy ===== *)
theory Reader_Properties
  imports Reader_Demo Board_Search
begin

text \<open>
  The properties of the reader: when it knows credentials, that its waits end, how it finds the board,
  and where the code admits a message or a card it should not.
\<close>

section \<open>Waiting ends\<close>

lemma message_loop_returns:
  assumes "clock_runs api left" "port_handle st p = Some h" "k \<le> length mem"
  shows "\<exists>r. message_loop api p T (length mem) mem k arrived (st, e) = Some r"
  using assms(3)
proof (induction "left T e" arbitrary: e mem k arrived rule: less_induct)
  case less
  obtain now e1 where t: "time api e = (now, e1)" by fastforce
  show ?case
  proof (cases "now < T \<and> k < length mem")
    case False
    then show ?thesis using t by (subst message_loop.simps) auto
  next
    case True
    obtain bs e2 where r: "ReadFile api h (length mem - k) e1 = (bs, e2)" by fastforce
    have l: "length bs \<le> length mem - k" "left T e2 < left T e"
      using assms(1) t r True unfolding clock_runs_def by (blast, meson order.strict_trans1)
    have "k + length bs \<le> length mem" using l(1) less.prems by linarith
    then obtain mem' where m: "put_at mem k bs = Some mem'" "length mem' = length mem"
      by (metis put_at_fill)
    have "message_loop api p T (length mem) mem k arrived (st, e) =
        message_loop api p T (length mem') mem' (k + length bs) (arrived \<or> bs \<noteq> []) (st, e2)"
      using t r m True assms(2) by (subst message_loop.simps) (simp add: RS232_PollComport_def)
    then show ?thesis
      using less.hyps [OF l(2), of "k + length bs" mem' "arrived \<or> bs \<noteq> []"] l(1) m(2) less.prems by auto
  qed
qed

text \<open>C29: \<open>wait_message\<close> returns for every behaviour of the board, as long as the port is one of the table and the
  clock runs: its loop ends when the buffer is full or the time is up, and the result is 0 or 1. The buffer keeps
  its length. So the remark at its call, that the time-out does not work, is not true of this wait; it is true of
  the wait for the serial number that follows, which has no time-out.\<close>

theorem wait_message_returns:
  assumes "clock_runs api left" "port_handle st p = Some h" "length mem = 260"
  shows "\<exists>r b e'. wait_message api p timeout mem 260 (st, e) = Some (r, b, st, e') \<and> r \<in> {0, 1} \<and> length b = 260"
proof -
  obtain now e1 where t: "time api e = (now, e1)" by fastforce
  obtain b a v e' where l: "message_loop api p (now + timeout) 260 mem 0 False (st, e1) = Some (b, a, v, e')"
    using message_loop_returns [OF assms(1,2), of 0 mem "now + timeout" False e1] assms(3) by auto
  have "v = st" "length b = 260" using message_loop_frame [OF l] assms(3) by simp_all
  then show ?thesis
    using wait_message_decides [OF _ l t] by auto
qed

theorem wait_message_returns_witness:
  "\<exists>r b e'. wait_message demo_desktop 2 10 (replicate 260 0) 260 (demo_reader, demo_start) =
     Some (r, b, demo_reader, e') \<and> r \<in> {0, 1} \<and> length b = 260"
  by (rule wait_message_returns [OF demo_clock demo_handle]) simp

text \<open>The wait for the serial number has no time-out: on a line that stays silent it does not end.\<close>

lemma serial_loop_silent:
  assumes "serial_loop api p mem k s = Some r" "\<And>h n e. fst (ReadFile api h n e) = []"
  shows "4 \<le> k"
proof (rule serial_loop.raw_induct
    [where P = "\<lambda>api p mem k s r. (\<forall>h n e. fst (ReadFile api h n e) = []) \<longrightarrow> 4 \<le> k", OF _ assms(1), rule_format], goal_cases)
  case (1 loop api p mem k s r)
  show ?case
  proof (cases "k < 4")
    case True
    then obtain bs v x m where 2: "RS232_PollComport api p (4 - k) s = Some (bs, v, x)"
      "loop api p m (k + length bs) (v, x) = Some r"
      using 1(2) by (auto split: Option.bind_splits)
    have "bs = []" using 2(1) 1(3) by (auto simp: RS232_PollComport_def split: Option.bind_splits prod.splits) (metis fst_conv)
    then show ?thesis using 1(1) [OF 2(2)] 1(3) by simp
  qed simp
qed (rule assms(2))

theorem silent_serial_never_ends:
  assumes "\<And>h n e. fst (ReadFile api h n e) = []"
  shows "wait_serial_number api p mem s = None"
  using serial_loop_silent [OF _ assms, of p mem 0 s] by (cases "wait_serial_number api p mem s") (auto simp: wait_serial_number_def)

section \<open>What the service knows\<close>

text \<open>C30: a card the writer enciphered, read by the board: the turn of the service that meets its message takes
  it from the line whole, however the line cuts it up, and ends with exactly the user name and the
  password the card was written for when the card is in the database, and with nothing when
  it is not. The notification must have room for the names on the card.\<close>

theorem card_login:
  assumes "serial_line api rest cards" "pairs_together api rest" "clock_within api rest t"
    and "mysql_ok (mysql_lib api) cards answer conns" "mysql_up (mysql_lib api)"
    and "length (random_iv (crypt api)) = 16" "length (buf (stack_context api)) = 68"
    and "reader_waits st" "length sn0 = 4"
    and "card_holds (crypt api) n s u p user pass"
    and "rest e = ascii ''SS'' @ card_message n s u p @ sn @ R" "length sn = 4" "serial_string sn = Some k"
  shows "\<exists>st' e'. reader_turn api sn0 (st, e) = Some (sn, st', e') \<and>
    (if k \<in> cards e then credentials_ready user pass st' else no_credentials st')"
  by (rule card_turn [OF assms])

lemma demo_turn_hyps:
  "line demo_card_env = ascii ''SS'' @ card_message zeros zeros (fst demo_blocks) (snd demo_blocks) @ [1, 2, 3, 4] @ []"
  "ascii ''1234'' \<in> demo_cards demo_card_env"
  by (simp_all add: demo_card_env_def)

theorem card_login_witness:
  "\<exists>st' e'. reader_turn demo_prompt [0, 0, 0, 0] (demo_reader, demo_card_env) = Some ([1, 2, 3, 4], st', e') \<and>
     credentials_ready demo_user demo_pass st'"
  using card_login [OF demo_line(2-4) demo_db_prompt demo_parts(1,2) demo_waits _ demo_card_holds [folded demo_parts(3)]
      demo_turn_hyps(1) _ demo_serial, of "[0, 0, 0, 0]"] demo_turn_hyps(2) by simp




section \<open>Names that do not fit\<close>

lemma c_str_joined:
  assumes "c_str m = Some n" "c_str m' = Some s"
  shows "c_str (take (length n) m @ s @ 0 # r) = Some (n @ s)"
proof -
  have n: "n = takeWhile (\<lambda>c. c \<noteq> 0) m" "s = takeWhile (\<lambda>c. c \<noteq> 0) m'" using assms by (auto simp: c_str_def split: if_splits)
  then have "take (length n) m = n" by (metis takeWhile_eq_take)
  moreover have "0 \<notin> set (n @ s)" using n by (auto dest: set_takeWhileD)
  ultimately show ?thesis using c_str_nul [of "n @ s" r] by simp
qed

lemma notification_room:
  assumes "length (name st) = MAX_MESSAGE_LENGHT"
  shows "sendInfoNotification api (st, e) = (case (c_str (name st), c_str (surname st)) of
      (Some n, Some s) \<Rightarrow>
        if length n + length s < MAX_MESSAGE_LENGHT
        then Some (st\<lparr>name := take (length n) (name st) @ s @ 0 # drop (Suc (length n + length s)) (name st)\<rparr>,
          Shell_NotifyIcon api (n @ s) (ascii ''Tag detected! Starting Firefox...'') e)
        else None
    | _ \<Rightarrow> None)"
  using assms by (auto simp: sendInfoNotification_def put_at_def sprintf_into_def split: option.splits)

text \<open>C32: the two names of an allowed card are joined in the 64 bytes of \<open>name\<close>, with no check of their lengths. A turn that meets the
  message and the serial number of a card of the database runs to its end exactly when both names are strings and have less
  than 64 characters together; then \<open>name\<close> holds the two joined from there on, which is what \<open>get_name\<close> hands out. Otherwise
  the notification leaves its arrays, and the turn has no result.\<close>

theorem names_overflow:
  assumes "serial_line api rest cards" "pairs_together api rest" "clock_within api rest t"
    and "mysql_ok (mysql_lib api) cards answer conns" "mysql_up (mysql_lib api)"
    and "reader_waits st" "length sn0 = 4"
    and "rest e = ascii ''SS'' @ M @ sn @ R" "length M = 260" "length sn = 4" "marks_ok M"
    and "serial_string sn = Some k" "k \<in> cards e"
  shows "case (c_str (message_block M 0), c_str (message_block M 1)) of
      (Some n, Some s) \<Rightarrow>
        if length n + length s < 64
        then \<exists>st' e'. reader_turn api sn0 (st, e) = Some (sn, st', e') \<and> is_data_present st' \<and>
          c_str (name st') = Some (n @ s) \<and> surname st' = message_block M 1
        else reader_turn api sn0 (st, e) = None
    | _ \<Rightarrow> reader_turn api sn0 (st, e) = None"
proof -
  let ?st = "st\<lparr>response_buffer := [0, 0], is_data_present := False, buff := M\<rparr>"
  obtain h where "port_handle st (port st) = Some h" using assms(6) by (auto simp: reader_waits_def)
  from turn_takes_message [OF assms(1-3) this _ _ assms(7,8,9,10,11)] assms(6)
  obtain x where x: "reader_turn api sn0 (st, e) = do { s \<leftarrow> card_present api sn (?st, x); Some (sn, s) }" "cards x = cards e"
    by (auto simp: reader_waits_def)
  obtain r x' where r: "is_serial_present (mysql_lib api) sn x = Some (r, x')" "r = -1 \<or> r = (if k \<in> cards x then 1 else 0)"
    using present_spec [OF assms(4,12), of x] by auto
  have 1: "r = 1" using r present_up [OF assms(5) r(1)] x(2) assms(13) by auto
  obtain aes user pass ok where d: "decrypt_data (crypt api) (stack_context api) (aes_globals st)
      (message_block M 2) (message_block M 3) zeros zeros = (aes, user, pass, ok)"
    by (metis prod.exhaust)
  let ?v = "(clear_fields ?st)\<lparr>name := message_block M 0, surname := message_block M 1, is_data_present := True,
    aes_globals := aes, username := user, password := pass\<rparr>"
  have v: "name ?v = message_block M 0" "surname ?v = message_block M 1" "is_data_present ?v" by simp_all
  have "reader_turn api sn0 (st, e) = do { s \<leftarrow> sendInfoNotification api (?v, x');
      Some (sn, start api (ascii ''START firefox https://www.portaleargo.it/argoweb/home.seam'') s) }"
    using x(1) r(1) 1 d by (simp add: card_present_def clear_fields_def Let_def)
  moreover have "length (name ?v) = 64" using assms(9) by (simp add: message_block_def)
  note notification_room [OF this, of api x', unfolded v]
  ultimately show ?thesis
    by (auto simp: start_def c_str_joined split: option.splits)
qed

text \<open>Two names of 32 characters each are one byte too long.\<close>

definition demo_long_names :: bytes where
  "demo_long_names = card_message (replicate 32 0x41 @ replicate 32 0) (replicate 32 0x42 @ replicate 32 0) zeros zeros"

theorem names_overflow_witness:
  "reader_turn demo_prompt [0, 0, 0, 0] (demo_reader,
     demo_start\<lparr>line := ascii ''SS'' @ demo_long_names @ [1, 2, 3, 4] @ [], db_cards := [ascii ''1234'']\<rparr>) = None"
proof -
  let ?n = "replicate 32 0x41 @ replicate 32 0" and ?s = "replicate 32 0x42 @ replicate 32 0"
  have b: "block ?n" "block ?s" "block zeros" by (simp_all add: block_def)
  have c: "c_str ?n = Some (replicate 32 0x41)" "c_str ?s = Some (replicate 32 0x42)" by (rule c_str_zeros; simp)+
  have m: "length demo_long_names = 260" "marks_ok demo_long_names"
    "message_block demo_long_names 0 = ?n" "message_block demo_long_names 1 = ?s"
    using card_message_blocks [OF b b(3)]
    by (simp_all add: demo_long_names_def length_card_message [OF b b(3)] card_message_marks [OF b b(3)])
  show ?thesis
    using names_overflow [OF demo_line(2-4) demo_db_prompt demo_waits _ _ m(1) _ m(2) demo_serial, of "[0, 0, 0, 0]"
        "demo_start\<lparr>line := ascii ''SS'' @ demo_long_names @ [1, 2, 3, 4] @ [], db_cards := [ascii ''1234'']\<rparr>" "[]"] c
    unfolding m(3,4) by simp
qed

section \<open>Messages that are not whole\<close>

text \<open>The clock does not jump: two looks in a row are less than \<open>t\<close> apart.\<close>

definition clock_smooth :: "('e, 'b) host_scheme \<Rightarrow> int \<Rightarrow> bool" where
  "clock_smooth api t \<longleftrightarrow>
     (\<forall>e now e1. time api e = (now, e1) \<longrightarrow> fst (time api e1) < now + t)"

lemma wait_message_first_read:
  assumes "serial_line api rest keep" "clock_smooth api timeout" "port_handle st p = Some h" "rest e \<noteq> []"
    and "length mem = 260" "wait_message api p timeout mem 260 (st, e) = Some (r, b, s)"
  shows "\<exists>Q e'. Q \<noteq> [] \<and> rest e = Q @ rest e' \<and> s = (st, e') \<and> b = Q @ drop (length Q) mem \<and> length b = 260 \<and>
    r = (if marks_ok b then 1 else 0)"
proof -
  obtain now e1 where t: "time api e = (now, e1)" by fastforce
  obtain m a s' where l: "message_loop api p (now + timeout) 260 mem 0 False (st, e1) = Some (m, a, s')"
    using assms(6) t by (auto simp: wait_message_def split: Option.bind_splits)
  obtain now2 e2 where t2: "time api e1 = (now2, e2)" by fastforce
  have "now2 < now + timeout" using assms(2) t t2 unfolding clock_smooth_def by (metis fst_conv)
  obtain bs e3 where rd: "ReadFile api h 260 e2 = (bs, e3)" by fastforce
  have e2: "rest e2 = rest e" using serial_line_D(2) [OF assms(1) t] serial_line_D(2) [OF assms(1) t2] by simp
  note d = serial_line_D(1) [OF assms(1) rd]
  have bs: "bs \<noteq> []" "length bs \<le> 260" "rest e = bs @ rest e3" using d e2 assms(4) by auto
  obtain m1 where m1: "put_at mem 0 bs = Some m1" "length m1 = 260" "take (length bs) m1 = bs"
    using put_at_fill [of 0 bs mem] bs(2) assms(5) by (metis add_0 append_Nil take_0)
  have "drop (length bs) m1 = drop (length bs) mem" using m1(1) bs(2) assms(5) by (auto simp: put_at_def split: if_splits)
  have "message_loop api p (now + timeout) 260 m1 (length bs) True (st, e3) = Some (m, a, s')"
    using l t2 rd m1(1) bs(1) \<open>now2 < now + timeout\<close> assms(3)
    by (subst (asm) message_loop.simps) (simp add: RS232_PollComport_def)
  from message_loop_reads [OF this assms(1)] m1(2) bs(2)
  obtain Q e' where q: "m = bs @ Q @ drop (length bs + length Q) m1" "a" "s' = (st, e')" "rest e3 = Q @ rest e'"
    "length bs + length Q \<le> 260"
    using m1(3) by auto
  have "drop (length bs + length Q) m1 = drop (length (bs @ Q)) mem"
    using \<open>drop (length bs) m1 = drop (length bs) mem\<close> by (metis drop_drop add.commute length_append)
  moreover have "length m = 260" using q(1,5) m1(2) by simp
  ultimately show ?thesis
    using assms(6) wait_message_decides [OF _ l t] q bs by (intro exI [of _ "bs @ Q"] exI [of _ e']) auto
qed

lemma marks_ok_stale: "marks_ok mem \<Longrightarrow> length mem = 260 \<Longrightarrow> length Q \<le> 64 \<Longrightarrow> marks_ok (Q @ drop (length Q) mem)"
  by (simp add: marks_ok_def nth_append)

text \<open>C39: the buffer of the service keeps the last message, and \<open>wait_message\<close> checks the four marks after its time
  is up whatever has come. So when it waits for the message of a card and only some of its first 64 bytes arrive,
  it still reports a valid message: the beginning of the new card and the rest, with its name and credentials,
  of the card before.\<close>

theorem stale_message_accepted:
  assumes "serial_line api rest keep" "clock_smooth api timeout" "clock_runs api left" "port_handle st p = Some h"
    and "length mem = 260" "marks_ok mem" "rest e \<noteq> []" "length (rest e) \<le> 64"
  shows "\<exists>Q e'. Q \<noteq> [] \<and> rest e = Q @ rest e' \<and>
    wait_message api p timeout mem 260 (st, e) = Some (1, Q @ drop (length Q) mem, st, e')"
proof -
  obtain now e1 where t: "time api e = (now, e1)" by fastforce
  obtain b a v e2 where l: "message_loop api p (now + timeout) 260 mem 0 False (st, e1) = Some (b, a, v, e2)"
    using message_loop_returns [OF assms(3,4), of 0 mem "now + timeout" False e1] assms(5) by auto
  have "length b = 260" using message_loop_frame [OF l] assms(5) by simp
  then obtain r where w: "wait_message api p timeout mem 260 (st, e) = Some (r, b, v, e2)"
    using wait_message_decides [OF _ l t] by auto
  from wait_message_first_read [OF assms(1,2,4,7,5) this]
  obtain Q where q: "Q \<noteq> []" "rest e = Q @ rest e2" "v = st" "b = Q @ drop (length Q) mem" "r = (if marks_ok b then 1 else 0)"
    by auto
  have "length Q \<le> 64" using q(2) assms(8) by (metis le_add1 le_trans length_append)
  then have "marks_ok b" using marks_ok_stale [OF assms(6,5)] q(4) by simp
  then show ?thesis using w q by (intro exI [of _ Q] exI [of _ e2]) simp
qed

definition demo_old_message :: bytes where
  "demo_old_message = card_message zeros zeros (replicate 64 7) (replicate 64 8)"

theorem stale_message_accepted_witness:
  "\<exists>Q e'. Q \<noteq> [] \<and> line (demo_start\<lparr>line := [65, 66]\<rparr>) = Q @ line e' \<and>
     wait_message demo_desktop 2 10 demo_old_message 260 (demo_reader, demo_start\<lparr>line := [65, 66]\<rparr>) =
       Some (1, Q @ drop (length Q) demo_old_message, demo_reader, e')"
  by (rule stale_message_accepted [OF demo_line(1) _ demo_clock demo_handle])
    (auto simp: clock_smooth_def demo_desktop_def demo_old_message_def length_card_message card_message_marks block_def)

section \<open>Finding the board\<close>

text \<open>C35: \<open>wait_for_device\<close> returns the port of the board, and leaves its handle in the table, when the ports before it do
  not open and the board answers \<open>OK!\<close> to \<open>INIT\<close>.\<close>

theorem device_found:
  assumes "\<And>q. q < p \<Longrightarrow> port_closed api q" "port_opens api p h" "board_answers api h"
    and "p < 16" "length (Cport st) = 16" "length OK = 4"
  shows "\<exists>st' e'. wait_for_device api OK (st, e) = Some (int p, st', e') \<and> port_handle st' (int p) = Some h"
proof -
  obtain hs bs e1 where 1: "discover api 0 OK (st, e) = discover api (int p) OK (st\<lparr>Cport := hs, baudr := bs\<rparr>, e1)" "length hs = 16"
    using discover_reaches [OF assms(1,4) _ assms(5), of 0 OK e "\<lambda>e. ()"] by auto
  obtain bs' OK' e' where "probe api (int p) OK (st\<lparr>Cport := hs, baudr := bs\<rparr>, e1) =
      Some (True, int p, OK', st\<lparr>Cport := hs[p := h], baudr := bs'\<rparr>, e')"
    using probe_answered [OF assms(2,3,4) _ assms(6), of "st\<lparr>Cport := hs, baudr := bs\<rparr>" e1] 1(2) by auto
  then show ?thesis
    using 1 assms(4) by (simp add: wait_for_device_def discover.simps [of api "int p"] port_handle_def)
qed

text \<open>The board of this computer is at its third port.\<close>

definition demo_board :: "demo_env desktop" where
  "demo_board = demo_desktop\<lparr>CreateFileA := (\<lambda>f e. (if f = comports ! 2 then 5 else INVALID_HANDLE_VALUE, e)),
     ReadFile := (\<lambda>h n e. (ascii ''OK!'', e))\<rparr>"

theorem device_found_witness:
  "\<exists>st' e'. wait_for_device demo_board [0, 0, 0, 0] (demo_reader, demo_start) = Some (2, st', e') \<and> port_handle st' 2 = Some 5"
proof -
  have "port_closed demo_board q" if "q < 2" for q
    using that by (cases q rule: nat.exhaust) (auto simp: port_closed_def demo_board_def comports_def ascii_def)
  moreover have "port_opens demo_board 2 5" "board_answers demo_board 5"
    by (auto simp: port_opens_def board_answers_def demo_board_def demo_desktop_def ascii_def)
  ultimately show ?thesis
    using device_found [of 2 demo_board 5 demo_reader "[0, 0, 0, 0]" demo_start] by (simp add: demo_reader_def)
qed

text \<open>A port that opens but stays silent is not closed again: the search counts the port up first and closes the
  handle the table holds for the next port, and behind COM16 it closes a handle beyond the end of the
  table.\<close>

theorem silent_port_not_closed:
  assumes "RS232_OpenComport api (int q) BAUD_RATE s = (0, s1)"
    and "RS232_SendBuf api (int q) (ascii ''INIT'' @ [0x0a]) s1 = Some (r, s2)" "r \<noteq> 1"
    and "RS232_PollComport api (int q) 4 s2 = Some ([], st, e)" "length (Cport st) = 16" "q < 16"
  shows "probe api (int q) OK s =
    (if q < 15 then Some (False, int q + 1, OK, st, CloseHandle api (Cport st ! Suc q) e) else None)"
proof -
  have "nat (int q + 1) = Suc q" by simp
  then show ?thesis
    using assms by (simp add: probe_def put_at_0 RS232_CloseComport_def port_handle_def)
qed

text \<open>Nothing is on the line of this computer, and all its ports open.\<close>

theorem silent_port_not_closed_witness:
  "probe demo_desktop 15 [0, 0, 0, 0] (demo_reader, demo_start) = None"
proof -
  have "baud_string BAUD_RATE \<noteq> None" by (simp add: baud_string_def)
  then obtain s where s: "baud_string BAUD_RATE = Some s" by blast
  let ?st = "demo_reader\<lparr>baudr := s @ [0] @ drop (length s + 1) (baudr demo_reader), Cport := (replicate 16 5)[15 := 5]\<rparr>"
  have "probe demo_desktop (int 15) [0, 0, 0, 0] (demo_reader, demo_start) =
      (if 15 < (15 :: nat) then Some (False, int 15 + 1, [0, 0, 0, 0], ?st, CloseHandle demo_desktop (Cport ?st ! Suc 15) demo_start) else None)"
  proof (rule silent_port_not_closed [where r = 5 and ?s1.0 = "(?st, demo_start)" and ?s2.0 = "(?st, demo_start)"])
    show "RS232_OpenComport demo_desktop (int 15) BAUD_RATE (demo_reader, demo_start) = (0, ?st, demo_start)"
      using s by (simp add: RS232_OpenComport_def demo_desktop_def demo_reader_def)
    have h: "port_handle ?st (int 15) = Some 5" by (simp add: port_handle_def demo_reader_def)
    show "RS232_SendBuf demo_desktop (int 15) (ascii ''INIT'' @ [0x0a]) (?st, demo_start) = Some (5, ?st, demo_start)"
      unfolding RS232_SendBuf_def prod.case h by (simp add: demo_desktop_def ascii_def)
    show "RS232_PollComport demo_desktop (int 15) 4 (?st, demo_start) = Some ([], ?st, demo_start)"
      unfolding RS232_PollComport_def prod.case h by (simp add: demo_desktop_def demo_start_def)
  qed (simp_all add: demo_reader_def)
  then show ?thesis by simp
qed

section \<open>The table of allowed cards\<close>

text \<open>C36: a card that has been registered is found, and registering it lets in no other serial number but those that print
  alike: as long as the database does not fail, a serial number of four bytes is found afterwards exactly when it was found before
  or prints to the same string. A card that is found costs a connection, which is not closed.\<close>

theorem registered_card_found:
  assumes "mysql_ok db cards answer conns" "mysql_up db" "serial_string sn = Some s" "serial_string sn' = Some s'"
  shows "\<exists>e1 r e2. insert_serial db sn e = Some (None, e1) \<and> is_serial_present db sn' e1 = Some (r, e2) \<and>
    r = (if s' = s \<or> s' \<in> cards e then 1 else 0) \<and> conns e2 = conns e + r"
proof -
  obtain b e1 where i: "insert_serial db sn e = Some (b, e1)" "conns e1 = conns e"
    "cards e1 = (if b = None then insert s (cards e) else cards e)"
    using insert_spec [OF assms(1,3)] by blast
  have "b = None" by (rule insert_up [OF assms(2) i(1)])
  obtain r e2 where r: "is_serial_present db sn' e1 = Some (r, e2)" "r = -1 \<or> r = (if s' \<in> cards e1 then 1 else 0)"
    "conns e2 = (if r = 1 then conns e1 + 1 else conns e1)"
    using present_spec [OF assms(1,4)] by blast
  have "r \<noteq> -1" by (rule present_up [OF assms(2) r(1)])
  moreover have "cards e1 = insert s (cards e)" using i(3) \<open>b = None\<close> by simp
  ultimately have "r = (if s' = s \<or> s' \<in> cards e then 1 else 0)" "conns e2 = conns e + r"
    using r(2,3) i(2) by (simp_all split: if_splits)
  then show ?thesis using i(1) r(1) \<open>b = None\<close> by blast
qed

theorem registered_card_found_witness:
  "\<exists>e1 r e2. insert_serial demo_mysql [1, 2, 3, 4] demo_start = Some (None, e1) \<and>
     is_serial_present demo_mysql [1, 2, 3, 4] e1 = Some (r, e2) \<and> r = 1 \<and> db_open e2 = db_open demo_start + r"
  using registered_card_found [OF demo_db demo_serial demo_serial, where e = demo_start] by simp

text \<open>Serial numbers are printed without leading zeros, so different cards can have the same string: whoever holds the one
  is taken for the other.\<close>

theorem cards_confused:
  assumes "0 < x" "x < 16" "0 < y" "y < 16" "z < 16"
  shows "is_serial_present db [x, 16 * y + z, c, d] = is_serial_present db [16 * x + y, z, c, d]"
proof -
  have "hex_byte x @ hex_byte (16 * y + z) = hex_byte (16 * x + y) @ hex_byte z"
    using hex_byte_two [OF assms(3-5)] hex_byte_two [OF assms(1,2,4)] assms(2,5) by (simp add: hex_byte_def)
  then have "serial_string [x, 16 * y + z, c, d] = serial_string [16 * x + y, z, c, d]"
    by (simp add: serial_string_eq)
  then show ?thesis by (intro ext) (simp add: is_serial_present_def)
qed

theorem cards_confused_witness:
  "is_serial_present demo_mysql [0x1, 0x23, 0x45, 0x67] = is_serial_present demo_mysql [0x12, 0x3, 0x45, 0x67]"
  using cards_confused [of 1 2 3 demo_mysql "0x45" "0x67"] by simp

end
