(* ===== verification/Server_Handshake.thy ===== *)
theory Server_Handshake
  imports Ws_Send Sha1_Lib Base64 Header_Parser
begin

text \<open>
  The server's side of the opening handshake, \<open>lib/server-handshake.c\<close>: the accept key, the protocol, the
  negotiation of extensions and the response. The response is built in place in the service buffer of the
  context, behind its first 128 bytes, while the list of extensions is read from its beginning: writing
  one may overwrite the other, and the model keeps both in one list of bytes. \<open>None\<close> is an access outside of an
  array, or a pointer that is freed twice.
\<close>

section \<open>The connection before it is established\<close>

text \<open>The header table of a connection is live, freed, or the pointer is null.\<close>

datatype heap_ptr = NULL_PTR | LIVE | FREED

definition free_ptr :: "heap_ptr \<Rightarrow> heap_ptr option" where
  "free_ptr p = (case p of NULL_PTR \<Rightarrow> Some NULL_PTR | LIVE \<Rightarrow> Some FREED | FREED \<Rightarrow> None)"

text \<open>The union of \<open>struct libwebsocket\<close> and what stands before it: headers and websocket state.\<close>

record server_conn =
  ws :: wsi
  hdr :: hdr_wsi
  ah_ptr :: heap_ptr

text \<open>
  An entry of \<open>context->protocols\<close>; the one that ends the array has neither name nor callback. A callback is
  given the headers of the connection while they are there.
\<close>

record 'e protocol_entry =
  protocol_name :: "bytes option"
  protocol_fields :: ws_protocol
  protocol_callback ::
    "(allocated_headers option \<Rightarrow> cb_reason \<Rightarrow> bytes \<Rightarrow> 'e conn \<Rightarrow> int \<times> 'e conn) option"

record 'e lws_extension =
  extension_name :: bytes
  extension_data_size :: nat
  extension_callback :: "'e ext"

record 'e server =
  protocols :: "'e protocol_entry list"
  extensions :: "'e lws_extension list"
  base_ops :: "'e ws_ops"

abbreviation (input) MAX_WEBSOCKET_04_KEY_LEN :: nat where "MAX_WEBSOCKET_04_KEY_LEN \<equiv> 128"
abbreviation (input) LWS_MAX_EXTENSIONS_ACTIVE :: nat where "LWS_MAX_EXTENSIONS_ACTIVE \<equiv> 3"

text \<open>The callback of the protocol a connection has selected; no entry for the null pointer.\<close>

definition protocol_entry_of :: "'e server \<Rightarrow> wsi \<Rightarrow> 'e protocol_entry option" where
  "protocol_entry_of sv w =
     (let i = protocol_index (protocol w)
      in if 0 \<le> i then nth_opt (protocols sv) (nat i) else None)"

definition call_protocol ::
  "'e server \<Rightarrow> nat \<Rightarrow> allocated_headers option \<Rightarrow> cb_reason \<Rightarrow> bytes \<Rightarrow> 'e conn \<Rightarrow> (int \<times> 'e conn) option" where
  "call_protocol sv i h reason inp s =
     do { p \<leftarrow> nth_opt (protocols sv) i; f \<leftarrow> protocol_callback p; Some (f h reason inp s) }"

definition libwebsocket_ensure_user_space :: "'e ws_ops \<Rightarrow> 'e conn \<Rightarrow> int \<times> 'e conn" where
  "libwebsocket_ensure_user_space ops = (\<lambda>(w, e).
     if protocol_index (protocol w) < 0 then (1, w, e)
     else if per_session_data_size (protocol w) \<noteq> 0 \<and> \<not> user_space w then
       (let (ok, e) = malloc_ok ops (per_session_data_size (protocol w)) e
        in if ok then (0, w\<lparr>user_space := True\<rparr>, e) else (1, w, e))
     else (0, w, e))"

section \<open>Building the response\<close>

text \<open>\<open>LWS_CPYAPP\<close> and \<open>sprintf\<close> with one string: the string and its NUL at \<open>p\<close>, and the end of the string.\<close>

definition append_str :: "bytes \<Rightarrow> nat \<Rightarrow> bytes \<Rightarrow> (bytes \<times> nat) option" where
  "append_str mem p s = do { mem \<leftarrow> put_at mem p (s @ [0]); Some (mem, p + length s) }"

definition ws_guid :: bytes where
  "ws_guid = ascii ''258EAFA5-E914-47DA-95CA-C5AB0DC85B11''"

abbreviation (input) crlf :: bytes where "crlf \<equiv> [0x0d, 0x0a]"

definition response_start :: bytes where
  "response_start = ascii ''HTTP/1.1 101 Switching Protocols'' @ crlf @ ascii ''Upgrade: WebSocket'' @ crlf @
     ascii ''Connection: Upgrade'' @ crlf @ ascii ''Sec-WebSocket-Accept: ''"

text \<open>\<open>lws_hdr_copy\<close> into the buffer at \<open>p\<close>.\<close>

definition hdr_copy_at :: "allocated_headers \<Rightarrow> bytes \<Rightarrow> nat \<Rightarrow> nat \<Rightarrow> nat \<Rightarrow> (bytes \<times> int) option" where
  "hdr_copy_at a mem p n h =
     (if p \<le> length mem then
        do { (tail, r) \<leftarrow> lws_hdr_copy a (drop p mem) (int n) h; Some (take p mem @ tail, r) }
      else None)"

section \<open>Negotiating extensions\<close>

text \<open>
  Every extension the context supports whose name is the one the client gave, and that the callback of
  protocol 0 allows, is applied. When the
  memory of an extension cannot be allocated a pointer into the service buffer is freed: no result.
\<close>

fun apply_extensions ::
  "'e server \<Rightarrow> allocated_headers \<Rightarrow> bytes \<Rightarrow> 'e lws_extension list \<Rightarrow> bytes \<Rightarrow> nat \<Rightarrow> 'e lws_extension list \<Rightarrow>
     'e conn \<Rightarrow> (bytes \<times> nat \<times> 'e lws_extension list \<times> 'e conn) option" where
  "apply_extensions sv a ext_name [] mem p active s = Some (mem, p, active, s)"
| "apply_extensions sv a ext_name (x # xs) mem p active s =
     (if ext_name \<noteq> extension_name x then apply_extensions sv a ext_name xs mem p active s
      else do {
        (n, s) \<leftarrow> call_protocol sv 0 (Some a) LWS_CALLBACK_CONFIRM_EXTENSION_OKAY ext_name s;
        (if n \<noteq> 0 then apply_extensions sv a ext_name xs mem p active s
         else do {
           (mem, p) \<leftarrow> (if active \<noteq> [] then do { mem \<leftarrow> put_at mem p [0x2c]; Some (mem, p + 1) }
                        else append_str mem p (crlf @ ascii ''Sec-WebSocket-Extensions: ''));
           (mem, p) \<leftarrow> append_str mem p ext_name;
           let (w, e) = s; (ok, e) = malloc_ok (base_ops sv) (extension_data_size x) e
           in if \<not> ok \<or> LWS_MAX_EXTENSIONS_ACTIVE \<le> length active then None
              else
                (let (r, tok, s) = extension_callback x LWS_EXT_CALLBACK_CONSTRUCT null_tokens (w, e)
                 in apply_extensions sv a ext_name xs mem p (active @ [x]) s) }) })"

text \<open>
  The scan of the client's list at \<open>c\<close>: \<open>n\<close> bytes of a name are in \<open>ext_name\<close>; a name of 127 bytes or more keeps its last byte at the end.
\<close>

function scan_extensions ::
  "'e server \<Rightarrow> allocated_headers \<Rightarrow> nat \<Rightarrow> bytes \<Rightarrow> nat \<Rightarrow> bytes \<Rightarrow> nat \<Rightarrow> 'e lws_extension list \<Rightarrow>
     'e conn \<Rightarrow> (bytes \<times> nat \<times> 'e lws_extension list \<times> 'e conn) option" where
  "scan_extensions sv a c ext_name n mem p active s =
     (if 4096 \<le> c \<or> length mem \<le> c then None
      else
        let x = mem ! c
        in if x \<noteq> 0 \<and> x \<noteq> 0x2c \<and> x \<noteq> 0x20 \<and> x \<noteq> 0x09 then
             scan_extensions sv a (Suc c) (ext_name[n := x]) (if n < 127 then Suc n else n) mem p active s
           else if x \<noteq> 0 \<and> n = 0 then scan_extensions sv a (Suc c) (ext_name[0 := 0]) 0 mem p active s
           else
             Option.bind (c_str (ext_name[n := 0])) (\<lambda>nm.
               Option.bind (apply_extensions sv a nm (extensions sv) mem p active s) (\<lambda>(mem, p, active, s).
                 if x = 0 then Some (mem, p, active, s)
                 else scan_extensions sv a (Suc c) (ext_name[n := 0]) 0 mem p active s)))"
  by pat_completeness auto
termination
  by (relation "measure (\<lambda>(sv, a, c, ext_name, n, mem, p, active, s). 4096 - c)") auto

section \<open>The handshake\<close>

text \<open>
  The label \<open>bail\<close>. The result of the handshake also holds the service buffer and the extensions that are now
  active on the connection.
\<close>

definition handshake_bail ::
  "bytes \<Rightarrow> 'e lws_extension list \<Rightarrow> server_conn \<Rightarrow> 'e \<Rightarrow> (int \<times> bytes \<times> 'e lws_extension list \<times> server_conn \<times> 'e) option" where
  "handshake_bail mem active sc e =
     do { p \<leftarrow> free_ptr (ah_ptr sc); Some (-1, mem, active, sc\<lparr>ah_ptr := p\<rparr>, e) }"

text \<open>The accept key: \<open>n\<close> bytes in the buffer, of which the base64 text of the digest takes the place.\<close>

definition accept_key_in :: "bytes \<Rightarrow> allocated_headers \<Rightarrow> (bytes \<times> int) option" where
  "accept_key_in mem a =
     do {
       off \<leftarrow> lws_hdr_simple_ptr a WSI_TOKEN_KEY;
       off \<leftarrow> off;
       key \<leftarrow> c_string (data a) off;
       (mem, n) \<leftarrow> append_str mem 0 (key @ ws_guid);
       let hash = SHA1 (take n mem);
           (out, accept_len) = lws_b64_encode_string hash (int (length mem))
       in do { mem \<leftarrow> put_at mem 0 out; Some (mem, accept_len) } }"

text \<open>From the response up to the list of extensions: \<open>Inl\<close> is \<open>bail\<close>.\<close>

definition response_head :: "bytes \<Rightarrow> allocated_headers \<Rightarrow> int \<Rightarrow> (bytes \<times> nat option) option" where
  "response_head mem a accept_len =
     do {
       accept \<leftarrow> c_str mem;
       (mem, p) \<leftarrow> append_str mem MAX_WEBSOCKET_04_KEY_LEN response_start;
       (mem, q) \<leftarrow> append_str mem p accept;
       let p = p + nat accept_len
       in do {
         plen \<leftarrow> lws_hdr_total_length a WSI_TOKEN_PROTOCOL;
         if plen = 0 then Some (mem, Some p)
         else do {
           (mem, p) \<leftarrow> append_str mem p (crlf @ ascii ''Sec-WebSocket-Protocol: '');
           (mem, n) \<leftarrow> hdr_copy_at a mem p 128 WSI_TOKEN_PROTOCOL;
           Some (mem, if n < 0 then None else Some (p + nat n)) } } }"

definition negotiate ::
  "'e server \<Rightarrow> allocated_headers \<Rightarrow> bytes \<Rightarrow> bytes \<Rightarrow> nat \<Rightarrow> 'e conn \<Rightarrow>
     (bytes \<times> nat option \<times> 'e lws_extension list \<times> 'e conn) option" where
  "negotiate sv a ext_name mem p s =
     do {
       elen \<leftarrow> lws_hdr_total_length a WSI_TOKEN_EXTENSIONS;
       if elen = 0 then Some (mem, Some p, [], s)
       else do {
         (mem, n) \<leftarrow> hdr_copy_at a mem 0 (length mem) WSI_TOKEN_EXTENSIONS;
         if n < 0 then Some (mem, None, [], s)
         else do {
           (mem, p, active, s) \<leftarrow> scan_extensions sv a 0 ext_name 0 mem p [] s;
           Some (mem, Some p, active, s) } } }"

text \<open>The label \<open>issuing resp pkt\<close>: an extension may take the response over; else it must go out whole.\<close>

definition send_response ::
  "'e server \<Rightarrow> 'e lws_extension list \<Rightarrow> bytes \<Rightarrow> nat \<Rightarrow> 'e conn \<Rightarrow> (bool \<times> bytes \<times> 'e conn) option" where
  "send_response sv active mem p s =
     (let exts = map extension_callback active;
          len = p - MAX_WEBSOCKET_04_KEY_LEN;
          (handled, tok, s) = ext_first LWS_EXT_CALLBACK_HANDSHAKE_REPLY_TX exts
            \<lparr>token_mem = mem, token_pos = MAX_WEBSOCKET_04_KEY_LEN, token_len = len, token_moved = False\<rparr> s
      in if handled \<noteq> 0 then Some (True, mem, s)
         else do {
           (n, mem, s) \<leftarrow> libwebsocket_write ((base_ops sv)\<lparr>active_extensions := exts\<rparr>) (token_mem tok)
             MAX_WEBSOCKET_04_KEY_LEN len LWS_WRITE_HTTP s;
           Some (n = int len, mem, s) })"

definition handshake_0405 ::
  "'e server \<Rightarrow> bytes \<Rightarrow> bytes \<Rightarrow> server_conn \<Rightarrow> 'e \<Rightarrow>
     (int \<times> bytes \<times> 'e lws_extension list \<times> server_conn \<times> 'e) option" where
  "handshake_0405 sv ext_name service_buffer sc e =
     (let a = ah (hdr sc); mem = service_buffer in
      do {
        hlen \<leftarrow> lws_hdr_total_length a WSI_TOKEN_HOST;
        klen \<leftarrow> lws_hdr_total_length a WSI_TOKEN_KEY;
        if hlen = 0 \<or> klen = 0 \<or> MAX_WEBSOCKET_04_KEY_LEN \<le> klen then handshake_bail mem [] sc e
        else do {
          (mem, accept_len) \<leftarrow> accept_key_in mem a;
          if accept_len < 0 then handshake_bail mem [] sc e
          else
            let (r, w, e) = libwebsocket_ensure_user_space (base_ops sv) (ws sc, e); sc = sc\<lparr>ws := w\<rparr>
            in if r \<noteq> 0 then handshake_bail mem [] sc e
               else do {
                 (mem, p) \<leftarrow> response_head mem a accept_len;
                 (case p of None \<Rightarrow> handshake_bail mem [] sc e
                  | Some p \<Rightarrow>
                      do {
                        (mem, p, active, w, e) \<leftarrow> negotiate sv a ext_name mem p (ws sc, e);
                        (case p of None \<Rightarrow> handshake_bail mem active (sc\<lparr>ws := w\<rparr>) e
                         | Some p \<Rightarrow>
                             do {
                               (mem, p) \<leftarrow> append_str mem p (crlf @ crlf);
                               (ok, mem, w, e) \<leftarrow> send_response sv active mem p (w, e);
                               if \<not> ok then handshake_bail mem active (sc\<lparr>ws := w\<rparr>) e
                               else
                                 let w = w\<lparr>state := WSI_STATE_ESTABLISHED, lws_rx_parse_state := LWS_RXPS_NEW\<rparr>;
                                     i = nat (protocol_index (protocol w))
                                 in do {
                                   entry \<leftarrow> nth_opt (protocols sv) i;
                                   (case protocol_callback entry of
                                      None \<Rightarrow> Some (0, mem, active, sc\<lparr>ws := w\<rparr>, e)
                                    | Some f \<Rightarrow>
                                        let (r, w, e) = f (Some a) LWS_CALLBACK_ESTABLISHED [] (w, e)
                                        in Some (0, mem, active, sc\<lparr>ws := w\<rparr>, e)) } }) }) } } })"

end
