(* ===== verification/Ws_Context.thy ===== *)
theory Ws_Context
  imports Server_Handshake
begin

text \<open>
  The context of the library, from \<open>lib/libwebsockets.c\<close>: the table of sockets that are polled, the
  connections behind them, requests to all connections of a protocol, time-outs, and closing a connection. A
  connection is known by its address, a number; a freed one is not in the map any more, and using it
  is \<open>None\<close>. The \<open>events\<close> column of the table is kept with the connections.
\<close>

section \<open>State\<close>

record 'e lws_context =
  max_fds :: int
  fds :: "int list"
  fds_count :: int
  lws_lookup :: "nat option list"
  conns :: "nat \<Rightarrow> server_conn option"
  conn_extensions :: "nat \<Rightarrow> 'e lws_extension list"
  service_buffer :: bytes
  last_timeout_check_s :: u32
  listen_service_fd :: int
  listen_service_count :: int
  listen_service_modulo :: int
  listen_service_extraseen :: int
  use_ssl :: bool

type_synonym 'e lws = "'e lws_context \<times> 'e"

text \<open>
  What this layer calls of the system: the clock in seconds, closing a file, and closing a socket with or
  without its TLS session.
\<close>

record 'e sys =
  gettimeofday :: "'e \<Rightarrow> u32 \<times> 'e"
  close_file :: "int \<Rightarrow> 'e \<Rightarrow> 'e"
  has_ssl :: "int \<Rightarrow> 'e \<Rightarrow> bool"
  close_ssl :: "int \<Rightarrow> 'e \<Rightarrow> 'e"
  close_socket :: "int \<Rightarrow> 'e \<Rightarrow> 'e"

abbreviation (input) NO_PENDING_TIMEOUT :: nat where "NO_PENDING_TIMEOUT \<equiv> 0"
abbreviation (input) PENDING_TIMEOUT_CLOSE_ACK :: nat where "PENDING_TIMEOUT_CLOSE_ACK \<equiv> 6"
abbreviation (input) PENDING_TIMEOUT_SSL_ACCEPT :: nat where "PENDING_TIMEOUT_SSL_ACCEPT \<equiv> 9"
abbreviation (input) LWS_CLOSE_STATUS_NOSTATUS :: u16 where "LWS_CLOSE_STATUS_NOSTATUS \<equiv> 0"

definition get_at :: "'a list \<Rightarrow> int \<Rightarrow> 'a option" where
  "get_at xs i = (if 0 \<le> i then nth_opt xs (nat i) else None)"

definition set_at :: "'a list \<Rightarrow> int \<Rightarrow> 'a \<Rightarrow> 'a list option" where
  "set_at xs i x = (if 0 \<le> i then update_opt xs (nat i) x else None)"

definition set_ws :: "nat \<Rightarrow> wsi \<Rightarrow> 'e lws_context \<Rightarrow> 'e lws_context" where
  "set_ws a w ctx = ctx\<lparr>conns := (conns ctx)(a := map_option (\<lambda>c. c\<lparr>ws := w\<rparr>) (conns ctx a))\<rparr>"

text \<open>
  The callouts of an established connection: its own extensions, and the callback of the protocol it
  selected, for which there are no headers any more.
\<close>

definition conn_ops :: "'e server \<Rightarrow> 'e lws_extension list \<Rightarrow> wsi \<Rightarrow> 'e ws_ops" where
  "conn_ops sv exts w = (base_ops sv)\<lparr>active_extensions := map extension_callback exts,
     callback := (case protocol_entry_of sv w of
        None \<Rightarrow> (\<lambda>r b s. (0, s))
      | Some p \<Rightarrow> (case protocol_callback p of None \<Rightarrow> (\<lambda>r b s. (0, s)) | Some f \<Rightarrow> f None))\<rparr>"

section \<open>The table of sockets\<close>

text \<open>The result of the callback that mirrors the table is not looked at.\<close>

definition insert_wsi_socket_into_fds :: "'e server \<Rightarrow> nat \<Rightarrow> 'e lws \<Rightarrow> (int \<times> 'e lws) option" where
  "insert_wsi_socket_into_fds sv a = (\<lambda>(ctx, e).
     if fds_count ctx \<ge> max_fds ctx then Some (1, ctx, e)
     else do {
       c \<leftarrow> conns ctx a;
       let w = ws c in
       if sock w > max_fds ctx then Some (1, ctx, e)
       else do {
         lk \<leftarrow> set_at (lws_lookup ctx) (sock w) (Some a);
         fs \<leftarrow> set_at (fds ctx) (fds_count ctx) (sock w);
         let w = w\<lparr>position_in_fds_table := fds_count ctx, events_POLLIN := True, events_POLLOUT := False\<rparr>;
             (w, e) = poll_callback (base_ops sv) LWS_CALLBACK_ADD_POLL_FD POLLIN (w, e)
         in Some (0, set_ws a w (ctx\<lparr>lws_lookup := lk, fds := fs, fds_count := fds_count ctx + 1\<rparr>), e) } })"

definition remove_wsi_socket_from_fds :: "'e server \<Rightarrow> nat \<Rightarrow> 'e lws \<Rightarrow> (int \<times> 'e lws) option" where
  "remove_wsi_socket_from_fds sv a = (\<lambda>(ctx, e).
     do {
       c \<leftarrow> conns ctx a;
       let w = ws c; ctx = ctx\<lparr>fds_count := fds_count ctx - 1\<rparr>;
           do_ext = (\<lambda>(ctx, e). do {
              c \<leftarrow> conns ctx a;
              if sock (ws c) \<noteq> 0 then
                let (w, e) = poll_callback (base_ops sv) LWS_CALLBACK_DEL_POLL_FD NO_EVENTS (ws c, e)
                in Some (0, set_ws a w ctx, e)
              else Some (0, ctx, e) })
       in if fds_count ctx = 0 then do_ext (ctx, e)
          else if sock w > max_fds ctx then Some (1, ctx, e)
          else
            let m = position_in_fds_table w
            in do {
              end_fd \<leftarrow> get_at (fds ctx) (fds_count ctx);
              fs \<leftarrow> set_at (fds ctx) m end_fd;
              entry \<leftarrow> get_at (lws_lookup ctx) end_fd;
              b \<leftarrow> entry;
              d \<leftarrow> conns ctx b;
              let ctx = set_ws b ((ws d)\<lparr>position_in_fds_table := m\<rparr>) (ctx\<lparr>fds := fs\<rparr>)
              in do {
                lk \<leftarrow> set_at (lws_lookup ctx) (sock w) None;
                c \<leftarrow> conns ctx a;
                do_ext (set_ws a ((ws c)\<lparr>position_in_fds_table := -1\<rparr>) (ctx\<lparr>lws_lookup := lk\<rparr>), e) } } })"

section \<open>All connections of a protocol\<close>

text \<open>The loop over the table, from position \<open>n\<close> on, for the connections of protocol \<open>p\<close>.\<close>

fun each_of_protocol ::
  "(wsi \<times> 'e \<Rightarrow> 'e lws_extension list \<Rightarrow> wsi \<times> 'e) \<Rightarrow> int \<Rightarrow> int list \<Rightarrow> 'e lws \<Rightarrow> 'e lws option" where
  "each_of_protocol f p [] s = Some s"
| "each_of_protocol f p (n # ns) (ctx, e) =
     do {
       fd \<leftarrow> get_at (fds ctx) n;
       entry \<leftarrow> get_at (lws_lookup ctx) fd;
       (case entry of
          None \<Rightarrow> each_of_protocol f p ns (ctx, e)
        | Some a \<Rightarrow>
            do {
              c \<leftarrow> conns ctx a;
              if protocol_index (protocol (ws c)) = p then
                let (w, e) = f (ws c, e) (conn_extensions ctx a) in each_of_protocol f p ns (set_ws a w ctx, e)
              else each_of_protocol f p ns (ctx, e) }) }"

definition libwebsocket_callback_on_writable_all_protocol :: "'e server \<Rightarrow> int \<Rightarrow> 'e lws \<Rightarrow> 'e lws option" where
  "libwebsocket_callback_on_writable_all_protocol sv p = (\<lambda>(ctx, e).
     each_of_protocol (\<lambda>s exts. snd (libwebsocket_callback_on_writable (conn_ops sv exts (fst s)) s)) p
       [0..fds_count ctx - 1] (ctx, e))"

definition libwebsocket_rx_flow_allow_all_protocol :: "int \<Rightarrow> 'e lws \<Rightarrow> 'e lws option" where
  "libwebsocket_rx_flow_allow_all_protocol p = (\<lambda>(ctx, e).
     each_of_protocol (\<lambda>(w, e) exts. (libwebsocket_rx_flow_control w True, e)) p [0..fds_count ctx - 1] (ctx, e))"

section \<open>Closing\<close>

definition libwebsocket_set_timeout :: "'e sys \<Rightarrow> nat \<Rightarrow> u32 \<Rightarrow> 'e conn \<Rightarrow> 'e conn" where
  "libwebsocket_set_timeout sy reason secs = (\<lambda>(w, e).
     let (sec, e) = gettimeofday sy e in (w\<lparr>pending_timeout_limit := sec + secs, pending_timeout := reason\<rparr>, e))"

text \<open>Extensions are called for their effect, or for whether one has more to flush.\<close>

fun ext_all :: "ext_reason \<Rightarrow> 'e ext list \<Rightarrow> 'e conn \<Rightarrow> 'e conn" where
  "ext_all r [] s = s"
| "ext_all r (f # fs) s = (let (m, tok, s) = f r null_tokens s in ext_all r fs s)"

partial_function (option) flush_extensions :: "'e ws_ops \<Rightarrow> 'e conn \<Rightarrow> (bool \<times> 'e conn) option" where
  "flush_extensions ops s =
     (let (failed, more, tok, s) = ext_each LWS_EXT_CALLBACK_FLUSH_PENDING_TX (active_extensions ops) False null_tokens s
      in if failed then Some (False, s)
         else
           Option.bind
             (if token_len tok \<noteq> 0 then
                Option.bind (token_bytes tok) (\<lambda>b.
                  Option.bind (lws_issue_raw ops b s) (\<lambda>(n, s). Some (n = int (token_len tok), s)))
              else Some (True, s))
             (\<lambda>(ok, s). if \<not> ok then Some (False, s)
                else if more then flush_extensions ops s else Some (True, s)))"

text \<open>The label \<open>just_kill_connection\<close>. \<open>old_state\<close> is the state before the close began.\<close>

definition call_closed :: "'e server \<Rightarrow> lws_connection_states \<Rightarrow> 'e conn \<Rightarrow> 'e conn option" where
  "call_closed sv old_state = (\<lambda>(w, e).
     (case Option.bind (protocol_entry_of sv w) protocol_callback of
        Some f \<Rightarrow>
          if old_state \<in> {WSI_STATE_ESTABLISHED, WSI_STATE_RETURNED_CLOSE_ALREADY, WSI_STATE_AWAITING_CLOSE_ACK}
          then Some (snd (f None LWS_CALLBACK_CLOSED [] (w, e)))
          else if mode w = LWS_CONNMODE_HTTP_SERVING_ACCEPTED
          then map_option snd (call_protocol sv 0 None LWS_CALLBACK_CLOSED_HTTP [] (w, e))
          else Some (w, e)
      | None \<Rightarrow>
          if mode w = LWS_CONNMODE_HTTP_SERVING_ACCEPTED
          then map_option snd (call_protocol sv 0 None LWS_CALLBACK_CLOSED_HTTP [] (w, e))
          else Some (w, e)))"

definition just_kill_connection ::
  "'e server \<Rightarrow> 'e sys \<Rightarrow> nat \<Rightarrow> lws_connection_states \<Rightarrow> 'e lws \<Rightarrow> 'e lws option" where
  "just_kill_connection sv sy a old_state s =
     do {
       (r, ctx, e) \<leftarrow> remove_wsi_socket_from_fds sv a s;
       c \<leftarrow> conns ctx a;
       let w = (ws c)\<lparr>state := WSI_STATE_DEAD_SOCKET\<rparr>;
           w = (if old_state = WSI_STATE_ESTABLISHED \<or> mode w \<in> {LWS_CONNMODE_WS_SERVING, LWS_CONNMODE_WS_CLIENT}
                then w\<lparr>rx_user_buffer := [], rxflow_buffer := None, truncated_send_malloc := None\<rparr> else w)
       in do {
         (w, e) \<leftarrow> call_closed sv old_state (w, e);
         let (w, e) = ext_all LWS_EXT_CALLBACK_DESTROY (map extension_callback (conn_extensions ctx a)) (w, e);
             (w, e) = ext_all LWS_EXT_CALLBACK_DESTROY_ANY_WSI_CLOSING (map extension_callback (extensions sv)) (w, e);
             e = (if has_ssl sy (sock w) e then close_ssl sy (sock w) e
                  else if sock w \<noteq> 0 then close_socket sy (sock w) e else e)
         in Some (ctx\<lparr>conns := (conns ctx)(a := None)\<rparr>, e) } }"

definition libwebsocket_close_and_free_session ::
  "'e server \<Rightarrow> 'e sys \<Rightarrow> nat \<Rightarrow> u16 \<Rightarrow> 'e lws \<Rightarrow> 'e lws option" where
  "libwebsocket_close_and_free_session sv sy a reason = (\<lambda>(ctx, e).
     do {
       c \<leftarrow> conns ctx a;
       let w = ws c; old_state = state w; exts = conn_extensions ctx a in
       if old_state = WSI_STATE_DEAD_SOCKET then Some (ctx, e)
       else if old_state = WSI_STATE_AWAITING_CLOSE_ACK then just_kill_connection sv sy a old_state (ctx, e)
       else
         let w = w\<lparr>close_reason := reason\<rparr>
         in if mode w \<in> {LWS_CONNMODE_WS_CLIENT_WAITING_CONNECT, LWS_CONNMODE_WS_CLIENT_ISSUE_HANDSHAKE} then
              do {
                (r, w, e) \<leftarrow> call_protocol sv 0 None LWS_CALLBACK_CLIENT_CONNECTION_ERROR [] (w, e);
                p \<leftarrow> free_ptr (ah_ptr c);
                just_kill_connection sv sy a old_state
                  (ctx\<lparr>conns := (conns ctx)(a \<mapsto> c\<lparr>ws := w, ah_ptr := p\<rparr>)\<rparr>, e) }
            else
              do {
                (w, e) \<leftarrow> (if mode w = LWS_CONNMODE_HTTP_SERVING_ACCEPTED \<and> http_fd w \<noteq> 0
                    then map_option snd (call_protocol sv 0 None LWS_CALLBACK_CLOSED_HTTP []
                           (w\<lparr>http_fd := 0\<rparr>, close_file sy (http_fd w) e))
                    else Some (w, e));
                let (veto, tok, w, e) =
                  ext_first LWS_EXT_CALLBACK_CHECK_OK_TO_REALLY_CLOSE (map extension_callback exts) null_tokens (w, e)
                in if veto \<noteq> 0 then Some (set_ws a w ctx, e)
                   else do {
                     (ok, w, e) \<leftarrow> flush_extensions (conn_ops sv exts w) (w, e);
                     if \<not> ok then just_kill_connection sv sy a old_state (set_ws a w ctx, e)
                     else if old_state = WSI_STATE_ESTABLISHED \<and> reason \<noteq> LWS_CLOSE_STATUS_NOSTATUS then
                       do {
                         (n, mem, w, e) \<leftarrow> libwebsocket_write (conn_ops sv exts w)
                            (replicate (LWS_SEND_BUFFER_PRE_PADDING + 2 + LWS_SEND_BUFFER_POST_PADDING) 0)
                            (LWS_SEND_BUFFER_PRE_PADDING + 2) 0 LWS_WRITE_CLOSE (w, e);
                         if n \<ge> 0 then
                           let (w, e) = libwebsocket_set_timeout sy PENDING_TIMEOUT_CLOSE_ACK 1
                                 (w\<lparr>state := WSI_STATE_AWAITING_CLOSE_ACK\<rparr>, e)
                           in Some (set_ws a w ctx, e)
                         else just_kill_connection sv sy a old_state (set_ws a w ctx, e) }
                     else just_kill_connection sv sy a old_state (set_ws a w ctx, e) } } })"

section \<open>Time-outs\<close>

definition libwebsocket_service_timeout_check ::
  "'e server \<Rightarrow> 'e sys \<Rightarrow> nat \<Rightarrow> u32 \<Rightarrow> 'e lws \<Rightarrow> (bool \<times> 'e lws) option" where
  "libwebsocket_service_timeout_check sv sy a sec = (\<lambda>(ctx, e).
     do {
       c \<leftarrow> conns ctx a;
       let (w, e) = ext_all LWS_EXT_CALLBACK_1HZ (map extension_callback (conn_extensions ctx a)) (ws c, e);
           ctx = set_ws a w ctx
       in if pending_timeout w = NO_PENDING_TIMEOUT then Some (False, ctx, e)
          else if sec > pending_timeout_limit w then
            do { s \<leftarrow> libwebsocket_close_and_free_session sv sy a LWS_CLOSE_STATUS_NOSTATUS (ctx, e); Some (True, s) }
          else Some (False, ctx, e) })"

text \<open>
  The check of all connections, once per second: the loop of \<open>libwebsocket_service_fd\<close>, with the descriptor
  to be serviced. The result says whether that one timed out.
\<close>

partial_function (option) timeout_loop ::
  "'e server \<Rightarrow> 'e sys \<Rightarrow> u32 \<Rightarrow> int \<Rightarrow> int \<Rightarrow> bool \<Rightarrow> 'e lws \<Rightarrow> (bool \<times> 'e lws) option" where
  "timeout_loop sv sy sec our_fd n timed_out s =
     (if n < fds_count (fst s) then
        Option.bind (get_at (fds (fst s)) n) (\<lambda>m.
          Option.bind (get_at (lws_lookup (fst s)) m) (\<lambda>entry.
            case entry of
              None \<Rightarrow> timeout_loop sv sy sec our_fd (n + 1) timed_out s
            | Some a \<Rightarrow>
                Option.bind (libwebsocket_service_timeout_check sv sy a sec s) (\<lambda>(out, s).
                  timeout_loop sv sy sec our_fd (n + 1) (timed_out \<or> (out \<and> m = our_fd)) s)))
      else Some (timed_out, s))"

end
