(* ===== verification/Ws_Accept.thy ===== *)
theory Ws_Accept
  imports Ws_Context Ws_Receive
begin

text \<open>
  Bytes from a client, \<open>libwebsocket_read\<close> of \<open>lib/handshake.c\<close>: collecting the headers of a request, serving it as
  plain HTTP, or selecting a protocol, asking the application, and making the connection a
  websocket. The server half of the function is modelled; the build defines \<open>LWS_NO_CLIENT\<close>.
\<close>

section \<open>State\<close>

text \<open>What this layer needs besides: memory from \<open>malloc\<close> with whatever it holds, a socket option, and what the uninitialised
  local array of the handshake holds.\<close>

record 'e net = "'e sys" +
  malloc_bytes :: "nat \<Rightarrow> 'e \<Rightarrow> bytes option \<times> 'e"
  setsockopt :: "int \<Rightarrow> nat \<Rightarrow> 'e \<Rightarrow> bool \<times> 'e"
  ext_name_array :: "'e \<Rightarrow> bytes"

text \<open>\<open>memset(&wsi->u, 0, sizeof(wsi->u))\<close>; the headers are then out of reach of the callbacks.\<close>

definition union_clear :: "wsi \<Rightarrow> wsi" where
  "union_clear w = w\<lparr>http_fd := 0, http_filepos := 0, http_filelen := 0, rx_user_buffer := [], rx_user_buffer_head := 0,
     frame_masking_nonce_04 := [0, 0, 0, 0], frame_mask_index := 0, rx_packet_length := 0, opcode := 0, final := False,
     rsv := 0, frame_is_binary := False, all_zero_nonce := False, close_reason := 0, rxflow_buffer := None,
     rxflow_len := 0, rxflow_pos := 0, rxflow_change_to := 0, this_frame_masked := False, inside_frame := False,
     clean_buffer := False, truncated_send_malloc := None, truncated_send_offset := 0, truncated_send_len := 0\<rparr>"

definition set_conn :: "nat \<Rightarrow> server_conn \<Rightarrow> 'e lws_context \<Rightarrow> 'e lws_context" where
  "set_conn a c ctx = ctx\<lparr>conns := (conns ctx)(a \<mapsto> c)\<rparr>"

section \<open>Giving up\<close>

definition bail :: "'e server \<Rightarrow> ('e, 'x) sys_scheme \<Rightarrow> nat \<Rightarrow> 'e lws \<Rightarrow> (int \<times> 'e lws) option" where
  "bail sv sy a s =
     do { s \<leftarrow> libwebsocket_close_and_free_session sv (sys.truncate sy) a LWS_CLOSE_STATUS_NOSTATUS s; Some (-1, s) }"

definition bail_nuke_ah :: "'e server \<Rightarrow> ('e, 'x) sys_scheme \<Rightarrow> nat \<Rightarrow> 'e lws \<Rightarrow> (int \<times> 'e lws) option" where
  "bail_nuke_ah sv sy a = (\<lambda>(ctx, e).
     do { c \<leftarrow> conns ctx a;
          p \<leftarrow> free_ptr (ah_ptr c);
          bail sv sy a (set_conn a (c\<lparr>ah_ptr := p\<rparr>) ctx, e) })"

section \<open>Selecting a protocol\<close>

text \<open>\<open>wanted\<close> is the string of the protocol header, if it has a length; the array ends with an entry without a callback.\<close>

fun select_protocol :: "'e protocol_entry list \<Rightarrow> bytes option \<Rightarrow> nat \<Rightarrow> nat option" where
  "select_protocol [] wanted i = None"
| "select_protocol (p # ps) wanted i =
     (if protocol_callback p = None then Some i
      else if (case wanted of None \<Rightarrow> protocol_name p = None | Some v \<Rightarrow> protocol_name p = Some v) then Some i
      else select_protocol ps wanted (Suc i))"

definition header_string :: "allocated_headers \<Rightarrow> nat \<Rightarrow> bytes option option" where
  "header_string t h =
     do { off \<leftarrow> lws_hdr_simple_ptr t h;
          (case off of None \<Rightarrow> Some None | Some off \<Rightarrow> map_option Some (c_string (data t) off)) }"

text \<open>
  The protocol of the request, from the connection's position in the array on, and whether it is one the server has;
  a request that names none and that no entry takes goes to protocol 0.
\<close>

definition requested_protocol :: "'e server \<Rightarrow> allocated_headers \<Rightarrow> wsi \<Rightarrow> (nat \<times> bool) option" where
  "requested_protocol sv t w =
     (if protocol_index (protocol w) < 0 then None
      else do {
        plen \<leftarrow> lws_hdr_total_length t WSI_TOKEN_PROTOCOL;
        wanted \<leftarrow> header_string t WSI_TOKEN_PROTOCOL;
        let i = nat (protocol_index (protocol w))
        in do {
          j \<leftarrow> select_protocol (drop i (protocols sv)) (if plen = 0 then None else wanted) i;
          p \<leftarrow> nth_opt (protocols sv) j;
          Some (if protocol_callback p \<noteq> None then (j, True) else if wanted = None then (0, True) else (j, False)) } })"

section \<open>A plain HTTP request\<close>

definition read_http :: "'e server \<Rightarrow> ('e, 'x) sys_scheme \<Rightarrow> nat \<Rightarrow> server_conn \<Rightarrow> 'e lws \<Rightarrow> (int \<times> 'e lws) option" where
  "read_http sv sy a c = (\<lambda>(ctx, e).
     let t = ah (hdr c) in
     do {
       ulen \<leftarrow> lws_hdr_total_length t WSI_TOKEN_GET_URI;
       if ulen = 0 then bail_nuke_ah sv sy a (set_conn a c ctx, e)
       else
         let (r, w, e) = libwebsocket_ensure_user_space (base_ops sv) (ws c, e); c = c\<lparr>ws := w\<rparr>
         in if r \<noteq> 0 then bail_nuke_ah sv sy a (set_conn a c ctx, e)
            else do {
              uri \<leftarrow> header_string t WSI_TOKEN_GET_URI;
              uri \<leftarrow> uri;
              let w = (union_clear w)\<lparr>mode := LWS_CONNMODE_HTTP_SERVING_ACCEPTED, state := WSI_STATE_HTTP\<rparr>
              in do {
                p \<leftarrow> protocol_entry_of sv w;
                let (n, w, e) = (case protocol_callback p of None \<Rightarrow> (0, w, e) | Some f \<Rightarrow> f None LWS_CALLBACK_HTTP uri (w, e));
                    s = (set_conn a (c\<lparr>ws := w, ah_ptr := NULL_PTR\<rparr>) ctx, e)
                in if n \<noteq> 0 then bail sv sy a s else Some (0, s) } } })"

section \<open>A websocket request\<close>

definition become_websocket ::
  "'e server \<Rightarrow> ('e, 'x) net_scheme \<Rightarrow> nat \<Rightarrow> server_conn \<Rightarrow> 'e lws \<Rightarrow> (int \<times> 'e lws) option" where
  "become_websocket sv sy a c = (\<lambda>(ctx, e).
     do {
       p \<leftarrow> free_ptr (ah_ptr c);
       let w = (union_clear ((ws c)\<lparr>mode := LWS_CONNMODE_WS_SERVING\<rparr>))\<lparr>rxflow_change_to := LWS_RXFLOW_ALLOW\<rparr>;
           n = rx_buffer_size (protocol w);
           n = (if n = 0 then LWS_MAX_SOCKET_IO_BUF else n) + LWS_SEND_BUFFER_PRE_PADDING + LWS_SEND_BUFFER_POST_PADDING;
           (m, e) = malloc_bytes sy n e
       in (case m of
             None \<Rightarrow> bail sv sy a (set_conn a (c\<lparr>ws := w, ah_ptr := NULL_PTR\<rparr>) ctx, e)
           | Some mem \<Rightarrow>
               let (ok, e) = setsockopt sy (sock w) n e;
                   s = (set_conn a (c\<lparr>ws := w\<lparr>rx_user_buffer := mem\<rparr>, ah_ptr := NULL_PTR\<rparr>) ctx, e)
               in if \<not> ok then bail sv sy a s else Some (0, s)) })"

definition read_upgrade ::
  "'e server \<Rightarrow> ('e, 'x) net_scheme \<Rightarrow> nat \<Rightarrow> server_conn \<Rightarrow> 'e lws \<Rightarrow> (int \<times> 'e lws) option" where
  "read_upgrade sv sy a c = (\<lambda>(ctx, e).
     let t = ah (hdr c) in
     do {
       (i, found) \<leftarrow> requested_protocol sv t (ws c);
       p \<leftarrow> nth_opt (protocols sv) i;
       let c = c\<lparr>ws := (ws c)\<lparr>protocol := protocol_fields p\<rparr>\<rparr> in
       if \<not> found then bail_nuke_ah sv sy a (set_conn a c ctx, e)
       else
         let (r, w, e) = libwebsocket_ensure_user_space (base_ops sv) (ws c, e); c = c\<lparr>ws := w\<rparr>
         in if r \<noteq> 0 then bail_nuke_ah sv sy a (set_conn a c ctx, e)
            else do {
              pstr \<leftarrow> header_string t WSI_TOKEN_PROTOCOL;
              (n, w, e) \<leftarrow> call_protocol sv i (Some t) LWS_CALLBACK_FILTER_PROTOCOL_CONNECTION
                 (case pstr of None \<Rightarrow> [] | Some v \<Rightarrow> v) (w, e);
              let c = c\<lparr>ws := w\<rparr>
              in if n \<noteq> 0 \<or> ietf_spec_revision (hdr c) \<noteq> 13 then bail_nuke_ah sv sy a (set_conn a c ctx, e)
                 else do {
                   (r, mem, active, c, e) \<leftarrow> handshake_0405 sv (ext_name_array sy e) (service_buffer ctx) c e;
                   let ctx = ctx\<lparr>conn_extensions := (conn_extensions ctx)(a := active), service_buffer := mem\<rparr>
                   in if r \<noteq> 0 then bail_nuke_ah sv sy a (set_conn a c ctx, e)
                      else become_websocket sv sy a c (ctx, e) } } })"

section \<open>libwebsocket_read\<close>

text \<open>The revision the client announced is one field of the connection, which both of its halves have.\<close>

definition read_headers ::
  "'e server \<Rightarrow> ('e, 'x) net_scheme \<Rightarrow> nat \<Rightarrow> bytes \<Rightarrow> server_conn \<Rightarrow> 'e lws \<Rightarrow> (int \<times> 'e lws) option" where
  "read_headers sv sy a buf c = (\<lambda>(ctx, e).
     if buf \<noteq> [] \<and> ah_ptr c \<noteq> LIVE then None
     else do {
       (h, r) \<leftarrow> parse_bytes (hdr c) buf;
       let c = c\<lparr>hdr := h, ws := (ws c)\<lparr>wsi_spec_revision := ietf_spec_revision h\<rparr>\<rparr>
       in if r \<noteq> 0 then bail_nuke_ah sv sy a (set_conn a c ctx, e)
          else if parser_state h \<noteq> WSI_PARSING_COMPLETE then Some (0, set_conn a c ctx, e)
          else
            let c = c\<lparr>ws := (ws c)\<lparr>mode := LWS_CONNMODE_PRE_WS_SERVING_ACCEPT\<rparr>\<rparr>
            in do {
              ulen \<leftarrow> lws_hdr_total_length (ah h) WSI_TOKEN_UPGRADE;
              clen \<leftarrow> lws_hdr_total_length (ah h) WSI_TOKEN_CONNECTION;
              if ulen = 0 \<or> clen = 0 then read_http sv sy a c (ctx, e)
              else read_upgrade sv sy a c (ctx, e) } })"

definition libwebsocket_read ::
  "'e server \<Rightarrow> ('e, 'x) net_scheme \<Rightarrow> nat \<Rightarrow> bytes \<Rightarrow> 'e lws \<Rightarrow> (int \<times> 'e lws) option" where
  "libwebsocket_read sv sy a buf = (\<lambda>(ctx, e).
     do {
       c \<leftarrow> conns ctx a;
       (if state (ws c) \<in> {WSI_STATE_HTTP_ISSUING_FILE, WSI_STATE_HTTP} then
          read_headers sv sy a buf
            (c\<lparr>ws := (ws c)\<lparr>state := WSI_STATE_HTTP_HEADERS\<rparr>,
               hdr := (hdr c)\<lparr>parser_state := WSI_TOKEN_NAME_PART, lextable_pos := 0\<rparr>\<rparr>) (ctx, e)
        else if state (ws c) = WSI_STATE_HTTP_HEADERS then
          read_headers sv sy a buf c (ctx, e)
        else if state (ws c) \<in> {WSI_STATE_AWAITING_CLOSE_ACK, WSI_STATE_ESTABLISHED} then
          do {
            (n, w, e) \<leftarrow> libwebsocket_interpret_incoming_packet (conn_ops sv (conn_extensions ctx a) (ws c)) buf (ws c, e);
            if n < 0 then bail sv sy a (set_ws a w ctx, e) else Some (0, set_ws a w ctx, e) }
        else Some (0, ctx, e)) })"

end
