(* ===== verification/Http_File.thy ===== *)
theory Http_File
  imports Ws_Send
begin

text \<open>
  Sending a file over plain HTTP, the end of \<open>lib/output.c\<close>: the response header, and the file in pieces of the
  size of the service buffer as long as the socket takes more. \<open>None\<close> is an access outside of
  the service buffer, or a loop that does not end.
\<close>

text \<open>
  The files of the system: \<open>open\<close> for reading, the size that \<open>fstat\<close> tells, \<open>read\<close>, which fails or gives at most so many
  bytes, \<open>lseek\<close> from the current position, and \<open>close\<close>.
\<close>

record 'e files =
  open_file :: "bytes \<Rightarrow> 'e \<Rightarrow> int \<times> 'e"
  st_size :: "int \<Rightarrow> 'e \<Rightarrow> u32 \<times> 'e"
  read_file :: "int \<Rightarrow> nat \<Rightarrow> 'e \<Rightarrow> bytes option \<times> 'e"
  lseek_cur :: "int \<Rightarrow> int \<Rightarrow> 'e \<Rightarrow> 'e"
  close_fd :: "int \<Rightarrow> 'e \<Rightarrow> 'e"

text \<open>The format \<open>%u\<close>.\<close>

fun decimal :: "nat \<Rightarrow> bytes" where
  "decimal n = (if n < 10 then [word_of_nat (48 + n)] else decimal (n div 10) @ [word_of_nat (48 + n mod 10)])"

declare decimal.simps [simp del]

text \<open>The first argument of the state is the service buffer. The result of the callback is not looked at.\<close>

partial_function (option) libwebsockets_serve_http_file_fragment ::
  "'e ws_ops \<Rightarrow> ('e, 'x) files_scheme \<Rightarrow> bytes \<Rightarrow> 'e conn \<Rightarrow> (int \<times> bytes \<times> 'e conn) option" where
  "libwebsockets_serve_http_file_fragment ops fs mem s =
     (case s of (w, e) \<Rightarrow>
        let (full, e) = choked ops e
        in if full then Some (0, mem, snd (libwebsocket_callback_on_writable ops (w, e)))
           else
             (case read_file fs (http_fd w) LWS_MAX_SOCKET_IO_BUF e of
                (None, e) \<Rightarrow> Some (-1, mem, w, e)
              | (Some bs, e) \<Rightarrow>
                  Option.bind
                    (if bs = [] then Some (False, mem, w, e)
                     else
                       Option.bind (put_at mem 0 bs) (\<lambda>mem.
                         Option.bind (libwebsocket_write ops mem 0 (length bs) LWS_WRITE_HTTP (w, e)) (\<lambda>(m, mem, w, e).
                           if m < 0 then Some (True, mem, w, e)
                           else Some (False, mem, w\<lparr>http_filepos := http_filepos w + word_of_int m\<rparr>,
                                  if m \<noteq> int (length bs) then lseek_cur fs (http_fd w) (m - int (length bs)) e else e))))
                    (\<lambda>(failed, mem, w, e).
                      if failed then Some (-1, mem, w, e)
                      else if http_filepos w = http_filelen w then
                        let w = w\<lparr>state := WSI_STATE_HTTP\<rparr>
                        in Some (1, mem, if has_callback (protocol w)
                             then snd (user_callback_handle_rxflow ops LWS_CALLBACK_HTTP_FILE_COMPLETION [] (w, e)) else (w, e))
                      else libwebsockets_serve_http_file_fragment ops fs mem (w, e))))"

definition http_bad :: bytes where
  "http_bad = ascii ''HTTP/1.0 400 Bad'' @ [0x0d, 0x0a] @ ascii ''Server: libwebsockets'' @ [0x0d, 0x0a, 0x0d, 0x0a]"

definition http_ok :: "bytes \<Rightarrow> u32 \<Rightarrow> bytes" where
  "http_ok content_type len =
     ascii ''HTTP/1.0 200 OK'' @ [0x0d, 0x0a] @ ascii ''Server: libwebsockets'' @ [0x0d, 0x0a] @ ascii ''Content-Type: '' @
     content_type @ [0x0d, 0x0a] @ ascii ''Content-Length: '' @ decimal (unat len) @ [0x0d, 0x0a, 0x0d, 0x0a]"

definition libwebsockets_serve_http_file ::
  "'e ws_ops \<Rightarrow> ('e, 'x) files_scheme \<Rightarrow> bytes \<Rightarrow> bytes \<Rightarrow> bytes \<Rightarrow> 'e conn \<Rightarrow> (int \<times> bytes \<times> 'e conn) option" where
  "libwebsockets_serve_http_file ops fs file content_type mem = (\<lambda>(w, e).
     let (fd, e) = open_file fs file e; w = w\<lparr>http_fd := fd\<rparr>
     in if fd < 1 then
          do {
            mem \<leftarrow> put_at mem 0 (http_bad @ [0]);
            (n, mem, s) \<leftarrow> libwebsocket_write ops mem 0 (length http_bad) LWS_WRITE_HTTP (w\<lparr>http_fd := 0\<rparr>, e);
            Some (-1, mem, s) }
        else
          let (len, e) = st_size fs fd e; w = w\<lparr>http_filelen := len\<rparr>; head = http_ok content_type len
          in do {
            mem \<leftarrow> put_at mem 0 (head @ [0]);
            (ret, mem, w, e) \<leftarrow> libwebsocket_write ops mem 0 (length head) LWS_WRITE_HTTP (w, e);
            if ret \<noteq> int (length head) then Some (-1, mem, w, e)
            else libwebsockets_serve_http_file_fragment ops fs mem
                   (w\<lparr>http_filepos := 0, state := WSI_STATE_HTTP_ISSUING_FILE\<rparr>, e) })"

end
