(* ===== verification/Ws_Service.thy ===== *)
theory Ws_Service
  imports Ws_Accept Http_File
begin

text \<open>
  Servicing a socket: new connections and plain HTTP, \<open>lib/server.c\<close>, and \<open>libwebsocket_service_fd\<close> of
  \<open>lib/libwebsockets.c\<close>, which checks time-outs, lets the listening socket have a turn, and reads from and
  writes to websockets.
\<close>

section \<open>Sockets\<close>

datatype recv_result = Received bytes | Try_again | Recv_failed

datatype ssl_result = Ssl_accepted | Ssl_want_read | Ssl_want_write | Ssl_failed

text \<open>What \<open>poll\<close> reported for a descriptor; the third is one of \<open>POLLERR\<close> and \<open>POLLHUP\<close>.\<close>

record revents =
  re_in :: bool
  re_out :: bool
  re_dead :: bool

text \<open>
  The system below: receiving from a socket, with or without TLS; accepting a connection; memory for it, at an address,
  and for its headers; TLS; what \<open>poll\<close> has for one descriptor right now.
\<close>

record 'e sockets = "'e net" +
  recv :: "int \<Rightarrow> nat \<Rightarrow> 'e \<Rightarrow> recv_result \<times> 'e"
  SSL_read :: "int \<Rightarrow> nat \<Rightarrow> 'e \<Rightarrow> recv_result \<times> 'e"
  SSL_pending :: "int \<Rightarrow> 'e \<Rightarrow> bool"
  SSL_new :: "int \<Rightarrow> 'e \<Rightarrow> bool \<times> 'e"
  SSL_accept :: "int \<Rightarrow> 'e \<Rightarrow> ssl_result \<times> 'e"
  accept_socket :: "int \<Rightarrow> 'e \<Rightarrow> int option \<times> 'e"
  lws_set_socket_options :: "int \<Rightarrow> 'e \<Rightarrow> 'e"
  malloc_wsi :: "'e \<Rightarrow> nat option \<times> 'e"
  malloc_headers :: "'e \<Rightarrow> allocated_headers option \<times> 'e"
  poll_now :: "int \<Rightarrow> 'e \<Rightarrow> revents option \<times> 'e"
  file_system :: "'e files"

abbreviation (input) AWAITING_TIMEOUT :: u32 where "AWAITING_TIMEOUT \<equiv> 5"

definition read_socket :: "('e, 'x) sockets_scheme \<Rightarrow> int \<Rightarrow> 'e \<Rightarrow> recv_result \<times> 'e" where
  "read_socket sy fd e = (if has_ssl sy fd e then SSL_read sy fd LWS_MAX_SOCKET_IO_BUF e
     else recv sy fd LWS_MAX_SOCKET_IO_BUF e)"

definition received_in :: "bytes \<Rightarrow> 'e lws_context \<Rightarrow> 'e lws_context option" where
  "received_in bs ctx = map_option (\<lambda>mem. ctx\<lparr>service_buffer := mem\<rparr>) (put_at (service_buffer ctx) 0 bs)"

section \<open>New connections\<close>

text \<open>The structure is cleared; what is not zero is set after that.\<close>

definition new_wsi :: "ws_protocol \<Rightarrow> int \<Rightarrow> wsi" where
  "new_wsi p fd = \<lparr>protocol = p, sock = fd, pending_timeout = NO_PENDING_TIMEOUT, pending_timeout_limit = 0, user_space = False,
     http_fd = 0, http_filepos = 0, http_filelen = 0, extension_data_pending = False, wsi_spec_revision = 0,
     mode = LWS_CONNMODE_HTTP_SERVING, state = WSI_STATE_HTTP, lws_rx_parse_state = LWS_RXPS_NEW, position_in_fds_table = 0,
     events_POLLIN = False, events_POLLOUT = False, rx_user_buffer = [], rx_user_buffer_head = 0,
     frame_masking_nonce_04 = [0, 0, 0, 0], frame_mask_index = 0, rx_packet_length = 0, opcode = 0, final = False, rsv = 0,
     frame_is_binary = False, all_zero_nonce = False, close_reason = 0, rxflow_buffer = None, rxflow_len = 0, rxflow_pos = 0,
     rxflow_change_to = 0, this_frame_masked = False, inside_frame = False, clean_buffer = False,
     truncated_send_malloc = None, truncated_send_offset = 0, truncated_send_len = 0\<rparr>"

definition libwebsocket_create_new_server_wsi ::
  "'e server \<Rightarrow> ('e, 'x) sockets_scheme \<Rightarrow> int \<Rightarrow> 'e lws \<Rightarrow> (nat option \<times> 'e lws) option" where
  "libwebsocket_create_new_server_wsi sv sy fd = (\<lambda>(ctx, e).
     (case malloc_wsi sy e of
        (None, e) \<Rightarrow> Some (None, ctx, e)
      | (Some a, e) \<Rightarrow>
          (case malloc_headers sy e of
             (None, e) \<Rightarrow> Some (None, ctx, e)
           | (Some mem, e) \<Rightarrow>
               do {
                 p \<leftarrow> nth_opt (protocols sv) 0;
                 t \<leftarrow> fst (lws_allocate_header_table (Some mem));
                 let c = \<lparr>ws = new_wsi (protocol_fields p) fd,
                   hdr = \<lparr>ah = t, lextable_pos = 0, parser_state = 0, ietf_spec_revision = 0, hdr_parsing_completed = False\<rparr>,
                   ah_ptr = LIVE\<rparr>
                 in Some (Some a, set_conn a c ctx\<lparr>conn_extensions := (conn_extensions ctx)(a := [])\<rparr>, e) })))"

section \<open>The server's side\<close>

definition close_nostatus :: "'e server \<Rightarrow> ('e, 'x) sys_scheme \<Rightarrow> nat \<Rightarrow> 'e lws \<Rightarrow> 'e lws option" where
  "close_nostatus sv sy a = libwebsocket_close_and_free_session sv (sys.truncate sy) a LWS_CLOSE_STATUS_NOSTATUS"

text \<open>
  The pending TLS handshake of a connection \<open>a\<close>. The descriptor that is serviced is that of \<open>s\<close>, which is the listener when the
  connection has just been accepted: its flag is cleared.
\<close>

definition ssl_ack_pending :: "'e server \<Rightarrow> ('e, 'x) sockets_scheme \<Rightarrow> nat \<Rightarrow> nat \<Rightarrow> 'e lws \<Rightarrow> (int \<times> 'e lws) option" where
  "ssl_ack_pending sv sy s a = (\<lambda>(ctx, e).
     do {
       d \<leftarrow> conns ctx s;
       let ctx = set_ws s ((ws d)\<lparr>events_POLLOUT := False\<rparr>) ctx in do {
       c \<leftarrow> conns ctx a;
       let (w, e) = poll_callback (base_ops sv) LWS_CALLBACK_CLEAR_MODE_POLL_FD POLLOUT (ws c, e)
       in (case SSL_accept sy (sock w) e of
             (Ssl_want_read, e) \<Rightarrow>
               let (w, e) = poll_callback (base_ops sv) LWS_CALLBACK_SET_MODE_POLL_FD POLLIN (w\<lparr>events_POLLIN := True\<rparr>, e)
               in Some (0, set_ws a w ctx, e)
           | (Ssl_want_write, e) \<Rightarrow>
               let (w, e) = poll_callback (base_ops sv) LWS_CALLBACK_SET_MODE_POLL_FD POLLOUT (w\<lparr>events_POLLOUT := True\<rparr>, e)
               in Some (0, set_ws a w ctx, e)
           | (Ssl_failed, e) \<Rightarrow> do { s \<leftarrow> close_nostatus sv sy a (set_ws a w ctx, e); Some (0, s) }
           | (Ssl_accepted, e) \<Rightarrow>
               let (w, e) = libwebsocket_set_timeout (sys.truncate sy) NO_PENDING_TIMEOUT 0 (w, e)
               in Some (0, set_ws a (w\<lparr>mode := LWS_CONNMODE_HTTP_SERVING\<rparr>) ctx, e)) } })"

text \<open>
  The listening socket is readable. The callback of protocol 0 may refuse the socket, whose number it is given in
  place of a pointer. When there is no room for the TLS state the connection is freed, its headers are not.
\<close>

definition accept_connection ::
  "'e server \<Rightarrow> ('e, 'x) sockets_scheme \<Rightarrow> nat \<Rightarrow> (int \<Rightarrow> 'e conn \<Rightarrow> bool \<times> 'e conn) \<Rightarrow> 'e lws \<Rightarrow> (int \<times> 'e lws) option" where
  "accept_connection sv sy a refuse = (\<lambda>(ctx, e).
     do {
       c \<leftarrow> conns ctx a;
       (case accept_socket sy (sock (ws c)) e of
          (None, e) \<Rightarrow> Some (0, ctx, e)
        | (Some fd, e) \<Rightarrow>
            let e = lws_set_socket_options sy fd e; (denied, w, e) = refuse fd (ws c, e); ctx = set_ws a w ctx
            in if denied then Some (0, ctx, close_socket sy fd e)
               else do {
                 (new, ctx, e) \<leftarrow> libwebsocket_create_new_server_wsi sv sy fd (ctx, e);
                 (case new of
                    None \<Rightarrow> Some (0, ctx, close_socket sy fd e)
                  | Some b \<Rightarrow>
                      if \<not> use_ssl ctx then do { (r, s) \<leftarrow> insert_wsi_socket_into_fds sv b (ctx, e); Some (0, s) }
                      else
                        let (ok, e) = SSL_new sy fd e
                        in if \<not> ok then Some (0, ctx\<lparr>conns := (conns ctx)(b := None)\<rparr>, close_socket sy fd e)
                           else do {
                             d \<leftarrow> conns ctx b;
                             let ctx = set_ws b ((ws d)\<lparr>mode := LWS_CONNMODE_SSL_ACK_PENDING\<rparr>) ctx in do {
                               (r, ctx, e) \<leftarrow> insert_wsi_socket_into_fds sv b (ctx, e);
                               d \<leftarrow> conns ctx b;
                               let (w, e) = libwebsocket_set_timeout (sys.truncate sy) PENDING_TIMEOUT_SSL_ACCEPT AWAITING_TIMEOUT (ws d, e)
                               in ssl_ack_pending sv sy a b (set_ws b w ctx, e) } }) }) })"

text \<open>The part for \<open>POLLOUT\<close> of a connection that serves HTTP.\<close>

definition http_writable :: "'e server \<Rightarrow> ('e, 'x) sockets_scheme \<Rightarrow> nat \<Rightarrow> 'e lws \<Rightarrow> (int \<times> 'e lws) option" where
  "http_writable sv sy a = (\<lambda>(ctx, e).
     do {
       c \<leftarrow> conns ctx a;
       let w = (ws c)\<lparr>events_POLLOUT := False\<rparr>; ops = conn_ops sv (conn_extensions ctx a) w
       in if state w \<noteq> WSI_STATE_HTTP_ISSUING_FILE then
            let (n, w, e) = user_callback_handle_rxflow ops LWS_CALLBACK_HTTP_WRITEABLE [] (w, e); s = (set_ws a w ctx, e)
            in if n < 0 then do { s \<leftarrow> close_nostatus sv sy a s; Some (0, s) } else Some (0, s)
          else do {
            (r, mem, w, e) \<leftarrow> libwebsockets_serve_http_file_fragment ops (file_system sy) (service_buffer ctx) (w, e);
            let s = (set_ws a w (ctx\<lparr>service_buffer := mem\<rparr>), e)
            in if r \<noteq> 0 then do { s \<leftarrow> close_nostatus sv sy a s; Some (0, s) } else Some (0, s) } })"

definition serve_http_socket ::
  "'e server \<Rightarrow> ('e, 'x) sockets_scheme \<Rightarrow> nat \<Rightarrow> revents \<Rightarrow> 'e lws \<Rightarrow> (int \<times> 'e lws) option" where
  "serve_http_socket sv sy a re = (\<lambda>(ctx, e).
     do {
       c \<leftarrow> conns ctx a;
       (returned, s) \<leftarrow>
         (if \<not> re_in re then Some (False, ctx, e)
          else (case read_socket sy (sock (ws c)) e of
             (Try_again, e) \<Rightarrow> Some (True, ctx, e)
           | (Recv_failed, e) \<Rightarrow> do { s \<leftarrow> close_nostatus sv sy a (ctx, e); Some (True, s) }
           | (Received bs, e) \<Rightarrow>
               if bs = [] then
                 do {
                   p \<leftarrow> (if hdr_parsing_completed (hdr c) then Some (ah_ptr c) else free_ptr (ah_ptr c));
                   s \<leftarrow> close_nostatus sv sy a (set_conn a (c\<lparr>ah_ptr := p\<rparr>) ctx, e);
                   Some (True, s) }
               else do {
                 ctx \<leftarrow> received_in bs ctx;
                 (n, s) \<leftarrow> libwebsocket_read sv sy a bs (ctx, e);
                 Some (n < 0, s) }));
       if returned \<or> \<not> re_out re then Some (0, s) else http_writable sv sy a s })"

definition lws_server_socket_service ::
  "'e server \<Rightarrow> ('e, 'x) sockets_scheme \<Rightarrow> (int \<Rightarrow> 'e conn \<Rightarrow> bool \<times> 'e conn) \<Rightarrow> nat \<Rightarrow> revents \<Rightarrow> 'e lws \<Rightarrow>
     (int \<times> 'e lws) option" where
  "lws_server_socket_service sv sy refuse a re = (\<lambda>(ctx, e).
     do {
       c \<leftarrow> conns ctx a;
       (case mode (ws c) of
          LWS_CONNMODE_HTTP_SERVING \<Rightarrow> serve_http_socket sv sy a re (ctx, e)
        | LWS_CONNMODE_HTTP_SERVING_ACCEPTED \<Rightarrow> serve_http_socket sv sy a re (ctx, e)
        | LWS_CONNMODE_SERVER_LISTENER \<Rightarrow>
            if \<not> re_in re then Some (0, ctx, e) else accept_connection sv sy a refuse (ctx, e)
        | LWS_CONNMODE_SSL_ACK_PENDING \<Rightarrow> ssl_ack_pending sv sy a a (ctx, e)
        | _ \<Rightarrow> Some (0, ctx, e)) })"

section \<open>A websocket\<close>

datatype drain_result = Ext_failed | Read_closed | All_read

text \<open>The loop in which extensions may look at what was received before it is parsed, and may have more to say.\<close>

partial_function (option) preparse_loop ::
  "'e server \<Rightarrow> ('e, 'x) sockets_scheme \<Rightarrow> nat \<Rightarrow> lws_tokens \<Rightarrow> 'e lws \<Rightarrow> (drain_result \<times> 'e lws) option" where
  "preparse_loop sv sy a tok s =
     Option.bind (conns (fst s) a) (\<lambda>c.
       let (failed, more, tok, w, e) = ext_each LWS_EXT_CALLBACK_PACKET_RX_PREPARSE
             (map extension_callback (conn_extensions (fst s) a)) False tok (ws c, snd s);
           s = (set_ws a w (fst s), e)
       in if failed then Some (Ext_failed, s)
          else
            Option.bind
              (if token_len tok \<noteq> 0 then Option.bind (token_bytes tok) (\<lambda>b. libwebsocket_read sv sy a b s) else Some (0, s))
              (\<lambda>(n, s).
                if n < 0 then Some (Read_closed, s)
                else if more then preparse_loop sv sy a null_tokens s
                else Some (All_read, s)))"

text \<open>The flow buffer is freed when all of it was read, and the socket polled for input again.\<close>

definition flow_drained :: "'e server \<Rightarrow> nat \<Rightarrow> 'e lws \<Rightarrow> 'e lws option" where
  "flow_drained sv a = (\<lambda>(ctx, e).
     do {
       c \<leftarrow> conns ctx a;
       let w = ws c in
       if rxflow_buffer w \<noteq> None \<and> rxflow_pos w = rxflow_len w then
         let (r, w, e) = apply_rx_flow_control (conn_ops sv (conn_extensions ctx a) w) (w\<lparr>rxflow_buffer := None\<rparr>, e)
         in Some (set_ws a w ctx, e)
       else Some (ctx, e) })"

definition close_and_handled :: "'e server \<Rightarrow> ('e, 'x) sys_scheme \<Rightarrow> nat \<Rightarrow> 'e lws \<Rightarrow> (int \<times> 'e lws) option" where
  "close_and_handled sv sy a s = do { s \<leftarrow> close_nostatus sv sy a s; Some (1, s) }"

text \<open>From the label \<open>drain\<close> on, and back to \<open>read_pending\<close> while TLS holds more; without a token it starts at the latter.\<close>

partial_function (option) drain_and_read ::
  "'e server \<Rightarrow> ('e, 'x) sockets_scheme \<Rightarrow> nat \<Rightarrow> int \<Rightarrow> bool \<Rightarrow> lws_tokens option \<Rightarrow> 'e lws \<Rightarrow> (int \<times> 'e lws) option" where
  "drain_and_read sv sy a fd draining token s =
     (case token of
        None \<Rightarrow>
          (case read_socket sy fd (snd s) of
             (Try_again, e) \<Rightarrow> Some (0, fst s, e)
           | (Recv_failed, e) \<Rightarrow> close_and_handled sv sy a (fst s, e)
           | (Received bs, e) \<Rightarrow>
               if bs = [] then close_and_handled sv sy a (fst s, e)
               else
                 Option.bind (received_in bs (fst s)) (\<lambda>ctx.
                   drain_and_read sv sy a fd draining
                     (Some \<lparr>token_mem = service_buffer ctx, token_pos = 0, token_len = length bs, token_moved = False\<rparr>) (ctx, e)))
      | Some tok \<Rightarrow>
          Option.bind (preparse_loop sv sy a tok s) (\<lambda>(r, s).
            if r = Ext_failed then close_and_handled sv sy a s
            else if r = Read_closed then Some (0, s)
            else
              Option.bind (if draining then flow_drained sv a s else Some s) (\<lambda>s.
                if has_ssl sy fd (snd s) \<and> SSL_pending sy fd (snd s) then drain_and_read sv sy a fd draining None s
                else Some (0, s))))"

definition service_websocket ::
  "'e server \<Rightarrow> ('e, 'x) sockets_scheme \<Rightarrow> nat \<Rightarrow> revents \<Rightarrow> 'e lws \<Rightarrow> (int \<times> 'e lws) option" where
  "service_websocket sv sy a re = (\<lambda>(ctx, e).
     do {
       c \<leftarrow> conns ctx a;
       if \<not> re_in re \<and> re_dead re then close_and_handled sv sy a (ctx, e)
       else do {
         (n, w, e) \<leftarrow> (if re_out re \<and> state (ws c) = WSI_STATE_ESTABLISHED
            then lws_handle_POLLOUT_event (conn_ops sv (conn_extensions ctx a) (ws c)) True (ws c, e)
            else Some (0, ws c, e));
         let s = (set_ws a w ctx, e) in
         if n < 0 then close_and_handled sv sy a s
         else (case rxflow_buffer w of
             Some pending \<Rightarrow>
               if rxflow_change_to w AND LWS_RXFLOW_ALLOW \<noteq> 0 then
                 drain_and_read sv sy a (sock w) True
                   (Some \<lparr>token_mem = pending, token_pos = rxflow_pos w, token_len = rxflow_len w - rxflow_pos w,
                      token_moved = False\<rparr>) s
               else if re_in re then drain_and_read sv sy a (sock w) False None s else Some (0, s)
           | None \<Rightarrow> if re_in re then drain_and_read sv sy a (sock w) False None s else Some (0, s)) } })"

section \<open>Servicing a descriptor\<close>

definition timeouts_once_per_second ::
  "'e server \<Rightarrow> ('e, 'x) sys_scheme \<Rightarrow> int \<Rightarrow> 'e lws \<Rightarrow> (bool \<times> 'e lws) option" where
  "timeouts_once_per_second sv sy our_fd = (\<lambda>(ctx, e).
     let (sec, e) = gettimeofday sy e
     in if last_timeout_check_s ctx = sec then Some (False, ctx, e)
        else timeout_loop sv (sys.truncate sy) sec our_fd 0 False (ctx\<lparr>last_timeout_check_s := sec\<rparr>, e))"

definition service_what_we_came_for ::
  "'e server \<Rightarrow> ('e, 'x) sockets_scheme \<Rightarrow> (int \<Rightarrow> 'e conn \<Rightarrow> bool \<times> 'e conn) \<Rightarrow> nat \<Rightarrow> revents \<Rightarrow> 'e lws \<Rightarrow>
     (int \<times> 'e lws) option" where
  "service_what_we_came_for sv sy refuse a re s =
     do {
       c \<leftarrow> conns (fst s) a;
       (if mode (ws c) \<in> {LWS_CONNMODE_HTTP_SERVING, LWS_CONNMODE_HTTP_SERVING_ACCEPTED, LWS_CONNMODE_SERVER_LISTENER,
              LWS_CONNMODE_SSL_ACK_PENDING} then lws_server_socket_service sv sy refuse a re s
        else if mode (ws c) \<in> {LWS_CONNMODE_WS_SERVING, LWS_CONNMODE_WS_CLIENT} then service_websocket sv sy a re s
        else Some (0, s)) }"

text \<open>
  The service of the listening socket itself, which no other socket interrupts; then the turns it takes while others
  are serviced, and the service of any socket. The descriptor that is serviced is one of the table of the library.
\<close>

definition service_listener ::
  "'e server \<Rightarrow> ('e, 'x) sockets_scheme \<Rightarrow> (int \<Rightarrow> 'e conn \<Rightarrow> bool \<times> 'e conn) \<Rightarrow> int \<Rightarrow> revents \<Rightarrow> 'e lws \<Rightarrow>
     (int \<times> 'e lws) option" where
  "service_listener sv sy refuse fd re s =
     do {
       (out, s) \<leftarrow> timeouts_once_per_second sv sy fd s;
       if out then Some (0, s)
       else do {
         found \<leftarrow> get_at (lws_lookup (fst s)) fd;
         (case found of None \<Rightarrow> Some (0, s) | Some a \<Rightarrow> service_what_we_came_for sv sy refuse a re s) } }"

fun listen_turns ::
  "'e server \<Rightarrow> ('e, 'x) sockets_scheme \<Rightarrow> (int \<Rightarrow> 'e conn \<Rightarrow> bool \<times> 'e conn) \<Rightarrow> nat \<Rightarrow> 'e lws \<Rightarrow> 'e lws option" where
  "listen_turns sv sy refuse 0 s = Some s"
| "listen_turns sv sy refuse (Suc m) s =
     (let fd = listen_service_fd (fst s); (r, e) = poll_now sy fd (snd s); ctx = fst s
      in case r of
           Some re \<Rightarrow>
             do {
               (n, ctx, e) \<leftarrow> service_listener sv sy refuse fd re (ctx, e);
               listen_turns sv sy refuse m (ctx\<lparr>listen_service_extraseen := listen_service_extraseen ctx + 1\<rparr>, e) }
         | None \<Rightarrow>
             Some (if listen_service_extraseen ctx \<noteq> 0 then ctx\<lparr>listen_service_extraseen := listen_service_extraseen ctx - 1\<rparr>
                   else ctx, e))"

definition listen_piggyback ::
  "'e server \<Rightarrow> ('e, 'x) sockets_scheme \<Rightarrow> (int \<Rightarrow> 'e conn \<Rightarrow> bool \<times> 'e conn) \<Rightarrow> int \<Rightarrow> 'e lws \<Rightarrow> 'e lws option" where
  "listen_piggyback sv sy refuse fd = (\<lambda>(ctx, e).
     if listen_service_fd ctx = 0 \<or> fd = listen_service_fd ctx then Some (ctx, e)
     else
       let ctx = ctx\<lparr>listen_service_count := listen_service_count ctx + 1\<rparr>
       in if listen_service_extraseen ctx \<noteq> 0 \<or> listen_service_count ctx = listen_service_modulo ctx then
            listen_turns sv sy refuse (if listen_service_extraseen ctx > 5 then 2 else 1) (ctx\<lparr>listen_service_count := 0\<rparr>, e)
          else Some (ctx, e))"

text \<open>The entry of the listening socket is looked up first, which needs one.\<close>

definition libwebsocket_service_fd ::
  "'e server \<Rightarrow> ('e, 'x) sockets_scheme \<Rightarrow> (int \<Rightarrow> 'e conn \<Rightarrow> bool \<times> 'e conn) \<Rightarrow> (int \<times> revents) option \<Rightarrow> 'e lws \<Rightarrow>
     (int \<times> 'e lws) option" where
  "libwebsocket_service_fd sv sy refuse pollfd s =
     do {
       _ \<leftarrow> (if listen_service_fd (fst s) = 0 then Some ()
            else do { b \<leftarrow> get_at (lws_lookup (fst s)) (listen_service_fd (fst s)); a \<leftarrow> b; c \<leftarrow> conns (fst s) a; Some () });
       (out, s) \<leftarrow> timeouts_once_per_second sv sy (case pollfd of None \<Rightarrow> 0 | Some (fd, re) \<Rightarrow> fd) s;
       (case pollfd of
          None \<Rightarrow> if out then None else Some (0, s)
        | Some (fd, re) \<Rightarrow>
            if out then Some (0, s)
            else do {
              found \<leftarrow> get_at (lws_lookup (fst s)) fd;
              (case found of
                 None \<Rightarrow> Some (0, s)
               | Some a \<Rightarrow>
                   do { s \<leftarrow> listen_piggyback sv sy refuse fd s; service_what_we_came_for sv sy refuse a re s }) }) }"

end
