(* ===== verification/Context_Safety.thy ===== *)
theory Context_Safety
  imports Ws_Context
begin

text \<open>
  The table of sockets is kept consistent by every operation of the context: each entry leads to a live
  connection with that socket, which knows its position.
\<close>

section \<open>The interface of a poll table\<close>

text \<open>
  What the service relies on of a table of polled sockets, with keys of any type: an entry can be added while the
  table has room for it, and removed, and neither touches the others.
\<close>

locale poll_table =
  fixes inv :: "'s \<Rightarrow> bool"
    and keys :: "'s \<Rightarrow> 'k set"
    and room :: "'s \<Rightarrow> 'k \<Rightarrow> bool"
    and add :: "'k \<Rightarrow> 's \<Rightarrow> 's option"
    and del :: "'k \<Rightarrow> 's \<Rightarrow> 's option"
  assumes add_ok: "inv s \<Longrightarrow> room s k \<Longrightarrow> k \<notin> keys s \<Longrightarrow> \<exists>s'. add k s = Some s' \<and> inv s' \<and> keys s' = insert k (keys s)"
    and del_ok: "inv s \<Longrightarrow> k \<in> keys s \<Longrightarrow> \<exists>s'. del k s = Some s' \<and> inv s' \<and> keys s' = keys s - {k}"
begin

text \<open>A sequence of additions and removals, with what is expected to be in the table.\<close>

fun run :: "('k \<times> bool) list \<Rightarrow> 's \<Rightarrow> 's option" where
  "run [] s = Some s"
| "run ((k, True) # ops) s = Option.bind (add k s) (run ops)"
| "run ((k, False) # ops) s = Option.bind (del k s) (run ops)"

fun possible :: "('k \<times> bool) list \<Rightarrow> 's \<Rightarrow> bool" where
  "possible [] s = True"
| "possible ((k, True) # ops) s = (room s k \<and> k \<notin> keys s \<and> (\<forall>s'. add k s = Some s' \<longrightarrow> possible ops s'))"
| "possible ((k, False) # ops) s = (k \<in> keys s \<and> (\<forall>s'. del k s = Some s' \<longrightarrow> possible ops s'))"

fun expected :: "('k \<times> bool) list \<Rightarrow> 'k set \<Rightarrow> 'k set" where
  "expected [] K = K"
| "expected ((k, True) # ops) K = expected ops (insert k K)"
| "expected ((k, False) # ops) K = expected ops (K - {k})"

lemma run_expected:
  "inv s \<Longrightarrow> possible ops s \<Longrightarrow> \<exists>s'. run ops s = Some s' \<and> inv s' \<and> keys s' = expected ops (keys s)"
proof (induction ops s rule: run.induct)
  case (2 k ops s)
  then obtain s' where "add k s = Some s'" "inv s'" "keys s' = insert k (keys s)" using add_ok [of s k] by auto
  then show ?case using 2 by simp
next
  case (3 k ops s)
  then obtain s' where "del k s = Some s'" "inv s'" "keys s' = keys s - {k}" using del_ok [of s k] by auto
  then show ?case using 3 by simp
qed simp

end

section \<open>The table of the library\<close>

definition mirror_quiet :: "'e server \<Rightarrow> bool" where
  "mirror_quiet sv \<longleftrightarrow> (\<forall>r f w e. fst (poll_callback (base_ops sv) r f (w, e)) = w)"

lemma mirror_quiet_D:
  assumes "mirror_quiet sv"
  obtains e' where "poll_callback (base_ops sv) r f (w, e) = (w, e')"
  using assms unfolding mirror_quiet_def by (metis prod.collapse)

text \<open>Entry \<open>i\<close> of the table belongs to the connection at \<open>a\<close>.\<close>

definition entry :: "'e lws_context \<Rightarrow> nat \<Rightarrow> nat \<Rightarrow> bool" where
  "entry ctx i a \<longleftrightarrow> i < nat (fds_count ctx) \<and>
     (\<exists>c. conns ctx a = Some c \<and> sock (ws c) = fds ctx ! i \<and> position_in_fds_table (ws c) = int i \<and>
        0 \<le> fds ctx ! i \<and> fds ctx ! i < max_fds ctx \<and> lws_lookup ctx ! nat (fds ctx ! i) = Some a)"

definition table_inv :: "'e lws_context \<Rightarrow> bool" where
  "table_inv ctx \<longleftrightarrow> 0 \<le> fds_count ctx \<and> fds_count ctx \<le> max_fds ctx \<and>
     length (fds ctx) = nat (max_fds ctx) \<and> length (lws_lookup ctx) = nat (max_fds ctx) \<and>
     (\<forall>i < nat (fds_count ctx). \<exists>a. entry ctx i a)"

definition polled :: "'e lws_context \<Rightarrow> nat set" where
  "polled ctx = {a. \<exists>i. entry ctx i a}"

lemma entry_unique:
  "entry ctx i a \<Longrightarrow> entry ctx i b \<Longrightarrow> a = b"
  "entry ctx i a \<Longrightarrow> entry ctx j a \<Longrightarrow> i = j"
  "entry ctx i a \<Longrightarrow> entry ctx j b \<Longrightarrow> fds ctx ! i = fds ctx ! j \<Longrightarrow> i = j"
  unfolding entry_def by (metis option.inject, metis of_nat_eq_iff option.inject, metis of_nat_eq_iff option.inject)

lemma get_at_nth: "0 \<le> i \<Longrightarrow> nat i < length xs \<Longrightarrow> get_at xs i = Some (xs ! nat i)"
  by (simp add: get_at_def nth_opt_def)

lemma set_at_update: "0 \<le> i \<Longrightarrow> nat i < length xs \<Longrightarrow> set_at xs i x = Some (xs[nat i := x])"
  by (simp add: set_at_def update_opt_def)

lemma set_ws_simps [simp]:
  "conns (set_ws a w ctx) b = (if b = a then map_option (\<lambda>c. c\<lparr>ws := w\<rparr>) (conns ctx a) else conns ctx b)"
  "fds (set_ws a w ctx) = fds ctx" "fds_count (set_ws a w ctx) = fds_count ctx" "max_fds (set_ws a w ctx) = max_fds ctx"
  "lws_lookup (set_ws a w ctx) = lws_lookup ctx" "conn_extensions (set_ws a w ctx) = conn_extensions ctx"
  "dom (conns (set_ws a w ctx)) = dom (conns ctx)"
  by (auto simp: set_ws_def dom_def)

text \<open>The socket of a connection that is not in the table yet.\<close>

definition new_socket :: "'e lws_context \<Rightarrow> nat \<Rightarrow> bool" where
  "new_socket ctx a \<longleftrightarrow> fds_count ctx < max_fds ctx \<and>
     (\<exists>c. conns ctx a = Some c \<and> 0 \<le> sock (ws c) \<and> sock (ws c) < max_fds ctx \<and>
        sock (ws c) \<notin> set (take (nat (fds_count ctx)) (fds ctx)))"

lemma insert_keeps:
  assumes "mirror_quiet sv" "table_inv ctx" "new_socket ctx a"
  shows "\<exists>ctx' e'. insert_wsi_socket_into_fds sv a (ctx, e) = Some (0, ctx', e') \<and> table_inv ctx' \<and>
    polled ctx' = insert a (polled ctx) \<and> dom (conns ctx') = dom (conns ctx)"
proof -
  obtain c where c: "conns ctx a = Some c" "0 \<le> sock (ws c)" "sock (ws c) < max_fds ctx"
    "sock (ws c) \<notin> set (take (nat (fds_count ctx)) (fds ctx))"
    using assms(3) by (auto simp: new_socket_def)
  let ?s = "sock (ws c)" and ?n = "nat (fds_count ctx)"
  let ?w = "(ws c)\<lparr>position_in_fds_table := fds_count ctx, events_POLLIN := True, events_POLLOUT := False\<rparr>"
  let ?ctx = "set_ws a ?w (ctx\<lparr>lws_lookup := (lws_lookup ctx)[nat ?s := Some a], fds := (fds ctx)[?n := ?s],
      fds_count := fds_count ctx + 1\<rparr>)"
  have inv: "0 \<le> fds_count ctx" "fds_count ctx < max_fds ctx" "length (fds ctx) = nat (max_fds ctx)"
    "length (lws_lookup ctx) = nat (max_fds ctx)" "\<And>i. i < ?n \<Longrightarrow> \<exists>a. entry ctx i a"
    using assms(2,3) by (auto simp: table_inv_def new_socket_def)
  have len: "nat ?s < length (lws_lookup ctx)" "?n < length (fds ctx)" using inv c by simp_all
  obtain e' where p: "poll_callback (base_ops sv) LWS_CALLBACK_ADD_POLL_FD POLLIN (?w, e) = (?w, e')"
    by (rule mirror_quiet_D [OF assms(1)])
  have ins: "insert_wsi_socket_into_fds sv a (ctx, e) = Some (0, ?ctx, e')"
    using c inv len p by (simp add: insert_wsi_socket_into_fds_def set_at_update Let_def)
  have fresh: "fds ctx ! i \<noteq> ?s" if "i < ?n" for i
    using c(4) that inv(2,3) by (metis in_set_conv_nth length_take min_less_iff_conj nth_take less_trans nat_less_eq_zless inv(1))
  have n: "nat (fds_count ctx + 1) = Suc ?n" using inv(1) by simp
  have new: "entry ?ctx ?n a" using c inv len n by (simp add: entry_def)
  have old: "entry ?ctx i b \<longleftrightarrow> entry ctx i b" if "i < ?n" for i b
  proof -
    have "a \<noteq> b" if "entry ctx i b \<or> entry ?ctx i b"
    proof
      assume "a = b"
      then have "fds ctx ! i = ?s" using that \<open>i < ?n\<close> c(1) by (auto simp: entry_def)
      then show False using fresh [OF \<open>i < ?n\<close>] by simp
    qed
    moreover have "nat (fds ctx ! i) \<noteq> nat ?s" if "0 \<le> fds ctx ! i"
      using fresh [OF \<open>i < ?n\<close>] that c(2) by (simp add: nat_eq_iff2)
    ultimately show ?thesis using \<open>i < ?n\<close> n by (auto simp: entry_def)
  qed
  have all: "entry ?ctx i b \<longleftrightarrow> i = ?n \<and> b = a \<or> entry ctx i b" for i b
  proof -
    have "\<not> entry ctx i b" if "\<not> i < ?n" using that by (simp add: entry_def)
    moreover have "\<not> entry ?ctx i b" if "?n < i" using that n by (simp add: entry_def)
    ultimately show ?thesis
      using old new entry_unique(1) [OF new] by (metis linorder_neqE_nat)
  qed
  have "polled ?ctx = insert a (polled ctx)" unfolding polled_def all by blast
  moreover have "table_inv ?ctx"
  proof -
    have "\<exists>a. entry ?ctx i a" if "i < Suc ?n" for i
      using that inv(5) [of i] by (auto simp: all less_Suc_eq)
    then show ?thesis using inv n by (simp add: table_inv_def)
  qed
  moreover have "dom (conns ?ctx) = dom (conns ctx)" by simp
  ultimately show ?thesis using ins by blast
qed

section \<open>Removal\<close>

lemma set_ws_same: "conns ctx a = Some c \<Longrightarrow> ws c = w \<Longrightarrow> set_ws a w ctx = ctx"
  by (cases ctx) (auto simp: set_ws_def fun_upd_idem_iff)

lemma set_ws_lookup: "conns ctx a = Some c \<Longrightarrow> conns (set_ws a w ctx) a = Some (c\<lparr>ws := w\<rparr>)"
  by simp

lemma del_mirror:
  assumes "mirror_quiet sv" "conns ctx a = Some c" "ws c = w"
  shows "\<exists>e'. (if sock w \<noteq> 0 then
       (let (w, e) = poll_callback (base_ops sv) LWS_CALLBACK_DEL_POLL_FD NO_EVENTS (w, e) in Some (0 :: int, set_ws a w ctx, e))
     else Some (0, ctx, e)) = Some (0, ctx, e')"
proof -
  obtain e' where "poll_callback (base_ops sv) LWS_CALLBACK_DEL_POLL_FD NO_EVENTS (w, e) = (w, e')"
    by (rule mirror_quiet_D [OF assms(1)])
  then show ?thesis
    using set_ws_same [OF assms(2,3)] by simp
qed

definition conn_at :: "'e lws_context \<Rightarrow> nat \<Rightarrow> nat \<Rightarrow> wsi \<Rightarrow> bool" where
  "conn_at ctx i a w \<longleftrightarrow> sock w = fds ctx ! i \<and> position_in_fds_table w = int i \<and>
     0 \<le> fds ctx ! i \<and> fds ctx ! i < max_fds ctx \<and> lws_lookup ctx ! nat (fds ctx ! i) = Some a"

lemma entry_alt: "entry ctx i a \<longleftrightarrow> i < nat (fds_count ctx) \<and> (\<exists>c. conns ctx a = Some c \<and> conn_at ctx i a (ws c))"
  by (simp add: entry_def conn_at_def)

text \<open>Taking entry \<open>m\<close> out of the table: the last entry takes its place.\<close>

lemma remove_entry:
  assumes "table_inv ctx" "entry ctx m a" "fds_count ctx = int n + 1" "0 < n"
  shows "\<exists>b d. entry ctx n b \<and> conns ctx b = Some d \<and>
    (let ctx1 = set_ws b ((ws d)\<lparr>position_in_fds_table := int m\<rparr>) (ctx\<lparr>fds_count := int n, fds := (fds ctx)[m := fds ctx ! n]\<rparr>);
         c1 = the (conns ctx1 a);
         ctx2 = set_ws a ((ws c1)\<lparr>position_in_fds_table := -1\<rparr>)
           (ctx1\<lparr>lws_lookup := (lws_lookup ctx)[nat (sock (ws c1)) := None]\<rparr>)
     in table_inv ctx2 \<and> (\<forall>i x. entry ctx2 i x \<longleftrightarrow> x \<noteq> a \<and> (if i = m then entry ctx n x else i < n \<and> entry ctx i x)))"
proof -
  have n: "nat (fds_count ctx) = Suc n" using assms(3) by simp
  then have ex: "\<exists>x. entry ctx i x" if "i \<le> n" for i using assms(1) that by (simp add: table_inv_def)
  then obtain b where b: "entry ctx n b" by blast
  then obtain d where d: "conns ctx b = Some d" "sock (ws d) = fds ctx ! n" by (auto simp: entry_def)
  obtain c where c: "conns ctx a = Some c" "sock (ws c) = fds ctx ! m" using assms(2) by (auto simp: entry_def)
  have m: "m \<le> n" using assms(2) n by (simp add: entry_def)
  have len: "n < length (fds ctx)" "length (fds ctx) = nat (max_fds ctx)" "length (lws_lookup ctx) = nat (max_fds ctx)"
    using assms(1,3) by (auto simp: table_inv_def)
  define ctx1 where "ctx1 = set_ws b ((ws d)\<lparr>position_in_fds_table := int m\<rparr>)
      (ctx\<lparr>fds_count := int n, fds := (fds ctx)[m := fds ctx ! n]\<rparr>)"
  define c1 where "c1 = the (conns ctx1 a)"
  define ctx2 where "ctx2 = set_ws a ((ws c1)\<lparr>position_in_fds_table := -1\<rparr>)
      (ctx1\<lparr>lws_lookup := (lws_lookup ctx)[nat (sock (ws c1)) := None]\<rparr>)"
  have c1: "conns ctx1 a = Some c1" "sock (ws c1) = fds ctx ! m"
    using c d by (auto simp: ctx1_def c1_def)
  have f2: "fds ctx2 = (fds ctx)[m := fds ctx ! n]" "fds_count ctx2 = int n" "max_fds ctx2 = max_fds ctx"
    "lws_lookup ctx2 = (lws_lookup ctx)[nat (fds ctx ! m) := None]"
    using c1(2) by (simp_all add: ctx2_def ctx1_def)
  have same: "fds ctx ! i = fds ctx ! j \<Longrightarrow> i = j" if "i \<le> n" "j \<le> n" for i j
    using ex [OF that(1)] ex [OF that(2)] entry_unique(3) by blast
  have conn: "conns ctx2 x = (if x = a then Some (c1\<lparr>ws := (ws c1)\<lparr>position_in_fds_table := -1\<rparr>\<rparr>)
      else if x = b then Some (d\<lparr>ws := (ws d)\<lparr>position_in_fds_table := int m\<rparr>\<rparr>) else conns ctx x)" for x
    using c1(1) d(1) by (simp add: ctx2_def ctx1_def)
  have pos: "0 \<le> fds ctx ! m" "fds ctx ! m < max_fds ctx" using assms(2) unfolding entry_def by blast+
  have look: "lws_lookup ctx2 ! nat (fds ctx ! i) = (if i = m then None else lws_lookup ctx ! nat (fds ctx ! i))"
    if "i \<le> n" "0 \<le> fds ctx ! i" for i
  proof -
    have "nat (fds ctx ! m) < length (lws_lookup ctx)" using pos len by simp
    moreover have "nat (fds ctx ! m) \<noteq> nat (fds ctx ! i)" if "i \<noteq> m"
      using that \<open>i \<le> n\<close> \<open>0 \<le> fds ctx ! i\<close> pos(1) same [of i m] m by (auto simp: eq_nat_nat_iff)
    ultimately show ?thesis by (cases "i = m") (simp_all add: f2(4))
  qed
  have ent: "entry ctx2 i x \<longleftrightarrow> x \<noteq> a \<and> (if i = m then entry ctx n x else i < n \<and> entry ctx i x)" for i x
  proof (cases "x = a")
    case True
    then show ?thesis by (simp add: entry_def conn)
  next
    case x: False
    show ?thesis
    proof (cases "i = m")
      case True
      show ?thesis
      proof (cases "m = n")
        case True
        then have "\<not> entry ctx n x" using assms(2) x entry_unique(1) by blast
        then show ?thesis using \<open>i = m\<close> True by (simp add: entry_def f2(2))
      next
        case False
        then have "m < n" using m by simp
        have "entry ctx2 m x \<longleftrightarrow> x = b"
          using \<open>m < n\<close> b d x len look [of n] by (auto simp: entry_def f2 conn split: if_splits)
        moreover have "entry ctx n x \<longleftrightarrow> x = b" using b entry_unique(1) by blast
        ultimately show ?thesis using \<open>i = m\<close> x by simp
      qed
    next
      case i: False
      have "x \<noteq> b" if "entry ctx2 i x \<or> i < n \<and> entry ctx i x"
        using that b i x entry_unique(2) [of ctx i b n] by (auto simp: entry_def conn)
      moreover have "conn_at ctx2 i x w \<longleftrightarrow> conn_at ctx i x w" if "i \<le> n" for w
        using look [OF that] i unfolding conn_at_def by (simp add: f2(1,3) cong: conj_cong)
      moreover have "conns ctx2 x = conns ctx x" if "x \<noteq> b" using that x by (simp add: conn)
      ultimately have "entry ctx2 i x \<longleftrightarrow> i < n \<and> entry ctx i x" if "x \<noteq> b"
        using that n unfolding entry_alt f2(2) by (cases "i < n") simp_all
      moreover have "entry ctx2 i x \<or> i < n \<and> entry ctx i x \<Longrightarrow> x \<noteq> b"
        using \<open>entry ctx2 i x \<or> i < n \<and> entry ctx i x \<Longrightarrow> x \<noteq> b\<close> by blast
      ultimately show ?thesis using i x by auto
    qed
  qed
  have "\<exists>x. entry ctx2 i x" if "i < n" for i
  proof (cases "i = m")
    case True
    then have "b \<noteq> a" using that b assms(2) entry_unique(2) by blast
    then have "entry ctx2 i b" using True b ent [of i b] by simp
    then show ?thesis by blast
  next
    case False
    obtain x where "entry ctx i x" using ex [of i] \<open>i < n\<close> by auto
    moreover from this have "x \<noteq> a" using False assms(2) entry_unique(2) by blast
    ultimately have "entry ctx2 i x" using False that ent [of i x] by simp
    then show ?thesis by blast
  qed
  then have "table_inv ctx2"
    using assms(1,3) f2 len by (simp add: table_inv_def)
  then show ?thesis
    using b d(1) ent unfolding Let_def ctx2_def c1_def ctx1_def by blast
qed

text \<open>A connection without its position in the table, which is all that taking an entry out changes of the connections.\<close>

definition placeless :: "'e lws_context \<Rightarrow> nat \<Rightarrow> server_conn option" where
  "placeless ctx x = map_option (\<lambda>c. c\<lparr>ws := (ws c)\<lparr>position_in_fds_table := 0\<rparr>\<rparr>) (conns ctx x)"

lemma placeless_simps [simp]:
  "placeless (ctx\<lparr>fds := f\<rparr>) = placeless ctx" "placeless (ctx\<lparr>fds_count := n\<rparr>) = placeless ctx"
  "placeless (ctx\<lparr>lws_lookup := l\<rparr>) = placeless ctx"
  by (simp_all add: placeless_def fun_eq_iff)

lemma placeless_set_ws:
  "conns ctx a = Some c \<Longrightarrow> placeless (set_ws a ((ws c)\<lparr>position_in_fds_table := q\<rparr>) ctx) = placeless ctx"
  by (auto simp: placeless_def fun_eq_iff)

lemma remove_keeps:
  assumes "mirror_quiet sv" "table_inv ctx" "a \<in> polled ctx"
  shows "\<exists>ctx' e'. remove_wsi_socket_from_fds sv a (ctx, e) = Some (0, ctx', e') \<and> table_inv ctx' \<and>
    polled ctx' = polled ctx - {a} \<and> dom (conns ctx') = dom (conns ctx) \<and> conn_extensions ctx' = conn_extensions ctx \<and>
    placeless ctx' = placeless ctx"
proof -
  obtain m where m: "entry ctx m a" using assms(3) by (auto simp: polled_def)
  then obtain c where c: "conns ctx a = Some c" "sock (ws c) = fds ctx ! m" "position_in_fds_table (ws c) = int m"
    by (auto simp: entry_def)
  obtain n where n: "fds_count ctx = int n + 1"
    using m assms(2) by (metis entry_def diff_add_cancel less_nat_zero_code nat_0_le nonneg_int_cases table_inv_def zle_diff1_eq zless_nat_conj le_less nat_0)
  show ?thesis
  proof (cases "n = 0")
    case True
    let ?ctx = "ctx\<lparr>fds_count := 0\<rparr>"
    have c': "conns ?ctx a = Some c" using c(1) by simp
    obtain e' where "(if sock (ws c) \<noteq> 0 then
         (let (w, e) = poll_callback (base_ops sv) LWS_CALLBACK_DEL_POLL_FD NO_EVENTS (ws c, e) in Some (0 :: int, set_ws a w ?ctx, e))
       else Some (0, ?ctx, e)) = Some (0, ?ctx, e')"
      using del_mirror [OF assms(1) c' refl] by blast
    then have "remove_wsi_socket_from_fds sv a (ctx, e) = Some (0, ?ctx, e')"
      using c n True by (simp add: remove_wsi_socket_from_fds_def)
    moreover have "table_inv ?ctx" using assms(2) by (simp add: table_inv_def)
    moreover have "polled ?ctx = {}" by (simp add: polled_def entry_def)
    moreover have "polled ctx = {a}"
    proof -
      have "i = 0" if "entry ctx i x" for i x using that n True by (simp add: entry_def)
      then have "x = a" if "entry ctx i x" for i x using that m entry_unique(1) by metis
      then show ?thesis using m unfolding polled_def by blast
    qed
    ultimately show ?thesis by auto
  next
    case False
    obtain b d where b: "entry ctx n b" "conns ctx b = Some d"
      and r: "let ctx1 = set_ws b ((ws d)\<lparr>position_in_fds_table := int m\<rparr>) (ctx\<lparr>fds_count := int n, fds := (fds ctx)[m := fds ctx ! n]\<rparr>);
         c1 = the (conns ctx1 a);
         ctx2 = set_ws a ((ws c1)\<lparr>position_in_fds_table := -1\<rparr>)
           (ctx1\<lparr>lws_lookup := (lws_lookup ctx)[nat (sock (ws c1)) := None]\<rparr>)
       in table_inv ctx2 \<and> (\<forall>i x. entry ctx2 i x \<longleftrightarrow> x \<noteq> a \<and> (if i = m then entry ctx n x else i < n \<and> entry ctx i x))"
      using remove_entry [OF assms(2) m n] False by auto
    define ctx1 where "ctx1 = set_ws b ((ws d)\<lparr>position_in_fds_table := int m\<rparr>) (ctx\<lparr>fds_count := int n, fds := (fds ctx)[m := fds ctx ! n]\<rparr>)"
    define c1 where "c1 = the (conns ctx1 a)"
    define ctx2 where "ctx2 = set_ws a ((ws c1)\<lparr>position_in_fds_table := -1\<rparr>)
           (ctx1\<lparr>lws_lookup := (lws_lookup ctx)[nat (sock (ws c1)) := None]\<rparr>)"
    have c1: "conns ctx1 a = Some c1" "sock (ws c1) = fds ctx ! m" using b(1,2) c by (auto simp: ctx1_def c1_def entry_def)
    have r: "table_inv ctx2" "entry ctx2 i x \<longleftrightarrow> x \<noteq> a \<and> (if i = m then entry ctx n x else i < n \<and> entry ctx i x)" for i x
      using r unfolding Let_def ctx2_def c1_def ctx1_def by blast+
    have c2: "conns ctx2 a = Some (c1\<lparr>ws := (ws c1)\<lparr>position_in_fds_table := -1\<rparr>\<rparr>)" using c1(1) by (simp add: ctx2_def)
    obtain e' where p: "(if sock ((ws c1)\<lparr>position_in_fds_table := -1\<rparr>) \<noteq> 0 then
         (let (w, e) = poll_callback (base_ops sv) LWS_CALLBACK_DEL_POLL_FD NO_EVENTS ((ws c1)\<lparr>position_in_fds_table := -1\<rparr>, e)
          in Some (0 :: int, set_ws a w ctx2, e))
       else Some (0, ctx2, e)) = Some (0, ctx2, e')"
      using del_mirror [OF assms(1) c2, of "(ws c1)\<lparr>position_in_fds_table := -1\<rparr>" e] by auto
    have len: "length (fds ctx) = nat (max_fds ctx)" "length (lws_lookup ctx) = nat (max_fds ctx)" "int n < max_fds ctx"
      using assms(2) n by (simp_all add: table_inv_def)
    have n': "nat (fds_count ctx) = Suc n" using n by simp
    then have "m \<le> n" using m by (simp add: entry_def)
    have "conn_at ctx m a (ws c)" "conn_at ctx n b (ws d)" using m b c(1) by (auto simp: entry_alt)
    then have pos: "0 \<le> fds ctx ! m" "nat (fds ctx ! m) < length (lws_lookup ctx)" "\<not> fds ctx ! m > max_fds ctx"
      "n < length (fds ctx)" "m < length (fds ctx)" "0 \<le> fds ctx ! n" "nat (fds ctx ! n) < length (lws_lookup ctx)"
      "lws_lookup ctx ! nat (fds ctx ! n) = Some b"
      using len \<open>m \<le> n\<close> unfolding conn_at_def by (auto simp: nat_less_iff)
    have "remove_wsi_socket_from_fds sv a (ctx, e) = Some (0, ctx2, e')"
    proof -
      have at: "get_at (fds ctx) (int n) = Some (fds ctx ! n)" "set_at (fds ctx) (int m) (fds ctx ! n) = Some ((fds ctx)[m := fds ctx ! n])"
        "get_at (lws_lookup ctx) (fds ctx ! n) = Some (Some b)"
        "set_at (lws_lookup ctx) (fds ctx ! m) None = Some ((lws_lookup ctx)[nat (fds ctx ! m) := None])"
        using pos by (simp_all add: get_at_nth set_at_update)
      have "lws_lookup ctx1 = lws_lookup ctx" by (simp add: ctx1_def)
      moreover have "ctx2 = set_ws a ((ws c1)\<lparr>position_in_fds_table := -1\<rparr>) (ctx1\<lparr>lws_lookup := (lws_lookup ctx)[nat (fds ctx ! m) := None]\<rparr>)"
        by (simp add: ctx2_def c1(2))
      ultimately show ?thesis
        using c b(2) n False pos(3) at c1(1) c2 p
        by (cases "sock (ws c1) = 0")
          (simp_all add: remove_wsi_socket_from_fds_def Let_def ctx1_def [symmetric] del: set_ws_simps)
    qed
    moreover have "polled ctx2 = polled ctx - {a}"
    proof -
      have "(\<exists>i. entry ctx2 i x) \<longleftrightarrow> x \<noteq> a \<and> (\<exists>i. entry ctx i x)" for x
      proof -
        have "i < n" if "entry ctx i x" "i \<noteq> n" for i using that n' by (simp add: entry_def)
        then show ?thesis using r(2) [of _ x] m entry_unique(1) by metis
      qed
      then show ?thesis unfolding polled_def by blast
    qed
    moreover have "dom (conns ctx2) = dom (conns ctx)" by (simp add: ctx2_def ctx1_def)
    moreover have "conn_extensions ctx2 = conn_extensions ctx" by (simp add: ctx2_def ctx1_def)
    moreover have "placeless ctx2 = placeless ctx"
    proof -
      have "placeless ctx1 = placeless ctx"
        unfolding ctx1_def by (subst placeless_set_ws) (use b(2) in simp_all)
      moreover have "placeless ctx2 = placeless ctx1"
        unfolding ctx2_def by (subst placeless_set_ws) (use c1(1) in simp_all)
      ultimately show ?thesis by simp
    qed
    ultimately show ?thesis using r(1) by blast
  qed
qed

text \<open>The library's table meets the interface.\<close>

definition lws_insert :: "'e server \<Rightarrow> nat \<Rightarrow> 'e lws \<Rightarrow> 'e lws option" where
  "lws_insert sv a s = map_option snd (insert_wsi_socket_into_fds sv a s)"

definition lws_remove :: "'e server \<Rightarrow> nat \<Rightarrow> 'e lws \<Rightarrow> 'e lws option" where
  "lws_remove sv a s = map_option snd (remove_wsi_socket_from_fds sv a s)"

interpretation lws_table: poll_table "\<lambda>s. mirror_quiet sv \<and> table_inv (fst s)" "\<lambda>s. polled (fst s)"
  "\<lambda>s. new_socket (fst s)" "lws_insert sv" "lws_remove sv" for sv
proof
  fix s :: "'a lws" and a
  assume "mirror_quiet sv \<and> table_inv (fst s)" "new_socket (fst s) a"
  then show "\<exists>s'. lws_insert sv a s = Some s' \<and> (mirror_quiet sv \<and> table_inv (fst s')) \<and> polled (fst s') = insert a (polled (fst s))"
    using insert_keeps [of sv "fst s" a "snd s"] by (auto simp: lws_insert_def)
next
  fix s :: "'a lws" and a
  assume "mirror_quiet sv \<and> table_inv (fst s)" "a \<in> polled (fst s)"
  then show "\<exists>s'. lws_remove sv a s = Some s' \<and> (mirror_quiet sv \<and> table_inv (fst s')) \<and> polled (fst s') = polled (fst s) - {a}"
    using remove_keeps [of sv "fst s" a "snd s"] by (auto simp: lws_remove_def)
qed

section \<open>What leaves a connection in its place\<close>

definition same_place :: "wsi \<Rightarrow> wsi \<Rightarrow> bool" where
  "same_place w w' \<longleftrightarrow> sock w' = sock w \<and> position_in_fds_table w' = position_in_fds_table w"

lemma same_place_refl [simp]: "same_place w w"
  by (simp add: same_place_def)

lemma same_place_trans: "same_place w w' \<Longrightarrow> same_place w' w'' \<Longrightarrow> same_place w w''"
  by (simp add: same_place_def)

lemma same_place_update [simp]:
  "same_place w (w'\<lparr>state := st\<rparr>) = same_place w w'" "same_place w (w'\<lparr>close_reason := r\<rparr>) = same_place w w'"
  "same_place w (w'\<lparr>inside_frame := b\<rparr>) = same_place w w'" "same_place w (w'\<lparr>clean_buffer := b\<rparr>) = same_place w w'"
  "same_place w (w'\<lparr>events_POLLOUT := b\<rparr>) = same_place w w'" "same_place w (w'\<lparr>truncated_send_malloc := m\<rparr>) = same_place w w'"
  "same_place w (w'\<lparr>truncated_send_offset := x\<rparr>) = same_place w w'" "same_place w (w'\<lparr>truncated_send_len := x\<rparr>) = same_place w w'"
  "same_place w (w'\<lparr>frame_masking_nonce_04 := k\<rparr>) = same_place w w'" "same_place w (w'\<lparr>frame_mask_index := i\<rparr>) = same_place w w'"
  "same_place w (w'\<lparr>http_fd := fd\<rparr>) = same_place w w'" "same_place w (w'\<lparr>pending_timeout := t\<rparr>) = same_place w w'"
  "same_place w (w'\<lparr>pending_timeout_limit := l\<rparr>) = same_place w w'" "same_place w (w'\<lparr>rxflow_change_to := c\<rparr>) = same_place w w'"
  "same_place w (w'\<lparr>extension_data_pending := b\<rparr>) = same_place w w'"
  "same_place (w\<lparr>truncated_send_malloc := m\<rparr>) w' = same_place w w'"
  "same_place (w\<lparr>truncated_send_offset := x\<rparr>) w' = same_place w w'" "same_place (w\<lparr>truncated_send_len := x\<rparr>) w' = same_place w w'"
  "same_place (w\<lparr>clean_buffer := b\<rparr>) w' = same_place w w'" "same_place (w\<lparr>close_reason := r\<rparr>) w' = same_place w w'"
  "same_place (w\<lparr>http_fd := fd\<rparr>) w' = same_place w w'"
  by (simp_all add: same_place_def)

text \<open>No extension is active, and the mirror of the table does not move connections.\<close>

definition plain_ops :: "'e ws_ops \<Rightarrow> bool" where
  "plain_ops ops \<longleftrightarrow> active_extensions ops = [] \<and> (\<forall>r f w e. fst (poll_callback ops r f (w, e)) = w)"

lemma on_writable_place:
  assumes "plain_ops ops" "libwebsocket_callback_on_writable ops (w, e) = (n, w', e')"
  shows "same_place w w'"
proof -
  obtain e1 where "poll_callback ops LWS_CALLBACK_SET_MODE_POLL_FD POLLOUT (w\<lparr>events_POLLOUT := True\<rparr>, e) = (w\<lparr>events_POLLOUT := True\<rparr>, e1)"
    using assms(1) unfolding plain_ops_def by (metis prod.collapse)
  then show ?thesis
    using assms by (auto simp: plain_ops_def libwebsocket_callback_on_writable_def split: if_splits)
qed

lemma truncated_place:
  assumes "plain_ops ops" "handle_truncated_send ops buf n (w, e) = (r, w', e')"
  shows "same_place w w'"
proof -
  have *: "same_place v v'" if "snd (libwebsocket_callback_on_writable ops (v, x)) = (v', e')" for v x v'
    using on_writable_place [OF assms(1)] that by (metis prod.collapse)
  show ?thesis
    using assms(2) by (auto simp: handle_truncated_send_def Let_def split: if_splits prod.splits dest!: *)
qed

lemma issue_raw_place:
  assumes "plain_ops ops" "lws_issue_raw ops buf (w, e) = Some (n, w', e')"
  shows "same_place w w'"
proof -
  obtain k x where s: "send ops buf e = (k, x)" by fastforce
  have "active_extensions ops = []" using assms(1) by (simp add: plain_ops_def)
  then have "lws_issue_raw ops buf (w, e) = (if k < 0 then Some (-1, w, x) else Some (handle_truncated_send ops buf k (w, x)))"
    using s by (simp add: lws_issue_raw_def token_bytes_def)
  then show ?thesis
    using assms truncated_place [OF assms(1), of buf k w x n w' e'] by (auto split: if_splits)
qed

text \<open>The close frame of a server connection.\<close>

lemma close_frame_place:
  assumes "plain_ops ops" "mode w \<noteq> LWS_CONNMODE_WS_CLIENT" "\<not> inside_frame w"
    and "libwebsocket_write ops mem p 0 LWS_WRITE_CLOSE (w, e) = Some (n, mem', w', e')"
  shows "same_place w w'"
proof -
  have raw: "same_place w v" if "lws_issue_raw ops b (w\<lparr>clean_buffer := c\<rparr>, x) = Some (m, v, y)" for b c x m v y
    using issue_raw_place [OF assms(1) that] by (simp add: same_place_def)
  show ?thesis
    using assms(2-4) raw
    by (auto simp: libwebsocket_write_def mask_in_place_def send_raw_def Let_def split: if_splits option.splits Option.bind_splits)
qed

section \<open>Closing\<close>

text \<open>The callbacks that a close may make change neither the place of the connection nor how frames are sent on it.\<close>

definition closing_reasons :: "cb_reason set" where
  "closing_reasons = {LWS_CALLBACK_CLOSED, LWS_CALLBACK_CLOSED_HTTP, LWS_CALLBACK_CLIENT_CONNECTION_ERROR}"

definition quiet_server :: "'e server \<Rightarrow> bool" where
  "quiet_server sv \<longleftrightarrow> mirror_quiet sv \<and> extensions sv = [] \<and>
     (\<forall>i p f h r b w e. nth_opt (protocols sv) i = Some p \<and> protocol_callback p = Some f \<and> r \<in> closing_reasons \<longrightarrow>
        (let w' = fst (snd (f h r b (w, e)))
         in same_place w w' \<and> mode w' = mode w \<and> inside_frame w' = inside_frame w))"

lemma quiet_callback:
  assumes "quiet_server sv" "call_protocol sv i h r b (w, e) = Some (n, w', e')" "r \<in> closing_reasons"
  shows "same_place w w'" "mode w' = mode w" "inside_frame w' = inside_frame w"
proof -
  obtain p f where "nth_opt (protocols sv) i = Some p" "protocol_callback p = Some f" "f h r b (w, e) = (n, w', e')"
    using assms(2) by (auto simp: call_protocol_def split: Option.bind_splits)
  then show "same_place w w'" "mode w' = mode w" "inside_frame w' = inside_frame w"
    using assms(1,3) unfolding quiet_server_def Let_def by (metis fst_conv snd_conv)+
qed

lemma entry_conns:
  assumes "fds ctx' = fds ctx" "fds_count ctx' = fds_count ctx" "max_fds ctx' = max_fds ctx" "lws_lookup ctx' = lws_lookup ctx"
    and "\<And>x. x \<in> polled ctx \<Longrightarrow> \<exists>c c'. conns ctx x = Some c \<and> conns ctx' x = Some c' \<and> same_place (ws c) (ws c')"
    and "\<And>x. x \<notin> polled ctx \<Longrightarrow> conns ctx' x = None \<or> conns ctx' x = conns ctx x"
  shows "entry ctx' i x \<longleftrightarrow> entry ctx i x"
proof -
  have c: "conn_at ctx' i x = conn_at ctx i x" using assms(1-4) by (intro ext) (simp add: conn_at_def)
  show ?thesis
  proof (cases "x \<in> polled ctx")
    case True
    then obtain d d' where "conns ctx x = Some d" "conns ctx' x = Some d'" "same_place (ws d) (ws d')"
      using assms(5) by blast
    moreover from this have "conn_at ctx i x (ws d') = conn_at ctx i x (ws d)" by (simp add: conn_at_def same_place_def)
    ultimately show ?thesis using c assms(2) by (simp add: entry_alt)
  next
    case False
    then have "\<not> entry ctx i x" by (auto simp: polled_def)
    moreover have "\<not> entry ctx' i x"
    proof
      assume "entry ctx' i x"
      then have "entry ctx i x" using assms(6) [OF False] c assms(2) by (auto simp: entry_alt)
      then show False using \<open>\<not> entry ctx i x\<close> by blast
    qed
    ultimately show ?thesis by blast
  qed
qed

lemma table_conns:
  assumes "table_inv ctx" "fds ctx' = fds ctx" "fds_count ctx' = fds_count ctx" "max_fds ctx' = max_fds ctx"
    and "lws_lookup ctx' = lws_lookup ctx"
    and "\<And>x. x \<in> polled ctx \<Longrightarrow> \<exists>c c'. conns ctx x = Some c \<and> conns ctx' x = Some c' \<and> same_place (ws c) (ws c')"
    and "\<And>x. x \<notin> polled ctx \<Longrightarrow> conns ctx' x = None \<or> conns ctx' x = conns ctx x"
  shows "table_inv ctx'" "polled ctx' = polled ctx"
proof -
  have e: "entry ctx' i x \<longleftrightarrow> entry ctx i x" for i x by (rule entry_conns [OF assms(2-7)])
  then show "table_inv ctx'" using assms(1-5) by (simp add: table_inv_def)
  show "polled ctx' = polled ctx" by (simp add: polled_def e)
qed

lemma polled_conns: "x \<in> polled ctx \<Longrightarrow> \<exists>c. conns ctx x = Some c"
  by (auto simp: polled_def entry_def)

lemma forget_keeps:
  assumes "table_inv ctx" "a \<notin> polled ctx"
  shows "table_inv (ctx\<lparr>conns := (conns ctx)(a := None)\<rparr>)" "polled (ctx\<lparr>conns := (conns ctx)(a := None)\<rparr>) = polled ctx"
  by (rule table_conns [OF assms(1)]; use assms(2) polled_conns in fastforce)+

lemma update_keeps:
  assumes "table_inv ctx" "a \<in> polled ctx" "conns ctx a = Some c" "same_place (ws c) (ws c')"
  shows "table_inv (ctx\<lparr>conns := (conns ctx)(a \<mapsto> c')\<rparr>)" "polled (ctx\<lparr>conns := (conns ctx)(a \<mapsto> c')\<rparr>) = polled ctx"
  by (rule table_conns [OF assms(1)]; use assms(2-4) polled_conns in fastforce)+

lemma set_ws_update: "conns ctx a = Some c \<Longrightarrow> set_ws a w ctx = ctx\<lparr>conns := (conns ctx)(a \<mapsto> c\<lparr>ws := w\<rparr>)\<rparr>"
  by (simp add: set_ws_def)

lemma set_ws_keeps:
  assumes "table_inv ctx" "a \<in> polled ctx" "conns ctx a = Some c" "same_place (ws c) w"
  shows "table_inv (set_ws a w ctx)" "polled (set_ws a w ctx) = polled ctx"
  using update_keeps [OF assms(1-3), of "c\<lparr>ws := w\<rparr>"] assms(4) by (simp_all add: set_ws_update [OF assms(3)])

lemma kill_keeps:
  assumes "quiet_server sv" "table_inv ctx" "a \<in> polled ctx" "just_kill_connection sv sy a os (ctx, e) = Some (ctx', e')"
  shows "table_inv ctx'" "polled ctx' = polled ctx - {a}" "conns ctx' a = None"
proof -
  obtain ctx1 e1 where r: "remove_wsi_socket_from_fds sv a (ctx, e) = Some (0, ctx1, e1)" "table_inv ctx1"
    "polled ctx1 = polled ctx - {a}"
    using remove_keeps [OF _ assms(2,3)] assms(1) unfolding quiet_server_def by metis
  have "ctx' = ctx1\<lparr>conns := (conns ctx1)(a := None)\<rparr>"
    using assms(4) r(1) by (auto simp: just_kill_connection_def Let_def split: Option.bind_splits prod.splits)
  then show "table_inv ctx'" "polled ctx' = polled ctx - {a}" "conns ctx' a = None"
    using forget_keeps [OF r(2), of a] r(3) by simp_all
qed

lemma flush_nothing: "active_extensions ops = [] \<Longrightarrow> flush_extensions ops s = Some (True, s)"
  by (subst flush_extensions.simps) (simp add: null_tokens_def)


text \<open>How a close can end: the connection is gone, it waits for the peer, or it was dead already.\<close>

definition close_outcome :: "wsi \<Rightarrow> u16 \<Rightarrow> nat \<Rightarrow> 'e lws_context \<Rightarrow> 'e lws_context \<Rightarrow> bool" where
  "close_outcome w reason a ctx ctx' \<longleftrightarrow> table_inv ctx' \<and>
     (polled ctx' = polled ctx - {a} \<and> conns ctx' a = None \<or>
      state w = WSI_STATE_ESTABLISHED \<and> reason \<noteq> LWS_CLOSE_STATUS_NOSTATUS \<and> polled ctx' = polled ctx \<and>
        (\<exists>c'. conns ctx' a = Some c' \<and> state (ws c') = WSI_STATE_AWAITING_CLOSE_ACK \<and>
           pending_timeout (ws c') = PENDING_TIMEOUT_CLOSE_ACK) \<or>
      state w = WSI_STATE_DEAD_SOCKET \<and> ctx' = ctx)"

lemma conn_ops_plain:
  "quiet_server sv \<Longrightarrow> plain_ops (conn_ops sv [] w)"
  by (simp add: plain_ops_def conn_ops_def quiet_server_def mirror_quiet_def)

lemma killed_outcome:
  assumes "quiet_server sv" "table_inv ctx" "a \<in> polled ctx" "conns ctx a = Some c" "same_place (ws c) (ws c')"
    and "just_kill_connection sv sy a os (ctx\<lparr>conns := (conns ctx)(a \<mapsto> c')\<rparr>, e) = Some (ctx', e')"
  shows "close_outcome w reason a ctx ctx'"
proof -
  note u = update_keeps [OF assms(2-5)]
  have "a \<in> polled (ctx\<lparr>conns := (conns ctx)(a \<mapsto> c')\<rparr>)" using u(2) assms(3) by simp
  from kill_keeps [OF assms(1) u(1) this assms(6)] show ?thesis
    using u(2) by (simp add: close_outcome_def)
qed

lemma close_keeps:
  assumes "quiet_server sv" "table_inv ctx" "a \<in> polled ctx" "conns ctx a = Some c" "conn_extensions ctx a = []"
    and "mode (ws c) \<noteq> LWS_CONNMODE_WS_CLIENT" "\<not> inside_frame (ws c)"
    and "libwebsocket_close_and_free_session sv sy a reason (ctx, e) = Some (ctx', e')"
  shows "close_outcome (ws c) reason a ctx ctx'"
proof -
  let ?os = "state (ws c)" and ?w = "(ws c)\<lparr>close_reason := reason\<rparr>"
  have up: "set_ws a w ctx = ctx\<lparr>conns := (conns ctx)(a \<mapsto> c\<lparr>ws := w\<rparr>)\<rparr>" for w by (rule set_ws_update [OF assms(4)])
  have killed: "close_outcome (ws c) reason a ctx ctx'"
    if "just_kill_connection sv sy a ?os (ctx\<lparr>conns := (conns ctx)(a \<mapsto> c')\<rparr>, x) = Some (ctx', e')" "same_place (ws c) (ws c')" for c' x
    by (rule killed_outcome [OF assms(1-4) that(2,1)])
  consider "?os = WSI_STATE_DEAD_SOCKET" | "?os = WSI_STATE_AWAITING_CLOSE_ACK"
    | "?os \<notin> {WSI_STATE_DEAD_SOCKET, WSI_STATE_AWAITING_CLOSE_ACK}"
      "mode ?w \<in> {LWS_CONNMODE_WS_CLIENT_WAITING_CONNECT, LWS_CONNMODE_WS_CLIENT_ISSUE_HANDSHAKE}"
    | "?os \<notin> {WSI_STATE_DEAD_SOCKET, WSI_STATE_AWAITING_CLOSE_ACK}"
      "mode ?w \<notin> {LWS_CONNMODE_WS_CLIENT_WAITING_CONNECT, LWS_CONNMODE_WS_CLIENT_ISSUE_HANDSHAKE}"
    by blast
  then show ?thesis
  proof cases
    case 1
    then show ?thesis
      using assms(2,4,8) by (simp add: libwebsocket_close_and_free_session_def close_outcome_def)
  next
    case 2
    have "ctx\<lparr>conns := (conns ctx)(a \<mapsto> c)\<rparr> = ctx" using assms(4) by (simp add: fun_upd_idem)
    moreover have "just_kill_connection sv sy a ?os (ctx, e) = Some (ctx', e')"
      using 2 assms(4,8) by (simp add: libwebsocket_close_and_free_session_def)
    ultimately show ?thesis using killed [of c e] by simp
  next
    case 3
    then obtain r w x p where "call_protocol sv 0 None LWS_CALLBACK_CLIENT_CONNECTION_ERROR [] (?w, e) = Some (r, w, x)"
      "just_kill_connection sv sy a ?os (ctx\<lparr>conns := (conns ctx)(a \<mapsto> c\<lparr>ws := w, ah_ptr := p\<rparr>)\<rparr>, x) = Some (ctx', e')"
      using assms(4,8) by (auto simp: libwebsocket_close_and_free_session_def Let_def split: Option.bind_splits)
    then show ?thesis
      using killed [of "c\<lparr>ws := w, ah_ptr := p\<rparr>" x] quiet_callback(1) [OF assms(1)] by (fastforce simp: closing_reasons_def)
  next
    case 4
    then obtain w x where 1: "(if mode ?w = LWS_CONNMODE_HTTP_SERVING_ACCEPTED \<and> http_fd ?w \<noteq> 0
        then map_option snd (call_protocol sv 0 None LWS_CALLBACK_CLOSED_HTTP [] (?w\<lparr>http_fd := 0\<rparr>, close_file sy (http_fd ?w) e))
        else Some (?w, e)) = Some (w, x)"
      using assms(4,8) by (auto simp: libwebsocket_close_and_free_session_def Let_def split: Option.bind_splits)
    have w: "same_place (ws c) w" "mode w \<noteq> LWS_CONNMODE_WS_CLIENT" "\<not> inside_frame w"
    proof -
      have "w = ?w \<or> (\<exists>r. call_protocol sv 0 None LWS_CALLBACK_CLOSED_HTTP [] (?w\<lparr>http_fd := 0\<rparr>, close_file sy (http_fd ?w) e) = Some (r, w, x))"
        using 1 by (auto split: if_splits)
      then show "same_place (ws c) w" "mode w \<noteq> LWS_CONNMODE_WS_CLIENT" "\<not> inside_frame w"
        using quiet_callback [OF assms(1)] assms(6,7) by (fastforce simp: closing_reasons_def)+
    qed
    note ops = conn_ops_plain [OF assms(1)]
    have flush: "flush_extensions (conn_ops sv [] w) (w, x) = Some (True, w, x)"
      using ops [of w] by (simp add: flush_nothing plain_ops_def)
    let ?mem = "replicate (LWS_SEND_BUFFER_PRE_PADDING + 2 + LWS_SEND_BUFFER_POST_PADDING) 0" and ?p = "LWS_SEND_BUFFER_PRE_PADDING + 2"
    have rest: "(if ?os = WSI_STATE_ESTABLISHED \<and> reason \<noteq> LWS_CLOSE_STATUS_NOSTATUS then
         do { (n, mem, w, e) \<leftarrow> libwebsocket_write (conn_ops sv [] w) ?mem ?p 0 LWS_WRITE_CLOSE (w, x);
              if n \<ge> 0 then
                let (w, e) = libwebsocket_set_timeout sy PENDING_TIMEOUT_CLOSE_ACK 1 (w\<lparr>state := WSI_STATE_AWAITING_CLOSE_ACK\<rparr>, e)
                in Some (set_ws a w ctx, e)
              else just_kill_connection sv sy a ?os (set_ws a w ctx, e) }
       else just_kill_connection sv sy a ?os (set_ws a w ctx, x)) = Some (ctx', e')"
      using assms(8) 4 1 flush
      unfolding libwebsocket_close_and_free_session_def prod.case Let_def assms(4,5) Option.bind.bind_lunit
      by (simp cong: if_cong)
    show ?thesis
    proof (cases "?os = WSI_STATE_ESTABLISHED \<and> reason \<noteq> LWS_CLOSE_STATUS_NOSTATUS")
      case False
      have "just_kill_connection sv sy a ?os (ctx\<lparr>conns := (conns ctx)(a \<mapsto> c\<lparr>ws := w\<rparr>)\<rparr>, x) = Some (ctx', e')"
        using rest unfolding if_not_P [OF False] up .
      then show ?thesis by (rule killed) (simp add: w(1))
    next
      case True
      then obtain n mem v y where v: "libwebsocket_write (conn_ops sv [] w) ?mem ?p 0 LWS_WRITE_CLOSE (w, x) = Some (n, mem, v, y)"
        using rest by (auto split: Option.bind_splits)
      have sp: "same_place (ws c) v"
        using close_frame_place [OF ops w(2,3) v] w(1) same_place_trans by blast
      show ?thesis
      proof (cases "n \<ge> 0")
        case False
        then have "just_kill_connection sv sy a ?os (ctx\<lparr>conns := (conns ctx)(a \<mapsto> c\<lparr>ws := v\<rparr>)\<rparr>, y) = Some (ctx', e')"
          using rest unfolding if_P [OF True] v up by simp
        then show ?thesis by (rule killed) (simp add: sp)
      next
        case n: True
        obtain sec z where t: "gettimeofday sy y = (sec, z)" by fastforce
        let ?v = "v\<lparr>state := WSI_STATE_AWAITING_CLOSE_ACK, pending_timeout_limit := sec + 1, pending_timeout := PENDING_TIMEOUT_CLOSE_ACK\<rparr>"
        have "ctx' = set_ws a ?v ctx"
          using rest n t unfolding if_P [OF True] v by (simp add: libwebsocket_set_timeout_def)
        moreover have "same_place (ws c) ?v" using sp by simp
        ultimately show ?thesis
          using set_ws_keeps [OF assms(2-4)] assms(4) True by (simp add: close_outcome_def)
      qed
    qed
  qed
qed

end
