(* ===== verification/Context_Runs.thy ===== *)
theory Context_Runs
  imports Context_Safety
begin

text \<open>
  Runs of the server over its table of sockets: requests to all connections of a protocol, time-outs, and the
  invariant of the table along any sequence of accepts, closes and time-out checks.
\<close>

section \<open>Runs\<close>

lemma upto_in: "n \<in> set [i..j] \<Longrightarrow> i \<le> n \<and> n \<le> j"
  by simp

lemma table_lookup:
  assumes "table_inv ctx" "0 \<le> n" "n < fds_count ctx"
  shows "\<exists>fd a c. get_at (fds ctx) n = Some fd \<and> get_at (lws_lookup ctx) fd = Some (Some a) \<and> conns ctx a = Some c \<and> a \<in> polled ctx"
proof -
  have "nat n < nat (fds_count ctx)" using assms(2,3) by simp
  then obtain a where a: "entry ctx (nat n) a" using assms(1) unfolding table_inv_def by blast
  then obtain c where c: "conns ctx a = Some c" "conn_at ctx (nat n) a (ws c)" by (auto simp: entry_alt)
  have len: "length (fds ctx) = nat (max_fds ctx)" "length (lws_lookup ctx) = nat (max_fds ctx)" "n < max_fds ctx"
    using assms by (simp_all add: table_inv_def)
  then have "get_at (fds ctx) n = Some (fds ctx ! nat n)" using assms(2) by (simp add: get_at_nth)
  moreover have "get_at (lws_lookup ctx) (fds ctx ! nat n) = Some (Some a)"
    using c(2) len by (simp add: conn_at_def get_at_nth)
  moreover have "a \<in> polled ctx" using a by (auto simp: polled_def)
  ultimately show ?thesis using c(1) by blast
qed

lemma each_keeps:
  assumes "\<And>w e exts. same_place w (fst (f (w, e) exts))"
    and "table_inv ctx" "\<forall>n \<in> set ns. 0 \<le> n \<and> n < fds_count ctx"
  shows "\<exists>ctx' e'. each_of_protocol f p ns (ctx, e) = Some (ctx', e') \<and> table_inv ctx' \<and> polled ctx' = polled ctx"
  using assms(2,3)
proof (induction ns arbitrary: ctx e)
  case (Cons n ns)
  obtain fd a c where t: "get_at (fds ctx) n = Some fd" "get_at (lws_lookup ctx) fd = Some (Some a)" "conns ctx a = Some c" "a \<in> polled ctx"
    using table_lookup [OF Cons.prems(1)] Cons.prems(2) by fastforce
  show ?case
  proof (cases "protocol_index (protocol (ws c)) = p")
    case False
    then show ?thesis using t Cons by simp
  next
    case True
    obtain w e1 where w: "f (ws c, e) (conn_extensions ctx a) = (w, e1)" by fastforce
    then have "same_place (ws c) w" using assms(1) [of "ws c" e "conn_extensions ctx a"] by simp
    note k = set_ws_keeps [OF Cons.prems(1) t(4,3) this]
    have "\<forall>n \<in> set ns. 0 \<le> n \<and> n < fds_count (set_ws a w ctx)" using Cons.prems(2) by simp
    from Cons.IH [OF k(1) this, of e1] show ?thesis using t w True k(2) by simp
  qed
qed simp

lemma timeout_check_keeps:
  assumes "quiet_server sv" "table_inv ctx" "a \<in> polled ctx" "conns ctx a = Some c" "conn_extensions ctx a = []"
    and "mode (ws c) \<noteq> LWS_CONNMODE_WS_CLIENT" "\<not> inside_frame (ws c)"
    and "libwebsocket_service_timeout_check sv sy a sec (ctx, e) = Some (out, ctx', e')"
  shows "out \<longleftrightarrow> pending_timeout (ws c) \<noteq> NO_PENDING_TIMEOUT \<and> pending_timeout_limit (ws c) < sec"
    and "\<not> out \<Longrightarrow> ctx' = ctx" and "out \<Longrightarrow> close_outcome (ws c) LWS_CLOSE_STATUS_NOSTATUS a ctx ctx'"
proof -
  have s: "set_ws a (ws c) ctx = ctx" by (rule set_ws_same [OF assms(4) refl])
  have "out \<longleftrightarrow> pending_timeout (ws c) \<noteq> NO_PENDING_TIMEOUT \<and> pending_timeout_limit (ws c) < sec"
    "\<not> out \<Longrightarrow> ctx' = ctx"
    "out \<Longrightarrow> libwebsocket_close_and_free_session sv sy a LWS_CLOSE_STATUS_NOSTATUS (ctx, e) = Some (ctx', e')"
    using assms(4,5,8) s by (auto simp: libwebsocket_service_timeout_check_def split: if_splits Option.bind_splits)
  then show "out \<longleftrightarrow> pending_timeout (ws c) \<noteq> NO_PENDING_TIMEOUT \<and> pending_timeout_limit (ws c) < sec"
    and "\<not> out \<Longrightarrow> ctx' = ctx" and "out \<Longrightarrow> close_outcome (ws c) LWS_CLOSE_STATUS_NOSTATUS a ctx ctx'"
    using close_keeps [OF assms(1-7)] by simp_all
qed

text \<open>Where no connection has extensions, a request to all connections is made with none.\<close>

lemma each_no_extensions:
  assumes "\<forall>a. conn_extensions ctx a = []" "\<And>s. f s [] = g s []"
  shows "each_of_protocol f p ns (ctx, e) = each_of_protocol g p ns (ctx, e)"
  using assms(1)
proof (induction ns arbitrary: ctx e)
  case (Cons n ns)
  have "\<forall>b. conn_extensions (set_ws a w ctx) b = []" for a w using Cons.prems by (simp add: set_ws_def)
  then show ?case using Cons by (auto simp: assms(2) split: Option.bind_splits option.splits prod.splits)
qed simp

text \<open>
  What happens to the table while the server runs: a connection is accepted, closed for any reason, or
  checked for its time-out, and requests go to all connections of a protocol.
\<close>

definition plain_conn :: "'e lws_context \<Rightarrow> nat \<Rightarrow> bool" where
  "plain_conn ctx a \<longleftrightarrow> a \<in> polled ctx \<and> conn_extensions ctx a = [] \<and>
     (\<forall>c. conns ctx a = Some c \<longrightarrow> mode (ws c) \<noteq> LWS_CONNMODE_WS_CLIENT \<and> \<not> inside_frame (ws c))"

inductive lws_step :: "'e server \<Rightarrow> 'e sys \<Rightarrow> 'e lws \<Rightarrow> 'e lws \<Rightarrow> bool" for sv sy where
  accept: "conns ctx a = None \<Longrightarrow> ctx1 = ctx\<lparr>conns := (conns ctx)(a \<mapsto> c)\<rparr> \<Longrightarrow> new_socket ctx1 a \<Longrightarrow>
    insert_wsi_socket_into_fds sv a (ctx1, e) = Some (r, s') \<Longrightarrow> lws_step sv sy (ctx, e) s'"
| close: "plain_conn ctx a \<Longrightarrow> libwebsocket_close_and_free_session sv sy a reason (ctx, e) = Some s' \<Longrightarrow>
    lws_step sv sy (ctx, e) s'"
| timeout: "plain_conn ctx a \<Longrightarrow> libwebsocket_service_timeout_check sv sy a sec (ctx, e) = Some (out, s') \<Longrightarrow>
    lws_step sv sy (ctx, e) s'"
| allow: "libwebsocket_rx_flow_allow_all_protocol p s = Some s' \<Longrightarrow> lws_step sv sy s s'"
| writable: "\<forall>a. conn_extensions (fst s) a = [] \<Longrightarrow> libwebsocket_callback_on_writable_all_protocol sv p s = Some s' \<Longrightarrow>
    lws_step sv sy s s'"

inductive_cases lws_stepE: "lws_step sv sy s s'"

lemma allocate_keeps:
  assumes "table_inv ctx" "conns ctx a = None"
  shows "table_inv (ctx\<lparr>conns := (conns ctx)(a \<mapsto> c)\<rparr>) \<or> \<not> new_socket (ctx\<lparr>conns := (conns ctx)(a \<mapsto> c)\<rparr>) a"
proof -
  have "entry ctx i x \<Longrightarrow> entry (ctx\<lparr>conns := (conns ctx)(a \<mapsto> c)\<rparr>) i x" for i x
    using assms(2) by (auto simp: entry_alt conn_at_def)
  then show ?thesis using assms(1) unfolding table_inv_def by fastforce
qed

lemma lws_step_inv:
  assumes "lws_step sv sy s s'" "quiet_server sv" "table_inv (fst s)"
  shows "table_inv (fst s')"
  using assms(1)
proof (cases rule: lws_step.cases)
  case (accept ctx a ctx1 c e r)
  then have "table_inv ctx1" using allocate_keeps [of ctx a c] assms(3) by auto
  then show ?thesis
    using insert_keeps [of sv ctx1 a e] accept assms(2) by (auto simp: quiet_server_def)
next
  case (close ctx a reason e)
  then obtain c where "conns ctx a = Some c" using polled_conns unfolding plain_conn_def by blast
  then show ?thesis
    using close close_keeps [OF assms(2), of ctx a c sy reason e "fst s'" "snd s'"] assms(3)
    by (simp add: plain_conn_def close_outcome_def)
next
  case (timeout ctx a sec e out)
  then obtain c where "conns ctx a = Some c" using polled_conns unfolding plain_conn_def by blast
  then show ?thesis
    using timeout timeout_check_keeps [OF assms(2), of ctx a c sy sec e out "fst s'" "snd s'"] assms(3)
    by (cases out) (simp_all add: plain_conn_def close_outcome_def)
next
  case (allow p)
  have "same_place w (libwebsocket_rx_flow_control w True)" for w :: wsi
    by (simp add: libwebsocket_rx_flow_control_def)
  then show ?thesis
    using allow assms(3) each_keeps [of "\<lambda>s exts. (libwebsocket_rx_flow_control (fst s) True, snd s)" "fst s" "[0..fds_count (fst s) - 1]" p "snd s"]
    by (cases s) (auto simp: libwebsocket_rx_flow_allow_all_protocol_def case_prod_unfold)
next
  case (writable p)
  obtain ctx e where s: "s = (ctx, e)" by (metis prod.exhaust)
  let ?g = "\<lambda>s (exts :: 'a lws_extension list). snd (libwebsocket_callback_on_writable (conn_ops sv [] (fst s)) s)"
  have place: "same_place w (fst (?g (w, x) exts))" for w x exts
    using on_writable_place [OF conn_ops_plain [OF assms(2)]] by (metis fst_conv prod.collapse)
  have "each_of_protocol ?g p [0..fds_count ctx - 1] (ctx, e) = Some s'"
    using writable each_no_extensions [where f = "\<lambda>s exts. snd (libwebsocket_callback_on_writable (conn_ops sv exts (fst s)) s)" and g = ?g]
    unfolding s libwebsocket_callback_on_writable_all_protocol_def by simp
  then show ?thesis
    using each_keeps [where f = ?g, OF place, of ctx "[0..fds_count ctx - 1]" p e] assms(3) s by auto
qed

lemma lws_run_inv:
  "(lws_step sv sy)\<^sup>*\<^sup>* s s' \<Longrightarrow> quiet_server sv \<Longrightarrow> table_inv (fst s) \<Longrightarrow> table_inv (fst s')"
  by (induction rule: rtranclp_induct) (auto dest: lws_step_inv)

end
