(* ===== verification/Handshake_Close.thy ===== *)
theory Handshake_Close
  imports Ws_Service Context_Runs
begin

text \<open>
  A connection that is given up while its request is handled: it leaves the table, its memory is freed, and nothing is
  sent on its socket.
\<close>

section \<open>Removing and killing\<close>

text \<open>What is sent is seen through \<open>acc\<close>; the mirror of the table, the end of a socket and \<open>malloc\<close> send nothing.\<close>

definition silent :: "'e server \<Rightarrow> ('e, 'x) sys_scheme \<Rightarrow> ('e \<Rightarrow> 'b) \<Rightarrow> bool" where
  "silent sv sy acc \<longleftrightarrow> (\<forall>r f w e. acc (snd (poll_callback (base_ops sv) r f (w, e))) = acc e) \<and>
     (\<forall>fd e. acc (close_ssl sy fd e) = acc e) \<and> (\<forall>fd e. acc (close_socket sy fd e) = acc e) \<and>
     (\<forall>n e. acc (snd (malloc_ok (base_ops sv) n e)) = acc e)"

lemma silent_poll: "silent sv sy acc \<Longrightarrow> poll_callback (base_ops sv) r f (w, e) = (w', e') \<Longrightarrow> acc e' = acc e"
  unfolding silent_def by (metis snd_conv)

lemma remove_frame:
  assumes "mirror_quiet sv" "\<forall>r f w e. acc (snd (poll_callback (base_ops sv) r f (w, e))) = acc e" "conns ctx a = Some c"
    and "remove_wsi_socket_from_fds sv a (ctx, e) = Some (r, ctx', e')"
  shows "\<exists>c'. conns ctx' a = Some c' \<and> mode (ws c') = mode (ws c) \<and> protocol (ws c') = protocol (ws c) \<and>
    sock (ws c') = sock (ws c) \<and> acc e' = acc e"
proof -
  have p: "w' = w \<and> acc y = acc x" if "poll_callback (base_ops sv) q f (w, x) = (w', y)" for q f w x w' y
    using that assms(1,2) unfolding mirror_quiet_def by (metis fst_conv snd_conv)
  show ?thesis
    using assms(3,4)
    by (auto simp: remove_wsi_socket_from_fds_def Let_def split: if_splits Option.bind_splits prod.splits dest!: p)
qed

text \<open>Protocol 0 has a callback.\<close>

definition has_http :: "'e server \<Rightarrow> bool" where
  "has_http sv \<longleftrightarrow> (\<exists>p f. nth_opt (protocols sv) 0 = Some p \<and> protocol_callback p = Some f)"

lemma kill_silent:
  assumes "quiet_server sv" "silent sv sy acc" "table_inv ctx" "a \<in> polled ctx" "conns ctx a = Some c"
    and "mode (ws c) \<noteq> LWS_CONNMODE_HTTP_SERVING_ACCEPTED" "conn_extensions ctx a = []"
    and "os \<notin> {WSI_STATE_ESTABLISHED, WSI_STATE_RETURNED_CLOSE_ALREADY, WSI_STATE_AWAITING_CLOSE_ACK}"
  shows "\<exists>ctx' e'. just_kill_connection sv sy a os (ctx, e) = Some (ctx', e') \<and> acc e' = acc e"
proof -
  have q: "mirror_quiet sv" "extensions sv = []" using assms(1) by (simp_all add: quiet_server_def)
  obtain ctx1 e1 where r: "remove_wsi_socket_from_fds sv a (ctx, e) = Some (0, ctx1, e1)"
    "conn_extensions ctx1 = conn_extensions ctx"
    using remove_keeps [OF q(1) assms(3,4)] by blast
  obtain c1 where c1: "conns ctx1 a = Some c1" "mode (ws c1) = mode (ws c)" "acc e1 = acc e"
    using remove_frame [OF q(1) _ assms(5) r(1), of acc] assms(2) by (auto simp: silent_def)
  have closed: "call_closed sv os (w, x) = Some (w, x)" if "mode w \<noteq> LWS_CONNMODE_HTTP_SERVING_ACCEPTED" for w x
    using assms(8) that by (simp add: call_closed_def split: option.split)
  show ?thesis
    using r c1 q(2) assms(2,6,7) closed by (simp add: just_kill_connection_def silent_def Let_def)
qed

section \<open>Giving up\<close>

text \<open>A connection in the middle of a request.\<close>

definition handshaking :: "'e lws_context \<Rightarrow> nat \<Rightarrow> server_conn \<Rightarrow> bool" where
  "handshaking ctx a c \<longleftrightarrow> conns ctx a = Some c \<and> conn_extensions ctx a = [] \<and> state (ws c) = WSI_STATE_HTTP_HEADERS \<and>
     mode (ws c) \<in> {LWS_CONNMODE_HTTP_SERVING, LWS_CONNMODE_PRE_WS_SERVING_ACCEPT}"

text \<open>It is gone, and the others are where they were.\<close>

definition given_up :: "'e lws_context \<Rightarrow> nat \<Rightarrow> 'e lws_context \<Rightarrow> bool" where
  "given_up ctx a ctx' \<longleftrightarrow> conns ctx' a = None \<and> table_inv ctx' \<and> polled ctx' = polled ctx - {a}"

lemma bail_gives_up:
  assumes "quiet_server sv" "silent sv sy acc" "table_inv ctx" "a \<in> polled ctx" "handshaking ctx a c"
  shows "\<exists>ctx' e'. bail sv sy a (ctx, e) = Some (-1, ctx', e') \<and> given_up ctx a ctx' \<and> acc e' = acc e"
proof -
  have c: "conns ctx a = Some c" "conn_extensions ctx a = []" "state (ws c) = WSI_STATE_HTTP_HEADERS"
    "mode (ws c) \<in> {LWS_CONNMODE_HTTP_SERVING, LWS_CONNMODE_PRE_WS_SERVING_ACCEPT}"
    using assms(5) by (simp_all add: handshaking_def)
  let ?w = "(ws c)\<lparr>close_reason := LWS_CLOSE_STATUS_NOSTATUS\<rparr>" and ?sy = "sys.truncate sy"
  let ?ctx = "set_ws a ?w ctx" and ?os = "WSI_STATE_HTTP_HEADERS"
  note k = set_ws_keeps [OF assms(3,4) c(1), of ?w]
  have inv: "table_inv ?ctx" "polled ?ctx = polled ctx" using k by simp_all
  have sil: "silent sv ?sy acc" using assms(2) by (simp add: silent_def sys.truncate_def)
  have lk: "conns ?ctx a = Some (c\<lparr>ws := ?w\<rparr>)" using c(1) by simp
  have a: "a \<in> polled ?ctx" using inv(2) assms(4) by simp
  have m: "mode (ws (c\<lparr>ws := ?w\<rparr>)) \<noteq> LWS_CONNMODE_HTTP_SERVING_ACCEPTED" using c(4) by auto
  obtain ctx' e' where kill: "just_kill_connection sv ?sy a ?os (?ctx, e) = Some (ctx', e')" "acc e' = acc e"
    using kill_silent [OF assms(1) sil inv(1) a lk m, of ?os e] c(2) by auto
  have flush: "flush_extensions (conn_ops sv [] ?w) (?w, e) = Some (True, ?w, e)"
    by (rule flush_nothing) (simp add: conn_ops_def)
  have "libwebsocket_close_and_free_session sv ?sy a LWS_CLOSE_STATUS_NOSTATUS (ctx, e) = Some (ctx', e')"
    using c kill(1) flush by (auto simp: libwebsocket_close_and_free_session_def Let_def)
  moreover have "given_up ctx a ctx'"
    using kill_keeps [OF assms(1) inv(1) a kill(1)] inv(2) by (simp add: given_up_def)
  ultimately show ?thesis using kill(2) by (simp add: bail_def)
qed

text \<open>The same with a connection that was changed meanwhile, but not moved.\<close>

lemma bail_nuke_gives_up:
  assumes "quiet_server sv" "silent sv sy acc" "table_inv ctx" "a \<in> polled ctx" "conns ctx a = Some c" "conn_extensions ctx a = []"
    and "same_place (ws c) (ws c')" "state (ws c') = WSI_STATE_HTTP_HEADERS" "ah_ptr c' = LIVE"
    and "mode (ws c') \<in> {LWS_CONNMODE_HTTP_SERVING, LWS_CONNMODE_PRE_WS_SERVING_ACCEPT}"
  shows "\<exists>ctx' e'. bail_nuke_ah sv sy a (set_conn a c' ctx, e) = Some (-1, ctx', e') \<and> given_up ctx a ctx' \<and> acc e' = acc e"
proof -
  let ?c = "c'\<lparr>ah_ptr := FREED\<rparr>"
  have s: "set_conn a ?c (set_conn a c' ctx) = ctx\<lparr>conns := (conns ctx)(a \<mapsto> ?c)\<rparr>" by (simp add: set_conn_def)
  note k = update_keeps [OF assms(3-5), of ?c]
  have inv: "table_inv (set_conn a ?c (set_conn a c' ctx))" "polled (set_conn a ?c (set_conn a c' ctx)) = polled ctx"
    using k assms(7) unfolding s by simp_all
  have "handshaking (set_conn a ?c (set_conn a c' ctx)) a ?c"
    using assms(6,8,10) by (simp add: handshaking_def set_conn_def)
  from bail_gives_up [OF assms(1,2) inv(1) _ this, of e] inv(2) assms(4,9)
  show ?thesis by (auto simp: bail_nuke_ah_def given_up_def set_conn_def free_ptr_def)
qed

end
