(* ===== verification/Origin_Check.thy ===== *)
theory Origin_Check
  imports Header_Request
begin

text \<open>
  The headers of a request as the protocols of \<open>srl/secure-rfid-login.c\<close> look at them: the list on \<open>stderr\<close> and the
  check of the origin of the page.
\<close>

definition AUTHORIZED_URL :: bytes where
  "AUTHORIZED_URL = ascii ''https://www.portaleargo.it''"

section \<open>The headers of a request\<close>

text \<open>The names by which the headers are printed; the array has one for each token, the rest are null pointers.\<close>

definition token_names :: "bytes option list" where
  "token_names = map (\<lambda>s. Some (ascii s))
     [''GET URI'', ''Host'', ''Connection'', ''key 1'', ''key 2'', ''Protocol'', ''Upgrade'', ''Origin'', ''Draft'',
      ''Challenge'', ''Key'', ''Version'', ''Sworigin'', ''Extensions'', ''Accept'', ''Nonce'', ''Http'', ''MuxURL''] @
     replicate (WSI_TOKEN_COUNT - 18) None"

text \<open>\<open>strcmp\<close> finds an array equal to \<open>s\<close> when it holds \<open>s\<close> and a NUL.\<close>

definition strcmp_eq :: "bytes \<Rightarrow> bytes \<Rightarrow> bool" where
  "strcmp_eq s mem = (take (length s + 1) mem = s @ [0])"

text \<open>The loops over all tokens, from token \<open>n\<close> on; the buffer \<open>b\<close> keeps the last header that was copied.\<close>

fun dump_tokens ::
  "(bytes \<Rightarrow> 'e \<Rightarrow> 'e) \<Rightarrow> allocated_headers \<Rightarrow> nat \<Rightarrow> bytes option list \<Rightarrow> bytes \<Rightarrow> 'e \<Rightarrow> 'e option" where
  "dump_tokens fprintf a n [] b e = Some e"
| "dump_tokens fprintf a n (t # ts) b e =
     do {
       l \<leftarrow> lws_hdr_total_length a n;
       if l = 0 then dump_tokens fprintf a (Suc n) ts b e
       else do {
         (b, r) \<leftarrow> lws_hdr_copy a b (int (length b)) n;
         nm \<leftarrow> t;
         s \<leftarrow> c_str b;
         dump_tokens fprintf a (Suc n) ts b (fprintf (ascii ''    '' @ nm @ ascii '' = '' @ s @ [0x0a]) e) } }"

definition dump_handshake_info :: "(bytes \<Rightarrow> 'e \<Rightarrow> 'e) \<Rightarrow> allocated_headers \<Rightarrow> bytes \<Rightarrow> 'e \<Rightarrow> 'e option" where
  "dump_handshake_info fprintf a b e = dump_tokens fprintf a 0 token_names b e"

fun reject_tokens :: "allocated_headers \<Rightarrow> nat \<Rightarrow> bytes option list \<Rightarrow> bytes \<Rightarrow> bool \<Rightarrow> bool option" where
  "reject_tokens a n [] b reject = Some reject"
| "reject_tokens a n (t # ts) b reject =
     do {
       l \<leftarrow> lws_hdr_total_length a n;
       if l = 0 then reject_tokens a (Suc n) ts b reject
       else do {
         (b, r) \<leftarrow> lws_hdr_copy a b (int (length b)) n;
         nm \<leftarrow> t;
         reject_tokens a (Suc n) ts b (if nm = ascii ''Origin'' \<and> strcmp_eq AUTHORIZED_URL b then False else reject) } }"

definition reject_request :: "allocated_headers \<Rightarrow> bytes \<Rightarrow> bool option" where
  "reject_request a b = reject_tokens a 0 token_names b True"

section \<open>What the check decides\<close>

text \<open>A header in the buffer: it is copied with its NUL when it fits, and the buffer keeps what it has otherwise.\<close>

definition copied :: "bytes \<Rightarrow> bytes \<Rightarrow> bytes" where
  "copied b v = (if length v < length b then v @ [0] @ drop (length v + 1) b else b)"

lemma length_copied [simp]: "length (copied b v) = length b"
  by (auto simp: copied_def)

lemma strcmp_eq_nul:
  assumes "0 \<notin> set s" "0 \<notin> set v"
  shows "strcmp_eq s (v @ [0] @ d) \<longleftrightarrow> v = s"
  unfolding strcmp_eq_def using assms
proof (induction s arbitrary: v)
  case Nil
  then show ?case by (cases v) auto
next
  case (Cons c s)
  then show ?case by (cases v) auto
qed

lemma table_no_nul:
  assumes "table_exact a" "hdr_map a h = Some v"
  shows "0 \<notin> set v"
proof -
  have h: "h < 23" "frag_index a ! h \<noteq> 0" "v = frag_content a (frag_index a ! h)"
    using assms(2) by (auto simp: hdr_map_def split: if_splits)
  have "frag_index a ! h \<le> next_frag_index a" using assms(1) h(1) by (intro frag_index_le) (auto simp: table_exact_def)
  then show ?thesis using assms(1) h by (simp add: table_exact_def frag_exact_def Let_def)
qed

lemma reject_step:
  assumes "table_exact a" "n < 23"
  shows "reject_tokens a n (t # ts) b r =
    (case hdr_map a n of
       Some (c # v) \<Rightarrow> do { nm \<leftarrow> t;
         reject_tokens a (Suc n) ts (copied b (c # v))
           (if nm = ascii ''Origin'' \<and> strcmp_eq AUTHORIZED_URL (copied b (c # v)) then False else r) }
     | _ \<Rightarrow> reject_tokens a (Suc n) ts b r)"
  using total_length_map [OF assms] hdr_copy_map [OF assms, of _ b] hdr_copy_long [OF assms, of _ "int (length b)" b]
  by (cases "hdr_map a n"; cases "the (hdr_map a n)") (auto simp: copied_def not_less)

lemma reject_skip:
  assumes "table_exact a" "n + length ts \<le> 23" "Some (ascii ''Origin'') \<notin> set ts"
    and "\<And>i. i < length ts \<Longrightarrow> ts ! i = None \<Longrightarrow> hdr_map a (n + i) = None"
  shows "\<exists>b'. length b' = length b \<and> reject_tokens a n (ts @ us) b r = reject_tokens a (n + length ts) us b' r"
  using assms(2-4)
proof (induction ts arbitrary: n b)
  case (Cons t ts)
  have IH: "\<exists>b'. length b' = length c \<and> reject_tokens a (Suc n) (ts @ us) c r = reject_tokens a (Suc n + length ts) us b' r" for c
  proof (rule Cons.IH)
    show "hdr_map a (Suc n + i) = None" if "i < length ts" "ts ! i = None" for i
      using Cons.prems(3) [of "Suc i"] that by simp
  qed (use Cons.prems in simp_all)
  have none: "t = None \<Longrightarrow> hdr_map a n = None" using Cons.prems(3) [of 0] by simp
  show ?case
  proof (cases "hdr_map a n")
    case None
    then show ?thesis using reject_step [OF assms(1), of n t "ts @ us" b r] Cons.prems(1) IH [of b] by simp
  next
    case (Some v)
    then obtain nm where t: "t = Some nm" "nm \<noteq> ascii ''Origin''" using none Cons.prems(2) by (cases t) auto
    then show ?thesis
      using reject_step [OF assms(1), of n t "ts @ us" b r] Cons.prems(1) IH [of b] IH [of "copied b v"] Some
      by (cases v) simp_all
  qed
qed auto

lemma AUTHORIZED_URL_no_nul: "0 \<notin> set AUTHORIZED_URL" "AUTHORIZED_URL \<noteq> []"
  by (simp_all add: AUTHORIZED_URL_def ascii_def)

text \<open>The tokens after the eighteen that are headers are never in the table of a request.\<close>

definition request_table :: "allocated_headers \<Rightarrow> bool" where
  "request_table a \<longleftrightarrow> table_exact a \<and> (\<forall>h. 18 \<le> h \<longrightarrow> hdr_map a h = None)"

lemma token_names_split:
  obtains us vs where "token_names = us @ Some (ascii ''Upgrade'') # Some (ascii ''Origin'') # vs" "length us = 6" "length vs = 15"
    "Some (ascii ''Origin'') \<notin> set us" "Some (ascii ''Origin'') \<notin> set vs"
    "None \<notin> set us" "\<And>i. i < 15 \<Longrightarrow> vs ! i = None \<Longrightarrow> 18 \<le> 8 + i"
proof (rule that)
  let ?us = "map (\<lambda>s. Some (ascii s)) [''GET URI'', ''Host'', ''Connection'', ''key 1'', ''key 2'', ''Protocol'']"
  let ?ws = "map (\<lambda>s. Some (ascii s)) [''Draft'',
      ''Challenge'', ''Key'', ''Version'', ''Sworigin'', ''Extensions'', ''Accept'', ''Nonce'', ''Http'', ''MuxURL'']"
  let ?vs = "?ws @ replicate 5 None"
  show "token_names = ?us @ Some (ascii ''Upgrade'') # Some (ascii ''Origin'') # ?vs" by (simp add: token_names_def)
  show "Some (ascii ''Origin'') \<notin> set ?us" "Some (ascii ''Origin'') \<notin> set ?vs" by (simp_all add: ascii_def)
  show "18 \<le> 8 + i" if "i < 15" "?vs ! i = None" for i
  proof (rule ccontr)
    assume "\<not> ?thesis"
    then have "i < length ?ws" by simp
    then have "?vs ! i = ?ws ! i" "?ws ! i \<in> set ?ws" by (simp_all only: nth_append if_True nth_mem)
    then show False using that(2) by auto
  qed
qed simp_all

text \<open>The first six headers go into the buffer; then the check looks at what the origin leaves there.\<close>

definition upgrade_copied :: "allocated_headers \<Rightarrow> bytes \<Rightarrow> bytes" where
  "upgrade_copied a b = (case hdr_map a WSI_TOKEN_UPGRADE of Some (c # v) \<Rightarrow> copied b (c # v) | _ \<Rightarrow> b)"

lemma reject_origin:
  assumes "request_table a" "length b = 256"
  shows "\<exists>b'. length b' = 256 \<and>
    reject_request a b = Some (case hdr_map a WSI_TOKEN_ORIGIN of
        Some (c # v) \<Rightarrow> \<not> strcmp_eq AUTHORIZED_URL (copied (upgrade_copied a b') (c # v)) | _ \<Rightarrow> True)"
proof -
  have t: "table_exact a" "\<And>h. 18 \<le> h \<Longrightarrow> hdr_map a h = None" using assms(1) by (auto simp: request_table_def)
  obtain us vs where s: "token_names = us @ Some (ascii ''Upgrade'') # Some (ascii ''Origin'') # vs" "length us = 6" "length vs = 15"
    "Some (ascii ''Origin'') \<notin> set us" "Some (ascii ''Origin'') \<notin> set vs"
    "None \<notin> set us" "\<And>i. i < 15 \<Longrightarrow> vs ! i = None \<Longrightarrow> 18 \<le> 8 + i"
    using token_names_split by metis
  have "us ! i \<noteq> None" if "i < 6" for i using s(2,6) that by (metis nth_mem)
  then have "\<And>i. i < length us \<Longrightarrow> us ! i = None \<Longrightarrow> hdr_map a (0 + i) = None" using s(2) by auto
  then obtain b' where b': "length b' = 256"
    "reject_request a b = reject_tokens a 6 (Some (ascii ''Upgrade'') # Some (ascii ''Origin'') # vs) b' True"
    using reject_skip [OF t(1), of 0 us b "Some (ascii ''Upgrade'') # Some (ascii ''Origin'') # vs" True] s(2,4) assms(2)
    unfolding reject_request_def s(1) by (auto simp del: reject_tokens.simps)
  have upgrade: "reject_tokens a 6 (Some (ascii ''Upgrade'') # Some (ascii ''Origin'') # vs) b' True =
      reject_tokens a 7 (Some (ascii ''Origin'') # vs) (upgrade_copied a b') True"
    using reject_step [OF t(1), of 6] by (simp add: upgrade_copied_def ascii_def split: option.split list.split)
  have "reject_tokens a 8 vs b'' r = Some r" for b'' r
    using reject_skip [OF t(1), of 8 vs b'' "[]" r] s(3,5,7) t(2) by auto
  then have "reject_request a b = Some (case hdr_map a 7 of
        Some (c # v) \<Rightarrow> \<not> strcmp_eq AUTHORIZED_URL (copied (upgrade_copied a b') (c # v)) | _ \<Rightarrow> True)"
    unfolding b'(2) upgrade using reject_step [OF t(1), of 7] by (simp split: option.split list.split)
  then show ?thesis using b'(1) by blast
qed

text \<open>An origin that fits into the buffer is compared with the address of the service.\<close>

lemma reject_short_origin:
  assumes "request_table a" "length b = 256" "\<And>v. hdr_map a WSI_TOKEN_ORIGIN = Some v \<Longrightarrow> length v < 256"
  shows "reject_request a b = Some (hdr_map a WSI_TOKEN_ORIGIN \<noteq> Some AUTHORIZED_URL)"
proof -
  obtain b' where b': "length b' = 256" "reject_request a b = Some (case hdr_map a WSI_TOKEN_ORIGIN of
        Some (c # v) \<Rightarrow> \<not> strcmp_eq AUTHORIZED_URL (copied (upgrade_copied a b') (c # v)) | _ \<Rightarrow> True)"
    using reject_origin [OF assms(1,2)] by blast
  have l: "length (upgrade_copied a b') = 256" using b'(1) by (simp add: upgrade_copied_def split: option.split list.split)
  have "strcmp_eq AUTHORIZED_URL (copied (upgrade_copied a b') (c # v)) \<longleftrightarrow> c # v = AUTHORIZED_URL"
    if "hdr_map a WSI_TOKEN_ORIGIN = Some (c # v)" for c v
  proof -
    have "0 \<notin> set (c # v)" using table_no_nul [OF _ that] assms(1) by (simp add: request_table_def)
    then show ?thesis
      using strcmp_eq_nul [OF AUTHORIZED_URL_no_nul(1), of "c # v"] assms(3) [OF that] l by (simp add: copied_def)
  qed
  then show ?thesis using b'(2) AUTHORIZED_URL_no_nul(2) by (auto split: option.splits list.splits)
qed

text \<open>A longer one is not copied, and the upgrade header is taken for it.\<close>

lemma reject_long_origin:
  assumes "request_table a" "length b = 256" "hdr_map a WSI_TOKEN_ORIGIN = Some v" "256 \<le> length v"
    and "hdr_map a WSI_TOKEN_UPGRADE = Some u" "u \<noteq> []" "length u < 256"
  shows "reject_request a b = Some (u \<noteq> AUTHORIZED_URL)"
proof -
  obtain b' where b': "length b' = 256" "reject_request a b = Some (case hdr_map a WSI_TOKEN_ORIGIN of
        Some (c # v) \<Rightarrow> \<not> strcmp_eq AUTHORIZED_URL (copied (upgrade_copied a b') (c # v)) | _ \<Rightarrow> True)"
    using reject_origin [OF assms(1,2)] by blast
  have up: "upgrade_copied a b' = copied b' u"
    unfolding upgrade_copied_def assms(5) using assms(6) by (cases u) simp_all
  have "copied (copied b' u) v = copied b' u" using assms(4) b'(1) by (subst copied_def) simp
  moreover have "strcmp_eq AUTHORIZED_URL (copied b' u) \<longleftrightarrow> u = AUTHORIZED_URL"
    using strcmp_eq_nul [OF AUTHORIZED_URL_no_nul(1)] table_no_nul [OF _ assms(5)] assms(1,7) b'(1)
    by (simp add: copied_def request_table_def)
  moreover obtain c cs where "v = c # cs" using assms(4) by (cases v) auto
  ultimately show ?thesis using b'(2) assms(3) up by simp
qed

end
