(* ===== verification/Login_Server.thy ===== *)
theory Login_Server
  imports Ws_Accept Card_Reader Origin_Check
begin

text \<open>
  The login service, \<open>srl/secure-rfid-login.c\<close>: the question to the user, and the
  protocol that hands the credentials of the card to the page. What is only printed to the console is
  left out. A result \<open>None\<close> is an access outside of an array or through a null pointer.
\<close>

section \<open>What the service calls\<close>

text \<open>
  The question to the user; the globals of the reader, which another thread changes between two looks at
  them; the contents of an uninitialised local array, by its name; and a line on \<open>stderr\<close>.
\<close>

record 'e login =
  MessageBox :: "bytes \<Rightarrow> bytes \<Rightarrow> 'e \<Rightarrow> int \<times> 'e"
  globals :: "'e \<Rightarrow> reader \<times> 'e"
  locals :: "'e \<Rightarrow> string \<Rightarrow> bytes"
  fprintf_stderr :: "bytes \<Rightarrow> 'e \<Rightarrow> 'e"

abbreviation (input) IDYES :: int where "IDYES \<equiv> 6"
abbreviation (input) MAX_CONTENT_LENGHT :: nat where "MAX_CONTENT_LENGHT \<equiv> 64"

section \<open>Credentials\<close>

definition send_notification :: "('e, 'x) login_scheme \<Rightarrow> 'e \<Rightarrow> bool \<times> 'e" where
  "send_notification api e =
     (let (result, e) = MessageBox api
        (ascii ''Do you want to release your credentials to ?'' @ [0x0a] @
         ascii ''WARNING! If you say YES your username/password will be sent over to the requesting page.'' @ [0x0a])
        (ascii ''Credential releasing'') e
      in (result = IDYES, e))"

text \<open>The destinations are given as an array and a position in it.\<close>

definition get_credential ::
  "('e, 'x) login_scheme \<Rightarrow> bytes \<Rightarrow> bytes \<Rightarrow> nat \<Rightarrow> 'e \<Rightarrow> (bool \<times> bytes \<times> bytes \<times> 'e) option" where
  "get_credential api user pass p e =
     (let (st, e) = globals api e
      in do {
        (user_len, rfid_username) \<leftarrow> get_username st (replicate MAX_CONTENT_LENGHT 0);
        if user_len = -1 then Some (False, user, pass, e)
        else
          let (st, e) = globals api e
          in do {
            (pass_len, rfid_password) \<leftarrow> get_password st (replicate MAX_CONTENT_LENGHT 0);
            if pass_len = -1 then Some (False, user, pass, e)
            else do {
              user \<leftarrow> put_at user p (take (nat user_len) rfid_username);
              pass \<leftarrow> put_at pass p (take (nat pass_len) rfid_password);
              Some (True, user, pass, e) } } })"

section \<open>The protocol of the page\<close>

text \<open>
  The arrays of the callback, with the place of the payload cleared. The library puts a NUL behind what was received,
  so that what is compared with \<open>INIT\<close> ends there at the latest. The results of the two writes are not looked at.
  \<open>ops\<close> is what the library calls for this connection.
\<close>

definition payload_array :: "('e, 'x) login_scheme \<Rightarrow> 'e \<Rightarrow> string \<Rightarrow> bytes option" where
  "payload_array api e nm = put_at (locals api e nm) LWS_SEND_BUFFER_PRE_PADDING (replicate MAX_CONTENT_LENGHT 0)"

definition callback_dumb_increment ::
  "('e, 'x) login_scheme \<Rightarrow> 'e ws_ops \<Rightarrow> allocated_headers option \<Rightarrow> cb_reason \<Rightarrow> bytes \<Rightarrow> 'e conn \<Rightarrow>
     (int \<times> 'e conn) option" where
  "callback_dumb_increment api ops headers reason inp = (\<lambda>(w, e).
     do {
       user \<leftarrow> payload_array api e ''username'';
       pass \<leftarrow> payload_array api e ''password'';
       (case reason of
          LWS_CALLBACK_RECEIVE \<Rightarrow>
            if take 4 (inp @ [0]) \<noteq> ascii ''INIT'' then Some (0, w, e)
            else do {
              (ready, user, pass, e) \<leftarrow> get_credential api user pass LWS_SEND_BUFFER_PRE_PADDING e;
              if \<not> ready then Some (0, w, e)
              else
                let (yes, e) = send_notification api e
                in if \<not> yes then Some (0, w, e)
                   else do {
                     u \<leftarrow> c_string user LWS_SEND_BUFFER_PRE_PADDING;
                     (n, user, s) \<leftarrow> libwebsocket_write ops user LWS_SEND_BUFFER_PRE_PADDING (length u) LWS_WRITE_TEXT (w, e);
                     p \<leftarrow> c_string pass LWS_SEND_BUFFER_PRE_PADDING;
                     (n, pass, s) \<leftarrow> libwebsocket_write ops pass LWS_SEND_BUFFER_PRE_PADDING (length p) LWS_WRITE_TEXT s;
                     Some (0, s) } }
        | LWS_CALLBACK_FILTER_PROTOCOL_CONNECTION \<Rightarrow>
            do {
              a \<leftarrow> headers;
              reject \<leftarrow> reject_request a (locals api e ''buf'');
              Some (if reject then -1 else 0, w, e) }
        | _ \<Rightarrow> Some (0, w, e)) })"

section \<open>The protocols of the service\<close>

text \<open>
  The array the server is made with, for given callbacks. A session of the mirror protocol is a pointer and an \<open>int\<close>.
\<close>

type_synonym 'e callback = "allocated_headers option \<Rightarrow> cb_reason \<Rightarrow> bytes \<Rightarrow> 'e conn \<Rightarrow> int \<times> 'e conn"

definition login_protocols :: "'e callback \<Rightarrow> 'e callback \<Rightarrow> 'e callback \<Rightarrow> 'e protocol_entry list" where
  "login_protocols http dumb mirror =
     [\<lparr>protocol_name = Some (ascii ''http-only''),
        protocol_fields = \<lparr>protocol_index = 0, per_session_data_size = 4, rx_buffer_size = 0, no_buffer_all_partial_tx = False,
          has_callback = True\<rparr>, protocol_callback = Some http\<rparr>,
      \<lparr>protocol_name = Some (ascii ''dumb-increment-protocol''),
        protocol_fields = \<lparr>protocol_index = 1, per_session_data_size = 4, rx_buffer_size = 10, no_buffer_all_partial_tx = False,
          has_callback = True\<rparr>, protocol_callback = Some dumb\<rparr>,
      \<lparr>protocol_name = Some (ascii ''lws-mirror-protocol''),
        protocol_fields = \<lparr>protocol_index = 2, per_session_data_size = 8, rx_buffer_size = 128, no_buffer_all_partial_tx = False,
          has_callback = True\<rparr>, protocol_callback = Some mirror\<rparr>,
      \<lparr>protocol_name = None,
        protocol_fields = \<lparr>protocol_index = 3, per_session_data_size = 0, rx_buffer_size = 0, no_buffer_all_partial_tx = False,
          has_callback = False\<rparr>, protocol_callback = None\<rparr>]"

text \<open>A callback of the library's type that does what the model of a handler says, wherever that has a result.\<close>

definition runs :: "'e callback \<Rightarrow>
    (allocated_headers option \<Rightarrow> cb_reason \<Rightarrow> bytes \<Rightarrow> 'e conn \<Rightarrow> (int \<times> 'e conn) option) \<Rightarrow> bool" where
  "runs f g \<longleftrightarrow> (\<forall>h r inp s x. g h r inp s = Some x \<longrightarrow> f h r inp s = x)"

end
