(* ===== verification/Handshake_Reply.thy ===== *)
theory Handshake_Reply
  imports Server_Handshake Header_Request Ws_Wire Sha1_Properties
begin

text \<open>
  What \<open>handshake_0405\<close> sends: the response in the service buffer, piece by piece, and the whole handshake
  of a client that asks for no extension.
\<close>

section \<open>Appending to the service buffer\<close>

lemma append_tail:
  assumes "length s < length T"
  shows "append_str (X @ T) (length X) s = Some ((X @ s) @ 0 # drop (Suc (length s)) T, length X + length s)"
  using assms by (simp add: append_str_def put_at_def)

lemma hdr_copy_tail:
  assumes "table_exact a" "h < 23" "hdr_map a h = Some v" "length v < n" "n \<le> length T"
  shows "hdr_copy_at a (X @ T) (length X) n h = Some ((X @ v) @ 0 # drop (Suc (length v)) T, int (length v))"
  using hdr_copy_limit [OF assms(1-3), of "int n" T] assms(4,5) by (simp add: hdr_copy_at_def)

section \<open>The accept key\<close>

lemma length_SHA1: "length (SHA1 d) = 20"
  by (simp add: SHA1_fips length_digest)

lemma accept_key_spec:
  assumes "table_exact a" "hdr_map a WSI_TOKEN_KEY = Some k" "length k < 128" "length mem = 4096"
  shows "\<exists>cs T. accept_key_in mem a = Some (cs @ 0 # T, 28) \<and> length cs = 28 \<and> length T = 4067 \<and> 0 \<notin> set cs \<and>
    b64_decode cs = Some (SHA1 (k @ ws_guid))"
proof -
  have g: "length ws_guid = 36" by (simp add: ws_guid_def ascii_def)
  obtain off where off: "lws_hdr_simple_ptr a WSI_TOKEN_KEY = Some (Some off)" "c_string (data a) off = Some k"
    using simple_ptr_map [OF assms(1), of WSI_TOKEN_KEY] assms(2) by auto
  then have key: "c_str (drop off (data a)) = Some k" by (simp add: c_str_def c_string_def)
  obtain out r where b: "lws_b64_encode_string (SHA1 (k @ ws_guid)) 4096 = (out, r)" by fastforce
  have "b64_length 20 = 28" by (simp add: b64_length_def)
  then obtain cs where cs: "out = cs @ [0]" "length cs = 28" "0 \<notin> set cs" "b64_decode cs = Some (SHA1 (k @ ws_guid))" "r = 28"
    using b64_encode_ok [OF b] by (auto simp: length_SHA1)
  obtain M where M: "append_str mem 0 (k @ ws_guid) = Some (M, length (k @ ws_guid))" "length M = 4096"
      "take (length (k @ ws_guid)) M = k @ ws_guid"
    using append_tail [of "k @ ws_guid" mem "[]"] assms(3,4) g by simp
  have "put_at M 0 out = Some (cs @ 0 # drop 29 M)"
    using M(2) cs(1,2) by (simp add: put_at_def)
  then have "accept_key_in mem a = Some (cs @ 0 # drop 29 M, 28)"
    using off b cs(5) M by (simp add: accept_key_in_def)
  moreover have "length (drop 29 M) = 4067" using M(2) by simp
  ultimately show ?thesis using cs by blast
qed

section \<open>The response\<close>

text \<open>The response to a client with the accept key \<open>acc\<close> that asked for the protocols \<open>pv\<close>.\<close>

definition protocol_line :: "bytes option \<Rightarrow> bytes" where
  "protocol_line pv = (case pv of None \<Rightarrow> [] | Some v \<Rightarrow>
     if v = [] then [] else crlf @ ascii ''Sec-WebSocket-Protocol: '' @ v)"

definition response :: "bytes \<Rightarrow> bytes option \<Rightarrow> bytes" where
  "response acc pv = response_start @ acc @ protocol_line pv @ crlf @ crlf"

lemma length_response_start: "length response_start = 97"
  by (simp add: response_start_def ascii_def)

lemma response_head_spec:
  assumes "table_exact a" "length cs = 28" "length T = 4067" "0 \<notin> set cs"
    and "\<And>v. hdr_map a WSI_TOKEN_PROTOCOL = Some v \<Longrightarrow> length v < 128"
  defines "R \<equiv> response_start @ cs @ protocol_line (hdr_map a WSI_TOKEN_PROTOCOL)"
  shows "\<exists>H T'. response_head (cs @ 0 # T) a 28 = Some (H @ R @ T', Some (128 + length R)) \<and>
    length H = 128 \<and> length (H @ R @ T') = 4096"
proof -
  let ?H = "take 128 (cs @ 0 # T)" and ?T = "drop 128 (cs @ 0 # T)"
  have H: "length ?H = 128" "length ?T = 3968" "?H @ ?T = cs @ 0 # T" using assms(2,3) by simp_all
  have c: "c_str (cs @ 0 # T) = Some cs" using assms(4) by simp
  have 1: "append_str (cs @ 0 # T) 128 response_start =
      Some ((?H @ response_start) @ 0 # drop 98 ?T, 225)" (is "_ = Some (_ @ ?T1, _)")
    using append_tail [of response_start ?T ?H] H by (simp add: length_response_start)
  have "length ?T1 = 3871" using H(2) by (simp only: length_Cons length_drop)
  then have 2: "append_str ((?H @ response_start) @ ?T1) 225 cs =
      Some ((?H @ response_start @ cs) @ 0 # drop 29 ?T1, 253)" (is "_ = Some (_ @ ?T2, _)")
    using append_tail [of cs ?T1 "?H @ response_start"] H(1) assms(2) by (simp add: length_response_start)
  have T2: "length ?T2 = 3843" using \<open>length ?T1 = 3871\<close> by (simp only: length_Cons length_drop)
  have X: "length (?H @ response_start @ cs) = 253" using H(1) assms(2) by (simp add: length_response_start)
  show ?thesis
  proof (cases "protocol_line (hdr_map a WSI_TOKEN_PROTOCOL) = []")
    case True
    then have "lws_hdr_total_length a WSI_TOKEN_PROTOCOL = Some 0"
      using total_length_map [OF assms(1), of WSI_TOKEN_PROTOCOL] by (auto simp: protocol_line_def split: option.splits if_splits)
    then have "response_head (cs @ 0 # T) a 28 = Some (?H @ R @ ?T2, Some (128 + length R))"
      using c 1 2 True assms(2) by (simp add: response_head_def R_def length_response_start)
    moreover have "length (?H @ R @ ?T2) = 4096" using H(1) T2 True assms(2)
      by (simp add: R_def length_response_start del: length_drop drop_append take_append)
    ultimately show ?thesis using H(1) by blast
  next
    case False
    then obtain v where v: "hdr_map a WSI_TOKEN_PROTOCOL = Some v" "v \<noteq> []"
      by (auto simp: protocol_line_def split: option.splits if_splits)
    let ?l = "crlf @ ascii ''Sec-WebSocket-Protocol: ''"
    have l: "length ?l = 26" by (simp add: ascii_def)
    have 3: "append_str ((?H @ response_start @ cs) @ ?T2) 253 ?l =
        Some ((?H @ response_start @ cs @ ?l) @ 0 # drop 27 ?T2, 279)" (is "_ = Some (_ @ ?T3, _)")
      using append_tail [of ?l ?T2 "?H @ response_start @ cs"] X T2 l by (simp del: length_drop drop_append take_append)
    have T3: "length ?T3 = 3817" using T2 by (simp only: length_Cons length_drop)
    have X3: "length (?H @ response_start @ cs @ ?l) = 279" using X l by simp
    have "length v < 128" by (rule assms(5) [OF v(1)])
    then have 4: "hdr_copy_at a ((?H @ response_start @ cs @ ?l) @ ?T3) 279 128 WSI_TOKEN_PROTOCOL =
        Some ((?H @ R) @ 0 # drop (Suc (length v)) ?T3, int (length v))"
      using hdr_copy_tail [OF assms(1) _ v(1), of 128 ?T3 "?H @ response_start @ cs @ ?l"] X3 T3 v
      by (simp add: R_def protocol_line_def del: length_drop drop_append take_append)
    have "length R = 151 + length v" using assms(2) v by (simp add: R_def protocol_line_def length_response_start ascii_def)
    then have "response_head (cs @ 0 # T) a 28 =
        Some (?H @ R @ 0 # drop (Suc (length v)) ?T3, Some (128 + length R))"
      using c 1 2 3 4 v total_length_map [OF assms(1), of WSI_TOKEN_PROTOCOL]
      by (simp add: response_head_def del: length_drop drop_append take_append)
    moreover have "length (?H @ R @ 0 # drop (Suc (length v)) ?T3) = 4096"
      using H(1) T3 \<open>length R = 151 + length v\<close> \<open>length v < 128\<close>
      unfolding length_append length_Cons length_drop by linarith
    ultimately show ?thesis using H(1) by blast
  qed
qed


section \<open>The whole handshake\<close>

lemma send_response_all:
  assumes "takes_all (base_ops sv) sent" "truncated_send_malloc w = None" "length H = 128" "R \<noteq> []"
  shows "send_response sv [] (H @ R @ T) (128 + length R) (w, e) = Some (True, H @ R @ T, w, sent R e)"
proof -
  have n: "(base_ops sv)\<lparr>active_extensions := []\<rparr> = base_ops sv" "active_extensions (base_ops sv) = []"
    using assms(1) by (simp_all add: takes_all_def)
  have "token_bytes \<lparr>token_mem = H @ R @ T, token_pos = 128, token_len = length R, token_moved = False\<rparr> = Some R"
    using assms(3) by (simp add: token_bytes_def)
  then have "send_raw (base_ops sv) LWS_WRITE_HTTP (length R) 0
      \<lparr>token_mem = H @ R @ T, token_pos = 128, token_len = length R, token_moved = False\<rparr> (w, e) =
    Some (int (length R), w, sent R e)"
    using assms(1,2) n by (simp add: send_raw_def issue_raw_plain takes_all_def handle_truncated_send_def)
  then show ?thesis
    using assms(3,4) by (simp add: send_response_def libwebsocket_write_def n)
qed

lemma handshake_reply:
  assumes "table_exact (ah (hdr sc))" "length service_buffer = 4096"
    and "hdr_map (ah (hdr sc)) WSI_TOKEN_HOST = Some h" "h \<noteq> []"
    and "hdr_map (ah (hdr sc)) WSI_TOKEN_KEY = Some k" "k \<noteq> []" "length k < 128"
    and "\<And>v. hdr_map (ah (hdr sc)) WSI_TOKEN_PROTOCOL = Some v \<Longrightarrow> length v < 128"
    and "hdr_map (ah (hdr sc)) WSI_TOKEN_EXTENSIONS \<in> {None, Some []}"
    and "takes_all (base_ops sv) sent" "truncated_send_malloc w = None"
    and "libwebsocket_ensure_user_space (base_ops sv) (ws sc, e) = (0, w, e1)"
    and "protocol_index (protocol w) = int i" "nth_opt (protocols sv) i = Some entry" "protocol_callback entry = Some f"
  shows "\<exists>acc mem. b64_decode acc = Some (SHA1 (k @ ws_guid)) \<and> length acc = 28 \<and> length mem = 4096 \<and>
    handshake_0405 sv ext_name service_buffer sc e =
      (let (r, w, e) = f (Some (ah (hdr sc))) LWS_CALLBACK_ESTABLISHED []
         (w\<lparr>state := WSI_STATE_ESTABLISHED, lws_rx_parse_state := LWS_RXPS_NEW\<rparr>,
          sent (response acc (hdr_map (ah (hdr sc)) WSI_TOKEN_PROTOCOL)) e1)
       in Some (0, mem, [], sc\<lparr>ws := w\<rparr>, e))"
proof -
  let ?a = "ah (hdr sc)" and ?pv = "hdr_map (ah (hdr sc)) WSI_TOKEN_PROTOCOL"
  have len: "lws_hdr_total_length ?a WSI_TOKEN_HOST = Some (length h)" "lws_hdr_total_length ?a WSI_TOKEN_KEY = Some (length k)"
    "lws_hdr_total_length ?a WSI_TOKEN_EXTENSIONS = Some 0"
    using total_length_map [OF assms(1)] assms(3,5,9) by auto
  obtain acc T where key: "accept_key_in service_buffer ?a = Some (acc @ 0 # T, 28)" "length acc = 28" "length T = 4067" "0 \<notin> set acc"
    and acc: "b64_decode acc = Some (SHA1 (k @ ws_guid))"
    using accept_key_spec [OF assms(1,5,7,2)] by blast
  let ?R = "response_start @ acc @ protocol_line ?pv"
  obtain H T' where head: "response_head (acc @ 0 # T) ?a 28 = Some (H @ ?R @ T', Some (128 + length ?R))"
    "length H = 128" "length (H @ ?R @ T') = 4096"
    using response_head_spec [OF assms(1) key(2-4) assms(8)] by auto
  have neg: "negotiate sv ?a ext_name (H @ ?R @ T') (128 + length ?R) (w, e1) = Some (H @ ?R @ T', Some (128 + length ?R), [], w, e1)"
    using len(3) by (simp add: negotiate_def)
  have "length (protocol_line ?pv) \<le> 153"
    using assms(8) by (fastforce simp: protocol_line_def ascii_def split: option.split)
  then have "4 < length T'" using head(2,3) key(2) by (simp add: length_response_start)
  then have app: "append_str (H @ ?R @ T') (128 + length ?R) (crlf @ crlf) =
      Some (H @ response acc ?pv @ 0 # drop (Suc 4) T', 128 + length (response acc ?pv))"
    using append_tail [of "crlf @ crlf" T' "H @ ?R"] head(2) by (simp add: response_def eval_nat_numeral)
  have "response acc ?pv \<noteq> []" by (simp add: response_def)
  note send = send_response_all [OF assms(10,11) head(2) this, of "0 # drop (Suc 4) T'" e1]
  have "length (H @ response acc ?pv @ 0 # drop (Suc 4) T') = 4096"
    using head(3) \<open>4 < length T'\<close> by (simp add: response_def)
  moreover have "handshake_0405 sv ext_name service_buffer sc e =
      (let (r, w, e) = f (Some ?a) LWS_CALLBACK_ESTABLISHED []
         (w\<lparr>state := WSI_STATE_ESTABLISHED, lws_rx_parse_state := LWS_RXPS_NEW\<rparr>, sent (response acc ?pv) e1)
       in Some (0, H @ response acc ?pv @ 0 # drop (Suc 4) T', [], sc\<lparr>ws := w\<rparr>, e))"
    using len assms(4,6,7,12-15) key(1) head(1) neg app send
    by (simp add: handshake_0405_def Let_def split: prod.split)
  ultimately show ?thesis using acc key(2) by blast
qed

end
