(* ===== verification/Login_Handshake.thy ===== *)
theory Login_Handshake
  imports Handshake_Close Login_Server Handshake_Reply
begin

text \<open>
  A request for the protocol of the page, from the bytes on the socket to the answer: the headers are parsed, the protocol
  is found, the callback looks at the origin, and the handshake is answered or the connection given up.
\<close>

section \<open>A new connection\<close>

definition awaiting_request :: "server_conn \<Rightarrow> bool" where
  "awaiting_request c \<longleftrightarrow> state (ws c) = WSI_STATE_HTTP \<and> mode (ws c) = LWS_CONNMODE_HTTP_SERVING \<and> ah_ptr c = LIVE \<and>
     table_exact (ah (hdr c)) \<and> hdr_map (ah (hdr c)) = Map.empty \<and> next_frag_index (ah (hdr c)) = 0 \<and> pos (ah (hdr c)) = 0 \<and>
     ietf_spec_revision (hdr c) = 0 \<and> protocol_index (protocol (ws c)) = 0 \<and> \<not> user_space (ws c) \<and>
     truncated_send_malloc (ws c) = None"

text \<open>The server makes such connections.\<close>

lemma created_awaits_request:
  assumes "libwebsocket_create_new_server_wsi sv sy fd (ctx, e) = Some (Some a, ctx', e')"
    and "\<And>e mem e'. malloc_headers sy e = (Some mem, e') \<Longrightarrow> mem_ok mem"
    and "nth_opt (protocols sv) 0 = Some p" "protocol_index (protocol_fields p) = 0"
  shows "\<exists>c. conns ctx' a = Some c \<and> awaiting_request c \<and> sock (ws c) = fd \<and> conn_extensions ctx' a = []"
proof -
  obtain mem e1 e2 t where m: "malloc_headers sy e1 = (Some mem, e2)" "fst (lws_allocate_header_table (Some mem)) = Some t"
    and c: "conns ctx' a = Some \<lparr>ws = new_wsi (protocol_fields p) fd,
      hdr = \<lparr>ah = t, lextable_pos = 0, parser_state = 0, ietf_spec_revision = 0, hdr_parsing_completed = False\<rparr>, ah_ptr = LIVE\<rparr>"
    "conn_extensions ctx' a = []"
    using assms(1,3)
    by (auto simp: libwebsocket_create_new_server_wsi_def set_conn_def split: prod.splits option.splits Option.bind_splits)
  obtain r where "lws_allocate_header_table (Some mem) = (Some t, r)" using m(2) by (metis prod.collapse)
  from table_exact_alloc [OF assms(2) [OF m(1)] this] show ?thesis
    using c assms(4) by (simp add: awaiting_request_def new_wsi_def)
qed

section \<open>Up to the protocol\<close>

definition upgrade_request :: "(nat \<times> bytes) list \<Rightarrow> bool" where
  "upgrade_request hs \<longleftrightarrow> (\<exists>u v. map_of hs WSI_TOKEN_UPGRADE = Some u \<and> u \<noteq> [] \<and>
     map_of hs WSI_TOKEN_CONNECTION = Some v \<and> v \<noteq> [])"

text \<open>The connection once its headers are complete.\<close>

definition with_headers :: "server_conn \<Rightarrow> hdr_wsi \<Rightarrow> server_conn" where
  "with_headers c h = c\<lparr>hdr := h, ws := (ws c)\<lparr>state := WSI_STATE_HTTP_HEADERS,
     wsi_spec_revision := ietf_spec_revision h, mode := LWS_CONNMODE_PRE_WS_SERVING_ACCEPT\<rparr>\<rparr>"

definition headers_of :: "bytes \<Rightarrow> (nat \<times> bytes) list \<Rightarrow> hdr_wsi \<Rightarrow> bool" where
  "headers_of uri hs h \<longleftrightarrow> request_table (ah h) \<and> hdr_map (ah h) = (map_of hs)(WSI_TOKEN_GET_URI \<mapsto> uri) \<and>
     ietf_spec_revision h = spec_revision (map_of hs) 0"

lemma read_upgrade_request:
  assumes "conns ctx a = Some c" "awaiting_request c" "good_request uri hs" "upgrade_request hs"
  shows "\<exists>h. headers_of uri hs h \<and>
    libwebsocket_read sv sy a (http_request uri hs) (ctx, e) = read_upgrade sv sy a (with_headers c h) (ctx, e)"
proof -
  let ?h0 = "(hdr c)\<lparr>parser_state := WSI_TOKEN_NAME_PART, lextable_pos := 0\<rparr>"
  have new: "line_start ?h0" "hdr_map (ah ?h0) = Map.empty" "next_frag_index (ah ?h0) = 0" "pos (ah ?h0) = 0"
    using assms(2) by (simp_all add: awaiting_request_def line_start_def)
  obtain h where h: "parse_bytes ?h0 (http_request uri hs) = Some (h, 0)" "table_exact (ah h)"
    "hdr_map (ah h) = (map_of hs)(WSI_TOKEN_GET_URI \<mapsto> uri)" "parser_state h = WSI_PARSING_COMPLETE"
    "ietf_spec_revision h = spec_revision (map_of hs) (ietf_spec_revision ?h0)"
    using parse_http_request [OF new assms(3)] by blast
  have rev: "ietf_spec_revision ?h0 = 0" using assms(2) by (simp add: awaiting_request_def)
  have "hdr_map (ah h) t = None" if "18 \<le> t" for t
  proof -
    have "t \<notin> fst ` set hs" using assms(3) that by (auto simp: good_request_def request_header_def)
    then have "map_of hs t = None" by (simp add: map_of_eq_None_iff)
    then show ?thesis using h(3) that by simp
  qed
  then have hs: "headers_of uri hs h" using h rev by (simp add: headers_of_def request_table_def)
  have len: "\<exists>n. lws_hdr_total_length (ah h) WSI_TOKEN_UPGRADE = Some (Suc n)"
    "\<exists>n. lws_hdr_total_length (ah h) WSI_TOKEN_CONNECTION = Some (Suc n)"
    using total_length_map [OF h(2)] assms(4) h(3)
    by (auto simp: upgrade_request_def gr0_conv_Suc [symmetric])
  have "http_request uri hs \<noteq> []" "ah_ptr c = LIVE" "state (ws c) = WSI_STATE_HTTP"
    using assms(2) by (simp_all add: http_request_def awaiting_request_def)
  then have "libwebsocket_read sv sy a (http_request uri hs) (ctx, e) = read_upgrade sv sy a (with_headers c h) (ctx, e)"
    using assms(1) h(1,4) len by (auto simp: libwebsocket_read_def read_headers_def with_headers_def)
  with hs show ?thesis by blast
qed

lemma header_string_map:
  assumes "table_exact a" "h < 23"
  shows "header_string a h = Some (hdr_map a h)"
  using simple_ptr_map [OF assms] by (auto simp: header_string_def split: option.splits)

definition login_server :: "'e server \<Rightarrow> 'e callback \<Rightarrow> bool" where
  "login_server sv dumb \<longleftrightarrow> (\<exists>http mirror. protocols sv = login_protocols http dumb mirror)"

abbreviation (input) login_fields :: ws_protocol where
  "login_fields \<equiv> \<lparr>protocol_index = 1, per_session_data_size = 4, rx_buffer_size = 10, no_buffer_all_partial_tx = False,
     has_callback = True\<rparr>"

lemma requested_login:
  assumes "login_server sv dumb" "table_exact a" "hdr_map a WSI_TOKEN_PROTOCOL = Some (ascii ''dumb-increment-protocol'')"
    and "protocol_index (protocol w) = 0"
  shows "requested_protocol sv a w = Some (1, True)" "\<exists>p. nth_opt (protocols sv) 1 = Some p \<and> protocol_fields p = login_fields \<and>
    protocol_callback p = Some dumb"
proof -
  obtain http mirror where p: "protocols sv = login_protocols http dumb mirror" using assms(1) by (auto simp: login_server_def)
  show "requested_protocol sv a w = Some (1, True)"
    using assms(2-4) total_length_map [OF assms(2), of WSI_TOKEN_PROTOCOL] header_string_map [OF assms(2), of WSI_TOKEN_PROTOCOL]
    by (simp add: requested_protocol_def p login_protocols_def nth_opt_def ascii_def)
  show "\<exists>p. nth_opt (protocols sv) 1 = Some p \<and> protocol_fields p = login_fields \<and> protocol_callback p = Some dumb"
    by (simp add: p login_protocols_def nth_opt_def)
qed

section \<open>The answer of the callback\<close>

text \<open>The local arrays of the callbacks have their sizes.\<close>

definition arrays_ok :: "('e, 'x) login_scheme \<Rightarrow> bool" where
  "arrays_ok api \<longleftrightarrow> (\<forall>e. length (locals api e ''buf'') = 256 \<and>
     length (locals api e ''username'') = LWS_SEND_BUFFER_PRE_PADDING + MAX_CONTENT_LENGHT + LWS_SEND_BUFFER_POST_PADDING \<and>
     length (locals api e ''password'') = LWS_SEND_BUFFER_PRE_PADDING + MAX_CONTENT_LENGHT + LWS_SEND_BUFFER_POST_PADDING)"

lemma payload_array_ok:
  assumes "arrays_ok api" "nm \<in> {''username'', ''password''}"
  shows "\<exists>A Z. payload_array api e nm = Some (A @ replicate 64 0 @ Z) \<and> length A = 18 \<and> length Z = 4"
proof -
  have "length (locals api e nm) = 86"
    using assms by (auto simp: arrays_ok_def LWS_SEND_BUFFER_PRE_PADDING_def LWS_SEND_BUFFER_POST_PADDING_def)
  then show ?thesis
    by (intro exI [of _ "take 18 (locals api e nm)"] exI [of _ "drop 82 (locals api e nm)"])
      (simp add: payload_array_def put_at_def LWS_SEND_BUFFER_PRE_PADDING_def)
qed

lemma callback_filter:
  assumes "arrays_ok api" "reject_request a (locals api e ''buf'') = Some rej"
  shows "callback_dumb_increment api ops (Some a) LWS_CALLBACK_FILTER_PROTOCOL_CONNECTION inp (w, e) =
    Some (if rej then -1 else 0, w, e)"
  using payload_array_ok [OF assms(1), of "''username''" e] payload_array_ok [OF assms(1), of "''password''" e] assms(2)
  by (auto simp: callback_dumb_increment_def)

lemma callback_established:
  assumes "arrays_ok api"
  shows "callback_dumb_increment api ops h LWS_CALLBACK_ESTABLISHED inp (w, e) = Some (0, w, e)"
  using payload_array_ok [OF assms(1), of "''username''" e] payload_array_ok [OF assms(1), of "''password''" e]
  by (auto simp: callback_dumb_increment_def)

text \<open>The request reaches the callback, which refuses or admits it.\<close>

lemma ensure_user_space_cases:
  assumes "protocol w = login_fields" "\<not> user_space w"
  shows "libwebsocket_ensure_user_space ops (w, e) =
    (let (ok, e) = malloc_ok ops 4 e in if ok then (0, w\<lparr>user_space := True\<rparr>, e) else (1, w, e))"
  using assms by (simp add: libwebsocket_ensure_user_space_def)

text \<open>A request for the protocol of the page that reaches a new connection, and what the server relies on.\<close>

definition login_request :: "(nat \<times> bytes) list \<Rightarrow> bool" where
  "login_request hs \<longleftrightarrow> upgrade_request hs \<and> map_of hs WSI_TOKEN_PROTOCOL = Some (ascii ''dumb-increment-protocol'')"

definition new_connection :: "'e lws_context \<Rightarrow> nat \<Rightarrow> server_conn \<Rightarrow> bool" where
  "new_connection ctx a c \<longleftrightarrow> table_inv ctx \<and> a \<in> polled ctx \<and> conns ctx a = Some c \<and> conn_extensions ctx a = [] \<and>
     awaiting_request c"

lemma request_refused:
  assumes "quiet_server sv" "silent sv sy acc" "login_server sv dumb" "runs dumb (callback_dumb_increment api ops)"
    and "arrays_ok api" "new_connection ctx a c" "good_request uri hs" "login_request hs"
    and "\<And>h b. headers_of uri hs h \<Longrightarrow> length b = 256 \<Longrightarrow> reject_request (ah h) b = Some True"
  shows "\<exists>ctx' e'. libwebsocket_read sv sy a (http_request uri hs) (ctx, e) = Some (-1, ctx', e') \<and>
    given_up ctx a ctx' \<and> acc e' = acc e"
proof -
  have c: "table_inv ctx" "a \<in> polled ctx" "conns ctx a = Some c" "conn_extensions ctx a = []" "awaiting_request c"
    using assms(6) by (simp_all add: new_connection_def)
  have hs: "upgrade_request hs" "map_of hs WSI_TOKEN_PROTOCOL = Some (ascii ''dumb-increment-protocol'')"
    using assms(8) by (simp_all add: login_request_def)
  obtain h where h: "headers_of uri hs h"
    "libwebsocket_read sv sy a (http_request uri hs) (ctx, e) = read_upgrade sv sy a (with_headers c h) (ctx, e)"
    using read_upgrade_request [OF c(3,5) assms(7) hs(1)] by blast
  have t: "table_exact (ah h)" "hdr_map (ah h) WSI_TOKEN_PROTOCOL = Some (ascii ''dumb-increment-protocol'')"
    using h(1) hs(2) by (simp_all add: headers_of_def request_table_def)
  let ?c = "with_headers c h"
  let ?w = "(ws ?c)\<lparr>protocol := login_fields\<rparr>"
  have w: "hdr ?c = h" "ah_ptr ?c = LIVE" "protocol_index (protocol (ws ?c)) = 0" "\<not> user_space ?w"
    using c(5) by (simp_all add: with_headers_def awaiting_request_def)
  obtain p where p: "nth_opt (protocols sv) 1 = Some p" "protocol_fields p = login_fields" "protocol_callback p = Some dumb"
    using requested_login(2) [OF assms(3) t w(3)] by blast
  note sel = requested_login(1) [OF assms(3) t w(3)]
  obtain ok e1 where m: "malloc_ok (base_ops sv) 4 e = (ok, e1)" by fastforce
  have acc: "acc e1 = acc e" using assms(2) m unfolding silent_def by (metis snd_conv)
  have "length (locals api e1 ''buf'') = 256" using assms(5) by (simp add: arrays_ok_def)
  then have "reject_request (ah h) (locals api e1 ''buf'') = Some True" by (rule assms(9) [OF h(1)])
  then have cb: "dumb (Some (ah h)) LWS_CALLBACK_FILTER_PROTOCOL_CONNECTION inp (v, e1) = (-1, v, e1)" for inp v
    using callback_filter [OF assms(5)] assms(4) unfolding runs_def by fastforce
  have give: "\<exists>ctx' e'. bail_nuke_ah sv sy a (set_conn a (?c\<lparr>ws := v\<rparr>) ctx, x) = Some (-1, ctx', e') \<and> given_up ctx a ctx' \<and>
      acc e' = acc x" if "v \<in> {?w, ?w\<lparr>user_space := True\<rparr>}" for v x
    using that w(2) by (intro bail_nuke_gives_up [OF assms(1,2) c(1-4)]) (auto simp: with_headers_def same_place_def)
  have up: "read_upgrade sv sy a ?c (ctx, e) =
      bail_nuke_ah sv sy a (set_conn a (?c\<lparr>ws := if ok then ?w\<lparr>user_space := True\<rparr> else ?w\<rparr>) ctx, e1)"
    using sel p m w cb header_string_map [OF t(1), of WSI_TOKEN_PROTOCOL]
    by (auto simp: read_upgrade_def Let_def ensure_user_space_cases call_protocol_def)
  have "(if ok then ?w\<lparr>user_space := True\<rparr> else ?w) \<in> {?w, ?w\<lparr>user_space := True\<rparr>}" by simp
  from give [OF this, of e1] show ?thesis unfolding h(2) up acc .
qed

section \<open>The answer of the server\<close>

text \<open>A network that takes what is sent, and memory for what the connection needs.\<close>

definition net_ok :: "'e server \<Rightarrow> ('e, 'x) net_scheme \<Rightarrow> ('e \<Rightarrow> bytes) \<Rightarrow> bool" where
  "net_ok sv sy acc \<longleftrightarrow> silent sv sy acc \<and>
     (\<exists>sent. takes_all (base_ops sv) sent \<and> (\<forall>bs e. acc (sent bs e) = acc e @ bs)) \<and>
     (\<forall>n e. fst (malloc_ok (base_ops sv) n e)) \<and>
     (\<forall>n e. \<exists>mem e'. malloc_bytes sy n e = (Some mem, e') \<and> length mem = n \<and> acc e' = acc e) \<and>
     (\<forall>fd n e. \<exists>e'. setsockopt sy fd n e = (True, e') \<and> acc e' = acc e)"

text \<open>A connection of the protocol of the page, between two messages.\<close>

definition login_open :: "wsi \<Rightarrow> bool" where
  "login_open w \<longleftrightarrow> protocol w = login_fields \<and> mode w = LWS_CONNMODE_WS_SERVING \<and> state w = WSI_STATE_ESTABLISHED \<and>
     \<not> inside_frame w \<and> truncated_send_malloc w = None \<and> rx_idle w"

lemma becomes_open:
  assumes "net_ok sv sy acc" "ah_ptr c = LIVE" "protocol (ws c) = login_fields" "state (ws c) = WSI_STATE_ESTABLISHED"
    and "lws_rx_parse_state (ws c) = LWS_RXPS_NEW" "wsi_spec_revision (ws c) = 13"
  shows "\<exists>c' e'. become_websocket sv sy a c (ctx, e) = Some (0, set_conn a c' ctx, e') \<and> acc e' = acc e \<and>
    login_open (ws c') \<and> same_place (ws c) (ws c')"
proof -
  let ?n = "10 + LWS_SEND_BUFFER_PRE_PADDING + LWS_SEND_BUFFER_POST_PADDING"
  let ?w = "(union_clear ((ws c)\<lparr>mode := LWS_CONNMODE_WS_SERVING\<rparr>))\<lparr>rxflow_change_to := LWS_RXFLOW_ALLOW\<rparr>"
  obtain mem e1 where m: "malloc_bytes sy ?n e = (Some mem, e1)" "length mem = ?n" "acc e1 = acc e"
    using assms(1) unfolding net_ok_def by blast
  obtain e2 where o: "setsockopt sy (sock ?w) ?n e1 = (True, e2)" "acc e2 = acc e1"
    using assms(1) unfolding net_ok_def by blast
  let ?c = "c\<lparr>ws := ?w\<lparr>rx_user_buffer := mem\<rparr>, ah_ptr := NULL_PTR\<rparr>"
  have "become_websocket sv sy a c (ctx, e) = Some (0, set_conn a ?c ctx, e2)"
    using assms(2,3) m(1) o(1) by (simp add: become_websocket_def free_ptr_def union_clear_def)
  moreover have "login_open (ws ?c)" "same_place (ws c) (ws ?c)"
    using assms(3-6) m(2)
    by (simp_all add: login_open_def union_clear_def rx_idle_def flow_open_def rx_holds_def rx_limit_def same_place_def)
  ultimately show ?thesis using m(3) o(2) by metis
qed

text \<open>What the request must have for the handshake.\<close>

definition handshake_headers :: "(nat \<times> bytes) list \<Rightarrow> bytes \<Rightarrow> bool" where
  "handshake_headers hs k \<longleftrightarrow> map_of hs WSI_TOKEN_VERSION = Some (ascii ''13'') \<and>
     (\<exists>h. map_of hs WSI_TOKEN_HOST = Some h \<and> h \<noteq> []) \<and> map_of hs WSI_TOKEN_KEY = Some k \<and> k \<noteq> [] \<and> length k < 128 \<and>
     map_of hs WSI_TOKEN_EXTENSIONS \<in> {None, Some []}"

lemma revision_13:
  "upgrade_request hs \<Longrightarrow> map_of hs WSI_TOKEN_VERSION = Some (ascii ''13'') \<Longrightarrow> spec_revision (map_of hs) 0 = 13"
  by (auto simp: upgrade_request_def spec_revision_def ascii_def atoi_def is_space_def is_digit_def digits_value_def)

text \<open>The context with the connection \<open>c'\<close> in it; the response was built in the service buffer.\<close>

definition opened :: "'e lws_context \<Rightarrow> nat \<Rightarrow> server_conn \<Rightarrow> 'e lws_context \<Rightarrow> bool" where
  "opened ctx a c' ctx' \<longleftrightarrow> (\<exists>mem. length mem = 4096 \<and>
     ctx' = set_conn a c' (ctx\<lparr>conn_extensions := (conn_extensions ctx)(a := []), service_buffer := mem\<rparr>))"

lemma opened_D: "opened ctx a c' ctx' \<Longrightarrow> conns ctx' a = Some c' \<and> conn_extensions ctx' a = []"
  by (auto simp: opened_def set_conn_def)

lemma request_answered:
  assumes "net_ok sv sy acc" "login_server sv dumb" "runs dumb (callback_dumb_increment api ops)" "arrays_ok api"
    and "new_connection ctx a c" "good_request uri hs" "login_request hs" "handshake_headers hs k"
    and "\<And>h b. headers_of uri hs h \<Longrightarrow> length b = 256 \<Longrightarrow> reject_request (ah h) b = Some False"
    and "length (service_buffer ctx) = 4096"
  shows "\<exists>key ctx' e' c'. b64_decode key = Some (SHA1 (k @ ws_guid)) \<and>
    libwebsocket_read sv sy a (http_request uri hs) (ctx, e) = Some (0, ctx', e') \<and>
    acc e' = acc e @ response key (Some (ascii ''dumb-increment-protocol'')) \<and>
    login_open (ws c') \<and> same_place (ws c) (ws c') \<and> opened ctx a c' ctx' \<and> table_inv ctx' \<and> polled ctx' = polled ctx"
proof -
  have c: "table_inv ctx" "a \<in> polled ctx" "conns ctx a = Some c" "conn_extensions ctx a = []" "awaiting_request c"
    using assms(5) by (simp_all add: new_connection_def)
  have hs: "upgrade_request hs" "map_of hs WSI_TOKEN_PROTOCOL = Some (ascii ''dumb-increment-protocol'')"
    using assms(7) by (simp_all add: login_request_def)
  obtain host where host: "map_of hs WSI_TOKEN_HOST = Some host" "host \<noteq> []"
    and hh: "map_of hs WSI_TOKEN_VERSION = Some (ascii ''13'')" "map_of hs WSI_TOKEN_KEY = Some k" "k \<noteq> []" "length k < 128"
    "map_of hs WSI_TOKEN_EXTENSIONS \<in> {None, Some []}"
    using assms(8) by (auto simp: handshake_headers_def)
  obtain h where h: "headers_of uri hs h"
    "libwebsocket_read sv sy a (http_request uri hs) (ctx, e) = read_upgrade sv sy a (with_headers c h) (ctx, e)"
    using read_upgrade_request [OF c(3,5) assms(6) hs(1)] by blast
  have rt: "request_table (ah h)" using h(1) by (simp add: headers_of_def)
  then have t: "table_exact (ah h)" "hdr_map (ah h) WSI_TOKEN_PROTOCOL = Some (ascii ''dumb-increment-protocol'')"
    "ietf_spec_revision h = 13"
    using h(1) hs hh(1) by (simp_all add: headers_of_def revision_13) (simp add: request_table_def)
  let ?c = "with_headers c h"
  let ?w = "(ws ?c)\<lparr>protocol := login_fields, user_space := True\<rparr>"
  have w: "hdr ?c = h" "ah_ptr ?c = LIVE" "protocol_index (protocol (ws ?c)) = 0" "\<not> user_space (ws ?c)"
    "truncated_send_malloc ?w = None" "wsi_spec_revision ?w = 13" "same_place (ws c) ?w"
    using c(5) t(3) by (simp_all add: with_headers_def awaiting_request_def same_place_def)
  obtain p where p: "nth_opt (protocols sv) 1 = Some p" "protocol_fields p = login_fields" "protocol_callback p = Some dumb"
    using requested_login(2) [OF assms(2) t(1,2) w(3)] by blast
  note sel = requested_login(1) [OF assms(2) t(1,2) w(3)]
  have net: "silent sv sy acc" "\<And>n e. fst (malloc_ok (base_ops sv) n e)" using assms(1) by (simp_all add: net_ok_def)
  obtain sent where sent: "takes_all (base_ops sv) sent" "\<And>bs e. acc (sent bs e) = acc e @ bs"
    using assms(1) unfolding net_ok_def by blast
  obtain e1 where m: "malloc_ok (base_ops sv) 4 e = (True, e1)" using net(2) by (metis prod.collapse)
  have acc1: "acc e1 = acc e" using net(1) m unfolding silent_def by (metis snd_conv)
  have "length (locals api e1 ''buf'') = 256" using assms(4) by (simp add: arrays_ok_def)
  then have "reject_request (ah h) (locals api e1 ''buf'') = Some False"
    by (rule assms(9) [OF h(1)])
  then have filter: "dumb (Some (ah h)) LWS_CALLBACK_FILTER_PROTOCOL_CONNECTION inp (v, e1) = (0, v, e1)" for inp v
    using callback_filter [OF assms(4)] assms(3) unfolding runs_def by fastforce
  have est: "dumb hd LWS_CALLBACK_ESTABLISHED inp (v, x) = (0, v, x)" for hd inp v x
    using callback_established [OF assms(4)] assms(3) unfolding runs_def by fastforce
  let ?sc = "?c\<lparr>ws := ?w\<rparr>" and ?ext = "ext_name_array sy e1"
  have ex: "\<exists>key mem. b64_decode key = Some (SHA1 (k @ ws_guid)) \<and> length key = 28 \<and> length mem = 4096 \<and>
    handshake_0405 sv ?ext (service_buffer ctx) ?sc e1 =
      (let (r, w, e) = dumb (Some (ah (hdr ?sc))) LWS_CALLBACK_ESTABLISHED []
         (?w\<lparr>state := WSI_STATE_ESTABLISHED, lws_rx_parse_state := LWS_RXPS_NEW\<rparr>,
          sent (response key (hdr_map (ah (hdr ?sc)) WSI_TOKEN_PROTOCOL)) e1)
       in Some (0, mem, [], ?sc\<lparr>ws := w\<rparr>, e))"
  proof (rule handshake_reply [where i = 1 and entry = p and h = host])
    show "libwebsocket_ensure_user_space (base_ops sv) (ws ?sc, e1) = (0, ?w, e1)"
      by (simp add: libwebsocket_ensure_user_space_def)
  qed (use t(1,2) w host hh h(1) assms(10) sent(1) p in \<open>simp_all add: headers_of_def ascii_def\<close>)
  let ?v = "?w\<lparr>state := WSI_STATE_ESTABLISHED, lws_rx_parse_state := LWS_RXPS_NEW\<rparr>"
  obtain key mem where key: "b64_decode key = Some (SHA1 (k @ ws_guid))"
    "length mem = 4096"
    "handshake_0405 sv ?ext (service_buffer ctx) ?sc e1 =
       Some (0, mem, [], ?sc\<lparr>ws := ?v\<rparr>, sent (response key (Some (ascii ''dumb-increment-protocol''))) e1)"
    using ex w(1) t(2) by (auto simp: est)
  let ?e2 = "sent (response key (Some (ascii ''dumb-increment-protocol''))) e1"
  let ?ctx = "ctx\<lparr>conn_extensions := (conn_extensions ctx)(a := []), service_buffer := mem\<rparr>"
  obtain c' e' where b: "become_websocket sv sy a (?sc\<lparr>ws := ?v\<rparr>) (?ctx, ?e2) = Some (0, set_conn a c' ?ctx, e')"
    "acc e' = acc ?e2" "login_open (ws c')" "same_place ?v (ws c')"
    using becomes_open [OF assms(1), of "?sc\<lparr>ws := ?v\<rparr>" a ?ctx ?e2] w by auto
  have "read_upgrade sv sy a ?c (ctx, e) = Some (0, set_conn a c' ?ctx, e')"
    using sel p m w filter key(3) b(1) t(3) header_string_map [OF t(1), of WSI_TOKEN_PROTOCOL]
    by (auto simp: read_upgrade_def Let_def ensure_user_space_cases call_protocol_def)
  moreover have same: "same_place (ws c) (ws c')" using w(7) b(4) by (simp add: same_place_def)
  from update_keeps [OF c(1-3) this]
  have "table_inv (set_conn a c' ?ctx)" "polled (set_conn a c' ?ctx) = polled ctx"
    by (simp_all add: table_inv_def polled_def entry_def set_conn_def)
  ultimately show ?thesis
    using key(1,2) b(2,3) h(2) acc1 sent(2) same
    by (intro exI [of _ key] exI [of _ "set_conn a c' ?ctx"] exI [of _ e'] exI [of _ c']) (auto simp: opened_def)
qed

end
