(* ===== verification/Server_Write.thy ===== *)
theory Server_Write
  imports Ws_Wire
begin

text \<open>
  A server writes a text frame to a socket that takes all of it: the header is built in the padding before the payload,
  and one frame goes out.
\<close>

definition ready_to_write :: "wsi \<Rightarrow> bool" where
  "ready_to_write w \<longleftrightarrow> state w = WSI_STATE_ESTABLISHED \<and> \<not> inside_frame w \<and> wsi_spec_revision w = 13 \<and>
     mode w \<noteq> LWS_CONNMODE_WS_CLIENT \<and> truncated_send_malloc w = None"

lemma write_text:
  assumes "takes_all ops sent" "ready_to_write w" "length A = LWS_SEND_BUFFER_PRE_PADDING" "P \<noteq> []"
  shows "\<exists>A'. length A' = length A \<and>
    libwebsocket_write ops (A @ P @ Z) LWS_SEND_BUFFER_PRE_PADDING (length P) LWS_WRITE_TEXT (w, e) =
      Some (int (length P), A' @ P @ Z, w\<lparr>clean_buffer := \<not> no_buffer_all_partial_tx (protocol w), inside_frame := False\<rparr>,
        sent (server_frame LWS_WRITE_TEXT P) e)"
proof -
  have w: "can_write w LWS_WRITE_TEXT" "mode w \<noteq> LWS_CONNMODE_WS_CLIENT" "truncated_send_malloc w = None"
    "\<not> is_control LWS_WRITE_TEXT"
    using assms(2) by (simp_all add: ready_to_write_def can_write_def frame_opcode_def is_control_def)
  have no: "active_extensions ops = []" using assms(1) by (simp add: takes_all_def)
  let ?w = "w\<lparr>clean_buffer := \<not> no_buffer_all_partial_tx (protocol w)\<rparr>" and ?f = "server_frame LWS_WRITE_TEXT P"
  obtain B where B: "libwebsocket_write ops (A @ P @ Z) (length A) (length P) LWS_WRITE_TEXT (w, e) =
      do { (r, s) \<leftarrow> send_frame ops LWS_WRITE_TEXT ?f (length P) (?w, e); Some (r, B @ ?f @ Z, s) }"
    "length B + length ?f = length A + length P"
    using write_server [OF no w(1,2), of P A Z e] assms(3,4) by (auto simp: LWS_SEND_BUFFER_PRE_PADDING_def)
  have "send_frame ops LWS_WRITE_TEXT ?f (length P) (?w, e) = Some (int (length P), ?w\<lparr>inside_frame := False\<rparr>, sent ?f e)"
    using send_frame_all [OF assms(1), of ?w LWS_WRITE_TEXT] w(3,4) by simp
  then have "libwebsocket_write ops (A @ P @ Z) LWS_SEND_BUFFER_PRE_PADDING (length P) LWS_WRITE_TEXT (w, e) =
      Some (int (length P), (B @ frame_header (first_byte LWS_WRITE_TEXT (the (frame_opcode LWS_WRITE_TEXT))) (length P) 0) @ P @ Z,
        ?w\<lparr>inside_frame := False\<rparr>, sent ?f e)"
    using B(1) assms(3) by (simp add: server_frame_def)
  then show ?thesis using B(2) by (intro exI conjI) (auto simp: server_frame_def)
qed

lemma ready_after_write: "ready_to_write w \<Longrightarrow> ready_to_write (w\<lparr>clean_buffer := b, inside_frame := False\<rparr>)"
  by (simp add: ready_to_write_def)

end
