(* ===== verification/Login_Message.thy ===== *)
theory Login_Message
  imports Login_Handshake Server_Write
begin

text \<open>
  A message of the page: one masked frame that fits into the receive buffer goes to the callback in one piece, whatever
  the callback does, and the callback answers it with the credentials or with nothing.
\<close>

section \<open>One message\<close>

lemma short_payload:
  assumes "flow_open w" "mask_ok w" "lws_rx_parse_state w = LWS_RXPS_PAYLOAD_UNTIL_LENGTH_EXHAUSTED"
    and "rx_holds w acc" "length acc + length ps \<le> rx_limit w"
    and "ps \<noteq> []" "length ps < 2 ^ 32" "rx_packet_length w = word_of_nat (length ps)"
  shows "\<exists>mem j. let w' = w\<lparr>rx_user_buffer := mem, rx_user_buffer_head := length (acc @ ps), frame_mask_index := j,
      rx_packet_length := 0, lws_rx_parse_state := LWS_RXPS_NEW\<rparr>
    in rx_holds w' (acc @ ps) \<and>
      libwebsocket_interpret_incoming_packet ops (mask_bytes (frame_masking_nonce_04 w) (frame_mask_index w) ps @ cs) (w, e) =
        do { (m, s) \<leftarrow> rx_spill ops (w', e);
             if m < 0 then Some (-1, s) else libwebsocket_interpret_incoming_packet ops cs s }"
  using assms
proof (induction ps arbitrary: w acc)
  case (Cons p ps)
  have len: "rx_packet_length w = word_of_nat (Suc (length ps))" "Suc (length ps) < 2 ^ 32" "length acc < rx_limit w"
    using Cons.prems(5,7,8) by simp_all
  obtain mem j w' where w': "w' = w\<lparr>rx_user_buffer := mem, rx_user_buffer_head := Suc (length acc),
      frame_mask_index := j, rx_packet_length := word_of_nat (length ps)\<rparr>"
    and r: "rx_payload w (p XOR frame_masking_nonce_04 w ! unat (frame_mask_index w AND 3)) =
      Some (if ps = [] then Rx_spill (w'\<lparr>lws_rx_parse_state := LWS_RXPS_NEW\<rparr>)
            else if Suc (length acc) \<noteq> rx_limit w then Rx_break w' else Rx_spill w')"
    and h: "rx_holds w' (acc @ [p])"
    and b: "mask_bytes (frame_masking_nonce_04 w) (frame_mask_index w + 1) ps = mask_bytes (frame_masking_nonce_04 w) j ps"
    by (rule payload_counted [OF Cons.prems(4) len(3) Cons.prems(2) len(1,2), of p])
  note step = interpret_payload [OF Cons.prems(1,3) r, of ops]
  show ?case
  proof (cases "ps = []")
    case True
    have h2: "rx_holds (w'\<lparr>lws_rx_parse_state := LWS_RXPS_NEW\<rparr>) (acc @ [p])" using h by simp
    show ?thesis
      using True step [of cs e] h2 by (intro exI [of _ mem] exI [of _ j]) (simp add: w' Let_def)
  next
    case False
    have ih: "\<exists>mem j. let v = w'\<lparr>rx_user_buffer := mem, rx_user_buffer_head := length ((acc @ [p]) @ ps), frame_mask_index := j,
        rx_packet_length := 0, lws_rx_parse_state := LWS_RXPS_NEW\<rparr>
      in rx_holds v ((acc @ [p]) @ ps) \<and>
        libwebsocket_interpret_incoming_packet ops (mask_bytes (frame_masking_nonce_04 w') (frame_mask_index w') ps @ cs) (w', e) =
          do { (m, s) \<leftarrow> rx_spill ops (v, e);
               if m < 0 then Some (-1, s) else libwebsocket_interpret_incoming_packet ops cs s }"
      using Cons.prems False h by (intro Cons.IH) (simp_all add: w' mask_ok_def)
    have "length acc + length ps \<noteq> 0 \<and> Suc (length acc) \<noteq> rx_limit w" using False Cons.prems(5) by (cases ps) auto
    then show ?thesis using ih False step b by (simp add: w')
  qed
qed simp

lemma short_spill:
  assumes "active_extensions ops = []" "data_frame w" "rx_holds w acc" "acc \<noteq> []" "length acc \<le> rx_limit w"
  shows "\<exists>mem. length mem = length (rx_user_buffer w) \<and>
    rx_spill ops (w, e) = (let (r, w, e) = user_callback_handle_rxflow ops LWS_CALLBACK_RECEIVE acc (w\<lparr>rx_user_buffer := mem\<rparr>, e)
      in Some (r, w\<lparr>rx_user_buffer_head := 0\<rparr>, e))"
proof -
  let ?n = "length acc"
  have buf: "take ?n (drop LWS_SEND_BUFFER_PRE_PADDING (rx_user_buffer w)) = acc"
    "LWS_SEND_BUFFER_PRE_PADDING + ?n + 1 \<le> length (rx_user_buffer w)"
    using assms(3,5) by (simp_all add: rx_holds_def LWS_SEND_BUFFER_POST_PADDING_def)
  let ?mem = "take (LWS_SEND_BUFFER_PRE_PADDING + ?n) (rx_user_buffer w) @ [0] @
    drop (LWS_SEND_BUFFER_PRE_PADDING + ?n + 1) (rx_user_buffer w)"
  have "put_at (rx_user_buffer w) (LWS_SEND_BUFFER_PRE_PADDING + ?n) [0] = Some ?mem"
    using buf(2) by (simp add: put_at_def)
  moreover have "rx_tokens w = \<lparr>token_mem = rx_user_buffer w, token_pos = LWS_SEND_BUFFER_PRE_PADDING,
      token_len = ?n, token_moved = False\<rparr>"
    using assms(3) by (simp add: rx_tokens_def rx_holds_def)
  moreover have "token_bytes \<lparr>token_mem = rx_user_buffer w, token_pos = LWS_SEND_BUFFER_PRE_PADDING,
      token_len = ?n, token_moved = False\<rparr> = Some acc"
    using buf by (simp add: token_bytes_def)
  moreover have "has_callback (protocol w)" using assms(2) by (simp add: data_frame_def)
  ultimately have "deliver ops (rx_tokens w) (w, e) =
      (let (r, w, e) = user_callback_handle_rxflow ops LWS_CALLBACK_RECEIVE acc (w\<lparr>rx_user_buffer := ?mem\<rparr>, e)
       in Some (r, w\<lparr>rx_user_buffer_head := 0\<rparr>, e))"
    using assms(4) by (simp add: deliver_def case_prod_unfold Let_def)
  moreover have "rx_spill ops (w, e) = deliver ops (rx_tokens w) (w, e)"
    using assms(1,2) by (auto simp: rx_spill_def data_frame_def rx_tokens_def)
  moreover have "length ?mem = length (rx_user_buffer w)" using buf(2) by simp
  ultimately show ?thesis by metis
qed

text \<open>What is left as it was while a message is read.\<close>

definition same_session :: "wsi \<Rightarrow> wsi \<Rightarrow> bool" where
  "same_session w w' \<longleftrightarrow> protocol w' = protocol w \<and> mode w' = mode w \<and> state w' = state w \<and> inside_frame w' = inside_frame w \<and>
     truncated_send_malloc w' = truncated_send_malloc w \<and> flow_open w' = flow_open w \<and> wsi_spec_revision w' = wsi_spec_revision w \<and>
     same_place w w'"

lemma read_message:
  assumes "active_extensions ops = []" "rx_idle w" "b0 AND 0xf \<in> {OPCODE_TEXT_FRAME, OPCODE_BINARY_FRAME, OPCODE_CONTINUATION}"
    and "length key = 4" "P \<noteq> []" "length P \<le> rx_limit w" "length P < 2 ^ 32"
  shows "\<exists>w'. same_session w w' \<and> rx_idle (w'\<lparr>rx_user_buffer_head := 0\<rparr>) \<and>
    libwebsocket_interpret_incoming_packet ops (client_frame b0 key P) (w, e) =
      (let (r, v, x) = user_callback_handle_rxflow ops LWS_CALLBACK_RECEIVE P (w', e)
       in Some (if r < 0 then -1 else 0, v\<lparr>rx_user_buffer_head := 0\<rparr>, x))"
proof -
  let ?h = "header_read b0 (length P) True w" and ?rd = "libwebsocket_interpret_incoming_packet ops"
  let ?k = "key_read key ?h"
  have w: "flow_open w" "lws_rx_parse_state w = LWS_RXPS_NEW" "wsi_spec_revision w = 13" "rx_holds w []"
    "length (frame_masking_nonce_04 w) = 4" "has_callback (protocol w)"
    using assms(2) by (simp_all add: rx_idle_def)
  have "(b0 AND 0xf) AND 8 = 0" using assms(3) by auto
  then have "b0 AND 8 = 0" by (simp add: and_8)
  then have "?rd (client_frame b0 key P) (w, e) = ?rd (key @ mask_bytes key 0 P) (?h, e)"
    using read_header [OF w(1-3), of b0 "length P" ops True] by (simp add: client_frame_def)
  also have "\<dots> = ?rd (mask_bytes key 0 P @ []) (?k, e)"
  proof -
    have "word_of_nat (length P) \<noteq> (0 :: u32)"
      using assms(5,7) by (auto simp: word_of_nat_eq_0_iff dest!: dvd_imp_le)
    then show ?thesis using w assms(4) by (simp add: read_key)
  qed
  finally have start: "?rd (client_frame b0 key P) (w, e) = ?rd (mask_bytes key 0 P @ []) (?k, e)" .
  have pay: "\<exists>mem j. let w' = ?k\<lparr>rx_user_buffer := mem, rx_user_buffer_head := length ([] @ P), frame_mask_index := j,
        rx_packet_length := 0, lws_rx_parse_state := LWS_RXPS_NEW\<rparr>
      in rx_holds w' ([] @ P) \<and> ?rd (mask_bytes (frame_masking_nonce_04 ?k) (frame_mask_index ?k) P @ []) (?k, e) =
        do { (m, s) \<leftarrow> rx_spill ops (w', e); if m < 0 then Some (-1, s) else ?rd [] s }"
    using w assms(5-7) by (intro short_payload) simp_all
  obtain mem j where p: "rx_holds (?k\<lparr>rx_user_buffer := mem, rx_user_buffer_head := length P, frame_mask_index := j,
      rx_packet_length := 0, lws_rx_parse_state := LWS_RXPS_NEW\<rparr>) P"
    "?rd (client_frame b0 key P) (w, e) = do { (m, s) \<leftarrow> rx_spill ops (?k\<lparr>rx_user_buffer := mem,
        rx_user_buffer_head := length P, frame_mask_index := j, rx_packet_length := 0, lws_rx_parse_state := LWS_RXPS_NEW\<rparr>, e);
      if m < 0 then Some (-1, s) else Some (0, s) }"
    using pay unfolding start by (auto simp: Let_def libwebsocket_interpret_incoming_packet.simps(1) cong: if_cong)
  let ?v = "?k\<lparr>rx_user_buffer := mem, rx_user_buffer_head := length P, frame_mask_index := j, rx_packet_length := 0,
    lws_rx_parse_state := LWS_RXPS_NEW\<rparr>"
  have v: "data_frame ?v" "length P \<le> rx_limit ?v" using w(6) assms(3,6) by (simp_all add: data_frame_def)
  obtain m2 where m2: "length m2 = length mem" "rx_spill ops (?v, e) =
      (let (r, w, e) = user_callback_handle_rxflow ops LWS_CALLBACK_RECEIVE P (?v\<lparr>rx_user_buffer := m2\<rparr>, e)
       in Some (r, w\<lparr>rx_user_buffer_head := 0\<rparr>, e))"
    using short_spill [OF assms(1) v(1) p(1) assms(5) v(2), of e] by auto
  have "same_session w (?v\<lparr>rx_user_buffer := m2\<rparr>)"
    by (simp add: same_session_def same_place_def flow_open_def header_read_def key_read_def handle_first_def after_length_def Let_def)
  moreover have "rx_holds (?v\<lparr>rx_user_buffer := m2, rx_user_buffer_head := 0\<rparr>) []"
    using p(1) m2(1) by (simp add: rx_holds_def rx_limit_def)
  then have "rx_idle (?v\<lparr>rx_user_buffer := m2, rx_user_buffer_head := 0\<rparr>)"
    using w assms(4) by (simp add: rx_idle_def)
  ultimately show ?thesis
    using p(2) m2(2) by (intro exI [of _ "?v\<lparr>rx_user_buffer := m2\<rparr>"]) (simp add: case_prod_unfold Let_def)
qed

section \<open>The credentials\<close>

lemma get_field_cases:
  "\<not> is_data_present st \<Longrightarrow> get_field field st dest = Some (-1, dest)"
  "is_data_present st \<Longrightarrow> c_str (field st) = Some s \<Longrightarrow> length s < 64 \<Longrightarrow>
     get_field field st (replicate 64 0) = Some (int (length s), s @ replicate (64 - length s) 0)"
  by (simp_all add: get_field_def put_at_def Cons_replicate_eq)

text \<open>
  The two looks the service takes at the globals of the reader: the user name is in the first, the password in the second.
\<close>

definition credentials_at :: "('e, 'x) login_scheme \<Rightarrow> 'e \<Rightarrow> bytes \<Rightarrow> bytes \<Rightarrow> 'e \<Rightarrow> bool" where
  "credentials_at api e u p e' \<longleftrightarrow>
     (\<exists>st1 e1 st2. globals api e = (st1, e1) \<and> globals api e1 = (st2, e') \<and> is_data_present st1 \<and> is_data_present st2 \<and>
        c_str (username st1) = Some u \<and> c_str (password st2) = Some p \<and> length u < 64 \<and> length p < 64)"

lemma get_credential_ready:
  assumes "credentials_at api e u p e'" "length A = 18" "length B = 18"
  shows "get_credential api (A @ replicate 64 0 @ Y) (B @ replicate 64 0 @ Z) 18 e =
    Some (True, A @ u @ replicate (64 - length u) 0 @ Y, B @ p @ replicate (64 - length p) 0 @ Z, e')"
proof -
  obtain st1 e1 st2 where g: "globals api e = (st1, e1)" "globals api e1 = (st2, e')" "is_data_present st1" "is_data_present st2"
    "c_str (username st1) = Some u" "c_str (password st2) = Some p" "length u < 64" "length p < 64"
    using assms(1) by (auto simp: credentials_at_def)
  then show ?thesis
    using assms(2,3) by (simp add: get_credential_def get_username_def get_password_def get_field_cases(2) put_at_def)
qed

lemma c_str_no_nul: "c_str mem = Some s \<Longrightarrow> 0 \<notin> set s"
  by (auto simp: c_str_def split: if_splits dest: set_takeWhileD)

lemma c_string_payload:
  assumes "0 \<notin> set u" "length A = n" "0 < m"
  shows "c_string (A @ u @ replicate m 0 @ Z) n = Some u"
proof -
  obtain k where "replicate m (0 :: u8) = 0 # replicate k 0" using assms(3) by (cases m) auto
  then show ?thesis using assms(1,2) by (simp add: c_string_def) (subst takeWhile_append2; force)
qed

lemma callback_releases:
  assumes "arrays_ok api" "takes_all ops sent" "ready_to_write w" "take 4 inp = ascii ''INIT''"
    and "credentials_at api e u p e1" "u \<noteq> []" "p \<noteq> []" "send_notification api e1 = (True, e2)"
  shows "callback_dumb_increment api ops h LWS_CALLBACK_RECEIVE inp (w, e) =
    Some (0, w\<lparr>clean_buffer := \<not> no_buffer_all_partial_tx (protocol w), inside_frame := False\<rparr>,
      sent (server_frame LWS_WRITE_TEXT p) (sent (server_frame LWS_WRITE_TEXT u) e2))"
proof -
  obtain A Y where A: "payload_array api e ''username'' = Some (A @ replicate 64 0 @ Y)" "length A = 18"
    using payload_array_ok [OF assms(1), of "''username''" e] by auto
  obtain B Z where B: "payload_array api e ''password'' = Some (B @ replicate 64 0 @ Z)" "length B = 18"
    using payload_array_ok [OF assms(1), of "''password''" e] by auto
  have up: "0 \<notin> set u" "0 \<notin> set p" "0 < 64 - length u" "0 < 64 - length p"
    using assms(5) c_str_no_nul by (auto simp: credentials_at_def)
  let ?v = "w\<lparr>clean_buffer := \<not> no_buffer_all_partial_tx (protocol w), inside_frame := False\<rparr>"
  have v: "ready_to_write ?v" using assms(3) by (rule ready_after_write)
  have pad: "LWS_SEND_BUFFER_PRE_PADDING = 18" by (simp add: LWS_SEND_BUFFER_PRE_PADDING_def)
  obtain mu where 1: "libwebsocket_write ops (A @ u @ replicate (64 - length u) 0 @ Y) 18 (length u) LWS_WRITE_TEXT (w, e2) =
      Some (int (length u), mu, ?v, sent (server_frame LWS_WRITE_TEXT u) e2)"
    using write_text [OF assms(2,3) _ assms(6), of A "replicate (64 - length u) 0 @ Y" e2] A(2) pad by auto
  obtain mp where 2: "libwebsocket_write ops (B @ p @ replicate (64 - length p) 0 @ Z) 18 (length p) LWS_WRITE_TEXT
       (?v, sent (server_frame LWS_WRITE_TEXT u) e2) =
      Some (int (length p), mp, ?v, sent (server_frame LWS_WRITE_TEXT p) (sent (server_frame LWS_WRITE_TEXT u) e2))"
    using write_text [OF assms(2) v _ assms(7), of B "replicate (64 - length p) 0 @ Z" "sent (server_frame LWS_WRITE_TEXT u) e2"]
      B(2) pad by auto
  have "4 \<le> length inp" using arg_cong [OF assms(4), of length] by (simp add: ascii_def)
  then have "take 4 (inp @ [0]) = ascii ''INIT''" using assms(4) by simp
  then show ?thesis
    using A B up get_credential_ready [OF assms(5) A(2) B(2)] assms(8) 1 2
    by (simp add: callback_dumb_increment_def pad c_string_payload)
qed

text \<open>Looking at the reader and asking the user sends nothing.\<close>

definition quiet_desk :: "('e, 'x) login_scheme \<Rightarrow> ('e \<Rightarrow> 'b) \<Rightarrow> bool" where
  "quiet_desk api acc \<longleftrightarrow> (\<forall>e. acc (snd (globals api e)) = acc e) \<and> (\<forall>t c e. acc (snd (MessageBox api t c e)) = acc e)"

lemma quiet_notification: "quiet_desk api acc \<Longrightarrow> send_notification api e = (yes, e') \<Longrightarrow> acc e' = acc e"
  unfolding quiet_desk_def send_notification_def by (auto split: prod.splits) (metis snd_conv)+

lemma quiet_credential:
  assumes "quiet_desk api acc" "get_credential api u p n e = Some (ok, u', p', e')"
  shows "acc e' = acc e" and "ok \<Longrightarrow> \<exists>st1 e1 st2. globals api e = (st1, e1) \<and> is_data_present st1 \<and>
    globals api e1 = (st2, e') \<and> is_data_present st2"
proof -
  obtain st1 e1 where g1: "globals api e = (st1, e1)" by fastforce
  obtain st2 e2 where g2: "globals api e1 = (st2, e2)" by fastforce
  have "acc e1 = acc e" "acc e2 = acc e1" using assms(1) g1 g2 unfolding quiet_desk_def by (metis snd_conv)+
  then show "acc e' = acc e"
    using assms(2) g1 g2 by (auto simp: get_credential_def split: if_splits Option.bind_splits)
  show "ok \<Longrightarrow> \<exists>st1 e1 st2. globals api e = (st1, e1) \<and> is_data_present st1 \<and> globals api e1 = (st2, e') \<and> is_data_present st2"
    using assms(2) g1 g2
    by (cases "is_data_present st1"; cases "is_data_present st2")
      (auto simp: get_credential_def get_username_def get_password_def get_field_cases(1) split: if_splits Option.bind_splits)
qed

end
