(* ===== verification/Login_Properties.thy ===== *)
theory Login_Properties
  imports Login_Message Header_Properties Reader_Demo
begin

text \<open>
  The properties of the login service: which pages reach it, what they are answered, and when it gives the
  credentials of the card away; and a computer to apply them to.
\<close>

section \<open>A computer with one connection\<close>

text \<open>Its environment is what was sent.\<close>

definition log_ops :: "bytes ws_ops" where
  "log_ops = \<lparr>active_extensions = [], callback = (\<lambda>r b s. (0, s)), poll_callback = (\<lambda>r f s. s),
     send = (\<lambda>b e. (int (length b), e @ b)), choked = (\<lambda>e. (False, e)), rand = (\<lambda>e. (7, e)), malloc_ok = (\<lambda>n e. (True, e))\<rparr>"

definition log_net :: "bytes net" where
  "log_net = \<lparr>gettimeofday = (\<lambda>e. (0, e)), close_file = (\<lambda>fd e. e), has_ssl = (\<lambda>fd e. False), close_ssl = (\<lambda>fd e. e),
     close_socket = (\<lambda>fd e. e), malloc_bytes = (\<lambda>n e. (Some (replicate n 0), e)), setsockopt = (\<lambda>fd n e. (True, e)),
     ext_name_array = (\<lambda>e. replicate 128 0)\<rparr>"

definition card_user :: bytes where "card_user = ascii ''anna''"
definition card_pass :: bytes where "card_pass = ascii ''secret''"

text \<open>A card has been read, and the user says yes.\<close>

definition willing :: "bytes login" where
  "willing = \<lparr>MessageBox = (\<lambda>t c e. (IDYES, e)),
     globals = (\<lambda>e. (demo_reader\<lparr>is_data_present := True, username := card_user @ replicate 60 0,
        password := card_pass @ replicate 58 0\<rparr>, e)),
     locals = (\<lambda>e nm. replicate (if nm = ''buf'' then 256 else 86) 0), fprintf_stderr = (\<lambda>b e. e)\<rparr>"

definition willing_callback :: "bytes callback" where
  "willing_callback h r b s = (case callback_dumb_increment willing log_ops h r b s of Some x \<Rightarrow> x | None \<Rightarrow> (-1, s))"

definition demo_login :: "bytes server" where
  "demo_login = \<lparr>protocols = login_protocols (\<lambda>h r b s. (0, s)) willing_callback (\<lambda>h r b s. (0, s)), extensions = [],
     base_ops = log_ops\<rparr>"

definition demo_client :: server_conn where
  "demo_client = \<lparr>ws = new_wsi \<lparr>protocol_index = 0, per_session_data_size = 4, rx_buffer_size = 0,
     no_buffer_all_partial_tx = False, has_callback = True\<rparr> 5, hdr = new_hdr zero_table, ah_ptr = LIVE\<rparr>"

definition demo_context :: "server_conn \<Rightarrow> bytes lws_context" where
  "demo_context c = \<lparr>max_fds = 8, fds = 5 # replicate 7 0, fds_count = 1, lws_lookup = (replicate 8 None)[5 := Some 1],
     conns = [1 \<mapsto> c], conn_extensions = (\<lambda>a. []), service_buffer = replicate 4096 0, last_timeout_check_s = 0,
     listen_service_fd = 0, listen_service_count = 0, listen_service_modulo = 10, listen_service_extraseen = 0, use_ssl = False\<rparr>"

lemma demo_silent: "silent demo_login log_net (\<lambda>e. e)"
  by (simp add: silent_def demo_login_def log_ops_def log_net_def)

lemma demo_net: "net_ok demo_login log_net (\<lambda>e. e)"
proof -
  have "takes_all (base_ops demo_login) (\<lambda>b e. e @ b)" by (simp add: takes_all_def demo_login_def log_ops_def)
  then show ?thesis
    using demo_silent unfolding net_ok_def by (auto simp: demo_login_def log_ops_def log_net_def)
qed

lemma demo_arrays: "arrays_ok willing"
  by (simp add: arrays_ok_def willing_def LWS_SEND_BUFFER_PRE_PADDING_def LWS_SEND_BUFFER_POST_PADDING_def)

lemma demo_runs: "login_server demo_login willing_callback" "runs willing_callback (callback_dumb_increment willing log_ops)"
  by (auto simp: login_server_def demo_login_def runs_def willing_callback_def)

lemma login_quiet: "quiet_server demo_login"
proof -
  have "willing_callback h r b (w, e) = (0, w, e)" if "r \<in> closing_reasons" for h r b w e
    using that payload_array_ok [OF demo_arrays, of "''username''" e] payload_array_ok [OF demo_arrays, of "''password''" e]
    by (auto simp: willing_callback_def callback_dumb_increment_def closing_reasons_def)
  then show ?thesis
    by (auto simp: quiet_server_def mirror_quiet_def demo_login_def login_protocols_def log_ops_def nth_opt_def nth_Cons
        split: nat.splits if_splits)
qed

lemma demo_table:
  assumes "sock (ws c) = 5" "position_in_fds_table (ws c) = 0"
  shows "table_inv (demo_context c)" "1 \<in> polled (demo_context c)"
proof -
  have "entry (demo_context c) 0 1" using assms by (simp add: entry_def demo_context_def)
  then show "table_inv (demo_context c)" "1 \<in> polled (demo_context c)"
    by (auto simp: table_inv_def polled_def demo_context_def)
qed

lemma demo_new: "new_connection (demo_context demo_client) 1 demo_client"
  using demo_table [of demo_client] table_exact_alloc [OF zero_table_alloc]
  by (simp add: new_connection_def awaiting_request_def demo_client_def new_wsi_def new_hdr_def demo_context_def)

text \<open>A request of the page, with what it says of its origin and what it asks to upgrade to.\<close>

definition page_headers :: "bytes \<Rightarrow> bytes \<Rightarrow> (nat \<times> bytes) list" where
  "page_headers upgrade origin =
     [(WSI_TOKEN_HOST, ascii ''localhost''), (WSI_TOKEN_UPGRADE, upgrade), (WSI_TOKEN_CONNECTION, ascii ''Upgrade''),
      (WSI_TOKEN_PROTOCOL, ascii ''dumb-increment-protocol''), (WSI_TOKEN_ORIGIN, origin),
      (WSI_TOKEN_KEY, ascii ''dGhlIHNhbXBsZSBub25jZQ==''), (WSI_TOKEN_VERSION, ascii ''13'')]"

lemma page_request:
  assumes "plain_value WSI_TOKEN_UPGRADE upgrade" "plain_value WSI_TOKEN_ORIGIN origin" "upgrade \<noteq> []"
    and "length upgrade + length origin \<le> 900"
  shows "good_request (ascii ''/'') (page_headers upgrade origin)" "login_request (page_headers upgrade origin)"
    "handshake_headers (page_headers upgrade origin) (ascii ''dGhlIHNhbXBsZSBub25jZQ=='')"
    "map_of (page_headers upgrade origin) WSI_TOKEN_ORIGIN = Some origin"
    "map_of (page_headers upgrade origin) WSI_TOKEN_UPGRADE = Some upgrade"
  using assms
  by (simp_all add: good_request_def login_request_def upgrade_request_def handshake_headers_def page_headers_def plain_value_def
      request_header_def space_needed_def LWS_MAX_HEADER_LEN_def ascii_def)

section \<open>Who is let in\<close>

lemma rejects_foreign:
  assumes "headers_of uri hs h" "length b = 256" "0 \<notin> fst ` set hs"
    and "map_of hs WSI_TOKEN_ORIGIN \<noteq> Some AUTHORIZED_URL" "\<And>v. map_of hs WSI_TOKEN_ORIGIN = Some v \<Longrightarrow> length v < 256"
  shows "reject_request (ah h) b = Some True"
  using reject_short_origin [of "ah h" b] assms by (simp add: headers_of_def)

lemma request_no_uri: "good_request uri hs \<Longrightarrow> 0 \<notin> fst ` set hs"
  by (auto simp: good_request_def request_header_def)

text \<open>C4: a page whose origin is not the one of the service cannot open \<open>dumb-increment-protocol\<close>, the protocol that hands out
  credentials: a request to upgrade to it that names another origin of less than 256 bytes, or none, ends with the
  connection closed and removed from the table, and not a byte is sent. This is about that protocol only: a plain HTTP
  request and an upgrade to \<open>lws-mirror-protocol\<close> are answered whatever their origin, since only the callback of
  \<open>dumb-increment-protocol\<close> looks at it.\<close>

theorem foreign_origin_refused:
  assumes "quiet_server sv" "silent sv sy acc" "login_server sv dumb" "runs dumb (callback_dumb_increment api ops)"
    and "arrays_ok api" "new_connection ctx a c" "good_request uri hs" "login_request hs"
    and "map_of hs WSI_TOKEN_ORIGIN \<noteq> Some AUTHORIZED_URL" "\<And>v. map_of hs WSI_TOKEN_ORIGIN = Some v \<Longrightarrow> length v < 256"
  shows "\<exists>ctx' e'. libwebsocket_read sv sy a (http_request uri hs) (ctx, e) = Some (-1, ctx', e') \<and>
    given_up ctx a ctx' \<and> acc e' = acc e"
  using rejects_foreign [OF _ _ request_no_uri [OF assms(7)] assms(9,10)] by (intro request_refused [OF assms(1-8)])

theorem foreign_origin_refused_witness:
  "\<exists>ctx' e'. libwebsocket_read demo_login log_net 1 (http_request (ascii ''/'') (page_headers (ascii ''websocket'')
       (ascii ''https://evil.example''))) (demo_context demo_client, []) = Some (-1, ctx', e') \<and>
     given_up (demo_context demo_client) 1 ctx' \<and> e' = []"
proof -
  have v: "plain_value WSI_TOKEN_UPGRADE (ascii ''websocket'')" "plain_value WSI_TOKEN_ORIGIN (ascii ''https://evil.example'')"
    by (simp_all add: plain_value_def ascii_def)
  note r = page_request [OF v]
  show ?thesis
    by (rule foreign_origin_refused [OF login_quiet demo_silent demo_runs demo_arrays demo_new r(1,2)])
      (use r(4) in \<open>auto simp: ascii_def AUTHORIZED_URL_def\<close>)
qed

text \<open>C5: the page of the service is answered: its request, with the headers a browser sends, is completed by the response
  of RFC 6455 with the accept key of its own key and the name of the protocol, and the connection is open.\<close>

theorem authorised_page_answered:
  assumes "net_ok sv sy acc" "login_server sv dumb" "runs dumb (callback_dumb_increment api ops)" "arrays_ok api"
    and "new_connection ctx a c" "good_request uri hs" "login_request hs" "handshake_headers hs k"
    and "map_of hs WSI_TOKEN_ORIGIN = Some AUTHORIZED_URL" "length (service_buffer ctx) = 4096"
  shows "\<exists>key ctx' e' c'. b64_decode key = Some (SHA1 (k @ ws_guid)) \<and>
    libwebsocket_read sv sy a (http_request uri hs) (ctx, e) = Some (0, ctx', e') \<and>
    acc e' = acc e @ response key (Some (ascii ''dumb-increment-protocol'')) \<and>
    conns ctx' a = Some c' \<and> login_open (ws c') \<and> conn_extensions ctx' a = [] \<and> table_inv ctx' \<and> polled ctx' = polled ctx"
proof -
  have "reject_request (ah h) b = Some False" if "headers_of uri hs h" "length b = 256" for h b
    using reject_short_origin [of "ah h" b] that assms(9) by (simp add: headers_of_def AUTHORIZED_URL_def ascii_def)
  from request_answered [OF assms(1-8) this assms(10), of e] show ?thesis using opened_D by blast
qed

theorem authorised_page_answered_witness:
  "\<exists>key ctx' e' c'. b64_decode key = Some (SHA1 (ascii ''dGhlIHNhbXBsZSBub25jZQ=='' @ ws_guid)) \<and>
    libwebsocket_read demo_login log_net 1 (http_request (ascii ''/'') (page_headers (ascii ''websocket'') AUTHORIZED_URL))
      (demo_context demo_client, []) = Some (0, ctx', e') \<and>
    e' = [] @ response key (Some (ascii ''dumb-increment-protocol'')) \<and>
    conns ctx' 1 = Some c' \<and> login_open (ws c') \<and> conn_extensions ctx' 1 = [] \<and> table_inv ctx' \<and>
    polled ctx' = polled (demo_context demo_client)"
proof -
  have v: "plain_value WSI_TOKEN_UPGRADE (ascii ''websocket'')" "plain_value WSI_TOKEN_ORIGIN AUTHORIZED_URL"
    "ascii ''websocket'' \<noteq> []" "length (ascii ''websocket'') + length AUTHORIZED_URL \<le> 900"
    by (simp_all add: plain_value_def ascii_def AUTHORIZED_URL_def)
  note r = page_request [OF v]
  show ?thesis
    by (rule authorised_page_answered [OF demo_net demo_runs demo_arrays demo_new r(1-4)]) (simp add: demo_context_def)
qed

text \<open>C37: an origin of 256 bytes or more does not fit into the buffer of the check, which then compares the header it copied
  before: a request with any such origin is answered when its upgrade header is the address of the
  service.\<close>

theorem long_origin_admitted:
  assumes "net_ok sv sy acc" "login_server sv dumb" "runs dumb (callback_dumb_increment api ops)" "arrays_ok api"
    and "new_connection ctx a c" "good_request uri hs" "login_request hs" "handshake_headers hs k"
    and "map_of hs WSI_TOKEN_ORIGIN = Some v" "256 \<le> length v" "map_of hs WSI_TOKEN_UPGRADE = Some AUTHORIZED_URL"
    and "length (service_buffer ctx) = 4096"
  shows "\<exists>key ctx' e' c'. libwebsocket_read sv sy a (http_request uri hs) (ctx, e) = Some (0, ctx', e') \<and>
    acc e' = acc e @ response key (Some (ascii ''dumb-increment-protocol'')) \<and> conns ctx' a = Some c' \<and> login_open (ws c')"
proof -
  have "reject_request (ah h) b = Some False" if "headers_of uri hs h" "length b = 256" for h b
    using reject_long_origin [of "ah h" b v AUTHORIZED_URL] that assms(9-11)
    by (simp add: headers_of_def AUTHORIZED_URL_def ascii_def)
  from request_answered [OF assms(1-8) this assms(12), of e] show ?thesis using opened_D by blast
qed

theorem long_origin_admitted_witness:
  "\<exists>key ctx' e' c'. libwebsocket_read demo_login log_net 1 (http_request (ascii ''/'')
       (page_headers AUTHORIZED_URL (replicate 256 0x78))) (demo_context demo_client, []) = Some (0, ctx', e') \<and>
    e' = [] @ response key (Some (ascii ''dumb-increment-protocol'')) \<and> conns ctx' 1 = Some c' \<and> login_open (ws c')"
proof -
  have v: "plain_value WSI_TOKEN_UPGRADE AUTHORIZED_URL" "plain_value WSI_TOKEN_ORIGIN (replicate 256 0x78)"
    "AUTHORIZED_URL \<noteq> []" "length AUTHORIZED_URL + length (replicate 256 (0x78 :: u8)) \<le> 900"
    by (simp_all add: plain_value_def ascii_def AUTHORIZED_URL_def)
  note r = page_request [OF v]
  show ?thesis
    by (rule long_origin_admitted [OF demo_net demo_runs demo_arrays demo_new r(1-4) _ r(5)]) (simp_all add: demo_context_def)
qed

section \<open>What is given away\<close>

lemma message_releases:
  assumes "net_ok sv sy acc" "login_server sv dumb" "runs dumb (callback_dumb_increment api (base_ops sv))" "arrays_ok api"
    and "quiet_desk api acc" "conns ctx a = Some c" "login_open (ws c)" "conn_extensions ctx a = []"
    and "length key = 4" "take 4 msg = ascii ''INIT''" "length msg \<le> 10"
    and "credentials_at api e u p e1" "u \<noteq> []" "p \<noteq> []" "send_notification api e1 = (True, e2)"
  shows "\<exists>w' e'. libwebsocket_read sv sy a (client_frame 0x81 key msg) (ctx, e) = Some (0, set_ws a w' ctx, e') \<and>
    login_open w' \<and> acc e' = acc e @ server_frame LWS_WRITE_TEXT u @ server_frame LWS_WRITE_TEXT p"
proof -
  let ?w = "ws c" and ?ops = "conn_ops sv [] (ws c)"
  have w: "protocol ?w = login_fields" "mode ?w = LWS_CONNMODE_WS_SERVING" "state ?w = WSI_STATE_ESTABLISHED"
    "\<not> inside_frame ?w" "truncated_send_malloc ?w = None" "rx_idle ?w"
    using assms(7) by (simp_all add: login_open_def)
  have len: "4 \<le> length msg" "msg \<noteq> []" using arg_cong [OF assms(10), of length] by (auto simp: ascii_def)
  have lim: "rx_limit ?w = 10" using w(1) by (simp add: rx_limit_def)
  have ops: "active_extensions ?ops = []" by (simp add: conn_ops_def)
  obtain v where v: "same_session ?w v" "rx_idle (v\<lparr>rx_user_buffer_head := 0\<rparr>)"
    "libwebsocket_interpret_incoming_packet ?ops (client_frame 0x81 key msg) (?w, e) =
      (let (r, v, x) = user_callback_handle_rxflow ?ops LWS_CALLBACK_RECEIVE msg (v, e)
       in Some (if r < 0 then -1 else 0, v\<lparr>rx_user_buffer_head := 0\<rparr>, x))"
    using read_message [OF ops w(6), of "0x81" key msg e] assms(9,11) len lim by auto
  obtain sent where sent: "takes_all (base_ops sv) sent" "\<And>bs e. acc (sent bs e) = acc e @ bs"
    using assms(1) unfolding net_ok_def by blast
  have ready: "ready_to_write v" using v(1) w by (simp add: ready_to_write_def same_session_def rx_idle_def)
  let ?v = "v\<lparr>clean_buffer := \<not> no_buffer_all_partial_tx (protocol v), inside_frame := False\<rparr>"
  let ?e = "sent (server_frame LWS_WRITE_TEXT p) (sent (server_frame LWS_WRITE_TEXT u) e2)"
  obtain q where q: "nth_opt (protocols sv) 1 = Some q" "protocol_callback q = Some dumb"
    using assms(2) by (auto simp: login_server_def login_protocols_def nth_opt_def)
  have "callback ?ops LWS_CALLBACK_RECEIVE msg (v, e) = (0, ?v, ?e)"
    using callback_releases [OF assms(4) sent(1) ready assms(10,12-15), where h = None] assms(3) w(1) q
    by (simp add: runs_def conn_ops_def protocol_entry_of_def)
  moreover have flow: "rxflow_change_to v AND LWS_RXFLOW_PENDING_CHANGE = 0"
    using v(1) w(6) by (simp add: same_session_def rx_idle_def flow_open_def)
  ultimately have "libwebsocket_interpret_incoming_packet ?ops (client_frame 0x81 key msg) (?w, e) =
      Some (0, ?v\<lparr>rx_user_buffer_head := 0\<rparr>, ?e)"
    unfolding v(3) by (simp add: user_callback_handle_rxflow_def apply_rx_flow_control_def)
  then have "libwebsocket_read sv sy a (client_frame 0x81 key msg) (ctx, e) =
      Some (0, set_ws a (?v\<lparr>rx_user_buffer_head := 0\<rparr>) ctx, ?e)"
    using assms(6,8) w(3) by (simp add: libwebsocket_read_def)
  moreover have "login_open (?v\<lparr>rx_user_buffer_head := 0\<rparr>)"
    using v w by (simp add: login_open_def same_session_def rx_idle_def flow_open_def rx_holds_def rx_limit_def)
  moreover have "acc e2 = acc e"
    using quiet_notification [OF assms(5,15)] assms(5,12) unfolding quiet_desk_def credentials_at_def by (metis snd_conv)
  ultimately show ?thesis using sent(2) by (metis append.assoc)
qed

text \<open>C8: on an open connection, a message that begins with \<open>INIT\<close> is answered, when a card is present at both looks the
  service takes at the reader and the user says yes, by exactly two text frames, with the user name that the
  first look found and the password of the second; and the connection is ready for the next message.\<close>

theorem credentials_released:
  assumes "net_ok sv sy acc" "login_server sv dumb" "runs dumb (callback_dumb_increment api (base_ops sv))" "arrays_ok api"
    and "quiet_desk api acc" "conns ctx a = Some c" "login_open (ws c)" "conn_extensions ctx a = []"
    and "length key = 4" "take 4 msg = ascii ''INIT''" "length msg \<le> 10"
    and "credentials_at api e u p e1" "u \<noteq> []" "p \<noteq> []" "send_notification api e1 = (True, e2)"
  shows "\<exists>w' e'. libwebsocket_read sv sy a (client_frame 0x81 key msg) (ctx, e) = Some (0, set_ws a w' ctx, e') \<and>
    login_open w' \<and> acc e' = acc e @ server_frame LWS_WRITE_TEXT u @ server_frame LWS_WRITE_TEXT p"
  by (rule message_releases [OF assms])

text \<open>The connection of the page once it is open.\<close>

definition demo_page :: server_conn where
  "demo_page = demo_client\<lparr>ws := (new_wsi login_fields 5)\<lparr>mode := LWS_CONNMODE_WS_SERVING, state := WSI_STATE_ESTABLISHED,
     wsi_spec_revision := 13, rxflow_change_to := LWS_RXFLOW_ALLOW, rx_user_buffer := replicate 32 0\<rparr>\<rparr>"

theorem credentials_released_witness:
  "\<exists>w' e'. libwebsocket_read demo_login log_net 1 (client_frame 0x81 [1, 2, 3, 4] (ascii ''INIT'')) (demo_context demo_page, []) =
      Some (0, set_ws 1 w' (demo_context demo_page), e') \<and>
    login_open w' \<and> e' = [] @ server_frame LWS_WRITE_TEXT card_user @ server_frame LWS_WRITE_TEXT card_pass"
proof -
  have o: "login_open (ws demo_page)"
    by (simp add: login_open_def demo_page_def new_wsi_def rx_idle_def flow_open_def rx_holds_def rx_limit_def
        LWS_SEND_BUFFER_PRE_PADDING_def LWS_SEND_BUFFER_POST_PADDING_def)
  have r: "runs willing_callback (callback_dumb_increment willing (base_ops demo_login))"
    using demo_runs(2) by (simp add: demo_login_def)
  have c: "credentials_at willing [] card_user card_pass []"
    by (simp add: credentials_at_def willing_def card_user_def card_pass_def ascii_def c_str_def)
  show ?thesis
    by (rule credentials_released [OF demo_net demo_runs(1) r demo_arrays _ _ o _ _ _ _ c])
      (simp_all add: quiet_desk_def willing_def demo_context_def send_notification_def card_user_def card_pass_def ascii_def)
qed

text \<open>C3: in all other cases nothing is given away: whatever the connection, the socket and the extensions do, a call of the
  callback sends nothing and leaves the connection alone, unless it is for a message that begins with \<open>INIT\<close>, a card was
  present at both looks, and the user was asked and said yes.\<close>

theorem credentials_withheld:
  assumes "quiet_desk api acc" "callback_dumb_increment api ops h r inp (w, e) = Some (n, w', e')"
  shows "w' = w \<and> acc e' = acc e \<or>
    r = LWS_CALLBACK_RECEIVE \<and> take 4 (inp @ [0]) = ascii ''INIT'' \<and>
      (\<exists>st1 e1 st2 e2 e3. globals api e = (st1, e1) \<and> is_data_present st1 \<and> globals api e1 = (st2, e2) \<and>
         is_data_present st2 \<and> send_notification api e2 = (True, e3))"
proof (cases "r = LWS_CALLBACK_RECEIVE \<and> take 4 (inp @ [0]) = ascii ''INIT''")
  case False
  then show ?thesis
    using assms(2) by (cases r) (auto simp: callback_dumb_increment_def split: Option.bind_splits)
next
  case True
  then obtain u p where u: "payload_array api e ''username'' = Some u" "payload_array api e ''password'' = Some p"
    using assms(2) by (auto simp: callback_dumb_increment_def split: Option.bind_splits)
  then obtain ok u' p' e2 where g: "get_credential api u p LWS_SEND_BUFFER_PRE_PADDING e = Some (ok, u', p', e2)"
    using assms(2) True by (auto simp: callback_dumb_increment_def split: Option.bind_splits if_splits)
  obtain yes e3 where n: "send_notification api e2 = (yes, e3)" by fastforce
  have rest: "\<not> ok \<Longrightarrow> w' = w \<and> e' = e2" "ok \<Longrightarrow> \<not> yes \<Longrightarrow> w' = w \<and> e' = e3"
    using assms(2) True u g n by (simp_all add: callback_dumb_increment_def)
  have "acc e2 = acc e" "acc e3 = acc e2" using quiet_credential(1) [OF assms(1) g] quiet_notification [OF assms(1) n] by simp_all
  then show ?thesis
    using True rest n quiet_credential(2) [OF assms(1) g] by (cases ok; cases yes) auto
qed

theorem credentials_withheld_witness:
  "\<exists>e'. callback_dumb_increment (willing\<lparr>MessageBox := \<lambda>t c e. (7, e)\<rparr>) log_ops None LWS_CALLBACK_RECEIVE (ascii ''INIT'')
     (ws demo_page, []) = Some (0, ws demo_page, e') \<and>
     (ws demo_page = ws demo_page \<and> e' = [] \<or>
      LWS_CALLBACK_RECEIVE = LWS_CALLBACK_RECEIVE \<and> take 4 (ascii ''INIT'' @ [0]) = ascii ''INIT'' \<and>
        (\<exists>st1 e1 st2 e2 e3. globals (willing\<lparr>MessageBox := \<lambda>t c e. (7, e)\<rparr>) [] = (st1, e1) \<and> is_data_present st1 \<and>
           globals (willing\<lparr>MessageBox := \<lambda>t c e. (7, e)\<rparr>) e1 = (st2, e2) \<and> is_data_present st2 \<and>
           send_notification (willing\<lparr>MessageBox := \<lambda>t c e. (7, e)\<rparr>) e2 = (True, e3)))"
proof -
  let ?api = "willing\<lparr>MessageBox := \<lambda>t c e. (7, e)\<rparr>"
  have q: "quiet_desk ?api (\<lambda>e. e)" by (simp add: quiet_desk_def willing_def)
  have ar: "arrays_ok ?api" using demo_arrays by (simp add: arrays_ok_def)
  obtain A Y B Z where p: "payload_array ?api [] ''username'' = Some (A @ replicate 64 0 @ Y)" "length A = 18"
    "payload_array ?api [] ''password'' = Some (B @ replicate 64 0 @ Z)" "length B = 18"
    using payload_array_ok [OF ar, of "''username''" "[]"] payload_array_ok [OF ar, of "''password''" "[]"] by auto
  have c: "credentials_at ?api [] card_user card_pass []"
    by (simp add: credentials_at_def willing_def card_user_def card_pass_def ascii_def c_str_def)
  have "callback_dumb_increment ?api log_ops None LWS_CALLBACK_RECEIVE (ascii ''INIT'') (ws demo_page, []) =
      Some (0, ws demo_page, [])"
    using p get_credential_ready [OF c p(2,4), of Y Z]
    by (simp add: callback_dumb_increment_def LWS_SEND_BUFFER_PRE_PADDING_def send_notification_def ascii_def)
  with credentials_withheld [OF q this] show ?thesis by blast
qed

end
