(* ===== verification/Context_End.thy ===== *)
theory Context_End
  imports Handshake_Close "HOL-Library.Multiset"
begin

text \<open>
  The end of a context, \<open>libwebsocket_context_destroy\<close> of \<open>lib/libwebsockets.c\<close>: every connection is closed, the
  extensions and the protocols are told, and the context is freed.
\<close>

section \<open>The code\<close>

text \<open>
  The loop closes the connection of the first entry until the table is empty: its counter goes down and up again. A null
  pointer in the table is passed on, and \<open>libwebsocket_close_and_free_session\<close> returns at once.
\<close>

partial_function (option) close_all :: "'e server \<Rightarrow> 'e sys \<Rightarrow> 'e lws \<Rightarrow> 'e lws option" where
  "close_all sv sy s =
     (if 0 < fds_count (fst s) then
        Option.bind (get_at (fds (fst s)) 0) (\<lambda>fd.
          Option.bind (get_at (lws_lookup (fst s)) fd) (\<lambda>found.
            Option.bind (case found of None \<Rightarrow> Some s
                | Some a \<Rightarrow> libwebsocket_close_and_free_session sv sy a LWS_CLOSE_STATUS_NOSTATUS s)
              (close_all sv sy)))
      else Some s)"

text \<open>
  What is called without a connection: an extension, which is told whether there was a port to listen on, a protocol,
  and what the freeing of the TLS contexts, of the tables and of the context itself does to the environment. Both are given by their position.
\<close>

record 'e ending =
  listens :: bool
  extension_ended :: "bool \<Rightarrow> nat \<Rightarrow> 'e \<Rightarrow> 'e"
  protocol_ended :: "nat \<Rightarrow> 'e \<Rightarrow> 'e"
  free_context :: "'e \<Rightarrow> 'e"

text \<open>The array of the protocols ends with an entry without a callback; without one the loop runs past its end.\<close>

fun end_protocols :: "'e ending \<Rightarrow> nat \<Rightarrow> 'e protocol_entry list \<Rightarrow> 'e \<Rightarrow> 'e option" where
  "end_protocols en i [] e = None"
| "end_protocols en i (p # ps) e =
     (case protocol_callback p of None \<Rightarrow> Some e | Some f \<Rightarrow> end_protocols en (Suc i) ps (protocol_ended en i e))"

definition libwebsocket_context_destroy :: "'e server \<Rightarrow> 'e sys \<Rightarrow> 'e ending \<Rightarrow> 'e lws \<Rightarrow> 'e option" where
  "libwebsocket_context_destroy sv sy en s =
     do {
       (ctx, e) \<leftarrow> close_all sv sy s;
       let e = fold (extension_ended en (listens en)) [0..<length (extensions sv)] e
       in do { e \<leftarrow> end_protocols en 0 (protocols sv) e; Some (free_context en e) } }"

section \<open>One connection is closed\<close>

text \<open>The sockets that have been closed are seen through \<open>cl\<close>, which nothing else changes.\<close>

definition notes_closes :: "'e server \<Rightarrow> 'e sys \<Rightarrow> ('e \<Rightarrow> int list) \<Rightarrow> bool" where
  "notes_closes sv sy cl \<longleftrightarrow> (\<forall>r f w e. cl (snd (poll_callback (base_ops sv) r f (w, e))) = cl e) \<and>
     (\<forall>i p f h r b w e. nth_opt (protocols sv) i = Some p \<and> protocol_callback p = Some f \<and> r \<in> closing_reasons \<longrightarrow>
        cl (snd (snd (f h r b (w, e)))) = cl e) \<and>
     (\<forall>fd e. cl (close_file sy fd e) = cl e) \<and>
     (\<forall>fd e. cl (close_ssl sy fd e) = fd # cl e) \<and> (\<forall>fd e. cl (close_socket sy fd e) = fd # cl e)"

lemma protocol_notes:
  assumes "notes_closes sv sy cl" "call_protocol sv i h r b (w, e) = Some (n, w', e')" "r \<in> closing_reasons"
  shows "cl e' = cl e"
proof -
  obtain p f where "nth_opt (protocols sv) i = Some p" "protocol_callback p = Some f" "f h r b (w, e) = (n, w', e')"
    using assms(2) by (auto simp: call_protocol_def split: Option.bind_splits)
  then show ?thesis using assms(1,3) unfolding notes_closes_def by (metis snd_conv)
qed

lemma call_closed_total:
  assumes "has_http sv" "quiet_server sv" "notes_closes sv sy cl"
  shows "\<exists>w' e'. call_closed sv os (w, e) = Some (w', e') \<and> same_place w w' \<and> cl e' = cl e"
proof -
  obtain n v y where h: "call_protocol sv 0 None LWS_CALLBACK_CLOSED_HTTP [] (w, e) = Some (n, v, y)"
    using assms(1) unfolding has_http_def call_protocol_def by (metis bind.bind_lunit prod.exhaust)
  have h': "same_place w v" "cl y = cl e"
    using quiet_callback(1) [OF assms(2) h] protocol_notes [OF assms(3) h] by (simp_all add: closing_reasons_def)
  show ?thesis
  proof (cases "Option.bind (protocol_entry_of sv w) protocol_callback")
    case None
    then show ?thesis using h h' by (simp add: call_closed_def)
  next
    case (Some f)
    then obtain i where i: "call_protocol sv i None LWS_CALLBACK_CLOSED [] (w, e) = Some (f None LWS_CALLBACK_CLOSED [] (w, e))"
      by (intro that [of "nat (protocol_index (protocol w))"])
        (auto simp: protocol_entry_of_def call_protocol_def Let_def split: if_splits Option.bind_splits)
    obtain m u x where f: "f None LWS_CALLBACK_CLOSED [] (w, e) = (m, u, x)" by (metis prod.exhaust)
    have "same_place w u" "cl x = cl e"
      using quiet_callback(1) [OF assms(2) i [unfolded f]] protocol_notes [OF assms(3) i [unfolded f]] by (simp_all add: closing_reasons_def)
    then show ?thesis using Some f h h' by (auto simp: call_closed_def)
  qed
qed

text \<open>The connection at \<open>a\<close> is gone, and the others are as they were, but for their places.\<close>

definition taken_away :: "nat \<Rightarrow> 'e lws_context \<Rightarrow> 'e lws_context \<Rightarrow> bool" where
  "taken_away a ctx ctx' \<longleftrightarrow> table_inv ctx' \<and> polled ctx' = polled ctx - {a} \<and> conns ctx' a = None \<and>
     conn_extensions ctx' = conn_extensions ctx \<and> (\<forall>x. x \<noteq> a \<longrightarrow> placeless ctx' x = placeless ctx x)"

lemma kill_takes_away:
  assumes "quiet_server sv" "has_http sv" "notes_closes sv sy cl"
    and "table_inv ctx" "a \<in> polled ctx" "conn_extensions ctx a = []" "conns ctx a = Some c" "sock (ws c) \<noteq> 0"
  shows "\<exists>ctx' e'. just_kill_connection sv sy a os (ctx, e) = Some (ctx', e') \<and> taken_away a ctx ctx' \<and> cl e' = sock (ws c) # cl e"
proof -
  have q: "mirror_quiet sv" "extensions sv = []" using assms(1) by (simp_all add: quiet_server_def)
  obtain ctx1 e1 where r: "remove_wsi_socket_from_fds sv a (ctx, e) = Some (0, ctx1, e1)"
    "conn_extensions ctx1 = conn_extensions ctx" "placeless ctx1 = placeless ctx"
    using remove_keeps [OF q(1) assms(4,5)] by blast
  obtain c1 where c1: "conns ctx1 a = Some c1" "sock (ws c1) = sock (ws c)" "cl e1 = cl e"
    using remove_frame [OF q(1) _ assms(7) r(1), of cl] assms(3) by (auto simp: notes_closes_def)
  let ?w = "(ws c1)\<lparr>state := WSI_STATE_DEAD_SOCKET\<rparr>"
  let ?v = "if os = WSI_STATE_ESTABLISHED \<or> mode ?w \<in> {LWS_CONNMODE_WS_SERVING, LWS_CONNMODE_WS_CLIENT}
    then ?w\<lparr>rx_user_buffer := [], rxflow_buffer := None, truncated_send_malloc := None\<rparr> else ?w"
  obtain w e2 where k: "call_closed sv os (?v, e1) = Some (w, e2)" "same_place ?v w" "cl e2 = cl e1"
    using call_closed_total [OF assms(2,1,3)] by metis
  have s: "sock w = sock (ws c)" using k(2) c1(2) by (simp add: same_place_def split: if_splits)
  let ?e = "if has_ssl sy (sock w) e2 then close_ssl sy (sock w) e2 else if sock w \<noteq> 0 then close_socket sy (sock w) e2 else e2"
  have j: "just_kill_connection sv sy a os (ctx, e) = Some (ctx1\<lparr>conns := (conns ctx1)(a := None)\<rparr>, ?e)"
    using r(1,2) c1(1) q(2) k(1) assms(6) by (simp add: just_kill_connection_def Let_def)
  have "placeless (ctx1\<lparr>conns := (conns ctx1)(a := None)\<rparr>) x = placeless ctx x" if "x \<noteq> a" for x
    using that fun_cong [OF r(3), of x] by (simp add: placeless_def)
  moreover have "cl ?e = sock (ws c) # cl e" using s assms(3,8) k(3) c1(3) by (simp add: notes_closes_def)
  ultimately show ?thesis
    using j kill_keeps [OF assms(1,4,5) j] r(2) by (simp add: taken_away_def)
qed

text \<open>A connection of the server that is not dead already.\<close>

definition closable :: "'e lws_context \<Rightarrow> nat \<Rightarrow> bool" where
  "closable ctx x \<longleftrightarrow> conn_extensions ctx x = [] \<and>
     (\<forall>c. conns ctx x = Some c \<longrightarrow> sock (ws c) \<noteq> 0 \<and> state (ws c) \<noteq> WSI_STATE_DEAD_SOCKET \<and>
        mode (ws c) \<notin> {LWS_CONNMODE_WS_CLIENT_WAITING_CONNECT, LWS_CONNMODE_WS_CLIENT_ISSUE_HANDSHAKE})"

lemma closable_placeless:
  assumes "placeless ctx' x = placeless ctx x" "conn_extensions ctx' = conn_extensions ctx" "closable ctx x"
  shows "closable ctx' x"
proof -
  have "\<exists>d. conns ctx x = Some d \<and> sock (ws d) = sock (ws c) \<and> state (ws d) = state (ws c) \<and> mode (ws d) = mode (ws c)" if c: "conns ctx' x = Some c" for c
  proof -
    obtain d where d: "conns ctx x = Some d"
      "d\<lparr>ws := (ws d)\<lparr>position_in_fds_table := 0\<rparr>\<rparr> = c\<lparr>ws := (ws c)\<lparr>position_in_fds_table := 0\<rparr>\<rparr>"
      using assms(1) c by (cases "conns ctx x") (simp_all add: placeless_def)
    have v: "(ws d)\<lparr>position_in_fds_table := 0\<rparr> = (ws c)\<lparr>position_in_fds_table := 0\<rparr>"
      using arg_cong [OF d(2), of ws] by simp
    have "sock (ws d) = sock (ws c)" "state (ws d) = state (ws c)" "mode (ws d) = mode (ws c)"
      using arg_cong [OF v, of sock] arg_cong [OF v, of state] arg_cong [OF v, of mode] by simp_all
    then show ?thesis using d(1) by blast
  qed
  then show ?thesis using assms(2,3) unfolding closable_def by metis
qed

lemma close_takes_away:
  assumes "quiet_server sv" "has_http sv" "notes_closes sv sy cl"
    and "table_inv ctx" "a \<in> polled ctx" "closable ctx a" "conns ctx a = Some c"
  shows "\<exists>ctx' e'. libwebsocket_close_and_free_session sv sy a LWS_CLOSE_STATUS_NOSTATUS (ctx, e) = Some (ctx', e') \<and>
    taken_away a ctx ctx' \<and> cl e' = sock (ws c) # cl e"
proof -
  note c = assms(7)
  have k: "conn_extensions ctx a = []" "state (ws c) \<noteq> WSI_STATE_DEAD_SOCKET" "sock (ws c) \<noteq> 0"
    "mode (ws c) \<notin> {LWS_CONNMODE_WS_CLIENT_WAITING_CONNECT, LWS_CONNMODE_WS_CLIENT_ISSUE_HANDSHAKE}"
    using assms(6) c by (simp_all add: closable_def)
  let ?w = "(ws c)\<lparr>close_reason := LWS_CLOSE_STATUS_NOSTATUS\<rparr>"
  have killed: "\<exists>ctx' e'. just_kill_connection sv sy a (state (ws c)) (set_ws a w ctx, x) = Some (ctx', e') \<and> taken_away a ctx ctx' \<and>
      cl e' = sock (ws c) # cl x" if "same_place (ws c) w" for w x
  proof -
    note u = set_ws_keeps [OF assms(4,5) c that]
    have "conns (set_ws a w ctx) a = Some (c\<lparr>ws := w\<rparr>)" "sock (ws (c\<lparr>ws := w\<rparr>)) = sock (ws c)"
      using c that by (simp_all add: same_place_def)
    then obtain ctx' e' where 1: "just_kill_connection sv sy a (state (ws c)) (set_ws a w ctx, x) = Some (ctx', e')"
      "taken_away a (set_ws a w ctx) ctx'" "cl e' = sock (ws c) # cl x"
      using kill_takes_away [OF assms(1-3) u(1), of a "c\<lparr>ws := w\<rparr>" "state (ws c)" x] u(2) assms(5) k(1,3) by auto
    then have "taken_away a ctx ctx'" using u(2) by (simp add: taken_away_def placeless_def)
    then show ?thesis using 1 by blast
  qed
  show ?thesis
  proof (cases "state (ws c) = WSI_STATE_AWAITING_CLOSE_ACK")
    case True
    then show ?thesis
      using killed [of "ws c" e] c set_ws_same [OF c refl] by (simp add: libwebsocket_close_and_free_session_def)
  next
    case False
    obtain w x where h: "(if mode ?w = LWS_CONNMODE_HTTP_SERVING_ACCEPTED \<and> http_fd ?w \<noteq> 0
        then map_option snd (call_protocol sv 0 None LWS_CALLBACK_CLOSED_HTTP [] (?w\<lparr>http_fd := 0\<rparr>, close_file sy (http_fd ?w) e))
        else Some (?w, e)) = Some (w, x)" "same_place (ws c) w" "cl x = cl e"
    proof (cases "mode ?w = LWS_CONNMODE_HTTP_SERVING_ACCEPTED \<and> http_fd ?w \<noteq> 0")
      case True
      obtain n v y where v: "call_protocol sv 0 None LWS_CALLBACK_CLOSED_HTTP [] (?w\<lparr>http_fd := 0\<rparr>, close_file sy (http_fd ?w) e) = Some (n, v, y)"
        using assms(2) unfolding has_http_def call_protocol_def by (metis bind.bind_lunit prod.exhaust)
      have "same_place (ws c) v" "cl y = cl e"
        using quiet_callback(1) [OF assms(1) v] protocol_notes [OF assms(3) v] assms(3)
        by (simp_all add: closing_reasons_def same_place_def notes_closes_def)
      then show ?thesis using that True v by simp
    next
      case False
      show ?thesis by (rule that [of ?w e]) (use False in auto)
    qed
    have flush: "flush_extensions (conn_ops sv [] w) (w, x) = Some (True, w, x)" by (rule flush_nothing) (simp add: conn_ops_def)
    have "libwebsocket_close_and_free_session sv sy a LWS_CLOSE_STATUS_NOSTATUS (ctx, e) =
        just_kill_connection sv sy a (state (ws c)) (set_ws a w ctx, x)"
      using False k(2,4) h(1) flush unfolding libwebsocket_close_and_free_session_def prod.case Let_def c k(1) Option.bind.bind_lunit
      by (simp cong: if_cong)
    then show ?thesis using killed [OF h(2), of x] h(3) by simp
  qed
qed

section \<open>All of them\<close>

definition socket_of :: "'e lws_context \<Rightarrow> nat \<Rightarrow> int" where
  "socket_of ctx x = (case conns ctx x of Some c \<Rightarrow> sock (ws c) | None \<Rightarrow> 0)"

lemma socket_placeless: "placeless ctx' x = placeless ctx x \<Longrightarrow> socket_of ctx' x = socket_of ctx x"
proof (cases "conns ctx x"; cases "conns ctx' x")
  fix c d assume p: "placeless ctx' x = placeless ctx x" "conns ctx x = Some c" "conns ctx' x = Some d"
  then have "ws (d\<lparr>ws := (ws d)\<lparr>position_in_fds_table := 0\<rparr>\<rparr>) = ws (c\<lparr>ws := (ws c)\<lparr>position_in_fds_table := 0\<rparr>\<rparr>)"
    by (simp add: placeless_def)
  from arg_cong [OF this, of sock] show ?thesis using p(2,3) by (simp add: socket_of_def)
qed (auto simp: placeless_def socket_of_def)

lemma finite_polled: "finite (polled ctx)"
proof (rule finite_subset)
  show "polled ctx \<subseteq> the ` (\<lambda>i. lws_lookup ctx ! nat (fds ctx ! i)) ` {..<nat (fds_count ctx)}"
    unfolding polled_def entry_def by force
qed simp

text \<open>The loop ends with an empty table; every connection that was in it is gone, and each of their sockets was closed once.\<close>

lemma close_all_ends:
  assumes "quiet_server sv" "has_http sv" "notes_closes sv sy cl" "table_inv ctx" "\<forall>x\<in>polled ctx. closable ctx x"
  shows "\<exists>ctx' e'. close_all sv sy (ctx, e) = Some (ctx', e') \<and> fds_count ctx' = 0 \<and>
    (\<forall>x. placeless ctx' x = (if x \<in> polled ctx then None else placeless ctx x)) \<and>
    mset (cl e') = mset (cl e) + image_mset (socket_of ctx) (mset_set (polled ctx))"
  using assms(4,5)
proof (induction "card (polled ctx)" arbitrary: ctx e rule: less_induct)
  case less
  show ?case
  proof (cases "0 < fds_count ctx")
    case False
    then have "fds_count ctx = 0" using less.prems(1) by (simp add: table_inv_def)
    moreover from this have "polled ctx = {}" by (simp add: polled_def entry_def)
    ultimately show ?thesis by (simp add: close_all.simps [of sv sy "(ctx, e)"])
  next
    case True
    obtain fd a c where a: "get_at (fds ctx) 0 = Some fd" "get_at (lws_lookup ctx) fd = Some (Some a)" "conns ctx a = Some c" "a \<in> polled ctx"
      using table_lookup [OF less.prems(1) _ True] by auto
    have "closable ctx a" using less.prems(2) a(4) by blast
    from close_takes_away [OF assms(1-3) less.prems(1) a(4) this a(3)] obtain ctx1 e1
      where 1: "libwebsocket_close_and_free_session sv sy a LWS_CLOSE_STATUS_NOSTATUS (ctx, e) = Some (ctx1, e1)"
        "taken_away a ctx ctx1" "cl e1 = sock (ws c) # cl e" by blast
    have t: "table_inv ctx1" "polled ctx1 = polled ctx - {a}" "conns ctx1 a = None" "conn_extensions ctx1 = conn_extensions ctx"
      "x \<noteq> a \<Longrightarrow> placeless ctx1 x = placeless ctx x" for x
      using 1(2) by (simp_all add: taken_away_def)
    have "\<forall>x\<in>polled ctx1. closable ctx1 x" using closable_placeless [OF t(5,4)] t(2) less.prems(2) by blast
    moreover have "card (polled ctx1) < card (polled ctx)" unfolding t(2) by (rule card_Diff1_less [OF finite_polled a(4)])
    ultimately obtain ctx2 e2 where 2: "close_all sv sy (ctx1, e1) = Some (ctx2, e2)" "fds_count ctx2 = 0"
      "placeless ctx2 x = (if x \<in> polled ctx1 then None else placeless ctx1 x)"
      "mset (cl e2) = mset (cl e1) + image_mset (socket_of ctx1) (mset_set (polled ctx1))" for x
      using less.hyps [OF _ t(1)] by metis
    have "placeless ctx2 x = (if x \<in> polled ctx then None else placeless ctx x)" for x
      using 2(3) [of x] t(2,3) t(5) [of x] a(4) by (cases "x = a") (auto simp: placeless_def)
    moreover have "mset (cl e2) = mset (cl e) + image_mset (socket_of ctx) (mset_set (polled ctx))"
    proof -
      have "image_mset (socket_of ctx1) (mset_set (polled ctx1)) = image_mset (socket_of ctx) (mset_set (polled ctx1))"
        using finite_polled [of ctx1] t(2,5) by (intro image_mset_cong socket_placeless) auto
      moreover have "mset_set (polled ctx) = add_mset a (mset_set (polled ctx1))"
        unfolding t(2) using mset_set.remove [OF finite_polled a(4)] .
      ultimately show ?thesis using 2(4) 1(3) a(3) by (simp add: socket_of_def)
    qed
    moreover have "close_all sv sy (ctx, e) = Some (ctx2, e2)"
      using True a(1,2) 1(1) 2(1) by (simp add: close_all.simps [of sv sy "(ctx, e)"])
    ultimately show ?thesis using 2(2) by blast
  qed
qed

lemma end_protocols_ends:
  assumes "\<exists>p\<in>set ps. protocol_callback p = None" "\<forall>i e. cl (protocol_ended en i e) = cl e"
  shows "\<exists>e'. end_protocols en i ps e = Some e' \<and> cl e' = cl e"
  using assms by (induction en i ps e rule: end_protocols.induct) (auto split: option.split)

end
