(* ===== verification/Context_Properties.thy ===== *)
theory Context_Properties
  imports Login_Properties Context_End
begin

text \<open>
  The property of the table of sockets, over all runs of the server.
\<close>

section \<open>The table of sockets\<close>

lemma table_position:
  assumes "table_inv ctx" "0 \<le> n" "n < fds_count ctx"
  shows "\<exists>fd a c. get_at (fds ctx) n = Some fd \<and> get_at (lws_lookup ctx) fd = Some (Some a) \<and> conns ctx a = Some c \<and>
    sock (ws c) = fd \<and> position_in_fds_table (ws c) = n"
proof -
  obtain a where "entry ctx (nat n) a" using assms unfolding table_inv_def by fastforce
  then obtain c where c: "conns ctx a = Some c" "conn_at ctx (nat n) a (ws c)" by (auto simp: entry_alt)
  have len: "length (fds ctx) = nat (max_fds ctx)" "length (lws_lookup ctx) = nat (max_fds ctx)" "n < max_fds ctx"
    using assms by (simp_all add: table_inv_def)
  then have "get_at (fds ctx) n = Some (fds ctx ! nat n)" "get_at (lws_lookup ctx) (fds ctx ! nat n) = Some (Some a)"
    using assms(2) c(2) by (simp_all add: conn_at_def get_at_nth)
  then show ?thesis using c assms(2) by (auto simp: conn_at_def)
qed

text \<open>C9: however connections are accepted, closed and time out, and whatever is asked of all connections of a protocol, every
  descriptor that is polled leads to a connection that exists, is the one with that socket, and knows its own position in
  the table.\<close>

theorem polled_sockets_live:
  assumes "(lws_step sv sy)\<^sup>*\<^sup>* s (ctx, e)" "quiet_server sv" "table_inv (fst s)" "0 \<le> n" "n < fds_count ctx"
  shows "\<exists>fd a c. get_at (fds ctx) n = Some fd \<and> get_at (lws_lookup ctx) fd = Some (Some a) \<and> conns ctx a = Some c \<and>
    sock (ws c) = fd \<and> position_in_fds_table (ws c) = n"
proof -
  have "table_inv ctx" using lws_run_inv [OF assms(1-3)] by simp
  from table_position [OF this assms(4,5)] show ?thesis .
qed

text \<open>Two connections, of which the one that came first is closed: the other one is moved into its place.\<close>

definition two_conns :: "bytes lws_context" where
  "two_conns = (let c = \<lambda>s i. demo_client\<lparr>ws := (ws demo_client)\<lparr>sock := s, position_in_fds_table := i, state := WSI_STATE_HTTP_HEADERS\<rparr>\<rparr>
     in (demo_context demo_client)\<lparr>fds := [5, 6, 0, 0, 0, 0, 0, 0], fds_count := 2,
          lws_lookup := (replicate 8 None)[5 := Some 1, 6 := Some 2], conns := [1 \<mapsto> c 5 0, 2 \<mapsto> c 6 1]\<rparr>)"

lemma two_conns_table: "table_inv two_conns" "1 \<in> polled two_conns"
proof -
  have "entry two_conns 0 1" "entry two_conns 1 2"
    by (simp_all add: entry_def two_conns_def demo_context_def Let_def)
  moreover have "i = 0 \<or> i = 1" if "i < nat (fds_count two_conns)" for i
    using that by (auto simp: two_conns_def Let_def)
  ultimately show "table_inv two_conns" "1 \<in> polled two_conns"
    by (auto simp: table_inv_def polled_def two_conns_def demo_context_def Let_def)
qed

theorem polled_sockets_live_witness:
  "\<exists>ctx e. lws_step demo_login (sys.truncate log_net) (two_conns, []) (ctx, e) \<and> fds_count ctx = 1 \<and>
     (\<exists>fd a c. get_at (fds ctx) 0 = Some fd \<and> get_at (lws_lookup ctx) fd = Some (Some a) \<and> conns ctx a = Some c \<and>
        sock (ws c) = fd \<and> position_in_fds_table (ws c) = 0)"
proof -
  let ?sy = "sys.truncate log_net"
  have flush: "flush_extensions (conn_ops sv [] w) s = Some (True, s)" for sv :: "bytes server" and w s
    by (rule flush_nothing) (simp add: conn_ops_def)
  have "\<exists>ctx e. libwebsocket_close_and_free_session demo_login ?sy 1 LWS_CLOSE_STATUS_NOSTATUS (two_conns, []) = Some (ctx, e) \<and>
      fds_count ctx = 1"
    by (simp add: libwebsocket_close_and_free_session_def two_conns_def demo_context_def demo_client_def new_wsi_def flush
        just_kill_connection_def remove_wsi_socket_from_fds_def get_at_nth set_at_update call_closed_def protocol_entry_of_def log_net_def
        sys.truncate_def demo_login_def log_ops_def login_protocols_def nth_opt_def Let_def)
  then obtain ctx e where c: "libwebsocket_close_and_free_session demo_login ?sy 1 LWS_CLOSE_STATUS_NOSTATUS (two_conns, []) = Some (ctx, e)"
    "fds_count ctx = 1" by blast
  have "plain_conn two_conns 1"
    using two_conns_table(2) by (simp add: plain_conn_def two_conns_def demo_context_def demo_client_def new_wsi_def Let_def)
  then have step: "lws_step demo_login ?sy (two_conns, []) (ctx, e)" using c(1) by (rule lws_step.close)
  show ?thesis
    using polled_sockets_live [OF r_into_rtranclp [of "lws_step demo_login ?sy", OF step] login_quiet, of 0] two_conns_table(1) step c(2)
    by auto
qed

section \<open>The end\<close>

text \<open>C10: \<open>libwebsocket_context_destroy\<close> returns. For a context of the server whose connections have no extensions, whatever
  state they are in, the loop over the first entry ends, the protocols are told up to the one that ends their array, and each
  socket that was in the table has been closed exactly once, and no other.\<close>

theorem context_destroyed:
  assumes "quiet_server sv" "has_http sv" "notes_closes sv sy cl" "table_inv ctx" "\<forall>x\<in>polled ctx. closable ctx x"
    and "\<exists>p\<in>set (protocols sv). protocol_callback p = None"
    and "\<forall>i e. cl (protocol_ended en i e) = cl e" "\<forall>e. cl (free_context en e) = cl e"
  shows "\<exists>e'. libwebsocket_context_destroy sv sy en (ctx, e) = Some e' \<and>
    mset (cl e') = mset (cl e) + image_mset (socket_of ctx) (mset_set (polled ctx))"
proof -
  obtain ctx1 e1 where 1: "close_all sv sy (ctx, e) = Some (ctx1, e1)"
    "mset (cl e1) = mset (cl e) + image_mset (socket_of ctx) (mset_set (polled ctx))"
    using close_all_ends [OF assms(1-5), of e] by blast
  obtain e2 where 2: "end_protocols en 0 (protocols sv) e1 = Some e2" "cl e2 = cl e1"
    using end_protocols_ends [OF assms(6,7)] by blast
  have "extensions sv = []" using assms(1) by (simp add: quiet_server_def)
  then show ?thesis using 1 2 assms(8) by (simp add: libwebsocket_context_destroy_def)
qed

text \<open>The protocols of the program in an environment that keeps a list of the sockets it closes, and two connections, one open, one in its request.\<close>

definition ending_server :: "int list server" where
  "ending_server = \<lparr>protocols = login_protocols (\<lambda>h r b s. (0, s)) (\<lambda>h r b s. (0, s)) (\<lambda>h r b s. (0, s)), extensions = [],
     base_ops = \<lparr>active_extensions = [], callback = (\<lambda>r b s. (0, s)), poll_callback = (\<lambda>r f s. s), send = (\<lambda>b e. (-1, e)),
       choked = (\<lambda>e. (False, e)), rand = (\<lambda>e. (7, e)), malloc_ok = (\<lambda>n e. (True, e))\<rparr>\<rparr>"

definition ending_sys :: "int list sys" where
  "ending_sys = \<lparr>gettimeofday = (\<lambda>e. (0, e)), close_file = (\<lambda>fd e. e), has_ssl = (\<lambda>fd e. False),
     close_ssl = (\<lambda>fd e. fd # e), close_socket = (\<lambda>fd e. fd # e)\<rparr>"

definition no_calls :: "int list ending" where
  "no_calls = \<lparr>listens = True, extension_ended = (\<lambda>l i e. e), protocol_ended = (\<lambda>i e. e), free_context = (\<lambda>e. e)\<rparr>"

definition ending_context :: "int list lws_context" where
  "ending_context =
     \<lparr>max_fds = 8, fds = [5, 6, 0, 0, 0, 0, 0, 0], fds_count = 2, lws_lookup = (replicate 8 None)[5 := Some 1, 6 := Some 2],
      conns = [1 \<mapsto> demo_client\<lparr>ws := (ws demo_client)\<lparr>sock := 5, position_in_fds_table := 0, state := WSI_STATE_HTTP_HEADERS\<rparr>\<rparr>,
        2 \<mapsto> demo_client\<lparr>ws := (ws demo_client)\<lparr>sock := 6, position_in_fds_table := 1, state := WSI_STATE_ESTABLISHED,
          mode := LWS_CONNMODE_WS_SERVING\<rparr>\<rparr>],
      conn_extensions = (\<lambda>a. []), service_buffer = [], last_timeout_check_s = 0, listen_service_fd = 0, listen_service_count = 0,
      listen_service_modulo = 10, listen_service_extraseen = 0, use_ssl = False\<rparr>"

lemma ending_table: "table_inv ending_context" "polled ending_context = {1, 2}"
proof -
  have e: "entry ending_context i x \<longleftrightarrow> i = 0 \<and> x = 1 \<or> i = 1 \<and> x = 2" for i x
    by (cases "i = 0"; cases "i = 1") (auto simp: entry_def ending_context_def)
  have "i = 0 \<or> i = 1" if "i < nat (fds_count ending_context)" for i
    using that by (auto simp: ending_context_def)
  then show "table_inv ending_context" unfolding table_inv_def e by (auto simp: ending_context_def)
  show "polled ending_context = {1, 2}" unfolding polled_def e by auto
qed

lemma ending_server_ok: "quiet_server ending_server" "has_http ending_server" "notes_closes ending_server ending_sys (\<lambda>e. e)"
  by (auto simp: quiet_server_def mirror_quiet_def has_http_def notes_closes_def ending_server_def ending_sys_def login_protocols_def nth_opt_def
      less_Suc_eq split: if_splits)

theorem context_destroyed_witness:
  "\<exists>e'. libwebsocket_context_destroy ending_server ending_sys no_calls (ending_context, []) = Some e' \<and> mset e' = {#5, 6#}"
proof -
  have "\<forall>x\<in>polled ending_context. closable ending_context x"
    by (simp add: ending_table closable_def) (simp add: ending_context_def demo_client_def new_wsi_def)
  moreover have "\<exists>p\<in>set (protocols ending_server). protocol_callback p = None"
    by (simp add: ending_server_def login_protocols_def)
  ultimately obtain e' where e: "libwebsocket_context_destroy ending_server ending_sys no_calls (ending_context, []) = Some e'"
    "mset e' = mset [] + image_mset (socket_of ending_context) (mset_set (polled ending_context))"
    using context_destroyed [OF ending_server_ok ending_table(1), of no_calls "[]"] by (auto simp: no_calls_def)
  have "socket_of ending_context 1 = 5" "socket_of ending_context 2 = 6" by (simp_all add: socket_of_def ending_context_def)
  then show ?thesis using e ending_table(2) by simp
qed

end
