(* ===== verification/Login_Http.thy ===== *)
theory Login_Http
  imports Http_File Context_Safety
begin

text \<open>
  Protocol 0 of \<open>srl/secure-rfid-login.c\<close>: the pages it serves over plain HTTP, and the table of sockets it keeps for an
  external \<open>poll\<close> (under \<open>EXTERNAL_POLL\<close>). \<open>None\<close> is an access outside of an array or a loop that does not end.
\<close>

section \<open>Pages\<close>

text \<open>The last entry is the default.\<close>

definition whitelist :: "(bytes \<times> bytes) list" where
  "whitelist = [(ascii ''/favicon.ico'', ascii ''image/x-icon''), (ascii ''/libwebsockets.org-logo.png'', ascii ''image/png''),
     (ascii ''/test.html'', ascii ''text/html'')]"

fun find_page :: "bytes \<Rightarrow> (bytes \<times> bytes) list \<Rightarrow> (bytes \<times> bytes) option" where
  "find_page uri [] = None"
| "find_page uri [p] = Some p"
| "find_page uri (p # q # ps) = (if uri = fst p then Some p else find_page uri (q # ps))"

text \<open>
  The state of the handler: the descriptor in the session of the connection, its static buffer and the service buffer of
  the library.
\<close>

record http_state =
  pss_fd :: int
  static_buffer :: bytes
  lib_buffer :: bytes

definition jpeg_header :: "u32 \<Rightarrow> bytes" where
  "jpeg_header sz = ascii ''HTTP/1.0 200 OK'' @ [0x0d, 0x0a] @ ascii ''Server: libwebsockets'' @ [0x0d, 0x0a] @
     ascii ''Content-Type: image/jpeg'' @ [0x0d, 0x0a] @ ascii ''Content-Length: '' @ decimal (unat sz) @ [0x0d, 0x0a, 0x0d, 0x0a]"

text \<open>The picture that is sent by hand.\<close>

definition serve_leaf ::
  "'e ws_ops \<Rightarrow> ('e, 'x) files_scheme \<Rightarrow> bytes \<Rightarrow> http_state \<times> 'e conn \<Rightarrow> (int \<times> http_state \<times> 'e conn) option" where
  "serve_leaf ops fs resource_path = (\<lambda>(h, w, e).
     if length resource_path > 1024 - 10 then Some (-1, h, w, e)
     else
       let (fd, e) = open_file fs (resource_path @ ascii ''/leaf.jpg'') e; h = h\<lparr>pss_fd := fd\<rparr>
       in if fd < 0 then Some (-1, h, w, e)
          else
            let (sz, e) = st_size fs fd e
            in do {
              b \<leftarrow> put_at (static_buffer h) 0 (jpeg_header sz @ [0]);
              (n, b, w, e) \<leftarrow> libwebsocket_write ops b 0 (length (jpeg_header sz)) LWS_WRITE_HTTP (w, e);
              let h = h\<lparr>static_buffer := b\<rparr>
              in if n < 0 then Some (-1, h, w, close_fd fs fd e)
                 else Some (0, h, snd (libwebsocket_callback_on_writable ops (w, e))) })"

definition serve_page ::
  "'e ws_ops \<Rightarrow> ('e, 'x) files_scheme \<Rightarrow> bytes \<Rightarrow> bytes \<Rightarrow> http_state \<times> 'e conn \<Rightarrow> (int \<times> http_state \<times> 'e conn) option" where
  "serve_page ops fs resource_path uri = (\<lambda>(h, s).
     do {
       (path, mime) \<leftarrow> find_page uri whitelist;
       file \<leftarrow> (if length resource_path + length path < 256 then Some (resource_path @ path) else None);
       (r, mem, s) \<leftarrow> libwebsockets_serve_http_file ops fs file mime (lib_buffer h) s;
       Some (if r \<noteq> 0 then -1 else 0, h\<lparr>lib_buffer := mem\<rparr>, s) })"

text \<open>More of the picture, until the socket is full or the file ends.\<close>

partial_function (option) send_more ::
  "'e ws_ops \<Rightarrow> ('e, 'x) files_scheme \<Rightarrow> http_state \<times> 'e conn \<Rightarrow> (int \<times> http_state \<times> 'e conn) option" where
  "send_more ops fs s =
     (case s of (h, w, e) \<Rightarrow>
        case read_file fs (pss_fd h) 4096 e of
          (None, e) \<Rightarrow> Some (-1, h, w, close_fd fs (pss_fd h) e)
        | (Some bs, e) \<Rightarrow>
            if bs = [] then Some (-1, h, w, close_fd fs (pss_fd h) e)
            else
              Option.bind (put_at (static_buffer h) 0 bs) (\<lambda>b.
                Option.bind (libwebsocket_write ops b 0 (length bs) LWS_WRITE_HTTP (w, e)) (\<lambda>(m, b, w, e).
                  let h = h\<lparr>static_buffer := b\<rparr>
                  in if m < 0 then Some (-1, h, w, close_fd fs (pss_fd h) e)
                     else
                       let e = (if m \<noteq> int (length bs) then lseek_cur fs (pss_fd h) (m - int (length bs)) e else e);
                           (full, e) = choked ops e
                       in if \<not> full then send_more ops fs (h, w, e)
                          else Some (0, h, snd (libwebsocket_callback_on_writable ops (w, e))))))"

definition callback_http ::
  "'e ws_ops \<Rightarrow> ('e, 'x) files_scheme \<Rightarrow> bytes \<Rightarrow> cb_reason \<Rightarrow> bytes \<Rightarrow> http_state \<times> 'e conn \<Rightarrow>
     (int \<times> http_state \<times> 'e conn) option" where
  "callback_http ops fs resource_path reason inp s =
     (case reason of
        LWS_CALLBACK_HTTP \<Rightarrow>
          if inp = ascii ''/leaf.jpg'' then serve_leaf ops fs resource_path s else serve_page ops fs resource_path inp s
      | LWS_CALLBACK_HTTP_FILE_COMPLETION \<Rightarrow> Some (-1, s)
      | LWS_CALLBACK_HTTP_WRITEABLE \<Rightarrow> send_more ops fs s
      | _ \<Rightarrow> Some (0, s))"

section \<open>The table for an external poll\<close>

record pollfd =
  fd :: int
  events_in :: bool
  events_out :: bool

record external_poll =
  max_poll_elements :: int
  pollfds :: "pollfd list"
  fd_lookup :: "int list"
  count_pollfds :: int

definition with_flag :: "poll_flag \<Rightarrow> bool \<Rightarrow> pollfd \<Rightarrow> pollfd" where
  "with_flag f on p = (case f of POLLIN \<Rightarrow> p\<lparr>events_in := on\<rparr> | POLLOUT \<Rightarrow> p\<lparr>events_out := on\<rparr> | NO_EVENTS \<Rightarrow> p)"

definition add_poll_fd :: "int \<Rightarrow> poll_flag \<Rightarrow> external_poll \<Rightarrow> (int \<times> external_poll) option" where
  "add_poll_fd s f x =
     (if count_pollfds x \<ge> max_poll_elements x then Some (1, x)
      else do {
        lk \<leftarrow> set_at (fd_lookup x) s (count_pollfds x);
        ps \<leftarrow> set_at (pollfds x) (count_pollfds x) (with_flag f True \<lparr>fd = s, events_in = False, events_out = False\<rparr>);
        Some (0, x\<lparr>fd_lookup := lk, pollfds := ps, count_pollfds := count_pollfds x + 1\<rparr>) })"

text \<open>The last entry takes the place of the one that goes; nothing is done for the only one.\<close>

definition del_poll_fd :: "int \<Rightarrow> external_poll \<Rightarrow> (int \<times> external_poll) option" where
  "del_poll_fd s x =
     (let x = x\<lparr>count_pollfds := count_pollfds x - 1\<rparr>
      in if count_pollfds x = 0 then Some (0, x)
         else do {
           m \<leftarrow> get_at (fd_lookup x) s;
           p \<leftarrow> get_at (pollfds x) (count_pollfds x);
           ps \<leftarrow> set_at (pollfds x) m p;
           q \<leftarrow> get_at ps (count_pollfds x);
           lk \<leftarrow> set_at (fd_lookup x) (fd q) m;
           Some (0, x\<lparr>pollfds := ps, fd_lookup := lk\<rparr>) })"

definition mode_poll_fd :: "int \<Rightarrow> poll_flag \<Rightarrow> bool \<Rightarrow> external_poll \<Rightarrow> (int \<times> external_poll) option" where
  "mode_poll_fd s f on x =
     do {
       m \<leftarrow> get_at (fd_lookup x) s;
       p \<leftarrow> get_at (pollfds x) m;
       ps \<leftarrow> set_at (pollfds x) m (with_flag f on p);
       Some (0, x\<lparr>pollfds := ps\<rparr>) }"

definition callback_poll :: "cb_reason \<Rightarrow> int \<Rightarrow> poll_flag \<Rightarrow> external_poll \<Rightarrow> (int \<times> external_poll) option" where
  "callback_poll reason s f x =
     (case reason of
        LWS_CALLBACK_ADD_POLL_FD \<Rightarrow> add_poll_fd s f x
      | LWS_CALLBACK_DEL_POLL_FD \<Rightarrow> del_poll_fd s x
      | LWS_CALLBACK_SET_MODE_POLL_FD \<Rightarrow> mode_poll_fd s f True x
      | LWS_CALLBACK_CLEAR_MODE_POLL_FD \<Rightarrow> mode_poll_fd s f False x
      | _ \<Rightarrow> Some (0, x))"

text \<open>The entries of the table, and what it relies on.\<close>

definition ext_inv :: "external_poll \<Rightarrow> bool" where
  "ext_inv x \<longleftrightarrow> 0 \<le> count_pollfds x \<and> count_pollfds x \<le> max_poll_elements x \<and> length (pollfds x) = nat (max_poll_elements x) \<and>
     (\<forall>i < nat (count_pollfds x). 0 \<le> fd (pollfds x ! i) \<and> fd (pollfds x ! i) < int (length (fd_lookup x)) \<and>
        fd_lookup x ! nat (fd (pollfds x ! i)) = int i)"

definition ext_keys :: "external_poll \<Rightarrow> int set" where
  "ext_keys x = (\<lambda>i. fd (pollfds x ! i)) ` {..<nat (count_pollfds x)}"

definition ext_room :: "external_poll \<Rightarrow> int \<Rightarrow> bool" where
  "ext_room x k \<longleftrightarrow> count_pollfds x < max_poll_elements x \<and> 0 \<le> k \<and> k < int (length (fd_lookup x))"

lemma fd_with_flag [simp]: "fd (with_flag f on p) = fd p"
  by (simp add: with_flag_def split: poll_flag.split)

lemma ext_add:
  assumes "ext_inv x" "ext_room x k" "k \<notin> ext_keys x"
  shows "\<exists>x'. callback_poll LWS_CALLBACK_ADD_POLL_FD k f x = Some (0, x') \<and> ext_inv x' \<and> ext_keys x' = insert k (ext_keys x)"
proof -
  let ?n = "nat (count_pollfds x)" and ?p = "with_flag f True \<lparr>fd = k, events_in = False, events_out = False\<rparr>"
  let ?x = "x\<lparr>fd_lookup := (fd_lookup x)[nat k := count_pollfds x], pollfds := (pollfds x)[?n := ?p],
    count_pollfds := count_pollfds x + 1\<rparr>"
  have x: "0 \<le> count_pollfds x" "count_pollfds x < max_poll_elements x" "length (pollfds x) = nat (max_poll_elements x)"
    "0 \<le> k" "k < int (length (fd_lookup x))"
    "\<And>i. i < ?n \<Longrightarrow> 0 \<le> fd (pollfds x ! i) \<and> fd (pollfds x ! i) < int (length (fd_lookup x)) \<and>
        fd_lookup x ! nat (fd (pollfds x ! i)) = int i"
    using assms(1,2) by (simp_all add: ext_inv_def ext_room_def)
  have n: "?n < length (pollfds x)" "nat k < length (fd_lookup x)" "nat (count_pollfds x + 1) = Suc ?n" using x by simp_all
  have "callback_poll LWS_CALLBACK_ADD_POLL_FD k f x = Some (0, ?x)"
    using x(1-4) n by (simp add: callback_poll_def add_poll_fd_def set_at_update)
  moreover have fresh: "fd (pollfds x ! i) \<noteq> k" if "i < ?n" for i using assms(3) that by (auto simp: ext_keys_def)
  have "0 \<le> fd (pollfds ?x ! i) \<and> fd (pollfds ?x ! i) < int (length (fd_lookup ?x)) \<and> fd_lookup ?x ! nat (fd (pollfds ?x ! i)) = int i"
    if "i < Suc ?n" for i
  proof (cases "i = ?n")
    case True
    then show ?thesis using x(1,4,5) n by simp
  next
    case False
    then have "i < ?n" using that by simp
    from x(6) [OF this] fresh [OF this] show ?thesis using False x(4) by (auto simp: nth_list_update eq_nat_nat_iff)
  qed
  then have "ext_inv ?x" using x(1-3) n(3) by (simp add: ext_inv_def)
  moreover have "ext_keys ?x = insert k (ext_keys x)"
    using n by (auto simp: ext_keys_def nth_list_update lessThan_Suc image_iff split: if_splits)
  ultimately show ?thesis by blast
qed

lemma ext_del:
  assumes "ext_inv x" "k \<in> ext_keys x"
  shows "\<exists>x'. callback_poll LWS_CALLBACK_DEL_POLL_FD k f x = Some (0, x') \<and> ext_inv x' \<and> ext_keys x' = ext_keys x - {k}"
proof -
  obtain m where m: "m < nat (count_pollfds x)" "k = fd (pollfds x ! m)" using assms(2) by (auto simp: ext_keys_def)
  obtain n where n: "count_pollfds x = int (Suc n)" using m(1) by (metis gr_implies_not0 nat_0_iff nonneg_int_cases not0_implies_Suc zero_less_nat_eq linorder_not_le less_le_not_le nat_int)
  have x: "int (Suc n) \<le> max_poll_elements x" "length (pollfds x) = nat (max_poll_elements x)"
    "\<And>i. i < Suc n \<Longrightarrow> 0 \<le> fd (pollfds x ! i) \<and> fd (pollfds x ! i) < int (length (fd_lookup x)) \<and>
        fd_lookup x ! nat (fd (pollfds x ! i)) = int i"
    using assms(1) n by (simp_all add: ext_inv_def del: of_nat_Suc)
  have unique: "fd (pollfds x ! i) = fd (pollfds x ! j) \<Longrightarrow> i = j" if "i < Suc n" "j < Suc n" for i j
    using x(3) [OF that(1)] x(3) [OF that(2)] by (metis of_nat_eq_iff)
  have nn: "nat (count_pollfds x) = Suc n" using n by simp
  then have mn: "m < Suc n" using m(1) by simp
  show ?thesis
  proof (cases "n = 0")
    case True
    then have "callback_poll LWS_CALLBACK_DEL_POLL_FD k f x = Some (0, x\<lparr>count_pollfds := 0\<rparr>)"
      using n by (simp add: callback_poll_def del_poll_fd_def)
    moreover have "ext_inv (x\<lparr>count_pollfds := 0\<rparr>)" using x(1,2) by (simp add: ext_inv_def)
    moreover have "ext_keys (x\<lparr>count_pollfds := 0\<rparr>) = ext_keys x - {k}"
      using True mn m(2) n by (auto simp: ext_keys_def)
    ultimately show ?thesis by blast
  next
    case False
    let ?l = "pollfds x ! n"
    let ?x = "x\<lparr>count_pollfds := int n, pollfds := (pollfds x)[m := ?l], fd_lookup := (fd_lookup x)[nat (fd ?l) := int m]\<rparr>"
    have len: "Suc n \<le> length (pollfds x)" using x(1,2) by simp
    have l: "0 \<le> fd ?l" "nat (fd ?l) < length (fd_lookup x)" using x(3) [of n] by auto
    have k: "0 \<le> k" "nat k < length (fd_lookup x)" "fd_lookup x ! nat k = int m" using x(3) [OF mn] m(2) by auto
    have "callback_poll LWS_CALLBACK_DEL_POLL_FD k f x = Some (0, ?x)"
      using n False len l k mn
      by (simp add: callback_poll_def del_poll_fd_def get_at_nth set_at_update nth_list_update)
    moreover have "0 \<le> fd (pollfds ?x ! i) \<and> fd (pollfds ?x ! i) < int (length (fd_lookup ?x)) \<and>
        fd_lookup ?x ! nat (fd (pollfds ?x ! i)) = int i" if "i < n" for i
    proof (cases "i = m")
      case True
      then show ?thesis using l len that by (simp add: nth_list_update)
    next
      case False
      have "fd (pollfds x ! i) \<noteq> fd ?l" using unique [of i n] that by auto
      then show ?thesis using False x(3) [of i] that l by (auto simp: nth_list_update eq_nat_nat_iff)
    qed
    then have "ext_inv ?x" using x(1,2) by (simp add: ext_inv_def)
    moreover have "ext_keys ?x = ext_keys x - {k}"
    proof
      show "ext_keys ?x \<subseteq> ext_keys x - {k}"
      proof
        fix s
        assume "s \<in> ext_keys ?x"
        then obtain i where i: "i < n" "s = fd ((pollfds x)[m := ?l] ! i)" by (auto simp: ext_keys_def)
        then have s: "s = fd (pollfds x ! (if i = m then n else i))" using len by (simp add: nth_list_update)
        have "(if i = m then n else i) < Suc n \<and> (if i = m then n else i) \<noteq> m" using i(1) by auto
        then show "s \<in> ext_keys x - {k}" using s unique [of "if i = m then n else i" m] mn m(2) n by (auto simp: ext_keys_def)
      qed
      show "ext_keys x - {k} \<subseteq> ext_keys ?x"
      proof
        fix s
        assume "s \<in> ext_keys x - {k}"
        then obtain i where i: "i < Suc n" "s = fd (pollfds x ! i)" "i \<noteq> m"
          using m(2) unfolding ext_keys_def nn by auto
        show "s \<in> ext_keys ?x"
        proof (cases "i = n")
          case True
          then have "m < n" using i(3) mn by simp
          then show ?thesis using True i(2) len by (auto simp: ext_keys_def intro!: image_eqI [of _ _ m])
        next
          case False
          then show ?thesis using i by (auto simp: ext_keys_def intro!: image_eqI [of _ _ i])
        qed
      qed
    qed
    ultimately show ?thesis by blast
  qed
qed

definition ext_insert :: "poll_flag \<Rightarrow> int \<Rightarrow> external_poll \<Rightarrow> external_poll option" where
  "ext_insert f k x = map_option snd (callback_poll LWS_CALLBACK_ADD_POLL_FD k f x)"

definition ext_remove :: "int \<Rightarrow> external_poll \<Rightarrow> external_poll option" where
  "ext_remove k x = map_option snd (callback_poll LWS_CALLBACK_DEL_POLL_FD k NO_EVENTS x)"

interpretation ext_table: poll_table ext_inv ext_keys ext_room "ext_insert f" ext_remove for f
proof
  fix x k
  assume "ext_inv x" "ext_room x k" "k \<notin> ext_keys x"
  then show "\<exists>x'. ext_insert f k x = Some x' \<and> ext_inv x' \<and> ext_keys x' = insert k (ext_keys x)"
    using ext_add [of x k f] by (auto simp: ext_insert_def)
next
  fix x k
  assume "ext_inv x" "k \<in> ext_keys x"
  then show "\<exists>x'. ext_remove k x = Some x' \<and> ext_inv x' \<and> ext_keys x' = ext_keys x - {k}"
    using ext_del [of x k NO_EVENTS] by (auto simp: ext_remove_def)
qed

end
