(* ===== verification/Http_Properties.thy ===== *)
theory Http_Properties
  imports Login_Http Login_Properties
begin

text \<open>
  The properties of plain HTTP: a page of the list is sent whole, and a file that turns out shorter than its size keeps
  the server busy for ever.
\<close>

section \<open>Sending\<close>

lemma write_http:
  assumes "takes_all ops sent" "truncated_send_malloc w = None" "bs \<noteq> []"
  shows "libwebsocket_write ops (bs @ T) 0 (length bs) LWS_WRITE_HTTP (w, e) = Some (int (length bs), bs @ T, w, sent bs e)"
proof -
  have no: "active_extensions ops = []" using assms(1) by (simp add: takes_all_def)
  have "token_bytes \<lparr>token_mem = bs @ T, token_pos = 0, token_len = length bs, token_moved = False\<rparr> = Some bs"
    by (simp add: token_bytes_def)
  then have "send_raw ops LWS_WRITE_HTTP (length bs) 0
      \<lparr>token_mem = bs @ T, token_pos = 0, token_len = length bs, token_moved = False\<rparr> (w, e) = Some (int (length bs), w, sent bs e)"
    using assms(1,2) no by (simp add: send_raw_def issue_raw_plain takes_all_def handle_truncated_send_def)
  then show ?thesis using assms(3) by (simp add: libwebsocket_write_def)
qed

text \<open>
  A socket that takes all it is given and is never full, and a file of which \<open>rest\<close> is still unread: a read gives some
  of it, as long as there is any, and nothing after its end.
\<close>

definition file_line :: "'e ws_ops \<Rightarrow> ('e, 'x) files_scheme \<Rightarrow> ('e \<Rightarrow> bytes) \<Rightarrow> ('e \<Rightarrow> bytes) \<Rightarrow> bool" where
  "file_line ops fs acc rest \<longleftrightarrow>
     (\<exists>sent. takes_all ops sent \<and> (\<forall>bs e. acc (sent bs e) = acc e @ bs \<and> rest (sent bs e) = rest e)) \<and>
     (\<forall>e. \<exists>e'. choked ops e = (False, e') \<and> acc e' = acc e \<and> rest e' = rest e) \<and>
     (\<forall>d n e. \<exists>bs e'. read_file fs d n e = (Some bs, e') \<and> rest e = bs @ rest e' \<and> length bs \<le> n \<and>
        (0 < n \<and> rest e \<noteq> [] \<longrightarrow> bs \<noteq> []) \<and> acc e' = acc e)"

text \<open>One turn of the loop.\<close>

lemma fragment_turn:
  assumes "file_line ops fs acc rest" "length mem = 4096" "truncated_send_malloc w = None"
  shows "\<exists>bs mem' e'. rest e = bs @ rest e' \<and> acc e' = acc e @ bs \<and> length mem' = 4096 \<and> (rest e \<noteq> [] \<longrightarrow> bs \<noteq> []) \<and>
    libwebsockets_serve_http_file_fragment ops fs mem (w, e) =
      (let w = w\<lparr>http_filepos := http_filepos w + word_of_nat (length bs)\<rparr>
       in if http_filepos w = http_filelen w then
            let w = w\<lparr>state := WSI_STATE_HTTP\<rparr>
            in Some (1, mem', if has_callback (protocol w)
                 then snd (user_callback_handle_rxflow ops LWS_CALLBACK_HTTP_FILE_COMPLETION [] (w, e')) else (w, e'))
          else libwebsockets_serve_http_file_fragment ops fs mem' (w, e'))"
proof -
  obtain sent where s: "takes_all ops sent" "\<And>bs e. acc (sent bs e) = acc e @ bs" "\<And>bs e. rest (sent bs e) = rest e"
    using assms(1) unfolding file_line_def by blast
  obtain e1 where e1: "choked ops e = (False, e1)" "acc e1 = acc e" "rest e1 = rest e"
    using assms(1) unfolding file_line_def by blast
  obtain bs e2 where r: "read_file fs (http_fd w) 4096 e1 = (Some bs, e2)" "rest e1 = bs @ rest e2" "length bs \<le> 4096"
    "rest e1 \<noteq> [] \<longrightarrow> bs \<noteq> []" "acc e2 = acc e1"
    using assms(1) unfolding file_line_def by (metis zero_less_numeral)
  show ?thesis
  proof (cases "bs = []")
    case True
    have "w\<lparr>http_filepos := http_filepos w + word_of_nat (length bs)\<rparr> = w" using True by simp
    then show ?thesis
      using e1 r True assms(2)
      by (intro exI [of _ bs] exI [of _ mem] exI [of _ e2], subst libwebsockets_serve_http_file_fragment.simps)
        (simp add: LWS_MAX_SOCKET_IO_BUF_def Let_def)
  next
    case False
    have p: "put_at mem 0 bs = Some (bs @ drop (length bs) mem)" using r(3) assms(2) by (simp add: put_at_def)
    note w = write_http [OF s(1) assms(3) False, of "drop (length bs) mem" e2]
    show ?thesis
      using e1 r False p w s(2,3) assms(2)
      by (intro exI [of _ bs] exI [of _ "bs @ drop (length bs) mem"] exI [of _ "sent bs e2"],
          subst libwebsockets_serve_http_file_fragment.simps)
        (simp add: LWS_MAX_SOCKET_IO_BUF_def Let_def)
  qed
qed

lemma fragment_serves:
  assumes "file_line ops fs acc rest" "length mem = 4096" "truncated_send_malloc w = None" "has_callback (protocol w)"
    and "\<And>w e. callback ops LWS_CALLBACK_HTTP_FILE_COMPLETION [] (w, e) = (-1, w, e)"
    and "http_filepos w = word_of_nat p" "http_filelen w = word_of_nat (p + length (rest e))" "p + length (rest e) < 2 ^ 32"
  shows "\<exists>mem' e'. libwebsockets_serve_http_file_fragment ops fs mem (w, e) =
    Some (1, mem', w\<lparr>http_filepos := http_filelen w, state := WSI_STATE_HTTP\<rparr>, e') \<and> acc e' = acc e @ rest e"
  using assms(2-4,6-8)
proof (induction "length (rest e)" arbitrary: mem w p e rule: less_induct)
  case less
  obtain bs mem' e' where t: "rest e = bs @ rest e'" "acc e' = acc e @ bs" "length mem' = 4096" "rest e \<noteq> [] \<longrightarrow> bs \<noteq> []"
    "libwebsockets_serve_http_file_fragment ops fs mem (w, e) =
      (let w = w\<lparr>http_filepos := http_filepos w + word_of_nat (length bs)\<rparr>
       in if http_filepos w = http_filelen w then
            let w = w\<lparr>state := WSI_STATE_HTTP\<rparr>
            in Some (1, mem', if has_callback (protocol w)
                 then snd (user_callback_handle_rxflow ops LWS_CALLBACK_HTTP_FILE_COMPLETION [] (w, e')) else (w, e'))
          else libwebsockets_serve_http_file_fragment ops fs mem' (w, e'))"
    using fragment_turn [OF assms(1) less.prems(1,2), of e] by blast
  let ?w = "w\<lparr>http_filepos := http_filepos w + word_of_nat (length bs)\<rparr>"
  have pos: "http_filepos ?w = word_of_nat (p + length bs)" using less.prems(4) by simp
  have bound: "p + length bs < 2 ^ 32" using less.prems(6) t(1) by simp
  have eq: "http_filepos ?w = http_filelen ?w \<longleftrightarrow> rest e' = []"
  proof -
    have "(word_of_nat (p + length bs) :: u32) = word_of_nat (p + length (rest e)) \<longleftrightarrow> p + length bs = p + length (rest e)"
      using bound less.prems(6) by (simp add: word_of_nat_eq_iff take_bit_nat_eq_self)
    then show ?thesis using pos less.prems(5) t(1) by simp
  qed
  show ?case
  proof (cases "rest e' = []")
    case True
    then have "http_filepos ?w = http_filelen w" using eq by simp
    then show ?thesis
      using t less.prems(3) True assms(5) by (simp add: user_callback_handle_rxflow_def)
  next
    case False
    then have "bs \<noteq> []" using t(1,4) by auto
    then have "length (rest e') < length (rest e)" using t(1) by simp
    from less.hyps [OF this t(3), of ?w "p + length bs"] less.prems t(1) pos
    show ?thesis using t(2,5) eq False by (auto simp: algebra_simps)
  qed
qed

text \<open>The header of the response, and then the file.\<close>

lemma file_served:
  assumes "file_line ops fs acc rest" "length mem = 4096" "truncated_send_malloc w = None" "has_callback (protocol w)"
    and "\<And>w e. callback ops LWS_CALLBACK_HTTP_FILE_COMPLETION [] (w, e) = (-1, w, e)"
    and "open_file fs file e = (d, e1)" "1 \<le> d" "st_size fs d e1 = (word_of_nat (length (rest e2)), e2)"
    and "acc e1 = acc e" "acc e2 = acc e1" "length (rest e2) < 2 ^ 32"
    and "length (http_ok mime (word_of_nat (length (rest e2)))) < 4096"
  shows "\<exists>mem' w' e'. libwebsockets_serve_http_file ops fs file mime mem (w, e) = Some (1, mem', w', e') \<and>
    acc e' = acc e @ http_ok mime (word_of_nat (length (rest e2))) @ rest e2 \<and> state w' = WSI_STATE_HTTP"
proof -
  let ?l = "word_of_nat (length (rest e2)) :: u32"
  let ?h = "http_ok mime ?l"
  let ?w = "w\<lparr>http_fd := d, http_filelen := ?l\<rparr>"
  obtain sent where s: "takes_all ops sent" "\<And>bs e. acc (sent bs e) = acc e @ bs" "\<And>bs e. rest (sent bs e) = rest e"
    using assms(1) unfolding file_line_def by blast
  have p: "put_at mem 0 (?h @ [0]) = Some (?h @ 0 # drop (length ?h + 1) mem)" "length (?h @ 0 # drop (length ?h + 1) mem) = 4096"
    using assms(2,12) by (simp_all add: put_at_def)
  have "?h \<noteq> []" by (simp add: http_ok_def)
  then have w: "libwebsocket_write ops (?h @ 0 # drop (length ?h + 1) mem) 0 (length ?h) LWS_WRITE_HTTP (?w, e2) =
      Some (int (length ?h), ?h @ 0 # drop (length ?h + 1) mem, ?w, sent ?h e2)"
    using write_http [OF s(1), of ?w ?h "0 # drop (length ?h + 1) mem" e2] assms(3) by simp
  let ?v = "?w\<lparr>http_filepos := 0, state := WSI_STATE_HTTP_ISSUING_FILE\<rparr>"
  have "\<exists>mem' e'. libwebsockets_serve_http_file_fragment ops fs (?h @ 0 # drop (length ?h + 1) mem) (?v, sent ?h e2) =
      Some (1, mem', ?v\<lparr>http_filepos := http_filelen ?v, state := WSI_STATE_HTTP\<rparr>, e') \<and> acc e' = acc (sent ?h e2) @ rest (sent ?h e2)"
    by (rule fragment_serves [where p = 0, OF assms(1) p(2) _ _ assms(5)]) (use assms(3,4,11) s(3) in simp_all)
  then show ?thesis
    using assms(6-10) p(1) w s(2,3) by (auto simp: libwebsockets_serve_http_file_def Let_def)
qed


section \<open>The pages\<close>

lemma decimal_length: "n < 10 ^ Suc k \<Longrightarrow> length (decimal n) \<le> Suc k"
proof (induction k arbitrary: n)
  case 0
  then show ?case by (simp add: decimal.simps [of n])
next
  case (Suc k)
  then have "n div 10 < 10 ^ Suc k" by (simp add: less_mult_imp_div_less algebra_simps)
  from Suc.IH [OF this] show ?case by (simp add: decimal.simps [of n])
qed

lemma decimal_u32: "length (decimal (unat (n :: u32))) \<le> 10"
proof -
  have "(unat n :: nat) < 2 ^ LENGTH(32)" by (rule unsigned_less)
  then have "unat n < 10 ^ Suc 9" by simp
  from decimal_length [OF this] show ?thesis by simp
qed

text \<open>The page for a request: one of the list, or the default.\<close>

definition page_of :: "bytes \<Rightarrow> bytes \<times> bytes" where
  "page_of uri = (case map_of whitelist uri of Some mime \<Rightarrow> (uri, mime) | None \<Rightarrow> (ascii ''/test.html'', ascii ''text/html''))"

lemma find_page_of: "find_page uri whitelist = Some (page_of uri)"
  by (auto simp: page_of_def whitelist_def)

lemma page_of_length: "length (fst (page_of uri)) \<le> 27" "length (snd (page_of uri)) \<le> 12"
  by (auto simp: page_of_def whitelist_def ascii_def)

text \<open>C13: any URI but that of the picture is answered with a page of the list of the service, the default page where the
  list does not have it, so that no other file is ever opened: the response header with type and size, then the
  whole file, and the connection is closed.\<close>

theorem page_served:
  assumes "file_line ops fs acc rest" "length (lib_buffer h) = 4096" "truncated_send_malloc w = None" "has_callback (protocol w)"
    and "\<And>w e. callback ops LWS_CALLBACK_HTTP_FILE_COMPLETION [] (w, e) = (-1, w, e)"
    and "uri \<noteq> ascii ''/leaf.jpg''" "length root \<le> 228"
    and "open_file fs (root @ fst (page_of uri)) e = (d, e1)" "1 \<le> d"
    and "st_size fs d e1 = (word_of_nat (length (rest e2)), e2)" "acc e1 = acc e" "acc e2 = acc e1" "length (rest e2) < 2 ^ 32"
  shows "\<exists>h' w' e'. callback_http ops fs root LWS_CALLBACK_HTTP uri (h, w, e) = Some (-1, h', w', e') \<and>
    acc e' = acc e @ http_ok (snd (page_of uri)) (word_of_nat (length (rest e2))) @ rest e2"
proof -
  have "length (http_ok (snd (page_of uri)) (word_of_nat (length (rest e2)))) < 4096"
    using page_of_length(2) [of uri] decimal_u32 [of "word_of_nat (length (rest e2))"] by (simp add: http_ok_def ascii_def)
  from file_served [OF assms(1-5,8-13) this]
  show ?thesis
    using assms(6,7) page_of_length(1) [of uri]
    by (auto simp: callback_http_def serve_page_def find_page_of case_prod_unfold)
qed

text \<open>A computer with one file, of which the second part of its environment is still unread.\<close>

definition page_ops :: "(bytes \<times> bytes) ws_ops" where
  "page_ops = \<lparr>active_extensions = [], callback = (\<lambda>r b s. (if r = LWS_CALLBACK_HTTP_FILE_COMPLETION then -1 else 0, s)),
     poll_callback = (\<lambda>r f s. s), send = (\<lambda>b (l, r). (int (length b), l @ b, r)), choked = (\<lambda>e. (False, e)), rand = (\<lambda>e. (7, e)),
     malloc_ok = (\<lambda>n e. (True, e))\<rparr>"

definition page_files :: "(bytes \<times> bytes) files" where
  "page_files = \<lparr>open_file = (\<lambda>f e. (7, e)), st_size = (\<lambda>d (l, r). (word_of_nat (length r), l, r)),
     read_file = (\<lambda>d n (l, r). (Some (take n r), l, drop n r)), lseek_cur = (\<lambda>d n e. e), close_fd = (\<lambda>d e. e)\<rparr>"

lemma page_line: "file_line page_ops page_files fst snd"
proof -
  have "takes_all page_ops (\<lambda>b (l, r). (l @ b, r))" by (simp add: takes_all_def page_ops_def case_prod_unfold)
  then show ?thesis unfolding file_line_def by (force simp: page_ops_def page_files_def)
qed

theorem page_served_witness:
  "\<exists>h' w' e'. callback_http page_ops page_files (ascii ''/srv'') LWS_CALLBACK_HTTP (ascii ''/etc/passwd'')
      (\<lparr>pss_fd = 0, static_buffer = replicate 4096 0, lib_buffer = replicate 4096 0\<rparr>, ws demo_client, [], ascii ''<html>'') =
      Some (-1, h', w', e') \<and>
    fst e' = fst ([], ascii ''<html>'') @ http_ok (snd (page_of (ascii ''/etc/passwd'')))
      (word_of_nat (length (snd ([] :: bytes, ascii ''<html>'')))) @ snd ([] :: bytes, ascii ''<html>'')"
  by (rule page_served [where d = 7 and ?e1.0 = "([], ascii ''<html>'')" and ?e2.0 = "([], ascii ''<html>'')", OF page_line])
    (simp_all add: page_ops_def page_files_def demo_client_def new_wsi_def ascii_def)

section \<open>A file that has become shorter\<close>

text \<open>C38: a file that has fewer bytes left than its size told is never finished: when the end of the file is met the loop goes on
  reading nothing, without end, and the whole server with it.\<close>

theorem short_file_never_ends:
  assumes "file_line ops fs acc rest" "length mem = 4096" "truncated_send_malloc w = None"
    and "http_filepos w = word_of_nat p" "http_filelen w = word_of_nat told" "p + length (rest e) < told" "told < 2 ^ 32"
  shows "libwebsockets_serve_http_file_fragment ops fs mem (w, e) = None"
proof -
  let ?P = "\<lambda>ops fs mem s (r :: int \<times> bytes \<times> 'a conn). \<forall>p. file_line ops fs acc rest \<and> length mem = 4096 \<and>
    truncated_send_malloc (fst s) = None \<and> http_filepos (fst s) = word_of_nat p \<and> http_filelen (fst s) = word_of_nat told \<longrightarrow>
    told \<le> p + length (rest (snd s))"
  have "?P ops fs mem (w, e) r" if "libwebsockets_serve_http_file_fragment ops fs mem (w, e) = Some r" for r
  proof (rule libwebsockets_serve_http_file_fragment.raw_induct [where P = ?P, OF _ that], intro allI impI, goal_cases)
    case (1 f ops fs mem s r p)
    obtain w e where s: "s = (w, e)" by fastforce
    have a: "file_line ops fs acc rest" "length mem = 4096" "truncated_send_malloc w = None" "http_filepos w = word_of_nat p"
      "http_filelen w = word_of_nat told" using 1(3) s by simp_all
    obtain sent where t: "takes_all ops sent" "\<And>bs e. acc (sent bs e) = acc e @ bs" "\<And>bs e. rest (sent bs e) = rest e"
      using a(1) unfolding file_line_def by blast
    obtain e1 where e1: "choked ops e = (False, e1)" "acc e1 = acc e" "rest e1 = rest e"
      using a(1) unfolding file_line_def by blast
    obtain bs e2 where r: "read_file fs (http_fd w) 4096 e1 = (Some bs, e2)" "rest e1 = bs @ rest e2" "length bs \<le> 4096"
      "acc e2 = acc e1"
      using a(1) unfolding file_line_def by blast
    show ?case
    proof (rule ccontr)
      assume "\<not> told \<le> p + length (rest (snd s))"
      then have short: "p + length bs < told" "p + length bs + length (rest e2) < told" using s e1(3) arg_cong [OF r(2), of length] by simp_all
      let ?w = "w\<lparr>http_filepos := http_filepos w + word_of_nat (length bs)\<rparr>"
      have pos: "http_filepos ?w = word_of_nat (p + length bs)" using a(4) by simp
      have "(word_of_nat (p + length bs) :: u32) \<noteq> word_of_nat told"
        using short(1) assms(7) by (simp add: word_of_nat_eq_iff take_bit_nat_eq_self del: of_nat_add)
      then have ne: "http_filepos ?w \<noteq> http_filelen ?w" using pos a(5) by simp
      have "\<exists>mem' e'. f ops fs mem' (?w, e') = Some r \<and> length mem' = 4096 \<and> rest e' = rest e2"
      proof (cases "bs = []")
        case True
        have "?w = w" using True by simp
        then show ?thesis
          using 1(2) s e1(1) r(1) True ne a(2) by (auto simp: LWS_MAX_SOCKET_IO_BUF_def Let_def)
      next
        case False
        have p: "put_at mem 0 bs = Some (bs @ drop (length bs) mem)" using r(3) a(2) by (simp add: put_at_def)
        note w = write_http [OF t(1) a(3) False, of "drop (length bs) mem" e2]
        have "f ops fs (bs @ drop (length bs) mem) (?w, sent bs e2) = Some r"
          using 1(2) s e1(1) r(1) False p w ne by (simp add: LWS_MAX_SOCKET_IO_BUF_def Let_def)
        then show ?thesis using r(3) a(2) t(3) by fastforce
      qed
      then obtain mem' e' where f: "f ops fs mem' (?w, e') = Some r" "length mem' = 4096" "rest e' = rest e2" by blast
      show False using 1(1) [OF f(1), rule_format, of "p + length bs"] a f(2,3) pos short(2) by simp
    qed
  qed
  then show ?thesis using assms by (cases "libwebsockets_serve_http_file_fragment ops fs mem (w, e)") fastforce+
qed


theorem short_file_never_ends_witness:
  "libwebsockets_serve_http_file_fragment page_ops page_files (replicate 4096 0)
     ((ws demo_client)\<lparr>http_fd := 7, http_filelen := 100\<rparr>, [], ascii ''<html>'') = None"
  by (rule short_file_never_ends [where p = 0 and told = 100, OF page_line]) (simp_all add: demo_client_def new_wsi_def ascii_def)

end
