(* ===== verification/Mirror.thy ===== *)
theory Mirror
  imports Ws_Accept Origin_Check
begin

text \<open>
  The mirror protocol of \<open>srl/secure-rfid-login.c\<close>: every message a page sends is kept in one ring of 32 for all
  connections, each of which reads it at its own position. \<open>None\<close> is an access outside of an array, the use of a
  payload that is freed, or a loop that does not end.
\<close>

section \<open>The ring\<close>

abbreviation (input) MAX_MESSAGE_QUEUE :: nat where "MAX_MESSAGE_QUEUE \<equiv> 32"

datatype memory_block = Null | Block bytes | Freed

record a_message =
  payload :: memory_block
  msg_len :: nat

text \<open>\<open>ringbuffer_tail\<close> is kept in the session of each connection.\<close>

record mirror =
  ringbuffer :: "a_message list"
  ringbuffer_head :: int
  ringbuffer_tail :: "nat \<Rightarrow> int"
  close_testing :: bool

definition free_block :: "memory_block \<Rightarrow> memory_block option" where
  "free_block b = (case b of Null \<Rightarrow> Some Null | Block bs \<Rightarrow> Some Freed | Freed \<Rightarrow> None)"

definition next_slot :: "int \<Rightarrow> int" where
  "next_slot i = (if i = int MAX_MESSAGE_QUEUE - 1 then 0 else i + 1)"

definition behind :: "mirror \<Rightarrow> nat \<Rightarrow> int" where
  "behind m a = (ringbuffer_head m - ringbuffer_tail m a) AND (int MAX_MESSAGE_QUEUE - 1)"

definition destroy_all :: "a_message list \<Rightarrow> a_message list option" where
  "destroy_all r = those (map (\<lambda>x. map_option (\<lambda>b. x\<lparr>payload := b\<rparr>) (free_block (payload x))) r)"

section \<open>A connection is writable\<close>

text \<open>
  The frame is built in place in the message. The result of the write is an \<open>int\<close> and is compared with a \<open>size_t\<close>: as
  an unsigned number.
\<close>

partial_function (option) mirror_write ::
  "'e server \<Rightarrow> nat \<Rightarrow> mirror \<times> 'e lws \<Rightarrow> (int \<times> mirror \<times> 'e lws) option" where
  "mirror_write sv a s =
     (case s of (m, ctx, e) \<Rightarrow>
        if ringbuffer_tail m a = ringbuffer_head m then Some (0, m, ctx, e)
        else
          Option.bind (conns ctx a) (\<lambda>c.
            Option.bind (get_at (ringbuffer m) (ringbuffer_tail m a)) (\<lambda>x.
              case payload x of
                Block mem \<Rightarrow>
                  Option.bind (libwebsocket_write (conn_ops sv (conn_extensions ctx a) (ws c)) mem LWS_SEND_BUFFER_PRE_PADDING
                       (msg_len x) LWS_WRITE_TEXT (ws c, e)) (\<lambda>(n, mem, w, e).
                    Option.bind (set_at (ringbuffer m) (ringbuffer_tail m a) (x\<lparr>payload := Block mem\<rparr>)) (\<lambda>r.
                      let m = m\<lparr>ringbuffer := r\<rparr>; ctx = set_ws a w ctx
                      in if (word_of_int n :: u32) < word_of_nat (msg_len x) then Some (-1, m, ctx, e)
                         else
                           let m = m\<lparr>ringbuffer_tail := (ringbuffer_tail m)(a := next_slot (ringbuffer_tail m a))\<rparr>
                           in Option.bind
                                (if behind m a = int MAX_MESSAGE_QUEUE - 15
                                 then libwebsocket_rx_flow_allow_all_protocol (protocol_index (protocol w)) (ctx, e)
                                 else Some (ctx, e)) (\<lambda>(ctx, e).
                                let (full, e) = choked (base_ops sv) e
                                in if full then
                                     Option.bind (conns ctx a) (\<lambda>c.
                                       let (w, e) = snd (libwebsocket_callback_on_writable
                                             (conn_ops sv (conn_extensions ctx a) (ws c)) (ws c, e))
                                       in Some (0, m, set_ws a w ctx, e))
                                   else mirror_write sv a (m, ctx, e))))
              | _ \<Rightarrow> None)))"

section \<open>A message arrives\<close>

text \<open>The labels \<open>choke\<close> and \<open>done\<close>.\<close>

definition mirror_done :: "'e server \<Rightarrow> nat \<Rightarrow> 'e lws \<Rightarrow> 'e lws option" where
  "mirror_done sv a = (\<lambda>(ctx, e).
     do {
       c \<leftarrow> conns ctx a;
       libwebsocket_callback_on_writable_all_protocol sv (protocol_index (protocol (ws c))) (ctx, e) })"

definition mirror_choke :: "'e server \<Rightarrow> nat \<Rightarrow> 'e lws \<Rightarrow> 'e lws option" where
  "mirror_choke sv a = (\<lambda>(ctx, e).
     do {
       c \<leftarrow> conns ctx a;
       mirror_done sv a (set_ws a (libwebsocket_rx_flow_control (ws c) False) ctx, e) })"

text \<open>The new entry: the memory that \<open>malloc\<close> gave is not checked.\<close>

definition mirror_store :: "('e, 'x) net_scheme \<Rightarrow> bytes \<Rightarrow> mirror \<Rightarrow> 'e \<Rightarrow> (mirror \<times> 'e) option" where
  "mirror_store sy inp m e =
     do {
       x \<leftarrow> get_at (ringbuffer m) (ringbuffer_head m);
       _ \<leftarrow> free_block (payload x);
       let (got, e) = malloc_bytes sy (LWS_SEND_BUFFER_PRE_PADDING + length inp + LWS_SEND_BUFFER_POST_PADDING) e
       in do {
         mem \<leftarrow> got;
         mem \<leftarrow> put_at mem LWS_SEND_BUFFER_PRE_PADDING inp;
         r \<leftarrow> set_at (ringbuffer m) (ringbuffer_head m) \<lparr>payload = Block mem, msg_len = length inp\<rparr>;
         Some (m\<lparr>ringbuffer := r, ringbuffer_head := next_slot (ringbuffer_head m)\<rparr>, e) } }"

definition mirror_receive ::
  "'e server \<Rightarrow> ('e, 'x) net_scheme \<Rightarrow> nat \<Rightarrow> bytes \<Rightarrow> mirror \<times> 'e lws \<Rightarrow> (mirror \<times> 'e lws) option" where
  "mirror_receive sv sy a inp = (\<lambda>(m, ctx, e).
     if behind m a = int MAX_MESSAGE_QUEUE - 1 then do { s \<leftarrow> mirror_choke sv a (ctx, e); Some (m, s) }
     else do {
       (m, e) \<leftarrow> mirror_store sy inp m e;
       s \<leftarrow> (if behind m a \<noteq> int MAX_MESSAGE_QUEUE - 2 then mirror_done sv a (ctx, e) else mirror_choke sv a (ctx, e));
       Some (m, s) })"

section \<open>The callback\<close>

definition callback_lws_mirror ::
  "'e server \<Rightarrow> ('e, 'x) net_scheme \<Rightarrow> (bytes \<Rightarrow> 'e \<Rightarrow> 'e) \<Rightarrow> bytes \<Rightarrow> nat \<Rightarrow> cb_reason \<Rightarrow> bytes \<Rightarrow> mirror \<times> 'e lws \<Rightarrow>
     (int \<times> mirror \<times> 'e lws) option" where
  "callback_lws_mirror sv sy fprintf b a reason inp = (\<lambda>(m, ctx, e).
     (case reason of
        LWS_CALLBACK_ESTABLISHED \<Rightarrow>
          Some (0, m\<lparr>ringbuffer_tail := (ringbuffer_tail m)(a := ringbuffer_head m)\<rparr>, ctx, e)
      | LWS_CALLBACK_PROTOCOL_DESTROY \<Rightarrow> do { r \<leftarrow> destroy_all (ringbuffer m); Some (0, m\<lparr>ringbuffer := r\<rparr>, ctx, e) }
      | LWS_CALLBACK_SERVER_WRITEABLE \<Rightarrow> if close_testing m then Some (0, m, ctx, e) else mirror_write sv a (m, ctx, e)
      | LWS_CALLBACK_RECEIVE \<Rightarrow> do { s \<leftarrow> mirror_receive sv sy a inp (m, ctx, e); Some (0, s) }
      | LWS_CALLBACK_FILTER_PROTOCOL_CONNECTION \<Rightarrow>
          do { c \<leftarrow> conns ctx a; e \<leftarrow> dump_handshake_info fprintf (ah (hdr c)) b e; Some (0, m, ctx, e) }
      | _ \<Rightarrow> Some (0, m, ctx, e)))"

end
