(* ===== verification/Mirror_Ring.thy ===== *)
theory Mirror_Ring
  imports Mirror Context_Runs Server_Write
begin

text \<open>
  The ring of the mirror protocol as a queue for every session: a message is queued for all of them, except for one that
  is 31 messages behind, which loses all it has; a session that may write gets its queue in order.
\<close>

section \<open>The queue of a session\<close>

lemma behind_mod: "behind m a = (ringbuffer_head m - ringbuffer_tail m a) mod 32"
proof -
  have "x AND 31 = x mod 32" for x :: int
    using take_bit_eq_mask [of 5 x] by (simp add: take_bit_eq_mod mask_eq_exp_minus_1)
  then show ?thesis by (simp add: behind_def)
qed

lemma behind_bounds: "0 \<le> behind m a" "behind m a < 32"
  by (simp_all add: behind_mod)

definition message :: "a_message \<Rightarrow> bytes" where
  "message x = (case payload x of Block mem \<Rightarrow> take (msg_len x) (drop LWS_SEND_BUFFER_PRE_PADDING mem) | _ \<Rightarrow> [])"

definition slot_full :: "a_message \<Rightarrow> bool" where
  "slot_full x \<longleftrightarrow> (\<exists>A P Z. payload x = Block (A @ P @ Z) \<and> length A = LWS_SEND_BUFFER_PRE_PADDING \<and> msg_len x = length P \<and>
     P \<noteq> [] \<and> length P < 2 ^ 31)"

definition slot :: "mirror \<Rightarrow> nat \<Rightarrow> nat \<Rightarrow> nat" where
  "slot m a i = nat ((ringbuffer_tail m a + int i) mod 32)"

definition queue :: "mirror \<Rightarrow> nat \<Rightarrow> bytes list" where
  "queue m a = map (\<lambda>i. message (ringbuffer m ! slot m a i)) [0..<nat (behind m a)]"

lemma length_queue [simp]: "length (queue m a) = nat (behind m a)"
  by (simp add: queue_def)

text \<open>\<open>S\<close> are the sessions of the protocol.\<close>

definition ring_ok :: "nat set \<Rightarrow> mirror \<Rightarrow> bool" where
  "ring_ok S m \<longleftrightarrow> length (ringbuffer m) = 32 \<and> 0 \<le> ringbuffer_head m \<and> ringbuffer_head m < 32 \<and>
     (\<forall>x \<in> set (ringbuffer m). payload x \<noteq> Freed) \<and>
     (\<forall>a \<in> S. 0 \<le> ringbuffer_tail m a \<and> ringbuffer_tail m a < 32 \<and>
        (\<forall>i < nat (behind m a). slot_full (ringbuffer m ! slot m a i)))"

lemma slot_less [simp]: "slot m a i < 32"
  by (simp add: slot_def nat_less_iff)

lemma next_slot_mod: "0 \<le> i \<Longrightarrow> i < 32 \<Longrightarrow> next_slot i = (i + 1) mod 32"
  by (auto simp: next_slot_def)

lemma message_eq: "payload x = Block (A @ P @ Z) \<Longrightarrow> length A = LWS_SEND_BUFFER_PRE_PADDING \<Longrightarrow> msg_len x = length P \<Longrightarrow> message x = P"
  by (simp add: message_def)

lemma slot_full_block:
  "payload x = Block (A @ P @ Z) \<Longrightarrow> length A = LWS_SEND_BUFFER_PRE_PADDING \<Longrightarrow> msg_len x = length P \<Longrightarrow> P \<noteq> [] \<Longrightarrow>
     length P < 2 ^ 31 \<Longrightarrow> slot_full x"
  unfolding slot_full_def by blast

section \<open>A message is stored\<close>

lemma store_queues:
  assumes "ring_ok S m" "malloc_bytes sy (LWS_SEND_BUFFER_PRE_PADDING + length P + LWS_SEND_BUFFER_POST_PADDING) e = (Some mem, e')"
    and "length mem = LWS_SEND_BUFFER_PRE_PADDING + length P + LWS_SEND_BUFFER_POST_PADDING" "P \<noteq> []" "length P < 2 ^ 31"
  shows "\<exists>m'. mirror_store sy P m e = Some (m', e') \<and> ring_ok S m' \<and> close_testing m' = close_testing m \<and>
    (\<forall>b \<in> S. queue m' b = (if length (queue m b) = 31 then [] else queue m b @ [P]))"
proof -
  let ?h = "ringbuffer_head m" and ?p = "LWS_SEND_BUFFER_PRE_PADDING"
  let ?x = "\<lparr>payload = Block (take ?p mem @ P @ drop (?p + length P) mem), msg_len = length P\<rparr>"
  let ?m = "m\<lparr>ringbuffer := (ringbuffer m)[nat ?h := ?x], ringbuffer_head := next_slot ?h\<rparr>"
  have r: "length (ringbuffer m) = 32" "0 \<le> ?h" "?h < 32" "\<forall>x \<in> set (ringbuffer m). payload x \<noteq> Freed"
    "\<And>a. a \<in> S \<Longrightarrow> 0 \<le> ringbuffer_tail m a \<and> ringbuffer_tail m a < 32 \<and>
       (\<forall>i < nat (behind m a). slot_full (ringbuffer m ! slot m a i))"
    using assms(1) by (auto simp: ring_ok_def)
  have h: "nat ?h < length (ringbuffer m)" using r(1-3) by simp
  have "payload (ringbuffer m ! nat ?h) \<noteq> Freed" using r(4) h by simp
  then have "free_block (payload (ringbuffer m ! nat ?h)) \<noteq> None" by (simp add: free_block_def split: memory_block.split)
  then have store: "mirror_store sy P m e = Some (?m, e')"
    using assms(2,3) h r(2) by (auto simp: mirror_store_def get_at_nth set_at_update put_at_def)
  have x: "slot_full ?x" "message ?x = P"
    using assms(3-5) by (auto simp: message_def intro: slot_full_block)
  have slot: "slot ?m b i = slot m b i" for b i by (simp add: slot_def)
  have beh: "behind ?m b = (behind m b + 1) mod 32" for b
    using next_slot_mod [OF r(2,3)] by (simp add: behind_mod mod_simps algebra_simps)
  have at_head: "slot m b (nat (behind m b)) = nat ?h" for b
    using behind_bounds [of m b] r(2,3) by (simp add: slot_def behind_mod mod_simps)
  have other: "slot m b i \<noteq> nat ?h" if "i < nat (behind m b)" for b i
  proof
    assume "slot m b i = nat ?h"
    then have "(ringbuffer_tail m b + int i) mod 32 = (ringbuffer_tail m b + behind m b) mod 32"
      using at_head [of b] behind_bounds(1) [of m b] by (simp add: slot_def eq_nat_nat_iff)
    then have "(int i - behind m b) mod 32 = 0" by (simp add: mod_eq_dvd_iff algebra_simps)
    moreover have "- 32 < int i - behind m b" "int i - behind m b < 0" using that behind_bounds [of m b] by auto
    ultimately show False by presburger
  qed
  have q: "queue ?m b = (if length (queue m b) = 31 then [] else queue m b @ [P])" for b
  proof (cases "behind m b = 31")
    case True
    then show ?thesis using beh [of b] by (simp add: queue_def)
  next
    case False
    then have b: "behind ?m b = behind m b + 1" using beh [of b] behind_bounds [of m b] by simp
    then have n: "nat (behind ?m b) = Suc (nat (behind m b))" using behind_bounds(1) [of m b] by simp
    have "message (ringbuffer ?m ! slot ?m b i) = message (ringbuffer m ! slot m b i)" if "i < nat (behind m b)" for i
      using other [OF that] slot by (simp add: nth_list_update)
    moreover have "message (ringbuffer ?m ! slot ?m b (nat (behind m b))) = P"
      using at_head [of b] slot h x(2) by simp
    ultimately have "queue ?m b = queue m b @ [P]" unfolding queue_def n by simp
    then show ?thesis using False by simp
  qed
  have "ring_ok S ?m"
  proof -
    have "next_slot ?h = (?h + 1) mod 32" by (rule next_slot_mod [OF r(2,3)])
    moreover have "slot_full (ringbuffer ?m ! slot ?m b i)" if "b \<in> S" "i < nat (behind ?m b)" for b i
    proof (cases "slot m b i = nat ?h")
      case True
      then show ?thesis using slot h x(1) by simp
    next
      case False
      have "i < nat (behind m b) \<or> i = nat (behind m b)"
        using that(2) beh [of b] behind_bounds [of m b] by (cases "behind m b = 31") auto
      then have "i < nat (behind m b)" using False at_head [of b] by auto
      then show ?thesis using r(5) [OF that(1)] False slot by (simp add: nth_list_update)
    qed
    moreover have "\<forall>x \<in> set ((ringbuffer m)[nat ?h := ?x]). payload x \<noteq> Freed"
      using r(4) set_update_subset_insert [of "ringbuffer m" "nat ?h" ?x] by auto
    ultimately show ?thesis using r by (simp add: ring_ok_def)
  qed
  then show ?thesis using store q by (intro exI [of _ ?m]) simp
qed

section \<open>All connections of the protocol\<close>

text \<open>What requests to all connections leave alone: only flow control and the polled events change.\<close>

definition kin :: "wsi \<Rightarrow> wsi \<Rightarrow> bool" where
  "kin w w' \<longleftrightarrow> same_place w w' \<and> protocol w' = protocol w \<and> (ready_to_write w \<longrightarrow> ready_to_write w')"

lemma kin_refl [simp]: "kin w w"
  by (simp add: kin_def)

lemma kin_trans: "kin w w' \<Longrightarrow> kin w' w'' \<Longrightarrow> kin w w''"
  by (auto simp: kin_def same_place_def)

text \<open>The context goes on being fine, with every connection kin to what it was.\<close>

definition ctx_kin :: "'e lws_context \<Rightarrow> 'e lws_context \<Rightarrow> bool" where
  "ctx_kin ctx ctx' \<longleftrightarrow> table_inv ctx' \<and> polled ctx' = polled ctx \<and> conn_extensions ctx' = conn_extensions ctx \<and>
     fds_count ctx' = fds_count ctx \<and>
     (\<forall>b c. conns ctx b = Some c \<longrightarrow> (\<exists>c'. conns ctx' b = Some c' \<and> kin (ws c) (ws c')))"

lemma ctx_kin_refl: "table_inv ctx \<Longrightarrow> ctx_kin ctx ctx"
  by (simp add: ctx_kin_def)

lemma ctx_kin_trans: "ctx_kin ctx ctx' \<Longrightarrow> ctx_kin ctx' ctx'' \<Longrightarrow> ctx_kin ctx ctx''"
  unfolding ctx_kin_def using kin_trans by (metis (no_types, lifting))

lemma ctx_kin_set_ws:
  assumes "table_inv ctx" "a \<in> polled ctx" "conns ctx a = Some c" "kin (ws c) w"
  shows "ctx_kin ctx (set_ws a w ctx)"
proof -
  have "same_place (ws c) w" using assms(4) by (simp add: kin_def)
  from set_ws_keeps [OF assms(1-3) this] show ?thesis using assms(3,4) by (simp add: ctx_kin_def)
qed

lemma each_kin:
  assumes "\<And>w e. kin w (fst (f (w, e) [])) \<and> acc (snd (f (w, e) [])) = acc e"
    and "table_inv ctx" "\<forall>b. conn_extensions ctx b = []" "\<forall>n \<in> set ns. 0 \<le> n \<and> n < fds_count ctx"
  shows "\<exists>ctx' e'. each_of_protocol f p ns (ctx, e) = Some (ctx', e') \<and> ctx_kin ctx ctx' \<and> acc e' = acc e"
  using assms(2-4)
proof (induction ns arbitrary: ctx e)
  case Nil
  then show ?case by (simp add: ctx_kin_refl)
next
  case (Cons n ns)
  obtain fd a c where t: "get_at (fds ctx) n = Some fd" "get_at (lws_lookup ctx) fd = Some (Some a)" "conns ctx a = Some c" "a \<in> polled ctx"
    using table_lookup [OF Cons.prems(1)] Cons.prems(3) by fastforce
  show ?case
  proof (cases "protocol_index (protocol (ws c)) = p")
    case False
    have "\<forall>n \<in> set ns. 0 \<le> n \<and> n < fds_count ctx" using Cons.prems(3) by simp
    from Cons.IH [OF Cons.prems(1,2) this, of e] show ?thesis using t False by simp
  next
    case True
    obtain w e1 where w: "f (ws c, e) [] = (w, e1)" by fastforce
    then have k: "kin (ws c) w" "acc e1 = acc e" using assms(1) [of "ws c" e] by simp_all
    note ck = ctx_kin_set_ws [OF Cons.prems(1) t(4,3) k(1)]
    have "table_inv (set_ws a w ctx)" "\<forall>b. conn_extensions (set_ws a w ctx) b = []"
      "\<forall>n \<in> set ns. 0 \<le> n \<and> n < fds_count (set_ws a w ctx)"
      using ck Cons.prems(2,3) by (simp_all add: ctx_kin_def)
    from Cons.IH [OF this, of e1] show ?thesis using t w True Cons.prems(2) k(2) ctx_kin_trans [OF ck] by auto
  qed
qed

text \<open>A server whose socket takes what is sent, with a mirror of its table that sends nothing.\<close>

definition mirror_host :: "'e server \<Rightarrow> ('e \<Rightarrow> bytes) \<Rightarrow> bool" where
  "mirror_host sv acc \<longleftrightarrow> mirror_quiet sv \<and> (\<forall>r f w e. acc (snd (poll_callback (base_ops sv) r f (w, e))) = acc e) \<and>
     (\<forall>e. acc (snd (choked (base_ops sv) e)) = acc e) \<and>
     (\<exists>sent. takes_all (base_ops sv) sent \<and> (\<forall>bs e. acc (sent bs e) = acc e @ bs))"

lemma on_writable_kin:
  assumes "mirror_host sv acc"
  shows "\<exists>w' e'. libwebsocket_callback_on_writable (conn_ops sv [] v) (w, e) = (if position_in_fds_table w < 0 then -1 else 1, w', e') \<and>
    kin w w' \<and> acc e' = acc e \<and> (0 \<le> position_in_fds_table w \<longrightarrow> events_POLLOUT w')"
proof (cases "position_in_fds_table w < 0")
  case True
  then show ?thesis by (simp add: libwebsocket_callback_on_writable_def conn_ops_def)
next
  case False
  let ?w = "w\<lparr>events_POLLOUT := True\<rparr>"
  have q: "mirror_quiet sv" using assms by (simp add: mirror_host_def)
  obtain e' where p: "poll_callback (base_ops sv) LWS_CALLBACK_SET_MODE_POLL_FD POLLOUT (?w, e) = (?w, e')"
    using mirror_quiet_D [OF q] by blast
  have "acc e' = acc e" using assms p unfolding mirror_host_def by (metis snd_conv)
  moreover have "kin w ?w" by (simp add: kin_def ready_to_write_def)
  ultimately show ?thesis using False p by (simp add: libwebsocket_callback_on_writable_def conn_ops_def)
qed

lemma done_kin:
  assumes "mirror_host sv acc" "table_inv ctx" "\<forall>b. conn_extensions ctx b = []" "conns ctx a = Some c"
  shows "\<exists>ctx' e'. mirror_done sv a (ctx, e) = Some (ctx', e') \<and> ctx_kin ctx ctx' \<and> acc e' = acc e"
proof -
  let ?f = "\<lambda>s exts. snd (libwebsocket_callback_on_writable (conn_ops sv exts (fst s)) s)"
  have f: "kin w (fst (?f (w, e) [])) \<and> acc (snd (?f (w, e) [])) = acc e" for w e
  proof -
    obtain w' e' where "libwebsocket_callback_on_writable (conn_ops sv [] w) (w, e) = (if position_in_fds_table w < 0 then -1 else 1, w', e')"
      "kin w w'" "acc e' = acc e"
      using on_writable_kin [OF assms(1), of w w e] by blast
    then show ?thesis by simp
  qed
  have n: "\<forall>n \<in> set [0..fds_count ctx - 1]. 0 \<le> n \<and> n < fds_count ctx" by auto
  show ?thesis
    using each_kin [of ?f acc, OF f assms(2,3) n, of "protocol_index (protocol (ws c))" e] assms(4)
    by (simp add: mirror_done_def libwebsocket_callback_on_writable_all_protocol_def)
qed

lemma flow_kin: "kin w (libwebsocket_rx_flow_control w b)"
  by (simp add: libwebsocket_rx_flow_control_def kin_def ready_to_write_def)

lemma choke_kin:
  assumes "mirror_host sv acc" "table_inv ctx" "\<forall>b. conn_extensions ctx b = []" "conns ctx a = Some c" "a \<in> polled ctx"
  shows "\<exists>ctx' e'. mirror_choke sv a (ctx, e) = Some (ctx', e') \<and> ctx_kin ctx ctx' \<and> acc e' = acc e"
proof -
  let ?w = "libwebsocket_rx_flow_control (ws c) False"
  note k = ctx_kin_set_ws [OF assms(2,5,4) flow_kin [of "ws c" False]]
  have "table_inv (set_ws a ?w ctx)" "\<forall>b. conn_extensions (set_ws a ?w ctx) b = []" "conns (set_ws a ?w ctx) a = Some (c\<lparr>ws := ?w\<rparr>)"
    using k assms(3,4) by (simp_all add: ctx_kin_def)
  from done_kin [OF assms(1) this, of e] show ?thesis
    using ctx_kin_trans [OF k] assms(4) by (auto simp: mirror_choke_def)
qed

lemma allow_kin:
  assumes "table_inv ctx" "\<forall>b. conn_extensions ctx b = []"
  shows "\<exists>ctx' e'. libwebsocket_rx_flow_allow_all_protocol p (ctx, e) = Some (ctx', e') \<and> ctx_kin ctx ctx' \<and> acc e' = acc e"
proof -
  let ?f = "\<lambda>(w, e) exts. (libwebsocket_rx_flow_control w True, e)"
  have f: "kin w (fst (?f (w, e) [])) \<and> acc (snd (?f (w, e) [])) = acc e" for w e
    by (simp add: flow_kin)
  have n: "\<forall>n \<in> set [0..fds_count ctx - 1]. 0 \<le> n \<and> n < fds_count ctx" by auto
  show ?thesis
    using each_kin [of ?f acc, OF f assms n, of p e] by (simp add: libwebsocket_rx_flow_allow_all_protocol_def)
qed

section \<open>One message is sent\<close>

text \<open>The ring after the first message of \<open>a\<close> went out; the padding before it holds the header of the frame.\<close>

definition sent_one :: "nat \<Rightarrow> bytes \<Rightarrow> mirror \<Rightarrow> mirror" where
  "sent_one a mem m = (let t = ringbuffer_tail m a; x = ringbuffer m ! nat t
     in m\<lparr>ringbuffer := (ringbuffer m)[nat t := x\<lparr>payload := Block mem\<rparr>],
          ringbuffer_tail := (ringbuffer_tail m)(a := next_slot t)\<rparr>)"

lemma sent_one_queues:
  assumes "ring_ok S m" "a \<in> S" "behind m a \<noteq> 0" "length A = LWS_SEND_BUFFER_PRE_PADDING"
    and "payload (ringbuffer m ! nat (ringbuffer_tail m a)) = Block (B @ P @ Z)" "length B = LWS_SEND_BUFFER_PRE_PADDING"
    and "msg_len (ringbuffer m ! nat (ringbuffer_tail m a)) = length P" "P \<noteq> []" "length P < 2 ^ 31"
  shows "ring_ok S (sent_one a (A @ P @ Z) m)" "queue m a = P # queue (sent_one a (A @ P @ Z) m) a"
    "b \<noteq> a \<Longrightarrow> queue (sent_one a (A @ P @ Z) m) b = queue m b"
    "ringbuffer_head (sent_one a (A @ P @ Z) m) = ringbuffer_head m"
proof -
  let ?m = "sent_one a (A @ P @ Z) m" and ?t = "ringbuffer_tail m a"
  have r: "length (ringbuffer m) = 32" "0 \<le> ringbuffer_head m" "ringbuffer_head m < 32" "\<forall>x \<in> set (ringbuffer m). payload x \<noteq> Freed"
    "0 \<le> ?t" "?t < 32" "\<And>b. b \<in> S \<Longrightarrow> 0 \<le> ringbuffer_tail m b \<and> ringbuffer_tail m b < 32 \<and>
       (\<forall>i < nat (behind m b). slot_full (ringbuffer m ! slot m b i))"
    using assms(1,2) by (auto simp: ring_ok_def)
  let ?x = "(ringbuffer m ! nat ?t)\<lparr>payload := Block (A @ P @ Z)\<rparr>"
  have m: "ringbuffer ?m = (ringbuffer m)[nat ?t := ?x]" "ringbuffer_head ?m = ringbuffer_head m"
    "ringbuffer_tail ?m b = (if b = a then next_slot ?t else ringbuffer_tail m b)" for b
    by (simp_all add: sent_one_def Let_def)
  then show "ringbuffer_head ?m = ringbuffer_head m" by simp
  have t: "nat ?t < length (ringbuffer m)" using r(1,5,6) by simp
  have x: "slot_full ?x" "message ?x = message (ringbuffer m ! nat ?t)" "message ?x = P"
    using assms(4-9) message_eq [of "ringbuffer m ! nat ?t" B P Z]
    by (auto intro!: slot_full_block message_eq)
  have msg: "message (ringbuffer ?m ! i) = message (ringbuffer m ! i)" for i
    using x(2) m(1) by (cases "i = nat ?t") (simp_all add: nth_list_update t)
  have full: "slot_full (ringbuffer m ! i) \<Longrightarrow> slot_full (ringbuffer ?m ! i)" for i
    using x(1) m(1) by (cases "i = nat ?t") (simp_all add: nth_list_update t)
  have other: "slot ?m b i = slot m b i" "behind ?m b = behind m b" if "b \<noteq> a" for b i
    using m that by (simp_all add: slot_def behind_def)
  show "queue ?m b = queue m b" if "b \<noteq> a" for b
    using other [OF that] msg by (simp add: queue_def)
  have nx: "next_slot ?t = (?t + 1) mod 32" by (rule next_slot_mod [OF r(5,6)])
  have beh: "behind ?m a = behind m a - 1"
  proof -
    have "behind ?m a = (behind m a - 1) mod 32" using nx m by (simp add: behind_mod mod_simps algebra_simps)
    then show ?thesis using behind_bounds [of m a] assms(3) by simp
  qed
  have slot: "slot ?m a i = slot m a (Suc i)" for i
    using nx m by (simp add: slot_def mod_simps algebra_simps)
  have n: "nat (behind m a) = Suc (nat (behind ?m a))" using beh behind_bounds [of m a] assms(3) by simp
  have "slot m a 0 = nat ?t" using r(5,6) by (simp add: slot_def)
  then show "queue m a = P # queue ?m a"
    using x(2,3) msg slot unfolding queue_def n map_upt_Suc by simp
  have "0 \<le> ringbuffer_tail ?m b \<and> ringbuffer_tail ?m b < 32 \<and> (\<forall>i < nat (behind ?m b). slot_full (ringbuffer ?m ! slot ?m b i))"
    if "b \<in> S" for b
  proof (cases "b = a")
    case True
    then show ?thesis using r(7) [OF assms(2)] full slot n m(3) [of a] nx by auto
  next
    case False
    then show ?thesis using r(7) [OF that] full other m(3) [of b] by simp
  qed
  moreover have "\<forall>x \<in> set (ringbuffer ?m). payload x \<noteq> Freed"
    using r(4) set_update_subset_insert [of "ringbuffer m" "nat ?t" ?x] unfolding m(1) by auto
  ultimately show "ring_ok S ?m" using r(1-3) m(1,2) by (simp add: ring_ok_def)
qed

end
