(* ===== verification/Mirror_Properties.thy ===== *)
theory Mirror_Properties
  imports Mirror_Ring Login_Properties
begin

text \<open>
  The properties of the mirror protocol: its ring is a queue for every session, which receiving a message appends to
  and being writable sends from.
\<close>

section \<open>A ring with one session\<close>

lemma demo_host: "mirror_host demo_login (\<lambda>e. e)"
proof -
  have "takes_all (base_ops demo_login) (\<lambda>b e. e @ b)" by (simp add: takes_all_def demo_login_def log_ops_def)
  then show ?thesis
    using login_quiet unfolding mirror_host_def quiet_server_def by (auto simp: demo_login_def log_ops_def)
qed

definition demo_ring :: "a_message list \<Rightarrow> mirror" where
  "demo_ring xs = \<lparr>ringbuffer = xs @ replicate (32 - length xs) \<lparr>payload = Null, msg_len = 0\<rparr>,
     ringbuffer_head = int (length xs), ringbuffer_tail = (\<lambda>a. 0), close_testing = False\<rparr>"

definition demo_message :: a_message where
  "demo_message = \<lparr>payload = Block (replicate 18 0 @ ascii ''hello'' @ []), msg_len = 5\<rparr>"

lemma demo_message_full: "slot_full demo_message"
  by (rule slot_full_block [where A = "replicate 18 0" and P = "ascii ''hello''" and Z = "[]"])
    (simp_all add: demo_message_def LWS_SEND_BUFFER_PRE_PADDING_def ascii_def)

lemma demo_ring_ok: "xs = [] \<or> xs = [demo_message] \<Longrightarrow> ring_ok {1} (demo_ring xs)"
  using demo_message_full by (auto simp: ring_ok_def demo_ring_def behind_mod slot_def demo_message_def)

lemma demo_page_open: "table_inv (demo_context demo_page)" "1 \<in> polled (demo_context demo_page)"
  "conns (demo_context demo_page) 1 = Some demo_page" "conn_extensions (demo_context demo_page) b = []"
  "ready_to_write (ws demo_page)"
  using demo_table [of demo_page]
  by (simp_all add: demo_page_def new_wsi_def demo_context_def ready_to_write_def)

section \<open>Receiving\<close>

text \<open>C11: a message is queued for every session of the protocol, the sender's own included, unless the sender itself
  has 31 messages waiting: then it is dropped. Another session that has 31 messages waiting loses all
  of them and does not get this one either. Nothing is sent yet, and the ring stays well-formed.\<close>

theorem mirror_message_queued:
  assumes "mirror_host sv acc" "table_inv ctx" "\<forall>b. conn_extensions ctx b = []" "conns ctx a = Some c" "a \<in> polled ctx"
    and "\<forall>n e. \<exists>mem e'. malloc_bytes sy n e = (Some mem, e') \<and> length mem = n \<and> acc e' = acc e"
    and "ring_ok S m" "a \<in> S" "P \<noteq> []" "length P < 2 ^ 31"
  shows "\<exists>m' ctx' e'. callback_lws_mirror sv sy fprintf b a LWS_CALLBACK_RECEIVE P (m, ctx, e) = Some (0, m', ctx', e') \<and>
    ring_ok S m' \<and> ctx_kin ctx ctx' \<and> acc e' = acc e \<and>
    (\<forall>s \<in> S. queue m' s = (if length (queue m a) = 31 then queue m s
                              else if length (queue m s) = 31 then [] else queue m s @ [P]))"
proof (cases "behind m a = 31")
  case True
  obtain ctx' e' where "mirror_choke sv a (ctx, e) = Some (ctx', e')" "ctx_kin ctx ctx'" "acc e' = acc e"
    using choke_kin [OF assms(1-5), of e] by blast
  then show ?thesis using True assms(7) by (simp add: callback_lws_mirror_def mirror_receive_def)
next
  case False
  obtain mem e1 where mem: "malloc_bytes sy (LWS_SEND_BUFFER_PRE_PADDING + length P + LWS_SEND_BUFFER_POST_PADDING) e = (Some mem, e1)"
    "length mem = LWS_SEND_BUFFER_PRE_PADDING + length P + LWS_SEND_BUFFER_POST_PADDING" "acc e1 = acc e"
    using assms(6) by blast
  obtain m' where m': "mirror_store sy P m e = Some (m', e1)" "ring_ok S m'"
    "\<forall>b \<in> S. queue m' b = (if length (queue m b) = 31 then [] else queue m b @ [P])"
    using store_queues [OF assms(7) mem(1,2) assms(9,10)] by blast
  have "\<exists>ctx' e'. (if behind m' a \<noteq> 30 then mirror_done sv a (ctx, e1) else mirror_choke sv a (ctx, e1)) = Some (ctx', e') \<and>
      ctx_kin ctx ctx' \<and> acc e' = acc e1"
    using done_kin [OF assms(1-4), of e1] choke_kin [OF assms(1-5), of e1] by (cases "behind m' a = 30") simp_all
  then obtain ctx' e' where "(if behind m' a \<noteq> 30 then mirror_done sv a (ctx, e1) else mirror_choke sv a (ctx, e1)) = Some (ctx', e')"
    "ctx_kin ctx ctx'" "acc e' = acc e1"
    by blast
  moreover have "length (queue m a) \<noteq> 31" using False behind_bounds [of m a] by simp
  ultimately show ?thesis
    using False m' mem(3) by (simp add: callback_lws_mirror_def mirror_receive_def)
qed

theorem mirror_message_queued_witness:
  "\<exists>m' ctx' e'. callback_lws_mirror demo_login log_net (\<lambda>b e. e) [] 1 LWS_CALLBACK_RECEIVE (ascii ''hello'')
      (demo_ring [], demo_context demo_page, []) = Some (0, m', ctx', e') \<and>
    ring_ok {1} m' \<and> ctx_kin (demo_context demo_page) ctx' \<and> e' = [] \<and>
    (\<forall>s \<in> {1}. queue m' s = (if length (queue (demo_ring []) 1) = 31 then queue (demo_ring []) s
                              else if length (queue (demo_ring []) s) = 31 then [] else queue (demo_ring []) s @ [ascii ''hello'']))"
  by (rule mirror_message_queued [OF demo_host demo_page_open(1) _ demo_page_open(3,2) _ demo_ring_ok])
    (simp_all add: demo_page_open log_net_def ascii_def)

section \<open>Sending\<close>

lemma write_queue:
  assumes "mirror_host sv acc" "ring_ok S m" "a \<in> S" "table_inv ctx" "\<forall>b. conn_extensions ctx b = []"
    and "conns ctx a = Some c" "a \<in> polled ctx" "ready_to_write (ws c)"
  shows "\<exists>k m' ctx' e'. mirror_write sv a (m, ctx, e) = Some (0, m', ctx', e') \<and>
    acc e' = acc e @ concat (map (server_frame LWS_WRITE_TEXT) (take k (queue m a))) \<and>
    queue m' a = drop k (queue m a) \<and> (queue m a \<noteq> [] \<longrightarrow> 0 < k) \<and>
    (queue m' a \<noteq> [] \<longrightarrow> (\<exists>c'. conns ctx' a = Some c' \<and> events_POLLOUT (ws c'))) \<and>
    (\<forall>s \<in> S. s \<noteq> a \<longrightarrow> queue m' s = queue m s) \<and> ring_ok S m' \<and> ctx_kin ctx ctx'"
  using assms(2,4-8)
proof (induction "length (queue m a)" arbitrary: m ctx e c)
  case 0
  have r: "0 \<le> ringbuffer_head m" "ringbuffer_head m < 32" "0 \<le> ringbuffer_tail m a" "ringbuffer_tail m a < 32"
    using 0(2) assms(3) by (auto simp: ring_ok_def)
  have "behind m a = 0" using 0(1) behind_bounds [of m a] by simp
  then have "ringbuffer_tail m a = ringbuffer_head m" using r unfolding behind_mod by presburger
  then have "mirror_write sv a (m, ctx, e) = Some (0, m, ctx, e)" by (subst mirror_write.simps) simp
  moreover have "queue m a = []" using 0(1) by (metis length_0_conv)
  ultimately show ?case using 0 by (intro exI [of _ 0]) (simp add: ctx_kin_refl)
next
  case (Suc n)
  have b: "behind m a \<noteq> 0" using Suc(2) by auto
  then have ne: "ringbuffer_tail m a \<noteq> ringbuffer_head m" by (auto simp: behind_mod)
  have t: "0 \<le> ringbuffer_tail m a" "ringbuffer_tail m a < 32" "length (ringbuffer m) = 32"
    "slot_full (ringbuffer m ! slot m a 0)"
    using Suc.prems(1) assms(3) b behind_bounds [of m a] by (auto simp: ring_ok_def)
  let ?t = "ringbuffer_tail m a" and ?x = "ringbuffer m ! nat (ringbuffer_tail m a)"
  have "slot m a 0 = nat ?t" using t(1,2) by (simp add: slot_def)
  then obtain B P Z where x: "payload ?x = Block (B @ P @ Z)" "length B = LWS_SEND_BUFFER_PRE_PADDING" "msg_len ?x = length P"
    "P \<noteq> []" "length P < 2 ^ 31"
    using t(4) by (auto simp: slot_full_def)
  obtain sent where sent: "takes_all (base_ops sv) sent" "\<And>bs e. acc (sent bs e) = acc e @ bs"
    using assms(1) unfolding mirror_host_def by blast
  have all: "takes_all (conn_ops sv [] v) sent" for v using sent(1) by (simp add: takes_all_def conn_ops_def)
  obtain A where A: "length A = LWS_SEND_BUFFER_PRE_PADDING"
    "libwebsocket_write (conn_ops sv [] (ws c)) (B @ P @ Z) LWS_SEND_BUFFER_PRE_PADDING (length P) LWS_WRITE_TEXT (ws c, e) =
      Some (int (length P), A @ P @ Z, (ws c)\<lparr>clean_buffer := \<not> no_buffer_all_partial_tx (protocol (ws c)), inside_frame := False\<rparr>,
        sent (server_frame LWS_WRITE_TEXT P) e)"
    using write_text [OF all Suc.prems(6) x(2,4), of "ws c" Z e] x(2) by auto
  let ?w = "(ws c)\<lparr>clean_buffer := \<not> no_buffer_all_partial_tx (protocol (ws c)), inside_frame := False\<rparr>"
  let ?m = "sent_one a (A @ P @ Z) m" and ?e = "sent (server_frame LWS_WRITE_TEXT P) e" and ?ctx = "set_ws a ?w ctx"
  note q = sent_one_queues [OF Suc.prems(1) assms(3) b A(1) x]
  have "kin (ws c) ?w" by (simp add: kin_def same_place_def ready_to_write_def)
  note k1 = ctx_kin_set_ws [OF Suc.prems(2,5,4) this]
  have "\<exists>ctx2 e2. (if behind ?m a = 17 then libwebsocket_rx_flow_allow_all_protocol (protocol_index (protocol ?w)) (?ctx, ?e)
      else Some (?ctx, ?e)) = Some (ctx2, e2) \<and> ctx_kin ?ctx ctx2 \<and> acc e2 = acc ?e"
  proof (cases "behind ?m a = 17")
    case True
    then show ?thesis using k1 Suc.prems(3) allow_kin [of ?ctx "protocol_index (protocol ?w)" ?e acc] by (simp add: ctx_kin_def)
  next
    case False
    then show ?thesis using k1 ctx_kin_refl [of ?ctx] by (simp add: ctx_kin_def)
  qed
  then obtain ctx2 e2 where fl: "(if behind ?m a = 17 then libwebsocket_rx_flow_allow_all_protocol (protocol_index (protocol ?w)) (?ctx, ?e)
      else Some (?ctx, ?e)) = Some (ctx2, e2)" "ctx_kin ?ctx ctx2" "acc e2 = acc ?e" by blast
  note k2 = ctx_kin_trans [OF k1 fl(2)]
  obtain full e3 where ch: "choked (base_ops sv) e2 = (full, e3)" by fastforce
  have e3: "acc e3 = acc e @ server_frame LWS_WRITE_TEXT P"
    using assms(1) ch fl(3) sent(2) unfolding mirror_host_def by (metis snd_conv)
  obtain c2 where c2: "conns ctx2 a = Some c2" "kin (ws c) (ws c2)" using k2 Suc.prems(4) unfolding ctx_kin_def by blast
  have ctx2: "table_inv ctx2" "\<forall>b. conn_extensions ctx2 b = []" "a \<in> polled ctx2" "ready_to_write (ws c2)"
    using k2 Suc.prems(3,5,6) c2(2) by (auto simp: ctx_kin_def kin_def)
  have step: "mirror_write sv a (m, ctx, e) =
     (if full then
        Option.bind (conns ctx2 a) (\<lambda>c. let (w, e) = snd (libwebsocket_callback_on_writable (conn_ops sv (conn_extensions ctx2 a) (ws c)) (ws c, e3))
          in Some (0, ?m, set_ws a w ctx2, e))
      else mirror_write sv a (?m, ctx2, e3))"
    using ne t(1-3) x A(2) fl(1) ch Suc.prems(3,4)
    by (subst mirror_write.simps) (simp add: get_at_nth set_at_update sent_one_def Let_def)
  show ?case
  proof (cases full)
    case False
    have n: "n = length (queue ?m a)" using Suc(2) q(2) by simp
    from Suc.hyps(1) [OF n q(1) ctx2(1,2) c2(1) ctx2(3,4), of e3]
    obtain k m' ctx' e' where ih: "mirror_write sv a (?m, ctx2, e3) = Some (0, m', ctx', e')"
      "acc e' = acc e3 @ concat (map (server_frame LWS_WRITE_TEXT) (take k (queue ?m a)))"
      "queue m' a = drop k (queue ?m a)"
      "queue m' a \<noteq> [] \<longrightarrow> (\<exists>c'. conns ctx' a = Some c' \<and> events_POLLOUT (ws c'))"
      "\<forall>s \<in> S. s \<noteq> a \<longrightarrow> queue m' s = queue ?m s" "ring_ok S m'" "ctx_kin ctx2 ctx'"
      by blast
    show ?thesis
      using ih step False e3 q(2,3) ctx_kin_trans [OF k2 ih(7)]
      by (intro exI [of _ "Suc k"] exI [of _ m'] exI [of _ ctx'] exI [of _ e']) simp
  next
    case True
    obtain w' e' where w: "libwebsocket_callback_on_writable (conn_ops sv [] (ws c2)) (ws c2, e3) =
        (if position_in_fds_table (ws c2) < 0 then -1 else 1, w', e')"
      "kin (ws c2) w'" "acc e' = acc e3" "0 \<le> position_in_fds_table (ws c2) \<longrightarrow> events_POLLOUT w'"
      using on_writable_kin [OF assms(1), of "ws c2" "ws c2" e3] by blast
    note k3 = ctx_kin_trans [OF k2 ctx_kin_set_ws [OF ctx2(1,3) c2(1) w(2)]]
    have "0 \<le> position_in_fds_table (ws c2)" using ctx2(3) c2(1) by (auto simp: polled_def entry_def)
    then show ?thesis
      using step True w c2(1) ctx2(2) e3 q k3
      by (intro exI [of _ 1] exI [of _ ?m] exI [of _ "set_ws a w' ctx2"] exI [of _ e']) simp
  qed
qed

text \<open>C12: when a session may write, it sends messages from its queue in order, each as one text frame, at least one if there is
  any, and keeps the rest, for which it asks to be called again; the queues of the other sessions are left alone. The
  loop ends.\<close>

theorem mirror_queue_sent:
  assumes "mirror_host sv acc" "ring_ok S m" "a \<in> S" "table_inv ctx" "\<forall>b. conn_extensions ctx b = []"
    and "conns ctx a = Some c" "a \<in> polled ctx" "ready_to_write (ws c)" "\<not> close_testing m"
  shows "\<exists>k m' ctx' e'. callback_lws_mirror sv sy fprintf b a LWS_CALLBACK_SERVER_WRITEABLE inp (m, ctx, e) = Some (0, m', ctx', e') \<and>
    acc e' = acc e @ concat (map (server_frame LWS_WRITE_TEXT) (take k (queue m a))) \<and>
    queue m' a = drop k (queue m a) \<and> (queue m a \<noteq> [] \<longrightarrow> 0 < k) \<and>
    (queue m' a \<noteq> [] \<longrightarrow> (\<exists>c'. conns ctx' a = Some c' \<and> events_POLLOUT (ws c'))) \<and>
    (\<forall>s \<in> S. s \<noteq> a \<longrightarrow> queue m' s = queue m s) \<and> ring_ok S m' \<and> ctx_kin ctx ctx'"
  using write_queue [OF assms(1-8), of e] assms(9) by (simp add: callback_lws_mirror_def)


theorem mirror_queue_sent_witness:
  "\<exists>k m' ctx' e'. callback_lws_mirror demo_login log_net (\<lambda>b e. e) [] 1 LWS_CALLBACK_SERVER_WRITEABLE []
      (demo_ring [demo_message], demo_context demo_page, []) = Some (0, m', ctx', e') \<and>
    e' = [] @ concat (map (server_frame LWS_WRITE_TEXT) (take k (queue (demo_ring [demo_message]) 1))) \<and>
    queue m' 1 = drop k (queue (demo_ring [demo_message]) 1) \<and> (queue (demo_ring [demo_message]) 1 \<noteq> [] \<longrightarrow> 0 < k) \<and>
    (queue m' 1 \<noteq> [] \<longrightarrow> (\<exists>c'. conns ctx' 1 = Some c' \<and> events_POLLOUT (ws c'))) \<and>
    (\<forall>s \<in> {1}. s \<noteq> 1 \<longrightarrow> queue m' s = queue (demo_ring [demo_message]) s) \<and> ring_ok {1} m' \<and>
    ctx_kin (demo_context demo_page) ctx'"
  by (rule mirror_queue_sent [OF demo_host demo_ring_ok _ demo_page_open(1) _ demo_page_open(3,2,5)])
    (simp_all add: demo_page_open demo_ring_def)

end
