(* ===== verification/Ws_Client.thy ===== *)
theory Ws_Client
  imports Ws_Wire
begin

text \<open>
  The receiving half of a client connection, \<open>lib/client-parser.c\<close>. It is not part of the program, whose build has no
  client, but it is the other end of what a server writes.
\<close>

section \<open>Frame headers\<close>

text \<open>The same three ways out as for the server; the states that only a server uses return 1.\<close>

definition client_first :: "wsi \<Rightarrow> u8 \<Rightarrow> wsi" where
  "client_first w c =
     (let w = w\<lparr>opcode := c AND 0xf, rsv := c AND 0x70, final := (drop_bit 7 c AND 1 \<noteq> 0)\<rparr>;
          w = (if opcode w = OPCODE_TEXT_FRAME \<or> opcode w = OPCODE_BINARY_FRAME
               then w\<lparr>frame_is_binary := (opcode w = OPCODE_BINARY_FRAME)\<rparr> else w)
      in w\<lparr>lws_rx_parse_state := LWS_RXPS_04_FRAME_HDR_LEN\<rparr>)"

definition payload_or_new :: "wsi \<Rightarrow> rx_next" where
  "payload_or_new w =
     (if rx_packet_length w \<noteq> 0 then Rx_break (w\<lparr>lws_rx_parse_state := LWS_RXPS_PAYLOAD_UNTIL_LENGTH_EXHAUSTED\<rparr>)
      else Rx_spill (w\<lparr>lws_rx_parse_state := LWS_RXPS_NEW\<rparr>))"

definition client_after_length :: "wsi \<Rightarrow> rx_next" where
  "client_after_length w =
     (if this_frame_masked w then Rx_break (w\<lparr>lws_rx_parse_state := LWS_RXPS_07_COLLECT_FRAME_KEY_1\<rparr>) else payload_or_new w)"

text \<open>The length of a short frame is taken with its mask bit.\<close>

definition client_hdr_len :: "wsi \<Rightarrow> u8 \<Rightarrow> rx_next" where
  "client_hdr_len w c =
     (let w = w\<lparr>this_frame_masked := (c AND 0x80 \<noteq> 0)\<rparr>
      in if c AND 0x7f = 126 then
           (if opcode w AND 8 \<noteq> 0 then Rx_fail w
            else Rx_break (w\<lparr>lws_rx_parse_state := LWS_RXPS_04_FRAME_HDR_LEN16_2\<rparr>))
         else if c AND 0x7f = 127 then
           (if opcode w AND 8 \<noteq> 0 then Rx_fail w
            else Rx_break (w\<lparr>lws_rx_parse_state := LWS_RXPS_04_FRAME_HDR_LEN64_8\<rparr>))
         else client_after_length (w\<lparr>rx_packet_length := ucast c\<rparr>))"

definition client_rx_header :: "wsi \<Rightarrow> u8 \<Rightarrow> rx_next" where
  "client_rx_header w c =
     (case lws_rx_parse_state w of
        LWS_RXPS_NEW \<Rightarrow> Rx_break (if wsi_spec_revision w = 13 then client_first w c else w)
      | LWS_RXPS_04_FRAME_HDR_LEN \<Rightarrow> client_hdr_len w c
      | LWS_RXPS_04_FRAME_HDR_LEN16_2 \<Rightarrow>
          Rx_break (w\<lparr>rx_packet_length := push_bit 8 (ucast c), lws_rx_parse_state := LWS_RXPS_04_FRAME_HDR_LEN16_1\<rparr>)
      | LWS_RXPS_04_FRAME_HDR_LEN16_1 \<Rightarrow> client_after_length (w\<lparr>rx_packet_length := rx_packet_length w OR ucast c\<rparr>)
      | LWS_RXPS_04_FRAME_HDR_LEN64_8 \<Rightarrow>
          if c AND 0x80 \<noteq> 0 then Rx_fail w
          else Rx_break (w\<lparr>rx_packet_length := 0, lws_rx_parse_state := LWS_RXPS_04_FRAME_HDR_LEN64_7\<rparr>)
      | LWS_RXPS_04_FRAME_HDR_LEN64_7 \<Rightarrow> Rx_break (w\<lparr>lws_rx_parse_state := LWS_RXPS_04_FRAME_HDR_LEN64_6\<rparr>)
      | LWS_RXPS_04_FRAME_HDR_LEN64_6 \<Rightarrow> Rx_break (w\<lparr>lws_rx_parse_state := LWS_RXPS_04_FRAME_HDR_LEN64_5\<rparr>)
      | LWS_RXPS_04_FRAME_HDR_LEN64_5 \<Rightarrow> Rx_break (w\<lparr>lws_rx_parse_state := LWS_RXPS_04_FRAME_HDR_LEN64_4\<rparr>)
      | LWS_RXPS_04_FRAME_HDR_LEN64_4 \<Rightarrow> Rx_break (or_length 24 c LWS_RXPS_04_FRAME_HDR_LEN64_3 w)
      | LWS_RXPS_04_FRAME_HDR_LEN64_3 \<Rightarrow> Rx_break (or_length 16 c LWS_RXPS_04_FRAME_HDR_LEN64_2 w)
      | LWS_RXPS_04_FRAME_HDR_LEN64_2 \<Rightarrow> Rx_break (or_length 8 c LWS_RXPS_04_FRAME_HDR_LEN64_1 w)
      | LWS_RXPS_04_FRAME_HDR_LEN64_1 \<Rightarrow> client_after_length (w\<lparr>rx_packet_length := rx_packet_length w OR ucast c\<rparr>)
      | LWS_RXPS_07_COLLECT_FRAME_KEY_1 \<Rightarrow> Rx_break (set_nonce 0 c LWS_RXPS_07_COLLECT_FRAME_KEY_2 w)
      | LWS_RXPS_07_COLLECT_FRAME_KEY_2 \<Rightarrow> Rx_break (set_nonce 1 c LWS_RXPS_07_COLLECT_FRAME_KEY_3 w)
      | LWS_RXPS_07_COLLECT_FRAME_KEY_3 \<Rightarrow> Rx_break (set_nonce 2 c LWS_RXPS_07_COLLECT_FRAME_KEY_4 w)
      | LWS_RXPS_07_COLLECT_FRAME_KEY_4 \<Rightarrow> payload_or_new (set_nonce 3 c LWS_RXPS_07_COLLECT_FRAME_KEY_4 w)
      | _ \<Rightarrow> Rx_break w)"

definition server_only :: "lws_rx_parse_state \<Rightarrow> bool" where
  "server_only st \<longleftrightarrow> st \<in> {LWS_RXPS_04_MASK_NONCE_1, LWS_RXPS_04_MASK_NONCE_2, LWS_RXPS_04_MASK_NONCE_3, LWS_RXPS_04_FRAME_HDR_1}"

section \<open>Payload\<close>

definition client_rx_payload :: "wsi \<Rightarrow> u8 \<Rightarrow> rx_next option" where
  "client_rx_payload w c =
     (let plain = (\<not> this_frame_masked w \<or> all_zero_nonce w)
      in do {
        mem \<leftarrow> put_at (rx_user_buffer w) (LWS_SEND_BUFFER_PRE_PADDING + rx_user_buffer_head w)
                [if plain then c else c XOR frame_masking_nonce_04 w ! unat (frame_mask_index w AND 3)];
        let w = w\<lparr>rx_user_buffer := mem, rx_user_buffer_head := rx_user_buffer_head w + 1,
                  frame_mask_index := (if plain then frame_mask_index w else frame_mask_index w + 1),
                  rx_packet_length := rx_packet_length w - 1\<rparr>
        in Some (if rx_packet_length w = 0 then Rx_spill (w\<lparr>lws_rx_parse_state := LWS_RXPS_NEW\<rparr>)
                 else if rx_user_buffer_head w \<noteq> rx_limit w then Rx_break w
                 else Rx_spill w) })"

text \<open>What the callback returns is not looked at.\<close>

definition client_deliver :: "'e ws_ops \<Rightarrow> cb_reason \<Rightarrow> lws_tokens \<Rightarrow> 'e conn \<Rightarrow> (int \<times> 'e conn) option" where
  "client_deliver ops action tok = (\<lambda>(w, e).
     do {
       (w, e) \<leftarrow>
         (if token_len tok > 0 then
            do {
              b \<leftarrow> token_bytes tok;
              mem \<leftarrow> put_at (token_mem tok) (token_pos tok + token_len tok) [0];
              let w = (if token_moved tok then w else w\<lparr>rx_user_buffer := mem\<rparr>)
              in Some (if has_callback (protocol w) then snd (callback ops action b (w, e)) else (w, e)) }
          else Some (w, e));
       Some (0, w\<lparr>rx_user_buffer_head := 0\<rparr>, e) })"

definition client_payload_up :: "'e ws_ops \<Rightarrow> cb_reason \<Rightarrow> 'e conn \<Rightarrow> (int \<times> 'e conn) option" where
  "client_payload_up ops action = (\<lambda>(w, e).
     let (failed, spill, tok, w, e) =
           ext_each LWS_EXT_CALLBACK_PAYLOAD_RX (active_extensions ops) False (rx_tokens w) (w, e);
         w = (if token_moved tok then w else w\<lparr>rx_user_buffer := token_mem tok\<rparr>)
     in if failed then Some (-1, w, e) else client_deliver ops action tok (w, e))"

definition client_spill :: "'e ws_ops \<Rightarrow> 'e conn \<Rightarrow> (int \<times> 'e conn) option" where
  "client_spill ops = (\<lambda>(w, e).
     if opcode w = OPCODE_CLOSE then
       if state w = WSI_STATE_AWAITING_CLOSE_ACK then Some (-1, w, e)
       else
         do {
           (n, mem, w, e) \<leftarrow> libwebsocket_write ops (rx_user_buffer w) LWS_SEND_BUFFER_PRE_PADDING
              (rx_user_buffer_head w) LWS_WRITE_CLOSE (w, e);
           Some (-1, w\<lparr>rx_user_buffer := mem, state := WSI_STATE_RETURNED_CLOSE_ALREADY\<rparr>, e) }
     else if opcode w = OPCODE_PING then
       do {
         (n, mem, w, e) \<leftarrow> libwebsocket_write ops (rx_user_buffer w) LWS_SEND_BUFFER_PRE_PADDING
            (rx_user_buffer_head w) LWS_WRITE_PONG (w, e);
         Some (0, w\<lparr>rx_user_buffer := mem, rx_user_buffer_head := 0\<rparr>, e) }
     else if opcode w = OPCODE_PONG then client_payload_up ops LWS_CALLBACK_CLIENT_RECEIVE_PONG (w, e)
     else if opcode w \<in> {OPCODE_TEXT_FRAME, OPCODE_BINARY_FRAME, OPCODE_CONTINUATION} then
       client_payload_up ops LWS_CALLBACK_CLIENT_RECEIVE (w, e)
     else
       (let (handled, tok, w, e) =
          ext_any LWS_EXT_CALLBACK_EXTENDED_PAYLOAD_RX (active_extensions ops) False (rx_tokens w) (w, e)
        in Some (0, w\<lparr>rx_user_buffer_head := 0\<rparr>, e)))"

definition libwebsocket_client_rx_sm :: "'e ws_ops \<Rightarrow> u8 \<Rightarrow> 'e conn \<Rightarrow> (int \<times> 'e conn) option" where
  "libwebsocket_client_rx_sm ops c = (\<lambda>(w, e).
     if server_only (lws_rx_parse_state w) then Some (1, w, e)
     else do {
       r \<leftarrow> (if lws_rx_parse_state w = LWS_RXPS_PAYLOAD_UNTIL_LENGTH_EXHAUSTED then client_rx_payload w c
            else Some (client_rx_header w c));
       (case r of
          Rx_break w \<Rightarrow> Some (0, w, e)
        | Rx_fail w \<Rightarrow> Some (-1, w, e)
        | Rx_spill w \<Rightarrow> client_spill ops (w, e)) })"

text \<open>The loop of \<open>libwebsocket_read\<close> over the bytes of one read, for an established client connection.\<close>

fun client_read :: "'e ws_ops \<Rightarrow> bytes \<Rightarrow> 'e conn \<Rightarrow> (int \<times> 'e conn) option" where
  "client_read ops [] s = Some (0, s)"
| "client_read ops (c # cs) s =
     do { (m, s) \<leftarrow> libwebsocket_client_rx_sm ops c s; if m < 0 then Some (-1, s) else client_read ops cs s }"

section \<open>Reading what a server writes\<close>

lemma client_header_byte:
  assumes "lws_rx_parse_state w \<noteq> LWS_RXPS_PAYLOAD_UNTIL_LENGTH_EXHAUSTED" "\<not> server_only (lws_rx_parse_state w)"
    and "client_rx_header w c = Rx_break w'"
  shows "client_read ops (c # cs) (w, e) = client_read ops cs (w', e)"
  using assms by (simp add: libwebsocket_client_rx_sm_def)

text \<open>The connection after the header of an unmasked frame with a payload.\<close>

definition client_header_read :: "u8 \<Rightarrow> nat \<Rightarrow> wsi \<Rightarrow> wsi" where
  "client_header_read b0 len w = client_first w b0\<lparr>this_frame_masked := False, rx_packet_length := word_of_nat len,
     lws_rx_parse_state := LWS_RXPS_PAYLOAD_UNTIL_LENGTH_EXHAUSTED\<rparr>"

lemma client_read_header:
  assumes "lws_rx_parse_state w = LWS_RXPS_NEW" "wsi_spec_revision w = 13" "b0 AND 8 = 0 \<or> len < 126" "0 < len" "len < 2 ^ 32"
  shows "client_read ops (frame_header b0 len 0 @ cs) (w, e) = client_read ops cs (client_header_read b0 len w, e)"
proof -
  let ?rd = "client_read ops" and ?w = "client_first w b0"
  have w: "lws_rx_parse_state ?w = LWS_RXPS_04_FRAME_HDR_LEN" "opcode ?w = b0 AND 0xf"
    by (simp_all add: client_first_def Let_def)
  have nz: "(word_of_nat len :: u32) \<noteq> 0" using assms(4,5) by (auto simp: word_of_nat_eq_0_iff dest!: dvd_imp_le)
  have 0: "?rd (b0 # xs) (w, e) = ?rd xs (?w, e)" for xs
    using assms by (intro client_header_byte) (simp_all add: client_rx_header_def server_only_def)
  consider "len < 126" | "126 \<le> len" "len < 65536" | "65536 \<le> len" by linarith
  then show ?thesis
  proof cases
    case 1
    have "client_rx_header ?w (word_of_nat len) = Rx_break (client_header_read b0 len w)"
      using small_length [OF 1] ucast_small [of len] 1 w nz
      by (simp add: client_rx_header_def client_hdr_len_def client_header_read_def client_after_length_def payload_or_new_def Let_def)
    then show ?thesis
      using 1 w by (simp add: frame_header_def 0 client_header_byte server_only_def del: client_read.simps)
  next
    case 2
    have "b0 AND 8 = 0" using assms(3) 2 by simp
    then show ?thesis
      using 2 w frame_length_read16 [OF 2(2)] nz
      by (simp add: frame_header_def 0 client_header_byte client_rx_header_def client_hdr_len_def server_only_def
          client_header_read_def client_after_length_def payload_or_new_def Let_def and_8 or_length_def or.assoc del: client_read.simps)
  next
    case 3
    have "b0 AND 8 = 0" using assms(3) 3 by simp
    then show ?thesis
      using 3 w frame_length_read [of len] nz
      by (simp add: frame_header_def 0 client_header_byte client_rx_header_def client_hdr_len_def server_only_def
          client_header_read_def client_after_length_def payload_or_new_def Let_def and_8 or_length_def or.assoc del: client_read.simps)
  qed
qed

text \<open>An application whose callback takes the data and makes no calls of its own, and a connection between two frames.\<close>

definition quiet_client :: "'e ws_ops \<Rightarrow> (bytes \<Rightarrow> 'e \<Rightarrow> 'e) \<Rightarrow> bool" where
  "quiet_client ops dl \<longleftrightarrow> active_extensions ops = [] \<and>
     (\<forall>bs w e. snd (callback ops LWS_CALLBACK_CLIENT_RECEIVE bs (w, e)) = (w, dl bs e))"

definition client_idle :: "wsi \<Rightarrow> bool" where
  "client_idle w \<longleftrightarrow> lws_rx_parse_state w = LWS_RXPS_NEW \<and> wsi_spec_revision w = 13 \<and> rx_holds w [] \<and> has_callback (protocol w)"

lemma client_spill_data:
  assumes "quiet_client ops dl" "data_frame w" "rx_holds w acc" "acc \<noteq> []" "length acc \<le> rx_limit w"
  shows "\<exists>mem. client_spill ops (w, e) = Some (0, w\<lparr>rx_user_buffer := mem, rx_user_buffer_head := 0\<rparr>, dl acc e) \<and>
    length mem = length (rx_user_buffer w)"
proof -
  let ?n = "length acc"
  have buf: "take ?n (drop LWS_SEND_BUFFER_PRE_PADDING (rx_user_buffer w)) = acc"
    "LWS_SEND_BUFFER_PRE_PADDING + ?n + 1 \<le> length (rx_user_buffer w)" "rx_user_buffer_head w = ?n"
    using assms(3,5) by (simp_all add: rx_holds_def LWS_SEND_BUFFER_POST_PADDING_def)
  let ?mem = "take (LWS_SEND_BUFFER_PRE_PADDING + ?n) (rx_user_buffer w) @ [0] @
    drop (LWS_SEND_BUFFER_PRE_PADDING + ?n + 1) (rx_user_buffer w)"
  let ?t = "\<lparr>token_mem = rx_user_buffer w, token_pos = LWS_SEND_BUFFER_PRE_PADDING, token_len = ?n, token_moved = False\<rparr>"
  have t: "rx_tokens w = ?t" "token_bytes ?t = Some acc" using buf by (simp_all add: rx_tokens_def token_bytes_def)
  have p: "put_at (rx_user_buffer w) (LWS_SEND_BUFFER_PRE_PADDING + ?n) [0] = Some ?mem" "length ?mem = length (rx_user_buffer w)"
    using buf(2) by (simp_all add: put_at_def)
  have q: "active_extensions ops = []" "snd (callback ops LWS_CALLBACK_CLIENT_RECEIVE acc (v, e)) = (v, dl acc e)" for v
    using assms(1) by (simp_all add: quiet_client_def)
  have "client_deliver ops LWS_CALLBACK_CLIENT_RECEIVE ?t (w, e) = Some (0, w\<lparr>rx_user_buffer := ?mem, rx_user_buffer_head := 0\<rparr>, dl acc e)"
    using assms(2,4) t(2) p(1) q(2) by (simp add: client_deliver_def data_frame_def)
  moreover have "client_spill ops (w, e) = client_deliver ops LWS_CALLBACK_CLIENT_RECEIVE ?t (w, e)"
    using assms(2) q(1) t(1) by (auto simp: client_spill_def client_payload_up_def data_frame_def)
  ultimately show ?thesis using p(2) by metis
qed

lemma client_payload_byte:
  assumes "rx_holds w acc" "length acc < rx_limit w" "\<not> this_frame_masked w"
    and "rx_packet_length w = word_of_nat (Suc n)" "Suc n < 2 ^ 32"
  obtains mem w' where "w' = w\<lparr>rx_user_buffer := mem, rx_user_buffer_head := Suc (length acc), rx_packet_length := word_of_nat n\<rparr>"
    "client_rx_payload w p = Some (if n = 0 then Rx_spill (w'\<lparr>lws_rx_parse_state := LWS_RXPS_NEW\<rparr>)
      else if Suc (length acc) \<noteq> rx_limit w then Rx_break w' else Rx_spill w')"
    "rx_holds w' (acc @ [p])" "length mem = length (rx_user_buffer w)"
proof -
  have b: "take (length acc) (drop LWS_SEND_BUFFER_PRE_PADDING (rx_user_buffer w)) = acc"
    "LWS_SEND_BUFFER_PRE_PADDING + length acc < length (rx_user_buffer w)"
    "length (rx_user_buffer w) = LWS_SEND_BUFFER_PRE_PADDING + rx_limit w + LWS_SEND_BUFFER_POST_PADDING"
    "rx_user_buffer_head w = length acc"
    using assms(1,2) by (simp_all add: rx_holds_def)
  obtain mem where m: "put_at (rx_user_buffer w) (LWS_SEND_BUFFER_PRE_PADDING + length acc) [p] = Some mem"
    "length mem = length (rx_user_buffer w)" "take (Suc (length acc)) (drop LWS_SEND_BUFFER_PRE_PADDING mem) = acc @ [p]"
    using put_at_snoc [OF b(1,2), of p] by auto
  have l: "rx_packet_length w - 1 = word_of_nat n" using assms(4) by simp
  have z: "(word_of_nat n :: u32) = 0 \<longleftrightarrow> n = 0"
    using assms(5) by (cases "n = 0") (auto simp: word_of_nat_eq_0_iff dest!: dvd_imp_le)
  show ?thesis
    by (rule that [OF refl]) (use m b z l assms(3) in \<open>simp_all add: client_rx_payload_def rx_holds_def rx_limit_def Let_def\<close>)
qed

definition client_done :: "bytes \<Rightarrow> wsi \<Rightarrow> wsi" where
  "client_done mem w = w\<lparr>rx_user_buffer := mem, rx_user_buffer_head := 0, rx_packet_length := 0, lws_rx_parse_state := LWS_RXPS_NEW\<rparr>"

lemma client_done_update [simp]:
  "client_done m (w\<lparr>rx_user_buffer := b\<rparr>) = client_done m w" "client_done m (w\<lparr>rx_user_buffer_head := h\<rparr>) = client_done m w"
  "client_done m (w\<lparr>rx_packet_length := n\<rparr>) = client_done m w" "client_done m (w\<lparr>lws_rx_parse_state := st\<rparr>) = client_done m w"
  by (simp_all add: client_done_def)

lemma client_step:
  assumes "lws_rx_parse_state w = LWS_RXPS_PAYLOAD_UNTIL_LENGTH_EXHAUSTED" "client_rx_payload w c = Some r"
  shows "client_read ops (c # cs) (w, e) =
    (case r of
       Rx_break w \<Rightarrow> client_read ops cs (w, e)
     | Rx_fail w \<Rightarrow> Some (-1, w, e)
     | Rx_spill w \<Rightarrow> do { (m, s) \<leftarrow> client_spill ops (w, e); if m < 0 then Some (-1, s) else client_read ops cs s })"
  using assms by (simp add: libwebsocket_client_rx_sm_def server_only_def split: rx_next.split)

lemma client_read_payload:
  assumes "quiet_client ops dl" "data_frame w" "\<not> this_frame_masked w"
    and "lws_rx_parse_state w = LWS_RXPS_PAYLOAD_UNTIL_LENGTH_EXHAUSTED" "rx_holds w acc" "length acc < rx_limit w"
    and "ps \<noteq> []" "length ps < 2 ^ 32" "rx_packet_length w = word_of_nat (length ps)"
  shows "\<exists>mem. client_read ops (ps @ cs) (w, e) = client_read ops cs (client_done mem w, fold dl (spills (rx_limit w) acc ps) e) \<and>
    length mem = length (rx_user_buffer w)"
  using assms(2-)
proof (induction ps arbitrary: w acc e)
  case (Cons p ps)
  have cnt: "rx_packet_length w = word_of_nat (Suc (length ps))" "Suc (length ps) < 2 ^ 32" using Cons.prems(7,8) by simp_all
  obtain mem w' where w': "w' = w\<lparr>rx_user_buffer := mem, rx_user_buffer_head := Suc (length acc), rx_packet_length := word_of_nat (length ps)\<rparr>"
    and r: "client_rx_payload w p = Some (if length ps = 0 then Rx_spill (w'\<lparr>lws_rx_parse_state := LWS_RXPS_NEW\<rparr>)
      else if Suc (length acc) \<noteq> rx_limit w then Rx_break w' else Rx_spill w')"
    and h: "rx_holds w' (acc @ [p])" and b: "length mem = length (rx_user_buffer w)"
    by (rule client_payload_byte [OF Cons.prems(4,5,2) cnt, of p])
  let ?w = "w\<lparr>rx_user_buffer := mem, rx_user_buffer_head := Suc (length acc), rx_packet_length := word_of_nat (length ps)\<rparr>"
  note r = r [unfolded w'] and h = h [unfolded w']
  have spill: "\<exists>m. client_spill ops (v, e) = Some (0, v\<lparr>rx_user_buffer := m, rx_user_buffer_head := 0\<rparr>, dl (acc @ [p]) e) \<and>
      length m = length (rx_user_buffer w)" if "v = ?w \<or> v = ?w\<lparr>lws_rx_parse_state := LWS_RXPS_NEW\<rparr>" for v
    using that client_spill_data [OF assms(1), of v "acc @ [p]" e] Cons.prems(1,5) h b by auto
  note step = client_step [OF Cons.prems(3) r, of ops]
  consider "ps = []" | "ps \<noteq> []" "Suc (length acc) \<noteq> rx_limit w" | "ps \<noteq> []" "Suc (length acc) = rx_limit w" by blast
  then show ?case
  proof cases
    case 1
    obtain m where "client_spill ops (?w\<lparr>lws_rx_parse_state := LWS_RXPS_NEW\<rparr>, e) =
        Some (0, ?w\<lparr>lws_rx_parse_state := LWS_RXPS_NEW, rx_user_buffer := m, rx_user_buffer_head := 0\<rparr>, dl (acc @ [p]) e)"
      "length m = length (rx_user_buffer w)" using spill by blast
    moreover have "?w\<lparr>lws_rx_parse_state := LWS_RXPS_NEW, rx_user_buffer := m, rx_user_buffer_head := 0\<rparr> = client_done m w"
      using 1 by (cases w) (simp add: client_done_def)
    ultimately show ?thesis using 1 by (intro exI [of _ m]) (simp add: step del: client_read.simps)
  next
    case 2
    have "\<exists>m. client_read ops (ps @ cs) (?w, e) = client_read ops cs (client_done m ?w, fold dl (spills (rx_limit ?w) (acc @ [p]) ps) e) \<and>
        length m = length (rx_user_buffer ?w)"
      using Cons.prems 2 h by (intro Cons.IH) simp_all
    then show ?thesis using 2 b by (simp add: step del: client_read.simps)
  next
    case 3
    obtain m where m: "client_spill ops (?w, e) = Some (0, ?w\<lparr>rx_user_buffer := m, rx_user_buffer_head := 0\<rparr>, dl (acc @ [p]) e)"
      "length m = length (rx_user_buffer w)" using spill by blast
    let ?v = "?w\<lparr>rx_user_buffer := m, rx_user_buffer_head := 0\<rparr>"
    have "rx_holds ?v []" using Cons.prems(4) m(2) by (simp add: rx_holds_def)
    then have "\<exists>m'. client_read ops (ps @ cs) (?v, dl (acc @ [p]) e) =
        client_read ops cs (client_done m' ?v, fold dl (spills (rx_limit ?v) [] ps) (dl (acc @ [p]) e)) \<and>
        length m' = length (rx_user_buffer ?v)"
      using Cons.prems 3 by (intro Cons.IH) simp_all
    then show ?thesis using 3 m by (simp add: step del: client_read.simps)
  qed
qed simp

lemma client_reads_frame:
  assumes "quiet_client ops dl" "client_idle w" "b0 AND 0xf \<in> {OPCODE_TEXT_FRAME, OPCODE_BINARY_FRAME, OPCODE_CONTINUATION}"
    and "P \<noteq> []" "length P < 2 ^ 32"
  shows "\<exists>w'. client_read ops (frame_header b0 (length P) 0 @ P @ cs) (w, e) = client_read ops cs (w', fold dl (spills (rx_limit w) [] P) e) \<and>
    client_idle w' \<and> rx_limit w' = rx_limit w \<and> opcode w' = b0 AND 0xf \<and> final w' = (drop_bit 7 b0 AND 1 \<noteq> 0)"
proof -
  let ?h = "client_header_read b0 (length P) w"
  have w: "lws_rx_parse_state w = LWS_RXPS_NEW" "wsi_spec_revision w = 13" "rx_holds w []" "has_callback (protocol w)"
    using assms(2) by (simp_all add: client_idle_def)
  have "(b0 AND 0xf) AND 8 = 0" using assms(3) by auto
  then have "b0 AND 8 = 0" by (simp add: and_8)
  then have 1: "client_read ops (frame_header b0 (length P) 0 @ P @ cs) (w, e) = client_read ops (P @ cs) (?h, e)"
    using client_read_header [OF w(1,2), of b0 "length P" ops "P @ cs" e] assms(4,5) by simp
  have h: "data_frame ?h" "\<not> this_frame_masked ?h" "lws_rx_parse_state ?h = LWS_RXPS_PAYLOAD_UNTIL_LENGTH_EXHAUSTED" "rx_holds ?h []"
    "rx_limit ?h = rx_limit w" "rx_packet_length ?h = word_of_nat (length P)" "opcode ?h = b0 AND 0xf"
    "final ?h = (drop_bit 7 b0 AND 1 \<noteq> 0)" "rx_user_buffer ?h = rx_user_buffer w" "wsi_spec_revision ?h = 13" "protocol ?h = protocol w"
    using w assms(3) by (auto simp: client_header_read_def client_first_def data_frame_def rx_holds_def rx_limit_def Let_def)
  obtain mem where 2: "client_read ops (P @ cs) (?h, e) = client_read ops cs (client_done mem ?h, fold dl (spills (rx_limit w) [] P) e)"
    "length mem = length (rx_user_buffer w)"
    using client_read_payload [OF assms(1) h(1-4) _ assms(4,5) h(6)] h(5,9) by auto
  have "rx_holds (client_done mem ?h) []" "rx_limit (client_done mem ?h) = rx_limit w"
    using 2(2) w(3) h(5,11) by (simp_all add: rx_holds_def client_done_def rx_limit_def)
  then show ?thesis
    using 1 2 h w by (intro exI [of _ "client_done mem ?h"]) (simp add: client_idle_def client_done_def)
qed

end
