(* ===== verification/Client_Properties.thy ===== *)
theory Client_Properties
  imports Ws_Properties Ws_Client
begin

text \<open>
  The direction in which the credentials travel: what a server writes, the client machine of the same library reads.
\<close>

text \<open>C24: what the server writes with \<open>libwebsocket_write\<close> as text, binary or continuation, finished or not, is one
  unmasked frame, and the library's own client machine, fed that frame byte by byte, hands the payload to its application
  unchanged, in pieces that fit its receive buffer, knows the opcode and whether the frame was the last, and waits for the
  next frame.\<close>

theorem server_frame_roundtrip:
  assumes "takes_all sops sent" "can_write sw prot" "truncated_send_malloc sw = None"
    and "mode sw \<noteq> LWS_CONNMODE_WS_CLIENT" "frame_opcode prot = Some n" "n \<in> {0, 1, 2}"
    and "P \<noteq> []" "length P < 2 ^ 32" "LWS_SEND_BUFFER_PRE_PADDING \<le> length pad"
    and "quiet_client cops dl" "client_idle cw"
  shows "\<exists>frame mem' sw' pieces cw'.
    libwebsocket_write sops (pad @ P @ post) (length pad) (length P) prot (sw, se) =
      Some (int (length P), mem', sw', sent frame se) \<and> \<not> inside_frame sw' \<and>
    client_read cops frame (cw, ce) = Some (0, cw', fold dl pieces ce) \<and>
    concat pieces = P \<and> (\<forall>b\<in>set pieces. b \<noteq> [] \<and> length b \<le> rx_limit cw) \<and>
    client_idle cw' \<and> opcode cw' = n \<and> (final cw' \<longleftrightarrow> prot AND LWS_WRITE_NO_FIN = 0)"
proof -
  let ?b0 = "first_byte prot n" and ?f = "server_frame prot P"
  let ?sw = "sw\<lparr>clean_buffer := \<not> no_buffer_all_partial_tx (protocol sw)\<rparr>"
  have data: "\<not> is_control prot" using assms(5,6) by (auto simp: is_control_def frame_opcode_def)
  have f: "?f = frame_header ?b0 (length P) 0 @ P" using assms(5) by (simp add: server_frame_def)
  obtain A where "libwebsocket_write sops (pad @ P @ post) (length pad) (length P) prot (sw, se) =
      do { (r, s) \<leftarrow> send_frame sops prot ?f (length P) (?sw, se); Some (r, A @ ?f @ post, s) }"
    using write_server [of sops sw prot P pad post se] assms by (auto simp: takes_all_def LWS_SEND_BUFFER_PRE_PADDING_def)
  also have "\<dots> = Some (int (length P), A @ ?f @ post, ?sw\<lparr>inside_frame := False\<rparr>, sent ?f se)"
    using assms(3) data by (simp add: send_frame_all [OF assms(1)])
  finally have w: "libwebsocket_write sops (pad @ P @ post) (length pad) (length P) prot (sw, se) = \<dots>" .
  have b0: "?b0 AND 0xf = n" "drop_bit 7 ?b0 AND 1 \<noteq> 0 \<longleftrightarrow> prot AND LWS_WRITE_NO_FIN = 0"
    using assms(6) by (auto simp: first_byte_def)
  obtain cw' where r: "client_read cops ?f (cw, ce) = Some (0, cw', fold dl (spills (rx_limit cw) [] P) ce)"
    "client_idle cw'" "opcode cw' = n" "final cw' \<longleftrightarrow> prot AND LWS_WRITE_NO_FIN = 0"
    using client_reads_frame [OF assms(10,11), of ?b0 P "[]" ce] assms(6-8) b0 by (auto simp: f)
  have "concat (spills (rx_limit cw) [] P) = P" "\<forall>b\<in>set (spills (rx_limit cw) [] P). b \<noteq> [] \<and> length b \<le> rx_limit cw"
    using concat_spills [OF assms(7)] spills_bounds [of "[]" "rx_limit cw" P] by (simp_all add: list_all_iff)
  then show ?thesis using r by (intro exI conjI) (rule w, simp_all)
qed

text \<open>A client connection with a receive buffer of eight bytes, and twenty bytes written to it.\<close>

lemma demo_quiet_client: "quiet_client demo_all (\<lambda>b e. e @ [b])"
  by (simp add: quiet_client_def demo_all_def demo_ops_def)

lemma demo_client_idle: "client_idle (demo_wsi\<lparr>mode := LWS_CONNMODE_WS_CLIENT\<rparr>)"
  by (simp add: client_idle_def demo_wsi_def rx_holds_def rx_limit_def LWS_SEND_BUFFER_PRE_PADDING_def LWS_SEND_BUFFER_POST_PADDING_def)

theorem server_frame_roundtrip_witness:
  "\<exists>frame mem' sw' pieces cw'.
    libwebsocket_write demo_all (replicate 18 0 @ replicate 20 65 @ []) (length (replicate 18 (0 :: u8)))
      (length (replicate 20 (65 :: u8))) LWS_WRITE_TEXT (demo_wsi, []) =
      Some (int (length (replicate 20 (65 :: u8))), mem', sw', [] @ [frame]) \<and> \<not> inside_frame sw' \<and>
    client_read demo_all frame (demo_wsi\<lparr>mode := LWS_CONNMODE_WS_CLIENT\<rparr>, []) = Some (0, cw', fold (\<lambda>b e. e @ [b]) pieces []) \<and>
    concat pieces = replicate 20 65 \<and>
    (\<forall>b\<in>set pieces. b \<noteq> [] \<and> length b \<le> rx_limit (demo_wsi\<lparr>mode := LWS_CONNMODE_WS_CLIENT\<rparr>)) \<and>
    client_idle cw' \<and> opcode cw' = OPCODE_TEXT_FRAME \<and> (final cw' \<longleftrightarrow> LWS_WRITE_TEXT AND LWS_WRITE_NO_FIN = 0)"
  using demo_can_write [of 0 LWS_CONNMODE_WS_SERVING]
  by (intro server_frame_roundtrip demo_takes_all demo_quiet_client demo_client_idle)
    (auto simp: demo_wsi_def frame_opcode_def LWS_SEND_BUFFER_PRE_PADDING_def)

end
