(* ===== verification/Login_Session.thy ===== *)
theory Login_Session
  imports Login_Properties Ws_Service
begin

text \<open>
  The login from end to end: what \<open>poll\<close> reports of the socket of a page is serviced, first its request and then its
  question for the credentials.
\<close>

section \<open>A turn of the service\<close>

text \<open>
  Within a second, without another client waiting at the listening socket, and without TLS holding data back; and a
  listening socket, if any, that is in the table.
\<close>

definition calm :: "('e, 'x) sockets_scheme \<Rightarrow> 'e lws_context \<Rightarrow> ('e \<Rightarrow> 'b) \<Rightarrow> bool" where
  "calm sy ctx acc \<longleftrightarrow>
     (\<forall>e. \<exists>e'. gettimeofday sy e = (last_timeout_check_s ctx, e') \<and> acc e' = acc e) \<and>
     (\<forall>e. \<exists>e'. poll_now sy (listen_service_fd ctx) e = (None, e') \<and> acc e' = acc e) \<and>
     (\<forall>fd e. \<not> (has_ssl sy fd e \<and> SSL_pending sy fd e)) \<and>
     (listen_service_fd ctx = 0 \<or> (\<exists>b d. get_at (lws_lookup ctx) (listen_service_fd ctx) = Some (Some b) \<and> conns ctx b = Some d))"

definition listened :: "'e lws_context \<Rightarrow> 'e lws_context \<Rightarrow> bool" where
  "listened ctx ctx' \<longleftrightarrow> (\<exists>n x. ctx' = ctx\<lparr>listen_service_count := n, listen_service_extraseen := x\<rparr>)"

lemma listened_cases:
  "listened ctx ctx" "listened ctx (ctx\<lparr>listen_service_count := n\<rparr>)"
  "listened ctx (ctx\<lparr>listen_service_count := n, listen_service_extraseen := x\<rparr>)"
  unfolding listened_def
  by (rule exI [of _ "listen_service_count ctx"], rule exI [of _ "listen_service_extraseen ctx"], simp)
    (rule exI [of _ n], rule exI [of _ "listen_service_extraseen ctx"], simp, blast)

lemma piggyback_calm:
  assumes "calm sy ctx acc"
  shows "\<exists>ctx' e'. listen_piggyback sv sy refuse fd (ctx, e) = Some (ctx', e') \<and> listened ctx ctx' \<and> acc e' = acc e"
proof -
  obtain e1 where e1: "poll_now sy (listen_service_fd ctx) e = (None, e1)" "acc e1 = acc e"
    using assms unfolding calm_def by blast
  define x where "x = (if listen_service_extraseen ctx \<noteq> 0 then listen_service_extraseen ctx - 1 else 0)"
  have "listen_turns sv sy refuse (Suc m) (ctx\<lparr>listen_service_count := n\<rparr>, e) =
      Some (ctx\<lparr>listen_service_count := n, listen_service_extraseen := x\<rparr>, e1)" for m n
    using e1(1) by (simp add: x_def)
  from this [of 0] this [of "Suc 0"]
  have turns: "listen_turns sv sy refuse (if listen_service_extraseen ctx > 5 then 2 else 1) (ctx\<lparr>listen_service_count := n\<rparr>, e) =
      Some (ctx\<lparr>listen_service_count := n, listen_service_extraseen := x\<rparr>, e1)" for n
    by (simp add: numeral_2_eq_2 del: listen_turns.simps)
  consider (none) "listen_service_fd ctx = 0 \<or> fd = listen_service_fd ctx"
    | (turn) "listen_service_fd ctx \<noteq> 0" "fd \<noteq> listen_service_fd ctx"
      "listen_service_extraseen ctx \<noteq> 0 \<or> listen_service_count ctx + 1 = listen_service_modulo ctx"
    | (count) "listen_service_fd ctx \<noteq> 0" "fd \<noteq> listen_service_fd ctx"
      "\<not> (listen_service_extraseen ctx \<noteq> 0 \<or> listen_service_count ctx + 1 = listen_service_modulo ctx)"
    by blast
  then show ?thesis
  proof cases
    case none
    then show ?thesis by (simp add: listen_piggyback_def listened_cases(1))
  next
    case turn
    then have "listen_piggyback sv sy refuse fd (ctx, e) = Some (ctx\<lparr>listen_service_count := 0, listen_service_extraseen := x\<rparr>, e1)"
      using turns [of 0] by (simp add: listen_piggyback_def Let_def del: listen_turns.simps)
    then show ?thesis using listened_cases(3) e1(2) by blast
  next
    case count
    then have "listen_piggyback sv sy refuse fd (ctx, e) = Some (ctx\<lparr>listen_service_count := listen_service_count ctx + 1\<rparr>, e)"
      by (simp add: listen_piggyback_def Let_def)
    then show ?thesis using listened_cases(2) by blast
  qed
qed

lemma looked_up:
  assumes "table_inv ctx" "a \<in> polled ctx" "conns ctx a = Some c"
  shows "get_at (lws_lookup ctx) (sock (ws c)) = Some (Some a)"
proof -
  obtain i where "i < nat (fds_count ctx)" "conn_at ctx i a (ws c)" using assms(2,3) by (auto simp: polled_def entry_alt)
  moreover have "length (lws_lookup ctx) = nat (max_fds ctx)" using assms(1) by (simp add: table_inv_def)
  ultimately show ?thesis by (simp add: conn_at_def get_at_nth)
qed

lemma service_turn:
  assumes "calm sy ctx acc" "table_inv ctx" "a \<in> polled ctx" "conns ctx a = Some c"
  shows "\<exists>ctx' e'. libwebsocket_service_fd sv sy refuse (Some (sock (ws c), re)) (ctx, e) =
      service_what_we_came_for sv sy refuse a re (ctx', e') \<and> listened ctx ctx' \<and> acc e' = acc e"
proof -
  obtain e1 where t: "gettimeofday sy e = (last_timeout_check_s ctx, e1)" "acc e1 = acc e"
    using assms(1) unfolding calm_def by blast
  obtain ctx' e' where p: "listen_piggyback sv sy refuse (sock (ws c)) (ctx, e1) = Some (ctx', e')" "listened ctx ctx'" "acc e' = acc e1"
    using piggyback_calm [OF assms(1)] by blast
  have "libwebsocket_service_fd sv sy refuse (Some (sock (ws c), re)) (ctx, e) = service_what_we_came_for sv sy refuse a re (ctx', e')"
    using assms(1) t(1) p(1) looked_up [OF assms(2-4)]
    by (auto simp: libwebsocket_service_fd_def timeouts_once_per_second_def calm_def)
  then show ?thesis using t(2) p(2,3) by auto
qed

abbreviation (input) readable :: revents where
  "readable \<equiv> \<lparr>re_in = True, re_out = False, re_dead = False\<rparr>"

text \<open>What arrived is read, in a request and on a websocket.\<close>

lemma turn_reads:
  assumes "conns ctx a = Some c" "read_socket sy (sock (ws c)) e = (Received bs, e1)" "bs \<noteq> []"
    and "length bs \<le> length (service_buffer ctx)"
    and "mode (ws c) = LWS_CONNMODE_HTTP_SERVING \<or>
      mode (ws c) = LWS_CONNMODE_WS_SERVING \<and> rxflow_buffer (ws c) = None \<and> conn_extensions ctx a = [] \<and>
      (\<forall>fd e. \<not> (has_ssl sy fd e \<and> SSL_pending sy fd e))"
    and "libwebsocket_read sv sy a bs (ctx\<lparr>service_buffer := bs @ drop (length bs) (service_buffer ctx)\<rparr>, e1) = Some (n, s)"
  shows "service_what_we_came_for sv sy refuse a readable (ctx, e) = Some (0, s)"
proof -
  let ?ctx = "ctx\<lparr>service_buffer := bs @ drop (length bs) (service_buffer ctx)\<rparr>"
  let ?tok = "\<lparr>token_mem = service_buffer ?ctx, token_pos = 0, token_len = length bs, token_moved = False\<rparr>"
  have r: "received_in bs ctx = Some ?ctx" using assms(4) by (simp add: received_in_def put_at_def)
  show ?thesis
  proof (cases "mode (ws c) = LWS_CONNMODE_HTTP_SERVING")
    case True
    then show ?thesis
      using assms(1-3,6) r by (simp add: service_what_we_came_for_def lws_server_socket_service_def serve_http_socket_def)
  next
    case False
    then have w: "mode (ws c) = LWS_CONNMODE_WS_SERVING" "rxflow_buffer (ws c) = None" "conn_extensions ctx a = []"
      "\<And>fd e. \<not> (has_ssl sy fd e \<and> SSL_pending sy fd e)" using assms(5) by simp_all
    have same: "set_ws a (ws c) ctx = ctx" by (rule set_ws_same [OF assms(1) refl])
    have same': "set_ws a (ws c) ?ctx = ?ctx" by (rule set_ws_same) (simp_all add: assms(1))
    have "token_bytes ?tok = Some bs" by (simp add: token_bytes_def)
    then have pre: "preparse_loop sv sy a ?tok (?ctx, e1) = Some (if n < 0 then Read_closed else All_read, s)"
      using assms(1,3,6) w(3) same' by (subst preparse_loop.simps) simp
    have "drain_and_read sv sy a (sock (ws c)) False (Some ?tok) (?ctx, e1) = Some (0, s)"
      using pre w(4) by (subst drain_and_read.simps) (auto split: if_splits)
    then have "drain_and_read sv sy a (sock (ws c)) False None (ctx, e) = Some (0, s)"
      using assms(2,3) r by (subst drain_and_read.simps) simp
    then show ?thesis
      using assms(1) w(1,2) same by (simp add: service_what_we_came_for_def service_websocket_def)
  qed
qed

section \<open>A login\<close>

lemma listened_keeps:
  assumes "listened ctx ctx'"
  shows "new_connection ctx' a c = new_connection ctx a c" "service_buffer ctx' = service_buffer ctx"
    "conns ctx' = conns ctx" "conn_extensions ctx' = conn_extensions ctx"
  using assms by (auto simp: listened_def new_connection_def table_inv_def polled_def entry_def)

lemma new_connection_buffer: "new_connection (ctx\<lparr>service_buffer := mem\<rparr>) a c = new_connection ctx a c"
  by (simp add: new_connection_def table_inv_def polled_def entry_def)

lemma opened_calm:
  assumes "calm sy ctx acc" "listened ctx ctx1" "opened (ctx1\<lparr>service_buffer := mem\<rparr>) a c ctx'"
  shows "calm sy ctx' acc"
  using assms unfolding calm_def listened_def opened_def set_conn_def by (auto 0 4)

lemma open_reads:
  assumes "login_open w"
  shows "mode w = LWS_CONNMODE_WS_SERVING" "rxflow_buffer w = None"
  using assms by (simp_all add: login_open_def rx_idle_def flow_open_def)

text \<open>C1: a login from end to end, on a connection that was just accepted: the two turns of the service
  in which first the request of the page and then its message \<open>INIT\<close> arrive send the response of the handshake, the user
  name and the password, and nothing else. The client, a function of what it was sent,
  asks for the credentials once it has the response for its own key.\<close>

theorem login_session:
  assumes "net_ok sv sy acc" "login_server sv dumb" "runs dumb (callback_dumb_increment api (base_ops sv))" "arrays_ok api"
    and "quiet_desk api acc" "calm sy ctx acc" "new_connection ctx a c" "length (service_buffer ctx) = 4096"
    and "\<And>e. \<exists>e'. read_socket sy (sock (ws c)) e = (Received (client (acc e)), e') \<and> acc e' = acc e"
    and "client (acc e) = http_request uri hs" "length (http_request uri hs) \<le> 4096"
    and "good_request uri hs" "login_request hs" "handshake_headers hs k" "map_of hs WSI_TOKEN_ORIGIN = Some AUTHORIZED_URL"
    and "\<And>key. b64_decode key = Some (SHA1 (k @ ws_guid)) \<Longrightarrow>
      client (acc e @ response key (Some (ascii ''dumb-increment-protocol''))) = client_frame 0x81 mkey msg"
    and "length mkey = 4" "take 4 msg = ascii ''INIT''" "length msg \<le> 10"
    and "\<And>e. \<exists>e1 e2. credentials_at api e u p e1 \<and> send_notification api e1 = (True, e2)" "u \<noteq> []" "p \<noteq> []"
  shows "\<exists>key s1 ctx2 e2. b64_decode key = Some (SHA1 (k @ ws_guid)) \<and>
    libwebsocket_service_fd sv sy refuse (Some (sock (ws c), readable)) (ctx, e) = Some (0, s1) \<and>
    libwebsocket_service_fd sv sy refuse (Some (sock (ws c), readable)) s1 = Some (0, ctx2, e2) \<and>
    acc e2 = acc e @ response key (Some (ascii ''dumb-increment-protocol'')) @ server_frame LWS_WRITE_TEXT u @ server_frame LWS_WRITE_TEXT p"
proof -
  let ?buf = "\<lambda>bs ctx. bs @ drop (length bs) (service_buffer ctx)" and ?req = "http_request uri hs"
  have c: "table_inv ctx" "a \<in> polled ctx" "conns ctx a = Some c" "mode (ws c) = LWS_CONNMODE_HTTP_SERVING"
    using assms(7) by (simp_all add: new_connection_def awaiting_request_def)
  obtain ctx1 e1 where t1: "libwebsocket_service_fd sv sy refuse (Some (sock (ws c), readable)) (ctx, e) =
      service_what_we_came_for sv sy refuse a readable (ctx1, e1)" "listened ctx ctx1" "acc e1 = acc e"
    using service_turn [OF assms(6) c(1-3)] by blast
  note l = listened_keeps [OF t1(2)]
  obtain e2 where r1: "read_socket sy (sock (ws c)) e1 = (Received ?req, e2)" "acc e2 = acc e"
    using assms(9) [of e1] assms(10) t1(3) by auto
  have new: "new_connection (ctx1\<lparr>service_buffer := ?buf ?req ctx1\<rparr>) a c"
    using assms(7) l(1) by (simp add: new_connection_buffer)
  have buf: "length (service_buffer (ctx1\<lparr>service_buffer := ?buf ?req ctx1\<rparr>)) = 4096"
    using assms(8,11) l(2) by simp
  have "reject_request (ah h) b = Some False" if "headers_of uri hs h" "length b = 256" for h b
    using reject_short_origin [of "ah h" b] that assms(15) by (simp add: headers_of_def AUTHORIZED_URL_def ascii_def)
  from request_answered [OF assms(1-4) new assms(12-14) this buf, of e2]
  obtain key ctx2 e3 c' where a: "b64_decode key = Some (SHA1 (k @ ws_guid))"
    "libwebsocket_read sv sy a ?req (ctx1\<lparr>service_buffer := ?buf ?req ctx1\<rparr>, e2) = Some (0, ctx2, e3)"
    "acc e3 = acc e @ response key (Some (ascii ''dumb-increment-protocol''))"
    "login_open (ws c')" "same_place (ws c) (ws c')" "opened (ctx1\<lparr>service_buffer := ?buf ?req ctx1\<rparr>) a c' ctx2"
    "table_inv ctx2" "polled ctx2 = polled (ctx1\<lparr>service_buffer := ?buf ?req ctx1\<rparr>)"
    using r1(2) by auto
  have "?req \<noteq> []" by (simp add: http_request_def)
  then have s1: "libwebsocket_service_fd sv sy refuse (Some (sock (ws c), readable)) (ctx, e) = Some (0, ctx2, e3)"
    using t1(1) turn_reads [OF _ r1(1) _ _ _ a(2), of refuse] c l assms(8,11) by simp
  have c': "conns ctx2 a = Some c'" "conn_extensions ctx2 a = []" "sock (ws c') = sock (ws c)" "length (service_buffer ctx2) = 4096"
    using opened_D [OF a(6)] a(5,6) by (auto simp: same_place_def opened_def set_conn_def)
  have pol: "a \<in> polled ctx2" using new a(8) by (simp add: new_connection_def)
  obtain ctx3 e4 where t2: "libwebsocket_service_fd sv sy refuse (Some (sock (ws c), readable)) (ctx2, e3) =
      service_what_we_came_for sv sy refuse a readable (ctx3, e4)" "listened ctx2 ctx3" "acc e4 = acc e3"
    using service_turn [OF opened_calm [OF assms(6) t1(2) a(6)] a(7) pol c'(1)] c'(3) by metis
  note l2 = listened_keeps [OF t2(2)]
  let ?frame = "client_frame 0x81 mkey msg"
  obtain e5 where r2: "read_socket sy (sock (ws c')) e4 = (Received ?frame, e5)" "acc e5 = acc e3"
    using assms(9) [of e4] assms(16) [OF a(1)] t2(3) a(3) c'(3) by auto
  obtain x1 x2 where cr: "credentials_at api e5 u p x1" "send_notification api x1 = (True, x2)" using assms(20) by blast
  obtain w' e6 where m: "libwebsocket_read sv sy a ?frame (ctx3\<lparr>service_buffer := ?buf ?frame ctx3\<rparr>, e5) =
      Some (0, set_ws a w' (ctx3\<lparr>service_buffer := ?buf ?frame ctx3\<rparr>), e6)"
    "acc e6 = acc e5 @ server_frame LWS_WRITE_TEXT u @ server_frame LWS_WRITE_TEXT p"
    using message_releases [OF assms(1-5) _ a(4) _ assms(17-19) cr(1) assms(21,22) cr(2),
        where ctx = "ctx3\<lparr>service_buffer := ?buf ?frame ctx3\<rparr>" and a = a] c' l2 by auto
  have frame: "?frame \<noteq> []" "length ?frame \<le> 4096"
    using assms(17,19) by (simp_all add: client_frame_def frame_header_def)
  have "service_what_we_came_for sv sy refuse a readable (ctx3, e4) = Some (0, set_ws a w' (ctx3\<lparr>service_buffer := ?buf ?frame ctx3\<rparr>), e6)"
    by (rule turn_reads [OF _ r2(1) frame(1) _ _ m(1)])
      (use c' l2 frame open_reads [OF a(4)] assms(6) in \<open>simp_all add: calm_def\<close>)
  then show ?thesis using a(1,3) s1 t2(1) m(2) r2(2) by auto
qed

text \<open>A client that sends its request while it has been sent nothing, and then asks.\<close>

definition demo_request :: bytes where
  "demo_request = http_request (ascii ''/'') (page_headers (ascii ''websocket'') AUTHORIZED_URL)"

definition demo_peer :: "bytes \<Rightarrow> bytes" where
  "demo_peer got = (if got = [] then demo_request else client_frame 0x81 [1, 2, 3, 4] (ascii ''INIT''))"

definition log_sockets :: "bytes sockets" where
  "log_sockets = \<lparr>gettimeofday = (\<lambda>e. (0, e)), close_file = (\<lambda>fd e. e), has_ssl = (\<lambda>fd e. False), close_ssl = (\<lambda>fd e. e),
     close_socket = (\<lambda>fd e. e), malloc_bytes = (\<lambda>n e. (Some (replicate n 0), e)), setsockopt = (\<lambda>fd n e. (True, e)),
     ext_name_array = (\<lambda>e. replicate 128 0), recv = (\<lambda>fd n e. (Received (demo_peer e), e)),
     SSL_read = (\<lambda>fd n e. (Recv_failed, e)), SSL_pending = (\<lambda>fd e. False), SSL_new = (\<lambda>fd e. (False, e)),
     SSL_accept = (\<lambda>fd e. (Ssl_failed, e)), accept_socket = (\<lambda>fd e. (None, e)), lws_set_socket_options = (\<lambda>fd e. e),
     malloc_wsi = (\<lambda>e. (None, e)), malloc_headers = (\<lambda>e. (None, e)), poll_now = (\<lambda>fd e. (None, e)),
     file_system = \<lparr>open_file = (\<lambda>f e. (-1, e)), st_size = (\<lambda>d e. (0, e)), read_file = (\<lambda>d n e. (None, e)),
       lseek_cur = (\<lambda>d n e. e), close_fd = (\<lambda>d e. e)\<rparr>\<rparr>"

lemma demo_sockets: "net_ok demo_login log_sockets (\<lambda>e. e)"
  using demo_net unfolding net_ok_def silent_def by (simp add: log_net_def log_sockets_def)

theorem login_session_witness:
  "\<exists>key s1 ctx2 e2. b64_decode key = Some (SHA1 (ascii ''dGhlIHNhbXBsZSBub25jZQ=='' @ ws_guid)) \<and>
    libwebsocket_service_fd demo_login log_sockets (\<lambda>fd s. (False, s)) (Some (sock (ws demo_client), readable))
      (demo_context demo_client, []) = Some (0, s1) \<and>
    libwebsocket_service_fd demo_login log_sockets (\<lambda>fd s. (False, s)) (Some (sock (ws demo_client), readable)) s1 =
      Some (0, ctx2, e2) \<and>
    e2 = [] @ response key (Some (ascii ''dumb-increment-protocol'')) @ server_frame LWS_WRITE_TEXT card_user @
      server_frame LWS_WRITE_TEXT card_pass"
proof -
  have v: "plain_value WSI_TOKEN_UPGRADE (ascii ''websocket'')" "plain_value WSI_TOKEN_ORIGIN AUTHORIZED_URL"
    "ascii ''websocket'' \<noteq> []" "length (ascii ''websocket'') + length AUTHORIZED_URL \<le> 900"
    by (simp_all add: plain_value_def ascii_def AUTHORIZED_URL_def)
  note r = page_request [OF v]
  have runs: "runs willing_callback (callback_dumb_increment willing (base_ops demo_login))"
    using demo_runs(2) by (simp add: demo_login_def)
  have desk: "quiet_desk willing (\<lambda>e. e)" by (simp add: quiet_desk_def willing_def)
  have calm: "calm log_sockets (demo_context demo_client) (\<lambda>e. e)"
    by (simp add: calm_def log_sockets_def demo_context_def)
  have cr: "\<exists>e1 e2. credentials_at willing e card_user card_pass e1 \<and> send_notification willing e1 = (True, e2)" for e
    by (simp add: credentials_at_def willing_def card_user_def card_pass_def ascii_def c_str_def send_notification_def)
  have len: "length (http_request (ascii ''/'') (page_headers (ascii ''websocket'') AUTHORIZED_URL)) \<le> 4096"
    by (simp add: http_request_def request_line_def header_line_def header_names_def page_headers_def AUTHORIZED_URL_def ascii_def)
  show ?thesis
    by (rule login_session [OF demo_sockets demo_runs(1) runs demo_arrays desk calm demo_new _ _ _ len r(1-4) _ _ _ _ cr,
          where client = demo_peer and mkey = "[1, 2, 3, 4]" and msg = "ascii ''INIT''"])
      (simp_all add: log_sockets_def read_socket_def demo_peer_def demo_request_def demo_context_def response_def card_user_def
        card_pass_def ascii_def)
qed

end
