(* ===== verification/Card_Writer.thy ===== *)
theory Card_Writer
  imports Card_Reader
begin

text \<open>
  The program that writes cards, \<open>srl-rfid-writer/argoRFID-Writer/ArgoRFID-Writer.c\<close>. It is linked with copies of the files of
  the reader for the serial port, the database and the cipher, which are the same to the byte. Its console is the
  record \<open>console\<close>; what it prints has no place in the model.
\<close>

section \<open>State\<close>

text \<open>
  \<open>scanf_s\<close> with \<open>%s63\<close> reads one word into an array of the size it is given: \<open>None\<close> is every result but 1.
\<close>

record 'e console = "'e desktop" +
  scanf_s :: "nat \<Rightarrow> 'e \<Rightarrow> bytes option \<times> 'e"
  getch :: "'e \<Rightarrow> int \<times> 'e"
  getchar :: "'e \<Rightarrow> int \<times> 'e"

record writer = link +
  cipher_globals :: aes_state

type_synonym ('a, 'e) wr = "'a writer_scheme \<times> 'e"

abbreviation (input) MAX_LENGHT :: nat where "MAX_LENGHT \<equiv> 64"

definition pause :: "('e, 'b) desktop_scheme \<Rightarrow> 'e \<Rightarrow> 'e" where
  "pause api e = system_call api (ascii ''pause'') e"

section \<open>The dialogue\<close>

text \<open>
  The password is read key by key into the array at \<open>i\<close>: the key is read before the room is checked, and a backspace at
  the beginning is stored like any other key.
\<close>

partial_function (option) secure_loop ::
  "('e, 'b) console_scheme \<Rightarrow> bytes \<Rightarrow> nat \<Rightarrow> 'e \<Rightarrow> (bytes \<times> 'e) option" where
  "secure_loop api mem i e =
     (let (ch, e) = getch api e
      in if length mem \<le> i then None
         else if ch \<noteq> -1 \<and> ch \<noteq> 0x0a \<and> ch \<noteq> 0x0d \<and> i < MAX_LENGHT - 1 then
           (if ch = 0x08 \<and> 0 < i then secure_loop api (mem[i - 1 := 0]) (i - 1) e
            else secure_loop api (mem[i := word_of_int ch]) (i + 1) e)
         else Some (mem[i := 0], e))"

definition secure_input :: "('e, 'b) console_scheme \<Rightarrow> bytes \<Rightarrow> 'e \<Rightarrow> (bytes \<times> 'e) option" where
  "secure_input api mem e = secure_loop api mem 0 e"

text \<open>The question that is repeated until the answer is \<open>n\<close> or \<open>s\<close>: whether it is \<open>s\<close>.\<close>

partial_function (option) select_loop :: "('e, 'b) console_scheme \<Rightarrow> 'e \<Rightarrow> (bool \<times> 'e) option" where
  "select_loop api e =
     (let (c, e) = getchar api e; select = word_of_int c :: u8
      in if select = of_char CHR ''n'' then Some (False, e)
         else if select = of_char CHR ''s'' then Some (True, e)
         else select_loop api e)"

section \<open>The program\<close>

text \<open>A word that was read, in its array.\<close>

definition stored :: "bytes \<Rightarrow> bytes option" where
  "stored w = put_at (replicate MAX_LENGHT 0) 0 (w @ [0])"

text \<open>From the four inputs on. The result of \<open>main\<close> is \<open>None\<close> where it returns without a value.\<close>

definition write_card ::
  "('e, 'b) console_scheme \<Rightarrow> bytes \<Rightarrow> bytes \<Rightarrow> bytes \<Rightarrow> bytes \<Rightarrow> bytes \<Rightarrow> ('a, 'e) wr \<Rightarrow> (int option \<times> ('a, 'e) wr) option" where
  "write_card api OK nom cognom usern passw = (\<lambda>(st, e).
     let (aes, enc_username, enc_psw, ok) = encrypt_data (crypt api) (stack_context api) (cipher_globals st)
           usern passw (replicate MAX_LENGHT 0) (replicate MAX_LENGHT 0);
         st = st\<lparr>cipher_globals := aes\<rparr>
     in if \<not> ok then Some (Some (-1), st, pause api e)
        else do {
          (p, s) \<leftarrow> wait_for_device api OK (st, e);
          s \<leftarrow> write_block api p nom MAX_LENGHT 0x30 s;
          s \<leftarrow> write_block api p cognom MAX_LENGHT 0x31 s;
          s \<leftarrow> write_block api p enc_username MAX_LENGHT 0x32 s;
          s \<leftarrow> write_block api p enc_psw MAX_LENGHT 0x33 s;
          (serial_number, st, e) \<leftarrow> wait_serial_number api p (replicate SERIAL_LENGHT 0) s;
          (ret, e) \<leftarrow> is_serial_present (mysql_lib api) serial_number e;
          if ret = 1 then Some (None, st, e)
          else if ret = 0 then do {
            (r, e) \<leftarrow> insert_serial (mysql_lib api) serial_number e;
            Some (None, st, e) }
          else Some (Some 0, st, pause api e) })"

definition writer_main :: "('e, 'b) console_scheme \<Rightarrow> bytes \<Rightarrow> ('a, 'e) wr \<Rightarrow> (int option \<times> ('a, 'e) wr) option" where
  "writer_main api OK = (\<lambda>(st, e).
     (case scanf_s api MAX_LENGHT e of
        (None, e) \<Rightarrow> Some (Some (-1), st, e)
      | (Some nom, e) \<Rightarrow>
     (case scanf_s api MAX_LENGHT e of
        (None, e) \<Rightarrow> Some (Some (-1), st, e)
      | (Some cognom, e) \<Rightarrow>
     (case scanf_s api MAX_LENGHT e of
        (None, e) \<Rightarrow> Some (Some (-1), st, e)
      | (Some usern, e) \<Rightarrow>
          do {
            nom \<leftarrow> stored nom;
            cognom \<leftarrow> stored cognom;
            usern \<leftarrow> stored usern;
            (passw, e) \<leftarrow> secure_input api (replicate MAX_LENGHT 0) e;
            (shown, e) \<leftarrow> select_loop api e;
            write_card api OK nom cognom usern passw (st, if shown then pause api e else e) }))))"

end
