(* ===== verification/Mifare.thy ===== *)
theory Mifare
  imports Prelude "HOL-Library.Monad_Syntax"
begin

text \<open>
  The cards, from \<open>MifareRFID.cpp\<close> of the two boards (the file is the same for both). The MFRC522 library and the serial
  port of the board are the record \<open>board_lib\<close> of the functions the sketches call, over an environment of an arbitrary
  type; lamps, tones and pauses have no place in the model. An access outside of an array is \<open>None\<close>.
\<close>

section \<open>The libraries below\<close>

text \<open>
  \<open>PICC_ReadCardSerial\<close> leaves the serial number in a field of the library's object, which \<open>card_uid\<close> reads. A read of
  a block stores its bytes in the buffer, whose length it is given and updates. \<open>serial_read\<close> is -1 when nothing
  has arrived.
\<close>

record 'e board_lib =
  STATUS_OK :: u8
  GetStatusCodeName :: "u8 \<Rightarrow> bytes"
  PICC_IsNewCardPresent :: "'e \<Rightarrow> bool \<times> 'e"
  PICC_ReadCardSerial :: "'e \<Rightarrow> bool \<times> 'e"
  PICC_HaltA :: "'e \<Rightarrow> 'e"
  PCD_StopCrypto1 :: "'e \<Rightarrow> 'e"
  PCD_Authenticate :: "u8 \<Rightarrow> bytes \<Rightarrow> 'e \<Rightarrow> u8 \<times> 'e"
  MIFARE_Write :: "u8 \<Rightarrow> bytes \<Rightarrow> 'e \<Rightarrow> u8 \<times> 'e"
  MIFARE_Read :: "u8 \<Rightarrow> nat \<Rightarrow> 'e \<Rightarrow> u8 \<times> bytes \<times> nat \<times> 'e"
  card_uid :: "'e \<Rightarrow> bytes"
  serial_available :: "'e \<Rightarrow> nat \<times> 'e"
  serial_read :: "'e \<Rightarrow> int \<times> 'e"
  serial_find :: "bytes \<Rightarrow> 'e \<Rightarrow> bool \<times> 'e"
  serial_write :: "bytes \<Rightarrow> 'e \<Rightarrow> 'e"

section \<open>Cards\<close>

definition select_card :: "('e, 'x) board_lib_scheme \<Rightarrow> 'e \<Rightarrow> int \<times> 'e" where
  "select_card lib e =
     (let (new, e) = PICC_IsNewCardPresent lib e
      in if \<not> new then (-1, e)
         else let (read, e) = PICC_ReadCardSerial lib e in (if read then 0 else -1, e))"

text \<open>\<open>Serial.print(b, HEX)\<close>: upper case, without a leading zero.\<close>

definition hex_upper :: "u8 \<Rightarrow> bytes" where
  "hex_upper b =
     (let digit = (\<lambda>d. if d < 10 then 0x30 + d else 0x37 + d)
      in if b < 16 then [digit b] else [digit (drop_bit 4 b), digit (b AND 0xf)])"

definition print_serial :: "('e, 'x) board_lib_scheme \<Rightarrow> 'e \<Rightarrow> 'e" where
  "print_serial lib e = fold (\<lambda>b. serial_write lib (hex_upper b)) (card_uid lib e) e"

definition stop_write :: "('e, 'x) board_lib_scheme \<Rightarrow> 'e \<Rightarrow> 'e" where
  "stop_write lib e = PCD_StopCrypto1 lib (PICC_HaltA lib e)"

definition auth_trailer :: "('e, 'x) board_lib_scheme \<Rightarrow> bytes \<Rightarrow> u8 \<Rightarrow> 'e \<Rightarrow> u8 \<times> 'e" where
  "auth_trailer lib key trailer e = PCD_Authenticate lib trailer key e"

datatype board_error = ERROR_AUTH | ERROR_WRITE | ERROR_READ

definition error_text :: "board_error \<Rightarrow> bytes" where
  "error_text c = (case c of
       ERROR_AUTH \<Rightarrow> ascii ''PCD_Authenticate() failed: ''
     | ERROR_WRITE \<Rightarrow> ascii ''PCD_Write() failed: ''
     | ERROR_READ \<Rightarrow> ascii ''PCD_Read() failed: '')"

text \<open>Whether the result is an error; the text of it goes out on the line to the computer.\<close>

definition error_dump :: "('e, 'x) board_lib_scheme \<Rightarrow> board_error \<Rightarrow> u8 \<Rightarrow> 'e \<Rightarrow> bool \<times> 'e" where
  "error_dump lib code res e =
     (if res = STATUS_OK lib then (False, e)
      else
        let e = serial_write lib (error_text code) e;
            e = serial_write lib (GetStatusCodeName lib res @ [0x0d, 0x0a]) e
        in (True, e))"

section \<open>Blocks on a card\<close>

text \<open>
  The places of a block of 64 bytes: an authentication for the sector of a trailer, or sixteen bytes at an offset
  with their address. \<open>write_blocks\<close> and \<open>read_blocks\<close> go through the same places in the same order.
\<close>

datatype place = Trailer u8 | At u8 nat

datatype block_name = BLOCK_NAME | BLOCK_COGN | BLOCK_USER | BLOCK_PASS

definition places :: "block_name \<Rightarrow> place list" where
  "places sel = (case sel of
       BLOCK_NAME \<Rightarrow> [Trailer 0x07, At 0x04 0, At 0x05 16, At 0x06 32, Trailer 0x0b, At 0x08 48]
     | BLOCK_COGN \<Rightarrow> [At 0x09 0, At 0x0a 16, Trailer 0x0f, At 0x0c 32, At 0x0d 48]
     | BLOCK_USER \<Rightarrow> [At 0x0e 0, Trailer 0x13, At 0x10 16, At 0x11 32, At 0x12 48]
     | BLOCK_PASS \<Rightarrow> [Trailer 0x17, At 0x14 0, At 0x15 16, At 0x16 32, Trailer 0x1a, At 0x18 48])"

fun write_places ::
  "('e, 'x) board_lib_scheme \<Rightarrow> bytes \<Rightarrow> bytes \<Rightarrow> place list \<Rightarrow> 'e \<Rightarrow> (bool \<times> 'e) option" where
  "write_places lib key buf [] e = Some (True, e)"
| "write_places lib key buf (Trailer t # ps) e =
     (let (stat, e) = auth_trailer lib key t e; (bad, e) = error_dump lib ERROR_AUTH stat e
      in if bad then Some (False, e) else write_places lib key buf ps e)"
| "write_places lib key buf (At b off # ps) e =
     (if length buf < off + 16 then None
      else
        let (stat, e) = MIFARE_Write lib b (take 16 (drop off buf)) e; (bad, e) = error_dump lib ERROR_WRITE stat e
        in if bad then Some (False, e) else write_places lib key buf ps e)"

definition written_text :: "block_name \<Rightarrow> bytes" where
  "written_text sel = (case sel of
       BLOCK_NAME \<Rightarrow> ascii ''Write: NAME''
     | BLOCK_COGN \<Rightarrow> ascii ''Write: SURNAME''
     | BLOCK_USER \<Rightarrow> ascii ''Write: USERNAME''
     | BLOCK_PASS \<Rightarrow> ascii ''Write: PASSWORD'') @ [0x0a]"

definition write_blocks ::
  "('e, 'x) board_lib_scheme \<Rightarrow> bytes \<Rightarrow> block_name \<Rightarrow> bytes \<Rightarrow> 'e \<Rightarrow> 'e option" where
  "write_blocks lib key sel buf e =
     do {
       (ok, e) \<leftarrow> write_places lib key buf (places sel) e;
       Some (if ok then serial_write lib (written_text sel) e else e) }"

definition fill_array :: "bytes \<Rightarrow> bytes \<Rightarrow> nat \<Rightarrow> nat \<Rightarrow> bytes option" where
  "fill_array src dst off len = (if length src < len then None else put_at dst off (take len src))"

text \<open>The state of \<open>read_blocks\<close>: its local buffer of 18 bytes with the length the library knows of it, and the array.\<close>

fun read_places ::
  "('e, 'x) board_lib_scheme \<Rightarrow> bytes \<Rightarrow> bytes \<Rightarrow> nat \<Rightarrow> bytes \<Rightarrow> place list \<Rightarrow> 'e \<Rightarrow> (bool \<times> bytes \<times> 'e) option" where
  "read_places lib key tmp size_tmp buf [] e = Some (True, buf, e)"
| "read_places lib key tmp size_tmp buf (Trailer t # ps) e =
     (let (stat, e) = auth_trailer lib key t e; (bad, e) = error_dump lib ERROR_AUTH stat e
      in if bad then Some (False, buf, e) else read_places lib key tmp size_tmp buf ps e)"
| "read_places lib key tmp size_tmp buf (At b off # ps) e =
     (let (stat, bs, size_tmp, e) = MIFARE_Read lib b size_tmp e
      in do {
        tmp \<leftarrow> put_at tmp 0 bs;
        (let (bad, e) = error_dump lib ERROR_READ stat e
         in if bad then Some (False, buf, e)
            else do {
              buf \<leftarrow> fill_array tmp buf off 16;
              read_places lib key tmp size_tmp buf ps e }) })"

definition read_blocks ::
  "('e, 'x) board_lib_scheme \<Rightarrow> bytes \<Rightarrow> block_name \<Rightarrow> bytes \<Rightarrow> bytes \<Rightarrow> 'e \<Rightarrow> (bool \<times> bytes \<times> 'e) option" where
  "read_blocks lib key sel tmp buf e = read_places lib key tmp 18 buf (places sel) e"

section \<open>What is relied on of the chip and of a card\<close>

text \<open>
  What can be seen of the environment of a board: whether a card has come that has not been halted, its
  serial number, the sector the chip is authenticated for, the memory of the card by address, the bytes that
  have arrived from the computer and those that have been sent to it.
\<close>

record board_view =
  card_here :: bool
  uid_here :: bytes
  uid_read :: bytes
  sector :: "nat option"
  memory :: "u8 \<Rightarrow> bytes"
  inbox :: bytes
  sent :: bytes

text \<open>A sector has four blocks. A block can be read and written when the chip is authenticated for its sector.\<close>

definition sector_of :: "u8 \<Rightarrow> nat" where
  "sector_of b = unat b div 4"

definition chip_ok :: "('e, 'x) board_lib_scheme \<Rightarrow> ('e \<Rightarrow> board_view) \<Rightarrow> bool" where
  "chip_ok lib v \<longleftrightarrow>
     (\<forall>t key e. fst (PCD_Authenticate lib t key e) = STATUS_OK lib \<and>
        v (snd (PCD_Authenticate lib t key e)) = (v e)\<lparr>sector := Some (sector_of t)\<rparr>) \<and>
     (\<forall>b bs e. sector (v e) = Some (sector_of b) \<and> length bs = 16 \<longrightarrow> fst (MIFARE_Write lib b bs e) = STATUS_OK lib \<and>
        v (snd (MIFARE_Write lib b bs e)) = (v e)\<lparr>memory := (memory (v e))(b := bs)\<rparr>) \<and>
     (\<forall>b e. sector (v e) = Some (sector_of b) \<longrightarrow>
        (\<exists>crc e'. MIFARE_Read lib b 18 e = (STATUS_OK lib, memory (v e) b @ crc, 18, e') \<and> length crc = 2 \<and> v e' = v e)) \<and>
     (\<forall>bs e. v (serial_write lib bs e) = (v e)\<lparr>sent := sent (v e) @ bs\<rparr>) \<and>
     (\<forall>e. fst (PICC_IsNewCardPresent lib e) = card_here (v e) \<and> v (snd (PICC_IsNewCardPresent lib e)) = v e) \<and>
     (\<forall>e. fst (PICC_ReadCardSerial lib e) \<and> v (snd (PICC_ReadCardSerial lib e)) = (v e)\<lparr>uid_read := uid_here (v e)\<rparr>) \<and>
     (\<forall>e. card_uid lib e = uid_read (v e)) \<and>
     (\<forall>e. v (PICC_HaltA lib e) = (v e)\<lparr>card_here := False\<rparr>) \<and>
     (\<forall>e. v (PCD_StopCrypto1 lib e) = (v e)\<lparr>sector := None\<rparr>)"

lemma chip_okD:
  assumes "chip_ok lib v"
  shows chip_auth: "fst (PCD_Authenticate lib t key e) = STATUS_OK lib"
      "v (snd (PCD_Authenticate lib t key e)) = (v e)\<lparr>sector := Some (sector_of t)\<rparr>"
    and chip_write: "sector (v e) = Some (sector_of b) \<Longrightarrow> length bs = 16 \<Longrightarrow> fst (MIFARE_Write lib b bs e) = STATUS_OK lib"
      "sector (v e) = Some (sector_of b) \<Longrightarrow> length bs = 16 \<Longrightarrow>
        v (snd (MIFARE_Write lib b bs e)) = (v e)\<lparr>memory := (memory (v e))(b := bs)\<rparr>"
    and chip_read: "sector (v e) = Some (sector_of b) \<Longrightarrow>
        \<exists>crc e'. MIFARE_Read lib b 18 e = (STATUS_OK lib, memory (v e) b @ crc, 18, e') \<and> length crc = 2 \<and> v e' = v e"
    and chip_send: "v (serial_write lib bs e) = (v e)\<lparr>sent := sent (v e) @ bs\<rparr>"
    and chip_card: "fst (PICC_IsNewCardPresent lib e) = card_here (v e)" "v (snd (PICC_IsNewCardPresent lib e)) = v e"
      "fst (PICC_ReadCardSerial lib e)" "v (snd (PICC_ReadCardSerial lib e)) = (v e)\<lparr>uid_read := uid_here (v e)\<rparr>"
      "card_uid lib e = uid_read (v e)"
    and chip_stop: "v (PICC_HaltA lib e) = (v e)\<lparr>card_here := False\<rparr>" "v (PCD_StopCrypto1 lib e) = (v e)\<lparr>sector := None\<rparr>"
  using assms unfolding chip_ok_def by blast+

section \<open>What is written is read\<close>

text \<open>The sector the chip is authenticated for after some places, and whether every access is to that sector.\<close>

fun sector_after :: "nat option \<Rightarrow> place list \<Rightarrow> nat option" where
  "sector_after s [] = s"
| "sector_after s (Trailer t # ps) = sector_after (Some (sector_of t)) ps"
| "sector_after s (At b off # ps) = sector_after s ps"

fun authed :: "nat option \<Rightarrow> place list \<Rightarrow> bool" where
  "authed s [] = True"
| "authed s (Trailer t # ps) = authed (Some (sector_of t)) ps"
| "authed s (At b off # ps) = (s = Some (sector_of b) \<and> off + 16 \<le> 64 \<and> authed s ps)"

text \<open>What the places put into the memory of a card, and what they hold of an array.\<close>

fun store_places :: "bytes \<Rightarrow> place list \<Rightarrow> (u8 \<Rightarrow> bytes) \<Rightarrow> u8 \<Rightarrow> bytes" where
  "store_places buf [] m = m"
| "store_places buf (Trailer t # ps) m = store_places buf ps m"
| "store_places buf (At b off # ps) m = store_places buf ps (m(b := take 16 (drop off buf)))"

definition holds_places :: "(u8 \<Rightarrow> bytes) \<Rightarrow> bytes \<Rightarrow> place list \<Rightarrow> bool" where
  "holds_places m src ps \<longleftrightarrow> (\<forall>b off. At b off \<in> set ps \<longrightarrow> m b = take 16 (drop off src))"

lemma holds_places_Cons [simp]:
  "holds_places m src []" "holds_places m src (Trailer t # ps) \<longleftrightarrow> holds_places m src ps"
  "holds_places m src (At b off # ps) \<longleftrightarrow> m b = take 16 (drop off src) \<and> holds_places m src ps"
  by (auto simp: holds_places_def)

lemma write_places_ok:
  assumes "chip_ok lib v" "authed (sector (v e)) ps" "64 \<le> length buf"
  shows "\<exists>e'. write_places lib key buf ps e = Some (True, e') \<and>
    v e' = (v e)\<lparr>sector := sector_after (sector (v e)) ps, memory := store_places buf ps (memory (v e))\<rparr>"
  using assms(2)
proof (induction ps arbitrary: e)
  case Nil
  then show ?case by simp
next
  case (Cons p ps)
  note IH = Cons.IH
  show ?case
  proof (cases p)
    case (Trailer t)
    obtain s e1 where a: "PCD_Authenticate lib t key e = (s, e1)" by fastforce
    with chip_auth [OF assms(1), of t key e]
    have "s = STATUS_OK lib" "v e1 = (v e)\<lparr>sector := Some (sector_of t)\<rparr>" by simp_all
    with a IH [of e1] Cons.prems Trailer show ?thesis
      by (auto simp: auth_trailer_def error_dump_def)
  next
    case (At b off)
    then have b: "sector (v e) = Some (sector_of b)" "length (take 16 (drop off buf)) = 16" "off + 16 \<le> length buf"
      using Cons.prems assms(3) by (auto simp: min_def)
    obtain s e1 where w: "MIFARE_Write lib b (take 16 (drop off buf)) e = (s, e1)" by fastforce
    with chip_write [OF assms(1) b(1,2)]
    have "s = STATUS_OK lib" "v e1 = (v e)\<lparr>memory := (memory (v e))(b := take 16 (drop off buf))\<rparr>" by simp_all
    note e1 = this
    have "authed (sector (v e1)) ps" using Cons.prems At e1(2) by auto
    from IH [OF this] obtain e' where "write_places lib key buf ps e1 = Some (True, e')"
      "v e' = (v e1)\<lparr>sector := sector_after (sector (v e1)) ps, memory := store_places buf ps (memory (v e1))\<rparr>" by blast
    with w e1 At b(3) show ?thesis
      by (simp add: error_dump_def del: fun_upd_apply)
  qed
qed

text \<open>Sixteen bytes of \<open>src\<close> copied into \<open>dst\<close> at the offset of a place.\<close>

fun patch_places :: "bytes \<Rightarrow> place list \<Rightarrow> bytes \<Rightarrow> bytes" where
  "patch_places src [] dst = dst"
| "patch_places src (Trailer t # ps) dst = patch_places src ps dst"
| "patch_places src (At b off # ps) dst =
     patch_places src ps (take off dst @ take 16 (drop off src) @ drop (off + 16) dst)"

lemma read_places_ok:
  assumes "chip_ok lib v" "authed (sector (v e)) ps" "holds_places (memory (v e)) src ps"
    and "64 \<le> length src" "64 \<le> length dst" "length tmp = 18"
  shows "\<exists>e'. read_places lib key tmp 18 dst ps e = Some (True, patch_places src ps dst, e') \<and>
    v e' = (v e)\<lparr>sector := sector_after (sector (v e)) ps\<rparr>"
  using assms(2,3,5,6)
proof (induction ps arbitrary: e dst tmp)
  case Nil
  then show ?case by simp
next
  case (Cons p ps)
  note IH = Cons.IH
  show ?case
  proof (cases p)
    case (Trailer t)
    obtain s e1 where a: "PCD_Authenticate lib t key e = (s, e1)" by fastforce
    with chip_auth [OF assms(1), of t key e]
    have "s = STATUS_OK lib" "v e1 = (v e)\<lparr>sector := Some (sector_of t)\<rparr>" by simp_all
    with a IH [of e1 dst tmp] Cons.prems Trailer show ?thesis
      by (auto simp: auth_trailer_def error_dump_def)
  next
    case (At b off)
    then have b: "sector (v e) = Some (sector_of b)" "off + 16 \<le> 64" "memory (v e) b = take 16 (drop off src)"
      using Cons.prems by simp_all
    obtain crc e1 where r: "MIFARE_Read lib b 18 e = (STATUS_OK lib, take 16 (drop off src) @ crc, 18, e1)"
      "length crc = 2" "v e1 = v e"
      using chip_read [OF assms(1) b(1)] b(3) by auto
    let ?sl = "take 16 (drop off src)" and ?dst = "take off dst @ take 16 (drop off src) @ drop (off + 16) dst"
    have l: "length ?sl = 16" "length (?sl @ crc) = 18" "length ?dst = length dst"
      using assms(4) b(2) r(2) Cons.prems(3) by simp_all
    have p1: "put_at tmp 0 (?sl @ crc) = Some (?sl @ crc)" using l(2) Cons.prems(4) by (simp add: put_at_def)
    have p2: "fill_array (?sl @ crc) dst off 16 = Some ?dst"
      using l b(2) Cons.prems(3) by (simp add: fill_array_def put_at_def)
    have "\<exists>e'. read_places lib key (?sl @ crc) 18 ?dst ps e1 = Some (True, patch_places src ps ?dst, e') \<and>
        v e' = (v e1)\<lparr>sector := sector_after (sector (v e1)) ps\<rparr>"
      by (rule IH) (use Cons.prems At r(3) l in auto)
    then obtain e' where "read_places lib key (?sl @ crc) 18 ?dst ps e1 = Some (True, patch_places src ps ?dst, e')"
      "v e' = (v e1)\<lparr>sector := sector_after (sector (v e1)) ps\<rparr>" by blast
    with p1 p2 r At show ?thesis by (auto simp: error_dump_def)
  qed
qed

lemma sector_numerals:
  "sector_of 0x07 = 1" "sector_of 0x0b = 2" "sector_of 0x0f = 3" "sector_of 0x13 = 4" "sector_of 0x17 = 5" "sector_of 0x1a = 6"
  "sector_of 0x04 = 1" "sector_of 0x05 = 1" "sector_of 0x06 = 1" "sector_of 0x08 = 2" "sector_of 0x09 = 2" "sector_of 0x0a = 2"
  "sector_of 0x0c = 3" "sector_of 0x0d = 3" "sector_of 0x0e = 3" "sector_of 0x10 = 4" "sector_of 0x11 = 4" "sector_of 0x12 = 4"
  "sector_of 0x14 = 5" "sector_of 0x15 = 5" "sector_of 0x16 = 5" "sector_of 0x18 = 6"
  by (simp_all add: sector_of_def)

text \<open>Each block relies on the sector the block before it has left authenticated.\<close>

lemma places_authed:
  "authed s (places BLOCK_NAME)" "sector_after s (places BLOCK_NAME) = Some 2"
  "authed (Some 2) (places BLOCK_COGN)" "sector_after s (places BLOCK_COGN) = Some 3"
  "authed (Some 3) (places BLOCK_USER)" "sector_after s (places BLOCK_USER) = Some 4"
  "authed s (places BLOCK_PASS)" "sector_after s (places BLOCK_PASS) = Some 6"
  by (simp_all add: places_def sector_numerals)

lemma four_slices: "take 16 src @ take 16 (drop 16 src) @ take 16 (drop 32 src) @ take 16 (drop 48 src) = take 64 src"
proof -
  have 16: "take (i + 16) src = take i src @ take 16 (drop i src)" for i
    by (simp add: take_add)
  show ?thesis using 16 [of 48] 16 [of 32] 16 [of 16] by simp
qed

lemma four_sixteens:
  assumes "64 \<le> length src" "64 \<le> length dst"
  shows "patch_places src (places sel) dst = take 64 src @ drop 64 dst"
  unfolding four_slices [symmetric] using assms by (cases sel) (simp_all add: places_def)

definition holds_block :: "(u8 \<Rightarrow> bytes) \<Rightarrow> block_name \<Rightarrow> bytes \<Rightarrow> bool" where
  "holds_block m sel src \<longleftrightarrow> holds_places m src (places sel)"

text \<open>A block that is written is held, and the blocks before it are kept.\<close>

lemma store_holds: "holds_block (store_places buf (places sel) m) sel buf"
  by (cases sel) (simp_all add: holds_block_def places_def)

lemma store_keeps:
  "sel \<noteq> sel' \<Longrightarrow> holds_block m sel' src \<Longrightarrow> holds_block (store_places buf (places sel) m) sel' src"
  by (cases sel; cases sel') (simp_all add: holds_block_def places_def)

lemma write_blocks_ok:
  assumes "chip_ok lib v" "authed (sector (v e)) (places sel)" "64 \<le> length buf"
  shows "\<exists>e'. write_blocks lib key sel buf e = Some e' \<and>
    v e' = (v e)\<lparr>sector := sector_after (sector (v e)) (places sel), memory := store_places buf (places sel) (memory (v e)),
      sent := sent (v e) @ written_text sel\<rparr>"
  using write_places_ok [OF assms, of key] by (auto simp: write_blocks_def chip_send [OF assms(1)])

lemma read_blocks_ok:
  assumes "chip_ok lib v" "authed (sector (v e)) (places sel)" "holds_block (memory (v e)) sel src"
    and "64 \<le> length src" "64 \<le> length dst" "length tmp = 18"
  shows "\<exists>e'. read_blocks lib key sel tmp dst e = Some (True, take 64 src @ drop 64 dst, e') \<and>
    v e' = (v e)\<lparr>sector := sector_after (sector (v e)) (places sel)\<rparr>"
  using read_places_ok [OF assms(1,2) _ assms(4-6), of key] assms(3) four_sixteens [OF assms(4,5)]
  by (auto simp: read_blocks_def holds_block_def)

lemma print_serial_ok:
  assumes "chip_ok lib v"
  shows "v (print_serial lib e) = (v e)\<lparr>sent := sent (v e) @ concat (map hex_upper (uid_read (v e)))\<rparr>"
proof -
  have "v (fold (\<lambda>b. serial_write lib (hex_upper b)) bs e) = (v e)\<lparr>sent := sent (v e) @ concat (map hex_upper bs)\<rparr>" for bs
    by (induction bs arbitrary: e) (simp_all add: chip_send [OF assms])
  then show ?thesis by (simp add: print_serial_def chip_card(5) [OF assms])
qed

lemma select_card_ok:
  assumes "chip_ok lib v"
  shows "\<exists>e'. select_card lib e = (if card_here (v e) then 0 else -1, e') \<and>
    v e' = (if card_here (v e) then (v e)\<lparr>uid_read := uid_here (v e)\<rparr> else v e)"
  by (auto simp: select_card_def case_prod_unfold chip_card [OF assms])

lemma stop_write_ok:
  "chip_ok lib v \<Longrightarrow> v (stop_write lib e) = (v e)\<lparr>card_here := False, sector := None\<rparr>"
  by (simp add: stop_write_def chip_stop)

end
