(* ===== verification/Card_Boards.thy ===== *)
theory Card_Boards
  imports Mifare
begin

text \<open>
  The two boards, \<open>arduino/argoRFID_Writer/argoRFID_Writer.ino\<close> and \<open>arduino/argoRFID_Reader/argoRFID_Reader.ino\<close>: the first
  takes four blocks from the computer and writes them to a card, the second reads them from a card and hands them
  to the computer. One turn of \<open>loop\<close> is one definition.
\<close>

section \<open>State\<close>

text \<open>The four arrays have 65 bytes, for a block and its mark.\<close>

record board =
  nome :: bytes
  cognome :: bytes
  user_bytes :: bytes
  psw :: bytes
  connection_done :: bool

record writer_board = board +
  num_of_block :: nat
  num_of_byte :: nat
  block_ready :: bool

record reader_board = board +
  somthing_to_send :: bool

definition b_key :: bytes where
  "b_key = replicate 6 0xff"

definition init_msg :: bytes where
  "init_msg = ascii ''INIT'' @ [0x0a]"

partial_function (option) empty_serial :: "('e, 'x) board_lib_scheme \<Rightarrow> 'e \<Rightarrow> 'e option" where
  "empty_serial lib e =
     (let (n, e) = serial_available lib e
      in if 0 < n then let (c, e) = serial_read lib e in empty_serial lib e else Some e)"

section \<open>The board that writes\<close>

text \<open>Five reads, whether or not as many bytes have come, and how many of them agree with the message.\<close>

definition read_init :: "('e, 'x) board_lib_scheme \<Rightarrow> 'e \<Rightarrow> nat \<times> 'e" where
  "read_init lib e =
     fold (\<lambda>i (num, e). let (c, e) = serial_read lib e in (if c = int (unat (init_msg ! i)) then num + 1 else num, e)) [0..<5] (0, e)"

partial_function (option) connect_loop :: "('e, 'x) board_lib_scheme \<Rightarrow> bool \<Rightarrow> 'e \<Rightarrow> (bool \<times> 'e) option" where
  "connect_loop lib connected e =
     (let (n, e) = serial_available lib e
      in if 0 < n then
           let (num, e) = read_init lib e
           in if num = 5 then connect_loop lib True (serial_write lib (ascii ''OK!'') e) else connect_loop lib connected e
         else Some (connected, e))"

text \<open>The array the switch over \<open>num_of_block\<close> selects.\<close>

definition block_array :: "nat \<Rightarrow> 'a board_scheme \<Rightarrow> bytes" where
  "block_array k b = (if k = 0 then nome b else if k = 1 then cognome b else if k = 2 then user_bytes b else psw b)"

definition set_block_array :: "nat \<Rightarrow> bytes \<Rightarrow> 'a board_scheme \<Rightarrow> 'a board_scheme" where
  "set_block_array k a b =
     (if k = 0 then b\<lparr>nome := a\<rparr> else if k = 1 then b\<lparr>cognome := a\<rparr> else if k = 2 then b\<lparr>user_bytes := a\<rparr> else b\<lparr>psw := a\<rparr>)"

text \<open>
  The cases of the four blocks are alike but for the last, which makes the blocks ready or says on the line what
  was wrong.
\<close>

definition check_and_fill ::
  "('e, 'x) board_lib_scheme \<Rightarrow> 'a writer_board_scheme \<times> 'e \<Rightarrow> 'a writer_board_scheme \<times> 'e" where
  "check_and_fill lib = (\<lambda>(b, e).
     let k = num_of_block b in
     if 3 < k then (b, e)
     else if block_array k b ! num_of_byte b = word_of_nat k + 0x30 then
       (if k < 3 then (b\<lparr>num_of_byte := 0, num_of_block := k + 1\<rparr>, e)
        else (b\<lparr>block_ready := True, num_of_byte := 0, num_of_block := 0\<rparr>, e))
     else
       (b\<lparr>connection_done := False, num_of_byte := 0\<rparr>,
        if k = 3 then serial_write lib (ascii ''ERROR! Invalid message!'' @ [0x0a]) e else e))"

partial_function (option) receive_loop ::
  "('e, 'x) board_lib_scheme \<Rightarrow> 'a writer_board_scheme \<times> 'e \<Rightarrow> ('a writer_board_scheme \<times> 'e) option" where
  "receive_loop lib s =
     (let (n, e) = serial_available lib (snd s); b = fst s; k = num_of_block b
      in if n = 0 then Some (b, e)
         else if k \<le> 3 \<and> length (block_array k b) \<le> num_of_byte b then None
         else
           let (b, e) = (if 3 < k then (b, e)
                         else let (c, e) = serial_read lib e
                              in (set_block_array k ((block_array k b)[num_of_byte b := word_of_int c]) b, e))
           in if num_of_byte b = 64 then
                let (b, e) = check_and_fill lib (b, e)
                in Option.bind (empty_serial lib e) (\<lambda>e. receive_loop lib (b, e))
              else receive_loop lib (b\<lparr>num_of_byte := num_of_byte b + 1\<rparr>, e))"

definition writer_board_loop ::
  "('e, 'x) board_lib_scheme \<Rightarrow> 'a writer_board_scheme \<times> 'e \<Rightarrow> ('a writer_board_scheme \<times> 'e) option" where
  "writer_board_loop lib = (\<lambda>(b, e).
     if \<not> connection_done b then do {
       (c, e) \<leftarrow> connect_loop lib False e;
       e \<leftarrow> empty_serial lib e;
       Some (b\<lparr>connection_done := c\<rparr>, e) }
     else if \<not> block_ready b then receive_loop lib (b, e)
     else do {
       e \<leftarrow> empty_serial lib e;
       (let (r, e) = select_card lib e
        in if r = -1 then Some (b, e)
           else do {
             e \<leftarrow> write_blocks lib b_key BLOCK_NAME (nome b) (print_serial lib e);
             e \<leftarrow> write_blocks lib b_key BLOCK_COGN (cognome b) e;
             e \<leftarrow> write_blocks lib b_key BLOCK_USER (user_bytes b) e;
             e \<leftarrow> write_blocks lib b_key BLOCK_PASS (psw b) e;
             Some (b\<lparr>block_ready := False\<rparr>, stop_write lib e) }) })"

section \<open>The board that reads\<close>

partial_function (option) find_init :: "('e, 'x) board_lib_scheme \<Rightarrow> bool \<Rightarrow> 'e \<Rightarrow> (bool \<times> 'e) option" where
  "find_init lib connected e =
     (let (n, e) = serial_available lib e
      in if 0 < n then
           let (found, e) = serial_find lib init_msg e
           in if found then find_init lib True (serial_write lib (ascii ''OK!'') e) else find_init lib connected e
         else Some (connected, e))"

definition send_block :: "('e, 'x) board_lib_scheme \<Rightarrow> bytes \<Rightarrow> u8 \<Rightarrow> 'e \<Rightarrow> 'e" where
  "send_block lib a m e =
     serial_write lib [m] (fold (\<lambda>i. serial_write lib (take 16 (drop (i * 16) a))) [0..<4] e)"

definition send_data :: "('e, 'x) board_lib_scheme \<Rightarrow> 'a reader_board_scheme \<Rightarrow> 'e \<Rightarrow> 'e" where
  "send_data lib b e =
     print_serial lib (send_block lib (psw b) 0x33 (send_block lib (user_bytes b) 0x32
       (send_block lib (cognome b) 0x31 (send_block lib (nome b) 0x30 e))))"

partial_function (option) answer_loop ::
  "('e, 'x) board_lib_scheme \<Rightarrow> 'a reader_board_scheme \<times> 'e \<Rightarrow> ('a reader_board_scheme \<times> 'e) option" where
  "answer_loop lib s =
     (let (n, e) = serial_available lib (snd s); b = fst s
      in if 0 < n then
           let (found, e) = serial_find lib (ascii ''HEY!'') e
           in if \<not> found then answer_loop lib (b, e)
              else if somthing_to_send b then
                answer_loop lib (b\<lparr>somthing_to_send := False\<rparr>, send_data lib b (serial_write lib (ascii ''SS'') e))
              else answer_loop lib (b, serial_write lib (ascii ''KA'') e)
         else Some (b, e))"

text \<open>
  The part of a turn that reads a card; \<open>tmp\<close> is what the local buffers of \<open>read_blocks\<close> hold at first. A block that
  cannot be read ends the turn, and the arrays keep what has been read so far.
\<close>

definition read_mark :: "('e, 'x) board_lib_scheme \<Rightarrow> bytes \<Rightarrow> block_name \<Rightarrow> u8 \<Rightarrow> bytes \<Rightarrow> 'e \<Rightarrow> (bool \<times> bytes \<times> 'e) option" where
  "read_mark lib tmp sel m a e =
     do {
       (ok, a, e) \<leftarrow> read_blocks lib b_key sel tmp a e;
       if \<not> ok then Some (False, a, e)
       else if length a \<le> 64 then None
       else Some (True, a[64 := m], e) }"

definition read_card ::
  "('e, 'x) board_lib_scheme \<Rightarrow> bytes \<Rightarrow> 'a reader_board_scheme \<times> 'e \<Rightarrow> ('a reader_board_scheme \<times> 'e) option" where
  "read_card lib tmp = (\<lambda>(b, e). do {
     (ok, a, e) \<leftarrow> read_mark lib tmp BLOCK_NAME 0x30 (nome b) e;
     let b = b\<lparr>nome := a\<rparr> in if \<not> ok then Some (b, e) else do {
     (ok, a, e) \<leftarrow> read_mark lib tmp BLOCK_COGN 0x31 (cognome b) e;
     let b = b\<lparr>cognome := a\<rparr> in if \<not> ok then Some (b, e) else do {
     (ok, a, e) \<leftarrow> read_mark lib tmp BLOCK_USER 0x32 (user_bytes b) e;
     let b = b\<lparr>user_bytes := a\<rparr> in if \<not> ok then Some (b, e) else do {
     (ok, a, e) \<leftarrow> read_mark lib tmp BLOCK_PASS 0x33 (psw b) e;
     let b = b\<lparr>psw := a\<rparr> in if \<not> ok then Some (b, e)
     else Some (b\<lparr>somthing_to_send := True\<rparr>, stop_write lib e) } } } })"

definition reader_board_loop ::
  "('e, 'x) board_lib_scheme \<Rightarrow> bytes \<Rightarrow> 'a reader_board_scheme \<times> 'e \<Rightarrow> ('a reader_board_scheme \<times> 'e) option" where
  "reader_board_loop lib tmp = (\<lambda>(b, e).
     if \<not> connection_done b then do {
       (c, e) \<leftarrow> find_init lib False e;
       e \<leftarrow> empty_serial lib e;
       Some (b\<lparr>connection_done := c\<rparr>, e) }
     else do {
       (b, e) \<leftarrow> answer_loop lib (b, e);
       e \<leftarrow> empty_serial lib e;
       (let (r, e) = select_card lib e in if r \<noteq> 0 then Some (b, e) else read_card lib tmp (b, e)) })"

end
