(* ===== verification/Board_Exchange.thy ===== *)
theory Board_Exchange
  imports Card_Boards
begin

text \<open>
  What the boards do with what arrives: the writing board collects the blocks of the computer and puts them on a card, the
  reading board takes them from a card and sends them on.
\<close>

section \<open>What is relied on of the line\<close>

text \<open>
  \<open>arrive\<close> is the arrival of bytes between two turns. A search that meets its text at the beginning of what has arrived
  takes the text and no more.
\<close>

definition line_ok :: "('e, 'x) board_lib_scheme \<Rightarrow> ('e \<Rightarrow> board_view) \<Rightarrow> (bytes \<Rightarrow> 'e \<Rightarrow> 'e) \<Rightarrow> bool" where
  "line_ok lib v arrive \<longleftrightarrow>
     (\<forall>e. fst (serial_available lib e) = length (inbox (v e)) \<and> v (snd (serial_available lib e)) = v e) \<and>
     (\<forall>e c cs. inbox (v e) = c # cs \<longrightarrow> fst (serial_read lib e) = int (unat c) \<and>
        v (snd (serial_read lib e)) = (v e)\<lparr>inbox := cs\<rparr>) \<and>
     (\<forall>e t cs. inbox (v e) = t @ cs \<longrightarrow> fst (serial_find lib t e) \<and> v (snd (serial_find lib t e)) = (v e)\<lparr>inbox := cs\<rparr>) \<and>
     (\<forall>bs e. v (arrive bs e) = (v e)\<lparr>inbox := inbox (v e) @ bs\<rparr>)"

lemma line_okD:
  assumes "line_ok lib v arrive"
  shows line_available: "fst (serial_available lib e) = length (inbox (v e))" "v (snd (serial_available lib e)) = v e"
    and line_read: "inbox (v e) = c # cs \<Longrightarrow> fst (serial_read lib e) = int (unat c)"
      "inbox (v e) = c # cs \<Longrightarrow> v (snd (serial_read lib e)) = (v e)\<lparr>inbox := cs\<rparr>"
    and line_find: "inbox (v e) = t @ cs \<Longrightarrow> fst (serial_find lib t e)"
      "inbox (v e) = t @ cs \<Longrightarrow> v (snd (serial_find lib t e)) = (v e)\<lparr>inbox := cs\<rparr>"
    and line_arrive: "v (arrive bs e) = (v e)\<lparr>inbox := inbox (v e) @ bs\<rparr>"
  using assms unfolding line_ok_def by blast+

lemma line_available_pair:
  assumes "line_ok lib v arrive"
  obtains e' where "serial_available lib e = (length (inbox (v e)), e')" "v e' = v e"
  using line_available [OF assms] by (metis prod.collapse)

lemma line_read_pair:
  assumes "line_ok lib v arrive" "inbox (v e) = c # cs"
  obtains e' where "serial_read lib e = (int (unat c), e')" "v e' = (v e)\<lparr>inbox := cs\<rparr>"
  using line_read [OF assms] by (metis prod.collapse)

lemma line_find_pair:
  assumes "line_ok lib v arrive" "inbox (v e) = t @ cs"
  obtains e' where "serial_find lib t e = (True, e')" "v e' = (v e)\<lparr>inbox := cs\<rparr>"
  using line_find [OF assms] by (metis (full_types) prod.collapse)

lemma empty_serial_ok:
  assumes "line_ok lib v arrive"
  shows "\<exists>e'. empty_serial lib e = Some e' \<and> v e' = (v e)\<lparr>inbox := []\<rparr>"
proof (induction "inbox (v e)" arbitrary: e)
  case Nil
  obtain e1 where "serial_available lib e = (length (inbox (v e)), e1)" "v e1 = v e"
    by (rule line_available_pair [OF assms])
  then show ?case using Nil by (subst empty_serial.simps) simp
next
  case (Cons c cs)
  obtain e1 where a: "serial_available lib e = (length (inbox (v e)), e1)" "v e1 = v e"
    by (rule line_available_pair [OF assms])
  obtain e2 where r: "serial_read lib e1 = (int (unat c), e2)" "v e2 = (v e1)\<lparr>inbox := cs\<rparr>"
    using line_read_pair [OF assms, of e1 c cs] Cons.hyps(2) a(2) by metis
  have "inbox (v e2) = cs" using r(2) by simp
  then obtain e' where "empty_serial lib e2 = Some e'" "v e' = (v e2)\<lparr>inbox := []\<rparr>"
    using Cons.hyps(1) by blast
  then show ?case
    using a r Cons.hyps(2) [symmetric] by (subst empty_serial.simps) simp
qed

section \<open>Collecting blocks\<close>

lemma block_array_set:
  "k \<le> 3 \<Longrightarrow> block_array k (set_block_array k a b) = a"
  "set_block_array k a (set_block_array k a' b) = set_block_array k a b"
  "k \<le> 3 \<Longrightarrow> k' \<le> 3 \<Longrightarrow> k \<noteq> k' \<Longrightarrow> block_array k' (set_block_array k a b) = block_array k' b"
  by (auto simp: block_array_def set_block_array_def)

lemma block_array_update [simp]:
  "block_array k (b\<lparr>num_of_byte := i\<rparr>) = block_array k b" "block_array k (b\<lparr>num_of_block := j\<rparr>) = block_array k b"
  "block_array k (b\<lparr>block_ready := r\<rparr>) = block_array k b"
  "block_array k (b'\<lparr>connection_done := c\<rparr>) = block_array k b'"
  by (simp_all add: block_array_def)

lemma set_block_array_update [simp]:
  "set_block_array k a (b\<lparr>num_of_byte := i\<rparr>) = (set_block_array k a b)\<lparr>num_of_byte := i\<rparr>"
  "num_of_block (set_block_array k a b) = num_of_block b" "num_of_byte (set_block_array k a b) = num_of_byte b"
  "connection_done (set_block_array k a b) = connection_done b" "block_ready (set_block_array k a b) = block_ready b"
  by (simp_all add: set_block_array_def)

lemma block_array_self: "k \<le> 3 \<Longrightarrow> set_block_array k (block_array k b) b = b"
  by (auto simp: block_array_def set_block_array_def)

text \<open>One byte of a block.\<close>

lemma receive_byte:
  assumes "line_ok lib v arrive" "num_of_block b = k" "k \<le> 3" "length (block_array k b) = 65"
    and "num_of_byte b < 64" "inbox (v e) = c # cs"
  shows "\<exists>e'. receive_loop lib (b, e) = receive_loop lib ((set_block_array k
      ((block_array k b)[num_of_byte b := c]) b)\<lparr>num_of_byte := Suc (num_of_byte b)\<rparr>, e') \<and> v e' = (v e)\<lparr>inbox := cs\<rparr>"
proof -
  obtain e1 where a: "serial_available lib e = (length (inbox (v e)), e1)" "v e1 = v e"
    by (rule line_available_pair [OF assms(1)])
  obtain e2 where r: "serial_read lib e1 = (int (unat c), e2)" "v e2 = (v e1)\<lparr>inbox := cs\<rparr>"
    using line_read_pair [OF assms(1), of e1 c cs] assms(6) a(2) by metis
  show ?thesis
    using a r assms(2-6) by (intro exI [of _ e2]) (subst receive_loop.simps, simp)
qed

text \<open>The byte after a block.\<close>

lemma receive_mark:
  assumes "serial_available lib e = (Suc n, e1)" "serial_read lib e1 = (int (unat m), e2)"
    and "num_of_block b = k" "k \<le> 3" "length (block_array k b) = 65" "num_of_byte b = 64"
    and "check_and_fill lib (set_block_array k ((block_array k b)[64 := m]) b, e2) = (b', e3)"
  shows "receive_loop lib (b, e) = Option.bind (empty_serial lib e3) (\<lambda>e. receive_loop lib (b', e))"
  using assms by (subst receive_loop.simps) simp

text \<open>What the bytes \<open>bs\<close> from place \<open>i\<close> on make of an array.\<close>

lemma receive_piece:
  assumes "line_ok lib v arrive" "num_of_block b = k" "k \<le> 3" "length (block_array k b) = 65"
    and "inbox (v e) = bs @ cs" "num_of_byte b + length bs \<le> 64"
  shows "\<exists>e'. receive_loop lib (b, e) = receive_loop lib ((set_block_array k
      (take (num_of_byte b) (block_array k b) @ bs @ drop (num_of_byte b + length bs) (block_array k b)) b)
        \<lparr>num_of_byte := num_of_byte b + length bs\<rparr>, e') \<and>
    v e' = (v e)\<lparr>inbox := cs\<rparr>"
  using assms(2,4-6)
proof (induction bs arbitrary: b e)
  case Nil
  have "b\<lparr>num_of_byte := num_of_byte b\<rparr> = b" by simp
  then show ?case using Nil assms(3) by (intro exI [of _ e]) (simp add: block_array_self)
next
  case (Cons x bs)
  let ?i = "num_of_byte b" and ?a = "block_array k b"
  let ?b = "(set_block_array k (?a[?i := x]) b)\<lparr>num_of_byte := Suc ?i\<rparr>"
  obtain e1 where 1: "receive_loop lib (b, e) = receive_loop lib (?b, e1)" "v e1 = (v e)\<lparr>inbox := bs @ cs\<rparr>"
    using receive_byte [OF assms(1) Cons.prems(1) assms(3) Cons.prems(2), of e x "bs @ cs"] Cons.prems by auto
  have "take (Suc ?i) (?a[?i := x]) @ bs @ drop (Suc ?i + length bs) (?a[?i := x]) =
      take ?i ?a @ (x # bs) @ drop (?i + length (x # bs)) ?a"
    using Cons.prems(2,4) by (simp add: take_Suc_conv_app_nth)
  then show ?case
    using Cons.IH [of ?b e1] 1 Cons.prems assms(3) by (simp add: block_array_set)
qed

text \<open>A turn that takes a piece of a block.\<close>

lemma receive_ends:
  assumes "line_ok lib v arrive" "inbox (v e) = []"
  shows "\<exists>e'. receive_loop lib (b, e) = Some (b, e') \<and> v e' = v e"
proof -
  obtain e1 where a: "serial_available lib e = (length (inbox (v e)), e1)" "v e1 = v e"
    by (rule line_available_pair [OF assms(1)])
  then show ?thesis using assms(2) by (subst receive_loop.simps) simp
qed

text \<open>A block with its mark, from the first byte on, and what comes with the mark.\<close>

lemma receive_block:
  assumes "line_ok lib v arrive" "num_of_block b = k" "k \<le> 3" "length (block_array k b) = 65"
    and "inbox (v e) = drop (num_of_byte b) blk @ [word_of_nat k + 0x30] @ pad" "length blk = 64" "num_of_byte b \<le> 64"
    and "take (num_of_byte b) (block_array k b) = take (num_of_byte b) blk"
  shows "\<exists>b' e'. receive_loop lib (b, e) = Some (b', e') \<and> v e' = (v e)\<lparr>inbox := []\<rparr> \<and>
    b' = (set_block_array k (blk @ [word_of_nat k + 0x30]) b)\<lparr>num_of_byte := 0, num_of_block := (if k < 3 then k + 1 else 0),
      block_ready := (k = 3 \<or> block_ready b)\<rparr>"
proof -
  let ?m = "word_of_nat k + 0x30 :: u8"
  let ?b = "(set_block_array k (blk @ drop 64 (block_array k b)) b)\<lparr>num_of_byte := 64\<rparr>"
  have t: "take (num_of_byte b) (block_array k b) @ drop (num_of_byte b) blk @ drop 64 (block_array k b) = blk @ drop 64 (block_array k b)"
    using assms(8) by (metis append_assoc append_take_drop_id)
  have l: "num_of_byte b + length (drop (num_of_byte b) blk) = 64" using assms(6,7) by simp
  obtain e1 where 1: "receive_loop lib (b, e) = receive_loop lib (?b, e1)" "v e1 = (v e)\<lparr>inbox := [?m] @ pad\<rparr>"
    using receive_piece [OF assms(1-5), unfolded l t] by blast
  obtain y where y: "drop 64 (block_array k b) = [y]"
    using assms(4) by (cases "drop 64 (block_array k b)") (auto dest: arg_cong [where f = length])
  obtain e2 where a: "serial_available lib e1 = (length (inbox (v e1)), e2)" "v e2 = v e1"
    by (rule line_available_pair [OF assms(1)])
  obtain e3 where r: "serial_read lib e2 = (int (unat ?m), e3)" "v e3 = (v e2)\<lparr>inbox := pad\<rparr>"
    using line_read_pair [OF assms(1), of e2 ?m pad] 1(2) a(2) by auto
  obtain e4 where q: "empty_serial lib e3 = Some e4" "v e4 = (v e3)\<lparr>inbox := []\<rparr>"
    using empty_serial_ok [OF assms(1)] by blast
  let ?b' = "(set_block_array k (blk @ [?m]) b)\<lparr>num_of_byte := 0, num_of_block := (if k < 3 then k + 1 else 0),
      block_ready := (k = 3 \<or> block_ready b)\<rparr>"
  obtain e5 where z: "receive_loop lib (?b', e4) = Some (?b', e5)" "v e5 = v e4"
    using receive_ends [OF assms(1), of e4 ?b'] q(2) by auto
  have m: "block_array k ?b = blk @ [y]" "(blk @ [y])[64 := ?m] = blk @ [?m]" "(blk @ [?m]) ! 64 = ?m"
    using assms(3,6) y by (simp_all add: block_array_set list_update_append nth_append)
  let ?c = "(set_block_array k (blk @ [?m]) b)\<lparr>num_of_byte := 64\<rparr>"
  have c: "set_block_array k (blk @ [?m]) ?b = ?c" "block_array k ?c ! 64 = ?m"
    using assms(3) m(3) by (simp_all add: block_array_set)
  have f: "check_and_fill lib (?c, e3) = (?b', e3)"
    using assms(2,3) c(2) by (cases "k = 3") (auto simp: check_and_fill_def)
  have "receive_loop lib (?b, e1) = Option.bind (empty_serial lib e3) (\<lambda>e. receive_loop lib (?b', e))"
  proof (rule receive_mark [where k = k])
    show "serial_available lib e1 = (Suc (length pad), e2)" using a(1) 1(2) by simp
    show "check_and_fill lib (set_block_array k ((block_array k ?b)[64 := ?m]) ?b, e3) = (?b', e3)"
      unfolding m(1,2) c(1) by (rule f)
  qed (use r(1) assms(2-4,6) m(1) in simp_all)
  then have "receive_loop lib (?b, e1) = receive_loop lib (?b', e4)" using q(1) by simp
  then show ?thesis
    using 1 z q(2) r(2) a(2) by (intro exI [of _ ?b'] exI [of _ e5]) simp
qed

section \<open>Turns\<close>

text \<open>Turns of a board, before each of which some bytes have arrived.\<close>

fun turns :: "('b \<times> 'e \<Rightarrow> ('b \<times> 'e) option) \<Rightarrow> (bytes \<Rightarrow> 'e \<Rightarrow> 'e) \<Rightarrow> bytes list \<Rightarrow> 'b \<times> 'e \<Rightarrow> ('b \<times> 'e) option" where
  "turns f arrive [] s = Some s"
| "turns f arrive (bs # ps) s = do { s \<leftarrow> f (fst s, arrive bs (snd s)); turns f arrive ps s }"

lemma turns_append: "turns f arrive (ps @ qs) s = do { s \<leftarrow> turns f arrive ps s; turns f arrive qs s }"
  by (induction ps arbitrary: s) (simp_all split: Option.bind_split)

text \<open>The pieces in which the computer sends a block.\<close>

definition pieces :: "bytes \<Rightarrow> u8 \<Rightarrow> bytes list" where
  "pieces blk m = map (\<lambda>i. take 16 (drop (i * 16) (blk @ [m] @ replicate 15 0))) [0..<5]"

lemma pieces_alt:
  assumes "length blk = 64"
  shows "pieces blk m = map (\<lambda>i. take 16 (drop (i * 16) blk)) [0..<4] @ [m # replicate 15 0]"
  using assms by (simp add: pieces_def upt_conv_Cons)

text \<open>The board with the first \<open>j\<close> pieces of a block.\<close>

definition filled :: "nat \<Rightarrow> bytes \<Rightarrow> nat \<Rightarrow> 'a writer_board_scheme \<Rightarrow> 'a writer_board_scheme" where
  "filled k blk j b = (set_block_array k (take (16 * j) blk @ drop (16 * j) (block_array k b)) b)\<lparr>num_of_byte := 16 * j\<rparr>"

definition collecting :: "nat \<Rightarrow> 'a writer_board_scheme \<Rightarrow> bool" where
  "collecting k b \<longleftrightarrow> connection_done b \<and> \<not> block_ready b \<and> num_of_block b = k \<and> num_of_byte b = 0 \<and> k \<le> 3 \<and>
     (\<forall>i\<le>3. length (block_array i b) = 65)"

lemma piece_turn:
  assumes "line_ok lib v arrive" "collecting k b" "length blk = 64" "j < 4" "inbox (v e) = []"
  shows "\<exists>e'. writer_board_loop lib (filled k blk j b, arrive (take 16 (drop (j * 16) blk)) e) = Some (filled k blk (Suc j) b, e') \<and> v e' = v e"
proof -
  note c = assms(2) [unfolded collecting_def]
  let ?b = "filled k blk j b" and ?bs = "take 16 (drop (j * 16) blk)"
  have b: "num_of_block ?b = k" "connection_done ?b" "\<not> block_ready ?b" "num_of_byte ?b = 16 * j"
    "block_array k ?b = take (16 * j) blk @ drop (16 * j) (block_array k b)" "length (block_array k ?b) = 65" "length ?bs = 16"
    using c assms(3,4) by (simp_all add: filled_def block_array_set)
  have v: "v (arrive ?bs e) = (v e)\<lparr>inbox := ?bs\<rparr>" using line_arrive [OF assms(1)] assms(5) by simp
  have t: "take (16 * j) (block_array k ?b) @ ?bs @ drop (16 * j + 16) (block_array k ?b) =
      take (16 * Suc j) blk @ drop (16 * Suc j) (block_array k b)"
    using assms(3,4) c b(5) take_add [of "16 * j" 16 blk] by (simp add: mult.commute add.commute)
  obtain e1 where 1: "receive_loop lib (?b, arrive ?bs e) = receive_loop lib ((set_block_array k
      (take (16 * Suc j) blk @ drop (16 * Suc j) (block_array k b)) ?b)\<lparr>num_of_byte := 16 * j + 16\<rparr>, e1)" "v e1 = (v e)\<lparr>inbox := []\<rparr>"
    using receive_piece [OF assms(1) b(1) _ b(6), of "arrive ?bs e" ?bs "[]"] assms(4) b(4,7) v t c by auto
  have "(set_block_array k (take (16 * Suc j) blk @ drop (16 * Suc j) (block_array k b)) ?b)\<lparr>num_of_byte := 16 * j + 16\<rparr> =
      filled k blk (Suc j) b"
    by (simp add: filled_def block_array_set)
  then show ?thesis
    using 1 receive_ends [OF assms(1), of e1 "filled k blk (Suc j) b"] b(2,3) assms(5) by (auto simp: writer_board_loop_def)
qed

lemma pieces_turns:
  assumes "line_ok lib v arrive" "collecting k b" "length blk = 64" "j \<le> 4" "inbox (v e) = []"
  shows "\<exists>e'. turns (writer_board_loop lib) arrive (map (\<lambda>i. take 16 (drop (i * 16) blk)) [0..<j]) (b, e) = Some (filled k blk j b, e') \<and> v e' = v e"
  using assms(4)
proof (induction j)
  case 0
  have "b\<lparr>num_of_byte := num_of_byte b\<rparr> = b" by simp
  then show ?case using assms(2) by (simp add: filled_def collecting_def block_array_self)
next
  case (Suc j)
  then obtain e1 where 1: "turns (writer_board_loop lib) arrive (map (\<lambda>i. take 16 (drop (i * 16) blk)) [0..<j]) (b, e) = Some (filled k blk j b, e1)"
    "v e1 = v e" by auto
  then show ?case
    using piece_turn [OF assms(1-3), of j e1] Suc.prems assms(5) by (auto simp: turns_append)
qed

text \<open>A whole block.\<close>

lemma block_turns:
  assumes "line_ok lib v arrive" "collecting k b" "length blk = 64" "inbox (v e) = []"
  shows "\<exists>e'. turns (writer_board_loop lib) arrive (pieces blk (word_of_nat k + 0x30)) (b, e) =
      Some ((set_block_array k (blk @ [word_of_nat k + 0x30]) b)\<lparr>num_of_block := (if k < 3 then k + 1 else 0), block_ready := (k = 3)\<rparr>, e') \<and>
    v e' = v e"
proof -
  note c = assms(2) [unfolded collecting_def]
  let ?m = "word_of_nat k + 0x30 :: u8" and ?b = "filled k blk 4 b"
  obtain e1 where 1: "turns (writer_board_loop lib) arrive (map (\<lambda>i. take 16 (drop (i * 16) blk)) [0..<4]) (b, e) = Some (?b, e1)" "v e1 = v e"
    using pieces_turns [OF assms(1-3) order_refl assms(4)] by blast
  let ?e = "arrive (?m # replicate 15 0) e1"
  have b: "num_of_block ?b = k" "connection_done ?b" "\<not> block_ready ?b" "num_of_byte ?b = 64"
    "block_array k ?b = blk @ drop 64 (block_array k b)" "length (block_array k ?b) = 65"
    using c assms(3) by (simp_all add: filled_def block_array_set)
  have v: "v ?e = (v e)\<lparr>inbox := ?m # replicate 15 0\<rparr>" using line_arrive [OF assms(1)] assms(4) 1(2) by simp
  obtain b' e' where 2: "receive_loop lib (?b, ?e) = Some (b', e')" "v e' = (v ?e)\<lparr>inbox := []\<rparr>"
    "b' = (set_block_array k (blk @ [?m]) ?b)\<lparr>num_of_byte := 0, num_of_block := (if k < 3 then k + 1 else 0), block_ready := (k = 3 \<or> block_ready ?b)\<rparr>"
    using receive_block [OF assms(1) b(1) _ b(6), of ?e blk "replicate 15 0"] b(4,5) assms(3) v c by auto
  have n: "b\<lparr>num_of_byte := 0\<rparr> = b" using c by simp
  have "b' = (set_block_array k (blk @ [?m]) b)\<lparr>num_of_block := (if k < 3 then k + 1 else 0), block_ready := (k = 3)\<rparr>"
    using 2(3) b(3) c by (simp add: filled_def block_array_set)
  then show ?thesis
    using 1 2(1,2) v b(2,3) assms(4) by (simp add: pieces_alt [OF assms(3)] turns_append writer_board_loop_def)
qed

section \<open>The board that writes\<close>

lemma read_init_ok:
  assumes "line_ok lib v arrive" "inbox (v e) = init_msg @ cs"
  shows "\<exists>e'. read_init lib e = (5, e') \<and> v e' = (v e)\<lparr>inbox := cs\<rparr>"
proof -
  have "\<exists>e'. fold (\<lambda>i (num, e). let (c, e) = serial_read lib e in (if c = int (unat (init_msg ! i)) then num + 1 else num, e)) [j..<5] (j, e) =
      (5, e') \<and> v e' = (v e)\<lparr>inbox := cs\<rparr>" if "j \<le> 5" "inbox (v e) = drop j init_msg @ cs" for j e
    using that
  proof (induction "5 - j" arbitrary: j e)
    case 0
    then have "j = 5" by simp
    have "v e = (v e)\<lparr>inbox := inbox (v e)\<rparr>" by simp
    then show ?case using 0 \<open>j = 5\<close> by (auto simp: init_msg_def ascii_def)
  next
    case (Suc n)
    then have "j < 5" by simp
    moreover have "length init_msg = 5" by (simp add: init_msg_def ascii_def)
    ultimately have j: "j < 5" "drop j init_msg = init_msg ! j # drop (Suc j) init_msg"
      by (simp_all only: Cons_nth_drop_Suc)
    obtain e1 where r: "serial_read lib e = (int (unat (init_msg ! j)), e1)" "v e1 = (v e)\<lparr>inbox := drop (Suc j) init_msg @ cs\<rparr>"
      using line_read_pair [OF assms(1), of e "init_msg ! j" "drop (Suc j) init_msg @ cs"] Suc.prems j(2) by auto
    then show ?case
      using Suc.hyps(1) [of "Suc j" e1] Suc.hyps(2) j(1) by (auto simp: upt_conv_Cons)
  qed
  from this [of 0 e] show ?thesis using assms(2) by (simp add: read_init_def)
qed

lemma connect_turn:
  assumes "line_ok lib v arrive" "chip_ok lib v" "\<not> connection_done b" "inbox (v e) = []"
  shows "\<exists>e'. writer_board_loop lib (b, arrive init_msg e) = Some (b\<lparr>connection_done := True\<rparr>, e') \<and>
    v e' = (v e)\<lparr>sent := sent (v e) @ ascii ''OK!''\<rparr>"
proof -
  let ?e = "arrive init_msg e"
  have v: "v ?e = (v e)\<lparr>inbox := init_msg\<rparr>" using line_arrive [OF assms(1)] assms(4) by simp
  obtain e1 where 1: "serial_available lib ?e = (length (inbox (v ?e)), e1)" "v e1 = v ?e"
    by (rule line_available_pair [OF assms(1)])
  obtain e2 where 2: "read_init lib e1 = (5, e2)" "v e2 = (v e1)\<lparr>inbox := []\<rparr>"
    using read_init_ok [OF assms(1), of e1 "[]"] 1(2) v by auto
  let ?s = "serial_write lib (ascii ''OK!'') e2"
  have s: "v ?s = (v e2)\<lparr>sent := sent (v e2) @ ascii ''OK!''\<rparr>" by (rule chip_send [OF assms(2)])
  obtain e3 where 3: "serial_available lib ?s = (length (inbox (v ?s)), e3)" "v e3 = v ?s"
    by (rule line_available_pair [OF assms(1)])
  obtain e4 where 4: "empty_serial lib e3 = Some e4" "v e4 = (v e3)\<lparr>inbox := []\<rparr>"
    using empty_serial_ok [OF assms(1)] by blast
  have "connect_loop lib True ?s = Some (True, e3)"
    using 3 s 2(2) by (subst connect_loop.simps) simp
  then have "connect_loop lib False ?e = Some (True, e3)"
    using 1 2 v by (subst connect_loop.simps) (simp add: init_msg_def ascii_def)
  then show ?thesis
    using 1 2 s 3 4 v assms(3,4) by (simp add: writer_board_loop_def)
qed

text \<open>The board with its four blocks, ready for a card.\<close>

definition loaded :: "bytes \<Rightarrow> bytes \<Rightarrow> bytes \<Rightarrow> bytes \<Rightarrow> 'a writer_board_scheme \<Rightarrow> 'a writer_board_scheme" where
  "loaded n s u p b = b\<lparr>nome := n @ [0x30], cognome := s @ [0x31], user_bytes := u @ [0x32], psw := p @ [0x33], block_ready := True\<rparr>"

definition all_pieces :: "bytes \<Rightarrow> bytes \<Rightarrow> bytes \<Rightarrow> bytes \<Rightarrow> bytes list" where
  "all_pieces n s u p = pieces n 0x30 @ pieces s 0x31 @ pieces u 0x32 @ pieces p 0x33"

lemma collecting_next:
  assumes "collecting k b" "k < 3" "length blk = 64"
  shows "collecting (Suc k) ((set_block_array k (blk @ [m]) b)\<lparr>num_of_block := Suc k, block_ready := False\<rparr>)"
proof -
  have "length (block_array i (set_block_array k (blk @ [m]) b)) = 65" if "i \<le> 3" for i
    using assms that by (cases "i = k") (simp_all add: collecting_def block_array_set)
  then show ?thesis using assms by (simp add: collecting_def)
qed

lemma blocks_turns:
  fixes b :: "'a writer_board_scheme"
  assumes "line_ok lib v arrive" "collecting 0 b" "inbox (v e) = []"
    and "length n = 64" "length s = 64" "length u = 64" "length p = 64"
  shows "\<exists>e'. turns (writer_board_loop lib) arrive (all_pieces n s u p) (b, e) = Some (loaded n s u p b, e') \<and> v e' = v e"
proof -
  let ?next = "\<lambda>k blk m (b :: 'a writer_board_scheme). (set_block_array k (blk @ [m]) b)\<lparr>num_of_block := Suc k, block_ready := False\<rparr>"
  let ?b1 = "?next 0 n 0x30 b" let ?b2 = "?next 1 s 0x31 ?b1" let ?b3 = "?next 2 u 0x32 ?b2"
  have c1: "collecting 1 ?b1" using collecting_next [OF assms(2) _ assms(4)] by simp
  have c2: "collecting 2 ?b2" using collecting_next [OF c1 _ assms(5)] by (simp add: numeral_2_eq_2)
  have c3: "collecting 3 ?b3" using collecting_next [OF c2 _ assms(6)] by (simp add: numeral_3_eq_3)
  obtain e1 where 1: "turns (writer_board_loop lib) arrive (pieces n 0x30) (b, e) = Some (?b1, e1)" "v e1 = v e"
    using block_turns [OF assms(1,2,4,3)] by auto
  obtain e2 where 2: "turns (writer_board_loop lib) arrive (pieces s 0x31) (?b1, e1) = Some (?b2, e2)" "v e2 = v e"
    using block_turns [OF assms(1) c1 assms(5), of e1] 1(2) assms(3) by auto
  obtain e3 where 3: "turns (writer_board_loop lib) arrive (pieces u 0x32) (?b2, e2) = Some (?b3, e3)" "v e3 = v e"
    using block_turns [OF assms(1) c2 assms(6), of e2] 2(2) assms(3) by auto
  obtain e4 where 4: "turns (writer_board_loop lib) arrive (pieces p 0x33) (?b3, e3) =
      Some ((set_block_array 3 (p @ [0x33]) ?b3)\<lparr>num_of_block := 0, block_ready := True\<rparr>, e4)" "v e4 = v e"
    using block_turns [OF assms(1) c3 assms(7), of e3] 3(2) assms(3) by auto
  have "num_of_block b = 0" using assms(2) by (simp add: collecting_def)
  then have "(set_block_array 3 (p @ [0x33]) ?b3)\<lparr>num_of_block := 0, block_ready := True\<rparr> = loaded n s u p b"
    by (cases b) (simp add: loaded_def set_block_array_def)
  then show ?thesis
    using 1(1) 2(1) 3(1) 4 by (simp add: all_pieces_def turns_append)
qed

text \<open>A card that holds four blocks.\<close>

definition written_card :: "(u8 \<Rightarrow> bytes) \<Rightarrow> bytes \<Rightarrow> bytes \<Rightarrow> bytes \<Rightarrow> bytes \<Rightarrow> bool" where
  "written_card m n s u p \<longleftrightarrow> holds_block m BLOCK_NAME n \<and> holds_block m BLOCK_COGN s \<and> holds_block m BLOCK_USER u \<and> holds_block m BLOCK_PASS p"

definition uid_text :: "bytes \<Rightarrow> bytes" where
  "uid_text uid = concat (map hex_upper uid)"

lemma holds_block_extra: "length blk = 64 \<Longrightarrow> holds_block m sel (blk @ x) = holds_block m sel blk"
  by (cases sel) (simp_all add: holds_block_def places_def)

lemma card_written_turn:
  assumes "line_ok lib v arrive" "chip_ok lib v" "connection_done b" "block_ready b" "card_here (v e)" "inbox (v e) = []"
    and "64 \<le> length (nome b)" "64 \<le> length (cognome b)" "64 \<le> length (user_bytes b)" "64 \<le> length (psw b)"
  shows "\<exists>e' m. writer_board_loop lib (b, arrive [] e) = Some (b\<lparr>block_ready := False\<rparr>, e') \<and>
    v e' = (v e)\<lparr>card_here := False, uid_read := uid_here (v e), sector := None, memory := m,
      sent := sent (v e) @ uid_text (uid_here (v e)) @ concat (map written_text [BLOCK_NAME, BLOCK_COGN, BLOCK_USER, BLOCK_PASS])\<rparr> \<and>
    written_card m (nome b) (cognome b) (user_bytes b) (psw b)"
proof -
  have v: "v (arrive [] e) = v e" using line_arrive [OF assms(1)] by simp
  obtain e1 where 1: "empty_serial lib (arrive [] e) = Some e1" "v e1 = v e"
    using empty_serial_ok [OF assms(1), of "arrive [] e"] v assms(6) by auto
  obtain e2 where 2: "select_card lib e1 = (0, e2)" "v e2 = (v e)\<lparr>uid_read := uid_here (v e)\<rparr>"
    using select_card_ok [OF assms(2), of e1] 1(2) assms(5) by auto
  have 3: "v (print_serial lib e2) = (v e2)\<lparr>sent := sent (v e) @ uid_text (uid_here (v e))\<rparr>"
    using print_serial_ok [OF assms(2), of e2] 2(2) by (simp add: uid_text_def)
  obtain e4 where 4: "write_blocks lib b_key BLOCK_NAME (nome b) (print_serial lib e2) = Some e4"
    "v e4 = (v (print_serial lib e2))\<lparr>sector := Some 2, memory := store_places (nome b) (places BLOCK_NAME) (memory (v e)),
      sent := sent (v (print_serial lib e2)) @ written_text BLOCK_NAME\<rparr>"
    using write_blocks_ok [OF assms(2) places_authed(1) assms(7), where e = "print_serial lib e2" and key = b_key] 2(2) 3
    by (auto simp: places_authed(2))
  obtain e5 where 5: "write_blocks lib b_key BLOCK_COGN (cognome b) e4 = Some e5"
    "v e5 = (v e4)\<lparr>sector := Some 3, memory := store_places (cognome b) (places BLOCK_COGN) (memory (v e4)),
      sent := sent (v e4) @ written_text BLOCK_COGN\<rparr>"
    using write_blocks_ok [OF assms(2) _ assms(8), where e = e4 and sel = BLOCK_COGN and key = b_key] 4(2) by (auto simp: places_authed)
  obtain e6 where 6: "write_blocks lib b_key BLOCK_USER (user_bytes b) e5 = Some e6"
    "v e6 = (v e5)\<lparr>sector := Some 4, memory := store_places (user_bytes b) (places BLOCK_USER) (memory (v e5)),
      sent := sent (v e5) @ written_text BLOCK_USER\<rparr>"
    using write_blocks_ok [OF assms(2) _ assms(9), where e = e5 and sel = BLOCK_USER and key = b_key] 5(2) by (auto simp: places_authed)
  obtain e7 where 7: "write_blocks lib b_key BLOCK_PASS (psw b) e6 = Some e7"
    "v e7 = (v e6)\<lparr>sector := Some 6, memory := store_places (psw b) (places BLOCK_PASS) (memory (v e6)),
      sent := sent (v e6) @ written_text BLOCK_PASS\<rparr>"
    using write_blocks_ok [OF assms(2) places_authed(7) assms(10), where e = e6 and key = b_key] 6(2) by (auto simp: places_authed)
  have "writer_board_loop lib (b, arrive [] e) = Some (b\<lparr>block_ready := False\<rparr>, stop_write lib e7)"
    using 1(1) 2(1) 4(1) 5(1) 6(1) 7(1) assms(3,4) by (simp add: writer_board_loop_def)
  moreover have "written_card (memory (v e7)) (nome b) (cognome b) (user_bytes b) (psw b)"
    using 4(2) 5(2) 6(2) 7(2) by (simp add: written_card_def store_holds store_keeps)
  moreover have "v (stop_write lib e7) = (v e)\<lparr>card_here := False, uid_read := uid_here (v e), sector := None, memory := memory (v e7),
      sent := sent (v e) @ uid_text (uid_here (v e)) @ concat (map written_text [BLOCK_NAME, BLOCK_COGN, BLOCK_USER, BLOCK_PASS])\<rparr>"
    unfolding stop_write_ok [OF assms(2)] 7(2) 6(2) 5(2) 4(2) 3 2(2) by simp
  ultimately show ?thesis by blast
qed

section \<open>The board that reads\<close>

lemma read_mark_ok:
  assumes "chip_ok lib v" "authed (sector (v e)) (places sel)" "holds_block (memory (v e)) sel src"
    and "length src = 64" "length dst = 65" "length tmp = 18"
  shows "\<exists>e'. read_mark lib tmp sel m dst e = Some (True, src @ [m], e') \<and>
    v e' = (v e)\<lparr>sector := sector_after (sector (v e)) (places sel)\<rparr>"
proof -
  obtain e' where "read_blocks lib b_key sel tmp dst e = Some (True, take 64 src @ drop 64 dst, e')"
    "v e' = (v e)\<lparr>sector := sector_after (sector (v e)) (places sel)\<rparr>"
    using read_blocks_ok [OF assms(1-3), of dst tmp b_key] assms(4-6) by auto
  moreover obtain y where "drop 64 dst = [y]"
    using assms(5) by (cases "drop 64 dst") (auto dest: arg_cong [where f = length])
  ultimately show ?thesis
    using assms(4) by (simp add: read_mark_def list_update_append)
qed

definition reads_loaded :: "bytes \<Rightarrow> bytes \<Rightarrow> bytes \<Rightarrow> bytes \<Rightarrow> 'a reader_board_scheme \<Rightarrow> 'a reader_board_scheme" where
  "reads_loaded n s u p b = b\<lparr>nome := n @ [0x30], cognome := s @ [0x31], user_bytes := u @ [0x32], psw := p @ [0x33], somthing_to_send := True\<rparr>"

definition board_arrays :: "'a board_scheme \<Rightarrow> bool" where
  "board_arrays b \<longleftrightarrow> length (nome b) = 65 \<and> length (cognome b) = 65 \<and> length (user_bytes b) = 65 \<and> length (psw b) = 65"

lemma read_card_ok:
  assumes "chip_ok lib v" "written_card (memory (v e)) n s u p" "length tmp = 18" "board_arrays b"
    and "length n = 64" "length s = 64" "length u = 64" "length p = 64"
  shows "\<exists>e'. read_card lib tmp (b, e) = Some (reads_loaded n s u p b, e') \<and> v e' = (v e)\<lparr>card_here := False, sector := None\<rparr>"
proof -
  note w = assms(2) [unfolded written_card_def] and l = assms(4) [unfolded board_arrays_def]
  obtain e1 where 1: "read_mark lib tmp BLOCK_NAME 0x30 (nome b) e = Some (True, n @ [0x30], e1)" "v e1 = (v e)\<lparr>sector := Some 2\<rparr>"
    using read_mark_ok [OF assms(1) places_authed(1) _ assms(5) _ assms(3)] w l by (metis places_authed(2))
  obtain e2 where 2: "read_mark lib tmp BLOCK_COGN 0x31 (cognome b) e1 = Some (True, s @ [0x31], e2)" "v e2 = (v e)\<lparr>sector := Some 3\<rparr>"
    using read_mark_ok [OF assms(1) _ _ assms(6) _ assms(3), of e1 BLOCK_COGN "cognome b" "0x31"] w l 1(2) by (auto simp: places_authed)
  obtain e3 where 3: "read_mark lib tmp BLOCK_USER 0x32 (user_bytes b) e2 = Some (True, u @ [0x32], e3)" "v e3 = (v e)\<lparr>sector := Some 4\<rparr>"
    using read_mark_ok [OF assms(1) _ _ assms(7) _ assms(3), of e2 BLOCK_USER "user_bytes b" "0x32"] w l 2(2) by (auto simp: places_authed)
  obtain e4 where 4: "read_mark lib tmp BLOCK_PASS 0x33 (psw b) e3 = Some (True, p @ [0x33], e4)" "v e4 = (v e)\<lparr>sector := Some 6\<rparr>"
    using read_mark_ok [OF assms(1) places_authed(7) _ assms(8) _ assms(3), of e3 "psw b" "0x33"] w l 3(2) by (auto simp: places_authed)
  show ?thesis
    using 1(1) 2(1) 3(1) 4 stop_write_ok [OF assms(1), of e4] by (simp add: read_card_def reads_loaded_def)
qed

lemma answer_ends:
  assumes "line_ok lib v arrive" "inbox (v e) = []"
  shows "\<exists>e'. answer_loop lib (b, e) = Some (b, e') \<and> v e' = v e"
proof -
  obtain e1 where a: "serial_available lib e = (length (inbox (v e)), e1)" "v e1 = v e"
    by (rule line_available_pair [OF assms(1)])
  then show ?thesis using assms(2) by (subst answer_loop.simps) simp
qed

lemma read_card_turn:
  assumes "line_ok lib v arrive" "chip_ok lib v" "connection_done b" "card_here (v e)" "inbox (v e) = []"
    and "written_card (memory (v e)) n s u p" "length tmp = 18" "board_arrays b"
    and "length n = 64" "length s = 64" "length u = 64" "length p = 64"
  shows "\<exists>e'. reader_board_loop lib tmp (b, arrive [] e) = Some (reads_loaded n s u p b, e') \<and>
    v e' = (v e)\<lparr>card_here := False, uid_read := uid_here (v e), sector := None\<rparr>"
proof -
  have v: "v (arrive [] e) = v e" using line_arrive [OF assms(1)] by simp
  obtain e1 where 1: "answer_loop lib (b, arrive [] e) = Some (b, e1)" "v e1 = v e"
    using answer_ends [OF assms(1), of "arrive [] e" b] v assms(5) by auto
  obtain e2 where 2: "empty_serial lib e1 = Some e2" "v e2 = v e"
    using empty_serial_ok [OF assms(1), of e1] 1(2) assms(5) by auto
  obtain e3 where 3: "select_card lib e2 = (0, e3)" "v e3 = (v e)\<lparr>uid_read := uid_here (v e)\<rparr>"
    using select_card_ok [OF assms(2), of e2] 2(2) assms(4) by auto
  obtain e4 where "read_card lib tmp (b, e3) = Some (reads_loaded n s u p b, e4)" "v e4 = (v e3)\<lparr>card_here := False, sector := None\<rparr>"
    using read_card_ok [OF assms(2) _ assms(7-12), of e3] 3(2) assms(6) by auto
  then show ?thesis
    using 1(1) 2(1) 3 assms(3) by (simp add: reader_board_loop_def)
qed

lemma send_block_ok:
  assumes "chip_ok lib v" "length blk = 64"
  shows "v (send_block lib (blk @ x) m e) = (v e)\<lparr>sent := sent (v e) @ blk @ [m]\<rparr>"
proof -
  have "take 16 blk @ take 16 (drop 16 blk) @ take 16 (drop 32 blk) @ take 16 (drop 48 blk) @ [m] = blk @ [m]"
    using four_slices [of blk] assms(2) by (metis append_assoc order_refl take_all_iff)
  then show ?thesis
    using assms(2) by (simp add: send_block_def upt_conv_Cons chip_send [OF assms(1)])
qed

lemma send_turn:
  assumes "line_ok lib v arrive" "chip_ok lib v" "connection_done b" "\<not> card_here (v e)" "inbox (v e) = []"
    and "length n = 64" "length s = 64" "length u = 64" "length p = 64"
  shows "\<exists>e'. reader_board_loop lib tmp (reads_loaded n s u p b, arrive (ascii ''HEY!'') e) =
      Some (reads_loaded n s u p b\<lparr>somthing_to_send := False\<rparr>, e') \<and>
    v e' = (v e)\<lparr>sent := sent (v e) @ ascii ''SS'' @ n @ [0x30] @ s @ [0x31] @ u @ [0x32] @ p @ [0x33] @ uid_text (uid_read (v e))\<rparr>"
proof -
  let ?b = "reads_loaded n s u p b" and ?e = "arrive (ascii ''HEY!'') e"
  have v: "v ?e = (v e)\<lparr>inbox := ascii ''HEY!''\<rparr>" using line_arrive [OF assms(1)] assms(5) by simp
  have b: "somthing_to_send ?b" "connection_done ?b" "nome ?b = n @ [0x30]" "cognome ?b = s @ [0x31]" "user_bytes ?b = u @ [0x32]"
    "psw ?b = p @ [0x33]" using assms(3) by (simp_all add: reads_loaded_def)
  obtain e1 where 1: "serial_available lib ?e = (length (inbox (v ?e)), e1)" "v e1 = v ?e"
    by (rule line_available_pair [OF assms(1)])
  obtain e2 where 2: "serial_find lib (ascii ''HEY!'') e1 = (True, e2)" "v e2 = (v e1)\<lparr>inbox := []\<rparr>"
    using line_find_pair [OF assms(1), of e1 "ascii ''HEY!''" "[]"] 1(2) v by auto
  let ?s = "send_data lib ?b (serial_write lib (ascii ''SS'') e2)"
  have "v ?s = (v e2)\<lparr>sent := sent (v e2) @ ascii ''SS'' @ n @ [0x30] @ s @ [0x31] @ u @ [0x32] @ p @ [0x33] @ uid_text (uid_read (v e2))\<rparr>"
    unfolding send_data_def b(3-6) print_serial_ok [OF assms(2)] send_block_ok [OF assms(2,6)] send_block_ok [OF assms(2,7)]
      send_block_ok [OF assms(2,8)] send_block_ok [OF assms(2,9)] chip_send [OF assms(2)] by (simp add: uid_text_def)
  then have s: "v ?s = (v e)\<lparr>sent := sent (v e) @ ascii ''SS'' @ n @ [0x30] @ s @ [0x31] @ u @ [0x32] @ p @ [0x33] @ uid_text (uid_read (v e))\<rparr>"
    using 2(2) 1(2) v assms(5) by simp
  obtain e3 where 3: "answer_loop lib (?b\<lparr>somthing_to_send := False\<rparr>, ?s) = Some (?b\<lparr>somthing_to_send := False\<rparr>, e3)" "v e3 = v ?s"
    using answer_ends [OF assms(1), of ?s "?b\<lparr>somthing_to_send := False\<rparr>"] s assms(5) by auto
  have "answer_loop lib (?b, ?e) = answer_loop lib (?b\<lparr>somthing_to_send := False\<rparr>, ?s)"
    using 1 2 v b(1) by (subst answer_loop.simps) (simp add: ascii_def Let_def)
  then have l: "answer_loop lib (?b, ?e) = Some (?b\<lparr>somthing_to_send := False\<rparr>, e3)" using 3(1) by simp
  obtain e4 where 4: "empty_serial lib e3 = Some e4" "v e4 = v e3"
    using empty_serial_ok [OF assms(1), of e3] 3(2) s assms(5) by auto
  obtain e5 where 5: "select_card lib e4 = (-1, e5)" "v e5 = v e4"
    using select_card_ok [OF assms(2), of e4] 4(2) 3(2) s assms(4) by auto
  show ?thesis
    using l 4 5 3(2) s b(2) by (simp add: reader_board_loop_def)
qed

end
