(* ===== verification/Writer_Session.thy ===== *)
theory Writer_Session
  imports Card_Writer Reader_Exchange Board_Search Board_Exchange
begin

text \<open>
  A run of the program that writes cards: what is typed, what goes out on the line, and what the database knows afterwards.
\<close>

section \<open>The keyboard\<close>

text \<open>\<open>keys e\<close> are the keys that will be struck; the console leaves \<open>f\<close> of the environment alone.\<close>

definition keyboard :: "('e, 'b) console_scheme \<Rightarrow> ('e \<Rightarrow> int list) \<Rightarrow> ('e \<Rightarrow> 'k) \<Rightarrow> bool" where
  "keyboard api keys f \<longleftrightarrow>
     (\<forall>e k ks. keys e = k # ks \<longrightarrow> (\<exists>e'. getch api e = (k, e') \<and> keys e' = ks \<and> f e' = f e)) \<and>
     (\<forall>e. f (snd (getchar api e)) = f e) \<and> (\<forall>n e. f (snd (scanf_s api n e)) = f e) \<and>
     (\<forall>c e. f (system_call api c e) = f e)"

lemma keyboard_getch:
  assumes "keyboard api keys f" "keys e = k # ks"
  obtains e' where "getch api e = (k, e')" "keys e' = ks" "f e' = f e"
  using assms unfolding keyboard_def by blast

abbreviation ends_input :: "int \<Rightarrow> bool" where
  "ends_input k \<equiv> k = -1 \<or> k = 0x0a \<or> k = 0x0d"

text \<open>The password the keys spell: at most 63 bytes, with backspace taking back the last one.\<close>

fun typed :: "int list \<Rightarrow> bytes \<Rightarrow> bytes" where
  "typed [] w = w"
| "typed (k # ks) w =
     (if ends_input k \<or> 63 \<le> length w then w
      else if k = 0x08 \<and> w \<noteq> [] then typed ks (butlast w)
      else typed ks (w @ [word_of_int k]))"

lemma typed_length: "length w \<le> 63 \<Longrightarrow> length (typed ks w) \<le> 63"
  by (induction ks w rule: typed.induct) auto

abbreviation (input) padded :: "bytes \<Rightarrow> bytes" where
  "padded w \<equiv> w @ replicate (64 - length w) 0"

lemma secure_loop_types:
  assumes "keyboard api keys f" "keys e = ks" "\<exists>k\<in>set ks. ends_input k" "length w \<le> 63"
  shows "\<exists>e'. secure_loop api (padded w) (length w) e = Some (padded (typed ks w), e') \<and> f e' = f e"
  using assms(2-4)
proof (induction ks w arbitrary: e rule: typed.induct)
  case (1 w)
  then show ?case by simp
next
  case (2 k ks w)
  obtain e1 where g: "getch api e = (k, e1)" "keys e1 = ks" "f e1 = f e"
    by (rule keyboard_getch [OF assms(1) 2(3)])
  have i: "length w < length (padded w)" using 2(5) by simp
  show ?case
  proof (cases "ends_input k \<or> 63 \<le> length w")
    case True
    then have "secure_loop api (padded w) (length w) e = Some ((padded w)[length w := 0], e1)"
      using g i by (subst secure_loop.simps) auto
    moreover have "(padded w)[length w := 0] = padded w" using 2(5) by (intro nth_equalityI) (auto simp: nth_append nth_list_update)
    moreover have "typed (k # ks) w = w" using True by simp
    ultimately show ?thesis using g(3) by (simp del: typed.simps)
  next
    case False
    have more: "\<exists>k\<in>set ks. ends_input k" using 2(4) False by auto
    show ?thesis
    proof (cases "k = 0x08 \<and> w \<noteq> []")
      case True
      then have "secure_loop api (padded w) (length w) e = secure_loop api ((padded w)[length w - 1 := 0]) (length w - 1) e1"
        using g i False by (subst secure_loop.simps) auto
      moreover have "(padded w)[length w - 1 := 0] = padded (butlast w)"
        using True 2(5) by (intro nth_equalityI) (auto simp: nth_append nth_list_update nth_butlast)
      ultimately have "secure_loop api (padded w) (length w) e = secure_loop api (padded (butlast w)) (length (butlast w)) e1"
        by (simp only: length_butlast)
      then show ?thesis
        using 2(1) [OF False True g(2) more] 2(5) g(3) False True by auto
    next
      case nb: False
      then have "secure_loop api (padded w) (length w) e = secure_loop api ((padded w)[length w := word_of_int k]) (length w + 1) e1"
        using g i False by (subst secure_loop.simps) auto
      moreover have "(padded w)[length w := word_of_int k] = padded (w @ [word_of_int k])"
        using 2(5) by (intro nth_equalityI) (auto simp: nth_append nth_list_update)
      ultimately have "secure_loop api (padded w) (length w) e =
          secure_loop api (padded (w @ [word_of_int k])) (length (w @ [word_of_int k])) e1"
        by (simp only: length_append list.size One_nat_def add_Suc_right add_0_right)
      then show ?thesis
        using 2(2) [OF False nb g(2) more] g(3) False nb by auto
    qed
  qed
qed

lemma secure_input_types:
  assumes "keyboard api keys f" "\<exists>k\<in>set (keys e). ends_input k"
  shows "\<exists>e'. secure_input api (replicate 64 0) e = Some (padded (typed (keys e) []), e') \<and> f e' = f e"
  using secure_loop_types [OF assms(1) refl assms(2), of "[]"] by (simp add: secure_input_def)

lemma select_loop_frame:
  assumes "keyboard api keys f" "select_loop api e = Some (b, e')"
  shows "f e' = f e"
proof -
  have "keyboard api keys f \<longrightarrow> f (snd (b, e')) = f e"
  proof (rule select_loop.raw_induct [where P = "\<lambda>api e r. keyboard api keys f \<longrightarrow> f (snd r) = f e", OF _ assms(2)], goal_cases)
    case (1 rec api e r)
    obtain c e1 where g: "getchar api e = (c, e1)" by fastforce
    show ?case
    proof
      assume k: "keyboard api keys f"
      then have "f e1 = f e" using g unfolding keyboard_def by (metis snd_conv)
      then show "f (snd r) = f e" using 1(2) 1(1) [of api e1 r] k g by (auto simp: Let_def split: if_splits)
    qed
  qed
  then show ?thesis using assms(1) by simp
qed

section \<open>The line to the board\<close>

text \<open>
  \<open>rest e\<close> is what the board will send and the program has not yet read, \<open>out e\<close> the pieces that have gone out to it, one per
  write. The answer to the search is read on its own: the board sends nothing more before it has the blocks.
\<close>

definition writer_line :: "('e, 'b) win32_scheme \<Rightarrow> handle \<Rightarrow> ('e \<Rightarrow> bytes) \<Rightarrow> ('e \<Rightarrow> bytes list) \<Rightarrow> ('e \<Rightarrow> 'k) \<Rightarrow> bool" where
  "writer_line api h rest out keep \<longleftrightarrow>
     line_reads api rest (\<lambda>e. (out e, keep e)) \<and>
     (\<forall>bs e. \<exists>e'. WriteFile api h bs e = (True, length bs, e') \<and> rest e' = rest e \<and> out e' = out e @ [bs] \<and> keep e' = keep e) \<and>
     (\<forall>e R. rest e = ascii ''OK!'' @ R \<longrightarrow> length (fst (ReadFile api h 4 e)) = 3) \<and>
     opens_quietly api (\<lambda>e. (rest e, out e, keep e))"

lemma writer_line_D:
  assumes "writer_line api h rest out keep"
  shows "line_reads api rest (\<lambda>e. (out e, keep e))"
    and "\<exists>e'. WriteFile api h bs e = (True, length bs, e') \<and> rest e' = rest e \<and> out e' = out e @ [bs] \<and> keep e' = keep e"
    and "rest e = ascii ''OK!'' @ R \<Longrightarrow> length (fst (ReadFile api h 4 e)) = 3"
    and "opens_quietly api (\<lambda>e. (rest e, out e, keep e))"
  using assms unfolding writer_line_def by blast+

lemma probe_replied:
  assumes "writer_line api h rest out keep" "port_opens api q h" "q < 16" "length (Cport st) = 16" "length OK = 4"
    and "rest e = ascii ''OK!'' @ R"
  shows "\<exists>bs OK' e'. probe api (int q) OK (st, e) = Some (True, int q, OK', st\<lparr>Cport := (Cport st)[q := h], baudr := bs\<rparr>, e') \<and>
    rest e' = R \<and> out e' = out e @ [init_msg] \<and> keep e' = keep e"
proof -
  obtain bs e1 where o: "RS232_OpenComport api (int q) BAUD_RATE (st, e) = (0, st\<lparr>Cport := (Cport st)[q := h], baudr := bs\<rparr>, e1)"
    using open_opens [OF assms(2,3)] by blast
  let ?st = "st\<lparr>Cport := (Cport st)[q := h], baudr := bs\<rparr>"
  have e1: "rest e1 = rest e" "out e1 = out e" "keep e1 = keep e"
    using open_quiet [OF writer_line_D(4) [OF assms(1)] o] by simp_all
  have h: "port_handle ?st (int q) = Some h" using assms(3,4) by (simp add: port_handle_def)
  obtain e2 where w: "WriteFile api h init_msg e1 = (True, length init_msg, e2)" "rest e2 = rest e1" "out e2 = out e1 @ [init_msg]" "keep e2 = keep e1"
    using writer_line_D(2) [OF assms(1)] by blast
  obtain r e3 where r: "ReadFile api h 4 e2 = (r, e3)" by fastforce
  note d = line_reads_D [OF writer_line_D(1) [OF assms(1)] r]
  have "length r = 3" using writer_line_D(3) [OF assms(1), of e2 R] r w(2) e1(1) assms(6) by simp
  then have "length r = length (ascii ''OK!'')" "r @ rest e3 = ascii ''OK!'' @ R"
    using d w(2) e1(1) assms(6) by (simp_all add: ascii_def)
  then have x: "r = ascii ''OK!''" "rest e3 = R"
    using append_eq_append_conv [of r "ascii ''OK!''" "rest e3" R] by blast+
  obtain y where y: "put_at OK 0 r = Some (ascii ''OK!'' @ [y])"
    using x(1) assms(5) by (cases OK rule: list.exhaust) (auto simp: put_at_def ascii_def length_Suc_conv numeral_eq_Suc)
  have "c_str ((ascii ''OK!'' @ [y])[3 := 0]) = Some (ascii ''OK!'')" "r \<noteq> []"
    using x by (simp_all add: ascii_def c_str_def)
  moreover have "int (length init_msg) = 5" by (simp add: init_msg_def ascii_def)
  ultimately have "probe api (int q) OK (st, e) = Some (True, int q, ascii ''OK!'' @ [0], ?st, e3)"
    using o h w(1) r y by (simp add: probe_def RS232_SendBuf_def RS232_PollComport_def init_msg_def [symmetric]) (simp add: ascii_def)
  then show ?thesis
    using x(2) d w e1 by (intro exI [of _ bs] exI [of _ "ascii ''OK!'' @ [0]"] exI [of _ e3]) simp
qed

lemma send_all_ok:
  assumes "writer_line api h rest out keep" "port_handle st p = Some h"
  shows "\<exists>e'. send_all api p bs (st, e) = Some (st, e') \<and> rest e' = rest e \<and> out e' = out e @ bs \<and> keep e' = keep e"
proof (induction bs arbitrary: e)
  case Nil
  then show ?case by simp
next
  case (Cons b bs)
  obtain e1 where w: "WriteFile api h b e = (True, length b, e1)" "rest e1 = rest e" "out e1 = out e @ [b]" "keep e1 = keep e"
    using writer_line_D(2) [OF assms(1)] by blast
  then show ?case using Cons.IH [of e1] assms(2) by (auto simp: RS232_SendBuf_def)
qed

lemma write_block_ok:
  assumes "writer_line api h rest out keep" "port_handle st p = Some h" "length blk = 64"
  shows "\<exists>e'. write_block api p blk 64 m (st, e) = Some (st, e') \<and> rest e' = rest e \<and> out e' = out e @ pieces blk m \<and> keep e' = keep e"
  using send_all_ok [OF assms(1,2), of "pieces blk m" e] assms(3) by (simp add: write_block_def pieces_def Let_def)

section \<open>The database\<close>

definition database_quiet :: "('e, 'a) mysql_scheme \<Rightarrow> ('e \<Rightarrow> 'k) \<Rightarrow> bool" where
  "database_quiet db f \<longleftrightarrow> (\<forall>e. f (snd (mysql_init db e)) = f e) \<and> (\<forall>h u p d e. f (snd (mysql_real_connect db h u p d e)) = f e) \<and>
     (\<forall>q e. f (snd (mysql_query db q e)) = f e) \<and> (\<forall>e. f (snd (mysql_store_result db e)) = f e) \<and> (\<forall>e. f (mysql_close db e) = f e)"

lemma database_quiet_D:
  assumes "database_quiet db f"
  shows "mysql_init db e = (x, e') \<Longrightarrow> f e' = f e" "connect db e = (x, e') \<Longrightarrow> f e' = f e"
    "mysql_query db q e = (x, e') \<Longrightarrow> f e' = f e" "mysql_store_result db e = (r, e') \<Longrightarrow> f e' = f e"
    "f (mysql_close db e) = f e"
  using assms unfolding database_quiet_def connect_def by (metis snd_conv)+

lemma present_quiet:
  assumes "database_quiet db f" "is_serial_present db sn e = Some (r, e')"
  shows "f e' = f e"
proof -
  obtain con e1 where 1: "mysql_init db e = (con, e1)" by fastforce
  obtain ok e2 where 2: "connect db e1 = (ok, e2)" by fastforce
  obtain s where s: "serial_string sn = Some s"
    using assms(2) by (auto simp: is_serial_present_def 1 split: Option.bind_splits)
  obtain err e3 where 3: "mysql_query db (select_query s) e2 = (err, e3)" by fastforce
  obtain x e4 where 4: "mysql_store_result db e3 = (x, e4)" by fastforce
  note q = database_quiet_D [OF assms(1)]
  have fits: "sprintf_into 100 (select_query s) = Some (select_query s)"
    using serial_string_fits [OF s] by (simp add: sprintf_into_def)
  show ?thesis
    using assms(2) q(1) [OF 1] q(2) [OF 2] q(3) [OF 3] q(4) [OF 4]
    by (auto simp: is_serial_present_def 1 2 3 4 s fits q(5) split: Option.bind_splits if_splits option.splits list.splits)
qed

lemma insert_quiet:
  assumes "database_quiet db f" "insert_serial db sn e = Some (r, e')"
  shows "f e' = f e"
proof -
  obtain con e1 where 1: "mysql_init db e = (con, e1)" by fastforce
  obtain ok e2 where 2: "connect db e1 = (ok, e2)" by fastforce
  obtain s where s: "serial_string sn = Some s"
    using assms(2) by (auto simp: insert_serial_def 1 split: Option.bind_splits)
  obtain err e3 where 3: "mysql_query db (insert_query s) e2 = (err, e3)" by fastforce
  note q = database_quiet_D [OF assms(1)]
  have fits: "sprintf_into 100 (insert_query s) = Some (insert_query s)"
    using serial_string_fits [OF s] by (simp add: sprintf_into_def)
  show ?thesis
    using assms(2) q(1) [OF 1] q(2) [OF 2] q(3) [OF 3]
    by (auto simp: insert_serial_def 1 2 3 s fits q(5) split: Option.bind_splits if_splits)
qed

section \<open>A card is written\<close>

text \<open>
  The blocks that go to the board: two names and the credentials as \<open>encrypt_data\<close> enciphers them.
\<close>

definition enciphered :: "crypt_h \<Rightarrow> bytes \<Rightarrow> bytes \<Rightarrow> bytes \<Rightarrow> bytes \<Rightarrow> bool" where
  "enciphered cr u p user pass \<longleftrightarrow>
     (\<exists>ctx st0 st1 eu ep. aes_state_ok st0 \<and> length (buf ctx) = 68 \<and> length eu = 64 \<and> length ep = 64 \<and>
        encrypt_data cr ctx st0 user pass eu ep = (st1, u, p, True))"

lemma card_holds_enciphered:
  "card_holds cr n s u p user pass \<longleftrightarrow> block n \<and> block s \<and> block user \<and> block pass \<and>
     (\<exists>n' s'. c_str n = Some n' \<and> c_str s = Some s' \<and> length n' + length s' < MAX_MESSAGE_LENGHT) \<and> enciphered cr u p user pass"
  by (simp add: card_holds_def enciphered_def)

lemma write_card_ok:
  assumes "\<And>q. q < p \<Longrightarrow> port_closed api q" "port_opens api p h" "p < 16" "length (Cport st) = 16" "length OK = 4"
    and "writer_line api h rest out keep" "database_quiet (mysql_lib api) out" "mysql_ok (mysql_lib api) keep answer conns"
    and "aes_state_ok (cipher_globals st)" "length (random_iv (crypt api)) = 16" "length (buf (stack_context api)) = 68"
    and "length n = 64" "length s = 64" "length user = 64" "length pass = 64"
    and "rest e = ascii ''OK!'' @ sn @ R" "length sn = 4" "serial_string sn = Some k"
    and "mysql_up (mysql_lib api)"
  shows "\<exists>u q st' e'. write_card api OK n s user pass (st, e) = Some (None, st', e') \<and> enciphered (crypt api) u q user pass \<and>
    length u = 64 \<and> length q = 64 \<and> out e' = out e @ init_msg # all_pieces n s u q \<and> keep e' = insert k (keep e)"
proof -
  obtain aes u q ok where enc: "encrypt_data (crypt api) (stack_context api) (cipher_globals st) user pass (replicate 64 0) (replicate 64 0) =
      (aes, u, q, ok)" by (metis prod.exhaust)
  then have ok: "ok" "length u = 64" "length q = 64"
    using decrypt_encrypt [OF assms(9,9,10,14,15) _ _ _ _ enc, of "replicate 64 0" "replicate 64 0"] by simp_all
  let ?st = "st\<lparr>cipher_globals := aes\<rparr>"
  obtain hs bs e1 where 1: "discover api 0 OK (?st, e) = discover api (int p) OK (?st\<lparr>Cport := hs, baudr := bs\<rparr>, e1)" "length hs = 16"
    "(rest e1, out e1, keep e1) = (rest e, out e, keep e)"
    using discover_reaches [OF assms(1,3) _, of 0 ?st OK e "\<lambda>e. (rest e, out e, keep e)"] assms(4) writer_line_D(4) [OF assms(6)] by auto
  obtain bs' OK' e2 where 2: "probe api (int p) OK (?st\<lparr>Cport := hs, baudr := bs\<rparr>, e1) =
      Some (True, int p, OK', ?st\<lparr>Cport := hs[p := h], baudr := bs'\<rparr>, e2)"
    "rest e2 = sn @ R" "out e2 = out e1 @ [init_msg]" "keep e2 = keep e1"
    using probe_replied [OF assms(6,2,3) _ assms(5), of "?st\<lparr>Cport := hs, baudr := bs\<rparr>" e1 "sn @ R"] 1(2,3) assms(16) by auto
  let ?s = "?st\<lparr>Cport := hs[p := h], baudr := bs'\<rparr>"
  have w: "wait_for_device api OK (?st, e) = Some (int p, ?s, e2)"
    using 1(1) 2(1) by (simp add: wait_for_device_def discover.simps [of api "int p"])
  have h: "port_handle ?s (int p) = Some h" using 1(2) assms(3) by (simp add: port_handle_def)
  obtain e3 where 3: "write_block api (int p) n 64 0x30 (?s, e2) = Some (?s, e3)" "rest e3 = rest e2" "out e3 = out e2 @ pieces n 0x30" "keep e3 = keep e2"
    using write_block_ok [OF assms(6) h assms(12)] by blast
  obtain e4 where 4: "write_block api (int p) s 64 0x31 (?s, e3) = Some (?s, e4)" "rest e4 = rest e2" "out e4 = out e3 @ pieces s 0x31" "keep e4 = keep e2"
    using write_block_ok [OF assms(6) h assms(13)] 3(2,4) by metis
  obtain e5 where 5: "write_block api (int p) u 64 0x32 (?s, e4) = Some (?s, e5)" "rest e5 = rest e2" "out e5 = out e4 @ pieces u 0x32" "keep e5 = keep e2"
    using write_block_ok [OF assms(6) h ok(2)] 4(2,4) by metis
  obtain e6 where 6: "write_block api (int p) q 64 0x33 (?s, e5) = Some (?s, e6)" "rest e6 = rest e2" "out e6 = out e5 @ pieces q 0x33" "keep e6 = keep e2"
    using write_block_ok [OF assms(6) h ok(3)] 5(2,4) by metis
  obtain e7 where 7: "wait_serial_number api (int p) (replicate 4 0) (?s, e6) = Some (sn, ?s, e7)" "(out e7, keep e7) = (out e6, keep e6)"
    using serial_loop_fills [OF writer_line_D(1) [OF assms(6)] h, of e6 sn R 0 "replicate 4 0"] 6(2) 2(2) assms(17)
    by (auto simp: wait_serial_number_def)
  obtain r e8 where 8: "is_serial_present (mysql_lib api) sn e7 = Some (r, e8)" "keep e8 = keep e7" "r = -1 \<or> r = (if k \<in> keep e7 then 1 else 0)"
    using present_spec [OF assms(8,18)] by blast
  have o8: "out e8 = out e7" and r: "r \<noteq> -1" using present_quiet [OF assms(7) 8(1)] present_up [OF assms(19) 8(1)] by simp_all
  obtain b e9 where 9: "insert_serial (mysql_lib api) sn e8 = Some (b, e9)" "keep e9 = (if b = None then insert k (keep e8) else keep e8)"
    using insert_spec [OF assms(8,18)] by blast
  have o9: "out e9 = out e8" "b = None" using insert_quiet [OF assms(7) 9(1)] insert_up [OF assms(19) 9(1)] by simp_all
  let ?e = "if r = 1 then e8 else e9"
  have "write_card api OK n s user pass (st, e) = Some (None, ?s, ?e)"
    using enc ok(1) w 3(1) 4(1) 5(1) 6(1) 7(1) 8(1,3) 9(1) r by (auto simp: write_card_def)
  moreover have "out ?e = out e @ init_msg # all_pieces n s u q"
    using o8 o9(1) 7(2) 6(3) 5(3) 4(3) 3(3) 2(3) 1(3) by (simp add: all_pieces_def)
  moreover have "keep ?e = insert k (keep e)"
    using 9(2) o9(2) 8(2,3) r 7(2) 6(4) 2(4) 1(3) by (auto split: if_splits)
  moreover have "enciphered (crypt api) u q user pass"
    unfolding enciphered_def using enc ok(1) assms(9,11)
    by (intro exI [of _ "stack_context api"] exI [of _ "cipher_globals st"] exI [of _ aes] exI [of _ "replicate 64 0"]) simp
  ultimately show ?thesis using ok(2,3) by blast
qed

section \<open>The whole program\<close>

text \<open>The three words that are typed, each in the state the one before leaves.\<close>

definition words_typed :: "('e, 'b) console_scheme \<Rightarrow> bytes \<Rightarrow> bytes \<Rightarrow> bytes \<Rightarrow> 'e \<Rightarrow> 'e \<Rightarrow> bool" where
  "words_typed api n s user e e' \<longleftrightarrow> (\<exists>e1 e2. scanf_s api 64 e = (Some n, e1) \<and> scanf_s api 64 e1 = (Some s, e2) \<and> scanf_s api 64 e2 = (Some user, e'))"

definition c_word :: "bytes \<Rightarrow> bool" where
  "c_word w \<longleftrightarrow> length w \<le> 63 \<and> 0 \<notin> set w"

lemma stored_word:
  assumes "length w \<le> 63"
  shows "stored w = Some (padded w)"
proof -
  have "64 - length w = Suc (63 - length w)" using assms by simp
  then have "padded w = w @ [0] @ replicate (63 - length w) 0" by simp
  then show ?thesis using assms by (simp add: stored_def put_at_def)
qed

lemma padded_length: "length w \<le> 63 \<Longrightarrow> length (padded w) = 64"
  by simp

lemma padded_c_str: "c_word w \<Longrightarrow> c_str (padded w) = Some w"
  by (simp add: c_word_def c_str_zeros)

lemma writer_main_ok:
  assumes "keyboard api keys (\<lambda>e. (rest e, out e, keep e))" "words_typed api n s user e e3" "c_word n" "c_word s" "length n + length s < 64"
    and "length user \<le> 63" "\<exists>k\<in>set (keys e3). ends_input k" "\<And>e. select_loop api e \<noteq> None"
    and "\<And>q. q < p \<Longrightarrow> port_closed api q" "port_opens api p h" "p < 16" "length (Cport st) = 16" "length OK = 4"
    and "writer_line api h rest out keep" "database_quiet (mysql_lib api) out" "mysql_ok (mysql_lib api) keep answer conns" "mysql_up (mysql_lib api)"
    and "aes_state_ok (cipher_globals st)" "length (random_iv (crypt api)) = 16" "length (buf (stack_context api)) = 68"
    and "rest e = ascii ''OK!'' @ sn @ R" "length sn = 4" "serial_string sn = Some k"
  shows "\<exists>u q st' e'. writer_main api OK (st, e) = Some (None, st', e') \<and>
    card_holds (crypt api) (padded n) (padded s) u q (padded user) (padded (typed (keys e3) [])) \<and> length u = 64 \<and> length q = 64 \<and>
    out e' = out e @ init_msg # all_pieces (padded n) (padded s) u q \<and> keep e' = insert k (keep e)"
proof -
  obtain e1 e2 where w: "scanf_s api 64 e = (Some n, e1)" "scanf_s api 64 e1 = (Some s, e2)" "scanf_s api 64 e2 = (Some user, e3)"
    using assms(2) by (auto simp: words_typed_def)
  let ?f = "\<lambda>e. (rest e, out e, keep e)"
  have q: "?f (snd (scanf_s api n e)) = ?f e" "?f (system_call api c e) = ?f e" for n c e
    using assms(1) unfolding keyboard_def by blast+
  have f3: "?f e3 = ?f e" using q(1) [of 64 e] q(1) [of 64 e1] q(1) [of 64 e2] w by simp
  let ?pw = "padded (typed (keys e3) [])"
  obtain e4 where 4: "secure_input api (replicate 64 0) e3 = Some (?pw, e4)" "?f e4 = ?f e3"
    using secure_input_types [OF assms(1,7)] by blast
  obtain b e5 where 5: "select_loop api e4 = Some (b, e5)"
    using assms(8) [of e4] by auto
  have f5: "?f e5 = ?f e4" by (rule select_loop_frame [OF assms(1) 5])
  let ?e = "if b then pause api e5 else e5"
  have fe: "?f ?e = ?f e" using f5 4(2) f3 q(2) by (simp add: pause_def)
  have l: "length (padded n) = 64" "length (padded s) = 64" "length (padded user) = 64" "length ?pw = 64"
    using assms(3,4,6) typed_length [of "[]" "keys e3"] by (simp_all add: c_word_def)
  have "rest ?e = ascii ''OK!'' @ sn @ R" using fe assms(21) by simp
  from write_card_ok [OF assms(9-16) assms(18-20) l this assms(22,23,17)]
  obtain u q st' e' where r: "write_card api OK (padded n) (padded s) (padded user) ?pw (st, ?e) = Some (None, st', e')"
    "enciphered (crypt api) u q (padded user) ?pw" "length u = 64" "length q = 64"
    "out e' = out ?e @ init_msg # all_pieces (padded n) (padded s) u q" "keep e' = insert k (keep ?e)"
    by blast
  have "writer_main api OK (st, e) = Some (None, st', e')"
    using w 4(1) 5 r(1) assms(3,4,6) by (simp add: writer_main_def stored_word c_word_def)
  moreover have "card_holds (crypt api) (padded n) (padded s) u q (padded user) ?pw"
    unfolding card_holds_enciphered block_def using r(2) l padded_c_str [OF assms(3)] padded_c_str [OF assms(4)] assms(5) by blast
  ultimately show ?thesis using r(3-6) fe by auto
qed

end
