(* ===== verification/Card_Life.thy ===== *)
theory Card_Life
  imports Writer_Session Reader_Demo
begin

text \<open>
  The life of a card, through all four programs that handle it: the program that writes cards and its board, the board at the
  login computer and its service.
\<close>

section \<open>From board to board\<close>

definition fresh_board :: "'a writer_board_scheme \<Rightarrow> bool" where
  "fresh_board b \<longleftrightarrow> \<not> connection_done b \<and> \<not> block_ready b \<and> num_of_block b = 0 \<and> num_of_byte b = 0 \<and> board_arrays b"

text \<open>What the writing board says to the computer: the answer to the search, the serial number of the card and four messages.\<close>

definition board_says :: "bytes \<Rightarrow> bytes" where
  "board_says uid = ascii ''OK!'' @ uid_text uid @ concat (map written_text [BLOCK_NAME, BLOCK_COGN, BLOCK_USER, BLOCK_PASS])"

lemma board_writes:
  assumes "line_ok lib v arrive" "chip_ok lib v" "fresh_board b" "inbox (v e) = []" "card_here (v e)"
    and "length n = 64" "length s = 64" "length u = 64" "length p = 64"
  shows "\<exists>b' e'. turns (writer_board_loop lib) arrive (init_msg # all_pieces n s u p @ [[]]) (b, e) = Some (b', e') \<and>
    written_card (memory (v e')) n s u p \<and> sent (v e') = sent (v e) @ board_says (uid_here (v e)) \<and> uid_here (v e') = uid_here (v e)"
proof -
  let ?b = "b\<lparr>connection_done := True\<rparr>"
  obtain e1 where 1: "writer_board_loop lib (b, arrive init_msg e) = Some (?b, e1)" "v e1 = (v e)\<lparr>sent := sent (v e) @ ascii ''OK!''\<rparr>"
    using connect_turn [OF assms(1,2) _ assms(4), of b] assms(3) by (auto simp: fresh_board_def)
  have "collecting 0 ?b"
    using assms(3) by (auto simp: collecting_def fresh_board_def board_arrays_def block_array_def)
  then obtain e2 where 2: "turns (writer_board_loop lib) arrive (all_pieces n s u p) (?b, e1) = Some (loaded n s u p ?b, e2)" "v e2 = v e1"
    using blocks_turns [OF assms(1) _ _ assms(6-9), of ?b e1] 1(2) assms(4) by auto
  let ?l = "loaded n s u p ?b"
  have l: "connection_done ?l" "block_ready ?l" "nome ?l = n @ [0x30]" "cognome ?l = s @ [0x31]" "user_bytes ?l = u @ [0x32]" "psw ?l = p @ [0x33]"
    by (simp_all add: loaded_def)
  have e2: "card_here (v e2)" "inbox (v e2) = []" using 1(2) 2(2) assms(4,5) by simp_all
  obtain e3 m where 3: "writer_board_loop lib (?l, arrive [] e2) = Some (?l\<lparr>block_ready := False\<rparr>, e3)"
    "v e3 = (v e2)\<lparr>card_here := False, uid_read := uid_here (v e2), sector := None, memory := m,
      sent := sent (v e2) @ uid_text (uid_here (v e2)) @ concat (map written_text [BLOCK_NAME, BLOCK_COGN, BLOCK_USER, BLOCK_PASS])\<rparr>"
    "written_card m (n @ [0x30]) (s @ [0x31]) (u @ [0x32]) (p @ [0x33])"
    using card_written_turn [OF assms(1,2) l(1,2) e2, unfolded l(3-6)] assms(6-9) by auto
  have "written_card m n s u p"
    using 3(3) assms(6-9) by (simp add: written_card_def holds_block_extra)
  then show ?thesis
    using 1 2 3(1,2) by (simp add: turns_append board_says_def)
qed

lemma board_reads:
  assumes "line_ok lib v arrive" "chip_ok lib v" "connection_done b" "board_arrays b" "length tmp = 18" "inbox (v e) = []" "card_here (v e)"
    and "written_card (memory (v e)) n s u p"
    and "length n = 64" "length s = 64" "length u = 64" "length p = 64"
  shows "\<exists>b' e'. turns (reader_board_loop lib tmp) arrive [[], ascii ''HEY!''] (b, e) = Some (b', e') \<and>
    sent (v e') = sent (v e) @ ascii ''SS'' @ card_message n s u p @ uid_text (uid_here (v e))"
proof -
  obtain e1 where 1: "reader_board_loop lib tmp (b, arrive [] e) = Some (reads_loaded n s u p b, e1)"
    "v e1 = (v e)\<lparr>card_here := False, uid_read := uid_here (v e), sector := None\<rparr>"
    using read_card_turn [OF assms(1,2,3,7,6,8,5,4) assms(9-12)] by blast
  have e1: "\<not> card_here (v e1)" "inbox (v e1) = []" using 1(2) assms(6) by simp_all
  obtain e2 where 2: "reader_board_loop lib tmp (reads_loaded n s u p b, arrive (ascii ''HEY!'') e1) =
      Some (reads_loaded n s u p b\<lparr>somthing_to_send := False\<rparr>, e2)"
    "v e2 = (v e1)\<lparr>sent := sent (v e1) @ ascii ''SS'' @ n @ [0x30] @ s @ [0x31] @ u @ [0x32] @ p @ [0x33] @ uid_text (uid_read (v e1))\<rparr>"
    using send_turn [OF assms(1,2,3) e1 assms(9-12), where tmp = tmp] by blast
  show ?thesis
    using 1 2 by (simp add: card_message_def)
qed

section \<open>Two boards to apply it to\<close>

text \<open>Boards whose environment is what can be seen of it, with a chip and a line that do what is relied on.\<close>

definition demo_chip :: "board_view board_lib" where
  "demo_chip = \<lparr>STATUS_OK = 0, GetStatusCodeName = (\<lambda>s. []), PICC_IsNewCardPresent = (\<lambda>e. (card_here e, e)),
     PICC_ReadCardSerial = (\<lambda>e. (True, e\<lparr>uid_read := uid_here e\<rparr>)), PICC_HaltA = (\<lambda>e. e\<lparr>card_here := False\<rparr>),
     PCD_StopCrypto1 = (\<lambda>e. e\<lparr>sector := None\<rparr>), PCD_Authenticate = (\<lambda>t k e. (0, e\<lparr>sector := Some (sector_of t)\<rparr>)),
     MIFARE_Write = (\<lambda>b bs e. (0, e\<lparr>memory := (memory e)(b := bs)\<rparr>)), MIFARE_Read = (\<lambda>b n e. (0, memory e b @ [0, 0], 18, e)),
     card_uid = uid_read, serial_available = (\<lambda>e. (length (inbox e), e)),
     serial_read = (\<lambda>e. (case inbox e of [] \<Rightarrow> (-1, e) | c # cs \<Rightarrow> (int (unat c), e\<lparr>inbox := cs\<rparr>))),
     serial_find = (\<lambda>t e. (if take (length t) (inbox e) = t then (True, e\<lparr>inbox := drop (length t) (inbox e)\<rparr>)
       else (False, e\<lparr>inbox := []\<rparr>))),
     serial_write = (\<lambda>bs e. e\<lparr>sent := sent e @ bs\<rparr>)\<rparr>"

definition demo_arrive :: "bytes \<Rightarrow> board_view \<Rightarrow> board_view" where
  "demo_arrive bs e = e\<lparr>inbox := inbox e @ bs\<rparr>"

lemma demo_chip_ok: "chip_ok demo_chip (\<lambda>e. e)"
  by (simp add: chip_ok_def demo_chip_def)

lemma demo_line_ok: "line_ok demo_chip (\<lambda>e. e) demo_arrive"
  by (simp add: line_ok_def demo_chip_def demo_arrive_def)

definition demo_view :: board_view where
  "demo_view = \<lparr>card_here = True, uid_here = [0x12, 0x34, 0x56, 0x78], uid_read = [], sector = None, memory = (\<lambda>b. replicate 16 0),
     inbox = [], sent = []\<rparr>"

definition demo_writer_board :: writer_board where
  "demo_writer_board = \<lparr>nome = replicate 65 0, cognome = replicate 65 0, user_bytes = replicate 65 0, psw = replicate 65 0,
     connection_done = False, num_of_block = 0, num_of_byte = 0, block_ready = False\<rparr>"

definition demo_reader_board :: reader_board where
  "demo_reader_board = \<lparr>nome = replicate 65 0, cognome = replicate 65 0, user_bytes = replicate 65 0, psw = replicate 65 0,
     connection_done = True, somthing_to_send = False\<rparr>"

lemma demo_boards: "fresh_board demo_writer_board" "connection_done demo_reader_board" "board_arrays demo_reader_board"
  by (simp_all add: fresh_board_def board_arrays_def demo_writer_board_def demo_reader_board_def)

text \<open>C14: what the computer that writes cards sends to its board, the board at the login computer sends on: four blocks of 64 bytes,
  which come in five pieces each, go to the blocks of a card sector by sector and come back from
  it with their marks, followed by the serial number of the card.\<close>

theorem boards_carry_card:
  assumes "line_ok lib v arrive" "chip_ok lib v" "fresh_board b" "inbox (v e) = []" "card_here (v e)"
    and "line_ok lib' v' arrive'" "chip_ok lib' v'" "connection_done b'" "board_arrays b'" "length tmp = 18"
    and "length n = 64" "length s = 64" "length u = 64" "length p = 64"
  shows "\<exists>b1 e1. turns (writer_board_loop lib) arrive (init_msg # all_pieces n s u p @ [[]]) (b, e) = Some (b1, e1) \<and>
    (\<forall>e'. inbox (v' e') = [] \<and> card_here (v' e') \<and> memory (v' e') = memory (v e1) \<longrightarrow>
      (\<exists>b2 e2. turns (reader_board_loop lib' tmp) arrive' [[], ascii ''HEY!''] (b', e') = Some (b2, e2) \<and>
        sent (v' e2) = sent (v' e') @ ascii ''SS'' @ card_message n s u p @ uid_text (uid_here (v' e'))))"
proof -
  obtain b1 e1 where "turns (writer_board_loop lib) arrive (init_msg # all_pieces n s u p @ [[]]) (b, e) = Some (b1, e1)"
    "written_card (memory (v e1)) n s u p"
    using board_writes [OF assms(1-5) assms(11-14)] by blast
  then show ?thesis
    using board_reads [OF assms(6-10) _ _ _ assms(11-14)] by (intro exI [of _ b1] exI [of _ e1]) simp
qed

theorem boards_carry_card_witness:
  "\<exists>b1 e1. turns (writer_board_loop demo_chip) demo_arrive (init_msg # all_pieces (replicate 64 1) (replicate 64 2) (replicate 64 3) (replicate 64 4) @ [[]])
      (demo_writer_board, demo_view) = Some (b1, e1) \<and>
    (\<exists>b2 e2. turns (reader_board_loop demo_chip (replicate 18 0)) demo_arrive [[], ascii ''HEY!''] (demo_reader_board, demo_view\<lparr>memory := memory e1\<rparr>) =
        Some (b2, e2) \<and>
      sent e2 = ascii ''SS'' @ card_message (replicate 64 1) (replicate 64 2) (replicate 64 3) (replicate 64 4) @ uid_text [0x12, 0x34, 0x56, 0x78])"
proof -
  have v: "inbox demo_view = []" "card_here demo_view" by (simp_all add: demo_view_def)
  obtain b1 e1 where 1: "turns (writer_board_loop demo_chip) demo_arrive (init_msg # all_pieces (replicate 64 1) (replicate 64 2) (replicate 64 3) (replicate 64 4) @ [[]])
      (demo_writer_board, demo_view) = Some (b1, e1)"
    and 2: "\<And>e'. inbox e' = [] \<and> card_here e' \<and> memory e' = memory e1 \<longrightarrow>
      (\<exists>b2 e2. turns (reader_board_loop demo_chip (replicate 18 0)) demo_arrive [[], ascii ''HEY!''] (demo_reader_board, e') = Some (b2, e2) \<and>
        sent e2 = sent e' @ ascii ''SS'' @ card_message (replicate 64 1) (replicate 64 2) (replicate 64 3) (replicate 64 4) @ uid_text (uid_here e'))"
    using boards_carry_card [OF demo_line_ok demo_chip_ok demo_boards(1) v demo_line_ok demo_chip_ok demo_boards(2,3), of "replicate 18 0"
        "replicate 64 1" "replicate 64 2" "replicate 64 3" "replicate 64 4"] by auto
  show ?thesis
    using 1 2 [of "demo_view\<lparr>memory := memory e1\<rparr>"] by (intro exI [of _ b1] exI [of _ e1]) (simp add: demo_view_def)
qed

section \<open>A computer to write cards with\<close>

record desk_env = demo_env +
  struck :: "int list"
  words :: "bytes list"
  gone :: "bytes list"

definition demo_console :: "desk_env console" where
  "demo_console = \<lparr>CreateFileA = (\<lambda>f e. (5, e)), BuildCommDCBA = (\<lambda>s e. (Some [], e)), SetCommState = (\<lambda>h d e. (True, e)),
     SetCommTimeouts = (\<lambda>h t e. (True, e)), CloseHandle = (\<lambda>h e. e),
     ReadFile = (\<lambda>h n e. let k = (if take 3 (line e) = ascii ''OK!'' then min n 3 else n) in (take k (line e), e\<lparr>line := drop k (line e)\<rparr>)),
     WriteFile = (\<lambda>h b e. (True, length b, e\<lparr>gone := gone e @ [b]\<rparr>)),
     GetCommModemStatus = (\<lambda>h e. (\<lambda>f. False, e)), EscapeCommFunction = (\<lambda>h f e. e),
     time = (\<lambda>e. (int (clock e), e\<lparr>clock := Suc (clock e)\<rparr>)), no_return = 7,
     mysql_lib = demo_mysql, Shell_NotifyIcon = (\<lambda>i t e. e), system_call = (\<lambda>c e. e), crypt = demo_crypt, stack_context = zero_ctx,
     scanf_s = (\<lambda>n e. (case words e of [] \<Rightarrow> (None, e) | w # ws \<Rightarrow> (Some w, e\<lparr>words := ws\<rparr>))),
     getch = (\<lambda>e. (case struck e of [] \<Rightarrow> (-1, e) | k # ks \<Rightarrow> (k, e\<lparr>struck := ks\<rparr>))), getchar = (\<lambda>e. (0x6e, e))\<rparr>"

text \<open>A name, a surname and a user name are typed, then a password with a slip.\<close>

definition demo_desk :: desk_env where
  "demo_desk = \<lparr>line = board_says [0x12, 0x34, 0x56, 0x78], clock = 0, db_cards = [], db_answer = [], db_open = 0, shell_log = [],
     struck = [0x70, 0x78, 0x08, 0x77, 0x0d], words = [ascii ''Ada'', ascii ''Lovelace'', ascii ''ada''], gone = []\<rparr>"

definition demo_writer :: writer where
  "demo_writer = \<lparr>Cport = replicate 16 0, baudr = replicate 64 0, response_buffer = [0, 0], cipher_globals = aes_state_init\<rparr>"

lemma demo_keyboard: "keyboard demo_console struck (\<lambda>e. (line e, gone e, demo_cards e))"
  by (auto simp: keyboard_def demo_console_def split: list.splits)

lemma demo_answers: "select_loop demo_console e \<noteq> None"
  by (subst select_loop.simps) (simp add: demo_console_def)

lemma demo_writer_line: "writer_line demo_console 5 line gone demo_cards"
  by (auto simp: writer_line_def line_reads_def opens_quietly_def demo_console_def Let_def ascii_def split: if_splits)

lemma demo_console_port: "port_opens demo_console 0 5"
  by (simp add: port_opens_def demo_console_def)

lemma demo_database:
  "database_quiet (mysql_lib demo_console) gone" "mysql_ok (mysql_lib demo_console) demo_cards db_answer db_open"
  "mysql_up (mysql_lib demo_console)"
  using demo_db by (simp_all add: demo_console_def database_quiet_def demo_mysql_def demo_sql_def Let_def)

lemma demo_words:
  "words_typed demo_console (ascii ''Ada'') (ascii ''Lovelace'') (ascii ''ada'') demo_desk (demo_desk\<lparr>words := []\<rparr>)"
  by (simp add: words_typed_def demo_console_def demo_desk_def)

lemma demo_typed: "typed (struck (demo_desk\<lparr>words := []\<rparr>)) [] = ascii ''pw''"
  by (simp add: demo_desk_def ascii_def)

section \<open>From the keyboard to the browser\<close>

lemma uid_text_length: "length uid \<le> length (uid_text uid)"
proof (induction uid)
  case (Cons x xs)
  have "1 \<le> length (hex_upper x)" by (simp add: hex_upper_def Let_def)
  then show ?case using Cons by (simp add: uid_text_def)
qed (simp add: uid_text_def)

text \<open>C2: the credentials that are typed into the program that writes cards are those the login service has at hand when the card is
  shown to it. The program finds its board, sends it the names and the enciphered credentials and enters the serial number
  into the database; its board puts them on the card; the board of the service reads the card and sends it, and the turn of the service that meets
  it ends with exactly the user name and password that were typed.\<close>

theorem card_life:
  assumes "keyboard api keys (\<lambda>e. (rest e, out e, keep e))" "words_typed api n s user e e3" "c_word n" "c_word s" "length n + length s < 64"
    and "length user \<le> 63" "\<exists>k\<in>set (keys e3). ends_input k" "\<And>e. select_loop api e \<noteq> None"
    and "\<And>q. q < p \<Longrightarrow> port_closed api q" "port_opens api p h" "p < 16" "length (Cport st) = 16" "length OK = 4"
    and "writer_line api h rest out keep" "database_quiet (mysql_lib api) out" "mysql_ok (mysql_lib api) keep answer conns" "mysql_up (mysql_lib api)"
    and "aes_state_ok (cipher_globals st)" "length (random_iv (crypt api)) = 16" "length (buf (stack_context api)) = 68"
    and "rest e = board_says uid" "4 \<le> length uid"
    and "line_ok lib v arrive" "chip_ok lib v" "fresh_board b" "inbox (v we) = []" "card_here (v we)" "uid_here (v we) = uid" "sent (v we) = []"
    and "line_ok lib' v' arrive'" "chip_ok lib' v'" "connection_done b'" "board_arrays b'" "length tmp = 18"
    and "serial_line svc feed cards" "pairs_together svc feed" "clock_within svc feed t" "mysql_ok (mysql_lib svc) cards answer' conns'"
      "mysql_up (mysql_lib svc)" "crypt svc = crypt api" "length (buf (stack_context svc)) = 68" "reader_waits rd" "length sn0 = 4"
  shows "\<exists>st' e' b1 we1. writer_main api OK (st, e) = Some (None, st', e') \<and>
    turns (writer_board_loop lib) arrive (drop (length (out e)) (out e') @ [[]]) (b, we) = Some (b1, we1) \<and> sent (v we1) = rest e \<and>
    (\<forall>re. inbox (v' re) = [] \<and> card_here (v' re) \<and> uid_here (v' re) = uid \<and> memory (v' re) = memory (v we1) \<longrightarrow>
      (\<exists>b2 re1. turns (reader_board_loop lib' tmp) arrive' [[], ascii ''HEY!''] (b', re) = Some (b2, re1) \<and>
        (\<forall>se. feed se = drop (length (sent (v' re))) (sent (v' re1)) \<and> keep e' \<subseteq> cards se \<longrightarrow>
          (\<exists>sn rd' se'. reader_turn svc sn0 (rd, se) = Some (sn, rd', se') \<and>
            credentials_ready (padded user) (padded (typed (keys e3) [])) rd'))))"
proof -
  let ?pw = "padded (typed (keys e3) [])" and ?sn = "take 4 (uid_text uid)"
  have l4: "length ?sn = 4" using uid_text_length [of uid] assms(22) by simp
  obtain k where k: "serial_string ?sn = Some k" using serial_string_4 [OF l4] by blast
  have "uid_text uid @ x = ?sn @ drop 4 (uid_text uid) @ x" for x
    by (metis append_assoc append_take_drop_id)
  then obtain R where r: "rest e = ascii ''OK!'' @ ?sn @ R"
    using assms(21) unfolding board_says_def by metis
  obtain u q st' e' where w: "writer_main api OK (st, e) = Some (None, st', e')"
    "card_holds (crypt api) (padded n) (padded s) u q (padded user) ?pw" "length u = 64" "length q = 64"
    "out e' = out e @ init_msg # all_pieces (padded n) (padded s) u q" "keep e' = insert k (keep e)"
    using writer_main_ok [OF assms(1-20) r l4 k] by blast
  have l: "length (padded n) = 64" "length (padded s) = 64" using assms(3,4) by (simp_all add: c_word_def)
  obtain b1 we1 where b: "turns (writer_board_loop lib) arrive (init_msg # all_pieces (padded n) (padded s) u q @ [[]]) (b, we) = Some (b1, we1)"
    "written_card (memory (v we1)) (padded n) (padded s) u q" "sent (v we1) = board_says uid"
    using board_writes [OF assms(23-27) l w(3,4)] assms(28,29) by auto
  have "\<exists>b2 re1. turns (reader_board_loop lib' tmp) arrive' [[], ascii ''HEY!''] (b', re) = Some (b2, re1) \<and>
      (\<forall>se. feed se = drop (length (sent (v' re))) (sent (v' re1)) \<and> keep e' \<subseteq> cards se \<longrightarrow>
        (\<exists>sn rd' se'. reader_turn svc sn0 (rd, se) = Some (sn, rd', se') \<and> credentials_ready (padded user) ?pw rd'))"
    if re: "inbox (v' re) = []" "card_here (v' re)" "uid_here (v' re) = uid" "memory (v' re) = memory (v we1)" for re
  proof -
    obtain b2 re1 where t: "turns (reader_board_loop lib' tmp) arrive' [[], ascii ''HEY!''] (b', re) = Some (b2, re1)"
      "sent (v' re1) = sent (v' re) @ ascii ''SS'' @ card_message (padded n) (padded s) u q @ uid_text uid"
      using board_reads [OF assms(30-34) re(1,2) _ l w(3,4)] re(3,4) b(2) by auto
    have "\<exists>sn rd' se'. reader_turn svc sn0 (rd, se) = Some (sn, rd', se') \<and> credentials_ready (padded user) ?pw rd'"
      if "feed se = drop (length (sent (v' re))) (sent (v' re1))" "keep e' \<subseteq> cards se" for se
    proof -
      have c: "feed se = ascii ''SS'' @ card_message (padded n) (padded s) u q @ ?sn @ drop 4 (uid_text uid)"
        using that(1) t(2) by simp
      have "k \<in> cards se" using that(2) w(6) by auto
      moreover have h: "card_holds (crypt svc) (padded n) (padded s) u q (padded user) ?pw" "length (random_iv (crypt svc)) = 16"
        using w(2) assms(19,40) by simp_all
      ultimately obtain rd' se' where "reader_turn svc sn0 (rd, se) = Some (?sn, rd', se')" "credentials_ready (padded user) ?pw rd'"
        using card_turn [OF assms(35-39) h(2) assms(41-43) h(1) c l4 k] by auto
      then show ?thesis by blast
    qed
    then show ?thesis using t(1) by blast
  qed
  then show ?thesis
    using w(1,5) b(1,3) assms(21) by (intro exI [of _ st'] exI [of _ e'] exI [of _ b1] exI [of _ we1]) simp
qed

theorem card_life_witness:
  "\<exists>st' e' b1 we1. writer_main demo_console [0, 0, 0, 0] (demo_writer, demo_desk) = Some (None, st', e') \<and>
    turns (writer_board_loop demo_chip) demo_arrive (gone e' @ [[]]) (demo_writer_board, demo_view) = Some (b1, we1) \<and>
    (\<exists>b2 re1. turns (reader_board_loop demo_chip (replicate 18 0)) demo_arrive [[], ascii ''HEY!''] (demo_reader_board, demo_view\<lparr>memory := memory we1\<rparr>) =
        Some (b2, re1) \<and>
      (\<exists>sn rd' se'. reader_turn demo_prompt [0, 0, 0, 0] (demo_reader, demo_start\<lparr>line := sent re1, db_cards := db_cards e'\<rparr>) = Some (sn, rd', se') \<and>
        credentials_ready (padded (ascii ''ada'')) (padded (ascii ''pw'')) rd'))"
proof -
  have c: "c_word (ascii ''Ada'')" "c_word (ascii ''Lovelace'')" "length (ascii ''Ada'') + length (ascii ''Lovelace'') < 64" "length (ascii ''ada'') \<le> 63"
    by (simp_all add: c_word_def ascii_def)
  have k: "\<exists>k\<in>set (struck (demo_desk\<lparr>words := []\<rparr>)). ends_input k" by (simp add: demo_desk_def)
  have p: "crypt demo_console = demo_crypt" "stack_context demo_console = zero_ctx"
    "crypt demo_prompt = crypt demo_console"
    by (simp_all add: demo_console_def demo_parts(3))
  have w: "aes_state_ok (cipher_globals demo_writer)" "length (Cport demo_writer) = 16" "length (random_iv (crypt demo_console)) = 16"
    "length (buf (stack_context demo_console)) = 68"
    by (simp_all add: demo_writer_def aes_state_ok_init p demo_crypt_def zero_ctx_def)
  have v: "inbox demo_view = []" "card_here demo_view" "uid_here demo_view = [0x12, 0x34, 0x56, 0x78]" "sent demo_view = []"
    by (simp_all add: demo_view_def)
  have d: "line demo_desk = board_says [0x12, 0x34, 0x56, 0x78]" "gone demo_desk = []" by (simp_all add: demo_desk_def)
  obtain st' e' b1 we1 where 1: "writer_main demo_console [0, 0, 0, 0] (demo_writer, demo_desk) = Some (None, st', e')"
    "turns (writer_board_loop demo_chip) demo_arrive (gone e' @ [[]]) (demo_writer_board, demo_view) = Some (b1, we1)"
    and 2: "\<And>re. inbox re = [] \<and> card_here re \<and> uid_here re = [0x12, 0x34, 0x56, 0x78] \<and> memory re = memory we1 \<longrightarrow>
      (\<exists>b2 re1. turns (reader_board_loop demo_chip (replicate 18 0)) demo_arrive [[], ascii ''HEY!''] (demo_reader_board, re) = Some (b2, re1) \<and>
        (\<forall>se. line se = drop (length (sent re)) (sent re1) \<and> demo_cards e' \<subseteq> demo_cards se \<longrightarrow>
          (\<exists>sn rd' se'. reader_turn demo_prompt [0, 0, 0, 0] (demo_reader, se) = Some (sn, rd', se') \<and>
            credentials_ready (padded (ascii ''ada'')) (padded (ascii ''pw'')) rd')))"
    using card_life [OF demo_keyboard demo_words c k demo_answers _ demo_console_port _ w(2) _ demo_writer_line demo_database w(1,3,4) d(1) _ demo_line_ok demo_chip_ok
        demo_boards(1) v demo_line_ok demo_chip_ok demo_boards(2,3) _ demo_line(2-4) demo_db_prompt p(3) demo_parts(2) demo_waits,
        of "[0, 0, 0, 0]" "replicate 18 0" "[0, 0, 0, 0]", unfolded demo_typed d(2)] by auto
  obtain b2 re1 where "turns (reader_board_loop demo_chip (replicate 18 0)) demo_arrive [[], ascii ''HEY!''] (demo_reader_board, demo_view\<lparr>memory := memory we1\<rparr>) =
      Some (b2, re1)"
    and 3: "\<And>se. line se = sent re1 \<and> demo_cards e' \<subseteq> demo_cards se \<longrightarrow>
      (\<exists>sn rd' se'. reader_turn demo_prompt [0, 0, 0, 0] (demo_reader, se) = Some (sn, rd', se') \<and>
        credentials_ready (padded (ascii ''ada'')) (padded (ascii ''pw'')) rd')"
    using 2 [of "demo_view\<lparr>memory := memory we1\<rparr>"] v by (simp add: demo_view_def) blast
  moreover have "line (demo_start\<lparr>line := sent re1, db_cards := db_cards e'\<rparr>) = sent re1"
    "demo_cards e' \<subseteq> demo_cards (demo_start\<lparr>line := sent re1, db_cards := db_cards e'\<rparr>)" by simp_all
  ultimately show ?thesis using 1 by blast
qed

section \<open>What is typed as a password\<close>

text \<open>C33: the password is what the keys up to the first Enter spell, with backspace taking back the last byte, or its first 63 bytes:
  \<open>secure_input\<close> returns as soon as Enter is struck, the array has 64 bytes and keeps a NUL behind the password, and
  what was taken back is not left in it.\<close>

theorem password_typed:
  assumes "keyboard api keys f" "\<exists>k\<in>set (keys e). ends_input k"
  shows "\<exists>pw e'. secure_input api (replicate 64 0) e = Some (pw, e') \<and> pw = padded (typed (keys e) []) \<and>
    length (typed (keys e) []) \<le> 63 \<and> length pw = 64 \<and> f e' = f e"
proof -
  obtain e' where "secure_input api (replicate 64 0) e = Some (padded (typed (keys e) []), e')" "f e' = f e"
    using secure_input_types [OF assms] by blast
  moreover have "length (typed (keys e) []) \<le> 63" by (rule typed_length) simp
  ultimately show ?thesis by auto
qed

theorem password_typed_witness:
  "\<exists>pw e'. secure_input demo_console (replicate 64 0) demo_desk = Some (pw, e') \<and> pw = padded (ascii ''pw'') \<and>
    length (ascii ''pw'') \<le> 63 \<and> length pw = 64 \<and> gone e' = gone demo_desk"
proof -
  have "keyboard demo_console struck gone" by (auto simp: keyboard_def demo_console_def split: list.splits)
  moreover have "typed (struck demo_desk) [] = ascii ''pw''" "\<exists>k\<in>set (struck demo_desk). ends_input k"
    using demo_typed by (simp_all add: demo_desk_def)
  ultimately show ?thesis using password_typed [of demo_console struck gone demo_desk] by simp
qed

section \<open>Half of a serial number\<close>

lemma uid_text_four:
  assumes "16 \<le> a" "16 \<le> c"
  shows "\<exists>sn. length sn = 4 \<and> (\<forall>xs. take 4 (uid_text (a # c # xs)) = sn \<and> uid_text (a # c # xs) = sn @ uid_text xs)"
proof -
  have two: "length (hex_upper x) = 2" if "16 \<le> x" for x
    using that by (simp add: hex_upper_def Let_def not_less)
  show ?thesis
    using two [OF assms(1)] two [OF assms(2)] by (intro exI [of _ "hex_upper a @ hex_upper c"]) (simp add: uid_text_def)
qed

text \<open>C34: the board prints the serial number of a card as text, and the service takes the first four characters of it for the four bytes
  of a serial number. So a card is let in when it agrees in its first two bytes with a card that was registered, whatever its other
  bytes are; what is left of the text stays on the line.\<close>

theorem half_serial_suffices:
  assumes "serial_line api rest cards" "pairs_together api rest" "clock_within api rest t"
    and "mysql_ok (mysql_lib api) cards answer conns" "mysql_up (mysql_lib api)"
    and "length (random_iv (crypt api)) = 16" "length (buf (stack_context api)) = 68"
    and "reader_waits st" "length sn0 = 4" "card_holds (crypt api) n s u p user pass"
    and "16 \<le> a" "16 \<le> c" "rest e = ascii ''SS'' @ card_message n s u p @ uid_text (a # c # xs)"
    and "serial_string (take 4 (uid_text (a # c # ys))) = Some k" "k \<in> cards e"
  shows "\<exists>sn st' e'. reader_turn api sn0 (st, e) = Some (sn, st', e') \<and> credentials_ready user pass st'"
proof -
  obtain sn where sn: "length sn = 4" "take 4 (uid_text (a # c # ys)) = sn" "uid_text (a # c # xs) = sn @ uid_text xs"
    using uid_text_four [OF assms(11,12)] by blast
  have "rest e = ascii ''SS'' @ card_message n s u p @ sn @ uid_text xs" using assms(13) sn(3) by simp
  from card_turn [OF assms(1-10) this sn(1) assms(14) [unfolded sn(2)]] assms(15) show ?thesis by auto
qed

text \<open>The card with the serial number 12 34 56 78 is registered; one with the serial number 12 34 99 99 is let in.\<close>

theorem half_serial_suffices_witness:
  "\<exists>sn st' e'. reader_turn demo_prompt [0, 0, 0, 0] (demo_reader, demo_start\<lparr>
      line := ascii ''SS'' @ card_message zeros zeros (fst demo_blocks) (snd demo_blocks) @ uid_text [0x12, 0x34, 0x99, 0x99],
      db_cards := [ascii ''31323334'']\<rparr>) = Some (sn, st', e') \<and> credentials_ready demo_user demo_pass st'"
proof -
  have "serial_string (take 4 (uid_text [0x12, 0x34, 0x56, 0x78])) = Some (ascii ''31323334'')"
    by (simp add: uid_text_def hex_upper_def serial_string_eq hex_byte_def hex_digit_def ascii_def Let_def)
  then show ?thesis
    using half_serial_suffices [OF demo_line(2-4) demo_db_prompt demo_parts(1,2) demo_waits _ demo_card_holds [folded demo_parts(3)],
        of "[0, 0, 0, 0]" "0x12" "0x34" _ "[0x99, 0x99]" "[0x56, 0x78]"] by simp
qed

end
