(* ===== verification/Startup_Entry.thy ===== *)
theory Startup_Entry
  imports Prelude "HOL-Library.Monad_Syntax"
begin

text \<open>
  \<open>srl/system-register.c\<close>: the entry of the program under the \<open>Run\<close> key of Windows, which starts it with the system.
  The registry, \<open>GetModuleFileNameW\<close> and \<open>MessageBox\<close> are fields of a record.
\<close>

section \<open>The code\<close>

type_synonym wchars = "16 word list"

abbreviation (input) MAX_PATH :: nat where "MAX_PATH \<equiv> 260"

definition wide :: "string \<Rightarrow> wchars" where
  "wide s = map of_char s"

text \<open>The string in an array; without a NUL \<open>wcslen\<close> leaves the array.\<close>

definition wcs :: "wchars \<Rightarrow> wchars option" where
  "wcs a = (if 0 \<in> set a then Some (takeWhile (\<lambda>c. c \<noteq> 0) a) else None)"

text \<open>
  \<open>wcscpy_s\<close> and \<open>wcscat_s\<close> end the program when the string does not fit with its NUL. The array is kept as the
  string in it.
\<close>

definition cat_s :: "nat \<Rightarrow> wchars \<Rightarrow> wchars \<Rightarrow> wchars option" where
  "cat_s room s t = (if length s + length t < room then Some (s @ t) else None)"

text \<open>
  Opening or creating the key gives a result and whether there is a handle. \<open>RegGetValueW\<close> is given the size of its
  array in bytes, \<open>RegSetValueExW\<close> the characters with their NUL. The answer of \<open>MessageBox\<close> is not looked at.
\<close>

record 'e registry =
  RegOpenKeyExW :: "'e \<Rightarrow> int \<times> bool \<times> 'e"
  RegGetValueW :: "wchars \<Rightarrow> nat \<Rightarrow> 'e \<Rightarrow> int \<times> wchars \<times> 'e"
  RegCreateKeyExW :: "'e \<Rightarrow> int \<times> bool \<times> 'e"
  RegSetValueExW :: "wchars \<Rightarrow> wchars \<Rightarrow> 'e \<Rightarrow> int \<times> 'e"
  RegCloseKey :: "'e \<Rightarrow> 'e"
  GetModuleFileNameW :: "'e \<Rightarrow> wchars \<times> 'e"
  warn_user :: "'e \<Rightarrow> 'e"

definition IsMyProgramRegisteredForStartup :: "'e registry \<Rightarrow> wchars \<Rightarrow> 'e \<Rightarrow> (bool \<times> 'e) option" where
  "IsMyProgramRegisteredForStartup reg name e =
     (let (r, key, e) = RegOpenKeyExW reg e
      in do {
        (found, e) \<leftarrow>
          (if r = 0 then
             (let (r, path, e) = RegGetValueW reg name (2 * MAX_PATH) e
              in if r = 0 then do { s \<leftarrow> wcs path; Some (length s > 0, e) } else Some (False, e))
           else Some (False, e));
        Some (found, if key then RegCloseKey reg e else e) })"

definition RegisterMyProgramForStartup :: "'e registry \<Rightarrow> wchars \<Rightarrow> wchars \<Rightarrow> wchars option \<Rightarrow> 'e \<Rightarrow> (bool \<times> 'e) option" where
  "RegisterMyProgramForStartup reg name path args e =
     do {
       p \<leftarrow> wcs path;
       v \<leftarrow> cat_s (MAX_PATH * 2) [] (wide [CHR 0x22]);
       v \<leftarrow> cat_s (MAX_PATH * 2) v p;
       v \<leftarrow> cat_s (MAX_PATH * 2) v (wide [CHR 0x22, CHR 0x20]);
       v \<leftarrow> (case args of None \<Rightarrow> Some v | Some a \<Rightarrow> cat_s (MAX_PATH * 2) v a);
       let (r, key, e) = RegCreateKeyExW reg e;
           (ok, e) = (if r = 0 then (let (r, e) = RegSetValueExW reg name (v @ [0]) e in (r = 0, e)) else (False, e))
       in Some (ok, if key then RegCloseKey reg e else e) }"

definition RegisterProgram :: "'e registry \<Rightarrow> wchars \<Rightarrow> 'e \<Rightarrow> 'e option" where
  "RegisterProgram reg name e =
     (let (path, e) = GetModuleFileNameW reg e
      in map_option snd (RegisterMyProgramForStartup reg name path (Some (wide ''-foobar'')) e))"

definition RegisterIfDoesntExist :: "'e registry \<Rightarrow> wchars \<Rightarrow> 'e \<Rightarrow> 'e option" where
  "RegisterIfDoesntExist reg name e =
     (let (path, e) = GetModuleFileNameW reg e
      in do {
        (found, e) \<leftarrow> IsMyProgramRegisteredForStartup reg name e;
        if found then Some e else RegisterProgram reg name (warn_user reg e) })"

section \<open>A registry that works\<close>

text \<open>
  As documented: the key can be opened and written, a value set is the string up to its NUL, and a value is read when it
  fits the array with its NUL. \<open>val\<close> is what the key holds, \<open>exe\<close> the path of the program, \<open>warned\<close> the number of warnings.
\<close>

definition registry_ok :: "'e registry \<Rightarrow> ('e \<Rightarrow> wchars \<rightharpoonup> wchars) \<Rightarrow> wchars \<Rightarrow> ('e \<Rightarrow> nat) \<Rightarrow> bool" where
  "registry_ok reg val exe warned \<longleftrightarrow>
     (\<forall>e. \<exists>e'. RegOpenKeyExW reg e = (0, True, e') \<and> val e' = val e \<and> warned e' = warned e) \<and>
     (\<forall>e. \<exists>e'. RegCreateKeyExW reg e = (0, True, e') \<and> val e' = val e \<and> warned e' = warned e) \<and>
     (\<forall>n v e. \<exists>e'. RegSetValueExW reg n v e = (0, e') \<and> val e' = (val e)(n \<mapsto> takeWhile (\<lambda>c. c \<noteq> 0) v) \<and> warned e' = warned e) \<and>
     (\<forall>n k e. \<exists>r a e'. RegGetValueW reg n k e = (r, a, e') \<and> val e' = val e \<and> warned e' = warned e \<and>
        (case val e n of Some s \<Rightarrow> if 2 * (length s + 1) \<le> k then r = 0 \<and> (\<exists>rest. a = s @ 0 # rest) else r \<noteq> 0 | None \<Rightarrow> r \<noteq> 0)) \<and>
     (\<forall>e. val (RegCloseKey reg e) = val e \<and> warned (RegCloseKey reg e) = warned e) \<and>
     (\<forall>e. \<exists>rest e'. GetModuleFileNameW reg e = (exe @ 0 # rest, e') \<and> val e' = val e \<and> warned e' = warned e) \<and>
     (\<forall>e. val (warn_user reg e) = val e \<and> warned (warn_user reg e) = Suc (warned e))"

lemma wcs_nul: "0 \<notin> set s \<Longrightarrow> wcs (s @ 0 # rest) = Some s"
  by (induction s) (auto simp: wcs_def)

lemma is_registered:
  assumes "registry_ok reg val exe warned" "\<And>s. val e name = Some s \<Longrightarrow> 0 \<notin> set s"
  shows "\<exists>e'. IsMyProgramRegisteredForStartup reg name e =
      Some (case val e name of Some s \<Rightarrow> s \<noteq> [] \<and> length s < MAX_PATH | None \<Rightarrow> False, e') \<and> val e' = val e \<and> warned e' = warned e"
proof -
  obtain e1 where 1: "RegOpenKeyExW reg e = (0, True, e1)" "val e1 = val e" "warned e1 = warned e"
    using assms(1) unfolding registry_ok_def by blast
  obtain r a e2 where 2: "RegGetValueW reg name (2 * MAX_PATH) e1 = (r, a, e2)" "val e2 = val e1" "warned e2 = warned e1"
    "case val e1 name of Some s \<Rightarrow> if 2 * (length s + 1) \<le> 2 * MAX_PATH then r = 0 \<and> (\<exists>rest. a = s @ 0 # rest) else r \<noteq> 0 | None \<Rightarrow> r \<noteq> 0"
    using assms(1) unfolding registry_ok_def by blast
  have c: "val (RegCloseKey reg e2) = val e2" "warned (RegCloseKey reg e2) = warned e2"
    using assms(1) unfolding registry_ok_def by blast+
  show ?thesis
    using 1 2 c wcs_nul assms(2)
    by (cases "val e name") (auto simp: IsMyProgramRegisteredForStartup_def split: if_splits)
qed

lemma registers:
  assumes "registry_ok reg val exe warned" "0 \<notin> set exe" "length exe < MAX_PATH"
  shows "\<exists>e'. RegisterProgram reg name e = Some e' \<and> warned e' = warned e \<and>
    val e' = (val e)(name \<mapsto> wide [CHR 0x22] @ exe @ wide [CHR 0x22, CHR 0x20] @ wide ''-foobar'')"
proof -
  obtain rest e1 where 1: "GetModuleFileNameW reg e = (exe @ 0 # rest, e1)" "val e1 = val e" "warned e1 = warned e"
    using assms(1) unfolding registry_ok_def by blast
  obtain e2 where 2: "RegCreateKeyExW reg e1 = (0, True, e2)" "val e2 = val e1" "warned e2 = warned e1"
    using assms(1) unfolding registry_ok_def by blast
  let ?v = "wide [CHR 0x22] @ exe @ wide [CHR 0x22, CHR 0x20] @ wide ''-foobar''"
  obtain e3 where 3: "RegSetValueExW reg name (?v @ [0]) e2 = (0, e3)" "val e3 = (val e2)(name \<mapsto> takeWhile (\<lambda>c. c \<noteq> 0) (?v @ [0]))"
    "warned e3 = warned e2"
    using assms(1) unfolding registry_ok_def by blast
  have c: "val (RegCloseKey reg e3) = val e3" "warned (RegCloseKey reg e3) = warned e3"
    using assms(1) unfolding registry_ok_def by blast+
  have "0 \<notin> set ?v" using assms(2) by (simp add: wide_def)
  then have t: "takeWhile (\<lambda>c. c \<noteq> 0) (?v @ [0]) = ?v" by (subst takeWhile_append2) auto
  have "RegisterProgram reg name e = Some (RegCloseKey reg e3)"
    using 1(1) 2(1) 3(1) assms(3) wcs_nul [OF assms(2), of rest]
    by (simp add: RegisterProgram_def RegisterMyProgramForStartup_def cat_s_def wide_def)
  then show ?thesis using 1 2 3 c t by simp
qed

text \<open>C40: a program that is not registered yet warns and registers itself with its path in quotation marks, and at the next start it is
  found registered, silent, if its path has at most 249 characters; a longer one does not fit the array it is read
  into, so the program warns and writes the same entry at every start.\<close>

theorem startup_entry:
  assumes "registry_ok reg val exe warned" "0 \<notin> set exe" "length exe < MAX_PATH" "val e name = None"
  shows "\<exists>e1 e2. RegisterIfDoesntExist reg name e = Some e1 \<and> warned e1 = Suc (warned e) \<and>
    val e1 = (val e)(name \<mapsto> wide [CHR 0x22] @ exe @ wide [CHR 0x22, CHR 0x20] @ wide ''-foobar'') \<and>
    RegisterIfDoesntExist reg name e1 = Some e2 \<and> val e2 = val e1 \<and>
    warned e2 = (if length exe \<le> 249 then warned e1 else Suc (warned e1))"
proof -
  obtain rest f1 where 1: "GetModuleFileNameW reg e = (exe @ 0 # rest, f1)" "val f1 = val e" "warned f1 = warned e"
    using assms(1) unfolding registry_ok_def by blast
  obtain f2 where 2: "IsMyProgramRegisteredForStartup reg name f1 = Some (False, f2)" "val f2 = val e" "warned f2 = warned e"
    using is_registered [OF assms(1), of f1 name] 1 assms(4) by auto
  have w: "val (warn_user reg f) = val f" "warned (warn_user reg f) = Suc (warned f)" for f
    using assms(1) unfolding registry_ok_def by blast+
  let ?v = "wide [CHR 0x22] @ exe @ wide [CHR 0x22, CHR 0x20] @ wide ''-foobar''"
  obtain e1 where e1: "RegisterProgram reg name (warn_user reg f2) = Some e1" "warned e1 = Suc (warned e)" "val e1 = (val e)(name \<mapsto> ?v)"
    using registers [OF assms(1-3), of name "warn_user reg f2"] w 2 by auto
  have first: "RegisterIfDoesntExist reg name e = Some e1" using 1(1) 2(1) e1(1) by (simp add: RegisterIfDoesntExist_def)
  have v: "0 \<notin> set ?v" "length ?v = length exe + 10" using assms(2) by (simp_all add: wide_def)
  obtain rest' g1 where g1: "GetModuleFileNameW reg e1 = (exe @ 0 # rest', g1)" "val g1 = val e1" "warned g1 = warned e1"
    using assms(1) unfolding registry_ok_def by blast
  have le: "length exe < 250 \<longleftrightarrow> length exe \<le> 249" by arith
  have "val g1 name = Some ?v" using g1(2) e1(3) by simp
  then obtain g2 where g2: "IsMyProgramRegisteredForStartup reg name g1 = Some (length exe \<le> 249, g2)" "val g2 = val e1" "warned g2 = warned e1"
    using is_registered [OF assms(1), of g1 name] v g1(2,3) by (auto simp: wide_def le)
  obtain g3 where g3: "RegisterProgram reg name (warn_user reg g2) = Some g3" "warned g3 = Suc (warned e1)" "val g3 = (val e1)(name \<mapsto> ?v)"
    using registers [OF assms(1-3), of name "warn_user reg g2"] w g2 by auto
  let ?e2 = "if length exe \<le> 249 then g2 else g3"
  have "RegisterIfDoesntExist reg name e1 = Some ?e2" using g1(1) g2(1) g3(1) by (simp add: RegisterIfDoesntExist_def)
  moreover have "val ?e2 = val e1" using g2(2) g3(3) e1(3) by auto
  moreover have "warned ?e2 = (if length exe \<le> 249 then warned e1 else Suc (warned e1))" using g2(3) g3(2) by simp
  ultimately show ?thesis using first e1(2,3) by blast
qed

text \<open>A registry in memory, and a program whose path is one character too long.\<close>

type_synonym demo_keys = "(wchars \<rightharpoonup> wchars) \<times> nat"

definition demo_path :: wchars where
  "demo_path = replicate 250 0x61"

definition demo_registry :: "demo_keys registry" where
  "demo_registry = \<lparr>RegOpenKeyExW = (\<lambda>e. (0, True, e)),
     RegGetValueW = (\<lambda>n k e. case fst e n of None \<Rightarrow> (2, [], e)
        | Some s \<Rightarrow> if 2 * (length s + 1) \<le> k then (0, s @ [0], e) else (234, [], e)),
     RegCreateKeyExW = (\<lambda>e. (0, True, e)), RegSetValueExW = (\<lambda>n v e. (0, (fst e)(n \<mapsto> takeWhile (\<lambda>c. c \<noteq> 0) v), snd e)),
     RegCloseKey = (\<lambda>e. e), GetModuleFileNameW = (\<lambda>e. (demo_path @ [0], e)), warn_user = (\<lambda>e. (fst e, Suc (snd e)))\<rparr>"

lemma demo_registry_ok: "registry_ok demo_registry fst demo_path snd"
  by (auto simp: registry_ok_def demo_registry_def split: option.splits)

theorem startup_entry_witness:
  "\<exists>e1 e2. RegisterIfDoesntExist demo_registry (wide ''Argo'') (\<lambda>n. None, 0) = Some e1 \<and> snd e1 = 1 \<and>
     RegisterIfDoesntExist demo_registry (wide ''Argo'') e1 = Some e2 \<and> snd e2 = 2"
  using startup_entry [OF demo_registry_ok, of "(\<lambda>n. None, 0)" "wide ''Argo''"] by (auto simp: demo_path_def)

end
