(* ===== verification/Spec2Isabelle.thy ===== *)
theory Spec2Isabelle
  imports Aes_Properties Sha1_Properties Base64 Header_Properties Ws_Properties Reader_Properties
    Context_Properties Http_Properties Mirror_Properties Client_Properties Login_Session Card_Life Startup_Entry
begin

text \<open>
  A verification development for secure-rfid-login, a program for Windows that logs a user in to a web site with a card:
  a thread talks to a card reader on a serial port and keeps the credentials of the card that was read, and a
  websocket server on the local machine hands them to the page of one site, after asking the user. The C sources are
  under \<open>src/app/libwebsockets-master\<close>: the program in \<open>srl\<close>, and the library libwebsockets it is linked with in \<open>lib\<close>. A second
  program, \<open>src/app/srl-rfid-writer\<close>, writes cards; each of the two has an Arduino with a card reader at its serial port, whose
  sketches are in \<open>src/arduino\<close>.

  Build modelled: Windows with 32-bit pointers and \<open>size_t\<close>, extensions on, OpenSSL on, \<open>LWS_NO_CLIENT\<close>, the ROM tables
  of the cipher. All machine integers whose width matters are words of that width; \<open>int\<close> is an integer where the code
  keeps it in range.

  Conventions. A function that touches memory returns \<open>None\<close> when it would leave an array, follow a null or freed
  pointer, or not end; every other outcome, all error returns included, is a value. What is not in the sources (system calls,
  OpenSSL, MySQL, the serial API, message boxes, the application behind a callback) is a field of a record that is an
  argument of the definitions; its state is the last component of every state, a value of the type \<open>'e\<close>. Loops whose
  end depends on such a field are \<open>partial_function (option)\<close>, so that a theorem with \<open>Some\<close> includes that the
  loop ends; no fuel is used anywhere. All other recursions are total.

  Parts, from the inside out.

  \<^item> Prelude: machine types, bytes in arrays, C strings.

  \<^item> \<open>srl/aes.c\<close>, \<open>srl/EncDec.c\<close>: \<open>Aes_Tables\<close> (\<open>aes_gen_tables\<close> and the constant tables), \<open>Aes_Core\<close> (key schedules and
    \<open>aes_crypt_ecb\<close>), \<open>Aes_Modes\<close> (CBC, CFB128, CFB8, CTR over the locale of a block cipher), \<open>EncDec\<close>
    (credentials on a card), \<open>Aes_Properties\<close>. The standard itself: \<open>Aes_Gf\<close> (the field of 256 elements, and that the
    table \<open>FSb\<close> holds its inverses under the affine map), \<open>Aes_Fips\<close> (FIPS 197 over bytes, and that the code with its
    tables of words computes it), \<open>Aes_Example\<close> (the published example, evaluated in the logic).

  \<^item> \<open>lib/sha-1.c\<close>, \<open>app/sha1.c\<close>: \<open>Sha1_Spec\<close> (FIPS 180 and the locale of a buffered implementation), \<open>Sha1_Lib\<close> and
    \<open>Sha1_App\<close> (the two programs, each an interpretation of it), \<open>Sha1_Properties\<close>. \<open>lib/base64-decode.c\<close>: \<open>Base64\<close>.

  \<^item> \<open>lib/minilex.c\<close>, \<open>lib/parsers.c\<close>, first part: \<open>Lextable\<close> (the recogniser of header names and its generator),
    \<open>Header_Table\<close> (\<open>struct allocated_headers\<close>), \<open>Header_Parser\<close> (\<open>libwebsocket_parse\<close>), \<open>Header_Request\<close> (whole requests),
    \<open>Header_Properties\<close>.

  \<^item> \<open>lib/output.c\<close>, \<open>lib/parsers.c\<close>, second part: \<open>Ws_State\<close> (\<open>struct libwebsocket\<close>, callbacks and extensions),
    \<open>Ws_Send\<close> (\<open>libwebsocket_write\<close> down to \<open>lws_issue_raw\<close>, \<open>lws_handle_POLLOUT_event\<close>, flow control), \<open>Ws_Receive\<close>
    (\<open>libwebsocket_rx_sm\<close>), \<open>Ws_Framing\<close>, \<open>Ws_Wire\<close>, \<open>Ws_Safety\<close>, \<open>Ws_Control\<close> (frames on the wire, memory safety),
    \<open>Ws_Properties\<close>; \<open>Http_File\<close> (files over plain HTTP). \<open>lib/client-parser.c\<close>, the other end of the wire:
    \<open>Ws_Client\<close>, \<open>Client_Properties\<close>.

  \<^item> \<open>lib/server-handshake.c\<close>, \<open>lib/libwebsockets.c\<close>, \<open>lib/handshake.c\<close>, \<open>lib/server.c\<close>: \<open>Server_Handshake\<close> and
    \<open>Handshake_Reply\<close> (\<open>handshake_0405\<close> and its response), \<open>Ws_Context\<close> (the table of sockets, closing, time-outs), \<open>Context_Safety\<close> (its
    invariant, an interpretation of the locale of such tables), \<open>Context_Runs\<close> (runs as a step relation), \<open>Context_End\<close>
    (\<open>libwebsocket_context_destroy\<close>), \<open>Ws_Accept\<close>
    (\<open>libwebsocket_read\<close>), \<open>Ws_Service\<close> (\<open>lws_server_socket_service\<close>, \<open>libwebsocket_service_fd\<close>), \<open>Server_Write\<close>,
    \<open>Handshake_Close\<close>, \<open>Context_Properties\<close>.

  \<^item> \<open>srl/rs232.c\<close>, \<open>srl/ArduinoRFID.c\<close>, \<open>srl/DatabaseManager.c\<close>, \<open>srl/ArgoRFID_Reader.c\<close>: \<open>Serial_Port\<close>, \<open>Reader_Link\<close>,
    \<open>Card_Database\<close>, \<open>Card_Reader\<close>; \<open>Reader_Exchange\<close> (what is on the line), \<open>Reader_Safety\<close> (an arbitrary
    environment), \<open>Board_Search\<close>, \<open>Reader_Demo\<close>, \<open>Reader_Properties\<close>.

  \<^item> \<open>srl-rfid-writer/argoRFID-Writer/ArgoRFID-Writer.c\<close> (the other files of that program are copies of the ones above):
    \<open>Card_Writer\<close>, \<open>Writer_Session\<close>. \<open>arduino\<close>: \<open>Mifare\<close> (\<open>MifareRFID.cpp\<close>, blocks on a card), \<open>Card_Boards\<close> (the turns of both sketches),
    \<open>Board_Exchange\<close> (what they do with what arrives). \<open>Card_Life\<close>: all of them together.

  \<^item> \<open>srl/secure-rfid-login.c\<close>: \<open>Origin_Check\<close> (\<open>reject_request\<close>), \<open>Login_Server\<close> (\<open>callback_dumb_increment\<close>, \<open>get_credential\<close>),
    \<open>Login_Http\<close> (\<open>callback_http\<close> and the table for an external poll, a second interpretation of the locale of tables), \<open>Mirror\<close>
    and \<open>Mirror_Ring\<close> (\<open>callback_lws_mirror\<close> and its ring); \<open>Login_Handshake\<close>, \<open>Login_Message\<close> (the library and
    the program together), \<open>Login_Properties\<close>, \<open>Login_Session\<close>, \<open>Http_Properties\<close>, \<open>Mirror_Properties\<close>.
    \<open>srl/system-register.c\<close>: \<open>Startup_Entry\<close>.

  What is shown. The credentials: a request for the protocol that hands them out is refused when its origin is not the authorised page (the other
  protocol and plain HTTP have no such check), and nothing is sent without
  a card and without the consent of the user; a login goes through from the bytes of the request to the two frames with
  the credentials (\<open>login_session\<close>). The cards: what is typed into the writing program goes through two boards and a card and comes out at
  the service (\<open>card_life\<close>). Underneath: a request is parsed to the map of its headers, and no input
  makes the parser or the frame machine leave its arrays; frames written are read back; partial sends are completed or, where the code is
  wrong, lost as stated; the table of sockets keeps its invariant along all runs; the mirror ring is a queue for every session;
  credentials the reader offers are those of one card that the run has read, whose serial
  number the database had when it was asked, and names that do not fit the notification are told apart exactly; ciphers and digests invert or equal their definitions.
  Several theorems state behaviour that is not intended, as the source has it: an origin of 256 bytes or more
  passes the check when the upgrade header holds the address, a file that became shorter is never finished, stale parts
  of a message are accepted, half of a serial number is enough.

  Bounds. Lengths of sends and frames are below \<open>2 ^ 31\<close> or \<open>2 ^ 32\<close> where the code counts in 32 bits; a request fits the 1024 bytes
  of the header table; digests are for messages below \<open>2 ^ 64\<close> bits.

  Simplifications. The members of the union in \<open>struct libwebsocket\<close> are kept side by side; a change of member is the clearing that
  the code does (\<open>union_clear\<close>). A callback of the library's model sees its own connection only; the mirror
  protocol, whose handler reaches all connections, is modelled over the whole context. \<open>runs\<close> relates a
  total callback to the partial model of a handler. The \<open>events\<close> of the table are kept with the connections.

  Not modelled: the creation of a context, the loop around the service, the client half of the library but for
  its receive machine, the extensions themselves, logging; the Linux half of \<open>rs232.c\<close>; the
  self tests; tray icon and program start, which are calls of the Windows API; the set-up of the boards, their
  lamps, tones and pauses; the browser add-on; vendored code (zlib, Windows helpers), examples and copies of the files above.
\<close>

end
